(* ===== verification/Prelude.thy ===== *)
theory Prelude
  imports Main
begin

text \<open>
  Shared vocabulary of the development: how a Rust call ends (\<open>Ok\<close>, \<open>Err\<close>, a panic), the
  named theorem collections the component theories fill, and generic lemmas on lists, options
  and bounded least fixed points that several components use.
\<close>

section \<open>Theorem collections\<close>

named_theorems rust_simps "evaluation rules of the Rust outcome combinators"
named_theorems rust_elims "inversion rules of the Rust outcome combinators"
named_theorems cursor_simps "frame rules of the token cursor"
named_theorems dom_simps "rules of the abstract domains"

section \<open>Outcomes of Rust calls\<close>

text \<open>
  A fallible Rust function returns \<open>Ok\<close> or \<open>Err\<close>, or it unwinds: a failed \<open>assert!\<close>, an
  \<open>unwrap\<close> on \<open>None\<close>, an index out of range, \<open>unreachable!\<close> and \<open>unimplemented!\<close> are all
  \<open>Panic\<close>. A function that only panics and has no error type returns an \<^typ>\<open>'a option\<close> instead,
  \<^term>\<open>None\<close> being the panic.
\<close>

datatype ('e, 'a) outcome = Ok 'a | Err 'e | Panic

fun and_then :: "('e, 'a) outcome \<Rightarrow> ('a \<Rightarrow> ('e, 'b) outcome) \<Rightarrow> ('e, 'b) outcome" where
  "and_then (Ok x) f = f x"
| "and_then (Err e) f = Err e"
| "and_then Panic f = Panic"

text \<open>\<open>unwrap_or_panic\<close> turns a panicking computation into an outcome.\<close>

fun or_panic :: "'a option \<Rightarrow> ('e, 'a) outcome" where
  "or_panic (Some x) = Ok x"
| "or_panic None = Panic"

declare and_then.simps [rust_simps] or_panic.simps [rust_simps]

lemma and_then_Ok [rust_simps]:
  "and_then m f = Ok y \<longleftrightarrow> (\<exists>x. m = Ok x \<and> f x = Ok y)"
  by (cases m) auto

lemma and_then_Err [rust_simps]:
  "and_then m f = Err e \<longleftrightarrow> m = Err e \<or> (\<exists>x. m = Ok x \<and> f x = Err e)"
  by (cases m) auto

lemma and_then_Panic [rust_simps]:
  "and_then m f = Panic \<longleftrightarrow> m = Panic \<or> (\<exists>x. m = Ok x \<and> f x = Panic)"
  by (cases m) auto

lemma or_panic_Ok [rust_simps]: "or_panic m = Ok x \<longleftrightarrow> m = Some x"
  by (cases m) auto

lemma or_panic_Err [rust_simps]: "or_panic m \<noteq> Err e"
  by (cases m) auto

lemma or_panic_Panic [rust_simps]: "or_panic m = Panic \<longleftrightarrow> m = None"
  by (cases m) auto

lemma and_then_cong [fundef_cong]:
  "\<lbrakk>m = m'; \<And>x. m' = Ok x \<Longrightarrow> f x = f' x\<rbrakk> \<Longrightarrow> and_then m f = and_then m' f'"
  by (cases m') auto

section \<open>Folds that may panic\<close>

text \<open>\<open>for x in xs { s = f(s, x)? }\<close>, where a panic of the body stops the loop.\<close>

fun fold_opt :: "('a \<Rightarrow> 's \<Rightarrow> 's option) \<Rightarrow> 'a list \<Rightarrow> 's \<Rightarrow> 's option" where
  "fold_opt f [] s = Some s"
| "fold_opt f (x # xs) s = (case f x s of None \<Rightarrow> None | Some s' \<Rightarrow> fold_opt f xs s')"

lemma fold_opt_append:
  "fold_opt f (xs @ ys) s = Option.bind (fold_opt f xs s) (fold_opt f ys)"
  by (induction xs arbitrary: s) (auto split: option.splits)

lemma fold_opt_snoc: "fold_opt f (xs @ [x]) s = Option.bind (fold_opt f xs s) (f x)"
  by (induction xs arbitrary: s) (auto split: option.splits)

lemma fold_opt_invariant:
  assumes "fold_opt f xs s = Some s'" and "P s"
    and "\<And>x t t'. x \<in> set xs \<Longrightarrow> P t \<Longrightarrow> f x t = Some t' \<Longrightarrow> P t'"
  shows "P s'"
  using assms
proof (induction xs arbitrary: s)
  case Nil
  then show ?case by simp
next
  case (Cons x xs)
  from Cons.prems(1) obtain t where t: "f x s = Some t" "fold_opt f xs t = Some s'"
    by (auto split: option.splits)
  moreover from t(1) Cons.prems(2,3) have "P t" by auto
  ultimately show ?case
    using Cons.IH Cons.prems(3) by (meson list.set_intros(2))
qed

lemma fold_opt_cong [fundef_cong]:
  "\<lbrakk>xs = ys; s = t; \<And>x u. x \<in> set ys \<Longrightarrow> f x u = g x u\<rbrakk> \<Longrightarrow> fold_opt f xs s = fold_opt g ys t"
  by (induction xs arbitrary: s ys t) (auto split: option.splits)

text \<open>\<open>for x in xs { s = f(s, x)?; }\<close>, where the body may also return an error.\<close>

fun for_each :: "('a \<Rightarrow> 's \<Rightarrow> ('e, 's) outcome) \<Rightarrow> 'a list \<Rightarrow> 's \<Rightarrow> ('e, 's) outcome" where
  "for_each f [] s = Ok s"
| "for_each f (x # xs) s = and_then (f x s) (for_each f xs)"

lemma for_each_eq: "(\<And>x u. x \<in> set xs \<Longrightarrow> f x u = g x u) \<Longrightarrow> for_each f xs s = for_each g xs s"
proof (induction xs arbitrary: s)
  case (Cons x xs)
  have eq: "f x s = g x s" by (rule Cons.prems) simp
  have "for_each f xs t = for_each g xs t" for t
    by (rule Cons.IH) (rule Cons.prems, simp)
  then have "for_each f xs = for_each g xs" by (rule ext)
  with eq show ?case by (simp only: for_each.simps)
qed simp

lemma for_each_cong [fundef_cong]:
  "\<lbrakk>xs = ys; s = t; \<And>x u. x \<in> set ys \<Longrightarrow> f x u = g x u\<rbrakk> \<Longrightarrow> for_each f xs s = for_each g ys t"
  by (hypsubst, rule for_each_eq) simp

lemma for_each_append: "for_each f (xs @ ys) s = and_then (for_each f xs s) (for_each f ys)"
proof (induction xs arbitrary: s)
  case (Cons x xs)
  then show ?case by (cases "f x s") simp_all
qed simp

lemma for_each_invariant:
  assumes "for_each f xs s = Ok t" and "P s"
    and "\<And>x u u'. x \<in> set xs \<Longrightarrow> P u \<Longrightarrow> f x u = Ok u' \<Longrightarrow> P u'"
  shows "P t"
  using assms
proof (induction xs arbitrary: s)
  case (Cons x xs)
  then obtain u where "f x s = Ok u" "for_each f xs u = Ok t" by (auto simp: rust_simps)
  with Cons show ?case by (meson list.set_intros)
qed simp

text \<open>A loop panics where its body panics after the elements before it succeeded.\<close>

lemma for_each_Panic:
  "for_each f xs s = Panic \<longleftrightarrow> (\<exists>pre x post t. xs = pre @ x # post \<and> for_each f pre s = Ok t \<and> f x t = Panic)"
proof (induction xs arbitrary: s)
  case (Cons x xs)
  show ?case
  proof
    assume "for_each f (x # xs) s = Panic"
    then consider "f x s = Panic" | t where "f x s = Ok t" "for_each f xs t = Panic" by (auto simp: rust_simps)
    then show "\<exists>pre y post t. x # xs = pre @ y # post \<and> for_each f pre s = Ok t \<and> f y t = Panic"
    proof cases
      case 1
      then show ?thesis by (intro exI [of _ "[]"]) simp
    next
      case 2
      from Cons.IH [of t] 2(2) obtain pre y post u
        where "xs = pre @ y # post" "for_each f pre t = Ok u" "f y u = Panic" by blast
      with 2(1) show ?thesis by (intro exI [of _ "x # pre"]) simp
    qed
  next
    assume "\<exists>pre y post t. x # xs = pre @ y # post \<and> for_each f pre s = Ok t \<and> f y t = Panic"
    then obtain pre y post t where "x # xs = pre @ y # post" "for_each f pre s = Ok t" "f y t = Panic" by blast
    then show "for_each f (x # xs) s = Panic" by (simp only: for_each_append) simp
  qed
qed simp

text \<open>A loop whose body always succeeds is a fold.\<close>

lemma for_each_fold: "(\<And>x u. x \<in> set xs \<Longrightarrow> f x u = Ok (g x u)) \<Longrightarrow> for_each f xs s = Ok (fold g xs s)"
  by (induction xs arbitrary: s) auto

section \<open>Lists\<close>

text \<open>A prefix of a list is what \<open>iter().zip(..).all(==)\<close> on two slices checks.\<close>

lemma zip_all_eq_iff_take:
  "length ys \<le> length xs \<Longrightarrow> list_all (\<lambda>(x, y). x = y) (zip xs ys) \<longleftrightarrow> take (length ys) xs = ys"
proof (induction ys arbitrary: xs)
  case Nil
  then show ?case by simp
next
  case (Cons y ys)
  then show ?case by (cases xs) auto
qed

text \<open>Membership in the result of nested loops over lists of pairs.\<close>

lemma in_concat_map_pair:
  "y \<in> set (concat (map (\<lambda>(a, b). g a b) xs)) \<longleftrightarrow> (\<exists>a b. (a, b) \<in> set xs \<and> y \<in> set (g a b))"
  by force

lemma in_map_pair: "y \<in> set (map (\<lambda>(a, b). g a b) xs) \<longleftrightarrow> (\<exists>a b. (a, b) \<in> set xs \<and> y = g a b)"
  by force

lemma distinct_append_singleton [simp]: "distinct (xs @ [x]) \<longleftrightarrow> distinct xs \<and> x \<notin> set xs"
  by auto

end
