(* ===== verification/BTree.thy ===== *)
theory BTree
  imports Prelude
begin

text \<open>
  The ordered containers of the standard library, \<open>BTreeSet\<close> and \<open>BTreeMap\<close>, over a linear
  order. A container is the list of its entries in iteration order: a strictly sorted list for
  the set, an association list with strictly sorted keys for the map. The locale
  \<open>ordered_map\<close> is the interface the components use: lookup after insert, iteration in key
  order; it is interpreted on the list model below.
\<close>

section \<open>BTreeSet\<close>

type_synonym 'a btset = "'a list"

definition bs_insert :: "'a::linorder \<Rightarrow> 'a btset \<Rightarrow> 'a btset" where
  "bs_insert x s = (if x \<in> set s then s else insort x s)"

definition bs_ok :: "'a::linorder btset \<Rightarrow> bool" where
  "bs_ok s \<longleftrightarrow> sorted s \<and> distinct s"

text \<open>Collecting an iterator into a set inserts the items one after the other.\<close>

definition bs_from :: "'a::linorder list \<Rightarrow> 'a btset" where
  "bs_from xs = fold bs_insert xs []"

lemma set_bs_insert [simp]: "set (bs_insert x s) = insert x (set s)"
  by (auto simp: bs_insert_def set_insort_key)

lemma bs_ok_insert [simp]: "bs_ok s \<Longrightarrow> bs_ok (bs_insert x s)"
  by (auto simp: bs_ok_def bs_insert_def sorted_insort distinct_insort)

lemma bs_ok_Nil [simp]: "bs_ok []"
  by (simp add: bs_ok_def)

lemma bs_ok_tl: "bs_ok (x # s) \<Longrightarrow> bs_ok s"
  by (auto simp: bs_ok_def)

lemma set_fold_bs_insert [simp]: "set (fold bs_insert xs s) = set xs \<union> set s"
  by (induction xs arbitrary: s) auto

lemma set_bs_from [simp]: "set (bs_from xs) = set xs"
  by (simp add: bs_from_def)

lemma bs_ok_fold: "bs_ok s \<Longrightarrow> bs_ok (fold bs_insert xs s)"
  by (induction xs arbitrary: s) auto

lemma bs_ok_from [simp]: "bs_ok (bs_from xs)"
  by (simp add: bs_from_def bs_ok_fold)

text \<open>Two ordered sets with the same elements are the same container.\<close>

lemma bs_eq_iff: "bs_ok s \<Longrightarrow> bs_ok t \<Longrightarrow> s = t \<longleftrightarrow> set s = set t"
  by (auto simp: bs_ok_def sorted_distinct_set_unique)

lemma bs_from_sorted: "bs_ok s \<Longrightarrow> bs_from s = s"
  by (simp add: bs_eq_iff)

section \<open>BTreeMap\<close>

type_synonym ('k, 'v) btmap = "('k \<times> 'v) list"

fun bm_insert :: "'k::linorder \<Rightarrow> 'v \<Rightarrow> ('k, 'v) btmap \<Rightarrow> ('k, 'v) btmap" where
  "bm_insert k v [] = [(k, v)]"
| "bm_insert k v ((k', v') # m) =
     (if k < k' then (k, v) # (k', v') # m
      else if k = k' then (k, v) # m
      else (k', v') # bm_insert k v m)"

definition bm_get :: "('k, 'v) btmap \<Rightarrow> 'k \<Rightarrow> 'v option" where
  "bm_get m k = map_of m k"

definition bm_keys :: "('k, 'v) btmap \<Rightarrow> 'k list" where
  "bm_keys m = map fst m"

definition bm_ok :: "('k::linorder, 'v) btmap \<Rightarrow> bool" where
  "bm_ok m \<longleftrightarrow> sorted (bm_keys m) \<and> distinct (bm_keys m)"

text \<open>\<open>m.entry(k).or_insert(d)\<close> followed by an update of the entry.\<close>

definition bm_update :: "'k::linorder \<Rightarrow> 'v \<Rightarrow> ('v \<Rightarrow> 'v) \<Rightarrow> ('k, 'v) btmap \<Rightarrow> ('k, 'v) btmap" where
  "bm_update k d f m = bm_insert k (f (case bm_get m k of None \<Rightarrow> d | Some v \<Rightarrow> v)) m"

lemma set_bm_keys_insert: "set (bm_keys (bm_insert k v m)) = insert k (set (bm_keys m))"
  by (induction k v m rule: bm_insert.induct) (auto simp: bm_keys_def)

lemma bm_ok_insert: "bm_ok m \<Longrightarrow> bm_ok (bm_insert k v m)"
proof (induction k v m rule: bm_insert.induct)
  case (1 k v)
  then show ?case by (simp add: bm_ok_def bm_keys_def)
next
  case (2 k v k' v' m)
  have "k' \<notin> set (bm_keys (bm_insert k v m))" if "k \<noteq> k'"
    using 2 that by (auto simp: set_bm_keys_insert bm_ok_def) (simp add: bm_keys_def)
  with 2 show ?case
    using set_bm_keys_insert [of k v m]
    by (fastforce simp: bm_ok_def bm_keys_def less_le)
qed

lemma bm_get_insert: "bm_ok m \<Longrightarrow> bm_get (bm_insert k v m) = (bm_get m)(k \<mapsto> v)"
proof (induction k v m rule: bm_insert.induct)
  case (1 k v)
  then show ?case by (simp add: bm_get_def fun_eq_iff)
next
  case (2 k v k' v' m)
  then have "bm_ok m" by (auto simp: bm_ok_def bm_keys_def)
  with 2 show ?case
    by (auto simp: bm_get_def fun_eq_iff)
qed

lemma bm_get_keys: "bm_get m k \<noteq> None \<longleftrightarrow> k \<in> set (bm_keys m)"
  by (simp add: bm_get_def bm_keys_def map_of_eq_None_iff)

lemma bm_keys_sorted: "bm_ok m \<Longrightarrow> sorted (bm_keys m) \<and> distinct (bm_keys m)"
  by (simp add: bm_ok_def)

lemma bm_get_entry: "bm_ok m \<Longrightarrow> bm_get m k = Some v \<longleftrightarrow> (k, v) \<in> set m"
  by (simp add: bm_get_def bm_ok_def bm_keys_def)

section \<open>The interface of an ordered map\<close>

locale ordered_map =
  fixes empty_map :: "'m"
    and insert_map :: "'k::linorder \<Rightarrow> 'v \<Rightarrow> 'm \<Rightarrow> 'm"
    and get_map :: "'m \<Rightarrow> 'k \<Rightarrow> 'v option"
    and keys_map :: "'m \<Rightarrow> 'k list"
    and ok_map :: "'m \<Rightarrow> bool"
  assumes ok_empty: "ok_map empty_map"
    and ok_insert: "ok_map m \<Longrightarrow> ok_map (insert_map k v m)"
    and get_empty: "get_map empty_map k = None"
    and get_insert: "ok_map m \<Longrightarrow> get_map (insert_map k v m) = (get_map m)(k \<mapsto> v)"
    and keys_sorted: "ok_map m \<Longrightarrow> sorted (keys_map m) \<and> distinct (keys_map m)"
    and keys_get: "ok_map m \<Longrightarrow> k \<in> set (keys_map m) \<longleftrightarrow> get_map m k \<noteq> None"
begin

text \<open>A map filled by a loop over keys with a value computed per key.\<close>

lemma ok_build: "ok_map m \<Longrightarrow> ok_map (fold (\<lambda>k. insert_map k (f k)) ks m)"
  by (induction ks arbitrary: m) (auto simp: ok_insert)

lemma get_build:
  "ok_map m \<Longrightarrow> get_map (fold (\<lambda>k. insert_map k (f k)) ks m) k
     = (if k \<in> set ks then Some (f k) else get_map m k)"
  by (induction ks arbitrary: m) (auto simp: ok_insert get_insert)

lemma get_build_empty:
  "get_map (fold (\<lambda>k. insert_map k (f k)) ks empty_map) k = (if k \<in> set ks then Some (f k) else None)"
  by (simp add: get_build ok_empty get_empty)

text \<open>A loop over key-value pairs whose keys are distinct stores every pair.\<close>

lemma ok_collect: "ok_map m \<Longrightarrow> ok_map (fold (\<lambda>(k, v). insert_map k v) kvs m)"
  by (induction kvs arbitrary: m) (auto simp: ok_insert)

lemma get_collect:
  "\<lbrakk>ok_map m; distinct (map fst kvs)\<rbrakk> \<Longrightarrow>
     get_map (fold (\<lambda>(k, v). insert_map k v) kvs m) k
       = (case map_of kvs k of Some v \<Rightarrow> Some v | None \<Rightarrow> get_map m k)"
proof (induction kvs arbitrary: m)
  case Nil
  then show ?case by simp
next
  case (Cons kv kvs)
  obtain k' v' where kv: "kv = (k', v')" by (cases kv)
  have "map_of kvs k' = None" using Cons.prems(2) kv by (simp add: map_of_eq_None_iff)
  with Cons kv show ?case
    by (auto simp: ok_insert get_insert split: option.splits)
qed

lemma keys_build: "set (keys_map (fold (\<lambda>k. insert_map k (f k)) ks empty_map)) = set ks"
  by (auto simp: keys_get ok_build ok_empty get_build_empty split: if_splits)

end

interpretation btm: ordered_map "[]" bm_insert bm_get bm_keys bm_ok
proof unfold_locales
  show "bm_ok []" by (simp add: bm_ok_def bm_keys_def)
  show "bm_get [] k = None" for k :: 'a by (simp add: bm_get_def)
  show "k \<in> set (bm_keys m) \<longleftrightarrow> bm_get m k \<noteq> None" for m :: "('a, 'b) btmap" and k
    by (simp only: bm_get_keys)
qed (auto simp: bm_ok_insert bm_get_insert bm_keys_sorted)

lemma bm_ok_update: "bm_ok m \<Longrightarrow> bm_ok (bm_update k d f m)"
  by (simp add: bm_update_def bm_ok_insert)

lemma bm_get_update:
  "bm_ok m \<Longrightarrow> bm_get (bm_update k d f m) k'
     = (if k' = k then Some (f (case bm_get m k of None \<Rightarrow> d | Some v \<Rightarrow> v)) else bm_get m k')"
  by (simp add: bm_update_def bm_get_insert)

end
