(* ===== verification/MirSyntax.thy ===== *)
theory MirSyntax
  imports Prelude
begin

text \<open>
  The part of the compiler's MIR and type syntax that the frontend inspects by pattern matching.
  The constructors are those of the \<open>match\<close> expressions in
  \<open>analysis/src/domains/definitely_initialized/utils.rs\<close> (types, regions, generic arguments,
  projections), \<open>analysis/src/domains/definitely_initialized/state.rs\<close> and
  \<open>translation/src/body/translation\<close> (constants, operands, rvalues, statements) and \<open>translation/src/environment/mir_utils/real_edges.rs\<close> (terminators, which are
  matched exhaustively there). Payloads the frontend never inspects are opaque numbers;
  constructors it never names are one \<open>Other\<close> constructor. Everything the compiler
  \<^emph>\<open>computes\<close> (successors, predecessors, dominators, the type of a place, path hashes) is a
  parameter of the definitions that use it.
\<close>

section \<open>Types, regions and generic arguments\<close>

type_synonym def_id = nat
type_synonym mutability = nat       \<comment> \<open>the discriminant: \<open>Not\<close> is 0, \<open>Mut\<close> is 1\<close>
type_synonym int_ty = nat           \<comment> \<open>the discriminant of the fieldless enums \<open>IntTy\<close>, \<open>UintTy\<close>, \<open>FloatTy\<close>\<close>
type_synonym alias_kind = nat       \<comment> \<open>the discriminant of \<open>AliasTyKind\<close>\<close>
type_synonym const = nat            \<comment> \<open>an interned constant, never inspected\<close>

datatype bound_var_index_kind = BoundIdx nat | Canonical

datatype region =
    ReEarlyParam (early_index: nat) (early_name: string)
  | ReBound bound_var_index_kind (bound_var: nat) (bound_kind: nat)
  | ReLateParam nat
  | ReStatic
  | ReVar nat
  | RePlaceholder nat
  | ReErased
  | ReError nat

datatype ty =
    TyBool
  | TyChar
  | TyInt int_ty
  | TyUint int_ty
  | TyFloat int_ty
  | TyAdt def_id "generic_arg list"
  | TyForeign def_id
  | TyStr
  | TyArray ty const
  | TySlice ty
  | TyRawPtr ty mutability
  | TyRef region ty mutability
  | TyFnDef def_id "generic_arg list"
  | TyFnPtr "ty list" nat                     \<comment> \<open>inputs and output, below a binder, and the header\<close>
  | TyDynamic nat "generic_arg list" region     \<comment> \<open>the arguments of the predicates, below their binders\<close>
  | TyClosure def_id "generic_arg list"
  | TyCoroutineClosure def_id "generic_arg list"
  | TyCoroutine def_id "generic_arg list"
  | TyCoroutineWitness def_id "generic_arg list"
  | TyNever
  | TyTuple "ty list"
  | TyPat ty nat
  | TyAlias alias_kind def_id "generic_arg list"
  | TyParam (param_index: nat) (param_name: string)
  | TyBound bound_var_index_kind nat
  | TyPlaceholder nat
  | TyInfer nat
  | TyError nat
  | TyUnsafeBinder ty                         \<comment> \<open>below a binder\<close>
and generic_arg =
    ArgConst const
  | ArgType ty
  | ArgLifetime region

section \<open>Places\<close>

type_synonym mir_local = nat
type_synonym basic_block = nat

datatype place_elem =
    Deref
  | Field nat ty
  | Index mir_local
  | ConstantIndex nat nat bool      \<comment> \<open>\<open>offset\<close>, \<open>min_length\<close>, \<open>from_end\<close>\<close>
  | Subslice nat nat bool           \<comment> \<open>\<open>from\<close>, \<open>to\<close>, \<open>from_end\<close>\<close>
  | Downcast "string option" nat
  | OpaqueCast ty
  | UnwrapUnsafeBinder ty

record place =
  local_of :: mir_local
  projection :: "place_elem list"

text \<open>\<open>Place::from(local)\<close>: the place of a whole local.\<close>

definition place_of_local :: "mir_local \<Rightarrow> place" where
  "place_of_local l = \<lparr>local_of = l, projection = []\<rparr>"

lemma place_of_local_sel [simp]:
  "local_of (place_of_local l) = l" "projection (place_of_local l) = []"
  by (simp_all add: place_of_local_def)

lemma place_of_local_inject [simp]: "place_of_local l = place_of_local l' \<longleftrightarrow> l = l'"
  by (simp add: place_of_local_def)

section \<open>Statements, terminators, bodies\<close>

text \<open>Constants, as far as \<open>translation/src/body/translation/constants.rs\<close> looks into them.\<close>

datatype scalar =
    ScalarInt nat nat              \<comment> \<open>\<open>data\<close>, a \<open>u128\<close>, and \<open>size\<close> in bytes\<close>
  | ScalarPtr nat                  \<comment> \<open>the allocation the pointer goes to\<close>

datatype const_value = CvScalar scalar | CvZeroSized | CvOther nat

datatype ty_const =
    CkValue ty "(nat \<times> nat) option"   \<comment> \<open>the type, and \<open>data\<close> and \<open>size\<close> when the value is a leaf\<close>
  | CkOther nat

datatype mir_const =
    ConstTy ty ty_const
  | ConstVal const_value ty
  | ConstUnevaluated nat ty

datatype operand = Copy place | Move place | Constant mir_const | RuntimeChecks nat

datatype bin_op =
    BinAdd | BinAddUnchecked | BinAddWithOverflow
  | BinSub | BinSubUnchecked | BinSubWithOverflow
  | BinMul | BinMulUnchecked | BinMulWithOverflow
  | BinDiv | BinRem | BinBitXor | BinBitAnd | BinBitOr
  | BinShl | BinShlUnchecked | BinShr | BinShrUnchecked
  | BinEq | BinLt | BinLe | BinNe | BinGe | BinGt | BinCmp | BinOffset

datatype un_op = UnNot | UnNeg | UnPtrMetadata

datatype pointer_coercion =
    ReifyFnPointer | UnsafeFnPointer | ClosureFnPointer | MutToConstPointer | ArrayToPointer | Unsize

datatype cast_kind =
    PointerExposeProvenance | PointerWithExposedProvenance | PointerCoercion pointer_coercion
  | IntToInt | FloatToInt | FloatToFloat | IntToFloat | PtrToPtr | FnPtrToPtr | Transmute | Subtype

datatype aggregate_kind =
    AggTuple
  | AggAdt def_id nat "generic_arg list"      \<comment> \<open>the variant, the arguments\<close>
  | AggClosure def_id "generic_arg list"
  | AggOther nat

datatype borrow_kind = BorShared | BorFake nat | BorMut nat

datatype raw_ptr_kind = RawMut | RawConst | RawFakeForPtrMetadata

datatype rvalue =
    Use operand
  | Repeat operand nat
  | Ref region borrow_kind place
  | RawPtr raw_ptr_kind place
  | Cast cast_kind operand ty
  | UnaryOp un_op operand
  | BinaryOp bin_op operand operand
  | Discriminant place
  | Aggregate aggregate_kind "operand list"
  | CopyForDeref place
  | OtherRvalue nat                           \<comment> \<open>\<open>ThreadLocalRef\<close>, \<open>WrapUnsafeBinder\<close>\<close>

datatype statement =
    Assign place rvalue
  | StorageLive mir_local
  | StorageDead mir_local
  | FakeRead nat
  | IntrinsicAssume operand
  | IntrinsicCopyNonOverlapping nat
  | PlaceMention place
  | SetDiscriminant place nat
  | OtherStatement nat

datatype unwind_action = UnwindContinue | UnwindUnreachable | UnwindTerm | Cleanup basic_block

datatype terminator =
    Goto basic_block
  | SwitchInt operand "nat list" "basic_block list"   \<comment> \<open>the values, their targets and the otherwise target\<close>
  | UnwindResume
  | UnwindTerminate
  | Return
  | Unreachable
  | Drop place basic_block unwind_action
  | Call operand "operand list" place "basic_block option" unwind_action
  | TailCall operand "operand list"
  | Assert operand bool basic_block unwind_action
  | Yield operand basic_block "basic_block option"
  | CoroutineDrop
  | FalseEdge basic_block basic_block
  | FalseUnwind basic_block unwind_action
  | InlineAsm "basic_block list" unwind_action

record block_data =
  statements :: "statement list"
  terminator :: terminator

text \<open>
  A body: its blocks (the block \<open>b\<close> is the \<open>b\<close>-th one, block 0 is \<open>START_BLOCK\<close>), the number of
  its locals and the number of arguments. Local 0 is the return place, then come the arguments,
  then variables and temporaries.
\<close>

record body =
  basic_blocks :: "block_data list"
  local_count :: nat
  arg_count :: nat

abbreviation n_blocks :: "body \<Rightarrow> nat" where
  "n_blocks m \<equiv> length (basic_blocks m)"

definition args_iter :: "body \<Rightarrow> mir_local list" where
  "args_iter m = [1..<Suc (arg_count m)]"

definition vars_and_temps_iter :: "body \<Rightarrow> mir_local list" where
  "vars_and_temps_iter m = [Suc (arg_count m)..<local_count m]"

text \<open>A program point: a statement of a block, or, with the index one past them, its terminator.\<close>

record location =
  loc_block :: basic_block
  statement_index :: nat

abbreviation loc :: "basic_block \<Rightarrow> nat \<Rightarrow> location" where
  "loc b i \<equiv> \<lparr>loc_block = b, statement_index = i\<rparr>"

definition successor_within_block :: "location \<Rightarrow> location" where
  "successor_within_block l = l\<lparr>statement_index := Suc (statement_index l)\<rparr>"

definition terminator_loc :: "body \<Rightarrow> basic_block \<Rightarrow> location" where
  "terminator_loc m b = loc b (length (statements (basic_blocks m ! b)))"

text \<open>\<open>mir[block].statements[index]\<close> and \<open>mir[block].terminator()\<close>; out of range is a panic.\<close>

definition statement_at :: "body \<Rightarrow> location \<Rightarrow> statement option" where
  "statement_at m l =
     (if loc_block l < n_blocks m \<and> statement_index l < length (statements (basic_blocks m ! loc_block l))
      then Some (statements (basic_blocks m ! loc_block l) ! statement_index l) else None)"

definition terminator_at :: "body \<Rightarrow> basic_block \<Rightarrow> terminator option" where
  "terminator_at m b = (if b < n_blocks m then Some (terminator (basic_blocks m ! b)) else None)"

section \<open>The control-flow queries of the compiler\<close>

text \<open>
  \<open>Terminator::successors\<close> and \<open>BasicBlocks::predecessors\<close> are compiler code: parameters. Their
  documented relation, which the fixpoint engine needs, is \<open>cfg_ok\<close>: targets of terminators are
  blocks of the body, and \<open>predecessors\<close> lists exactly the blocks with an edge into a block.
\<close>

record cfg =
  successors :: "terminator \<Rightarrow> basic_block list"
  predecessors :: "body \<Rightarrow> basic_block \<Rightarrow> basic_block list"

abbreviation succs_of :: "cfg \<Rightarrow> body \<Rightarrow> basic_block \<Rightarrow> basic_block list" where
  "succs_of G m b \<equiv> successors G (terminator (basic_blocks m ! b))"

definition cfg_ok :: "cfg \<Rightarrow> body \<Rightarrow> bool" where
  "cfg_ok G m \<longleftrightarrow>
     0 < n_blocks m \<and>
     (\<forall>b < n_blocks m. \<forall>t \<in> set (succs_of G m b). t < n_blocks m) \<and>
     (\<forall>b < n_blocks m. set (predecessors G m b) = {p. p < n_blocks m \<and> b \<in> set (succs_of G m p)})"

lemma cfg_ok_succ: "cfg_ok G m \<Longrightarrow> b < n_blocks m \<Longrightarrow> t \<in> set (succs_of G m b) \<Longrightarrow> t < n_blocks m"
  by (simp add: cfg_ok_def)

lemma cfg_ok_pred:
  "cfg_ok G m \<Longrightarrow> b < n_blocks m \<Longrightarrow>
     p \<in> set (predecessors G m b) \<longleftrightarrow> p < n_blocks m \<and> b \<in> set (succs_of G m p)"
  by (simp add: cfg_ok_def)

text \<open>
  A concrete control-flow graph for evaluating the analyses on small bodies: every block a
  terminator names is a successor, and the predecessors are searched.
\<close>

definition unwind_targets :: "unwind_action \<Rightarrow> basic_block list" where
  "unwind_targets u = (case u of Cleanup b \<Rightarrow> [b] | _ \<Rightarrow> [])"

definition option_list :: "'a option \<Rightarrow> 'a list" where
  "option_list x = (case x of None \<Rightarrow> [] | Some y \<Rightarrow> [y])"

fun named_targets :: "terminator \<Rightarrow> basic_block list" where
  "named_targets (Goto t) = [t]"
| "named_targets (SwitchInt _ _ ts) = ts"
| "named_targets (Drop _ t u) = t # unwind_targets u"
| "named_targets (Call _ _ _ t u) = option_list t @ unwind_targets u"
| "named_targets (Assert _ _ t u) = t # unwind_targets u"
| "named_targets (Yield _ t d) = t # option_list d"
| "named_targets (FalseEdge t i) = [t, i]"
| "named_targets (FalseUnwind t u) = t # unwind_targets u"
| "named_targets (InlineAsm ts u) = ts @ unwind_targets u"
| "named_targets _ = []"

definition sample_cfg :: cfg where
  "sample_cfg = \<lparr>successors = named_targets,
     predecessors = (\<lambda>m b. filter (\<lambda>p. b \<in> set (named_targets (terminator (basic_blocks m ! p))))
                                 [0..<n_blocks m])\<rparr>"

lemma sample_cfg_ok:
  "0 < n_blocks m \<Longrightarrow>
   (\<forall>b < n_blocks m. \<forall>t \<in> set (named_targets (terminator (basic_blocks m ! b))). t < n_blocks m) \<Longrightarrow>
   cfg_ok sample_cfg m"
  by (auto simp: cfg_ok_def sample_cfg_def)

text \<open>A small body with a branch and a loop: block 1 jumps back to the entry block.\<close>

definition sample_body :: body where
  "sample_body =
     \<lparr>basic_blocks =
        [\<lparr>statements = [StorageLive 1], terminator = SwitchInt (Constant (ConstUnevaluated 0 TyBool)) [0] [1, 2]\<rparr>,
         \<lparr>statements = [StorageLive 2, StorageDead 1], terminator = Goto 0\<rparr>,
         \<lparr>statements = [StorageDead 1], terminator = Return\<rparr>],
      local_count = 4, arg_count = 0\<rparr>"

lemma sample_body_cfg_ok: "cfg_ok sample_cfg sample_body"
proof (rule sample_cfg_ok)
  show "\<forall>b < n_blocks sample_body. \<forall>t \<in> set (named_targets (terminator (basic_blocks sample_body ! b))).
      t < n_blocks sample_body"
    by (auto simp: sample_body_def less_Suc_eq numeral_3_eq_3)
qed (simp add: sample_body_def)

end
