(* ===== verification/PointwiseState.thy ===== *)
theory PointwiseState
  imports MirSyntax
begin

text \<open>
  \<open>analysis/src/pointwise_state.rs\<close>: the table an analysis fills, with the abstract state before
  every program point and, per block, the state on each outgoing edge. The two hash maps are HOL
  maps; serialisation, which visits the blocks in index order and panics on a missing entry, is
  a list of rows.
\<close>

record 's pointwise_state =
  state_before :: "location \<Rightarrow> 's option"
  state_after_block :: "basic_block \<Rightarrow> (basic_block \<Rightarrow> 's option) option"
  pw_mir :: body

definition pw_new :: "body \<Rightarrow> 's pointwise_state" where
  "pw_new m = \<lparr>state_before = Map.empty, state_after_block = Map.empty, pw_mir = m\<rparr>"

definition lookup_before :: "'s pointwise_state \<Rightarrow> location \<Rightarrow> 's option" where
  "lookup_before ps l = state_before ps l"

text \<open>The \<open>debug_assert!\<close> of \<open>lookup_after\<close> is a panic of the debug build only.\<close>

definition lookup_after :: "'s pointwise_state \<Rightarrow> location \<Rightarrow> 's option" where
  "lookup_after ps l = state_before ps (successor_within_block l)"

definition lookup_after_block :: "'s pointwise_state \<Rightarrow> basic_block \<Rightarrow> (basic_block \<Rightarrow> 's option) option" where
  "lookup_after_block ps b = state_after_block ps b"

text \<open>
  \<open>lookup_mut_after_block\<close> returns a mutable reference to the map of a block, created empty when
  absent: the model returns that map, and \<open>store_after_block\<close> writes it back.
\<close>

definition lookup_mut_after_block :: "'s pointwise_state \<Rightarrow> basic_block \<Rightarrow> (basic_block \<Rightarrow> 's option)" where
  "lookup_mut_after_block ps b = (case state_after_block ps b of Some m \<Rightarrow> m | None \<Rightarrow> Map.empty)"

definition store_after_block ::
  "basic_block \<Rightarrow> (basic_block \<Rightarrow> 's option) \<Rightarrow> 's pointwise_state \<Rightarrow> 's pointwise_state" where
  "store_after_block b m ps = ps\<lparr>state_after_block := (state_after_block ps)(b \<mapsto> m)\<rparr>"

definition set_before :: "location \<Rightarrow> 's \<Rightarrow> 's pointwise_state \<Rightarrow> 's pointwise_state" where
  "set_before l s ps = ps\<lparr>state_before := (state_before ps)(l \<mapsto> s)\<rparr>"

lemma pw_sel_simps [simp]:
  "state_before (pw_new m) l = None"
  "state_after_block (pw_new m) b = None"
  "pw_mir (pw_new m) = m"
  "state_before (set_before l s ps) = (state_before ps)(l \<mapsto> s)"
  "state_after_block (set_before l s ps) = state_after_block ps"
  "pw_mir (set_before l s ps) = pw_mir ps"
  "state_before (store_after_block b am ps) = state_before ps"
  "state_after_block (store_after_block b am ps) = (state_after_block ps)(b \<mapsto> am)"
  "pw_mir (store_after_block b am ps) = pw_mir ps"
  by (simp_all add: pw_new_def set_before_def store_after_block_def)

section \<open>Serialisation\<close>

text \<open>
  A row per block: the statements with the state before each, the state before the terminator,
  the terminator, and the edge states ordered by the printed name of the successor, \<open>bb0\<close>,
  \<open>bb1\<close>, \<open>bb10\<close>, \<open>bb2\<close> \<dots>: an order given by the parameter \<open>edge_order\<close>, which lists the
  keys of the edge map as the \<open>BTreeMap\<close> over the printed names does.
\<close>

type_synonym 's row =
  "basic_block \<times> ('s \<times> statement) list \<times> 's \<times> terminator \<times> (basic_block \<times> 's option) list"

definition serialize_block ::
  "((basic_block \<Rightarrow> 's option) \<Rightarrow> basic_block list) \<Rightarrow> 's pointwise_state \<Rightarrow> basic_block \<Rightarrow> 's row option" where
  "serialize_block edge_order ps b =
     (let bd = basic_blocks (pw_mir ps) ! b;
          stmt_states = map (\<lambda>i. lookup_before ps (loc b i)) [0..<length (statements bd)]
      in if None \<in> set stmt_states then None
         else (case lookup_before ps (terminator_loc (pw_mir ps) b) of
             None \<Rightarrow> None
           | Some before_term \<Rightarrow>
               (let succ_map = (case lookup_after_block ps b of None \<Rightarrow> Map.empty | Some m \<Rightarrow> m)
                in Some (b, zip (map the stmt_states) (statements bd), before_term, terminator bd,
                         map (\<lambda>t. (t, succ_map t)) (edge_order succ_map)))))"

definition serialize ::
  "((basic_block \<Rightarrow> 's option) \<Rightarrow> basic_block list) \<Rightarrow> 's pointwise_state \<Rightarrow> 's row list option" where
  "serialize edge_order ps =
     fold_opt (\<lambda>b rows. map_option (\<lambda>r. rows @ [r]) (serialize_block edge_order ps b))
              [0..<n_blocks (pw_mir ps)] []"

text \<open>A table is complete when every program point of the body has a state.\<close>

definition complete_table :: "'s pointwise_state \<Rightarrow> bool" where
  "complete_table ps \<longleftrightarrow>
     (\<forall>b < n_blocks (pw_mir ps). \<forall>i \<le> length (statements (basic_blocks (pw_mir ps) ! b)).
        state_before ps (loc b i) \<noteq> None)"

lemma serialize_block_complete:
  assumes "complete_table ps" and "b < n_blocks (pw_mir ps)"
  shows "serialize_block edge_order ps b \<noteq> None"
proof -
  let ?n = "length (statements (basic_blocks (pw_mir ps) ! b))"
  have all: "state_before ps (loc b i) \<noteq> None" if "i \<le> ?n" for i
    using assms that by (auto simp: complete_table_def)
  then have "None \<notin> set (map (\<lambda>i. lookup_before ps (loc b i)) [0..<?n])"
    by (auto simp: lookup_before_def) (metis less_or_eq_imp_le option.distinct(1))
  moreover have "lookup_before ps (terminator_loc (pw_mir ps) b) \<noteq> None"
    using all by (simp add: lookup_before_def terminator_loc_def)
  ultimately show ?thesis
    by (auto simp: serialize_block_def Let_def split: option.splits)
qed

lemma serialize_rows:
  assumes "\<forall>b \<in> set bs. serialize_block eo ps b \<noteq> None"
  shows "fold_opt (\<lambda>b rows. map_option (\<lambda>r. rows @ [r]) (serialize_block eo ps b)) bs rows0
     = Some (rows0 @ map (\<lambda>b. the (serialize_block eo ps b)) bs)"
  using assms by (induction bs arbitrary: rows0) auto

end
