(* ===== verification/FixpointEngine.thy ===== *)
theory FixpointEngine
  imports BTree PointwiseState "HOL-Library.Word"
begin

text \<open>
  \<open>analysis/src/abstract_interpretation/\<close>: the trait \<open>AbstractState\<close> (its \<open>join\<close>), the trait
  \<open>FixpointEngine\<close> (the client operations of an analysis) and the provided method
  \<open>run_fwd_analysis\<close>, the worklist iteration. The client operations are the fields of the record
  \<open>engine\<close>; an operation that may panic returns an option. Equality of states is HOL equality:
  the components of a client state that do not change during a run (body, type context) are not
  part of it.
\<close>

section \<open>The client interface\<close>

datatype analysis_error =
    UnsupportedStatement location
  | NoStateAfterSuccessor basic_block basic_block

record 's engine =
  engine_body :: body
  new_bottom :: 's
  new_initial :: 's
  join :: "'s \<Rightarrow> 's \<Rightarrow> 's"
  apply_statement_effect :: "'s \<Rightarrow> location \<Rightarrow> 's option"
  apply_terminator_effect :: "'s \<Rightarrow> location \<Rightarrow> (analysis_error, (basic_block \<times> 's) list) outcome"

section \<open>One iteration of the worklist loop\<close>

record 's loop_state =
  p_state :: "'s pointwise_state"
  work_set :: "basic_block btset"
  counters :: "basic_block \<Rightarrow> 32 word option"

text \<open>The state a block starts from before its predecessors are joined in.\<close>

definition entry_state :: "'s engine \<Rightarrow> basic_block \<Rightarrow> 's" where
  "entry_state E b = (if b = 0 then new_initial E else new_bottom E)"

text \<open>Joining one predecessor: no table entry means bottom; a table without the edge panics.\<close>

definition join_pred :: "'s engine \<Rightarrow> 's pointwise_state \<Rightarrow> basic_block \<Rightarrow> basic_block \<Rightarrow> 's \<Rightarrow> 's option" where
  "join_pred E ps b pred_bb s =
     (case lookup_after_block ps pred_bb of
        None \<Rightarrow> Some s
      | Some m \<Rightarrow> (case m b of None \<Rightarrow> None | Some t \<Rightarrow> Some (join E s t)))"

definition block_in :: "'s engine \<Rightarrow> cfg \<Rightarrow> 's pointwise_state \<Rightarrow> basic_block \<Rightarrow> 's option" where
  "block_in E G ps b = fold_opt (join_pred E ps b) (predecessors G (engine_body E) b) (entry_state E b)"

text \<open>The statements of the block, recording the state before each.\<close>

definition run_statement ::
  "'s engine \<Rightarrow> basic_block \<Rightarrow> nat \<Rightarrow> 's pointwise_state \<times> 's \<Rightarrow> ('s pointwise_state \<times> 's) option" where
  "run_statement E b i = (\<lambda>(ps, s).
     map_option (Pair (set_before (loc b i) s ps)) (apply_statement_effect E s (loc b i)))"

definition run_statements ::
  "'s engine \<Rightarrow> basic_block \<Rightarrow> nat \<Rightarrow> 's pointwise_state \<times> 's \<Rightarrow> ('s pointwise_state \<times> 's) option" where
  "run_statements E b n = fold_opt (run_statement E b) [0..<n]"

text \<open>States with the same destination are joined.\<close>

definition add_next :: "'s engine \<Rightarrow> basic_block \<times> 's \<Rightarrow> (basic_block \<Rightarrow> 's option) \<Rightarrow> (basic_block \<Rightarrow> 's option)" where
  "add_next E = (\<lambda>(next_bb, s) new_map.
     (case new_map next_bb of
        Some t \<Rightarrow> new_map(next_bb \<mapsto> join E t s)
      | None \<Rightarrow> new_map(next_bb \<mapsto> s)))"

definition collect_next :: "'s engine \<Rightarrow> (basic_block \<times> 's) list \<Rightarrow> (basic_block \<Rightarrow> 's option)" where
  "collect_next E next_states = fold (add_next E) next_states Map.empty"

text \<open>
  Storing the edge states: a state is moved out of \<open>new_map\<close>, so a repeated successor is skipped;
  a successor whose edge state is new or different goes on the worklist.
\<close>

fun propagate ::
  "basic_block list \<Rightarrow> (basic_block \<Rightarrow> 's option) \<Rightarrow> (basic_block \<Rightarrow> 's option) \<Rightarrow> basic_block btset
    \<Rightarrow> (basic_block \<Rightarrow> 's option) \<times> basic_block btset" where
  "propagate [] new_map map_after ws = (map_after, ws)"
| "propagate (next_bb # ts) new_map map_after ws =
     (case new_map next_bb of
        None \<Rightarrow> propagate ts new_map map_after ws
      | Some s \<Rightarrow>
          (let prev_state = map_after next_bb;
               ws' = (if prev_state = Some s then ws else bs_insert next_bb ws)
           in propagate ts (new_map(next_bb := None)) (map_after(next_bb \<mapsto> s)) ws'))"

definition bump_counter :: "basic_block \<Rightarrow> (basic_block \<Rightarrow> 32 word option) \<Rightarrow> (basic_block \<Rightarrow> 32 word option)" where
  "bump_counter b c = c(b \<mapsto> (case c b of None \<Rightarrow> 0 | Some k \<Rightarrow> k) + 1)"

definition process_block ::
  "'s engine \<Rightarrow> cfg \<Rightarrow> basic_block \<Rightarrow> 's loop_state \<Rightarrow> (analysis_error, 's loop_state) outcome" where
  "process_block E G bb st =
     (if n_blocks (engine_body E) \<le> bb then Panic else
      and_then (or_panic (block_in E G (p_state st) bb)) (\<lambda>state_before_block.
      and_then (or_panic (run_statements E bb (length (statements (basic_blocks (engine_body E) ! bb)))
                           (p_state st, state_before_block))) (\<lambda>(ps, current_state).
      let location = terminator_loc (engine_body E) bb;
          ps = set_before location current_state ps;
          succs = succs_of G (engine_body E) bb
      in and_then (apply_terminator_effect E current_state location) (\<lambda>next_states.
      let new_map = collect_next E next_states
      in case find (\<lambda>t. new_map t = None) succs of
           Some next_bb \<Rightarrow> Err (NoStateAfterSuccessor bb next_bb)
         | None \<Rightarrow>
             (let (map_after, ws) = propagate succs new_map (lookup_mut_after_block ps bb) (work_set st)
              in Ok \<lparr>p_state = store_after_block bb map_after ps, work_set = ws,
                     counters = bump_counter bb (counters st)\<rparr>)))))"

section \<open>The loop\<close>

text \<open>
  \<open>while let Some(&bb) = work_set.iter().next()\<close>: the least block of the set is taken out. The loop
  has no bound, so the model returns \<^term>\<open>None\<close> when it does not stop.
\<close>

partial_function (option) run_loop ::
  "'s engine \<Rightarrow> cfg \<Rightarrow> 's loop_state \<Rightarrow> (analysis_error, 's pointwise_state) outcome option" where
  "run_loop E G st =
     (case work_set st of
        [] \<Rightarrow> Some (Ok (p_state st))
      | bb # rest \<Rightarrow>
          (case process_block E G bb (st\<lparr>work_set := rest\<rparr>) of
             Err e \<Rightarrow> Some (Err e)
           | Panic \<Rightarrow> Some Panic
           | Ok st' \<Rightarrow> run_loop E G st'))"

definition init_loop :: "'s engine \<Rightarrow> 's loop_state" where
  "init_loop E =
     \<lparr>p_state = pw_new (engine_body E), work_set = [0..<n_blocks (engine_body E)], counters = Map.empty\<rparr>"

definition run_fwd_analysis :: "'s engine \<Rightarrow> cfg \<Rightarrow> (analysis_error, 's pointwise_state) outcome option" where
  "run_fwd_analysis E G = run_loop E G (init_loop E)"


section \<open>What one iteration computes\<close>

abbreviation stmt_count :: "'s engine \<Rightarrow> basic_block \<Rightarrow> nat" where
  "stmt_count E b \<equiv> length (statements (basic_blocks (engine_body E) ! b))"

text \<open>The state before statement \<open>i\<close> of a block entered with \<open>s\<close>, and the states on its edges.\<close>

definition state_at :: "'s engine \<Rightarrow> basic_block \<Rightarrow> 's \<Rightarrow> nat \<Rightarrow> 's option" where
  "state_at E b s i = fold_opt (\<lambda>k t. apply_statement_effect E t (loc b k)) [0..<i] s"

definition edge_states :: "'s engine \<Rightarrow> basic_block \<Rightarrow> 's \<Rightarrow> (basic_block \<Rightarrow> 's option) option" where
  "edge_states E b t =
     (case apply_terminator_effect E t (terminator_loc (engine_body E) b) of
        Ok next_states \<Rightarrow> Some (collect_next E next_states)
      | _ \<Rightarrow> None)"

lemma state_at_0 [simp]: "state_at E b s 0 = Some s"
  by (simp add: state_at_def)

lemma state_at_Suc:
  "state_at E b s (Suc i) = Option.bind (state_at E b s i) (\<lambda>t. apply_statement_effect E t (loc b i))"
  by (simp add: state_at_def fold_opt_snoc)

lemma state_at_defined: "state_at E b s n = Some t \<Longrightarrow> i \<le> n \<Longrightarrow> \<exists>u. state_at E b s i = Some u"
proof (induction n arbitrary: t)
  case 0
  then show ?case by simp
next
  case (Suc n)
  then show ?case
    by (auto simp: state_at_Suc bind_eq_Some_conv le_Suc_eq)
qed

lemma run_statements_Suc:
  "run_statements E b (Suc n) x = Option.bind (run_statements E b n x) (run_statement E b n)"
  by (simp add: run_statements_def fold_opt_snoc)

lemma run_statements_Some:
  assumes "run_statements E b n (ps, s) = Some (ps', t)"
  shows "state_at E b s n = Some t
    \<and> (\<forall>l. state_before ps' l = (if loc_block l = b \<and> statement_index l < n
                                  then state_at E b s (statement_index l) else state_before ps l))
    \<and> state_after_block ps' = state_after_block ps \<and> pw_mir ps' = pw_mir ps"
  using assms
proof (induction n arbitrary: ps' t)
  case 0
  then show ?case by (simp add: run_statements_def)
next
  case (Suc n)
  then obtain ps1 t1 where 1: "run_statements E b n (ps, s) = Some (ps1, t1)"
    and 2: "apply_statement_effect E t1 (loc b n) = Some t" "ps' = set_before (loc b n) t1 ps1"
    by (auto simp: run_statements_Suc bind_eq_Some_conv run_statement_def)
  note IH = Suc.IH [OF 1]
  have "state_before ps' l = (if loc_block l = b \<and> statement_index l < Suc n
          then state_at E b s (statement_index l) else state_before ps l)" for l
    using IH 2(2) by (cases l) (auto simp: less_Suc_eq)
  with IH 2 show ?case by (simp add: state_at_Suc)
qed

lemma run_statements_None: "run_statements E b n (ps, s) = None \<longleftrightarrow> state_at E b s n = None"
proof (induction n)
  case 0
  then show ?case by (simp add: run_statements_def)
next
  case (Suc n)
  show ?case
  proof (cases "run_statements E b n (ps, s)")
    case None
    with Suc show ?thesis by (simp add: run_statements_Suc state_at_Suc)
  next
    case (Some x)
    obtain ps1 t1 where x: "x = (ps1, t1)" by (cases x)
    with Some have "state_at E b s n = Some t1" by (simp add: run_statements_Some)
    with Some x show ?thesis
      by (simp add: run_statements_Suc state_at_Suc run_statement_def)
  qed
qed

text \<open>\<open>propagate\<close> overwrites the edges it has a state for and queues the changed ones.\<close>

lemma propagate_result:
  assumes "propagate ts nm am ws = (am', ws')"
  shows "(\<forall>x. am' x = (if x \<in> set ts \<and> nm x \<noteq> None then nm x else am x))
    \<and> set ws' = set ws \<union> {x \<in> set ts. nm x \<noteq> None \<and> am x \<noteq> nm x}
    \<and> (bs_ok ws \<longrightarrow> bs_ok ws')"
  using assms
proof (induction ts nm am ws rule: propagate.induct)
  case (1 nm am ws)
  then show ?case by simp
next
  case (2 t ts nm am ws)
  show ?case
  proof (cases "nm t")
    case None
    with 2 show ?thesis by auto
  next
    case (Some s)
    let ?ws = "if am t = Some s then ws else bs_insert t ws"
    have "propagate ts (nm(t := None)) (am(t \<mapsto> s)) ?ws = (am', ws')"
      using "2.prems" Some by (simp add: Let_def)
    note IH = "2.IH"(2) [OF Some refl refl this]
    have 1: "am' x = (if x \<in> set (t # ts) \<and> nm x \<noteq> None then nm x else am x)" for x
      using IH Some by (cases "x = t") auto
    have 2: "set ws' = set ws \<union> {x \<in> set (t # ts). nm x \<noteq> None \<and> am x \<noteq> nm x}"
      using IH Some by (cases "am t = Some s") auto
    have 3: "bs_ok ws \<longrightarrow> bs_ok ws'"
      using IH by simp
    show ?thesis using 1 2 3 by blast
  qed
qed

lemma process_block_Ok:
  assumes "process_block E G bb st = Ok st'"
  obtains s t em am ws where
    "bb < n_blocks (engine_body E)"
    "block_in E G (p_state st) bb = Some s"
    "state_at E bb s (stmt_count E bb) = Some t"
    "edge_states E bb t = Some em"
    "\<forall>x \<in> set (succs_of G (engine_body E) bb). em x \<noteq> None"
    "propagate (succs_of G (engine_body E) bb) em
       (lookup_mut_after_block (p_state st) bb) (work_set st) = (am, ws)"
    "work_set st' = ws"
    "\<And>l. state_before (p_state st') l =
       (if loc_block l = bb \<and> statement_index l \<le> stmt_count E bb
        then state_at E bb s (statement_index l) else state_before (p_state st) l)"
    "state_after_block (p_state st') = (state_after_block (p_state st))(bb \<mapsto> am)"
    "pw_mir (p_state st') = pw_mir (p_state st)"
proof -
  let ?n = "stmt_count E bb" and ?succs = "succs_of G (engine_body E) bb"
  let ?l = "terminator_loc (engine_body E) bb"
  from assms obtain s ps1 t ns am ws where
    bb: "bb < n_blocks (engine_body E)" and s: "block_in E G (p_state st) bb = Some s"
    and run: "run_statements E bb ?n (p_state st, s) = Some (ps1, t)"
    and eff: "apply_terminator_effect E t ?l = Ok ns"
    and found: "find (\<lambda>x. collect_next E ns x = None) ?succs = None"
    and pr0: "propagate ?succs (collect_next E ns)
      (lookup_mut_after_block (set_before ?l t ps1) bb) (work_set st) = (am, ws)"
    and st': "st' = \<lparr>p_state = store_after_block bb am (set_before ?l t ps1), work_set = ws,
      counters = bump_counter bb (counters st)\<rparr>"
    by (auto simp: process_block_def rust_simps Let_def split: if_splits option.splits prod.splits)
  note ps1 = run_statements_Some [OF run]
  have "lookup_mut_after_block (set_before ?l t ps1) bb = lookup_mut_after_block (p_state st) bb"
    using ps1 by (simp add: lookup_mut_after_block_def)
  with pr0 have pr: "propagate ?succs (collect_next E ns)
      (lookup_mut_after_block (p_state st) bb) (work_set st) = (am, ws)" by simp
  have before: "state_before (p_state st') l =
       (if loc_block l = bb \<and> statement_index l \<le> ?n
        then state_at E bb s (statement_index l) else state_before (p_state st) l)" for l
    using ps1 by (cases l) (auto simp: st' terminator_loc_def)
  show thesis
  proof (rule that [OF bb s _ _ _ pr])
    show "state_at E bb s ?n = Some t" using ps1 by simp
    show "edge_states E bb t = Some (collect_next E ns)" using eff by (simp add: edge_states_def)
    show "\<forall>x \<in> set ?succs. collect_next E ns x \<noteq> None" using found by (auto simp: find_None_iff)
  qed (use ps1 before in \<open>auto simp: st'\<close>)
qed

end
