(* ===== verification/FixpointSound.thy ===== *)
theory FixpointSound
  imports FixpointEngine
begin

text \<open>
  The result of the worklist iteration is a fixed point: the invariant of the loop says that every
  block outside the worklist is \<open>stable\<close>, i.e. its recorded states and edge states are what the
  transfer functions compute from the current edge states of its predecessors. No property of the
  client is needed.
\<close>

section \<open>Stable blocks\<close>

definition stable_block :: "'s engine \<Rightarrow> cfg \<Rightarrow> 's pointwise_state \<Rightarrow> basic_block \<Rightarrow> bool" where
  "stable_block E G ps b \<longleftrightarrow>
     (\<exists>s t em am.
        block_in E G ps b = Some s \<and>
        state_at E b s (stmt_count E b) = Some t \<and>
        edge_states E b t = Some em \<and>
        state_after_block ps b = Some am \<and>
        (\<forall>i \<le> stmt_count E b. state_before ps (loc b i) = state_at E b s i) \<and>
        (\<forall>x \<in> set (succs_of G (engine_body E) b). em x \<noteq> None \<and> am x = em x))"

text \<open>An edge table lists exactly the successors of its block.\<close>

definition edges_ok :: "'s engine \<Rightarrow> cfg \<Rightarrow> 's pointwise_state \<Rightarrow> bool" where
  "edges_ok E G ps \<longleftrightarrow>
     (\<forall>p am. state_after_block ps p = Some am \<longrightarrow>
        p < n_blocks (engine_body E) \<and> dom am = set (succs_of G (engine_body E) p))"

definition loop_inv :: "'s engine \<Rightarrow> cfg \<Rightarrow> 's loop_state \<Rightarrow> bool" where
  "loop_inv E G st \<longleftrightarrow>
     bs_ok (work_set st) \<and>
     set (work_set st) \<subseteq> {..<n_blocks (engine_body E)} \<and>
     pw_mir (p_state st) = engine_body E \<and>
     edges_ok E G (p_state st) \<and>
     (\<forall>b < n_blocks (engine_body E). b \<notin> set (work_set st) \<longrightarrow> stable_block E G (p_state st) b)"

text \<open>Joining a predecessor depends only on its edge into the block.\<close>

definition edge_into :: "'s pointwise_state \<Rightarrow> basic_block \<Rightarrow> basic_block \<Rightarrow> 's option option" where
  "edge_into ps b p = map_option (\<lambda>m. m b) (state_after_block ps p)"

lemma join_pred_edge:
  "join_pred E ps b p s =
     (case edge_into ps b p of None \<Rightarrow> Some s | Some e \<Rightarrow> map_option (join E s) e)"
  by (auto simp: join_pred_def lookup_after_block_def edge_into_def split: option.splits)

lemma block_in_cong:
  assumes "\<And>p. p \<in> set (predecessors G (engine_body E) b) \<Longrightarrow> edge_into ps b p = edge_into ps' b p"
  shows "block_in E G ps b = block_in E G ps' b"
  unfolding block_in_def using assms by (intro fold_opt_cong) (simp_all add: join_pred_edge)

text \<open>With well-formed edge tables the \<open>unwrap\<close> on the predecessor's edge never fails.\<close>

lemma block_in_defined:
  assumes "cfg_ok G (engine_body E)" and "edges_ok E G ps" and "b < n_blocks (engine_body E)"
  shows "block_in E G ps b \<noteq> None"
proof -
  have "fold_opt (join_pred E ps b) qs s \<noteq> None"
    if "set qs \<subseteq> set (predecessors G (engine_body E) b)" for qs s
    using that
  proof (induction qs arbitrary: s)
    case Nil
    then show ?case by simp
  next
    case (Cons p qs)
    then have "b \<in> set (succs_of G (engine_body E) p)"
      using cfg_ok_pred [OF assms(1,3), of p] by auto
    then have "join_pred E ps b p s \<noteq> None"
      using assms(2) by (auto simp: join_pred_def lookup_after_block_def edges_ok_def split: option.splits)
    with Cons show ?case by auto
  qed
  then show ?thesis by (simp add: block_in_def)
qed

section \<open>One iteration keeps the invariant\<close>

lemma loop_inv_init: "loop_inv E G (init_loop E)"
  by (auto simp: loop_inv_def init_loop_def bs_ok_def edges_ok_def)

lemma loop_inv_step:
  assumes cfg: "cfg_ok G (engine_body E)" and inv: "loop_inv E G st" and ws: "work_set st = bb # rest"
    and step: "process_block E G bb (st\<lparr>work_set := rest\<rparr>) = Ok st'"
  shows "loop_inv E G st'"
proof -
  let ?body = "engine_body E" and ?ps = "p_state st" and ?ps' = "p_state st'"
  let ?succs = "succs_of G ?body bb"
  obtain s t em am ws' where
    bb: "bb < n_blocks ?body" and s: "block_in E G ?ps bb = Some s"
    and t: "state_at E bb s (stmt_count E bb) = Some t" and em: "edge_states E bb t = Some em"
    and emx: "\<forall>x \<in> set ?succs. em x \<noteq> None"
    and pr: "propagate ?succs em (lookup_mut_after_block ?ps bb) rest = (am, ws')"
    and ws': "work_set st' = ws'"
    and before: "\<And>l. state_before ?ps' l =
       (if loc_block l = bb \<and> statement_index l \<le> stmt_count E bb
        then state_at E bb s (statement_index l) else state_before ?ps l)"
    and after: "state_after_block ?ps' = (state_after_block ?ps)(bb \<mapsto> am)"
    and mir: "pw_mir ?ps' = pw_mir ?ps"
    by (rule process_block_Ok [OF step]) simp
  let ?am = "lookup_mut_after_block ?ps bb"
  from propagate_result [OF pr] emx
  have am: "am x = (if x \<in> set ?succs then em x else ?am x)"
    and queued: "set ws' = set rest \<union> {x \<in> set ?succs. ?am x \<noteq> em x}"
    and ok: "bs_ok rest \<longrightarrow> bs_ok ws'" for x
    by auto
  from inv have edges: "edges_ok E G ?ps" and rest_ok: "bs_ok rest"
    and rest: "set rest \<subseteq> {..<n_blocks ?body}" and bb_rest: "bb \<notin> set rest"
    and stable: "\<And>b. b < n_blocks ?body \<Longrightarrow> b \<noteq> bb \<Longrightarrow> b \<notin> set rest \<Longrightarrow> stable_block E G ?ps b"
    and mir0: "pw_mir ?ps = ?body"
    using ws by (auto simp: loop_inv_def bs_ok_def)
  have am_dom: "dom ?am \<subseteq> set ?succs"
    using edges by (auto simp: lookup_mut_after_block_def edges_ok_def split: option.splits)
  have "dom am = set ?succs"
    using am am_dom emx by (auto simp: dom_def subset_iff split: if_splits)
  with edges bb have edges': "edges_ok E G ?ps'"
    by (simp add: edges_ok_def after)
  \<comment> \<open>A block not queued sees the same edge states as before.\<close>
  have same_in: "block_in E G ?ps' b = block_in E G ?ps b"
    if b: "b < n_blocks ?body" "b \<notin> set ws'" for b
  proof (rule block_in_cong)
    fix p assume "p \<in> set (predecessors G ?body b)"
    then have p: "b \<in> set (succs_of G ?body p)" using cfg_ok_pred [OF cfg b(1)] by simp
    show "edge_into ?ps' b p = edge_into ?ps b p"
    proof (cases "p = bb")
      case True
      with b(2) p queued have "?am b = em b" by auto
      moreover have "em b \<noteq> None" using emx p True by auto
      ultimately show ?thesis
        using True p am by (auto simp: after lookup_mut_after_block_def edge_into_def split: option.splits)
    qed (simp add: after edge_into_def)
  qed
  have "stable_block E G ?ps' b" if b: "b < n_blocks ?body" "b \<notin> set ws'" for b
  proof (cases "b = bb")
    case True
    with s same_in [OF b] t em emx am before show ?thesis
      by (auto simp: stable_block_def after)
  next
    case False
    with b queued have "stable_block E G ?ps b" by (auto intro: stable)
    with False same_in [OF b] show ?thesis
      by (simp add: stable_block_def after before)
  qed
  moreover have "set ws' \<subseteq> {..<n_blocks ?body}"
    using queued rest cfg_ok_succ [OF cfg bb] by auto
  ultimately show ?thesis
    using ok rest_ok edges' mir mir0 by (simp add: loop_inv_def ws')
qed

text \<open>Partial correctness of the loop, by the fixpoint induction of \<^const>\<open>run_loop\<close>.\<close>

lemma run_loop_stable:
  assumes "run_loop E G st = Some r" and "r = Ok ps"
    and "cfg_ok G (engine_body E)" and "loop_inv E G st"
  shows "loop_inv E G \<lparr>p_state = ps, work_set = [], counters = Map.empty\<rparr>"
proof -
  have "r = Ok ps \<longrightarrow> cfg_ok G (engine_body E) \<longrightarrow> loop_inv E G st \<longrightarrow>
      loop_inv E G \<lparr>p_state = ps, work_set = [], counters = Map.empty\<rparr>"
  proof (rule run_loop.raw_induct [where P = "\<lambda>E G st r. r = Ok ps \<longrightarrow> cfg_ok G (engine_body E) \<longrightarrow>
        loop_inv E G st \<longrightarrow> loop_inv E G \<lparr>p_state = ps, work_set = [], counters = Map.empty\<rparr>", OF _ assms(1)])
    fix rl :: "'a engine \<Rightarrow> cfg \<Rightarrow> 'a loop_state \<Rightarrow> (analysis_error, 'a pointwise_state) outcome option"
    fix E :: "'a engine" and G st r
    assume IH: "\<And>E G st r. rl E G st = Some r \<Longrightarrow> r = Ok ps \<longrightarrow> cfg_ok G (engine_body E) \<longrightarrow>
        loop_inv E G st \<longrightarrow> loop_inv E G \<lparr>p_state = ps, work_set = [], counters = Map.empty\<rparr>"
      and step: "(case work_set st of
        [] \<Rightarrow> Some (Ok (p_state st))
      | bb # rest \<Rightarrow>
          (case process_block E G bb (st\<lparr>work_set := rest\<rparr>) of
             Ok st' \<Rightarrow> rl E G st' | Err e \<Rightarrow> Some (Err e) | Panic \<Rightarrow> Some Panic)) = Some r"
    show "r = Ok ps \<longrightarrow> cfg_ok G (engine_body E) \<longrightarrow> loop_inv E G st \<longrightarrow>
        loop_inv E G \<lparr>p_state = ps, work_set = [], counters = Map.empty\<rparr>"
    proof (intro impI)
      assume r: "r = Ok ps" and cfg: "cfg_ok G (engine_body E)" and inv: "loop_inv E G st"
      show "loop_inv E G \<lparr>p_state = ps, work_set = [], counters = Map.empty\<rparr>"
      proof (cases "work_set st")
        case Nil
        with step r inv show ?thesis by (simp add: loop_inv_def)
      next
        case (Cons bb rest)
        with step r obtain st' where st': "process_block E G bb (st\<lparr>work_set := rest\<rparr>) = Ok st'"
          and "rl E G st' = Some r"
          by (auto split: outcome.splits)
        from IH [OF this(2)] loop_inv_step [OF cfg inv Cons st'] r cfg show ?thesis by simp
      qed
    qed
  qed
  with assms show ?thesis by simp
qed

lemma run_fwd_analysis_inv:
  assumes "run_fwd_analysis E G = Some (Ok ps)" and "cfg_ok G (engine_body E)"
  shows "edges_ok E G ps" and "pw_mir ps = engine_body E"
    and "\<And>b. b < n_blocks (engine_body E) \<Longrightarrow> stable_block E G ps b"
  using run_loop_stable [OF assms(1) [unfolded run_fwd_analysis_def] refl assms(2) loop_inv_init]
  by (simp_all add: loop_inv_def)

lemma stable_complete_table:
  assumes "pw_mir ps = engine_body E"
    and "\<And>b. b < n_blocks (engine_body E) \<Longrightarrow> stable_block E G ps b"
  shows "complete_table ps"
  unfolding complete_table_def
proof (intro allI impI)
  fix b i
  assume b: "b < n_blocks (pw_mir ps)"
    and i: "i \<le> length (statements (basic_blocks (pw_mir ps) ! b))"
  have "stable_block E G ps b" using assms(2) b unfolding assms(1) .
  then obtain s t where t: "state_at E b s (stmt_count E b) = Some t"
    and before: "\<forall>i \<le> stmt_count E b. state_before ps (loc b i) = state_at E b s i"
    unfolding stable_block_def by blast
  from i have i': "i \<le> stmt_count E b" unfolding assms(1) .
  from state_at_defined [OF t i'] before i' show "state_before ps (loc b i) \<noteq> None" by auto
qed

section \<open>Soundness of a fixed point\<close>

text \<open>
  A concrete execution of a body: a configuration \<open>c\<close> at a program point, moved by the statements
  (\<open>cs\<close>) and by the terminators (\<open>ct\<close>). \<open>reaches\<close> holds of the configurations that some path from
  the entry leads to.
\<close>

inductive reaches ::
  "body \<Rightarrow> 'c set \<Rightarrow> (location \<Rightarrow> 'c \<Rightarrow> 'c \<Rightarrow> bool) \<Rightarrow> (basic_block \<Rightarrow> 'c \<Rightarrow> basic_block \<Rightarrow> 'c \<Rightarrow> bool)
    \<Rightarrow> location \<Rightarrow> 'c \<Rightarrow> bool" for m I cs ct where
  entry: "c \<in> I \<Longrightarrow> reaches m I cs ct (loc 0 0) c"
| stmt: "\<lbrakk>reaches m I cs ct (loc b i) c; i < length (statements (basic_blocks m ! b)); cs (loc b i) c c'\<rbrakk>
    \<Longrightarrow> reaches m I cs ct (loc b (Suc i)) c'"
| jump: "\<lbrakk>reaches m I cs ct (loc b (length (statements (basic_blocks m ! b)))) c; ct b c x c'\<rbrakk>
    \<Longrightarrow> reaches m I cs ct (loc x 0) c'"

text \<open>
  The contract of a client for soundness: \<open>gamma s c\<close> reads "the abstract state \<open>s\<close> describes the
  configuration \<open>c\<close>"; joins describe what either side describes, and the transfer functions
  over-approximate the concrete steps.
\<close>

locale sound_abstraction =
  fixes E :: "'s engine" and G :: cfg and gamma :: "'s \<Rightarrow> 'c \<Rightarrow> bool" and I :: "'c set"
    and cs :: "location \<Rightarrow> 'c \<Rightarrow> 'c \<Rightarrow> bool" and ct :: "basic_block \<Rightarrow> 'c \<Rightarrow> basic_block \<Rightarrow> 'c \<Rightarrow> bool"
  assumes gamma_initial: "c \<in> I \<Longrightarrow> gamma (new_initial E) c"
    and gamma_join1: "gamma s c \<Longrightarrow> gamma (join E s t) c"
    and gamma_join2: "gamma t c \<Longrightarrow> gamma (join E s t) c"
    and gamma_statement:
      "\<lbrakk>gamma s c; apply_statement_effect E s l = Some t; cs l c c'\<rbrakk> \<Longrightarrow> gamma t c'"
    and gamma_terminator:
      "\<lbrakk>b < n_blocks (engine_body E); gamma s c;
        apply_terminator_effect E s (terminator_loc (engine_body E) b) = Ok ns; ct b c x c'\<rbrakk>
       \<Longrightarrow> x \<in> set (succs_of G (engine_body E) b) \<and> (\<exists>u. (x, u) \<in> set ns \<and> gamma u c')"
begin

lemma gamma_collect:
  "(x, u) \<in> set ns \<Longrightarrow> gamma u c \<Longrightarrow> \<exists>v. collect_next E ns x = Some v \<and> gamma v c"
proof -
  have keep: "\<exists>v. fold (add_next E) ns m x = Some v \<and> gamma v c"
    if "m x = Some w" "gamma w c" for m w ns
    using that
  proof (induction ns arbitrary: m w)
    case Nil
    then show ?case by simp
  next
    case (Cons n ns)
    obtain y t where n: "n = (y, t)" by (cases n)
    obtain w' where "add_next E n m x = Some w'" "gamma w' c"
      using Cons.prems gamma_join1 by (cases "y = x"; cases "m y") (auto simp: add_next_def n)
    with Cons.IH show ?case by simp
  qed
  have "\<exists>v. fold (add_next E) ns m x = Some v \<and> gamma v c"
    if "(x, u) \<in> set ns" "gamma u c" for m
    using that
  proof (induction ns arbitrary: m)
    case Nil
    then show ?case by simp
  next
    case (Cons n ns)
    show ?case
    proof (cases "n = (x, u)")
      case True
      obtain w' where "add_next E n m x = Some w'" "gamma w' c"
        using Cons.prems gamma_join2 by (cases "m x") (auto simp: add_next_def True)
      with keep show ?thesis by simp
    next
      case False
      with Cons show ?thesis by auto
    qed
  qed
  then show "(x, u) \<in> set ns \<Longrightarrow> gamma u c \<Longrightarrow> ?thesis" by (simp add: collect_next_def)
qed

lemma gamma_join_preds:
  "gamma s c \<Longrightarrow> fold_opt (join_pred E ps b) qs s = Some r \<Longrightarrow> gamma r c"
proof (induction qs arbitrary: s)
  case Nil
  then show ?case by simp
next
  case (Cons q qs)
  then obtain u where u: "join_pred E ps b q s = Some u" "fold_opt (join_pred E ps b) qs u = Some r"
    by (auto split: option.splits)
  have "gamma u c"
    using u(1) Cons.prems(1) by (auto simp: join_pred_def split: option.splits intro: gamma_join1)
  with u(2) Cons.IH show ?case by blast
qed

lemma gamma_edge:
  "\<lbrakk>p \<in> set qs; state_after_block ps p = Some am; am b = Some v; gamma v c;
    fold_opt (join_pred E ps b) qs s = Some r\<rbrakk> \<Longrightarrow> gamma r c"
proof (induction qs arbitrary: s)
  case Nil
  then show ?case by simp
next
  case (Cons q qs)
  then obtain u where u: "join_pred E ps b q s = Some u" "fold_opt (join_pred E ps b) qs u = Some r"
    by (auto split: option.splits)
  show ?case
  proof (cases "p = q")
    case True
    then have "u = join E s v" using u(1) Cons.prems(2,3) by (simp add: join_pred_def lookup_after_block_def)
    then have "gamma u c" using Cons.prems(4) by (simp add: gamma_join2)
    then show ?thesis using u(2) by (rule gamma_join_preds)
  next
    case False
    with Cons u show ?thesis by auto
  qed
qed

theorem fixpoint_describes:
  assumes cfg: "cfg_ok G (engine_body E)"
    and stable: "\<And>b. b < n_blocks (engine_body E) \<Longrightarrow> stable_block E G ps b"
    and "reaches (engine_body E) I cs ct l c"
  shows "loc_block l < n_blocks (engine_body E) \<and> statement_index l \<le> stmt_count E (loc_block l)
    \<and> (\<exists>s. state_before ps l = Some s \<and> gamma s c)"
  using assms(3)
proof (induction rule: reaches.induct)
  case (entry c)
  have 0: "0 < n_blocks (engine_body E)" using cfg by (simp add: cfg_ok_def)
  with stable obtain s where s: "block_in E G ps 0 = Some s" "state_before ps (loc 0 0) = Some s"
    unfolding stable_block_def by (metis le0 state_at_0)
  have "gamma s c"
    using s(1) gamma_initial [OF entry] unfolding block_in_def entry_state_def
    by (auto intro: gamma_join_preds)
  with s(2) 0 show ?case by simp
next
  case (stmt b i c c')
  then have b: "b < n_blocks (engine_body E)" by simp
  from stable [OF b] obtain s where at: "\<And>j. j \<le> stmt_count E b \<Longrightarrow> state_before ps (loc b j) = state_at E b s j"
    and def: "state_at E b s (stmt_count E b) \<noteq> None"
    unfolding stable_block_def by blast
  from stmt.IH stmt.hyps at obtain u where u: "state_at E b s i = Some u" "gamma u c" by auto
  obtain w where w: "state_at E b s (Suc i) = Some w"
    using state_at_defined def stmt.hyps(2) by (metis Suc_leI not_None_eq)
  with u have "apply_statement_effect E u (loc b i) = Some w" by (simp add: state_at_Suc)
  from gamma_statement [OF u(2) this stmt.hyps(3)] w at stmt.hyps(2) b show ?case by simp
next
  case (jump b c x c')
  then have b: "b < n_blocks (engine_body E)" by simp
  from stable [OF b] obtain s t em am where t: "state_at E b s (stmt_count E b) = Some t"
    and em: "edge_states E b t = Some em" and am: "state_after_block ps b = Some am"
    and at: "state_before ps (loc b (stmt_count E b)) = state_at E b s (stmt_count E b)"
    and same: "\<And>x. x \<in> set (succs_of G (engine_body E) b) \<Longrightarrow> em x \<noteq> None \<and> am x = em x"
    unfolding stable_block_def by blast
  from jump.IH t at have "gamma t c" by simp
  from em obtain ns where ns: "apply_terminator_effect E t (terminator_loc (engine_body E) b) = Ok ns"
    "em = collect_next E ns" by (auto simp: edge_states_def split: outcome.splits)
  from gamma_terminator [OF b \<open>gamma t c\<close> ns(1) jump.hyps(2)] obtain u where
    x: "x \<in> set (succs_of G (engine_body E) b)" and u: "(x, u) \<in> set ns" "gamma u c'" by blast
  from gamma_collect [OF u] ns(2) obtain v where v: "em x = Some v" "gamma v c'" by blast
  have xn: "x < n_blocks (engine_body E)" by (rule cfg_ok_succ [OF cfg b x])
  with stable obtain r where r: "block_in E G ps x = Some r" "state_before ps (loc x 0) = Some r"
    unfolding stable_block_def by (metis le0 state_at_0)
  have "b \<in> set (predecessors G (engine_body E) x)" using cfg_ok_pred [OF cfg xn] b x by simp
  with r(1) am same [OF x] v have "gamma r c'" unfolding block_in_def by (metis gamma_edge)
  with r(2) xn show ?case by simp
qed

end

end
