(* ===== verification/FixpointTermination.thy ===== *)
theory FixpointTermination
  imports FixpointSound
begin

text \<open>
  Termination of the worklist iteration for monotone clients of finite height. The locale
  \<open>monotone_engine\<close> states what the documentation of \<open>AbstractState\<close> asks of a client (joins are
  upper bounds, transfer functions are monotone) together with the ascending chain condition as a
  bounded rank. The loop then stops because edge states only grow.
\<close>

definition stmt_point :: "body \<Rightarrow> location \<Rightarrow> bool" where
  "stmt_point m l \<longleftrightarrow> loc_block l < n_blocks m
     \<and> statement_index l < length (statements (basic_blocks m ! loc_block l))"

text \<open>\<open>map_leq\<close> lifts an order to edge maps: more edges, larger states.\<close>

definition map_leq :: "('s \<Rightarrow> 's \<Rightarrow> bool) \<Rightarrow> ('k \<Rightarrow> 's option) \<Rightarrow> ('k \<Rightarrow> 's option) \<Rightarrow> bool" where
  "map_leq r m m' \<longleftrightarrow> (\<forall>x t. m x = Some t \<longrightarrow> (\<exists>t'. m' x = Some t' \<and> r t t'))"

lemma map_leqD: "map_leq r m m' \<Longrightarrow> m x = Some t \<Longrightarrow> \<exists>t'. m' x = Some t' \<and> r t t'"
  by (simp add: map_leq_def)

definition edges_leq :: "('s \<Rightarrow> 's \<Rightarrow> bool) \<Rightarrow> 's pointwise_state \<Rightarrow> 's pointwise_state \<Rightarrow> bool" where
  "edges_leq r ps ps' \<longleftrightarrow> map_leq (map_leq r) (state_after_block ps) (state_after_block ps')"

definition good_edges :: "('s \<Rightarrow> bool) \<Rightarrow> 's pointwise_state \<Rightarrow> bool" where
  "good_edges good ps \<longleftrightarrow> (\<forall>p am x t. state_after_block ps p = Some am \<longrightarrow> am x = Some t \<longrightarrow> good t)"

definition cfg_edges :: "'s engine \<Rightarrow> cfg \<Rightarrow> (basic_block \<times> basic_block) set" where
  "cfg_edges E G = (SIGMA b : {..<n_blocks (engine_body E)}. set (succs_of G (engine_body E) b))"

lemma finite_cfg_edges [simp]: "finite (cfg_edges E G)"
  by (simp add: cfg_edges_def)

locale monotone_engine =
  fixes E :: "'s engine" and G :: cfg
    and leq :: "'s \<Rightarrow> 's \<Rightarrow> bool" and good :: "'s \<Rightarrow> bool"
    and rank :: "'s \<Rightarrow> nat" and height :: nat
  assumes good_initial: "good (new_initial E)"
    and good_bottom: "good (new_bottom E)"
    and good_join: "good s \<Longrightarrow> good t \<Longrightarrow> good (join E s t)"
    and good_statement: "\<lbrakk>stmt_point (engine_body E) l; good s; apply_statement_effect E s l = Some t\<rbrakk> \<Longrightarrow> good t"
    and good_terminator:
      "\<lbrakk>b < n_blocks (engine_body E); good s;
        apply_terminator_effect E s (terminator_loc (engine_body E) b) = Ok ns; (x, t) \<in> set ns\<rbrakk> \<Longrightarrow> good t"
    and leq_refl: "good s \<Longrightarrow> leq s s"
    and leq_trans: "\<lbrakk>good s; good t; good u; leq s t; leq t u\<rbrakk> \<Longrightarrow> leq s u"
    and join_upper: "good s \<Longrightarrow> good t \<Longrightarrow> leq s (join E s t)"
    and join_mono: "\<lbrakk>good s; good t; good s'; good t'; leq s s'; leq t t'\<rbrakk> \<Longrightarrow> leq (join E s t) (join E s' t')"
    and statement_mono:
      "\<lbrakk>stmt_point (engine_body E) l; good s; good s'; leq s s';
        apply_statement_effect E s l = Some t; apply_statement_effect E s' l = Some t'\<rbrakk> \<Longrightarrow> leq t t'"
    and terminator_mono:
      "\<lbrakk>b < n_blocks (engine_body E); good s; good s'; leq s s';
        apply_terminator_effect E s (terminator_loc (engine_body E) b) = Ok ns;
        apply_terminator_effect E s' (terminator_loc (engine_body E) b) = Ok ns'\<rbrakk>
       \<Longrightarrow> list_all2 (\<lambda>x y. fst x = fst y \<and> leq (snd x) (snd y)) ns ns'"
    and rank_mono: "\<lbrakk>good s; good t; leq s t; s \<noteq> t\<rbrakk> \<Longrightarrow> rank s < rank t"
    and rank_bound: "good s \<Longrightarrow> rank s \<le> height"
begin

subsection \<open>Monotonicity of the parts of an iteration\<close>

lemma good_entry: "good (entry_state E b)"
  by (simp add: entry_state_def good_initial good_bottom)

lemma good_join_preds:
  "\<lbrakk>good_edges good ps; good s; fold_opt (join_pred E ps b) qs s = Some r\<rbrakk> \<Longrightarrow> good r"
proof (induction qs arbitrary: s)
  case Nil
  then show ?case by simp
next
  case (Cons p qs)
  then obtain u where u: "join_pred E ps b p s = Some u" "fold_opt (join_pred E ps b) qs u = Some r"
    by (auto split: option.splits)
  with Cons.prems have "good u"
    by (auto simp: join_pred_def lookup_after_block_def good_edges_def split: option.splits intro: good_join)
  with u Cons show ?case by blast
qed

lemma good_block_in: "good_edges good ps \<Longrightarrow> block_in E G ps b = Some s \<Longrightarrow> good s"
  unfolding block_in_def by (rule good_join_preds) (auto intro: good_entry)

lemma good_state_at:
  "\<lbrakk>b < n_blocks (engine_body E); i \<le> stmt_count E b; good s; state_at E b s i = Some t\<rbrakk> \<Longrightarrow> good t"
proof (induction i arbitrary: t)
  case 0
  then show ?case by simp
next
  case (Suc i)
  then obtain u where u: "state_at E b s i = Some u" "apply_statement_effect E u (loc b i) = Some t"
    by (auto simp: state_at_Suc bind_eq_Some_conv)
  have point: "stmt_point (engine_body E) (loc b i)" using Suc.prems by (simp add: stmt_point_def)
  have "good u" using Suc u by simp
  from good_statement [OF point this u(2)] show ?case .
qed

lemma good_collect:
  "(\<And>x t. (x, t) \<in> set ns \<Longrightarrow> good t) \<Longrightarrow> (\<And>x t. m x = Some t \<Longrightarrow> good t) \<Longrightarrow>
     fold (add_next E) ns m x = Some t \<Longrightarrow> good t"
proof (induction ns arbitrary: m)
  case Nil
  then show ?case by auto
next
  case (Cons n ns)
  obtain y u where n: "n = (y, u)" by (cases n)
  have "good u" using Cons.prems(1) n by auto
  then have "good t" if "add_next E n m z = Some t" for z t
    using that Cons.prems(2)
    by (auto simp: add_next_def n split: option.splits if_splits intro: good_join)
  with Cons show ?case by auto
qed

lemma good_edge_states:
  assumes "b < n_blocks (engine_body E)" "good t" "edge_states E b t = Some em" "em x = Some u"
  shows "good u"
proof -
  from assms(3) obtain ns where ns: "apply_terminator_effect E t (terminator_loc (engine_body E) b) = Ok ns"
    and em: "em = collect_next E ns"
    by (auto simp: edge_states_def split: outcome.splits)
  from em assms(4) have "fold (add_next E) ns Map.empty x = Some u"
    by (simp add: collect_next_def)
  from good_collect [OF _ _ this] good_terminator [OF assms(1,2) ns] show ?thesis
    by simp
qed

lemma join_preds_mono:
  "\<lbrakk>good_edges good ps; good_edges good ps'; edges_leq leq ps ps'; good s; good s'; leq s s';
    fold_opt (join_pred E ps b) qs s = Some r; fold_opt (join_pred E ps' b) qs s' = Some r'\<rbrakk> \<Longrightarrow> leq r r'"
proof (induction qs arbitrary: s s')
  case Nil
  then show ?case by simp
next
  case (Cons p qs)
  from Cons.prems obtain u u' where
    u: "join_pred E ps b p s = Some u" "fold_opt (join_pred E ps b) qs u = Some r"
    and u': "join_pred E ps' b p s' = Some u'" "fold_opt (join_pred E ps' b) qs u' = Some r'"
    by (auto split: option.splits)
  have good: "good u" "good u'"
    using good_join_preds [of ps s b "[p]" u] good_join_preds [of ps' s' b "[p]" u'] u(1) u'(1) Cons.prems
    by simp_all
  have "leq u u'"
  proof (cases "state_after_block ps p")
    case None
    then have "u = s" using u(1) by (simp add: join_pred_def lookup_after_block_def)
    moreover have "leq s' u'"
      using u'(1) Cons.prems(2,5)
      by (auto simp: join_pred_def lookup_after_block_def good_edges_def
          split: option.splits intro: leq_refl join_upper)
    ultimately show ?thesis using Cons.prems good leq_trans by blast
  next
    case (Some am)
    then obtain v where v: "am b = Some v" "u = join E s v"
      using u(1) by (auto simp: join_pred_def lookup_after_block_def split: option.splits)
    from Some Cons.prems(3) obtain am' where am': "state_after_block ps' p = Some am'" "map_leq leq am am'"
      unfolding edges_leq_def by (blast dest: map_leqD)
    from map_leqD [OF am'(2) v(1)] obtain v' where v'0: "am' b = Some v'" "leq v v'" by blast
    with am'(1) u'(1) have v': "am' b = Some v'" "leq v v'" "u' = join E s' v'"
      by (auto simp: join_pred_def lookup_after_block_def)
    have "good v" "good v'"
      using Cons.prems(1,2) Some v(1) am'(1) v'(1) by (auto simp: good_edges_def)
    with v v' Cons.prems show ?thesis by (auto intro: join_mono)
  qed
  with Cons.IH [OF Cons.prems(1-3) good _ u(2) u'(2)] show ?case by blast
qed

lemma block_in_mono:
  "\<lbrakk>good_edges good ps; good_edges good ps'; edges_leq leq ps ps';
    block_in E G ps b = Some s; block_in E G ps' b = Some s'\<rbrakk> \<Longrightarrow> leq s s'"
  unfolding block_in_def by (rule join_preds_mono) (auto intro: good_entry leq_refl)

lemma state_at_mono:
  "\<lbrakk>b < n_blocks (engine_body E); i \<le> stmt_count E b; good s; good s'; leq s s';
    state_at E b s i = Some t; state_at E b s' i = Some t'\<rbrakk> \<Longrightarrow> leq t t'"
proof (induction i arbitrary: t t')
  case 0
  then show ?case by simp
next
  case (Suc i)
  then obtain u u' where u: "state_at E b s i = Some u" "state_at E b s' i = Some u'"
    and t: "apply_statement_effect E u (loc b i) = Some t" "apply_statement_effect E u' (loc b i) = Some t'"
    by (auto simp: state_at_Suc bind_eq_Some_conv)
  have "stmt_point (engine_body E) (loc b i)" using Suc.prems by (simp add: stmt_point_def)
  moreover have "good u" "good u'" "leq u u'"
    using u Suc good_state_at [of b i] by simp_all
  ultimately show ?case using t statement_mono by blast
qed

lemma collect_mono:
  "\<lbrakk>list_all2 (\<lambda>x y. fst x = fst y \<and> leq (snd x) (snd y)) ns ns';
    \<And>x t. (x, t) \<in> set ns \<Longrightarrow> good t; \<And>x t. (x, t) \<in> set ns' \<Longrightarrow> good t;
    \<And>x t. m x = Some t \<Longrightarrow> good t; \<And>x t. m' x = Some t \<Longrightarrow> good t;
    map_leq leq m m'; dom m = dom m'\<rbrakk> \<Longrightarrow>
   map_leq leq (fold (add_next E) ns m) (fold (add_next E) ns' m')"
proof (induction ns ns' arbitrary: m m' rule: list_all2_induct)
  case Nil
  then show ?case by simp
next
  case (Cons n ns n' ns')
  obtain y u u' where n: "n = (y, u)" "n' = (y, u')" "leq u u'"
    using Cons.hyps(1) by (cases n, cases n') auto
  have gu: "good u" "good u'" using Cons.prems(1,2) n by auto
  have mm: "m y = None \<longleftrightarrow> m' y = None" using Cons.prems(6) by (metis domIff)
  have step: "map_leq leq (add_next E n m) (add_next E n' m')"
  proof (cases "m y")
    case None
    with mm n Cons.prems(5) show ?thesis by (auto simp: add_next_def map_leq_def)
  next
    case (Some v)
    with Cons.prems(5) obtain v' where v': "m' y = Some v'" "leq v v'" by (auto simp: map_leq_def)
    have "leq (join E v u) (join E v' u')"
      using Some v' Cons.prems(3,4) gu n(3) by (intro join_mono) auto
    with Some v' n Cons.prems(5) show ?thesis by (auto simp: add_next_def map_leq_def)
  qed
  have dom: "dom (add_next E n m) = dom (add_next E n' m')"
    using Cons.prems(6) mm by (auto simp: add_next_def n split: option.splits)
  have good1: "good t" if "add_next E n m x = Some t" for x t
    using that Cons.prems(3) gu by (auto simp: add_next_def n split: option.splits if_splits intro: good_join)
  have good2: "good t" if "add_next E n' m' x = Some t" for x t
    using that Cons.prems(4) gu by (auto simp: add_next_def n split: option.splits if_splits intro: good_join)
  have "map_leq leq (fold (add_next E) ns (add_next E n m)) (fold (add_next E) ns' (add_next E n' m'))"
    using Cons.prems(1,2) good1 good2 step dom by (intro Cons.IH) auto
  then show ?case by simp
qed

lemma edge_states_mono:
  assumes b: "b < n_blocks (engine_body E)" and good: "good t" "good t'" "leq t t'"
    and em: "edge_states E b t = Some em" and em': "edge_states E b t' = Some em'"
  shows "map_leq leq em em'"
proof -
  let ?l = "terminator_loc (engine_body E) b"
  from em em' obtain ns ns' where ns: "apply_terminator_effect E t ?l = Ok ns" "em = collect_next E ns"
    and ns': "apply_terminator_effect E t' ?l = Ok ns'" "em' = collect_next E ns'"
    by (auto simp: edge_states_def split: outcome.splits)
  show ?thesis
    unfolding ns(2) ns'(2) collect_next_def
    by (rule collect_mono [OF terminator_mono [OF b good ns(1) ns'(1)]])
       (auto simp: map_leq_def intro: good_terminator [OF b good(1) ns(1)] good_terminator [OF b good(2) ns'(1)])
qed

subsection \<open>Edge states only grow\<close>

text \<open>
  The invariant of a run: every block processed so far was processed from a state below the join
  of its predecessors' present edge states, and its edge states are the image of that state.
\<close>

definition grows :: "'s pointwise_state \<Rightarrow> bool" where
  "grows ps \<longleftrightarrow> good_edges good ps \<and>
     (\<forall>b am. state_after_block ps b = Some am \<longrightarrow>
        (\<exists>s t em s'. good s \<and> state_at E b s (stmt_count E b) = Some t \<and> edge_states E b t = Some em
           \<and> (\<forall>x \<in> set (succs_of G (engine_body E) b). am x = em x)
           \<and> block_in E G ps b = Some s' \<and> leq s s'))"

lemma grows_init: "grows (p_state (init_loop E))"
  by (simp add: grows_def good_edges_def init_loop_def)

definition potential :: "'s pointwise_state \<Rightarrow> nat" where
  "potential ps = (\<Sum>(b, x) \<in> cfg_edges E G.
     (case edge_into ps x b of Some (Some t) \<Rightarrow> height - rank t | _ \<Rightarrow> Suc height))"

lemma growth_step:
  assumes cfg: "cfg_ok G (engine_body E)" and inv: "loop_inv E G st" and gr: "grows (p_state st)" and ws: "work_set st = bb # rest"
    and step: "process_block E G bb (st\<lparr>work_set := rest\<rparr>) = Ok st'"
  shows "grows (p_state st')" and "edges_leq leq (p_state st) (p_state st')"
proof -
  let ?body = "engine_body E" and ?ps = "p_state st" and ?ps' = "p_state st'"
  let ?succs = "succs_of G ?body bb" and ?am = "lookup_mut_after_block ?ps bb"
  obtain s t em am ws' where
    bb: "bb < n_blocks ?body" and s: "block_in E G ?ps bb = Some s"
    and t: "state_at E bb s (stmt_count E bb) = Some t" and em: "edge_states E bb t = Some em"
    and emx: "\<forall>x \<in> set ?succs. em x \<noteq> None"
    and pr: "propagate ?succs em ?am rest = (am, ws')"
    and after: "state_after_block ?ps' = (state_after_block ?ps)(bb \<mapsto> am)"
    by (rule process_block_Ok [OF step]) simp
  from propagate_result [OF pr] emx
  have am: "am x = (if x \<in> set ?succs then em x else ?am x)" for x by auto
  from inv have edges: "edges_ok E G ?ps" by (simp add: loop_inv_def)
  from gr have ge: "good_edges good ?ps" by (simp add: grows_def)
  have gs: "good s" by (rule good_block_in [OF ge s])
  have gt: "good t" using good_state_at [OF bb _ gs t] by simp
  have am_dom: "?am x \<noteq> None \<Longrightarrow> x \<in> set ?succs" for x
    using edges by (auto simp: lookup_mut_after_block_def edges_ok_def split: option.splits)
  have good_em: "good u" if "em x = Some u" for x u
    by (rule good_edge_states [OF bb gt em that])
  have ge': "good_edges good ?ps'"
    using ge good_em am am_dom by (auto simp: good_edges_def after split: if_splits)
  have old: "map_leq leq am0 am" if am0: "state_after_block ?ps bb = Some am0" for am0
  proof -
    from gr am0 obtain s0 t0 em0 where 0: "good s0" "state_at E bb s0 (stmt_count E bb) = Some t0"
      "edge_states E bb t0 = Some em0" "\<forall>x \<in> set ?succs. am0 x = em0 x" "leq s0 s"
      using s unfolding grows_def by fastforce
    have "leq t0 t" by (rule state_at_mono [OF bb order.refl 0(1) gs 0(5) 0(2) t])
    moreover have "good t0" by (rule good_state_at [OF bb order.refl 0(1,2)])
    ultimately have "map_leq leq em0 em" by (intro edge_states_mono [OF bb _ gt _ 0(3) em])
    moreover have "x \<in> set ?succs" if "am0 x = Some u" for x u
      using edges am0 that by (auto simp: edges_ok_def)
    ultimately show ?thesis using 0(4) am unfolding map_leq_def by fastforce
  qed
  have "map_leq leq am0 am0" if "state_after_block ?ps b = Some am0" for b am0
    using that ge by (auto simp: map_leq_def good_edges_def intro: leq_refl)
  with old show mono: "edges_leq leq ?ps ?ps'"
    by (auto simp: edges_leq_def map_leq_def [of "map_leq leq"] after)
  have new_in: "\<exists>s'. block_in E G ?ps' b = Some s' \<and> leq u s'"
    if v: "block_in E G ?ps b = Some v" and u: "good u" "leq u v" and b: "b < n_blocks ?body" for b u v
  proof -
    have "edges_ok E G ?ps'"
      using loop_inv_step [OF cfg inv ws step] by (simp add: loop_inv_def)
    then obtain s' where s': "block_in E G ?ps' b = Some s'"
      using block_in_defined [OF cfg _ b] by blast
    have "leq v s'" by (rule block_in_mono [OF ge ge' mono v s'])
    with u s' show ?thesis
      using good_block_in [OF ge v] good_block_in [OF ge' s'] leq_trans by blast
  qed
  show "grows ?ps'"
    unfolding grows_def
  proof (intro conjI allI impI)
    show "good_edges good ?ps'" by (rule ge')
  next
    fix b am1 assume am1: "state_after_block ?ps' b = Some am1"
    show "\<exists>s t em s'. good s \<and> state_at E b s (stmt_count E b) = Some t \<and> edge_states E b t = Some em
        \<and> (\<forall>x \<in> set (succs_of G ?body b). am1 x = em x) \<and> block_in E G ?ps' b = Some s' \<and> leq s s'"
    proof (cases "b = bb")
      case True
      with am1 have "am1 = am" by (simp add: after)
      moreover from new_in [OF s gs leq_refl [OF gs] bb] obtain s'
        where "block_in E G ?ps' bb = Some s'" "leq s s'" by blast
      ultimately show ?thesis using True gs t em am by fastforce
    next
      case False
      with am1 have b: "state_after_block ?ps b = Some am1" by (simp add: after)
      with gr obtain s1 t1 em1 v1 where 1: "good s1" "state_at E b s1 (stmt_count E b) = Some t1"
        "edge_states E b t1 = Some em1" "\<forall>x \<in> set (succs_of G ?body b). am1 x = em1 x"
        "block_in E G ?ps b = Some v1" "leq s1 v1"
        unfolding grows_def by blast
      have "b < n_blocks ?body" using b edges by (auto simp: edges_ok_def)
      from new_in [OF 1(5) 1(1) 1(6) this] 1 show ?thesis by blast
    qed
  qed
qed

subsection \<open>The measure\<close>

lemma edge_into_grows:
  assumes "edges_leq leq ps ps'" and "edge_into ps x b = Some (Some t)"
  shows "\<exists>t'. edge_into ps' x b = Some (Some t') \<and> leq t t'"
proof -
  from assms(2) obtain am where am: "state_after_block ps b = Some am" "am x = Some t"
    by (auto simp: edge_into_def)
  with assms(1) obtain am' where am': "state_after_block ps' b = Some am'" "map_leq leq am am'"
    unfolding edges_leq_def by (blast dest: map_leqD)
  from map_leqD [OF am'(2) am(2)] am'(1) show ?thesis by (auto simp: edge_into_def)
qed

lemma edge_term_mono:
  assumes "edges_leq leq ps ps'" and ge: "good_edges good ps" "good_edges good ps'"
  defines "val \<equiv> \<lambda>ps b x. (case edge_into ps x b of Some (Some t) \<Rightarrow> height - rank t | _ \<Rightarrow> Suc height)"
  shows "val ps' b x \<le> val ps b x"
    and "edge_into ps' x b = Some (Some t') \<Longrightarrow> edge_into ps x b \<noteq> Some (Some t') \<Longrightarrow> val ps' b x < val ps b x"
proof -
  have strict: "val ps' b x < val ps b x"
    if t': "edge_into ps' x b = Some (Some t')" and new: "edge_into ps x b \<noteq> Some (Some t')" for t'
  proof (cases "\<exists>t. edge_into ps x b = Some (Some t)")
    case True
    then obtain t where t: "edge_into ps x b = Some (Some t)" by blast
    have "good t" "good t'" using t t' ge by (auto simp: edge_into_def good_edges_def)
    moreover have "leq t t'" "t \<noteq> t'" using edge_into_grows [OF assms(1) t] t' t new by auto
    ultimately have "rank t < rank t'" "rank t' \<le> height" using rank_mono rank_bound by auto
    with t t' show ?thesis by (simp add: val_def)
  next
    case False
    then have "val ps b x = Suc height" by (auto simp: val_def split: option.splits)
    with t' show ?thesis by (simp add: val_def)
  qed
  show "edge_into ps' x b = Some (Some t') \<Longrightarrow> edge_into ps x b \<noteq> Some (Some t') \<Longrightarrow> val ps' b x < val ps b x"
    by (rule strict)
  show "val ps' b x \<le> val ps b x"
  proof (cases "\<exists>t'. edge_into ps' x b = Some (Some t')")
    case True
    then show ?thesis using strict less_imp_le by (metis order.refl val_def)
  next
    case False
    then have "\<not> (\<exists>t. edge_into ps x b = Some (Some t))" using edge_into_grows [OF assms(1)] by blast
    with False have "val ps' b x = Suc height" "val ps b x = Suc height"
      by (auto simp: val_def split: option.splits)
    then show ?thesis by simp
  qed
qed

lemma measure_step:
  assumes cfg: "cfg_ok G (engine_body E)" and inv: "loop_inv E G st" and gr: "grows (p_state st)" and ws: "work_set st = bb # rest"
    and step: "process_block E G bb (st\<lparr>work_set := rest\<rparr>) = Ok st'"
  shows "potential (p_state st') < potential (p_state st)
    \<or> potential (p_state st') = potential (p_state st) \<and> length (work_set st') < length (work_set st)"
proof -
  let ?ps = "p_state st" and ?ps' = "p_state st'" and ?succs = "succs_of G (engine_body E) bb"
  let ?am = "lookup_mut_after_block ?ps bb"
  obtain s t em am ws' where
    bb: "bb < n_blocks (engine_body E)"
    and emx: "\<forall>x \<in> set ?succs. em x \<noteq> None"
    and pr: "propagate ?succs em ?am rest = (am, ws')" and ws': "work_set st' = ws'"
    and after: "state_after_block ?ps' = (state_after_block ?ps)(bb \<mapsto> am)"
    by (rule process_block_Ok [OF step]) simp
  note leq = growth_step(2) [OF cfg inv gr ws step]
  have ge: "good_edges good ?ps" "good_edges good ?ps'"
    using gr growth_step(1) [OF cfg inv gr ws step] by (simp_all add: grows_def)
  note mono = edge_term_mono [OF leq ge]
  from propagate_result [OF pr] emx
  have am: "\<forall>x \<in> set ?succs. am x = em x"
    and queued: "set ws' = set rest \<union> {x \<in> set ?succs. ?am x \<noteq> em x}"
    by auto
  show ?thesis
  proof (cases "\<exists>x \<in> set ?succs. ?am x \<noteq> em x")
    case True
    then obtain x where x: "x \<in> set ?succs" "?am x \<noteq> em x" by blast
    then obtain u where u: "em x = Some u" using emx by blast
    have "edge_into ?ps' x bb = Some (Some u)" using u x am by (simp add: edge_into_def after)
    moreover have "edge_into ?ps x bb \<noteq> Some (Some u)"
      using x u by (auto simp: edge_into_def lookup_mut_after_block_def split: option.splits)
    moreover have "(bb, x) \<in> cfg_edges E G" using bb x by (simp add: cfg_edges_def)
    ultimately have "potential ?ps' < potential ?ps"
      unfolding potential_def using mono by (intro sum_strict_mono_ex1) (auto intro!: bexI [of _ "(bb, x)"])
    then show ?thesis by simp
  next
    case False
    with queued have "set ws' = set rest" by auto
    moreover have "bs_ok rest" "bs_ok ws'"
      using inv ws loop_inv_step [OF cfg inv ws step] by (auto simp: loop_inv_def ws' bs_ok_def)
    ultimately have "ws' = rest" by (simp add: bs_eq_iff)
    moreover have "potential ?ps' \<le> potential ?ps"
      unfolding potential_def using mono(1) by (intro sum_mono) auto
    ultimately show ?thesis using ws ws' by auto
  qed
qed

text \<open>The loop returns from every state that satisfies the invariants.\<close>

lemma run_loop_terminates:
  assumes cfg: "cfg_ok G (engine_body E)"
  shows "loop_inv E G st \<Longrightarrow> grows (p_state st) \<Longrightarrow> \<exists>r. run_loop E G st = Some r"
proof (induction "(potential (p_state st), length (work_set st))" arbitrary: st
    rule: wf_induct_rule [OF wf_lex_prod [OF wf_less_than wf_less_than]])
  case less: 1
  show ?case
  proof (cases "work_set st")
    case Nil
    then show ?thesis by (simp add: run_loop.simps)
  next
    case (Cons bb rest)
    show ?thesis
    proof (cases "process_block E G bb (st\<lparr>work_set := rest\<rparr>)")
      case (Ok st')
      have "loop_inv E G st'" by (rule loop_inv_step [OF cfg less.prems(1) Cons Ok])
      moreover have "grows (p_state st')" by (rule growth_step(1) [OF cfg less.prems Cons Ok])
      ultimately obtain r where "run_loop E G st' = Some r"
        using less.hyps [of st'] measure_step [OF cfg less.prems Cons Ok] by auto
      with Cons Ok show ?thesis by (simp add: run_loop.simps [of E G st])
    qed (use Cons in \<open>simp_all add: run_loop.simps [of E G st]\<close>)
  qed
qed

lemma run_fwd_analysis_terminates:
  "cfg_ok G (engine_body E) \<Longrightarrow> \<exists>r. run_fwd_analysis E G = Some r"
  unfolding run_fwd_analysis_def
  by (rule run_loop_terminates [OF _ loop_inv_init grows_init])

end

section \<open>Clients that never fail\<close>

text \<open>
  When in addition the transfer functions neither panic nor report an error on the states of a
  run and give every successor a state, the analysis returns a table.
\<close>

locale total_engine = monotone_engine +
  assumes statement_total:
      "\<lbrakk>stmt_point (engine_body E) l; good s\<rbrakk> \<Longrightarrow> apply_statement_effect E s l \<noteq> None"
    and terminator_total:
      "\<lbrakk>b < n_blocks (engine_body E); good s\<rbrakk> \<Longrightarrow>
         \<exists>ns. apply_terminator_effect E s (terminator_loc (engine_body E) b) = Ok ns
           \<and> set (succs_of G (engine_body E) b) \<subseteq> fst ` set ns"
begin

lemma state_at_total:
  "\<lbrakk>b < n_blocks (engine_body E); i \<le> stmt_count E b; good s\<rbrakk> \<Longrightarrow> state_at E b s i \<noteq> None"
proof (induction i)
  case 0
  then show ?case by simp
next
  case (Suc i)
  then obtain u where u: "state_at E b s i = Some u" by auto
  have point: "stmt_point (engine_body E) (loc b i)" using Suc.prems by (simp add: stmt_point_def)
  have "good u" using Suc u good_state_at [of b i s u] by simp
  from statement_total [OF point this] u show ?case by (simp add: state_at_Suc)
qed

lemma collect_next_dom: "dom (collect_next E ns) = fst ` set ns"
proof -
  have "dom (fold (add_next E) ns m) = dom m \<union> fst ` set ns" for m
    by (induction ns arbitrary: m) (auto simp: add_next_def split: option.splits)
  then show ?thesis by (simp add: collect_next_def)
qed

lemma process_block_total:
  assumes cfg: "cfg_ok G (engine_body E)" and inv: "loop_inv E G st" and gr: "grows (p_state st)" and ws: "work_set st = bb # rest"
  shows "\<exists>st'. process_block E G bb (st\<lparr>work_set := rest\<rparr>) = Ok st'"
proof -
  let ?body = "engine_body E"
  from inv ws have bb: "bb < n_blocks ?body" and edges: "edges_ok E G (p_state st)"
    by (auto simp: loop_inv_def)
  obtain s where s: "block_in E G (p_state st) bb = Some s"
    using block_in_defined [OF cfg edges bb] by blast
  have gs: "good s" using gr s good_block_in by (auto simp: grows_def)
  have "run_statements E bb (stmt_count E bb) (p_state st, s) \<noteq> None"
    using state_at_total [OF bb order.refl gs] by (simp add: run_statements_None)
  then obtain ps t where run: "run_statements E bb (stmt_count E bb) (p_state st, s) = Some (ps, t)"
    by auto
  have "good t" using run_statements_Some [OF run] good_state_at [OF bb order.refl gs] by blast
  from terminator_total [OF bb this] obtain ns where
    ns: "apply_terminator_effect E t (terminator_loc ?body bb) = Ok ns"
    and cover: "set (succs_of G ?body bb) \<subseteq> fst ` set ns" by blast
  have "find (\<lambda>x. collect_next E ns x = None) (succs_of G ?body bb) = None"
    using cover collect_next_dom [of ns] by (auto simp: find_None_iff dom_def)
  then show ?thesis
    using bb s run ns by (simp add: process_block_def rust_simps Let_def split: prod.splits)
qed

lemma run_loop_Ok:
  assumes cfg: "cfg_ok G (engine_body E)" and "loop_inv E G st" and "grows (p_state st)"
  shows "\<exists>ps. run_loop E G st = Some (Ok ps)"
proof -
  have "loop_inv E G st \<longrightarrow> grows (p_state st) \<longrightarrow> (\<exists>ps. run_loop E G st = Some (Ok ps))"
  proof (induction "(potential (p_state st), length (work_set st))" arbitrary: st
      rule: wf_induct_rule [OF wf_lex_prod [OF wf_less_than wf_less_than]])
    case less: 1
    show ?case
    proof (intro impI)
      assume inv: "loop_inv E G st" and gr: "grows (p_state st)"
      show "\<exists>ps. run_loop E G st = Some (Ok ps)"
      proof (cases "work_set st")
        case Nil
        then show ?thesis by (simp add: run_loop.simps)
      next
        case (Cons bb rest)
        from process_block_total [OF cfg inv gr Cons] obtain st' where
          st': "process_block E G bb (st\<lparr>work_set := rest\<rparr>) = Ok st'" by blast
        have "\<exists>ps. run_loop E G st' = Some (Ok ps)"
          using less.hyps [of st'] measure_step [OF cfg inv gr Cons st']
            loop_inv_step [OF cfg inv Cons st'] growth_step(1) [OF cfg inv gr Cons st'] by auto
        with Cons st' show ?thesis by (simp add: run_loop.simps [of E G st])
      qed
    qed
  qed
  with assms show ?thesis by simp
qed

lemma run_fwd_analysis_total:
  "cfg_ok G (engine_body E) \<Longrightarrow> \<exists>ps. run_fwd_analysis E G = Some (Ok ps)"
  unfolding run_fwd_analysis_def
  by (rule run_loop_Ok [OF _ loop_inv_init grows_init])

end

end
