(* ===== verification/Places.thy ===== *)
theory Places
  imports MirSyntax "HOL-Library.Sublist"
begin

text \<open>
  The place algebra of \<open>analysis/src/domains/definitely_initialized/utils.rs\<close>: the prefix test,
  the expansion of a place into the fields of its type along a guide, and the reverse collapse.
  What the compiler says about types (\<open>Place::ty\<close>, the fields of an ADT variant, the captured
  variables of a closure or coroutine) is the record \<open>tcx\<close> of parameters. A failed assertion,
  \<open>unreachable!\<close> or index out of range is \<^term>\<open>None\<close>.
\<close>

section \<open>Compiler queries\<close>

record tcx =
  place_ty :: "place \<Rightarrow> ty \<times> nat option"
  adt_field_tys :: "def_id \<Rightarrow> generic_arg list \<Rightarrow> nat option \<Rightarrow> ty list option"
  upvar_tys :: "generic_arg list \<Rightarrow> ty list"

definition mk_place_elem :: "place \<Rightarrow> place_elem \<Rightarrow> place" where
  "mk_place_elem p e = p\<lparr>projection := projection p @ [e]\<rparr>"

definition mk_place_field :: "place \<Rightarrow> nat \<Rightarrow> ty \<Rightarrow> place" where
  "mk_place_field p i t = mk_place_elem p (Field i t)"

lemma mk_place_elem_sel [simp]:
  "local_of (mk_place_elem p e) = local_of p"
  "projection (mk_place_elem p e) = projection p @ [e]"
  by (simp_all add: mk_place_elem_def)

section \<open>Expanding one place\<close>

fun is_adt :: "ty \<Rightarrow> bool" where
  "is_adt (TyAdt _ _) = True"
| "is_adt _ = False"

definition field_places :: "place \<Rightarrow> ty list \<Rightarrow> nat option \<Rightarrow> place list" where
  "field_places p tys without_field =
     map (\<lambda>(i, t). mk_place_field p i t) (filter (\<lambda>(i, t). Some i \<noteq> without_field) (enumerate 0 tys))"

definition expand_struct_place :: "tcx \<Rightarrow> place \<Rightarrow> nat option \<Rightarrow> place list option" where
  "expand_struct_place Q p without_field =
     (let (t, variant_index) = place_ty Q p
      in if \<not> is_adt t \<and> variant_index \<noteq> None then None
         else (case t of
             TyAdt def substs \<Rightarrow>
               map_option (\<lambda>tys. field_places p tys without_field) (adt_field_tys Q def substs variant_index)
           | TyTuple tys \<Rightarrow> Some (field_places p tys without_field)
           | TyClosure _ substs \<Rightarrow> Some (field_places p (upvar_tys Q substs) without_field)
           | TyCoroutine _ substs \<Rightarrow> Some (field_places p (upvar_tys Q substs) without_field)
           | _ \<Rightarrow> None))"

section \<open>The prefix test\<close>

definition is_prefix :: "place \<Rightarrow> place \<Rightarrow> bool" where
  "is_prefix p potential_prefix =
     (if local_of p \<noteq> local_of potential_prefix
         \<or> length (projection p) < length (projection potential_prefix) then False
      else list_all (\<lambda>(e1, e2). e1 = e2) (zip (projection p) (projection potential_prefix)))"

lemma is_prefix_iff:
  "is_prefix p q \<longleftrightarrow> local_of p = local_of q \<and> prefix (projection q) (projection p)"
proof (cases "length (projection q) \<le> length (projection p)")
  case True
  then have "is_prefix p q \<longleftrightarrow> local_of p = local_of q \<and> take (length (projection q)) (projection p) = projection q"
    by (auto simp: is_prefix_def zip_all_eq_iff_take)
  also have "\<dots> \<longleftrightarrow> local_of p = local_of q \<and> prefix (projection q) (projection p)"
    by (metis prefix_def append_take_drop_id append_eq_conv_conj)
  finally show ?thesis .
next
  case False
  then show ?thesis by (auto simp: is_prefix_def dest: prefix_length_le)
qed

lemma is_prefix_refl [simp]: "is_prefix p p"
  by (simp add: is_prefix_iff)

lemma is_prefix_trans: "is_prefix p q \<Longrightarrow> is_prefix q r \<Longrightarrow> is_prefix p r"
  by (auto simp: is_prefix_iff)

lemma is_prefix_antisym: "is_prefix p q \<Longrightarrow> is_prefix q p \<Longrightarrow> p = q"
  by (cases p, cases q) (auto simp: is_prefix_iff)

text \<open>The prefixes of one place form a chain.\<close>

lemma is_prefix_linear: "is_prefix p q \<Longrightarrow> is_prefix p r \<Longrightarrow> is_prefix q r \<or> is_prefix r q"
  using prefix_same_cases by (auto simp: is_prefix_iff)

lemma is_prefix_mk_elem [simp]: "is_prefix (mk_place_elem p e) p"
  by (simp add: is_prefix_iff)

lemma is_prefix_mk_elem_iff:
  "is_prefix q (mk_place_elem p e) \<Longrightarrow> is_prefix q p \<and> q \<noteq> p"
  by (auto simp: is_prefix_iff append_prefixD dest: prefix_length_le)

lemma mk_place_elem_neq_iff:
  "is_prefix q (mk_place_elem p e) \<Longrightarrow> is_prefix q (mk_place_elem p e') \<Longrightarrow> e = e'"
  by (auto simp: is_prefix_iff prefix_def)

definition overlap :: "place \<Rightarrow> place \<Rightarrow> bool" where
  "overlap p q \<longleftrightarrow> is_prefix p q \<or> is_prefix q p"

lemma overlap_sym: "overlap p q \<longleftrightarrow> overlap q p"
  by (auto simp: overlap_def)

text \<open>Places below two different children of a place never overlap.\<close>

lemma siblings_no_overlap:
  assumes "is_prefix p (mk_place_elem r e)" and "is_prefix q (mk_place_elem r e')" and "e \<noteq> e'"
  shows "\<not> overlap p q"
  using assms is_prefix_trans mk_place_elem_neq_iff unfolding overlap_def by blast

section \<open>Expansion along a guide\<close>

definition expand_one_level :: "tcx \<Rightarrow> place \<Rightarrow> place \<Rightarrow> (place \<times> place list) option" where
  "expand_one_level Q current guide =
     (let index = length (projection current)
      in if length (projection guide) \<le> index then None
         else (let new_current = mk_place_elem current (projection guide ! index)
               in case projection guide ! index of
                    Field projected_field _ \<Rightarrow>
                      map_option (Pair new_current) (expand_struct_place Q current (Some projected_field))
                  | _ \<Rightarrow> Some (new_current, [])))"

lemma expand_one_level_new:
  assumes "expand_one_level Q c g = Some (c', ps)"
  shows "length (projection c) < length (projection g)"
    and "c' = mk_place_elem c (projection g ! length (projection c))"
  using assms by (auto simp: expand_one_level_def Let_def split: if_splits place_elem.splits)

lemma expand_one_level_length:
  "expand_one_level Q c g = Some (c', ps) \<Longrightarrow>
     length (projection c) < length (projection g) \<and> length (projection c') = Suc (length (projection c))"
  using expand_one_level_new by fastforce

lemma field_places_mem:
  "q \<in> set (field_places p tys (Some i)) \<longleftrightarrow> (\<exists>j < length tys. j \<noteq> i \<and> q = mk_place_field p j (tys ! j))"
  by (auto simp: field_places_def in_set_enumerate_eq image_iff)

text \<open>The other places of an expansion are siblings of the guide: fields with another index.\<close>

lemma expand_struct_place_fields:
  "expand_struct_place Q p w = Some ps \<Longrightarrow> \<exists>tys. ps = field_places p tys w"
  by (auto simp: expand_struct_place_def split: prod.splits if_splits ty.splits)

lemma expand_struct_place_mem:
  "expand_struct_place Q p (Some i) = Some ps \<Longrightarrow> q \<in> set ps \<Longrightarrow> \<exists>j t. j \<noteq> i \<and> q = mk_place_elem p (Field j t)"
  by (drule expand_struct_place_fields) (clarsimp simp: field_places_mem mk_place_field_def, blast)

lemma expand_one_level_mem:
  assumes "expand_one_level Q c g = Some (c', ps)" and "q \<in> set ps"
  shows "\<exists>i t j u. projection g ! length (projection c) = Field i t \<and> j \<noteq> i \<and> q = mk_place_elem c (Field j u)"
  using assms expand_struct_place_mem
  by (fastforce simp: expand_one_level_def Let_def split: if_splits place_elem.splits)

function expand_loop :: "tcx \<Rightarrow> place \<Rightarrow> place \<Rightarrow> place list option" where
  "expand_loop Q minuend subtrahend =
     (if length (projection minuend) < length (projection subtrahend)
      then (case expand_one_level Q minuend subtrahend of
              None \<Rightarrow> None
            | Some (new_minuend, places) \<Rightarrow> map_option ((@) places) (expand_loop Q new_minuend subtrahend))
      else Some [])"
  by pat_completeness auto
termination
  by (relation "measure (\<lambda>(Q, m, s). length (projection s) - length (projection m))")
     (auto dest: expand_one_level_length)

declare expand_loop.simps [simp del]

definition expand :: "tcx \<Rightarrow> place \<Rightarrow> place \<Rightarrow> place list option" where
  "expand Q minuend subtrahend =
     (if is_prefix subtrahend minuend then expand_loop Q minuend subtrahend else None)"

text \<open>
  \<open>collapse\<close>: going back up the guide, a place whose children (the guide's child and the other
  fields) are all in the set replaces them.
\<close>

function collapse_rec :: "tcx \<Rightarrow> place set \<Rightarrow> place \<Rightarrow> place \<Rightarrow> place set option" where
  "collapse_rec Q places current guide =
     (if current \<noteq> guide
      then (case expand_one_level Q current guide of
              None \<Rightarrow> None
            | Some (new_current, others) \<Rightarrow>
                (case collapse_rec Q places new_current guide of
                   None \<Rightarrow> None
                 | Some places' \<Rightarrow>
                     (let expansion = others @ [new_current]
                      in if list_all (\<lambda>p. p \<in> places') expansion
                         then Some (insert current (places' - set expansion))
                         else Some places')))
      else Some places)"
  by pat_completeness auto
termination
  by (relation "measure (\<lambda>(Q, ps, c, g). length (projection g) - length (projection c))")
     (auto dest: expand_one_level_length)

declare collapse_rec.simps [simp del]

definition collapse :: "tcx \<Rightarrow> place set \<Rightarrow> place \<Rightarrow> place set option" where
  "collapse Q places guide = collapse_rec Q places (place_of_local (local_of guide)) guide"

section \<open>Facts about expansion\<close>

text \<open>Every place of an expansion hangs off the path from the minuend to the subtrahend.\<close>

lemma expand_loop_mem:
  assumes "expand_loop Q m s = Some ps" and "is_prefix s m" and "q \<in> set ps"
  shows "\<exists>r e e'. is_prefix r m \<and> is_prefix s (mk_place_elem r e) \<and> q = mk_place_elem r e' \<and> e \<noteq> e'"
  using assms
proof (induction Q m s arbitrary: ps rule: expand_loop.induct)
  case (1 Q m s)
  show ?case
  proof (cases "length (projection m) < length (projection s)")
    case False
    with 1 show ?thesis by (simp add: expand_loop.simps)
  next
    case True
    with "1.prems"(1) obtain m' others rest where one: "expand_one_level Q m s = Some (m', others)"
      and rest: "expand_loop Q m' s = Some rest" and ps: "ps = others @ rest"
      by (subst (asm) expand_loop.simps) (auto split: option.splits)
    have m': "m' = mk_place_elem m (projection s ! length (projection m))"
      using expand_one_level_new [OF one] by simp
    have s: "is_prefix s m'"
    proof -
      from "1.prems"(2) obtain zs where zs: "projection s = projection m @ zs" "local_of s = local_of m"
        by (auto simp: is_prefix_iff prefix_def)
      with True obtain z zs' where "zs = z # zs'" by (cases zs) auto
      with zs m' show ?thesis by (auto simp: is_prefix_iff)
    qed
    from "1.prems"(3) ps consider "q \<in> set others" | "q \<in> set rest" by auto
    then show ?thesis
    proof cases
      case 1
      from expand_one_level_mem [OF one this] s m' show ?thesis
        by (metis is_prefix_refl place_elem.inject(1))
    next
      case 2
      from "1.IH" [OF True one refl rest s this] obtain r e e' where
        "is_prefix r m'" "is_prefix s (mk_place_elem r e)" "q = mk_place_elem r e'" "e \<noteq> e'" by blast
      moreover have "is_prefix m' m" by (simp add: m')
      ultimately show ?thesis using is_prefix_trans by blast
    qed
  qed
qed

lemma expand_mem:
  "expand Q m s = Some ps \<Longrightarrow> q \<in> set ps \<Longrightarrow>
     \<exists>r e e'. is_prefix r m \<and> is_prefix s (mk_place_elem r e) \<and> q = mk_place_elem r e' \<and> e \<noteq> e'"
  using expand_loop_mem by (auto simp: expand_def split: if_splits)

lemma expand_extends: "expand Q m s = Some ps \<Longrightarrow> q \<in> set ps \<Longrightarrow> is_prefix q m"
  by (blast dest: expand_mem intro: is_prefix_trans is_prefix_mk_elem)

lemma expand_no_overlap: "expand Q m s = Some ps \<Longrightarrow> q \<in> set ps \<Longrightarrow> \<not> overlap q s"
  by (metis expand_mem is_prefix_refl siblings_no_overlap)

text \<open>Two places of one expansion never overlap.\<close>

lemma expand_separate:
  assumes "expand Q m s = Some ps" and "p \<in> set ps" and "q \<in> set ps" and "overlap p q"
  shows "p = q"
proof -
  from expand_mem [OF assms(1,2)] obtain r e e' where
    r: "is_prefix s (mk_place_elem r e)" "p = mk_place_elem r e'" "e \<noteq> e'" by blast
  from expand_mem [OF assms(1,3)] obtain r2 e2 e2' where
    r2: "is_prefix s (mk_place_elem r2 e2)" "q = mk_place_elem r2 e2'" "e2 \<noteq> e2'" by blast
  have "is_prefix r r2 \<or> is_prefix r2 r"
    using r(1) r2(1) is_prefix_linear is_prefix_mk_elem_iff by blast
  show ?thesis
  proof (cases "r = r2")
    case True
    with r r2 assms(4) show ?thesis by (metis is_prefix_refl siblings_no_overlap)
  next
    case False
    \<comment> \<open>one path is strictly longer: its step below the other's branching point follows \<open>s\<close>\<close>
    have below: "is_prefix y (mk_place_elem x a)"
      if xy: "is_prefix y x" "x \<noteq> y" and xs: "is_prefix s (mk_place_elem x a)" "is_prefix s y" for x y a
    proof -
      from xs have "is_prefix (mk_place_elem x a) y \<or> is_prefix y (mk_place_elem x a)"
        by (rule is_prefix_linear)
      moreover have "y = mk_place_elem x a" if "is_prefix (mk_place_elem x a) y"
        using that xy by (cases x, cases y) (auto simp: is_prefix_iff mk_place_elem_def prefix_def append_eq_append_conv2 append_eq_Cons_conv Cons_eq_append_conv)
      ultimately show ?thesis by auto
    qed
    from \<open>is_prefix r r2 \<or> is_prefix r2 r\<close> have False
    proof
      assume "is_prefix r r2"
      with False below [of r r2 e2] r r2 have "is_prefix p (mk_place_elem r2 e2)"
        using is_prefix_trans is_prefix_mk_elem is_prefix_mk_elem_iff by blast
      with r2 assms(4) show False by (metis is_prefix_refl siblings_no_overlap)
    next
      assume "is_prefix r2 r"
      with False below [of r2 r e] r r2 have "is_prefix q (mk_place_elem r e)"
        using is_prefix_trans is_prefix_mk_elem is_prefix_mk_elem_iff by blast
      with r assms(4) show False by (metis is_prefix_refl siblings_no_overlap)
    qed
    then show ?thesis ..
  qed
qed

end
