(* ===== verification/DefinitelyInitialized.thy ===== *)
theory DefinitelyInitialized
  imports FixpointTermination Places
begin

text \<open>
  \<open>analysis/src/domains/definitely_initialized/state.rs\<close> and \<open>analysis.rs\<close>: sets of places that are
  definitely initialised. The hash set is a HOL set: no result depends on its iteration order. The
  checks under \<open>cfg!(debug_assertions)\<close> are the predicate \<open>check_invariant\<close>, which the operations do not run.
  It is proved to hold after each of them; for initialising, on places that take one step below each place that is no
  struct, without which \<open>two_variants_break_invariant\<close> shows it broken.
\<close>

section \<open>The state and its invariant\<close>

type_synonym init_state = "place set"

definition check_invariant :: "init_state \<Rightarrow> bool" where
  "check_invariant S \<longleftrightarrow>
     (\<forall>place1 \<in> S. \<forall>place2 \<in> S. place1 \<noteq> place2 \<longrightarrow> \<not> is_prefix place1 place2 \<and> \<not> is_prefix place2 place1)"

definition new_top :: init_state where
  "new_top = {}"

definition set_place_initialised :: "tcx \<Rightarrow> init_state \<Rightarrow> place \<Rightarrow> init_state option" where
  "set_place_initialised Q S p =
     (if \<exists>current \<in> S. is_prefix p current then Some S
      else collapse Q (insert p (Set.filter (\<lambda>current. \<not> is_prefix current p) S)) p)"

text \<open>What becomes of one old place: expanded around the uninitialised one, dropped or kept.\<close>

definition uninit_place :: "tcx \<Rightarrow> place \<Rightarrow> place \<Rightarrow> place set option" where
  "uninit_place Q p old_place =
     (if is_prefix p old_place then map_option set (expand Q old_place p)
      else if is_prefix old_place p then Some {}
      else Some {old_place})"

definition set_place_uninitialised :: "tcx \<Rightarrow> init_state \<Rightarrow> place \<Rightarrow> init_state option" where
  "set_place_uninitialised Q S p =
     (if \<exists>old_place \<in> S. uninit_place Q p old_place = None then None
      else Some (\<Union>old_place \<in> S. the (uninit_place Q p old_place)))"

section \<open>Transfer functions\<close>

definition apply_operand_effect :: "tcx \<Rightarrow> operand \<Rightarrow> init_state \<Rightarrow> init_state option" where
  "apply_operand_effect Q operand S =
     (case operand of Move p \<Rightarrow> set_place_uninitialised Q S p | _ \<Rightarrow> Some S)"

fun rvalue_effect :: "tcx \<Rightarrow> rvalue \<Rightarrow> init_state \<Rightarrow> init_state option" where
  "rvalue_effect Q (Repeat operand _) S = apply_operand_effect Q operand S"
| "rvalue_effect Q (Cast _ operand _) S = apply_operand_effect Q operand S"
| "rvalue_effect Q (UnaryOp _ operand) S = apply_operand_effect Q operand S"
| "rvalue_effect Q (Use operand) S = apply_operand_effect Q operand S"
| "rvalue_effect Q (BinaryOp _ operand1 operand2) S =
     Option.bind (apply_operand_effect Q operand1 S) (apply_operand_effect Q operand2)"
| "rvalue_effect Q (Aggregate _ operands) S = fold_opt (apply_operand_effect Q) operands S"
| "rvalue_effect Q _ S = Some S"

definition init_statement_effect :: "tcx \<Rightarrow> body \<Rightarrow> init_state \<Rightarrow> location \<Rightarrow> init_state option" where
  "init_statement_effect Q m S l =
     (case statement_at m l of
        None \<Rightarrow> None
      | Some (Assign target source) \<Rightarrow>
          Option.bind (rvalue_effect Q source S) (\<lambda>S'. set_place_initialised Q S' target)
      | Some (StorageDead x) \<Rightarrow> set_place_uninitialised Q S (place_of_local x)
      | Some _ \<Rightarrow> Some S)"

text \<open>Error edges get the top element.\<close>

definition cleanup_edge :: "unwind_action \<Rightarrow> (basic_block \<times> init_state) list" where
  "cleanup_edge u = (case u of Cleanup bb \<Rightarrow> [(bb, new_top)] | _ \<Rightarrow> [])"

fun terminator_effect ::
  "tcx \<Rightarrow> cfg \<Rightarrow> terminator \<Rightarrow> location \<Rightarrow> init_state
    \<Rightarrow> (analysis_error, (basic_block \<times> init_state) list) outcome" where
  "terminator_effect Q G (SwitchInt discr vs ts) l S =
     and_then (or_panic (apply_operand_effect Q discr S)) (\<lambda>S'.
       Ok (map (\<lambda>bb. (bb, S')) (successors G (SwitchInt discr vs ts))))"
| "terminator_effect Q G (Drop p target unwind) l S =
     and_then (or_panic (set_place_uninitialised Q S p)) (\<lambda>S'. Ok ((target, S') # cleanup_edge unwind))"
| "terminator_effect Q G (Call func args destination target unwind) l S =
     and_then (or_panic (fold_opt (apply_operand_effect Q) args S)) (\<lambda>S1.
     and_then (or_panic (apply_operand_effect Q func S1)) (\<lambda>S2.
       (case target of
          None \<Rightarrow> Ok (cleanup_edge unwind)
        | Some bb \<Rightarrow>
            and_then (or_panic (set_place_initialised Q S2 destination)) (\<lambda>S3.
              Ok ((bb, S3) # cleanup_edge unwind)))))"
| "terminator_effect Q G (Assert cond expected target unwind) l S =
     and_then (or_panic (apply_operand_effect Q cond S)) (\<lambda>S'. Ok ((target, S') # cleanup_edge unwind))"
| "terminator_effect Q G (Yield v resume dropb) l S =
     and_then (or_panic (apply_operand_effect Q v S)) (\<lambda>S'.
       Ok ((resume, S') # (case dropb of None \<Rightarrow> [] | Some bb \<Rightarrow> [(bb, new_top)])))"
| "terminator_effect Q G (InlineAsm ts u) l S = Err (UnsupportedStatement l)"
| "terminator_effect Q G t l S = Ok (map (\<lambda>bb. (bb, S)) (successors G t))"

definition init_terminator_effect ::
  "tcx \<Rightarrow> cfg \<Rightarrow> body \<Rightarrow> init_state \<Rightarrow> location \<Rightarrow> (analysis_error, (basic_block \<times> init_state) list) outcome" where
  "init_terminator_effect Q G m S l =
     (case terminator_at m (loc_block l) of None \<Rightarrow> Panic | Some t \<Rightarrow> terminator_effect Q G t l S)"

text \<open>The lattice join: the places of either set that have a prefix in the other.\<close>

definition propagate_places :: "init_state \<Rightarrow> init_state \<Rightarrow> init_state" where
  "propagate_places place_set1 place_set2 =
     Set.filter (\<lambda>p. \<exists>potential_prefix \<in> place_set2. is_prefix p potential_prefix) place_set1"

definition init_join :: "init_state \<Rightarrow> init_state \<Rightarrow> init_state" where
  "init_join S T = propagate_places S T \<union> propagate_places T S"

section \<open>The analysis\<close>

definition init_bottom :: "body \<Rightarrow> init_state" where
  "init_bottom m = set (map place_of_local [0..<local_count m])"

definition init_initial :: "body \<Rightarrow> init_state" where
  "init_initial m = set (map place_of_local (args_iter m))"

definition init_engine :: "tcx \<Rightarrow> cfg \<Rightarrow> body \<Rightarrow> init_state engine" where
  "init_engine Q G m =
     \<lparr>engine_body = m, new_bottom = init_bottom m, new_initial = init_initial m, join = init_join,
      apply_statement_effect = init_statement_effect Q m,
      apply_terminator_effect = init_terminator_effect Q G m\<rparr>"

lemma init_engine_sel [simp]:
  "engine_body (init_engine Q G m) = m"
  "new_bottom (init_engine Q G m) = init_bottom m"
  "new_initial (init_engine Q G m) = init_initial m"
  "join (init_engine Q G m) = init_join"
  "apply_statement_effect (init_engine Q G m) = init_statement_effect Q m"
  "apply_terminator_effect (init_engine Q G m) = init_terminator_effect Q G m"
  by (simp_all add: init_engine_def)

section \<open>What a state covers\<close>

text \<open>A place is covered when the set holds it or one of its prefixes.\<close>

definition covers :: "init_state \<Rightarrow> place \<Rightarrow> bool" where
  "covers S q \<longleftrightarrow> (\<exists>p \<in> S. is_prefix q p)"

lemma covers_extends: "covers S p \<Longrightarrow> is_prefix q p \<Longrightarrow> covers S q"
  unfolding covers_def using is_prefix_trans by blast

lemma covers_member: "p \<in> S \<Longrightarrow> covers S p"
  unfolding covers_def using is_prefix_refl by blast

lemma check_invariant_iff:
  "check_invariant S \<longleftrightarrow> (\<forall>p \<in> S. \<forall>q \<in> S. is_prefix p q \<longrightarrow> p = q)"
  by (auto simp: check_invariant_def)

lemma init_join_covers: "covers (init_join S T) q \<longleftrightarrow> covers S q \<and> covers T q"
proof
  assume "covers (init_join S T) q"
  then show "covers S q \<and> covers T q"
    unfolding covers_def init_join_def propagate_places_def Set.filter_eq
    using is_prefix_trans by blast
next
  assume "covers S q \<and> covers T q"
  then obtain p r where pr: "p \<in> S" "is_prefix q p" "r \<in> T" "is_prefix q r"
    by (auto simp: covers_def)
  with is_prefix_linear [of q p r] show "covers (init_join S T) q"
    by (auto simp: covers_def init_join_def propagate_places_def)
qed

lemma init_join_member:
  "p \<in> init_join S T \<longleftrightarrow> (p \<in> S \<and> covers T p) \<or> (p \<in> T \<and> covers S p)"
  by (auto simp: init_join_def propagate_places_def covers_def)

lemma init_join_invariant:
  assumes "check_invariant S" and "check_invariant T"
  shows "check_invariant (init_join S T)"
  unfolding check_invariant_iff
proof (intro ballI impI)
  fix p q assume p: "p \<in> init_join S T" and q: "q \<in> init_join S T" and pq: "is_prefix p q"
  have same: "p = q" if inv: "check_invariant A" and "p \<in> A" "covers A q" for A
  proof -
    from that(3) obtain a where a: "a \<in> A" "is_prefix q a" unfolding covers_def by blast
    with pq have "is_prefix p a" by (blast intro: is_prefix_trans)
    with inv \<open>p \<in> A\<close> a(1) have "p = a" unfolding check_invariant_iff by blast
    with a(2) pq show "p = q" by (blast intro: is_prefix_antisym)
  qed
  have "covers S q" "covers T q"
    using init_join_covers [of S T q] covers_member [OF q] by blast+
  with p assms same [of S] same [of T] show "p = q" unfolding init_join_member by blast
qed

section \<open>Uninitialising a place\<close>

lemma set_place_uninitialised_Some:
  assumes "set_place_uninitialised Q S p = Some S'"
  shows "q \<in> S' \<longleftrightarrow> (\<exists>old \<in> S. (is_prefix p old \<and> (\<exists>ps. expand Q old p = Some ps \<and> q \<in> set ps))
                          \<or> (q = old \<and> \<not> overlap old p))"
proof -
  from assms have def: "\<And>old. old \<in> S \<Longrightarrow> uninit_place Q p old \<noteq> None"
    and S': "S' = (\<Union>old \<in> S. the (uninit_place Q p old))"
    by (auto simp: set_place_uninitialised_def split: if_splits)
  have "q \<in> the (uninit_place Q p old) \<longleftrightarrow>
      (is_prefix p old \<and> (\<exists>ps. expand Q old p = Some ps \<and> q \<in> set ps)) \<or> (q = old \<and> \<not> overlap old p)"
    if "old \<in> S" for old
    using def [OF that] by (auto simp: uninit_place_def overlap_def split: if_splits)
  then show ?thesis by (auto simp: S')
qed

lemma uninit_no_overlap: "set_place_uninitialised Q S p = Some S' \<Longrightarrow> q \<in> S' \<Longrightarrow> \<not> overlap q p"
  by (auto simp: set_place_uninitialised_Some dest: expand_no_overlap)

lemma uninit_extends_old:
  assumes "set_place_uninitialised Q S p = Some S'" and "q \<in> S'"
  shows "\<exists>old \<in> S. is_prefix q old"
proof -
  from assms(2) obtain old where "old \<in> S" "(\<exists>ps. expand Q old p = Some ps \<and> q \<in> set ps) \<or> q = old"
    unfolding set_place_uninitialised_Some [OF assms(1)] by blast
  then have "is_prefix q old" using expand_extends is_prefix_refl by blast
  with \<open>old \<in> S\<close> show ?thesis ..
qed

lemma uninit_invariant:
  assumes inv: "check_invariant S" and res: "set_place_uninitialised Q S p = Some S'"
  shows "check_invariant S'"
  unfolding check_invariant_iff
proof (intro ballI impI)
  fix q r assume q: "q \<in> S'" and r: "r \<in> S'" and qr: "is_prefix q r"
  from uninit_extends_old [OF res q] obtain o1 where o1: "o1 \<in> S" "is_prefix q o1" by blast
  from uninit_extends_old [OF res r] obtain o2 where o2: "o2 \<in> S" "is_prefix r o2" by blast
  have same: "o3 = o4" if "o3 \<in> S" "o4 \<in> S" "is_prefix q o3" "is_prefix q o4" for o3 o4
    using is_prefix_linear [OF that(3,4)] inv that by (auto simp: check_invariant_iff)
  from q r obtain o3 o4 where
    o3: "o3 \<in> S" "(is_prefix p o3 \<and> (\<exists>ps. expand Q o3 p = Some ps \<and> q \<in> set ps)) \<or> (q = o3 \<and> \<not> overlap o3 p)"
    and o4: "o4 \<in> S" "(is_prefix p o4 \<and> (\<exists>ps. expand Q o4 p = Some ps \<and> r \<in> set ps)) \<or> (r = o4 \<and> \<not> overlap o4 p)"
    using set_place_uninitialised_Some [OF res] by metis
  have "is_prefix q o3" "is_prefix r o4" using o3 o4 by (auto dest: expand_extends)
  then have "o3 = o4" using same o3(1) o4(1) qr is_prefix_trans by blast
  with o3 o4 qr show "q = r"
    using expand_separate by (auto simp: overlap_def)
qed

text \<open>
  Uninitialising \<open>p\<close> covers nothing new and nothing that overlaps \<open>p\<close>; it keeps every covered place
  that leaves the path to \<open>p\<close> at a field, i.e. lies below a sibling field of the path.
\<close>

definition sibling_of :: "tcx \<Rightarrow> place \<Rightarrow> place \<Rightarrow> bool" where
  "sibling_of Q q p \<longleftrightarrow>
     (\<exists>c c' others r. is_prefix p c \<and> expand_one_level Q c p = Some (c', others) \<and> r \<in> set others \<and> is_prefix q r)"

lemma expand_loop_siblings:
  assumes "expand_loop Q m p = Some ps" and "is_prefix p m" and "is_prefix c m" and "is_prefix p c"
    and "expand_one_level Q c p = Some (c', others)" and "r \<in> set others"
  shows "r \<in> set ps"
  using assms
proof (induction Q m p arbitrary: ps rule: expand_loop.induct)
  case (1 Q m p)
  have len: "length (projection c) < length (projection p)"
    using expand_one_level_new(1) [OF "1.prems"(5)] .
  moreover have "length (projection m) \<le> length (projection c)"
    using "1.prems"(3) by (auto simp: is_prefix_iff dest: prefix_length_le)
  ultimately have lt: "length (projection m) < length (projection p)" by simp
  with "1.prems"(1) obtain m' others' rest where one: "expand_one_level Q m p = Some (m', others')"
    and rest: "expand_loop Q m' p = Some rest" and ps: "ps = others' @ rest"
    by (subst (asm) expand_loop.simps) (auto split: option.splits)
  show ?case
  proof (cases "c = m")
    case True
    with one "1.prems"(5,6) ps show ?thesis by simp
  next
    case False
    have child: "is_prefix x m'" if "is_prefix x m" "x \<noteq> m" "is_prefix p x" for x
    proof -
      from that(1) obtain us where us: "projection x = projection m @ us" "local_of x = local_of m"
        by (auto simp: is_prefix_iff prefix_def)
      with that(2) obtain z zs where "us = z # zs" by (cases us) auto
      with us have z: "projection x = projection m @ z # zs" "local_of x = local_of m" by auto
      moreover from that(3) z have "projection p ! length (projection m) = z"
        by (auto simp: is_prefix_iff prefix_def nth_append)
      ultimately show ?thesis using expand_one_level_new(2) [OF one] by (auto simp: is_prefix_iff)
    qed
    have "p \<noteq> m" using lt by auto
    then have "is_prefix p m'" using child "1.prems"(2) by simp
    moreover have "is_prefix c m'" using child "1.prems"(3,4) False by simp
    ultimately have "r \<in> set rest"
      using "1.IH" [OF lt one refl rest] "1.prems"(4-6) by simp
    with ps show ?thesis by simp
  qed
qed

lemma uninit_covers:
  assumes res: "set_place_uninitialised Q S p = Some S'"
  shows "covers S' q \<Longrightarrow> covers S q \<and> \<not> overlap q p"
    and "covers S q \<Longrightarrow> sibling_of Q q p \<Longrightarrow> covers S' q"
    and "covers S q \<Longrightarrow> \<forall>old \<in> S. \<not> overlap old p \<Longrightarrow> covers S' q"
proof -
  show "covers S q \<and> \<not> overlap q p" if "covers S' q"
  proof -
    from that obtain r where r: "r \<in> S'" "is_prefix q r" by (auto simp: covers_def)
    with uninit_extends_old [OF res] have "covers S q"
      unfolding covers_def using is_prefix_trans by blast
    moreover have "\<not> overlap q p"
      using is_prefix_linear [of q p r] r uninit_no_overlap [OF res r(1)] is_prefix_trans
      unfolding overlap_def by blast
    ultimately show ?thesis ..
  qed
  show "covers S' q" if cov: "covers S q" and sib: "sibling_of Q q p"
  proof -
    from cov obtain old where old: "old \<in> S" "is_prefix q old" by (auto simp: covers_def)
    from sib obtain c c' others r where c: "is_prefix p c"
      and one: "expand_one_level Q c p = Some (c', others)" and r: "r \<in> set others" "is_prefix q r"
      unfolding sibling_of_def by blast
    obtain i t j u where e: "projection p ! length (projection c) = Field i t" "j \<noteq> i" "r = mk_place_elem c (Field j u)"
      using expand_one_level_mem [OF one r(1)] by blast
    have pc: "is_prefix p (mk_place_elem c (Field i t))"
    proof -
      from c expand_one_level_new(1) [OF one] obtain z zs where "projection p = projection c @ z # zs"
        "local_of p = local_of c"
        by (auto simp: is_prefix_iff prefix_def) (metis append_Nil2 list.exhaust not_less_iff_gr_or_eq)
      with e(1) show ?thesis by (auto simp: is_prefix_iff nth_append)
    qed
    have apart: "\<not> overlap q p" using siblings_no_overlap [OF _ pc] r(2) e by auto
    show ?thesis
    proof (cases "is_prefix p old")
      case True
      \<comment> \<open>the old place is a prefix of both paths, so it lies above the branching point\<close>
      have "is_prefix c old"
      proof -
        from r(2) e(3) have "is_prefix q c" using is_prefix_trans is_prefix_mk_elem by blast
        with old(2) consider "is_prefix c old" | "is_prefix old c" "old \<noteq> c" using is_prefix_linear by blast
        then show ?thesis
        proof cases
          case 2
          have "is_prefix old (mk_place_elem c (Field j u))" "is_prefix old (mk_place_elem c (Field i t))"
            using 2 old(2) True r(2) e(3) pc
            by (cases old; cases c; cases q; cases p;
                auto simp: is_prefix_iff prefix_def Cons_eq_append_conv append_eq_Cons_conv neq_Nil_conv; fail)+
          with e(2) show ?thesis using mk_place_elem_neq_iff by blast
        qed
      qed
      moreover from res old(1) True obtain ps where ps: "expand Q old p = Some ps"
        by (auto simp: set_place_uninitialised_def uninit_place_def split: if_splits)
      ultimately have "r \<in> set ps"
        using expand_loop_siblings [OF _ True _ c one r(1)] by (auto simp: expand_def split: if_splits)
      with ps old(1) True have "r \<in> S'" using set_place_uninitialised_Some [OF res] by blast
      with r(2) show ?thesis by (auto simp: covers_def)
    next
      case False
      have "\<not> is_prefix old p" using old(2) apart is_prefix_trans unfolding overlap_def by blast
      with False old set_place_uninitialised_Some [OF res, of old] show ?thesis
        unfolding covers_def overlap_def by blast
    qed
  qed
  show "covers S' q" if "covers S q" "\<forall>old \<in> S. \<not> overlap old p"
    using that set_place_uninitialised_Some [OF res] unfolding covers_def by blast
qed

section \<open>Initialising a place\<close>

text \<open>
  The places that are initialised once the places of \<open>A\<close> are: extensions of initialised places, and
  a place all of whose children (the guide's child and the other fields of the type) are.
\<close>

inductive filled :: "tcx \<Rightarrow> place set \<Rightarrow> place \<Rightarrow> bool" for Q A where
  member: "q \<in> A \<Longrightarrow> filled Q A q"
| extension: "\<lbrakk>filled Q A q; is_prefix r q\<rbrakk> \<Longrightarrow> filled Q A r"
| children: "\<lbrakk>expand_one_level Q c g = Some (c', others); filled Q A c'; \<forall>r \<in> set others. filled Q A r\<rbrakk>
    \<Longrightarrow> filled Q A c"

lemma filled_mono: "filled Q A q \<Longrightarrow> (\<And>r. r \<in> A \<Longrightarrow> filled Q B r) \<Longrightarrow> filled Q B q"
  by (induction rule: filled.induct) (auto intro: filled.intros)

lemma filled_subset: "filled Q A q \<Longrightarrow> A \<subseteq> B \<Longrightarrow> filled Q B q"
  by (erule filled_mono) (auto intro: filled.member)

lemma expand_one_level_child:
  assumes "expand_one_level Q c g = Some (c', others)" and "x = c' \<or> x \<in> set others"
  shows "\<exists>e. x = mk_place_elem c e"
  using expand_one_level_new(2) [OF assms(1)] expand_one_level_mem [OF assms(1)] assms(2) by blast

lemma expand_one_level_guide:
  assumes "expand_one_level Q c g = Some (c', others)" and "is_prefix g c"
  shows "is_prefix g c'"
proof -
  from assms(2) expand_one_level_new(1) [OF assms(1)] obtain zs where
    zs: "projection g = projection c @ zs" "zs \<noteq> []" "local_of g = local_of c"
    by (auto simp: is_prefix_iff prefix_def)
  then obtain z zs' where "zs = z # zs'" by (cases zs) auto
  with zs expand_one_level_new(2) [OF assms(1)] show ?thesis by (auto simp: is_prefix_iff nth_append)
qed

text \<open>
  Going up one level: either nothing happens or all children are replaced by their parent. The
  three facts below are instances of one induction over \<open>collapse_rec\<close>.
\<close>

lemma collapse_rec_induct:
  assumes res: "collapse_rec Q A c g = Some A'" and "is_prefix g c"
    and base: "P A"
    and step: "\<And>A1 c c' others. \<lbrakk>P A1; is_prefix g c; expand_one_level Q c g = Some (c', others);
          c' \<in> A1; set others \<subseteq> A1\<rbrakk> \<Longrightarrow> P (insert c (A1 - insert c' (set others)))"
  shows "P A'"
  using res \<open>is_prefix g c\<close>
proof (induction "length (projection g) - length (projection c)" arbitrary: c A')
  case 0
  then have "c = g" by (cases c, cases g) (auto simp: is_prefix_iff prefix_def)
  with "0.prems" base show ?case by (simp add: collapse_rec.simps)
next
  case (Suc k)
  then have "c \<noteq> g" by auto
  with Suc.prems(1) obtain c' others A1 where one: "expand_one_level Q c g = Some (c', others)"
    and A1: "collapse_rec Q A c' g = Some A1"
    and A': "A' = (if list_all (\<lambda>p. p \<in> A1) (others @ [c']) then insert c (A1 - set (others @ [c'])) else A1)"
    by (subst (asm) collapse_rec.simps) (auto simp: Let_def split: option.splits if_splits)
  have "P A1"
    using Suc.hyps(1) [OF _ A1 expand_one_level_guide [OF one Suc.prems(2)]] Suc.hyps(2)
      expand_one_level_length [OF one] by simp
  then show ?case using step [OF _ Suc.prems(2) one] by (auto simp: A' list_all_iff)
qed

lemma collapse_induct:
  assumes "collapse Q A g = Some A'" and "P A"
    and "\<And>A1 c c' others. \<lbrakk>P A1; is_prefix g c; expand_one_level Q c g = Some (c', others);
          c' \<in> A1; set others \<subseteq> A1\<rbrakk> \<Longrightarrow> P (insert c (A1 - insert c' (set others)))"
  shows "P A'"
  using assms(1) unfolding collapse_def
proof (rule collapse_rec_induct)
  show "is_prefix g (place_of_local (local_of g))" by (simp add: is_prefix_iff place_of_local_def)
qed (use assms in auto)

lemma collapse_covers:
  assumes "collapse Q A g = Some A'" and "covers A q"
  shows "covers A' q"
  using assms(1)
proof (rule collapse_induct [where P = "\<lambda>A. covers A q", OF _ assms(2)])
  fix A1 c c' others
  assume cov: "covers A1 q" and one: "expand_one_level Q c g = Some (c', others)"
  from cov obtain p where p: "p \<in> A1" "is_prefix q p" unfolding covers_def by blast
  show "covers (insert c (A1 - insert c' (set others))) q"
  proof (cases "p = c' \<or> p \<in> set others")
    case True
    from expand_one_level_child [OF one True] p(2) have "is_prefix q c"
      using is_prefix_mk_elem_iff by blast
    then show ?thesis unfolding covers_def by blast
  next
    case False
    with p show ?thesis unfolding covers_def by blast
  qed
qed

lemma collapse_filled:
  assumes "collapse Q A g = Some A'"
  shows "\<forall>q \<in> A'. filled Q A q"
  using assms
proof (rule collapse_induct [where P = "\<lambda>B. \<forall>q \<in> B. filled Q A q"])
  fix A1 c c' others
  assume "\<forall>q \<in> A1. filled Q A q" "expand_one_level Q c g = Some (c', others)" "c' \<in> A1" "set others \<subseteq> A1"
  then show "\<forall>q \<in> insert c (A1 - insert c' (set others)). filled Q A q"
    using filled.children [of Q c g c' others A] by blast
qed (blast intro: filled.member)

text \<open>
  The places of one body project a struct place to fields of its type only: a tracked place below a
  place on the path to \<open>g\<close> lies below one of the children that place expands into.
\<close>

definition branching_ok :: "tcx \<Rightarrow> init_state \<Rightarrow> place \<Rightarrow> bool" where
  "branching_ok Q S g \<longleftrightarrow>
     (\<forall>q \<in> S. \<forall>c c' others. is_prefix g c \<longrightarrow> is_prefix q c \<longrightarrow> q \<noteq> c
        \<longrightarrow> expand_one_level Q c g = Some (c', others) \<longrightarrow> (\<exists>r \<in> insert c' (set others). is_prefix q r))"

lemma collapse_invariant:
  assumes "collapse Q A g = Some A'" and "check_invariant A" and br: "branching_ok Q A g"
  shows "check_invariant A'"
proof -
  have "check_invariant A' \<and> (\<forall>q \<in> A'. q \<in> A \<or> is_prefix g q)"
    using assms(1)
  proof (rule collapse_induct [where P = "\<lambda>B. check_invariant B \<and> (\<forall>q \<in> B. q \<in> A \<or> is_prefix g q)"])
    fix A1 c c' others
    assume A1: "check_invariant A1 \<and> (\<forall>q \<in> A1. q \<in> A \<or> is_prefix g q)" and gc: "is_prefix g c"
      and one: "expand_one_level Q c g = Some (c', others)" and c': "c' \<in> A1" and others: "set others \<subseteq> A1"
    let ?B = "insert c (A1 - insert c' (set others))"
    from A1 have inv: "\<And>p q. \<lbrakk>p \<in> A1; q \<in> A1; is_prefix p q\<rbrakk> \<Longrightarrow> p = q" by (simp add: check_invariant_iff)
    have c'c: "is_prefix c' c" "c' \<noteq> c"
      using expand_one_level_new(2) [OF one] is_prefix_mk_elem_iff [OF is_prefix_refl] by auto
    have up: "c = q" if q: "q \<in> A1" "q \<noteq> c'" "is_prefix c q" for q
      using inv [OF c' q(1)] c'c(1) q(2,3) is_prefix_trans by blast
    have down: "c = q" if q: "q \<in> A1" "q \<noteq> c'" "q \<notin> set others" "is_prefix q c" for q
    proof (rule ccontr)
      assume "c \<noteq> q"
      have "\<exists>r \<in> insert c' (set others). is_prefix q r"
      proof (cases "q \<in> A")
        case True
        with br gc q(4) \<open>c \<noteq> q\<close> one show ?thesis unfolding branching_ok_def by blast
      next
        case False
        with A1 q(1) have "is_prefix g q" by blast
        with expand_one_level_guide [OF one gc] have "is_prefix q c' \<or> is_prefix c' q" by (rule is_prefix_linear [rotated])
        moreover have False if "is_prefix c' q" using inv [OF c' q(1) that] q(2) by simp
        ultimately show ?thesis by blast
      qed
      with inv q c' others show False by blast
    qed
    have "check_invariant ?B"
      unfolding check_invariant_iff
    proof (intro ballI impI)
      fix p q assume "p \<in> ?B" "q \<in> ?B" "is_prefix p q"
      then show "p = q" using inv up down by blast
    qed
    with A1 gc show "check_invariant ?B \<and> (\<forall>q \<in> ?B. q \<in> A \<or> is_prefix g q)" by blast
  qed (use assms(2) in blast)
  then show ?thesis ..
qed

lemma set_place_initialised_cases:
  assumes "set_place_initialised Q S p = Some S'"
  obtains "covers S p" "S' = S"
  | "\<not> covers S p" "collapse Q (insert p {q \<in> S. \<not> is_prefix q p}) p = Some S'"
  using assms by (auto simp: set_place_initialised_def covers_def split: if_splits)

lemma set_place_initialised_covers:
  assumes "set_place_initialised Q S p = Some S'"
  shows "covers S' p" and "covers S q \<Longrightarrow> covers S' q" and "covers S' q \<Longrightarrow> filled Q (insert p S) q"
proof -
  let ?A = "insert p {q \<in> S. \<not> is_prefix q p}"
  have keep: "covers ?A q" if "covers S q" for q
  proof -
    from that obtain r where r: "r \<in> S" "is_prefix q r" unfolding covers_def by blast
    then show ?thesis unfolding covers_def using is_prefix_trans by (cases "is_prefix r p") blast+
  qed
  show "covers S' p"
    using assms by (cases rule: set_place_initialised_cases) (simp_all add: collapse_covers covers_member)
  show "covers S' q" if "covers S q"
    using assms by (cases rule: set_place_initialised_cases) (simp_all add: collapse_covers keep that)
  show "filled Q (insert p S) q" if "covers S' q"
  proof -
    from that obtain r where r: "r \<in> S'" "is_prefix q r" unfolding covers_def by blast
    from assms have "filled Q (insert p S) r"
    proof (cases rule: set_place_initialised_cases)
      case 1
      with r(1) show ?thesis by (blast intro: filled.member)
    next
      case 2
      from collapse_filled [OF 2(2)] r(1) have "filled Q ?A r" by blast
      then show ?thesis by (rule filled_subset) blast
    qed
    with r(2) show ?thesis by (rule filled.extension [rotated])
  qed
qed

lemma set_place_initialised_invariant:
  assumes "set_place_initialised Q S p = Some S'" and inv: "check_invariant S" and br: "branching_ok Q S p"
  shows "check_invariant S'"
  using assms(1)
proof (cases rule: set_place_initialised_cases)
  case 1
  with inv show ?thesis by simp
next
  case 2
  let ?A = "insert p {q \<in> S. \<not> is_prefix q p}"
  have "check_invariant ?A"
    using inv 2(1) unfolding check_invariant_iff covers_def by blast
  moreover have "branching_ok Q ?A p"
    unfolding branching_ok_def
  proof (intro ballI allI impI)
    fix q c c' others
    assume q: "q \<in> ?A" and pc: "is_prefix p c" and c: "is_prefix q c" "q \<noteq> c"
      and one: "expand_one_level Q c p = Some (c', others)"
    show "\<exists>r \<in> insert c' (set others). is_prefix q r"
    proof (cases "q = p")
      case True
      with expand_one_level_guide [OF one pc] show ?thesis by blast
    next
      case False
      with q br pc c one show ?thesis unfolding branching_ok_def by blast
    qed
  qed
  ultimately show ?thesis using collapse_invariant [OF 2(2)] by blast
qed

section \<open>Consistent places\<close>

text \<open>
  Below a place whose type has fields come its fields; below any other place (a reference, an enum, an array) one step
  only, the one \<open>other\<close> tells: a dereference, one variant, one index. Places of two variants of one enum, or of two
  elements of one array, are not consistent.
\<close>

definition step_ok :: "tcx \<Rightarrow> (place \<Rightarrow> place_elem) \<Rightarrow> place \<Rightarrow> place_elem \<Rightarrow> bool" where
  "step_ok Q other c e \<longleftrightarrow>
     (case expand_struct_place Q c None of
        Some ps \<Rightarrow> mk_place_elem c e \<in> set ps
      | None \<Rightarrow> e = other c)"

definition consistent :: "tcx \<Rightarrow> (place \<Rightarrow> place_elem) \<Rightarrow> place \<Rightarrow> bool" where
  "consistent Q other q \<longleftrightarrow> (\<forall>c e. is_prefix q (mk_place_elem c e) \<longrightarrow> step_ok Q other c e)"

definition consistent_state :: "tcx \<Rightarrow> (place \<Rightarrow> place_elem) \<Rightarrow> init_state \<Rightarrow> bool" where
  "consistent_state Q other S \<longleftrightarrow> check_invariant S \<and> (\<forall>q \<in> S. consistent Q other q)"

lemma consistent_prefix: "consistent Q other q \<Longrightarrow> is_prefix q c \<Longrightarrow> consistent Q other c"
  unfolding consistent_def using is_prefix_trans by blast

lemma consistent_local [simp]: "consistent Q other (place_of_local x)"
  by (simp add: consistent_def is_prefix_iff place_of_local_def)

lemma mk_place_elem_below: "is_prefix (mk_place_elem c f) (mk_place_elem d e) \<Longrightarrow> d = c \<and> e = f \<or> is_prefix c (mk_place_elem d e)"
  by (cases c, cases d) (auto simp: is_prefix_iff mk_place_elem_def)

lemma below_step:
  assumes "is_prefix q c" and "q \<noteq> c"
  obtains e where "is_prefix q (mk_place_elem c e)"
proof -
  from assms(1) obtain us where us: "projection q = projection c @ us" "local_of q = local_of c"
    by (auto simp: is_prefix_iff prefix_def)
  with assms(2) obtain z zs where "us = z # zs" by (cases us) auto
  with us have "is_prefix q (mk_place_elem c z)" by (simp add: is_prefix_iff prefix_def)
  with that show thesis .
qed

text \<open>The fields other than one, and all the fields.\<close>

lemma expand_struct_place_all:
  assumes "expand_struct_place Q c w = Some ps"
  obtains tys where "ps = field_places c tys w" "expand_struct_place Q c None = Some (field_places c tys None)"
  using assms that by (auto simp: expand_struct_place_def split: prod.splits if_splits ty.splits)

lemma field_places_all_mem:
  "q \<in> set (field_places p tys None) \<longleftrightarrow> (\<exists>j < length tys. q = mk_place_field p j (tys ! j))"
proof -
  have "filter (\<lambda>(i, t). Some i \<noteq> None) xs = xs" for xs :: "(nat \<times> ty) list" by (induction xs) auto
  then have "set (field_places p tys None) = (\<lambda>(i, t). mk_place_field p i t) ` set (enumerate 0 tys)"
    by (simp only: field_places_def set_map)
  moreover have "set (enumerate 0 tys) = (\<lambda>j. (j, tys ! j)) ` {..<length tys}"
    by (auto simp: in_set_enumerate_eq)
  ultimately have "set (field_places p tys None) = (\<lambda>j. mk_place_field p j (tys ! j)) ` {..<length tys}"
    by (simp only: image_image split_conv)
  then show ?thesis by auto
qed

lemma expand_one_level_cases:
  assumes "expand_one_level Q c g = Some (c', others)"
  obtains (field) i t tys where "projection g ! length (projection c) = Field i t"
      "others = field_places c tys (Some i)" "expand_struct_place Q c None = Some (field_places c tys None)"
    | (other) "others = []" "\<not> (\<exists>i t. projection g ! length (projection c) = Field i t)"
proof (cases "projection g ! length (projection c)")
  case (Field i t)
  with assms have "expand_struct_place Q c (Some i) = Some others"
    by (auto simp: expand_one_level_def Let_def split: if_splits)
  then obtain tys where "others = field_places c tys (Some i)" "expand_struct_place Q c None = Some (field_places c tys None)"
    by (rule expand_struct_place_all)
  with Field show thesis by (rule field)
qed (use assms other in \<open>auto simp: expand_one_level_def Let_def split: if_splits\<close>)

lemma mk_place_elem_inj [simp]: "mk_place_elem c e = mk_place_elem c e' \<longleftrightarrow> e = e'"
  by (cases c) (auto simp: mk_place_elem_def)

lemma consistent_children:
  assumes g: "consistent Q other g" "is_prefix g c" and one: "expand_one_level Q c g = Some (c', others)"
    and r: "r \<in> set others"
  shows "consistent Q other r"
  unfolding consistent_def
proof (intro allI impI)
  fix d e assume below: "is_prefix r (mk_place_elem d e)"
  from one r obtain i t tys where "others = field_places c tys (Some i)"
    "expand_struct_place Q c None = Some (field_places c tys None)" by (cases rule: expand_one_level_cases) auto
  with r obtain j where j: "r = mk_place_elem c (Field j (tys ! j))" "step_ok Q other c (Field j (tys ! j))"
    by (auto simp: field_places_mem step_ok_def field_places_all_mem mk_place_field_def)
  with mk_place_elem_below [of c _ d e] below consistent_prefix [OF g] show "step_ok Q other d e"
    unfolding consistent_def by blast
qed

text \<open>Two consistent places below a place on the path of one of them branch into its expansion.\<close>

lemma consistent_branching:
  assumes q: "consistent Q other q" and g: "consistent Q other g" and c: "is_prefix g c" "is_prefix q c" "q \<noteq> c"
    and one: "expand_one_level Q c g = Some (c', others)"
  shows "\<exists>r \<in> insert c' (set others). is_prefix q r"
proof -
  let ?e = "projection g ! length (projection c)"
  have c': "c' = mk_place_elem c ?e" by (rule expand_one_level_new(2) [OF one])
  have "is_prefix g c'" by (rule expand_one_level_guide [OF one c(1)])
  then have ge: "step_ok Q other c ?e" using g unfolding c' consistent_def by blast
  obtain e where e: "is_prefix q (mk_place_elem c e)" using below_step [OF c(2,3)] .
  then have qe: "step_ok Q other c e" using q unfolding consistent_def by blast
  from one show ?thesis
  proof (cases rule: expand_one_level_cases)
    case (field i t tys)
    with qe obtain j where j: "j < length tys" "e = Field j (tys ! j)"
      by (auto simp: step_ok_def field_places_all_mem mk_place_field_def)
    from ge field obtain k where "k < length tys" "Field i t = Field k (tys ! k)"
      by (auto simp: step_ok_def field_places_all_mem mk_place_field_def)
    then have i: "t = tys ! i" by simp
    show ?thesis
    proof (cases "j = i")
      case True
      with j i e field(1) c' show ?thesis by auto
    next
      case False
      with j field(2) have "mk_place_elem c e \<in> set others" by (auto simp: field_places_mem mk_place_field_def)
      with e show ?thesis by blast
    qed
  next
    case other
    have "expand_struct_place Q c None = None"
    proof (rule ccontr)
      assume "expand_struct_place Q c None \<noteq> None"
      then obtain ps where ps: "expand_struct_place Q c None = Some ps" by blast
      from expand_struct_place_fields [OF ps] ps ge other(2) show False
        by (auto simp: step_ok_def field_places_all_mem mk_place_field_def)
    qed
    with ge qe have "e = ?e" by (simp add: step_ok_def)
    with e c' show ?thesis by auto
  qed
qed

lemma consistent_branching_ok:
  "\<forall>q \<in> insert p S. consistent Q other q \<Longrightarrow> branching_ok Q S p"
  unfolding branching_ok_def using consistent_branching [of Q other _ p] by blast

text \<open>Every operation keeps a state consistent.\<close>

lemma expand_loop_consistent:
  "\<lbrakk>expand_loop Q m g = Some ps; is_prefix g m; consistent Q other g; r \<in> set ps\<rbrakk> \<Longrightarrow> consistent Q other r"
proof (induction Q m g arbitrary: ps rule: expand_loop.induct)
  case (1 Q m g)
  show ?case
  proof (cases "length (projection m) < length (projection g)")
    case True
    with "1.prems"(1) obtain m' others rest where one: "expand_one_level Q m g = Some (m', others)"
      and rest: "expand_loop Q m' g = Some rest" and ps: "ps = others @ rest"
      by (subst (asm) expand_loop.simps) (auto split: option.splits)
    show ?thesis
    proof (cases "r \<in> set others")
      case True
      show ?thesis by (rule consistent_children [OF "1.prems"(3,2) one True])
    next
      case False
      with ps "1.prems"(4) have "r \<in> set rest" by simp
      with "1.IH" [OF True one refl rest expand_one_level_guide [OF one "1.prems"(2)] "1.prems"(3)] show ?thesis .
    qed
  next
    case False
    with "1.prems"(1,4) show ?thesis by (simp add: expand_loop.simps)
  qed
qed

lemma uninit_consistent:
  assumes "consistent_state Q other S" and "consistent Q other p" and "set_place_uninitialised Q S p = Some S'"
  shows "consistent_state Q other S'"
proof -
  have "consistent Q other q" if "q \<in> S'" for q
  proof -
    from that set_place_uninitialised_Some [OF assms(3)] obtain old where old: "old \<in> S"
      "(is_prefix p old \<and> (\<exists>ps. expand Q old p = Some ps \<and> q \<in> set ps)) \<or> q = old" by blast
    then show ?thesis
      using assms(1,2) expand_loop_consistent [of Q old p _ other q]
      by (auto simp: consistent_state_def expand_def split: if_splits)
  qed
  with uninit_invariant [OF _ assms(3)] assms(1) show ?thesis by (simp add: consistent_state_def)
qed

lemma init_consistent:
  assumes "consistent_state Q other S" and "consistent Q other p" and "set_place_initialised Q S p = Some S'"
  shows "consistent_state Q other S'"
proof -
  have S: "\<forall>q \<in> insert p S. consistent Q other q" using assms(1,2) by (simp add: consistent_state_def)
  have "\<forall>q \<in> S'. consistent Q other q"
    using assms(3)
  proof (cases rule: set_place_initialised_cases)
    case 2
    show ?thesis
      using 2(2)
      by (rule collapse_induct [where P = "\<lambda>B. \<forall>q \<in> B. consistent Q other q"])
         (use S consistent_prefix [OF assms(2)] in auto)
  qed (use S in simp)
  moreover have "check_invariant S'"
    using set_place_initialised_invariant [OF assms(3) _ consistent_branching_ok [OF S]] assms(1)
    by (simp add: consistent_state_def)
  ultimately show ?thesis by (simp add: consistent_state_def)
qed

lemma join_consistent:
  "\<lbrakk>consistent_state Q other S; consistent_state Q other T\<rbrakk> \<Longrightarrow> consistent_state Q other (init_join S T)"
  using init_join_invariant by (auto simp: consistent_state_def init_join_member)

lemma locals_consistent: "consistent_state Q other (set (map place_of_local xs))"
proof -
  have "check_invariant (set (map place_of_local xs))" by (auto simp: check_invariant_def is_prefix_iff place_of_local_def)
  then show ?thesis by (auto simp: consistent_state_def)
qed

lemma states_start_consistent:
  "consistent_state Q other (init_bottom m)" "consistent_state Q other (init_initial m)" "consistent_state Q other new_top"
  unfolding init_bottom_def init_initial_def new_top_def using locals_consistent [of Q other "[]"]
  by (simp_all only: locals_consistent list.map list.set)

definition operand_consistent :: "tcx \<Rightarrow> (place \<Rightarrow> place_elem) \<Rightarrow> operand \<Rightarrow> bool" where
  "operand_consistent Q other operand \<longleftrightarrow> (case operand of Move p \<Rightarrow> consistent Q other p | _ \<Rightarrow> True)"

lemma operand_effect_consistent:
  "\<lbrakk>consistent_state Q other S; operand_consistent Q other operand; apply_operand_effect Q operand S = Some S'\<rbrakk>
   \<Longrightarrow> consistent_state Q other S'"
  by (auto simp: apply_operand_effect_def operand_consistent_def split: operand.splits intro: uninit_consistent)

lemma operands_effect_consistent:
  "\<lbrakk>consistent_state Q other S; \<forall>operand \<in> set operands. operand_consistent Q other operand;
    fold_opt (apply_operand_effect Q) operands S = Some S'\<rbrakk> \<Longrightarrow> consistent_state Q other S'"
  by (induction operands arbitrary: S) (auto split: option.splits dest: operand_effect_consistent)

fun moved_operands :: "rvalue \<Rightarrow> operand list" where
  "moved_operands (Repeat operand _) = [operand]"
| "moved_operands (Cast _ operand _) = [operand]"
| "moved_operands (UnaryOp _ operand) = [operand]"
| "moved_operands (Use operand) = [operand]"
| "moved_operands (BinaryOp _ operand1 operand2) = [operand1, operand2]"
| "moved_operands (Aggregate _ operands) = operands"
| "moved_operands _ = []"

lemma rvalue_effect_operands: "rvalue_effect Q r S = fold_opt (apply_operand_effect Q) (moved_operands r) S"
  by (cases r) (auto split: option.split)

text \<open>
  A statement whose places are consistent keeps the state consistent, so in particular the debug checks around the
  operations of the analysis of a body with consistent places hold.
\<close>

lemma statement_effect_consistent:
  assumes "consistent_state Q other S" and "init_statement_effect Q m S l = Some S'"
    and "\<And>target source. statement_at m l = Some (Assign target source)
      \<Longrightarrow> consistent Q other target \<and> (\<forall>operand \<in> set (moved_operands source). operand_consistent Q other operand)"
  shows "consistent_state Q other S'"
proof (cases "statement_at m l")
  case (Some st)
  show ?thesis
  proof (cases st)
    case (Assign target source)
    with Some assms(2) obtain S1 where S1: "fold_opt (apply_operand_effect Q) (moved_operands source) S = Some S1"
      "set_place_initialised Q S1 target = Some S'"
      by (auto simp: init_statement_effect_def rvalue_effect_operands bind_eq_Some_conv)
    from Some Assign assms(3) have places: "consistent Q other target"
      "\<forall>operand \<in> set (moved_operands source). operand_consistent Q other operand" by blast+
    from operands_effect_consistent [OF assms(1) places(2) S1(1)] show ?thesis by (rule init_consistent [OF _ places(1) S1(2)])
  next
    case (StorageDead x)
    with Some assms(2) show ?thesis
      by (auto simp: init_statement_effect_def intro: uninit_consistent [OF assms(1) consistent_local])
  qed (use Some assms(1,2) in \<open>simp_all add: init_statement_effect_def\<close>)
qed (use assms(2) in \<open>simp add: init_statement_effect_def\<close>)

section \<open>Properties of the state\<close>

text \<open>A type environment for evaluation: the locals are pairs of booleans.\<close>

definition sample_tcx :: tcx where
  "sample_tcx =
     \<lparr>place_ty = (\<lambda>p. (if projection p = [] then TyTuple [TyBool, TyBool] else TyBool, None)),
      adt_field_tys = (\<lambda>d s v. None), upvar_tys = (\<lambda>s. [])\<rparr>"

abbreviation pair_field :: "mir_local \<Rightarrow> nat \<Rightarrow> place" where
  "pair_field x i \<equiv> \<lparr>local_of = x, projection = [Field i TyBool]\<rparr>"

lemma sample_expand_one_level:
  "i < 2 \<Longrightarrow> expand_one_level sample_tcx (place_of_local x) (pair_field x i)
     = Some (pair_field x i, [pair_field x (1 - i)])"
  by (cases i) (auto simp: expand_one_level_def expand_struct_place_def sample_tcx_def field_places_def
      mk_place_field_def mk_place_elem_def place_of_local_def enumerate_eq_zip numeral_2_eq_2 upt_rec)

lemma sample_uninit:
  "set_place_uninitialised sample_tcx {place_of_local 1} (pair_field 1 0) = Some {pair_field 1 1}"
proof -
  have "expand sample_tcx (place_of_local 1) (pair_field 1 0) = Some [pair_field 1 1]"
    using sample_expand_one_level [of 0 1]
    by (simp add: expand_def is_prefix_iff expand_loop.simps)
  then show ?thesis
    by (simp add: set_place_uninitialised_def uninit_place_def is_prefix_iff)
qed

lemma sample_init:
  "set_place_initialised sample_tcx {pair_field 1 1} (pair_field 1 0) = Some {place_of_local 1}"
proof -
  have A: "insert (pair_field 1 0) (Set.filter (\<lambda>current. \<not> is_prefix current (pair_field 1 0)) {pair_field 1 1})
     = {pair_field 1 0, pair_field 1 1}"
    by (auto simp: is_prefix_iff)
  have "collapse sample_tcx {pair_field 1 0, pair_field 1 1} (pair_field 1 0) = Some {place_of_local 1}"
  proof -
    have "place_of_local 1 \<noteq> pair_field 1 0" by (simp add: place_of_local_def)
    moreover have "collapse_rec sample_tcx A (pair_field 1 0) (pair_field 1 0) = Some A" for A
      by (subst collapse_rec.simps) simp
    ultimately show ?thesis
      using sample_expand_one_level [of 0 1]
      by (simp add: collapse_def collapse_rec.simps [of _ _ "place_of_local (Suc 0)"] Let_def)
  qed
  moreover have "\<not> is_prefix (pair_field 1 0) (pair_field 1 1)" by (simp add: is_prefix_iff)
  ultimately show ?thesis unfolding set_place_initialised_def A by simp
qed

text \<open>
  C5. Uninitialising a place keeps the invariant of the state (the assertions around the operation
  hold), leaves nothing tracked that overlaps the place, covers no new place, and loses no place
  that lies below a sibling field of the path to it.
\<close>

theorem set_place_uninitialised_spec:
  assumes "check_invariant S" and "set_place_uninitialised Q S p = Some S'"
  shows "check_invariant S' \<and> (\<forall>q \<in> S'. \<not> is_prefix q p \<and> \<not> is_prefix p q)
    \<and> (\<forall>q. covers S' q \<longrightarrow> covers S q)
    \<and> (\<forall>q. covers S q \<longrightarrow> sibling_of Q q p \<longrightarrow> covers S' q)
    \<and> (\<forall>q. covers S q \<longrightarrow> (\<forall>old \<in> S. \<not> overlap old p) \<longrightarrow> covers S' q)"
  using uninit_invariant [OF assms] uninit_no_overlap [OF assms(2)] uninit_covers [OF assms(2)]
  unfolding overlap_def by blast

theorem set_place_uninitialised_spec_witness:
  "check_invariant {pair_field 1 1} \<and> \<not> covers {pair_field 1 1} (pair_field 1 0)"
  using set_place_uninitialised_spec [OF _ sample_uninit]
  by (simp add: check_invariant_def covers_def is_prefix_iff)

text \<open>
  C6. Initialising a place covers it, keeps every covered place, and covers only places that are filled
  by the old ones and the new one. It keeps the invariant of the state when the place and the state's places are
  consistent: below a place that is no struct they take the same step, i.e. they do not lie in two variants of one enum
  or in two elements of one array. The state is consistent again afterwards.
\<close>

theorem set_place_initialised_spec:
  assumes "set_place_initialised Q S p = Some S'"
  shows "covers S' p \<and> (\<forall>q. covers S q \<longrightarrow> covers S' q)
    \<and> (\<forall>q. covers S' q \<longrightarrow> filled Q (insert p S) q)
    \<and> (\<forall>other. check_invariant S \<longrightarrow> (\<forall>q \<in> insert p S. consistent Q other q)
         \<longrightarrow> check_invariant S' \<and> (\<forall>q \<in> S'. consistent Q other q))"
  using set_place_initialised_covers [OF assms] init_consistent [OF _ _ assms]
  unfolding consistent_state_def by blast

lemma sample_consistent: "i < 2 \<Longrightarrow> consistent sample_tcx other (pair_field x i)"
  unfolding consistent_def
proof (intro allI impI)
  fix c e assume i: "i < 2" and below: "is_prefix (pair_field x i) (mk_place_elem c e)"
  from below have "projection c = []" "local_of c = x" "e = Field i TyBool"
    by (cases "projection c"; simp add: is_prefix_iff)+
  then have c: "c = place_of_local x" "e = Field i TyBool" by (cases c; simp add: place_of_local_def)+
  have "expand_struct_place sample_tcx c None = Some (field_places c [TyBool, TyBool] None)"
    by (simp add: expand_struct_place_def sample_tcx_def c(1) place_of_local_def)
  moreover have "mk_place_elem c e \<in> set (field_places c [TyBool, TyBool] None)"
    using i by (auto simp: field_places_all_mem mk_place_field_def c(2) less_2_cases_iff intro!: exI [of _ i])
  ultimately show "step_ok sample_tcx other c e" by (simp add: step_ok_def)
qed

theorem set_place_initialised_spec_witness:
  "covers {place_of_local 1} (pair_field 1 0)
    \<and> filled sample_tcx {pair_field 1 0, pair_field 1 1} (place_of_local 1) \<and> check_invariant {place_of_local 1}"
  using set_place_initialised_spec [OF sample_init] covers_member [of "place_of_local 1" "{place_of_local 1}"] sample_consistent
  by (simp add: check_invariant_def)

text \<open>
  An enum with two variants of one field: the state has the field of variant B, the field of variant A is
  initialised. The place collapses to the enum, whose variant B stays in the set, a place below another one.
\<close>

definition two_variants :: tcx where
  "two_variants =
     \<lparr>place_ty = (\<lambda>p. if projection p = [] then (TyAdt 0 [], None) else (TyAdt 0 [], Some 0)),
      adt_field_tys = (\<lambda>d s v. map_option (\<lambda>_. [TyBool]) v), upvar_tys = (\<lambda>s. [])\<rparr>"

abbreviation variant_field :: "nat \<Rightarrow> place" where
  "variant_field v \<equiv> \<lparr>local_of = 1, projection = [Downcast None v, Field 0 TyBool]\<rparr>"

lemma two_variants_break_invariant:
  "set_place_initialised two_variants {variant_field 1} (variant_field 0) = Some {variant_field 1, place_of_local 1}
   \<and> check_invariant {variant_field 1} \<and> \<not> check_invariant {variant_field 1, place_of_local 1}"
proof (intro conjI)
  let ?down = "\<lparr>local_of = 1, projection = [Downcast None 0]\<rparr>"
  have A: "insert (variant_field 0) (Set.filter (\<lambda>current. \<not> is_prefix current (variant_field 0)) {variant_field 1})
     = {variant_field 0, variant_field 1}"
    by (auto simp: is_prefix_iff)
  have one: "expand_one_level two_variants (place_of_local 1) (variant_field 0) = Some (?down, [])"
    "expand_one_level two_variants ?down (variant_field 0) = Some (variant_field 0, [])"
    by (simp_all add: expand_one_level_def expand_struct_place_def two_variants_def field_places_def place_of_local_def
        mk_place_elem_def)
  have "collapse_rec two_variants A (variant_field 0) (variant_field 0) = Some A" for A
    by (subst collapse_rec.simps) simp
  then have down: "collapse_rec two_variants {variant_field 0, variant_field 1} ?down (variant_field 0) = Some {?down, variant_field 1}"
    using one(2) by (subst collapse_rec.simps) (auto simp: Let_def)
  have "collapse two_variants {variant_field 0, variant_field 1} (variant_field 0) = Some {place_of_local 1, variant_field 1}"
    using one(1) down unfolding collapse_def
    by (subst collapse_rec.simps) (auto simp: Let_def place_of_local_def)
  then show "set_place_initialised two_variants {variant_field 1} (variant_field 0) = Some {variant_field 1, place_of_local 1}"
    unfolding set_place_initialised_def A by (simp add: is_prefix_iff insert_commute)
  show "check_invariant {variant_field 1}" by (simp add: check_invariant_def)
  show "\<not> check_invariant {variant_field 1, place_of_local 1}"
    by (simp add: check_invariant_def is_prefix_iff place_of_local_def)
qed

text \<open>
  C7. The join covers exactly the places both states cover, and keeps the invariant.
\<close>

theorem init_join_spec:
  assumes "check_invariant S" and "check_invariant T"
  shows "check_invariant (init_join S T) \<and> (\<forall>q. covers (init_join S T) q \<longleftrightarrow> covers S q \<and> covers T q)"
  using init_join_invariant [OF assms] init_join_covers by blast

theorem init_join_spec_witness:
  "check_invariant (init_join {place_of_local 1} {pair_field 1 0, place_of_local 2})"
  using init_join_spec [of "{place_of_local 1}" "{pair_field 1 0, place_of_local 2}"]
  by (simp add: check_invariant_def is_prefix_iff)

end
