(* ===== verification/DefinitelyAllocated.thy ===== *)
theory DefinitelyAllocated
  imports FixpointTermination
begin

text \<open>
  \<open>analysis/src/domains/definitely_allocated/\<close>: the locals that are allocated (between
  \<open>StorageLive\<close> and \<open>StorageDead\<close>) on every path to a program point. A state is the set of
  locals; a \<open>join\<close> intersects. The client satisfies both contracts of the engine, so the analysis
  returns a table, and the table is sound for every execution path.
\<close>

section \<open>The state\<close>

type_synonym alloc_state = "mir_local set"

definition set_local_allocated :: "alloc_state \<Rightarrow> mir_local \<Rightarrow> alloc_state" where
  "set_local_allocated s l = insert l s"

definition set_place_unallocated :: "alloc_state \<Rightarrow> mir_local \<Rightarrow> alloc_state" where
  "set_place_unallocated s l = s - {l}"

definition alloc_statement_effect :: "body \<Rightarrow> alloc_state \<Rightarrow> location \<Rightarrow> alloc_state option" where
  "alloc_statement_effect m s l =
     (case statement_at m l of
        None \<Rightarrow> None
      | Some (StorageLive x) \<Rightarrow> Some (set_local_allocated s x)
      | Some (StorageDead x) \<Rightarrow> Some (set_place_unallocated s x)
      | Some _ \<Rightarrow> Some s)"

definition alloc_terminator_effect ::
  "cfg \<Rightarrow> body \<Rightarrow> alloc_state \<Rightarrow> location \<Rightarrow> (analysis_error, (basic_block \<times> alloc_state) list) outcome" where
  "alloc_terminator_effect G m s l =
     (case terminator_at m (loc_block l) of
        None \<Rightarrow> Panic
      | Some t \<Rightarrow> Ok (map (\<lambda>bb. (bb, s)) (successors G t)))"

text \<open>\<open>retain(|local| other.contains(local))\<close>.\<close>

definition alloc_join :: "alloc_state \<Rightarrow> alloc_state \<Rightarrow> alloc_state" where
  "alloc_join s other = Set.filter (\<lambda>l. l \<in> other) s"

section \<open>The analysis\<close>

definition alloc_bottom :: "body \<Rightarrow> alloc_state" where
  "alloc_bottom m = set [0..<local_count m]"

text \<open>Locals that some statement marks live or dead, in the order of the scan.\<close>

fun storage_local :: "statement \<Rightarrow> mir_local list" where
  "storage_local (StorageLive l) = [l]"
| "storage_local (StorageDead l) = [l]"
| "storage_local _ = []"

definition alloc_initial :: "body \<Rightarrow> alloc_state" where
  "alloc_initial m =
     fold (\<lambda>block s. fold (\<lambda>st s. fold (\<lambda>l s. s - {l}) (storage_local st) s) (statements block) s)
          (basic_blocks m) (set (vars_and_temps_iter m))"

definition alloc_engine :: "cfg \<Rightarrow> body \<Rightarrow> alloc_state engine" where
  "alloc_engine G m =
     \<lparr>engine_body = m, new_bottom = alloc_bottom m, new_initial = alloc_initial m, join = alloc_join,
      apply_statement_effect = alloc_statement_effect m,
      apply_terminator_effect = alloc_terminator_effect G m\<rparr>"

lemma alloc_engine_sel [simp]:
  "engine_body (alloc_engine G m) = m"
  "new_bottom (alloc_engine G m) = alloc_bottom m"
  "new_initial (alloc_engine G m) = alloc_initial m"
  "join (alloc_engine G m) = alloc_join"
  "apply_statement_effect (alloc_engine G m) = alloc_statement_effect m"
  "apply_terminator_effect (alloc_engine G m) = alloc_terminator_effect G m"
  by (simp_all add: alloc_engine_def)

definition analyze_allocated :: "cfg \<Rightarrow> body \<Rightarrow> (analysis_error, alloc_state pointwise_state) outcome option" where
  "analyze_allocated G m = run_fwd_analysis (alloc_engine G m) G"

section \<open>Facts about the operations\<close>

lemma alloc_join_Int [simp]: "alloc_join s t = s \<inter> t"
  by (auto simp: alloc_join_def)

definition storage_locals :: "body \<Rightarrow> mir_local set" where
  "storage_locals m =
     {l. \<exists>block \<in> set (basic_blocks m). \<exists>st \<in> set (statements block). l \<in> set (storage_local st)}"

lemma fold_remove: "fold (\<lambda>l s. s - {l}) ls s = s - set ls"
  by (induction ls arbitrary: s) auto

lemma fold_remove_stmts:
  "fold (\<lambda>st s. fold (\<lambda>l s. s - {l}) (storage_local st) s) sts s
     = s - {l. \<exists>st \<in> set sts. l \<in> set (storage_local st)}"
  by (induction sts arbitrary: s) (auto simp: fold_remove)

lemma alloc_initial_eq: "alloc_initial m = set (vars_and_temps_iter m) - storage_locals m"
proof -
  have "fold (\<lambda>block s. fold (\<lambda>st s. fold (\<lambda>l s. s - {l}) (storage_local st) s) (statements block) s) bs s
      = s - {l. \<exists>block \<in> set bs. \<exists>st \<in> set (statements block). l \<in> set (storage_local st)}" for bs s
    by (induction bs arbitrary: s) (auto simp: fold_remove_stmts)
  then show ?thesis by (simp add: alloc_initial_def storage_locals_def)
qed

lemma statement_at_Some:
  "statement_at m l = Some st \<Longrightarrow> \<exists>block \<in> set (basic_blocks m). st \<in> set (statements block)"
  by (fastforce simp: statement_at_def split: if_splits intro: nth_mem)

lemma statement_at_storage:
  "statement_at m l = Some st \<Longrightarrow> x \<in> set (storage_local st) \<Longrightarrow> x \<in> storage_locals m"
  unfolding storage_locals_def by (blast dest: statement_at_Some)

text \<open>What a statement does to the storage of the locals, as a function of the whole set.\<close>

fun storage_effect :: "statement \<Rightarrow> mir_local set \<Rightarrow> mir_local set" where
  "storage_effect (StorageLive x) s = insert x s"
| "storage_effect (StorageDead x) s = s - {x}"
| "storage_effect _ s = s"

lemma alloc_statement_effect_eq:
  "alloc_statement_effect m s l = map_option (\<lambda>st. storage_effect st s) (statement_at m l)"
  by (auto simp: alloc_statement_effect_def set_local_allocated_def set_place_unallocated_def
      split: option.split statement.split)

lemma storage_effect_mono: "s \<subseteq> t \<Longrightarrow> storage_effect st s \<subseteq> storage_effect st t"
  by (cases st) auto

lemma storage_effect_bound: "storage_effect st s \<subseteq> s \<union> set (storage_local st)"
  by (cases st) auto

lemma alloc_terminator_effect_eq:
  "b < n_blocks m \<Longrightarrow> alloc_terminator_effect G m s (terminator_loc m b)
     = Ok (map (\<lambda>bb. (bb, s)) (succs_of G m b))"
  by (simp add: alloc_terminator_effect_def terminator_at_def terminator_loc_def)

section \<open>The contracts of the engine\<close>

text \<open>
  The locals a state can hold: the declared ones and those named by a storage statement. Larger in
  the lattice means fewer locals; the rank of a state counts the missing ones.
\<close>

definition alloc_universe :: "body \<Rightarrow> mir_local set" where
  "alloc_universe m = {..<local_count m} \<union> storage_locals m"

definition alloc_rank :: "body \<Rightarrow> alloc_state \<Rightarrow> nat" where
  "alloc_rank m s = card (alloc_universe m - s)"

lemma finite_alloc_universe [simp]: "finite (alloc_universe m)"
proof -
  have "storage_locals m = (\<Union>block \<in> set (basic_blocks m). \<Union>st \<in> set (statements block). set (storage_local st))"
    by (auto simp: storage_locals_def)
  then show ?thesis by (simp add: alloc_universe_def)
qed

interpretation alloc: total_engine "alloc_engine G m" G "\<lambda>s t. t \<subseteq> s" "\<lambda>s. s \<subseteq> alloc_universe m"
    "alloc_rank m" "card (alloc_universe m)" for G m
proof unfold_locales
  show "new_initial (alloc_engine G m) \<subseteq> alloc_universe m"
    by (auto simp: alloc_initial_eq vars_and_temps_iter_def alloc_universe_def)
next
  show "new_bottom (alloc_engine G m) \<subseteq> alloc_universe m"
    by (auto simp: alloc_bottom_def alloc_universe_def)
next
  fix l s t
  assume s: "s \<subseteq> alloc_universe m" and "apply_statement_effect (alloc_engine G m) s l = Some t"
  then obtain st where st: "statement_at m l = Some st" "t = storage_effect st s"
    by (auto simp: alloc_statement_effect_eq)
  have "set (storage_local st) \<subseteq> alloc_universe m"
    using statement_at_storage [OF st(1)] by (auto simp: alloc_universe_def)
  with s st(2) storage_effect_bound [of st s] show "t \<subseteq> alloc_universe m" by blast
next
  fix l s s' t t' assume "s' \<subseteq> s" "apply_statement_effect (alloc_engine G m) s l = Some t"
    "apply_statement_effect (alloc_engine G m) s' l = Some t'"
  then show "t' \<subseteq> t" by (auto simp: alloc_statement_effect_eq intro!: storage_effect_mono del: subsetI)
next
  fix b s ns x t
  assume "b < n_blocks (engine_body (alloc_engine G m))" "s \<subseteq> alloc_universe m" "(x, t) \<in> set ns"
    "apply_terminator_effect (alloc_engine G m) s (terminator_loc (engine_body (alloc_engine G m)) b) = Ok ns"
  then show "t \<subseteq> alloc_universe m" by (auto simp: alloc_terminator_effect_eq)
next
  fix b s s' ns ns'
  assume "b < n_blocks (engine_body (alloc_engine G m))" "s' \<subseteq> s"
    "apply_terminator_effect (alloc_engine G m) s (terminator_loc (engine_body (alloc_engine G m)) b) = Ok ns"
    "apply_terminator_effect (alloc_engine G m) s' (terminator_loc (engine_body (alloc_engine G m)) b) = Ok ns'"
  then show "list_all2 (\<lambda>x y. fst x = fst y \<and> snd y \<subseteq> snd x) ns ns'"
    by (auto simp: alloc_terminator_effect_eq list_all2_conv_all_nth)
next
  fix s t assume st: "t \<subseteq> s" "s \<noteq> t" "s \<subseteq> alloc_universe m"
  then have "alloc_universe m - s \<subset> alloc_universe m - t" by blast
  then show "alloc_rank m s < alloc_rank m t"
    unfolding alloc_rank_def by (intro psubset_card_mono) auto
next
  fix s show "alloc_rank m s \<le> card (alloc_universe m)"
    using card_mono [of "alloc_universe m" "alloc_universe m - s"] by (simp add: alloc_rank_def)
next
  fix l s assume "stmt_point (engine_body (alloc_engine G m)) l"
  then show "apply_statement_effect (alloc_engine G m) s l \<noteq> None"
    by (simp add: alloc_statement_effect_eq statement_at_def stmt_point_def)
next
  fix b s assume "b < n_blocks (engine_body (alloc_engine G m))"
  then show "\<exists>ns. apply_terminator_effect (alloc_engine G m) s
        (terminator_loc (engine_body (alloc_engine G m)) b) = Ok ns
      \<and> set (succs_of G (engine_body (alloc_engine G m)) b) \<subseteq> fst ` set ns"
    by (force simp: alloc_terminator_effect_eq)
qed auto

text \<open>
  The concrete machine: the set of allocated locals. \<open>StorageLive\<close> and \<open>StorageDead\<close> change it,
  no other statement and no terminator does; a local without any storage statement is allocated
  from the entry on.
\<close>

definition alloc_entry :: "body \<Rightarrow> mir_local set set" where
  "alloc_entry m = {A. set (vars_and_temps_iter m) - storage_locals m \<subseteq> A}"

definition alloc_exec_statement :: "body \<Rightarrow> location \<Rightarrow> mir_local set \<Rightarrow> mir_local set \<Rightarrow> bool" where
  "alloc_exec_statement m l A A' \<longleftrightarrow>
     (case statement_at m l of None \<Rightarrow> False | Some st \<Rightarrow> A' = storage_effect st A)"

definition alloc_exec_terminator ::
  "cfg \<Rightarrow> body \<Rightarrow> basic_block \<Rightarrow> mir_local set \<Rightarrow> basic_block \<Rightarrow> mir_local set \<Rightarrow> bool" where
  "alloc_exec_terminator G m b A x A' \<longleftrightarrow> x \<in> set (succs_of G m b) \<and> A' = A"

abbreviation alloc_reaches :: "cfg \<Rightarrow> body \<Rightarrow> location \<Rightarrow> mir_local set \<Rightarrow> bool" where
  "alloc_reaches G m \<equiv> reaches m (alloc_entry m) (alloc_exec_statement m) (alloc_exec_terminator G m)"

interpretation alloc: sound_abstraction "alloc_engine G m" G "\<lambda>s A. s \<subseteq> A" "alloc_entry m"
    "alloc_exec_statement m" "alloc_exec_terminator G m" for G m
proof unfold_locales
  fix s A l t A'
  assume "s \<subseteq> A" "apply_statement_effect (alloc_engine G m) s l = Some t" "alloc_exec_statement m l A A'"
  then show "t \<subseteq> A'"
    by (auto simp: alloc_statement_effect_eq alloc_exec_statement_def split: option.splits intro!: storage_effect_mono del: subsetI)
next
  fix b s A ns x A'
  assume "b < n_blocks (engine_body (alloc_engine G m))" "s \<subseteq> A"
    "apply_terminator_effect (alloc_engine G m) s (terminator_loc (engine_body (alloc_engine G m)) b) = Ok ns"
    "alloc_exec_terminator G m b A x A'"
  then show "x \<in> set (succs_of G (engine_body (alloc_engine G m)) b) \<and> (\<exists>u. (x, u) \<in> set ns \<and> u \<subseteq> A')"
    by (auto simp: alloc_terminator_effect_eq alloc_exec_terminator_def image_iff intro!: exI [of _ s])
qed (auto simp: alloc_initial_eq alloc_entry_def)

section \<open>The properties of the analysis\<close>

text \<open>
  C2. On every body with a consistent control-flow graph the definitely-allocated analysis
  terminates, does not panic and reports no error: it returns a table.
\<close>

theorem analyze_allocated_total:
  assumes "cfg_ok G m"
  shows "\<exists>ps. analyze_allocated G m = Some (Ok ps)"
  unfolding analyze_allocated_def by (rule alloc.run_fwd_analysis_total) (simp add: assms)

theorem analyze_allocated_total_witness:
  "\<exists>ps. analyze_allocated sample_cfg sample_body = Some (Ok ps)"
  by (rule analyze_allocated_total [OF sample_body_cfg_ok])

lemma analyze_allocated_stable:
  assumes "cfg_ok G m" and "analyze_allocated G m = Some (Ok ps)" and "b < n_blocks m"
  shows "stable_block (alloc_engine G m) G ps b"
  using run_fwd_analysis_inv(3) [of "alloc_engine G m" G ps b] assms
  by (simp add: analyze_allocated_def)

text \<open>
  C3. The table is sound: whatever path leads to a program point, every local the table reports
  there is allocated.
\<close>

theorem analyze_allocated_sound:
  assumes "cfg_ok G m" and "analyze_allocated G m = Some (Ok ps)" and "alloc_reaches G m l A"
  shows "\<exists>s. lookup_before ps l = Some s \<and> s \<subseteq> A"
  using alloc.fixpoint_describes [of G m ps l A] analyze_allocated_stable [OF assms(1,2)] assms(1,3)
  by (simp add: lookup_before_def)

lemma sample_alloc_reaches: "alloc_reaches sample_cfg sample_body (loc 0 1) {1, 3}"
proof -
  have entry: "alloc_reaches sample_cfg sample_body (loc 0 0) {3}"
    by (rule reaches.entry)
       (auto simp: alloc_entry_def sample_body_def storage_locals_def vars_and_temps_iter_def)
  have "alloc_reaches sample_cfg sample_body (loc 0 (Suc 0)) {1, 3}"
    by (rule reaches.stmt [OF entry])
       (simp_all add: sample_body_def alloc_exec_statement_def statement_at_def)
  then show ?thesis by simp
qed

theorem analyze_allocated_sound_witness:
  "\<exists>ps s. analyze_allocated sample_cfg sample_body = Some (Ok ps)
     \<and> lookup_before ps (loc 0 1) = Some s \<and> s \<subseteq> {1, 3}"
proof -
  obtain ps where ps: "analyze_allocated sample_cfg sample_body = Some (Ok ps)"
    using alloc.run_fwd_analysis_total [of sample_cfg sample_body] sample_body_cfg_ok
    by (auto simp: analyze_allocated_def)
  with analyze_allocated_sound [OF sample_body_cfg_ok ps sample_alloc_reaches] show ?thesis by blast
qed

text \<open>
  C1. The table an analysis returns is a fixed point, whatever the client: the state before every
  statement and terminator and the state on every edge of every block are exactly what the
  transfer functions compute from the join of the predecessors' edge states.
\<close>

theorem fwd_analysis_fixpoint:
  assumes "cfg_ok G (engine_body E)" and "run_fwd_analysis E G = Some (Ok ps)"
    and "b < n_blocks (engine_body E)"
  shows "stable_block E G ps b"
  using run_fwd_analysis_inv(3) [OF assms(2,1,3)] .

theorem fwd_analysis_fixpoint_witness:
  "\<exists>ps. run_fwd_analysis (alloc_engine sample_cfg sample_body) sample_cfg = Some (Ok ps)
     \<and> stable_block (alloc_engine sample_cfg sample_body) sample_cfg ps 1"
proof -
  obtain ps where ps: "run_fwd_analysis (alloc_engine sample_cfg sample_body) sample_cfg = Some (Ok ps)"
    using alloc.run_fwd_analysis_total [of sample_cfg sample_body] sample_body_cfg_ok by auto
  have "cfg_ok sample_cfg (engine_body (alloc_engine sample_cfg sample_body))"
    by (simp add: sample_body_cfg_ok)
  from fwd_analysis_fixpoint [OF this ps, of 1] ps show ?thesis by (auto simp: sample_body_def)
qed

text \<open>
  Serialising the table of a successful analysis never hits a missing entry: one row per block
  comes out, in block order.
\<close>

theorem serialize_result:
  assumes "cfg_ok G (engine_body E)" and "run_fwd_analysis E G = Some (Ok ps)"
  shows "\<exists>rows. serialize edge_order ps = Some rows \<and> map fst rows = [0..<n_blocks (engine_body E)]"
proof -
  note inv = run_fwd_analysis_inv [OF assms(2,1)]
  have "complete_table ps" by (rule stable_complete_table [OF inv(2,3)])
  then have def: "\<forall>b \<in> set [0..<n_blocks (pw_mir ps)]. serialize_block edge_order ps b \<noteq> None"
    using serialize_block_complete by (metis atLeastLessThan_iff set_upt)
  have "fst (the (serialize_block edge_order ps b)) = b" if "b \<in> set [0..<n_blocks (pw_mir ps)]" for b
    using bspec [OF def that] by (auto simp: serialize_block_def Let_def split: if_splits option.splits)
  then have "map fst (map (\<lambda>b. the (serialize_block edge_order ps b)) [0..<n_blocks (pw_mir ps)])
      = [0..<n_blocks (pw_mir ps)]"
    unfolding map_map by (intro map_idI) simp
  with serialize_rows [OF def] inv(2) show ?thesis
    by (simp add: serialize_def)
qed

theorem serialize_result_witness:
  "\<exists>ps rows. run_fwd_analysis (alloc_engine sample_cfg sample_body) sample_cfg = Some (Ok ps)
     \<and> serialize (\<lambda>m. []) ps = Some rows \<and> map fst rows = [0, 1, 2]"
proof -
  obtain ps where ps: "run_fwd_analysis (alloc_engine sample_cfg sample_body) sample_cfg = Some (Ok ps)"
    using alloc.run_fwd_analysis_total [of sample_cfg sample_body] sample_body_cfg_ok by auto
  have "cfg_ok sample_cfg (engine_body (alloc_engine sample_cfg sample_body))"
    by (simp add: sample_body_cfg_ok)
  from serialize_result [OF this ps, of "\<lambda>m. []"] ps show ?thesis
    by (auto simp: sample_body_def upt_rec)
qed

end
