(* ===== verification/InitAnalysis.thy ===== *)
theory InitAnalysis
  imports DefinitelyInitialized DefinitelyAllocated
begin

text \<open>
  The definitely-initialized analysis is sound, and what its caller makes of the table:
  \<open>translation/src/environment/mir_analyses/initialization.rs\<close> with \<open>mir_sets/place_set.rs\<close>.
\<close>

section \<open>The concrete machine\<close>

text \<open>
  A configuration is the set of initialised places. Moving out of a place or ending its storage
  uninitialises every place that overlaps it; assigning initialises the place and everything this
  fills; on a cleanup edge nothing is known.
\<close>

definition consume :: "place list \<Rightarrow> place set \<Rightarrow> place set" where
  "consume ps M = {q \<in> M. \<forall>p \<in> set ps. \<not> overlap q p}"

definition fill :: "tcx \<Rightarrow> place set \<Rightarrow> place \<Rightarrow> place set" where
  "fill Q M p = {q. filled Q (insert p M) q}"

fun moved_by :: "operand \<Rightarrow> place list" where
  "moved_by (Move p) = [p]"
| "moved_by _ = []"

fun moved_by_rvalue :: "rvalue \<Rightarrow> place list" where
  "moved_by_rvalue (Use a) = moved_by a"
| "moved_by_rvalue (Repeat a _) = moved_by a"
| "moved_by_rvalue (Cast _ a _) = moved_by a"
| "moved_by_rvalue (UnaryOp _ a) = moved_by a"
| "moved_by_rvalue (BinaryOp _ a b) = moved_by a @ moved_by b"
| "moved_by_rvalue (Aggregate _ as) = concat (map moved_by as)"
| "moved_by_rvalue _ = []"

fun init_exec :: "tcx \<Rightarrow> statement \<Rightarrow> place set \<Rightarrow> place set" where
  "init_exec Q (Assign target source) M = fill Q (consume (moved_by_rvalue source) M) target"
| "init_exec Q (StorageDead x) M = consume [place_of_local x] M"
| "init_exec Q _ M = M"

definition init_exec_statement :: "tcx \<Rightarrow> body \<Rightarrow> location \<Rightarrow> place set \<Rightarrow> place set \<Rightarrow> bool" where
  "init_exec_statement Q m l M M' \<longleftrightarrow>
     (case statement_at m l of None \<Rightarrow> False | Some st \<Rightarrow> M' = init_exec Q st M)"

fun init_jump :: "tcx \<Rightarrow> terminator \<Rightarrow> place set \<Rightarrow> basic_block \<Rightarrow> place set \<Rightarrow> bool" where
  "init_jump Q (SwitchInt a _ _) M x M' \<longleftrightarrow> M' = consume (moved_by a) M"
| "init_jump Q (Drop p t u) M x M' \<longleftrightarrow> (x = t \<and> M' = consume [p] M) \<or> u = Cleanup x"
| "init_jump Q (Call f as d t u) M x M' \<longleftrightarrow>
     (t = Some x \<and> M' = fill Q (consume (concat (map moved_by as) @ moved_by f) M) d) \<or> u = Cleanup x"
| "init_jump Q (Assert a e t u) M x M' \<longleftrightarrow> (x = t \<and> M' = consume (moved_by a) M) \<or> u = Cleanup x"
| "init_jump Q (Yield a t d) M x M' \<longleftrightarrow> (x = t \<and> M' = consume (moved_by a) M) \<or> d = Some x"
| "init_jump Q _ M x M' \<longleftrightarrow> M' = M"

definition init_exec_terminator ::
  "tcx \<Rightarrow> cfg \<Rightarrow> body \<Rightarrow> basic_block \<Rightarrow> place set \<Rightarrow> basic_block \<Rightarrow> place set \<Rightarrow> bool" where
  "init_exec_terminator Q G m b M x M' \<longleftrightarrow>
     x \<in> set (succs_of G m b) \<and> init_jump Q (terminator (basic_blocks m ! b)) M x M'"

definition init_entry :: "body \<Rightarrow> place set set" where
  "init_entry m = {M. \<forall>q. local_of q \<in> set (args_iter m) \<longrightarrow> q \<in> M}"

abbreviation init_reaches :: "tcx \<Rightarrow> cfg \<Rightarrow> body \<Rightarrow> location \<Rightarrow> place set \<Rightarrow> bool" where
  "init_reaches Q G m \<equiv> reaches m (init_entry m) (init_exec_statement Q m) (init_exec_terminator Q G m)"

section \<open>The transfer functions describe the machine\<close>

text \<open>A state describes the configurations in which every place it covers is initialised.\<close>

definition describes :: "init_state \<Rightarrow> place set \<Rightarrow> bool" where
  "describes S M \<longleftrightarrow> (\<forall>q. covers S q \<longrightarrow> q \<in> M)"

lemma describes_top [simp]: "describes new_top M"
  by (simp add: describes_def covers_def new_top_def)

lemma describes_uninit:
  "\<lbrakk>describes S M; set_place_uninitialised Q S p = Some S'\<rbrakk> \<Longrightarrow> describes S' (consume [p] M)"
  using uninit_covers(1) unfolding describes_def consume_def by auto

lemma describes_init:
  assumes "describes S M" and "set_place_initialised Q S p = Some S'"
  shows "describes S' (fill Q M p)"
  unfolding describes_def fill_def
proof (intro allI impI CollectI)
  fix q assume "covers S' q"
  from set_place_initialised_covers(3) [OF assms(2) this] show "filled Q (insert p M) q"
    by (rule filled_subset) (use assms(1) covers_member in \<open>auto simp: describes_def\<close>)
qed

lemma consume_append: "consume (ps @ qs) M = consume qs (consume ps M)"
  by (auto simp: consume_def)

lemma describes_operand:
  "\<lbrakk>describes S M; apply_operand_effect Q a S = Some S'\<rbrakk> \<Longrightarrow> describes S' (consume (moved_by a) M)"
  by (cases a) (auto simp: apply_operand_effect_def consume_def dest: describes_uninit)

lemma describes_operands:
  "\<lbrakk>describes S M; fold_opt (apply_operand_effect Q) as S = Some S'\<rbrakk>
    \<Longrightarrow> describes S' (consume (concat (map moved_by as)) M)"
proof (induction as arbitrary: S M)
  case Nil
  then show ?case by (simp add: consume_def)
next
  case (Cons a as)
  then obtain T where T: "apply_operand_effect Q a S = Some T" "fold_opt (apply_operand_effect Q) as T = Some S'"
    by (auto split: option.splits)
  from Cons.IH [OF describes_operand [OF Cons.prems(1) T(1)] T(2)] show ?case
    by (simp add: consume_append)
qed

lemma describes_rvalue:
  "\<lbrakk>describes S M; rvalue_effect Q v S = Some S'\<rbrakk> \<Longrightarrow> describes S' (consume (moved_by_rvalue v) M)"
proof (cases v)
  case (BinaryOp o' a b)
  assume "describes S M" and "rvalue_effect Q v S = Some S'"
  with BinaryOp obtain T where T: "apply_operand_effect Q a S = Some T" "apply_operand_effect Q b T = Some S'"
    by (auto simp: bind_eq_Some_conv)
  from describes_operand [OF describes_operand [OF \<open>describes S M\<close> T(1)] T(2)] BinaryOp show ?thesis
    by (simp add: consume_append)
qed (auto simp: consume_def [of "[]"] intro: describes_operand describes_operands)

lemma describes_statement:
  assumes "describes S M" and "init_statement_effect Q m S l = Some S'" and "init_exec_statement Q m l M M'"
  shows "describes S' M'"
proof -
  from assms obtain st where st: "statement_at m l = Some st" "M' = init_exec Q st M"
    by (auto simp: init_exec_statement_def split: option.splits)
  show ?thesis
  proof (cases st)
    case (Assign target source)
    with assms(2) st obtain T where T: "rvalue_effect Q source S = Some T" "set_place_initialised Q T target = Some S'"
      by (auto simp: init_statement_effect_def bind_eq_Some_conv)
    from describes_init [OF describes_rvalue [OF assms(1) T(1)] T(2)] Assign st show ?thesis by simp
  next
    case (StorageDead x)
    with assms st describes_uninit show ?thesis by (auto simp: init_statement_effect_def)
  qed (use assms st in \<open>auto simp: init_statement_effect_def\<close>)
qed

lemma describes_edges:
  assumes "(x = t \<and> M' = N) \<or> u = Cleanup x" and "describes T N" and "ns = (t, T) # cleanup_edge u"
  shows "\<exists>U. (x, U) \<in> set ns \<and> describes U M'"
  using assms(1)
proof
  assume "u = Cleanup x"
  then have "(x, new_top) \<in> set ns" by (simp add: assms(3) cleanup_edge_def)
  then show ?thesis using describes_top by blast
qed (use assms in auto)

lemma describes_terminator:
  assumes "describes S M" and "terminator_effect Q G t l S = Ok ns" and "init_jump Q t M x M'"
    and "x \<in> set (successors G t)"
  shows "\<exists>T. (x, T) \<in> set ns \<and> describes T M'"
  using assms
proof (induction Q G t l S rule: terminator_effect.induct)
  case (1 Q G discr vs ts l S)
  then obtain T where T: "apply_operand_effect Q discr S = Some T"
    "ns = map (\<lambda>bb. (bb, T)) (successors G (SwitchInt discr vs ts))"
    by (auto simp: rust_simps)
  with 1 describes_operand [OF _ T(1)] have "(x, T) \<in> set ns \<and> describes T M'" by simp
  then show ?case by blast
next
  case (2 Q G p target unwind l S)
  from "2.prems"(2) obtain T where T: "set_place_uninitialised Q S p = Some T" "ns = (target, T) # cleanup_edge unwind"
    by (auto simp: rust_simps)
  with "2.prems"(3) describes_uninit [OF "2.prems"(1) T(1)] show ?case by (intro describes_edges) auto
next
  case (3 Q G func args destination target unwind l S)
  from "3.prems"(2) obtain T U where T: "fold_opt (apply_operand_effect Q) args S = Some T"
    "apply_operand_effect Q func T = Some U"
    and ns: "(case target of None \<Rightarrow> Ok (cleanup_edge unwind)
        | Some bb \<Rightarrow> and_then (or_panic (set_place_initialised Q U destination)) (\<lambda>S3.
            Ok ((bb, S3) # cleanup_edge unwind))) = (Ok ns :: (analysis_error, _) outcome)"
    unfolding terminator_effect.simps and_then_Ok or_panic_Ok by blast
  let ?M = "consume (concat (map moved_by args) @ moved_by func) M"
  from describes_operand [OF describes_operands [OF "3.prems"(1) T(1)] T(2)]
  have U: "describes U ?M" by (simp add: consume_append)
  show ?case
  proof (cases "unwind = Cleanup x")
    case True
    then have "(x, new_top) \<in> set ns"
      using ns by (cases target) (auto simp: rust_simps cleanup_edge_def)
    then show ?thesis using describes_top by blast
  next
    case False
    with "3.prems"(3) have x: "target = Some x" "M' = fill Q ?M destination" by auto
    with ns obtain V where V: "set_place_initialised Q U destination = Some V" "(x, V) \<in> set ns"
      by (auto simp: rust_simps)
    from describes_init [OF U V(1)] V(2) x(2) show ?thesis by blast
  qed
next
  case (4 Q G cond expected target unwind l S)
  from "4.prems"(2) obtain T where T: "apply_operand_effect Q cond S = Some T" "ns = (target, T) # cleanup_edge unwind"
    by (auto simp: rust_simps)
  with "4.prems"(3) describes_operand [OF "4.prems"(1) T(1)] show ?case by (intro describes_edges) auto
next
  case (5 Q G v resume dropb l S)
  from "5.prems"(2) obtain T where T: "apply_operand_effect Q v S = Some T"
    "ns = (resume, T) # (case dropb of None \<Rightarrow> [] | Some bb \<Rightarrow> [(bb, new_top)])"
    by (auto simp: rust_simps)
  show ?case
  proof (cases "dropb = Some x")
    case True
    with T(2) have "(x, new_top) \<in> set ns" by simp
    then show ?thesis using describes_top by blast
  next
    case False
    with "5.prems"(3) describes_operand [OF "5.prems"(1) T(1)] T(2) show ?thesis by auto
  qed
qed (auto simp: image_iff)

lemma describes_join1: "describes S M \<Longrightarrow> describes (init_join S T) M"
  and describes_join2: "describes T M \<Longrightarrow> describes (init_join S T) M"
  by (simp_all add: describes_def init_join_covers)

interpretation init: sound_abstraction "init_engine Q G m" G describes "init_entry m"
    "init_exec_statement Q m" "init_exec_terminator Q G m" for Q G m
proof unfold_locales
  fix M assume "M \<in> init_entry m"
  then show "describes (new_initial (init_engine Q G m)) M"
    by (auto simp: init_entry_def describes_def init_initial_def covers_def is_prefix_iff)
next
  fix b S M ns x M'
  assume "b < n_blocks (engine_body (init_engine Q G m))" "describes S M"
    "apply_terminator_effect (init_engine Q G m) S (terminator_loc (engine_body (init_engine Q G m)) b) = Ok ns"
    "init_exec_terminator Q G m b M x M'"
  then show "x \<in> set (succs_of G (engine_body (init_engine Q G m)) b) \<and> (\<exists>u. (x, u) \<in> set ns \<and> describes u M')"
    using describes_terminator
    by (auto simp: init_exec_terminator_def init_terminator_effect_def terminator_loc_def terminator_at_def)
qed (simp_all add: describes_statement describes_join1 describes_join2)

section \<open>The caller\<close>

text \<open>\<open>PlaceSet\<close> wraps the set of places.\<close>

datatype place_set = PlaceSet (places: "place set")

definition place_set_contains :: "place_set \<Rightarrow> place \<Rightarrow> bool" where
  "place_set_contains ps p \<longleftrightarrow> p \<in> places ps"

record 't analysis_result =
  before_block :: "basic_block \<Rightarrow> 't option"
  after_statement :: "location \<Rightarrow> 't option"

definition result_new :: "'t analysis_result" where
  "result_new = \<lparr>before_block = Map.empty, after_statement = Map.empty\<rparr>"

definition get_before_block :: "'t analysis_result \<Rightarrow> basic_block \<Rightarrow> 't option" where
  "get_before_block r bb = before_block r bb"

text \<open>The states on the edges of a block, joined in the order of the successors' indices.\<close>

definition joined_edges :: "body \<Rightarrow> init_state list \<Rightarrow> init_state" where
  "joined_edges m states =
     (case states of [] \<Rightarrow> init_bottom m | s # ss \<Rightarrow> fold (\<lambda>state curr. init_join curr state) ss s)"

definition insert_before :: "basic_block \<Rightarrow> init_state \<Rightarrow> place_set analysis_result \<Rightarrow> place_set analysis_result" where
  "insert_before bb s r = r\<lparr>before_block := (before_block r)(bb \<mapsto> PlaceSet s)\<rparr>"

definition insert_after :: "location \<Rightarrow> init_state \<Rightarrow> place_set analysis_result \<Rightarrow> place_set analysis_result" where
  "insert_after l s r = r\<lparr>after_statement := (after_statement r)(l \<mapsto> PlaceSet s)\<rparr>"

definition convert_block ::
  "body \<Rightarrow> init_state pointwise_state \<Rightarrow> basic_block \<Rightarrow> place_set analysis_result \<Rightarrow> place_set analysis_result option" where
  "convert_block m ps bb r =
     (let n = length (statements (basic_blocks m ! bb)) in
      case lookup_before ps (loc bb 0) of
        None \<Rightarrow> None
      | Some s \<Rightarrow>
          Option.bind
            (fold_opt (\<lambda>i r. map_option (\<lambda>s. insert_after (loc bb i) s r) (lookup_after ps (loc bb i)))
               [0..<n] (insert_before bb s r))
            (\<lambda>r. case lookup_after_block ps bb of
                None \<Rightarrow> None
              | Some edges \<Rightarrow>
                  Some (insert_after (loc bb n)
                    (joined_edges m (map (\<lambda>b. the (edges b)) (sorted_list_of_set (dom edges)))) r)))"

definition convert_result :: "body \<Rightarrow> init_state pointwise_state \<Rightarrow> place_set analysis_result option" where
  "convert_result m ps = fold_opt (convert_block m ps) [0..<n_blocks m] result_new"

text \<open>The outer \<^term>\<open>None\<close> is a call that does not return, the inner one a panic.\<close>

definition compute_definitely_initialized ::
  "tcx \<Rightarrow> cfg \<Rightarrow> body \<Rightarrow> place_set analysis_result option option" where
  "compute_definitely_initialized Q G m =
     map_option (\<lambda>r. case r of Ok ps \<Rightarrow> convert_result m ps | _ \<Rightarrow> None)
       (run_fwd_analysis (init_engine Q G m) G)"

section \<open>Soundness\<close>

text \<open>
  C4. The definitely-initialized analysis is sound: on every path to a program point, each place that
  the table covers there (a tracked place or an extension of one) is initialised.
\<close>

theorem init_analysis_sound:
  assumes "cfg_ok G m" and "run_fwd_analysis (init_engine Q G m) G = Some (Ok ps)"
    and "init_reaches Q G m l M"
  shows "\<exists>S. lookup_before ps l = Some S \<and> (\<forall>q. covers S q \<longrightarrow> q \<in> M)"
  using init.fixpoint_describes [of G Q m ps] run_fwd_analysis_inv(3) [OF assms(2)] assms(1,3)
  by (simp add: lookup_before_def describes_def)

text \<open>A straight-line body that assigns local 1, for evaluation.\<close>

definition straight_body :: body where
  "straight_body =
     \<lparr>basic_blocks = [\<lparr>statements = [Assign (place_of_local 1) (OtherRvalue 0)], terminator = Return\<rparr>],
      local_count = 2, arg_count = 0\<rparr>"

lemma straight_body_cfg_ok: "cfg_ok sample_cfg straight_body"
  by (rule sample_cfg_ok) (simp_all add: straight_body_def)

lemma straight_run:
  "\<exists>ps. run_fwd_analysis (init_engine sample_tcx sample_cfg straight_body) sample_cfg = Some (Ok ps)
     \<and> lookup_before ps (loc 0 1) = Some {place_of_local 1}"
proof -
  have "set_place_initialised sample_tcx {} (place_of_local (Suc 0)) = Some {place_of_local (Suc 0)}"
    unfolding set_place_initialised_def collapse_def by (subst collapse_rec.simps) simp
  then have stmt: "init_statement_effect sample_tcx straight_body {} (loc 0 0) = Some {place_of_local (Suc 0)}"
    by (simp add: init_statement_effect_def statement_at_def straight_body_def)
  let ?E = "init_engine sample_tcx sample_cfg straight_body"
  have "\<exists>st. process_block ?E sample_cfg 0 (init_loop ?E\<lparr>work_set := []\<rparr>) = Ok st \<and> work_set st = []
      \<and> state_before (p_state st) (loc 0 1) = Some {place_of_local 1}"
    using stmt
    by (simp add: process_block_def block_in_def entry_state_def init_initial_def args_iter_def init_loop_def
        straight_body_def sample_cfg_def run_statements_def run_statement_def terminator_loc_def
        init_terminator_effect_def terminator_at_def collect_next_def Let_def)
  then obtain st where st: "process_block ?E sample_cfg 0 (init_loop ?E\<lparr>work_set := []\<rparr>) = Ok st"
    "work_set st = []" "state_before (p_state st) (loc 0 1) = Some {place_of_local 1}" by blast
  have "work_set (init_loop ?E) = [0]" by (simp add: init_loop_def straight_body_def)
  then have "run_loop ?E sample_cfg (init_loop ?E) = run_loop ?E sample_cfg st"
    using st(1) by (subst run_loop.simps) simp
  also have "\<dots> = Some (Ok (p_state st))"
    using st(2) by (subst run_loop.simps) simp
  finally show ?thesis
    using st(3) by (simp add: run_fwd_analysis_def lookup_before_def)
qed

lemma straight_reaches:
  "init_reaches sample_tcx sample_cfg straight_body (loc 0 1) (fill sample_tcx {} (place_of_local 1))"
proof -
  let ?R = "init_reaches sample_tcx sample_cfg straight_body"
  have "?R (loc 0 0) {}"
    by (rule reaches.entry) (simp add: init_entry_def args_iter_def straight_body_def)
  then have "?R (loc 0 (Suc 0)) (fill sample_tcx {} (place_of_local 1))"
    by (rule reaches.stmt)
       (simp_all add: straight_body_def init_exec_statement_def statement_at_def consume_def)
  then show ?thesis by simp
qed

theorem init_analysis_sound_witness:
  "place_of_local 1 \<in> fill sample_tcx {} (place_of_local 1)"
proof -
  obtain ps where ps: "run_fwd_analysis (init_engine sample_tcx sample_cfg straight_body) sample_cfg = Some (Ok ps)"
    "lookup_before ps (loc 0 1) = Some {place_of_local 1}"
    using straight_run by blast
  from init_analysis_sound [OF straight_body_cfg_ok ps(1) straight_reaches] ps(2) show ?thesis
    using covers_member by auto
qed

section \<open>The converted result\<close>

lemma fold_opt_Some_eq:
  "(\<And>x s. x \<in> set xs \<Longrightarrow> f x s = Some (g x s)) \<Longrightarrow> fold_opt f xs s = Some (fold g xs s)"
  by (induction xs arbitrary: s) auto

lemma insert_after_run:
  "before_block (fold (\<lambda>i. insert_after (loc bb i) (h i)) is r) = before_block r"
  "after_statement (fold (\<lambda>i. insert_after (loc bb i) (h i)) is r) l
     = (if loc_block l = bb \<and> statement_index l \<in> set is then Some (PlaceSet (h (statement_index l)))
        else after_statement r l)"
  by (induction "is" arbitrary: r) (auto simp: insert_after_def)

lemma joined_edges_covers:
  "covers (joined_edges m ss) q
     \<longleftrightarrow> (if ss = [] then local_of q < local_count m else \<forall>s \<in> set ss. covers s q)"
proof (cases ss)
  case Nil
  then show ?thesis by (auto simp: joined_edges_def init_bottom_def covers_def is_prefix_iff)
next
  case (Cons s ss')
  have "covers (fold (\<lambda>state curr. init_join curr state) ts t) q \<longleftrightarrow> covers t q \<and> (\<forall>s \<in> set ts. covers s q)" for ts t
    by (induction ts arbitrary: t) (auto simp: init_join_covers)
  with Cons show ?thesis by (simp add: joined_edges_def)
qed

text \<open>One block of the result: the state before it, after each statement, and over its edges.\<close>

definition block_result ::
  "cfg \<Rightarrow> body \<Rightarrow> init_state pointwise_state \<Rightarrow> place_set analysis_result \<Rightarrow> basic_block \<Rightarrow> bool" where
  "block_result G m ps r b \<longleftrightarrow>
     before_block r b = map_option PlaceSet (state_before ps (loc b 0)) \<and>
     (\<forall>i < length (statements (basic_blocks m ! b)).
        after_statement r (loc b i) = map_option PlaceSet (state_before ps (loc b (Suc i)))) \<and>
     (\<exists>S. after_statement r (terminator_loc m b) = Some (PlaceSet S) \<and>
        (\<forall>q. covers S q \<longleftrightarrow>
           (if succs_of G m b = [] then local_of q < local_count m
            else \<forall>x \<in> set (succs_of G m b).
                   \<exists>T. (case lookup_after_block ps b of None \<Rightarrow> None | Some es \<Rightarrow> es x) = Some T \<and> covers T q)))"

lemma convert_block_result:
  assumes st: "stable_block (init_engine Q G m) G ps b" and edges: "edges_ok (init_engine Q G m) G ps"
  shows "\<exists>r'. convert_block m ps b r = Some r' \<and> block_result G m ps r' b
    \<and> (\<forall>c. c \<noteq> b \<longrightarrow> before_block r' c = before_block r c \<and> (\<forall>i. after_statement r' (loc c i) = after_statement r (loc c i)))"
proof -
  let ?n = "length (statements (basic_blocks m ! b))"
  from st obtain am where def: "\<And>i. i \<le> ?n \<Longrightarrow> state_before ps (loc b i) \<noteq> None"
    and am: "state_after_block ps b = Some am"
    unfolding stable_block_def by (metis init_engine_sel(1) option.distinct(1) state_at_defined)
  from edges am have dom: "dom am = set (succs_of G m b)" by (auto simp: edges_ok_def)
  let ?h = "\<lambda>i. the (state_before ps (loc b (Suc i)))"
  let ?r0 = "insert_before b (the (state_before ps (loc b 0))) r"
  let ?r1 = "fold (\<lambda>i. insert_after (loc b i) (?h i)) [0..<?n] ?r0"
  let ?ss = "map (\<lambda>x. the (am x)) (sorted_list_of_set (dom am))"
  have "fold_opt (\<lambda>i r. map_option (\<lambda>s. insert_after (loc b i) s r) (lookup_after ps (loc b i))) [0..<?n] ?r0
      = Some ?r1"
  proof (rule fold_opt_Some_eq)
    fix i r assume "i \<in> set [0..<?n]"
    with def [of "Suc i"] show "map_option (\<lambda>s. insert_after (loc b i) s r) (lookup_after ps (loc b i))
        = Some (insert_after (loc b i) (?h i) r)"
      by (auto simp: lookup_after_def successor_within_block_def)
  qed
  with def [of 0] am have conv: "convert_block m ps b r = Some (insert_after (loc b ?n) (joined_edges m ?ss) ?r1)"
    by (auto simp: convert_block_def Let_def lookup_before_def lookup_after_block_def)
  let ?r' = "insert_after (loc b ?n) (joined_edges m ?ss) ?r1"
  have set_ss: "set ?ss = (\<lambda>x. the (am x)) ` set (succs_of G m b)" "?ss = [] \<longleftrightarrow> succs_of G m b = []"
    by (simp_all add: dom)
  have covers: "covers (joined_edges m ?ss) q \<longleftrightarrow> (if succs_of G m b = [] then local_of q < local_count m
      else \<forall>x \<in> set (succs_of G m b). \<exists>T. am x = Some T \<and> covers T q)" for q
    unfolding joined_edges_covers set_ss using dom by fastforce
  have some: "map_option PlaceSet (state_before ps (loc b i)) = Some (PlaceSet (the (state_before ps (loc b i))))"
    if "i \<le> ?n" for i
    using def [OF that] by auto
  have "block_result G m ps ?r' b"
    unfolding block_result_def terminator_loc_def
    using covers am
    by (auto simp: insert_after_run lookup_after_block_def insert_after_def insert_before_def
        intro!: some [symmetric])
  moreover have "before_block ?r' c = before_block r c \<and> (\<forall>i. after_statement ?r' (loc c i) = after_statement r (loc c i))"
    if "c \<noteq> b" for c
    using that by (auto simp: insert_after_run insert_after_def insert_before_def)
  ultimately show ?thesis using conv by blast
qed

lemma convert_blocks_result:
  assumes "\<And>b. b \<in> set bs \<Longrightarrow> stable_block (init_engine Q G m) G ps b"
    and "edges_ok (init_engine Q G m) G ps" and "distinct bs"
  shows "\<exists>r'. fold_opt (convert_block m ps) bs r = Some r' \<and> (\<forall>b \<in> set bs. block_result G m ps r' b)"
proof -
  have "\<exists>r'. fold_opt (convert_block m ps) bs r = Some r' \<and> (\<forall>b \<in> set bs. block_result G m ps r' b)
      \<and> (\<forall>c. c \<notin> set bs \<longrightarrow> before_block r' c = before_block r c
           \<and> (\<forall>i. after_statement r' (loc c i) = after_statement r (loc c i)))"
    using assms
  proof (induction bs arbitrary: r)
    case Nil
    then show ?case by simp
  next
    case (Cons b bs)
    from convert_block_result [OF Cons.prems(1,2), of b r] obtain r1 where
      r1: "convert_block m ps b r = Some r1" "block_result G m ps r1 b"
      "\<forall>c. c \<noteq> b \<longrightarrow> before_block r1 c = before_block r c
         \<and> (\<forall>i. after_statement r1 (loc c i) = after_statement r (loc c i))" by auto
    from Cons.IH [OF Cons.prems(1,2), of r1] Cons.prems(3) obtain r2 where
      r2: "fold_opt (convert_block m ps) bs r1 = Some r2" "\<forall>c \<in> set bs. block_result G m ps r2 c"
      "\<forall>c. c \<notin> set bs \<longrightarrow> before_block r2 c = before_block r1 c
         \<and> (\<forall>i. after_statement r2 (loc c i) = after_statement r1 (loc c i))" by auto
    have "block_result G m ps r2 b"
      using r1(2) r2(3) Cons.prems(3) by (simp add: block_result_def terminator_loc_def)
    with r1 r2 Cons.prems(3) show ?case by auto
  qed
  then show ?thesis by blast
qed

text \<open>
  C8. When the analysis succeeds, \<open>compute_definitely_initialized\<close> does not panic: every lookup of
  the conversion finds its entry. The result has the table's state before each block and after each
  statement; after a terminator it covers exactly what the states on all outgoing edges cover, and
  every local when there is no edge.
\<close>

theorem compute_definitely_initialized_spec:
  assumes "cfg_ok G m" and "run_fwd_analysis (init_engine Q G m) G = Some (Ok ps)"
  shows "\<exists>r. compute_definitely_initialized Q G m = Some (Some r)
    \<and> (\<forall>b < n_blocks m. block_result G m ps r b)"
proof -
  have "edges_ok (init_engine Q G m) G ps" "\<And>b. b < n_blocks m \<Longrightarrow> stable_block (init_engine Q G m) G ps b"
    using run_fwd_analysis_inv(1,3) [OF assms(2)] assms(1) by simp_all
  with convert_blocks_result [of "[0..<n_blocks m]" Q G m ps result_new] show ?thesis
    using assms(2) by (auto simp: compute_definitely_initialized_def convert_result_def)
qed

theorem compute_definitely_initialized_spec_witness:
  "\<exists>r. compute_definitely_initialized sample_tcx sample_cfg straight_body = Some (Some r)
     \<and> after_statement r (loc 0 0) = Some (PlaceSet {place_of_local 1})"
proof -
  obtain ps where ps: "run_fwd_analysis (init_engine sample_tcx sample_cfg straight_body) sample_cfg = Some (Ok ps)"
    "lookup_before ps (loc 0 1) = Some {place_of_local 1}"
    using straight_run by blast
  from compute_definitely_initialized_spec [OF straight_body_cfg_ok ps(1)] obtain r where
    r: "compute_definitely_initialized sample_tcx sample_cfg straight_body = Some (Some r)"
    "block_result sample_cfg straight_body ps r 0"
    by (auto simp: straight_body_def)
  from r(2) have "after_statement r (loc 0 0) = map_option PlaceSet (state_before ps (loc 0 (Suc 0)))"
    unfolding block_result_def by (simp add: straight_body_def)
  with ps(2) r(1) show ?thesis by (simp add: lookup_before_def)
qed

end
