(* ===== verification/Comparison.thy ===== *)
theory Comparison
  imports MirSyntax
begin

text \<open>
  Three-way comparison as Rust has it: \<open>std::cmp::Ordering\<close> with \<open>then_with\<close>, the lexicographic
  \<open>Iterator::cmp_by\<close> and the length-first comparison of slices. A comparison may panic
  (\<open>unimplemented!\<close>, \<open>unreachable!\<close>), which is \<^term>\<open>None\<close>. The laws are stated pointwise, so that
  they can be proved by induction on the compared values, and collected in a locale.
\<close>

section \<open>Orderings\<close>

datatype ordering = Less | Equal | Greater

fun reverse :: "ordering \<Rightarrow> ordering" where
  "reverse Less = Greater"
| "reverse Equal = Equal"
| "reverse Greater = Less"

definition cmp_val :: "'a::linorder \<Rightarrow> 'a \<Rightarrow> ordering option" where
  "cmp_val x y = Some (if x < y then Less else if x = y then Equal else Greater)"

definition then_with :: "ordering option \<Rightarrow> ordering option \<Rightarrow> ordering option" where
  "then_with x y = (case x of Some Equal \<Rightarrow> y | _ \<Rightarrow> x)"

fun cmp_by :: "('a \<Rightarrow> 'b \<Rightarrow> ordering option) \<Rightarrow> 'a list \<Rightarrow> 'b list \<Rightarrow> ordering option" where
  "cmp_by f [] [] = Some Equal"
| "cmp_by f [] (y # ys) = Some Less"
| "cmp_by f (x # xs) [] = Some Greater"
| "cmp_by f (x # xs) (y # ys) = then_with (f x y) (cmp_by f xs ys)"

fun cmp_zip :: "('a \<Rightarrow> 'b \<Rightarrow> ordering option) \<Rightarrow> 'a list \<Rightarrow> 'b list \<Rightarrow> ordering option" where
  "cmp_zip f (x # xs) (y # ys) = then_with (f x y) (cmp_zip f xs ys)"
| "cmp_zip f _ _ = Some Equal"

definition cmp_slices :: "('a \<Rightarrow> 'b \<Rightarrow> ordering option) \<Rightarrow> 'a list \<Rightarrow> 'b list \<Rightarrow> ordering option" where
  "cmp_slices f xs ys = then_with (cmp_val (length xs) (length ys)) (cmp_zip f xs ys)"

lemma cmp_by_cong [fundef_cong]:
  "\<lbrakk>xs = xs'; ys = ys'; \<And>x y. x \<in> set xs' \<Longrightarrow> y \<in> set ys' \<Longrightarrow> f x y = g x y\<rbrakk> \<Longrightarrow> cmp_by f xs ys = cmp_by g xs' ys'"
  by (induction f xs ys arbitrary: xs' ys' rule: cmp_by.induct) auto

lemma cmp_slices_cong [fundef_cong]:
  assumes "xs = xs'" and "ys = ys'" and "\<And>x y. x \<in> set xs' \<Longrightarrow> y \<in> set ys' \<Longrightarrow> f x y = g x y"
  shows "cmp_slices f xs ys = cmp_slices g xs' ys'"
proof -
  have "cmp_zip f xs' ys' = cmp_zip g xs' ys'"
    using assms(3) by (induction f xs' ys' rule: cmp_zip.induct) auto
  then show ?thesis by (simp add: cmp_slices_def assms(1,2))
qed

lemma then_with_cong [fundef_cong]:
  "\<lbrakk>x = x'; x' = Some Equal \<Longrightarrow> y = y'\<rbrakk> \<Longrightarrow> then_with x y = then_with x' y'"
  by (auto simp: then_with_def split: option.split ordering.split)

lemma then_with_simps [simp]:
  "then_with (Some Equal) y = y" "then_with (Some Less) y = Some Less"
  "then_with (Some Greater) y = Some Greater" "then_with None y = None"
  by (simp_all add: then_with_def)

lemma then_with_Some:
  "then_with x y = Some r \<longleftrightarrow> (x = Some r \<and> r \<noteq> Equal) \<or> (x = Some Equal \<and> y = Some r)"
  by (auto simp: then_with_def split: option.split ordering.split)

section \<open>Antisymmetry\<close>

abbreviation flipped :: "ordering option \<Rightarrow> ordering option" where
  "flipped \<equiv> map_option reverse"

lemma reverse_reverse [simp]: "reverse (reverse x) = x"
  by (cases x) auto

lemma reverse_eq_Equal [simp]: "reverse x = Equal \<longleftrightarrow> x = Equal"
  by (cases x) auto

lemma flipped_then_with: "flipped (then_with x y) = then_with (flipped x) (flipped y)"
  by (auto simp: then_with_def split: option.split ordering.split)

lemma cmp_val_flip: "cmp_val y x = flipped (cmp_val x y)"
  by (auto simp: cmp_val_def)

lemma cmp_val_Equal [simp]: "cmp_val x y = Some Equal \<longleftrightarrow> x = y"
  by (auto simp: cmp_val_def)

lemma cmp_val_refl [simp]: "cmp_val x x = Some Equal"
  by simp

lemma cmp_by_flip:
  "(\<And>x y. x \<in> set xs \<Longrightarrow> y \<in> set ys \<Longrightarrow> f y x = flipped (f x y)) \<Longrightarrow> cmp_by f ys xs = flipped (cmp_by f xs ys)"
  by (induction f xs ys rule: cmp_by.induct) (auto simp: flipped_then_with)

lemma cmp_slices_flip:
  assumes "\<And>x y. x \<in> set xs \<Longrightarrow> y \<in> set ys \<Longrightarrow> f y x = flipped (f x y)"
  shows "cmp_slices f ys xs = flipped (cmp_slices f xs ys)"
proof -
  have "cmp_zip f ys xs = flipped (cmp_zip f xs ys)"
    using assms by (induction f xs ys rule: cmp_zip.induct) (auto simp: flipped_then_with neq_Nil_conv elim: cmp_zip.elims)
  then show ?thesis by (simp add: cmp_slices_def flipped_then_with cmp_val_flip [of "length ys"])
qed

section \<open>Reflexivity\<close>

text \<open>A comparison of a value with itself never yields an inequality.\<close>

abbreviation reflexive_result :: "ordering option \<Rightarrow> bool" where
  "reflexive_result r \<equiv> r = None \<or> r = Some Equal"

lemma refl_then_with: "reflexive_result x \<Longrightarrow> reflexive_result y \<Longrightarrow> reflexive_result (then_with x y)"
  by auto

lemma refl_cmp_by: "(\<And>x. x \<in> set xs \<Longrightarrow> reflexive_result (f x x)) \<Longrightarrow> reflexive_result (cmp_by f xs xs)"
  by (induction xs) fastforce+

lemma refl_cmp_slices:
  assumes "\<And>x. x \<in> set xs \<Longrightarrow> reflexive_result (f x x)"
  shows "reflexive_result (cmp_slices f xs xs)"
proof -
  have "reflexive_result (cmp_zip f xs xs)"
    using assms by (induction xs) fastforce+
  then show ?thesis by (simp add: cmp_slices_def)
qed

section \<open>Transitivity\<close>

text \<open>Two results that go the same way determine the third, which is then no panic.\<close>

definition composes :: "ordering option \<Rightarrow> ordering option \<Rightarrow> ordering option \<Rightarrow> bool" where
  "composes x y z \<longleftrightarrow>
     (x \<noteq> None \<longrightarrow> y \<noteq> None \<longrightarrow> x \<noteq> Some Greater \<longrightarrow> y \<noteq> Some Greater \<longrightarrow> z = then_with x y)"

lemma composes_None [simp]: "composes None y z" "composes x None z"
  by (simp_all add: composes_def)

lemma composes_then_with:
  "composes x y z \<Longrightarrow> composes x' y' z' \<Longrightarrow> composes (then_with x x') (then_with y y') (then_with z z')"
  by (auto simp: composes_def then_with_def split: option.splits ordering.splits)

lemma composes_val: "composes (cmp_val a b) (cmp_val b c) (cmp_val a c)"
  by (auto simp: composes_def cmp_val_def)

lemma composes_Equal [simp]: "composes (Some Equal) (Some Equal) (Some Equal)"
  by (simp add: composes_def)

lemma composes_by:
  "(\<And>x y z. x \<in> set xs \<Longrightarrow> y \<in> set ys \<Longrightarrow> z \<in> set zs \<Longrightarrow> composes (f x y) (f y z) (f x z))
     \<Longrightarrow> composes (cmp_by f xs ys) (cmp_by f ys zs) (cmp_by f xs zs)"
proof (induction f xs ys arbitrary: zs rule: cmp_by.induct)
  case (1 f)
  then show ?case by (cases zs) (auto simp: composes_def)
next
  case (2 f y ys)
  then show ?case by (cases zs) (auto simp: composes_def)
next
  case (3 f x xs)
  then show ?case by (auto simp: composes_def)
next
  case (4 f x xs y ys)
  then show ?case by (cases zs) (auto simp: composes_then_with composes_def [of _ "Some Greater"])
qed

lemma composes_zip:
  "\<lbrakk>length xs = length ys; length ys = length zs;
    \<And>x y z. x \<in> set xs \<Longrightarrow> y \<in> set ys \<Longrightarrow> z \<in> set zs \<Longrightarrow> composes (f x y) (f y z) (f x z)\<rbrakk>
     \<Longrightarrow> composes (cmp_zip f xs ys) (cmp_zip f ys zs) (cmp_zip f xs zs)"
  by (induction xs ys zs rule: list_induct3) (auto simp: composes_then_with)

lemma composes_slices:
  assumes "\<And>x y z. x \<in> set xs \<Longrightarrow> y \<in> set ys \<Longrightarrow> z \<in> set zs \<Longrightarrow> composes (f x y) (f y z) (f x z)"
  shows "composes (cmp_slices f xs ys) (cmp_slices f ys zs) (cmp_slices f xs zs)"
proof (cases "length xs = length ys \<and> length ys = length zs")
  case True
  with composes_zip [of xs ys zs f] assms show ?thesis by (simp add: cmp_slices_def)
next
  case False
  then show ?thesis
    using composes_val [of "length xs" "length ys" "length zs"]
    by (auto simp: cmp_slices_def composes_def then_with_def cmp_val_def split: if_splits ordering.split)
qed

section \<open>The contract of a comparator\<close>

locale comparator =
  fixes cmp :: "'a \<Rightarrow> 'a \<Rightarrow> ordering option"
  assumes cmp_flip: "cmp b a = flipped (cmp a b)"
    and cmp_refl: "reflexive_result (cmp a a)"
    and cmp_composes: "composes (cmp a b) (cmp b c) (cmp a c)"
begin

lemma less_trans: "cmp a b = Some Less \<Longrightarrow> cmp b c = Some Less \<Longrightarrow> cmp a c = Some Less"
  using cmp_composes [of a b c] by (simp add: composes_def)

lemma less_asym: "cmp a b = Some Less \<Longrightarrow> cmp b a = Some Greater"
  using cmp_flip [of b a] by simp

lemma equal_sym: "cmp a b = Some Equal \<Longrightarrow> cmp b a = Some Equal"
  using cmp_flip [of b a] by simp

lemma equal_less: "cmp a b = Some Equal \<Longrightarrow> cmp b c = Some Less \<Longrightarrow> cmp a c = Some Less"
  using cmp_composes [of a b c] by (simp add: composes_def)

lemma greater_trans: "cmp a b = Some Greater \<Longrightarrow> cmp b c = Some Greater \<Longrightarrow> cmp a c = Some Greater"
  using less_trans [of c b a] cmp_flip [of b a] cmp_flip [of c b] cmp_flip [of a c] by auto

text \<open>Comparable values are in exactly one of the three relations.\<close>

lemma trichotomy:
  "cmp a b \<noteq> None \<Longrightarrow> cmp a b = Some Less \<or> cmp a b = Some Equal \<or> cmp b a = Some Less"
  using cmp_flip [of b a] by (cases "the (cmp a b)") auto

end

interpretation cmp_val: comparator "cmp_val :: 'a::linorder \<Rightarrow> 'a \<Rightarrow> ordering option"
  by unfold_locales (simp_all add: composes_val, rule cmp_val_flip)

end
