(* ===== verification/PlaceOrder.thy ===== *)
theory PlaceOrder
  imports Comparison
begin

text \<open>
  The comparison functions of \<open>analysis/src/domains/definitely_initialized/utils.rs\<close> on places,
  regions, types and generic arguments. Their copies in \<open>translation/src/rustcmp.rs\<close> have the same
  text for types and regions and differ in how definitions and generic arguments are compared: the
  record \<open>cmp_env\<close> says which one is meant. What the compiler supplies is in the same record: the
  rank of the path hash or path string of a definition, and the rank of an interned name.
\<close>

section \<open>The compiler's part\<close>

datatype cmp_file = UtilsRs | RustcmpRs

record cmp_env =
  cmp_file :: cmp_file
  def_rank :: "def_id \<Rightarrow> nat"
  symbol_rank :: "string \<Rightarrow> nat"

definition cmp_defid :: "cmp_env \<Rightarrow> def_id \<Rightarrow> def_id \<Rightarrow> ordering option" where
  "cmp_defid E a b = cmp_val (def_rank E a) (def_rank E b)"

text \<open>The derived order of \<open>ParamTy\<close>: the index, then the name.\<close>

definition cmp_param :: "cmp_env \<Rightarrow> nat \<times> string \<Rightarrow> nat \<times> string \<Rightarrow> ordering option" where
  "cmp_param E a b =
     then_with (cmp_val (fst a) (fst b)) (cmp_val (symbol_rank E (snd a)) (symbol_rank E (snd b)))"

section \<open>Regions\<close>

fun cmp_bound_var_index_kind :: "bound_var_index_kind \<Rightarrow> bound_var_index_kind \<Rightarrow> ordering option" where
  "cmp_bound_var_index_kind Canonical Canonical = Some Equal"
| "cmp_bound_var_index_kind Canonical _ = Some Greater"
| "cmp_bound_var_index_kind (BoundIdx i) (BoundIdx j) = cmp_val i j"
| "cmp_bound_var_index_kind (BoundIdx _) Canonical = Some Less"

fun region_discriminant :: "region \<Rightarrow> nat" where
  "region_discriminant (ReEarlyParam _ _) = 0"
| "region_discriminant (ReBound _ _ _) = 1"
| "region_discriminant (ReLateParam _) = 2"
| "region_discriminant ReStatic = 3"
| "region_discriminant (ReVar _) = 4"
| "region_discriminant (RePlaceholder _) = 5"
| "region_discriminant ReErased = 6"
| "region_discriminant (ReError _) = 7"

fun cmp_region_kind :: "region \<Rightarrow> region \<Rightarrow> ordering option" where
  "cmp_region_kind (ReEarlyParam i _) (ReEarlyParam j _) = cmp_val i j"
| "cmp_region_kind (ReBound d v _) (ReBound d' v' _) = then_with (cmp_bound_var_index_kind d d') (cmp_val v v')"
| "cmp_region_kind (ReLateParam _) (ReLateParam _) = None"
| "cmp_region_kind (ReVar i) (ReVar j) = cmp_val i j"
| "cmp_region_kind (RePlaceholder _) (RePlaceholder _) = None"
| "cmp_region_kind ReStatic ReStatic = Some Equal"
| "cmp_region_kind ReErased ReErased = Some Equal"
| "cmp_region_kind (ReError _) (ReError _) = Some Equal"
| "cmp_region_kind _ _ = None"

definition cmp_region :: "region \<Rightarrow> region \<Rightarrow> ordering option" where
  "cmp_region a b = then_with (cmp_val (region_discriminant a) (region_discriminant b)) (cmp_region_kind a b)"

definition cmp_const :: "const \<Rightarrow> const \<Rightarrow> ordering option" where
  "cmp_const a b = None"

section \<open>Types\<close>

fun ty_discriminant :: "ty \<Rightarrow> nat" where
  "ty_discriminant TyBool = 0"
| "ty_discriminant TyChar = 1"
| "ty_discriminant (TyInt _) = 2"
| "ty_discriminant (TyUint _) = 3"
| "ty_discriminant (TyFloat _) = 4"
| "ty_discriminant (TyAdt _ _) = 5"
| "ty_discriminant (TyForeign _) = 6"
| "ty_discriminant TyStr = 7"
| "ty_discriminant (TyArray _ _) = 8"
| "ty_discriminant (TySlice _) = 9"
| "ty_discriminant (TyRawPtr _ _) = 10"
| "ty_discriminant (TyRef _ _ _) = 11"
| "ty_discriminant (TyFnDef _ _) = 12"
| "ty_discriminant (TyFnPtr _ _) = 13"
| "ty_discriminant (TyDynamic _ _ _) = 14"
| "ty_discriminant (TyClosure _ _) = 15"
| "ty_discriminant (TyCoroutineClosure _ _) = 16"
| "ty_discriminant (TyCoroutine _ _) = 17"
| "ty_discriminant (TyCoroutineWitness _ _) = 18"
| "ty_discriminant TyNever = 19"
| "ty_discriminant (TyTuple _) = 20"
| "ty_discriminant (TyPat _ _) = 21"
| "ty_discriminant (TyAlias _ _ _) = 22"
| "ty_discriminant (TyParam _ _) = 23"
| "ty_discriminant (TyBound _ _) = 24"
| "ty_discriminant (TyPlaceholder _) = 25"
| "ty_discriminant (TyInfer _) = 26"
| "ty_discriminant (TyError _) = 27"
| "ty_discriminant (TyUnsafeBinder _) = 28"

fun generic_arg_kind_variant :: "generic_arg \<Rightarrow> nat" where
  "generic_arg_kind_variant (ArgConst _) = 0"
| "generic_arg_kind_variant (ArgType _) = 1"
| "generic_arg_kind_variant (ArgLifetime _) = 2"

text \<open>
  \<open>cmp_arg_ref\<close> of \<open>rustcmp.rs\<close> matches on the pair of types first, so that a parameter comes
  before every other type; the one of \<open>utils.rs\<close> compares the kinds of the arguments first.
\<close>

function cmp_ty :: "cmp_env \<Rightarrow> ty \<Rightarrow> ty \<Rightarrow> ordering option"
  and cmp_arg_ref :: "cmp_env \<Rightarrow> generic_arg \<Rightarrow> generic_arg \<Rightarrow> ordering option" where
  "cmp_ty E a b =
     then_with (cmp_val (ty_discriminant a) (ty_discriminant b))
       (case a of
          TyInt i \<Rightarrow> (case b of TyInt j \<Rightarrow> cmp_val i j | _ \<Rightarrow> None)
        | TyUint i \<Rightarrow> (case b of TyUint j \<Rightarrow> cmp_val i j | _ \<Rightarrow> None)
        | TyFloat i \<Rightarrow> (case b of TyFloat j \<Rightarrow> cmp_val i j | _ \<Rightarrow> None)
        | TyAdt d s \<Rightarrow> (case b of TyAdt d' s' \<Rightarrow> then_with (cmp_defid E d d') (cmp_slices (cmp_arg_ref E) s s') | _ \<Rightarrow> None)
        | TyForeign d \<Rightarrow> (case b of TyForeign d' \<Rightarrow> cmp_defid E d d' | _ \<Rightarrow> None)
        | TyArray t c \<Rightarrow> (case b of TyArray t' c' \<Rightarrow> then_with (cmp_ty E t t') (cmp_const c c') | _ \<Rightarrow> None)
        | TyPat _ _ \<Rightarrow> None
        | TySlice t \<Rightarrow> (case b of TySlice t' \<Rightarrow> cmp_ty E t t' | _ \<Rightarrow> None)
        | TyRawPtr t m \<Rightarrow> (case b of TyRawPtr t' m' \<Rightarrow> then_with (cmp_ty E t t') (cmp_val m m') | _ \<Rightarrow> None)
        | TyRef r t m \<Rightarrow> (case b of TyRef r' t' m' \<Rightarrow>
            then_with (cmp_region r r') (then_with (cmp_ty E t t') (cmp_val m m')) | _ \<Rightarrow> None)
        | TyFnDef d s \<Rightarrow> (case b of TyFnDef d' s' \<Rightarrow> then_with (cmp_defid E d d') (cmp_slices (cmp_arg_ref E) s s') | _ \<Rightarrow> None)
        | TyFnPtr _ _ \<Rightarrow> None
        | TyDynamic _ _ _ \<Rightarrow> None
        | TyClosure d s \<Rightarrow> (case b of TyClosure d' s' \<Rightarrow> then_with (cmp_defid E d d') (cmp_slices (cmp_arg_ref E) s s') | _ \<Rightarrow> None)
        | TyCoroutineClosure d s \<Rightarrow> (case b of TyCoroutineClosure d' s' \<Rightarrow>
            then_with (cmp_defid E d d') (cmp_slices (cmp_arg_ref E) s s') | _ \<Rightarrow> None)
        | TyCoroutine d s \<Rightarrow> (case b of TyCoroutine d' s' \<Rightarrow> then_with (cmp_defid E d d') (cmp_slices (cmp_arg_ref E) s s') | _ \<Rightarrow> None)
        | TyCoroutineWitness d s \<Rightarrow> (case b of TyCoroutineWitness d' s' \<Rightarrow>
            then_with (cmp_defid E d d') (cmp_slices (cmp_arg_ref E) s s') | _ \<Rightarrow> None)
        | TyTuple ts \<Rightarrow> (case b of TyTuple ts' \<Rightarrow> cmp_by (cmp_ty E) ts ts' | _ \<Rightarrow> None)
        | TyAlias k d s \<Rightarrow> (case b of TyAlias k' d' s' \<Rightarrow>
            then_with (cmp_val k k') (then_with (cmp_defid E d d') (cmp_slices (cmp_arg_ref E) s s')) | _ \<Rightarrow> None)
        | TyParam i n \<Rightarrow> (case b of TyParam i' n' \<Rightarrow> cmp_param E (i, n) (i', n') | _ \<Rightarrow> None)
        | TyBound _ _ \<Rightarrow> None
        | TyPlaceholder _ \<Rightarrow> None
        | TyInfer _ \<Rightarrow> None
        | TyError _ \<Rightarrow> None
        | TyUnsafeBinder _ \<Rightarrow> None
        | TyBool \<Rightarrow> (case b of TyBool \<Rightarrow> Some Equal | _ \<Rightarrow> None)
        | TyChar \<Rightarrow> (case b of TyChar \<Rightarrow> Some Equal | _ \<Rightarrow> None)
        | TyStr \<Rightarrow> (case b of TyStr \<Rightarrow> Some Equal | _ \<Rightarrow> None)
        | TyNever \<Rightarrow> (case b of TyNever \<Rightarrow> Some Equal | _ \<Rightarrow> None))"
| "cmp_arg_ref E x y =
     (case cmp_file E of
        UtilsRs \<Rightarrow>
          then_with (cmp_val (generic_arg_kind_variant x) (generic_arg_kind_variant y))
            (case x of
               ArgConst c \<Rightarrow> (case y of ArgConst c' \<Rightarrow> cmp_const c c' | _ \<Rightarrow> None)
             | ArgType t \<Rightarrow> (case y of ArgType t' \<Rightarrow> cmp_ty E t t' | _ \<Rightarrow> None)
             | ArgLifetime r \<Rightarrow> (case y of ArgLifetime r' \<Rightarrow> cmp_region r r' | _ \<Rightarrow> None))
      | RustcmpRs \<Rightarrow>
          (case x of
             ArgConst c \<Rightarrow> (case y of ArgConst c' \<Rightarrow> cmp_const c c' | _ \<Rightarrow> None)
           | ArgType t \<Rightarrow>
               (case y of
                  ArgType t' \<Rightarrow>
                    (case t of
                       TyParam i n \<Rightarrow> (case t' of TyParam i' n' \<Rightarrow> cmp_param E (i, n) (i', n') | _ \<Rightarrow> Some Less)
                     | _ \<Rightarrow> cmp_ty E t t')
                | _ \<Rightarrow> None)
           | ArgLifetime r \<Rightarrow> (case y of ArgLifetime r' \<Rightarrow> cmp_region r r' | _ \<Rightarrow> None)))"
  by pat_completeness auto

termination
  by (relation "measure (\<lambda>x. case x of Inl (E, a, b) \<Rightarrow> size a | Inr (E, x, y) \<Rightarrow> size x)")
     (auto dest!: size_list_estimation' [where f = size, OF _ order_refl])

declare cmp_ty.simps [simp del] cmp_arg_ref.simps [simp del]

lemmas cmp_ty_kinds =
  cmp_ty.simps [of _ "TyBool"]
  cmp_ty.simps [of _ "TyChar"]
  cmp_ty.simps [of _ "TyInt i" for i]
  cmp_ty.simps [of _ "TyUint i" for i]
  cmp_ty.simps [of _ "TyFloat i" for i]
  cmp_ty.simps [of _ "TyAdt d s" for d s]
  cmp_ty.simps [of _ "TyForeign d" for d]
  cmp_ty.simps [of _ "TyStr"]
  cmp_ty.simps [of _ "TyArray t c" for t c]
  cmp_ty.simps [of _ "TySlice t" for t]
  cmp_ty.simps [of _ "TyRawPtr t m" for t m]
  cmp_ty.simps [of _ "TyRef r t m" for r t m]
  cmp_ty.simps [of _ "TyFnDef d s" for d s]
  cmp_ty.simps [of _ "TyFnPtr x h" for x h]
  cmp_ty.simps [of _ "TyDynamic x as r" for x as r]
  cmp_ty.simps [of _ "TyClosure d s" for d s]
  cmp_ty.simps [of _ "TyCoroutineClosure d s" for d s]
  cmp_ty.simps [of _ "TyCoroutine d s" for d s]
  cmp_ty.simps [of _ "TyCoroutineWitness d s" for d s]
  cmp_ty.simps [of _ "TyNever"]
  cmp_ty.simps [of _ "TyTuple ts" for ts]
  cmp_ty.simps [of _ "TyPat x p" for x p]
  cmp_ty.simps [of _ "TyAlias k d s" for k d s]
  cmp_ty.simps [of _ "TyParam i n" for i n]
  cmp_ty.simps [of _ "TyBound x b" for x b]
  cmp_ty.simps [of _ "TyPlaceholder x" for x]
  cmp_ty.simps [of _ "TyInfer x" for x]
  cmp_ty.simps [of _ "TyError x" for x]
  cmp_ty.simps [of _ "TyUnsafeBinder x" for x]

definition cmp_arg_refs :: "cmp_env \<Rightarrow> generic_arg list \<Rightarrow> generic_arg list \<Rightarrow> ordering option" where
  "cmp_arg_refs E = cmp_slices (cmp_arg_ref E)"

section \<open>Places\<close>

fun place_elem_variant :: "place_elem \<Rightarrow> nat" where
  "place_elem_variant Deref = 0"
| "place_elem_variant (Field _ _) = 1"
| "place_elem_variant (Index _) = 2"
| "place_elem_variant (ConstantIndex _ _ _) = 3"
| "place_elem_variant (Subslice _ _ _) = 4"
| "place_elem_variant (Downcast _ _) = 5"
| "place_elem_variant (OpaqueCast _) = 6"
| "place_elem_variant (UnwrapUnsafeBinder _) = 7"

fun cmp_elem_kind :: "cmp_env \<Rightarrow> place_elem \<Rightarrow> place_elem \<Rightarrow> ordering option" where
  "cmp_elem_kind E Deref Deref = Some Equal"
| "cmp_elem_kind E (Field i t) (Field j u) = then_with (cmp_val i j) (cmp_ty E t u)"
| "cmp_elem_kind E (Index i) (Index j) = cmp_val i j"
| "cmp_elem_kind E (ConstantIndex o1 m1 e1) (ConstantIndex o2 m2 e2) =
     then_with (cmp_val o1 o2) (then_with (cmp_val m1 m2) (cmp_val e1 e2))"
| "cmp_elem_kind E (Subslice f1 t1 e1) (Subslice f2 t2 e2) =
     then_with (cmp_val f1 f2) (then_with (cmp_val t1 t2) (cmp_val e1 e2))"
| "cmp_elem_kind E (Downcast _ i) (Downcast _ j) = cmp_val i j"
| "cmp_elem_kind E (OpaqueCast t) (OpaqueCast u) = cmp_ty E t u"
| "cmp_elem_kind E (UnwrapUnsafeBinder t) (UnwrapUnsafeBinder u) = cmp_ty E t u"
| "cmp_elem_kind E _ _ = None"

definition cmp_place_elem :: "cmp_env \<Rightarrow> place_elem \<Rightarrow> place_elem \<Rightarrow> ordering option" where
  "cmp_place_elem E a b = then_with (cmp_val (place_elem_variant a) (place_elem_variant b)) (cmp_elem_kind E a b)"

text \<open>The argument of \<open>then\<close> is evaluated even when the locals differ, so its panic counts.\<close>

definition cmp_place :: "cmp_env \<Rightarrow> place \<Rightarrow> place \<Rightarrow> ordering option" where
  "cmp_place E a b =
     (case cmp_by (cmp_place_elem E) (projection a) (projection b) of
        None \<Rightarrow> None
      | Some c \<Rightarrow> then_with (cmp_val (local_of a) (local_of b)) (Some c))"

end
