(* ===== verification/OrderLaws.thy ===== *)
theory OrderLaws
  imports PlaceOrder
begin

text \<open>
  The comparison functions of \<open>utils.rs\<close> obey the comparator contract, so that sorting by them is
  well defined. The ones of \<open>rustcmp.rs\<close> break it on generic arguments.
\<close>

section \<open>Evaluation on constructors\<close>

lemma cmp_val_consts [simp]:
  "cmp_val (numeral m :: nat) (numeral n)
     = Some (if (numeral m :: nat) < numeral n then Less else if (numeral m :: nat) = numeral n then Equal else Greater)"
  "cmp_val (0 :: nat) (numeral n) = Some Less" "cmp_val (numeral n :: nat) 0 = Some Greater"
  "cmp_val (0 :: nat) (Suc 0) = Some Less" "cmp_val (Suc 0) 0 = Some Greater"
  "cmp_val (Suc 0) (numeral n) = Some (if Suc 0 < numeral n then Less else if Suc 0 = numeral n then Equal else Greater)"
  "cmp_val (numeral n) (Suc 0) = Some (if numeral n < Suc 0 then Less else if numeral n = Suc 0 then Equal else Greater)"
  by (simp_all add: cmp_val_def)

section \<open>Antisymmetry\<close>

lemma then_flip: "x' = flipped x \<Longrightarrow> y' = flipped y \<Longrightarrow> then_with x' y' = flipped (then_with x y)"
  by (simp add: flipped_then_with)

lemma cmp_defid_flip: "cmp_defid E b a = flipped (cmp_defid E a b)"
  unfolding cmp_defid_def by (rule cmp_val_flip)

lemma cmp_param_flip: "cmp_param E b a = flipped (cmp_param E a b)"
  unfolding cmp_param_def by (intro then_flip cmp_val_flip)

lemma cmp_bound_flip: "cmp_bound_var_index_kind b a = flipped (cmp_bound_var_index_kind a b)"
  by (cases a; cases b) (auto intro: cmp_val_flip)

lemma cmp_region_flip: "cmp_region b a = flipped (cmp_region a b)"
  unfolding cmp_region_def
  by (cases a; cases b; simp; intro then_flip cmp_val_flip cmp_bound_flip)

lemma cmp_ty_arg_flip:
  assumes "cmp_file E = UtilsRs"
  shows "cmp_ty E b a = flipped (cmp_ty E a b)" and "cmp_arg_ref E y x = flipped (cmp_arg_ref E x y)"
proof (induction a and x arbitrary: b and y rule: ty.induct generic_arg.induct)
  case (TyAdt d s)
  then show ?case by (cases b; simp add: cmp_ty_kinds; intro then_flip cmp_defid_flip cmp_slices_flip; simp)
next
  case (TyFnDef d s)
  then show ?case by (cases b; simp add: cmp_ty_kinds; intro then_flip cmp_defid_flip cmp_slices_flip; simp)
next
  case (TyClosure d s)
  then show ?case by (cases b; simp add: cmp_ty_kinds; intro then_flip cmp_defid_flip cmp_slices_flip; simp)
next
  case (TyCoroutineClosure d s)
  then show ?case by (cases b; simp add: cmp_ty_kinds; intro then_flip cmp_defid_flip cmp_slices_flip; simp)
next
  case (TyCoroutine d s)
  then show ?case by (cases b; simp add: cmp_ty_kinds; intro then_flip cmp_defid_flip cmp_slices_flip; simp)
next
  case (TyCoroutineWitness d s)
  then show ?case by (cases b; simp add: cmp_ty_kinds; intro then_flip cmp_defid_flip cmp_slices_flip; simp)
next
  case (TyAlias k d s)
  then show ?case by (cases b; simp add: cmp_ty_kinds; intro then_flip cmp_defid_flip cmp_slices_flip cmp_val_flip; simp)
next
  case (TyTuple ts)
  then show ?case by (cases b; simp add: cmp_ty_kinds; intro cmp_by_flip; simp)
next
  case (TyArray t c)
  then show ?case by (cases b; simp add: cmp_ty_kinds; intro then_flip; simp add: cmp_const_def)
next
  case (TySlice t)
  then show ?case by (cases b; simp add: cmp_ty_kinds)
next
  case (TyRawPtr t m)
  then show ?case by (cases b; simp add: cmp_ty_kinds; intro then_flip cmp_val_flip; simp)
next
  case (TyRef r t m)
  then show ?case by (cases b; simp add: cmp_ty_kinds; intro then_flip cmp_val_flip cmp_region_flip; simp)
next
  case (ArgType t)
  then show ?case by (cases y; simp add: cmp_arg_ref.simps assms)
next
  case (ArgConst c)
  then show ?case by (cases y; simp add: cmp_arg_ref.simps assms cmp_const_def)
next
  case (ArgLifetime r)
  then show ?case by (cases y; simp add: cmp_arg_ref.simps assms cmp_region_flip [of _ r])
qed (case_tac b; simp add: cmp_ty_kinds; intro cmp_val_flip cmp_defid_flip cmp_param_flip)+

section \<open>Reflexivity\<close>

lemma cmp_region_refl: "reflexive_result (cmp_region a a)"
proof (cases a)
  case (ReBound d v k)
  then show ?thesis by (cases d) (simp_all add: cmp_region_def)
qed (simp_all add: cmp_region_def)

lemma cmp_defid_refl [simp]: "cmp_defid E d d = Some Equal"
  by (simp add: cmp_defid_def)

lemma cmp_param_refl [simp]: "cmp_param E p p = Some Equal"
  by (simp add: cmp_param_def)

lemma refl_ty_arg:
  shows "reflexive_result (cmp_ty E a a)" and "reflexive_result (cmp_arg_ref E x x)"
proof (induction a and x rule: ty.induct generic_arg.induct)
  case (TyAdt d s)
  with refl_cmp_slices [of s "cmp_arg_ref E"] show ?case by (simp add: cmp_ty_kinds)
next
  case (TyFnDef d s)
  with refl_cmp_slices [of s "cmp_arg_ref E"] show ?case by (simp add: cmp_ty_kinds)
next
  case (TyClosure d s)
  with refl_cmp_slices [of s "cmp_arg_ref E"] show ?case by (simp add: cmp_ty_kinds)
next
  case (TyCoroutineClosure d s)
  with refl_cmp_slices [of s "cmp_arg_ref E"] show ?case by (simp add: cmp_ty_kinds)
next
  case (TyCoroutine d s)
  with refl_cmp_slices [of s "cmp_arg_ref E"] show ?case by (simp add: cmp_ty_kinds)
next
  case (TyCoroutineWitness d s)
  with refl_cmp_slices [of s "cmp_arg_ref E"] show ?case by (simp add: cmp_ty_kinds)
next
  case (TyAlias k d s)
  with refl_cmp_slices [of s "cmp_arg_ref E"] show ?case by (simp add: cmp_ty_kinds)
next
  case (TyRef r t m)
  then show ?case using cmp_region_refl [of r] by (auto simp: cmp_ty_kinds)
next
  case (TyTuple ts)
  then have "reflexive_result (cmp_by (cmp_ty E) ts ts)" by (intro refl_cmp_by) auto
  then show ?case by (simp add: cmp_ty_kinds)
next
  case (ArgType t)
  then show ?case by (cases "cmp_file E"; cases t; simp add: cmp_arg_ref.simps)
next
  case (ArgConst c)
  show ?case by (cases "cmp_file E"; simp add: cmp_arg_ref.simps cmp_const_def)
next
  case (ArgLifetime r)
  show ?case using cmp_region_refl [of r] by (cases "cmp_file E"; simp add: cmp_arg_ref.simps)
qed (auto simp: cmp_ty_kinds cmp_const_def)

section \<open>Transitivity\<close>

lemma composes_bound:
  "composes (cmp_bound_var_index_kind a b) (cmp_bound_var_index_kind b c) (cmp_bound_var_index_kind a c)"
  by (cases a; cases b; cases c) (simp_all add: composes_val, auto simp: composes_def cmp_val_def)

text \<open>Only values of one kind need looking at: the discriminants decide the rest.\<close>

lemma composes_kind:
  assumes "\<And>x y. disc x \<noteq> disc y \<Longrightarrow> f x y = cmp_val (disc x :: nat) (disc y)"
    and "\<lbrakk>disc a = disc b; disc b = disc c\<rbrakk> \<Longrightarrow> composes (f a b) (f b c) (f a c)"
    and "\<And>x y. disc x = disc y \<Longrightarrow> f x y \<noteq> None \<Longrightarrow> True"
  shows "composes (f a b) (f b c) (f a c)"
proof (cases "disc a = disc b \<and> disc b = disc c")
  case True
  with assms(2) show ?thesis by blast
next
  case False
  then consider "disc a \<noteq> disc b" "disc b \<noteq> disc c" | "disc a = disc b" "disc b \<noteq> disc c" | "disc a \<noteq> disc b" "disc b = disc c"
    by blast
  then show ?thesis
    using assms(1) [of a b] assms(1) [of b c] assms(1) [of a c]
    by cases (auto simp: composes_def cmp_val_def then_with_def split: if_splits ordering.split)
qed

lemma composes_region: "composes (cmp_region a b) (cmp_region b c) (cmp_region a c)"
proof (rule composes_kind [where disc = region_discriminant])
  fix x y assume "region_discriminant x \<noteq> region_discriminant y"
  then show "cmp_region x y = cmp_val (region_discriminant x) (region_discriminant y)"
    by (auto simp: cmp_region_def cmp_val_def)
next
  assume "region_discriminant a = region_discriminant b" "region_discriminant b = region_discriminant c"
  then show "composes (cmp_region a b) (cmp_region b c) (cmp_region a c)"
    unfolding cmp_region_def
    by (cases a; cases b; simp; cases c; simp; intro composes_then_with composes_val composes_bound)
qed simp

lemma composes_defid: "composes (cmp_defid E a b) (cmp_defid E b c) (cmp_defid E a c)"
  unfolding cmp_defid_def by (rule composes_val)

lemma composes_param: "composes (cmp_param E a b) (cmp_param E b c) (cmp_param E a c)"
  unfolding cmp_param_def by (intro composes_then_with composes_val)

lemma composes_ty_kind:
  assumes "\<lbrakk>ty_discriminant a = ty_discriminant b; ty_discriminant b = ty_discriminant c\<rbrakk>
    \<Longrightarrow> composes (cmp_ty E a b) (cmp_ty E b c) (cmp_ty E a c)"
  shows "composes (cmp_ty E a b) (cmp_ty E b c) (cmp_ty E a c)"
proof (rule composes_kind [where disc = ty_discriminant, OF _ assms])
  fix x y assume "ty_discriminant x \<noteq> ty_discriminant y"
  then show "cmp_ty E x y = cmp_val (ty_discriminant x) (ty_discriminant y)"
    by (subst cmp_ty.simps) (auto simp: cmp_val_def)
qed auto

lemmas composes_parts = composes_then_with composes_val composes_defid composes_param composes_region
  composes_slices composes_by

lemma composes_ty_arg:
  assumes "cmp_file E = UtilsRs"
  shows "composes (cmp_ty E a b) (cmp_ty E b c) (cmp_ty E a c)"
    and "composes (cmp_arg_ref E x y) (cmp_arg_ref E y z) (cmp_arg_ref E x z)"
proof (induction a and x arbitrary: b c and y z rule: ty.induct generic_arg.induct)
  case (ArgType t)
  then show ?case
    by (simp add: cmp_arg_ref.simps assms; intro composes_then_with composes_val;
        cases y; simp; cases z; simp)
next
  case (ArgConst k)
  show ?case
    by (simp add: cmp_arg_ref.simps assms; intro composes_then_with composes_val;
        cases y; simp add: cmp_const_def)
next
  case (ArgLifetime r)
  show ?case
    by (simp add: cmp_arg_ref.simps assms; intro composes_then_with composes_val;
        cases y; simp; cases z; simp add: composes_region)
next
  case (TyAdt d s)
  show ?case
    by (rule composes_ty_kind) (cases b; simp; cases c; simp add: cmp_ty_kinds cmp_const_def; intro composes_parts TyAdt; simp)
next
  case (TyFnDef d s)
  show ?case
    by (rule composes_ty_kind) (cases b; simp; cases c; simp add: cmp_ty_kinds cmp_const_def; intro composes_parts TyFnDef; simp)
next
  case (TyClosure d s)
  show ?case
    by (rule composes_ty_kind) (cases b; simp; cases c; simp add: cmp_ty_kinds cmp_const_def; intro composes_parts TyClosure; simp)
next
  case (TyCoroutineClosure d s)
  show ?case
    by (rule composes_ty_kind) (cases b; simp; cases c; simp add: cmp_ty_kinds cmp_const_def; intro composes_parts TyCoroutineClosure; simp)
next
  case (TyCoroutine d s)
  show ?case
    by (rule composes_ty_kind) (cases b; simp; cases c; simp add: cmp_ty_kinds cmp_const_def; intro composes_parts TyCoroutine; simp)
next
  case (TyCoroutineWitness d s)
  show ?case
    by (rule composes_ty_kind) (cases b; simp; cases c; simp add: cmp_ty_kinds cmp_const_def; intro composes_parts TyCoroutineWitness; simp)
next
  case (TyAlias k d s)
  show ?case
    by (rule composes_ty_kind) (cases b; simp; cases c; simp add: cmp_ty_kinds cmp_const_def; intro composes_parts TyAlias; simp)
next
  case (TyTuple ts)
  show ?case
    by (rule composes_ty_kind) (cases b; simp; cases c; simp add: cmp_ty_kinds cmp_const_def; intro composes_parts TyTuple; simp)
next
  case (TyRef r t m)
  show ?case
    by (rule composes_ty_kind) (cases b; simp; cases c; simp add: cmp_ty_kinds cmp_const_def; intro composes_parts TyRef; simp)
next
  case (TyRawPtr t m)
  show ?case
    by (rule composes_ty_kind) (cases b; simp; cases c; simp add: cmp_ty_kinds cmp_const_def; intro composes_parts TyRawPtr; simp)
next
  case (TySlice t)
  show ?case
    by (rule composes_ty_kind) (cases b; simp; cases c; simp add: cmp_ty_kinds cmp_const_def; intro composes_parts TySlice; simp)
next
  case (TyArray t c')
  show ?case
    by (rule composes_ty_kind) (cases b; simp; cases c; simp add: cmp_ty_kinds cmp_const_def; intro composes_parts TyArray; simp)
qed (rule composes_ty_kind, (case_tac b; simp; case_tac c; simp add: cmp_ty_kinds; intro composes_parts))+

section \<open>The contract on types, arguments and places\<close>

text \<open>The environment of \<open>utils.rs\<close>: definitions are compared by their path hashes.\<close>

definition utils_env :: "(def_id \<Rightarrow> nat) \<Rightarrow> (string \<Rightarrow> nat) \<Rightarrow> cmp_env" where
  "utils_env hash names = \<lparr>cmp_file = UtilsRs, def_rank = hash, symbol_rank = names\<rparr>"

lemma cmp_file_utils [simp]: "cmp_file (utils_env hash names) = UtilsRs"
  by (simp add: utils_env_def)

interpretation region_order: comparator cmp_region
  by unfold_locales (rule cmp_region_flip cmp_region_refl composes_region)+

interpretation ty_order: comparator "cmp_ty (utils_env hash names)" for hash names
  by unfold_locales (rule cmp_ty_arg_flip(1) [OF cmp_file_utils] refl_ty_arg(1) composes_ty_arg(1) [OF cmp_file_utils])+

interpretation arg_order: comparator "cmp_arg_ref (utils_env hash names)" for hash names
  by unfold_locales (rule cmp_ty_arg_flip(2) [OF cmp_file_utils] refl_ty_arg(2) composes_ty_arg(2) [OF cmp_file_utils])+

context comparator
begin

lemma slices_comparator: "comparator (cmp_slices cmp)"
  by unfold_locales (intro cmp_slices_flip cmp_flip refl_cmp_slices cmp_refl composes_slices cmp_composes)+

lemma by_comparator: "comparator (cmp_by cmp)"
  by unfold_locales (intro cmp_by_flip cmp_flip refl_cmp_by cmp_refl composes_by cmp_composes)+

end

interpretation args_order: comparator "cmp_arg_refs (utils_env hash names)" for hash names
  unfolding cmp_arg_refs_def by (rule arg_order.slices_comparator)

lemma cmp_elem_flip: "cmp_place_elem (utils_env hash names) b a = flipped (cmp_place_elem (utils_env hash names) a b)"
  unfolding cmp_place_elem_def
  by (cases a; cases b; simp; intro then_flip cmp_val_flip ty_order.cmp_flip)

lemma refl_elem: "reflexive_result (cmp_place_elem (utils_env hash names) a a)"
  using ty_order.cmp_refl by (cases a) (auto simp: cmp_place_elem_def)

lemma composes_elem:
  "composes (cmp_place_elem (utils_env hash names) a b) (cmp_place_elem (utils_env hash names) b c)
     (cmp_place_elem (utils_env hash names) a c)"
  unfolding cmp_place_elem_def
  by (intro composes_then_with composes_val;
      cases a; cases b; simp; cases c; simp; intro composes_then_with composes_val ty_order.cmp_composes)

interpretation elem_order: comparator "cmp_place_elem (utils_env hash names)" for hash names
  by unfold_locales (rule cmp_elem_flip refl_elem composes_elem)+

interpretation elems_order: comparator "cmp_by (cmp_place_elem (utils_env hash names))" for hash names
  by (rule elem_order.by_comparator)

text \<open>
  C15. Comparing types is a consistent order up to panics: swapping the arguments swaps the result
  (and panics together), a type is never unequal to itself, and two results that go the same way
  determine the third, which then does not panic.
\<close>

theorem cmp_ty_consistent:
  "cmp_ty (utils_env hash names) b a = flipped (cmp_ty (utils_env hash names) a b)
   \<and> reflexive_result (cmp_ty (utils_env hash names) a a)
   \<and> composes (cmp_ty (utils_env hash names) a b) (cmp_ty (utils_env hash names) b c) (cmp_ty (utils_env hash names) a c)"
  using ty_order.cmp_flip ty_order.cmp_refl ty_order.cmp_composes by blast

lemma cmp_place_Some:
  "cmp_place E a b = Some r \<longleftrightarrow>
     (\<exists>p. cmp_by (cmp_place_elem E) (projection a) (projection b) = Some p
        \<and> then_with (cmp_val (local_of a) (local_of b)) (Some p) = Some r)"
  by (auto simp: cmp_place_def split: option.splits)

text \<open>
  C16. Comparing places is a consistent order on places that can be compared with each other: it is
  antisymmetric and never makes a place unequal to itself, less-or-equal results compose, and equal
  places have the same local and equally long projections.
\<close>

theorem cmp_place_consistent:
  assumes "cmp_place (utils_env hash names) a c \<noteq> None"
  shows "cmp_place (utils_env hash names) c a = flipped (cmp_place (utils_env hash names) a c)
   \<and> reflexive_result (cmp_place (utils_env hash names) a a)
   \<and> composes (cmp_place (utils_env hash names) a b) (cmp_place (utils_env hash names) b c) (cmp_place (utils_env hash names) a c)
   \<and> (cmp_place (utils_env hash names) a c = Some Equal
        \<longrightarrow> local_of a = local_of c \<and> length (projection a) = length (projection c))"
proof -
  let ?C = "cmp_place (utils_env hash names)" and ?P = "cmp_by (cmp_place_elem (utils_env hash names))"
  have "?C c a = flipped (?C a c)"
    unfolding cmp_place_def elems_order.cmp_flip [of _ _ "projection c"] cmp_val_flip [of "local_of c"]
    by (auto simp: flipped_then_with split: option.split)
  moreover have "reflexive_result (?C a a)"
    using elems_order.cmp_refl [of hash names "projection a"] unfolding cmp_place_def by auto
  moreover have "composes (?C a b) (?C b c) (?C a c)"
  proof -
    have "composes (then_with (cmp_val (local_of a) (local_of b)) (?P (projection a) (projection b)))
        (then_with (cmp_val (local_of b) (local_of c)) (?P (projection b) (projection c)))
        (then_with (cmp_val (local_of a) (local_of c)) (?P (projection a) (projection c)))"
      by (intro composes_then_with composes_val elems_order.cmp_composes)
    moreover have "?C x y = then_with (cmp_val (local_of x) (local_of y)) (?P (projection x) (projection y))"
      if "?C x y \<noteq> None" for x y
      using that by (auto simp: cmp_place_def split: option.splits)
    ultimately show ?thesis using assms unfolding composes_def by metis
  qed
  moreover have "length xs = length ys" if "cmp_by f xs ys = Some Equal" for f :: "place_elem \<Rightarrow> place_elem \<Rightarrow> ordering option" and xs ys
    using that by (induction f xs ys rule: cmp_by.induct) (auto simp: then_with_Some)
  then have "?C a c = Some Equal \<longrightarrow> local_of a = local_of c \<and> length (projection a) = length (projection c)"
    by (auto simp: cmp_place_Some then_with_Some)
  ultimately show ?thesis by blast
qed

theorem cmp_place_consistent_witness:
  "cmp_place (utils_env id length) \<lparr>local_of = 2, projection = [Deref]\<rparr> \<lparr>local_of = 1, projection = []\<rparr>
     = flipped (cmp_place (utils_env id length) \<lparr>local_of = 1, projection = []\<rparr> \<lparr>local_of = 2, projection = [Deref]\<rparr>)"
  using cmp_place_consistent [of id length "\<lparr>local_of = 1, projection = []\<rparr>" "\<lparr>local_of = 2, projection = [Deref]\<rparr>"]
  by (simp add: cmp_place_def)

end
