(* ===== verification/RustCmp.thy ===== *)
theory RustCmp
  imports OrderLaws
begin

text \<open>
  \<open>translation/src/rustcmp.rs\<close>: the order of generic arguments, trait references and projections
  that fixes the order of generated parameters. Types and regions are compared as in \<open>utils.rs\<close>
  (the functions of \<open>PlaceOrder\<close>, whose record field \<open>cmp_file\<close> selects this file's
  \<open>cmp_arg_ref\<close>); definitions are compared by the path string of the exported definition.
\<close>

section \<open>The compiler's part\<close>

text \<open>
  \<open>external_did\<close> is \<open>shims::flat::get_external_did_for_did\<close>, \<open>path_rank\<close> the rank of
  \<open>tcx.def_path_str\<close> among all path strings, \<open>name_rank\<close> that of an interned name.
\<close>

record rc_env =
  external_did :: "def_id \<Rightarrow> def_id option"
  path_rank :: "def_id \<Rightarrow> nat"
  name_rank :: "string \<Rightarrow> nat"

definition exported :: "rc_env \<Rightarrow> def_id \<Rightarrow> def_id" where
  "exported R d = (case external_did R d of Some e \<Rightarrow> e | None \<Rightarrow> d)"

definition rc_cmp_env :: "rc_env \<Rightarrow> cmp_env" where
  "rc_cmp_env R =
     \<lparr>cmp_file = RustcmpRs, def_rank = (\<lambda>d. path_rank R (exported R d)), symbol_rank = name_rank R\<rparr>"

section \<open>The comparison functions\<close>

definition rc_cmp_defid :: "rc_env \<Rightarrow> def_id \<Rightarrow> def_id \<Rightarrow> ordering option" where
  "rc_cmp_defid R a b = cmp_val (path_rank R (exported R a)) (path_rank R (exported R b))"

definition rc_cmp_region :: "region \<Rightarrow> region \<Rightarrow> ordering option" where
  "rc_cmp_region a b =
     then_with (cmp_val (region_discriminant a) (region_discriminant b)) (cmp_region_kind a b)"

definition rc_cmp_ty :: "rc_env \<Rightarrow> ty \<Rightarrow> ty \<Rightarrow> ordering option" where
  "rc_cmp_ty R = cmp_ty (rc_cmp_env R)"

definition rc_cmp_tys :: "rc_env \<Rightarrow> ty list \<Rightarrow> ty list \<Rightarrow> ordering option" where
  "rc_cmp_tys R a b = cmp_slices (rc_cmp_ty R) a b"

text \<open>A parameter comes before every other type.\<close>

definition rc_cmp_arg_ref :: "rc_env \<Rightarrow> generic_arg \<Rightarrow> generic_arg \<Rightarrow> ordering option" where
  "rc_cmp_arg_ref R a b =
     (case a of
        ArgConst c1 \<Rightarrow> (case b of ArgConst c2 \<Rightarrow> cmp_const c1 c2 | _ \<Rightarrow> None)
      | ArgType ty1 \<Rightarrow>
          (case b of
             ArgType ty2 \<Rightarrow>
               (case ty1 of
                  TyParam i n \<Rightarrow>
                    (case ty2 of TyParam i' n' \<Rightarrow> cmp_param (rc_cmp_env R) (i, n) (i', n') | _ \<Rightarrow> Some Less)
                | _ \<Rightarrow> rc_cmp_ty R ty1 ty2)
           | _ \<Rightarrow> None)
      | ArgLifetime r1 \<Rightarrow> (case b of ArgLifetime r2 \<Rightarrow> rc_cmp_region r1 r2 | _ \<Rightarrow> None))"

definition rc_cmp_arg_refs :: "rc_env \<Rightarrow> generic_arg list \<Rightarrow> generic_arg list \<Rightarrow> ordering option" where
  "rc_cmp_arg_refs R a b = cmp_slices (rc_cmp_arg_ref R) a b"

record trait_ref =
  trait_def_id :: def_id
  trait_args :: "generic_arg list"

text \<open>
  \<open>a.args[0].expect_ty().is_param(0)\<close>, evaluated only when the trait is the declared one: no first
  argument, or one that is not a type, is a panic.
\<close>

definition is_self_trait :: "def_id \<Rightarrow> trait_ref \<Rightarrow> bool option" where
  "is_self_trait trait_did a =
     (if trait_def_id a \<noteq> trait_did then Some False
      else (case trait_args a of
              ArgType t # _ \<Rightarrow> Some (case t of TyParam i _ \<Rightarrow> i = 0 | _ \<Rightarrow> False)
            | _ \<Rightarrow> None))"

definition rc_cmp_trait_ref :: "rc_env \<Rightarrow> def_id option \<Rightarrow> trait_ref \<Rightarrow> trait_ref \<Rightarrow> ordering option" where
  "rc_cmp_trait_ref R in_trait_decl a b =
     (let by_path = then_with (rc_cmp_defid R (trait_def_id a) (trait_def_id b))
                      (rc_cmp_arg_refs R (trait_args a) (trait_args b))
      in case in_trait_decl of
           None \<Rightarrow> by_path
         | Some trait_did \<Rightarrow>
             Option.bind (is_self_trait trait_did a) (\<lambda>self_a.
               if self_a then Some Greater
               else Option.bind (is_self_trait trait_did b) (\<lambda>self_b.
                 if self_b then Some Less else by_path)))"

definition rc_cmp_alias_ty :: "rc_env \<Rightarrow> def_id \<times> generic_arg list \<Rightarrow> def_id \<times> generic_arg list \<Rightarrow> ordering option" where
  "rc_cmp_alias_ty R a b = then_with (rc_cmp_defid R (fst a) (fst b)) (rc_cmp_arg_refs R (snd a) (snd b))"

section \<open>Laws\<close>

lemma rc_cmp_arg_ref_eq: "rc_cmp_arg_ref R = cmp_arg_ref (rc_cmp_env R)"
  by (intro ext) (simp add: rc_cmp_arg_ref_def cmp_arg_ref.simps rc_cmp_env_def rc_cmp_ty_def
      rc_cmp_region_def cmp_region_def split: generic_arg.split ty.split)

lemma rc_cmp_defid_eq: "rc_cmp_defid R = cmp_defid (rc_cmp_env R)"
  by (intro ext) (simp add: rc_cmp_defid_def cmp_defid_def rc_cmp_env_def)

lemma refl_rc_arg_refs: "reflexive_result (rc_cmp_arg_refs R s s)"
  unfolding rc_cmp_arg_refs_def rc_cmp_arg_ref_eq by (rule refl_cmp_slices) (rule refl_ty_arg)

text \<open>
  The trait being declared, applied to \<open>Self\<close>, sorts after every other trait reference, from
  either side of the comparison.
\<close>

theorem rc_self_trait_last:
  assumes "is_self_trait did a = Some False" and "is_self_trait did b = Some True"
  shows "rc_cmp_trait_ref R (Some did) a b = Some Less \<and> rc_cmp_trait_ref R (Some did) b a = Some Greater"
  by (simp add: rc_cmp_trait_ref_def assms)

abbreviation self_ref :: "def_id \<Rightarrow> trait_ref" where
  "self_ref did \<equiv> \<lparr>trait_def_id = did, trait_args = [ArgType (TyParam 0 ''Self'')]\<rparr>"

theorem rc_self_trait_last_witness:
  "\<forall>R. rc_cmp_trait_ref R (Some 5) \<lparr>trait_def_id = 7, trait_args = []\<rparr> (self_ref 5) = Some Less"
  using rc_self_trait_last [of 5 "\<lparr>trait_def_id = 7, trait_args = []\<rparr>" "self_ref 5"]
  by (simp add: is_self_trait_def)

text \<open>
  Comparing generic arguments, projections and (outside a trait declaration) trait references
  with themselves never gives an inequality.
\<close>

theorem rc_cmp_reflexive:
  "reflexive_result (rc_cmp_arg_ref R x x) \<and> reflexive_result (rc_cmp_alias_ty R p p)
   \<and> reflexive_result (rc_cmp_trait_ref R None t t)"
  using refl_ty_arg(2) [of "rc_cmp_env R" x] refl_rc_arg_refs [of R "snd p"] refl_rc_arg_refs [of R "trait_args t"]
  by (simp add: rc_cmp_arg_ref_eq rc_cmp_alias_ty_def rc_cmp_trait_ref_def rc_cmp_defid_eq)

text \<open>
  \<open>cmp_arg_ref\<close> is not antisymmetric: a parameter is less than \<open>bool\<close>, and \<open>bool\<close> is less
  than the parameter.
\<close>

theorem rc_param_order_inconsistent:
  "rc_cmp_arg_ref R (ArgType (TyParam i n)) (ArgType TyBool) = Some Less
   \<and> rc_cmp_arg_ref R (ArgType TyBool) (ArgType (TyParam i n)) = Some Less"
  by (simp add: rc_cmp_arg_ref_def rc_cmp_ty_def cmp_ty_kinds)

text \<open>In a trait declaration the self trait is greater than itself.\<close>

lemma rc_self_trait_not_reflexive: "rc_cmp_trait_ref R (Some did) (self_ref did) (self_ref did) = Some Greater"
  by (simp add: rc_cmp_trait_ref_def is_self_trait_def)

end
