(* ===== verification/TokenBuffer.thy ===== *)
theory TokenBuffer
  imports Prelude
begin

text \<open>
  The lower half of \<open>attribute_parse/src/parse.rs\<close>: token trees, the cursor \<open>Buffer\<close>, the table of
  punctuation tokens with the \<open>MToken!\<close> macro, and the parsers of literals and identifiers. The
  cursor has interior mutability, so a parser is a function from a buffer to a result and the
  buffer left behind; a failed parser leaves the buffer where it stopped. \<open>usize\<close> indices are
  naturals: a cursor never passes the end of the trees, so they cannot overflow.
\<close>

section \<open>Token trees\<close>

type_synonym symbol = string
type_synonym span = nat

text \<open>\<open>DelimSpan\<close>: the spans of the delimiters, and the span its \<open>entire\<close> computes.\<close>

record delim_span =
  ds_open :: span
  ds_close :: span
  ds_entire :: span

text \<open>The kinds of \<open>ast::token::LitKind\<close>; only \<open>Str\<close> is named.\<close>

datatype lit_kind = LitKindStr | LitKindOther nat

record lit =
  lit_kind :: lit_kind
  lit_symbol :: symbol

text \<open>The kinds of \<open>ast::token::TokenKind\<close> that the file names; every other one is \<open>TkOther\<close>.\<close>

datatype token_kind =
    TkPlus | TkPlusEq | TkAnd | TkAndAnd | TkAndEq | TkAt | TkBang | TkCaret | TkCaretEq
  | TkColon | TkPathSep | TkComma | TkSlash | TkSlashEq | TkDollar | TkDot | TkDotDot
  | TkDotDotDot | TkDotDotEq | TkEq | TkEqEq | TkGe | TkGt | TkLe | TkLt | TkStarEq | TkNe
  | TkOr | TkOrEq | TkOrOr | TkPound | TkQuestion | TkRArrow | TkLArrow | TkPercent
  | TkPercentEq | TkFatArrow | TkSemi | TkShl | TkShlEq | TkShr | TkShrEq | TkStar | TkMinus
  | TkMinusEq | TkTilde
  | TkIdent symbol bool
  | TkLiteral lit
  | TkOther nat

record token =
  tok_kind :: token_kind
  tok_span :: span

datatype token_tree =
    Token token nat
  | Delimited delim_span nat nat "token_tree list"

datatype error =
    EOF
  | WrongTokenKind token_kind token_kind span
  | UnexpectedDelim delim_span
  | ExpectedIdent token_kind span
  | ExpectedLiteral token_kind span
  | UnexpectedLitKind lit_kind lit_kind
  | OtherErr span string

fun tree_span :: "token_tree \<Rightarrow> span" where
  "tree_span (Token t _) = tok_span t"
| "tree_span (Delimited d _ _ _) = ds_entire d"

section \<open>The cursor\<close>

record buffer =
  trees :: "token_tree list"
  index :: nat

definition buffer_new :: "token_tree list \<Rightarrow> buffer" where
  "buffer_new stream = \<lparr>trees = stream, index = 0\<rparr>"

definition pos :: "buffer \<Rightarrow> span option" where
  "pos b = (if index b < length (trees b) then Some (tree_span (trees b ! index b)) else None)"

definition peek :: "buffer \<Rightarrow> nat \<Rightarrow> (error, token_tree) outcome" where
  "peek b n = (if index b + n < length (trees b) then Ok (trees b ! (index b + n)) else Err EOF)"

definition advance :: "nat \<Rightarrow> buffer \<Rightarrow> buffer" where
  "advance n b = b\<lparr>index := index b + n\<rparr>"

definition buffer_is_empty :: "buffer \<Rightarrow> bool" where
  "buffer_is_empty b \<longleftrightarrow> length (trees b) \<le> index b"

definition peek_token :: "token_kind \<Rightarrow> buffer \<Rightarrow> bool" where
  "peek_token k b = (case peek b 0 of Ok (Token t _) \<Rightarrow> tok_kind t = k | _ \<Rightarrow> False)"

definition peek_delimited :: "buffer \<Rightarrow> token_tree list option" where
  "peek_delimited b = (case peek b 0 of Ok (Delimited _ _ _ stream) \<Rightarrow> Some stream | _ \<Rightarrow> None)"

section \<open>Parsers\<close>

type_synonym 'a parser = "buffer \<Rightarrow> (error, 'a) outcome \<times> buffer"

definition parse_ok :: "'a \<Rightarrow> 'a parser" where
  "parse_ok x = (\<lambda>b. (Ok x, b))"

definition parse_err :: "error \<Rightarrow> 'a parser" where
  "parse_err e = (\<lambda>b. (Err e, b))"

text \<open>\<open>let x = p?; ...\<close>\<close>

definition parse_then :: "'a parser \<Rightarrow> ('a \<Rightarrow> 'b parser) \<Rightarrow> 'b parser" where
  "parse_then p f =
     (\<lambda>b. case p b of (Ok x, b') \<Rightarrow> f x b' | (Err e, b') \<Rightarrow> (Err e, b') | (Panic, b') \<Rightarrow> (Panic, b'))"

definition parse_map :: "('a \<Rightarrow> 'b) \<Rightarrow> 'a parser \<Rightarrow> 'b parser" where
  "parse_map f p = parse_then p (\<lambda>x. parse_ok (f x))"

definition expect_token :: "token_kind \<Rightarrow> span parser" where
  "expect_token k b =
     (case peek b 0 of
        Ok (Token t _) \<Rightarrow>
          (if tok_kind t = k then (Ok (tok_span t), advance 1 b)
           else (Err (WrongTokenKind k (tok_kind t) (tok_span t)), b))
      | Ok (Delimited s _ _ _) \<Rightarrow> (Err (UnexpectedDelim s), b)
      | Err e \<Rightarrow> (Err e, b)
      | Panic \<Rightarrow> (Panic, b))"

definition expect_ident :: "symbol parser" where
  "expect_ident b =
     (case peek b 0 of
        Ok (Token t _) \<Rightarrow>
          (case tok_kind t of
             TkIdent s _ \<Rightarrow> (Ok s, advance 1 b)
           | k \<Rightarrow> (Err (ExpectedIdent k (tok_span t)), b))
      | Ok (Delimited s _ _ _) \<Rightarrow> (Err (UnexpectedDelim s), b)
      | Err e \<Rightarrow> (Err e, b)
      | Panic \<Rightarrow> (Panic, b))"

definition expect_literal :: "(lit \<times> span) parser" where
  "expect_literal b =
     (case peek b 0 of
        Ok (Token t _) \<Rightarrow>
          (case tok_kind t of
             TkLiteral l \<Rightarrow> (Ok (l, tok_span t), advance 1 b)
           | k \<Rightarrow> (Err (ExpectedLiteral k (tok_span t)), b))
      | Ok (Delimited s _ _ _) \<Rightarrow> (Err (UnexpectedDelim s), b)
      | Err e \<Rightarrow> (Err e, b)
      | Panic \<Rightarrow> (Panic, b))"

text \<open>\<open>LitStr\<close> and \<open>Ident\<close> hold a symbol, which is what their \<open>value\<close> returns.\<close>

datatype lit_str = LitStr (lit_str_sym: symbol)
datatype ident = Ident (ident_sym: symbol)

definition lit_str_value :: "lit_str \<Rightarrow> string" where
  "lit_str_value s = lit_str_sym s"

definition ident_value :: "ident \<Rightarrow> string" where
  "ident_value i = ident_sym i"

definition parse_lit_str :: "lit_str parser" where
  "parse_lit_str =
     parse_then expect_literal (\<lambda>l.
       (case lit_kind (fst l) of
          LitKindStr \<Rightarrow> parse_ok (LitStr (lit_symbol (fst l)))
        | k \<Rightarrow> parse_err (UnexpectedLitKind LitKindStr k)))"

definition parse_ident :: "ident parser" where
  "parse_ident = parse_then expect_ident (\<lambda>s. parse_ok (Ident s))"

section \<open>What the cursor operations do\<close>

lemma peek_cases:
  obtains (eof) "peek b n = Err EOF" "length (trees b) \<le> index b + n"
  | (tree) t where "peek b n = Ok t" "index b + n < length (trees b)" "t = trees b ! (index b + n)"
  by (cases "index b + n < length (trees b)") (auto simp: peek_def)

lemma advance_sel [cursor_simps]:
  "trees (advance n b) = trees b" "index (advance n b) = index b + n"
  by (simp_all add: advance_def)

text \<open>
  A parser that is steady never panics, never steps back or past the end, and leaves the trees alone;
  a consuming one moves forward whenever it succeeds. The single-token parsers move by one token, or
  fail where they stand.
\<close>

locale steady_parser =
  fixes p :: "'a parser"
  assumes no_panic: "fst (p b) \<noteq> Panic"
    and same_trees: "trees (snd (p b)) = trees b"
    and no_step_back: "index b \<le> index (snd (p b))"
    and in_bounds: "index b \<le> length (trees b) \<Longrightarrow> index (snd (p b)) \<le> length (trees b)"

locale consuming_parser = steady_parser +
  assumes consumes: "fst (p b) = Ok x \<Longrightarrow> index b < index (snd (p b))"

locale token_parser =
  fixes p :: "'a parser"
  assumes step: "(\<exists>x. p b = (Ok x, advance 1 b) \<and> index b < length (trees b)) \<or> (\<exists>e. p b = (Err e, b))"

sublocale token_parser \<subseteq> consuming_parser
proof unfold_locales
  fix b x
  show "fst (p b) \<noteq> Panic" "trees (snd (p b)) = trees b" "index b \<le> index (snd (p b))"
    using step [of b] by (auto simp: cursor_simps)
  show "index b \<le> length (trees b) \<Longrightarrow> index (snd (p b)) \<le> length (trees b)"
    using step [of b] by (auto simp: cursor_simps)
  show "fst (p b) = Ok x \<Longrightarrow> index b < index (snd (p b))"
    using step [of b] by (auto simp: cursor_simps)
qed

interpretation expect_token: token_parser "expect_token k" for k
proof
  fix b show "(\<exists>x. expect_token k b = (Ok x, advance 1 b) \<and> index b < length (trees b)) \<or> (\<exists>e. expect_token k b = (Err e, b))"
    by (rule peek_cases [of b 0]) (auto simp: expect_token_def split: token_tree.split)
qed

interpretation expect_ident: token_parser expect_ident
proof
  fix b show "(\<exists>x. expect_ident b = (Ok x, advance 1 b) \<and> index b < length (trees b)) \<or> (\<exists>e. expect_ident b = (Err e, b))"
    by (rule peek_cases [of b 0]) (auto simp: expect_ident_def split: token_tree.split token_kind.split)
qed

interpretation expect_literal: token_parser expect_literal
proof
  fix b show "(\<exists>x. expect_literal b = (Ok x, advance 1 b) \<and> index b < length (trees b)) \<or> (\<exists>e. expect_literal b = (Err e, b))"
    by (rule peek_cases [of b 0]) (auto simp: expect_literal_def split: token_tree.split token_kind.split)
qed

section \<open>Punctuation\<close>

text \<open>A row of \<open>define_punctuation!\<close>: the text, the struct name, the length, the token kind.\<close>

datatype punct =
    PAdd | PAddEq | PAnd | PAndAnd | PAndEq | PAt | PBang | PCaret | PCaretEq | PColon
  | PColon2 | PComma | PDiv | PDivEq | PDollar | PDot | PDot2 | PDot3 | PDotDotEq | PEq
  | PEqEq | PGe | PGt | PLe | PLt | PMulEq | PNe | POr | POrEq | POrOr | PPound | PQuestion
  | PRArrow | PLArrow | PRem | PRemEq | PFatArrow | PSemi | PShl | PShlEq | PShr | PShrEq
  | PStar | PSub | PSubEq | PTilde

fun punct_text :: "punct \<Rightarrow> string" where
  "punct_text PAdd = ''+''"
| "punct_text PAddEq = ''+=''"
| "punct_text PAnd = ''&''"
| "punct_text PAndAnd = ''&&''"
| "punct_text PAndEq = ''&=''"
| "punct_text PAt = ''@''"
| "punct_text PBang = ''!''"
| "punct_text PCaret = ''^''"
| "punct_text PCaretEq = ''^=''"
| "punct_text PColon = '':''"
| "punct_text PColon2 = ''::''"
| "punct_text PComma = '',''"
| "punct_text PDiv = ''/''"
| "punct_text PDivEq = ''/=''"
| "punct_text PDollar = ''$''"
| "punct_text PDot = ''.''"
| "punct_text PDot2 = ''..''"
| "punct_text PDot3 = ''...''"
| "punct_text PDotDotEq = ''..=''"
| "punct_text PEq = ''=''"
| "punct_text PEqEq = ''==''"
| "punct_text PGe = ''>=''"
| "punct_text PGt = ''>''"
| "punct_text PLe = ''<=''"
| "punct_text PLt = ''<''"
| "punct_text PMulEq = ''*=''"
| "punct_text PNe = ''!=''"
| "punct_text POr = ''|''"
| "punct_text POrEq = ''|=''"
| "punct_text POrOr = ''||''"
| "punct_text PPound = ''#''"
| "punct_text PQuestion = ''?''"
| "punct_text PRArrow = ''->''"
| "punct_text PLArrow = ''<-''"
| "punct_text PRem = ''%''"
| "punct_text PRemEq = ''%=''"
| "punct_text PFatArrow = ''=>''"
| "punct_text PSemi = '';''"
| "punct_text PShl = ''<<''"
| "punct_text PShlEq = ''<<=''"
| "punct_text PShr = ''>>''"
| "punct_text PShrEq = ''>>=''"
| "punct_text PStar = ''*''"
| "punct_text PSub = ''-''"
| "punct_text PSubEq = ''-=''"
| "punct_text PTilde = ''~''"

fun punct_name :: "punct \<Rightarrow> string" where
  "punct_name PAdd = ''Add''"
| "punct_name PAddEq = ''AddEq''"
| "punct_name PAnd = ''And''"
| "punct_name PAndAnd = ''AndAnd''"
| "punct_name PAndEq = ''AndEq''"
| "punct_name PAt = ''At''"
| "punct_name PBang = ''Bang''"
| "punct_name PCaret = ''Caret''"
| "punct_name PCaretEq = ''CaretEq''"
| "punct_name PColon = ''Colon''"
| "punct_name PColon2 = ''Colon2''"
| "punct_name PComma = ''Comma''"
| "punct_name PDiv = ''Div''"
| "punct_name PDivEq = ''DivEq''"
| "punct_name PDollar = ''Dollar''"
| "punct_name PDot = ''Dot''"
| "punct_name PDot2 = ''Dot2''"
| "punct_name PDot3 = ''Dot3''"
| "punct_name PDotDotEq = ''DotDotEq''"
| "punct_name PEq = ''Eq''"
| "punct_name PEqEq = ''EqEq''"
| "punct_name PGe = ''Ge''"
| "punct_name PGt = ''Gt''"
| "punct_name PLe = ''Le''"
| "punct_name PLt = ''Lt''"
| "punct_name PMulEq = ''MulEq''"
| "punct_name PNe = ''Ne''"
| "punct_name POr = ''Or''"
| "punct_name POrEq = ''OrEq''"
| "punct_name POrOr = ''OrOr''"
| "punct_name PPound = ''Pound''"
| "punct_name PQuestion = ''Question''"
| "punct_name PRArrow = ''RArrow''"
| "punct_name PLArrow = ''LArrow''"
| "punct_name PRem = ''Rem''"
| "punct_name PRemEq = ''RemEq''"
| "punct_name PFatArrow = ''FatArrow''"
| "punct_name PSemi = ''Semi''"
| "punct_name PShl = ''Shl''"
| "punct_name PShlEq = ''ShlEq''"
| "punct_name PShr = ''Shr''"
| "punct_name PShrEq = ''ShrEq''"
| "punct_name PStar = ''Star''"
| "punct_name PSub = ''Sub''"
| "punct_name PSubEq = ''SubEq''"
| "punct_name PTilde = ''Tilde''"

fun punct_len :: "punct \<Rightarrow> nat" where
  "punct_len PAdd = 1"
| "punct_len PAddEq = 2"
| "punct_len PAnd = 1"
| "punct_len PAndAnd = 2"
| "punct_len PAndEq = 2"
| "punct_len PAt = 1"
| "punct_len PBang = 1"
| "punct_len PCaret = 1"
| "punct_len PCaretEq = 2"
| "punct_len PColon = 1"
| "punct_len PColon2 = 2"
| "punct_len PComma = 1"
| "punct_len PDiv = 1"
| "punct_len PDivEq = 2"
| "punct_len PDollar = 1"
| "punct_len PDot = 1"
| "punct_len PDot2 = 2"
| "punct_len PDot3 = 3"
| "punct_len PDotDotEq = 3"
| "punct_len PEq = 1"
| "punct_len PEqEq = 2"
| "punct_len PGe = 2"
| "punct_len PGt = 1"
| "punct_len PLe = 2"
| "punct_len PLt = 1"
| "punct_len PMulEq = 2"
| "punct_len PNe = 2"
| "punct_len POr = 1"
| "punct_len POrEq = 2"
| "punct_len POrOr = 2"
| "punct_len PPound = 1"
| "punct_len PQuestion = 1"
| "punct_len PRArrow = 2"
| "punct_len PLArrow = 2"
| "punct_len PRem = 1"
| "punct_len PRemEq = 2"
| "punct_len PFatArrow = 2"
| "punct_len PSemi = 1"
| "punct_len PShl = 2"
| "punct_len PShlEq = 3"
| "punct_len PShr = 2"
| "punct_len PShrEq = 3"
| "punct_len PStar = 1"
| "punct_len PSub = 1"
| "punct_len PSubEq = 2"
| "punct_len PTilde = 1"

fun punct_token :: "punct \<Rightarrow> token_kind" where
  "punct_token PAdd = TkPlus"
| "punct_token PAddEq = TkPlusEq"
| "punct_token PAnd = TkAnd"
| "punct_token PAndAnd = TkAndAnd"
| "punct_token PAndEq = TkAndEq"
| "punct_token PAt = TkAt"
| "punct_token PBang = TkBang"
| "punct_token PCaret = TkCaret"
| "punct_token PCaretEq = TkCaretEq"
| "punct_token PColon = TkColon"
| "punct_token PColon2 = TkPathSep"
| "punct_token PComma = TkComma"
| "punct_token PDiv = TkSlash"
| "punct_token PDivEq = TkSlashEq"
| "punct_token PDollar = TkDollar"
| "punct_token PDot = TkDot"
| "punct_token PDot2 = TkDotDot"
| "punct_token PDot3 = TkDotDotDot"
| "punct_token PDotDotEq = TkDotDotEq"
| "punct_token PEq = TkEq"
| "punct_token PEqEq = TkEqEq"
| "punct_token PGe = TkGe"
| "punct_token PGt = TkGt"
| "punct_token PLe = TkLe"
| "punct_token PLt = TkLt"
| "punct_token PMulEq = TkStarEq"
| "punct_token PNe = TkNe"
| "punct_token POr = TkOr"
| "punct_token POrEq = TkOrEq"
| "punct_token POrOr = TkOrOr"
| "punct_token PPound = TkPound"
| "punct_token PQuestion = TkQuestion"
| "punct_token PRArrow = TkRArrow"
| "punct_token PLArrow = TkLArrow"
| "punct_token PRem = TkPercent"
| "punct_token PRemEq = TkPercentEq"
| "punct_token PFatArrow = TkFatArrow"
| "punct_token PSemi = TkSemi"
| "punct_token PShl = TkShl"
| "punct_token PShlEq = TkShlEq"
| "punct_token PShr = TkShr"
| "punct_token PShrEq = TkShrEq"
| "punct_token PStar = TkStar"
| "punct_token PSub = TkMinus"
| "punct_token PSubEq = TkMinusEq"
| "punct_token PTilde = TkTilde"

definition parse_punct :: "punct \<Rightarrow> span parser" where
  "parse_punct p = expect_token (punct_token p)"

definition peek_punct :: "punct \<Rightarrow> buffer \<Rightarrow> bool" where
  "peek_punct p b = peek_token (punct_token p) b"

text \<open>The macro \<open>MToken!\<close>: the struct name a token text stands for.\<close>

definition mtoken_table :: "(string \<times> string) list" where
  "mtoken_table =
    [(''+'', ''Add''), (''+='', ''AddEq''), (''&'', ''And''), (''&&'', ''AndAnd''),
     (''&='', ''AndEq''), (''@'', ''At''), (''!'', ''Bang''), (''^'', ''Caret''),
     (''^='', ''CaretEq''), ('':'', ''Colon''), (''::'', ''Colon2''), ('','', ''Comma''),
     (''/'', ''Div''), (''/='', ''DivEq''), (''$'', ''Dollar''), (''.'', ''Dot''),
     (''..'', ''Dot2''), (''...'', ''Dot3''), (''..='', ''DotDotEq''), (''='', ''Eq''),
     (''=='', ''EqEq''), (''>='', ''Ge''), (''>'', ''Gt''), (''<='', ''Le''),
     (''<'', ''Lt''), (''*='', ''MulEq''), (''!='', ''Ne''), (''|'', ''Or''),
     (''|='', ''OrEq''), (''||'', ''OrOr''), (''#'', ''Pound''), (''?'', ''Question''),
     (''->'', ''RArrow''), (''<-'', ''LArrow''), (''%'', ''Rem''), (''%='', ''RemEq''),
     (''=>'', ''FatArrow''), ('';'', ''Semi''), (''<<'', ''Shl''), (''<<='', ''ShlEq''),
     (''>>'', ''Shr''), (''>>='', ''ShrEq''), (''*'', ''Star''), (''-'', ''Sub''),
     (''-='', ''SubEq''), (''~'', ''Tilde''), (''_'', ''Underscore'')]"

definition mtoken :: "string \<Rightarrow> string option" where
  "mtoken s = map_of mtoken_table s"

end
