(* ===== verification/Punctuated.thy ===== *)
theory Punctuated
  imports TokenBuffer
begin

text \<open>
  The upper half of \<open>attribute_parse/src/parse.rs\<close>: punctuated sequences, the two parsing loops
  and the double-ended iterators. The assertions of \<open>push_value\<close> and \<open>push_punct\<close> are
  \<^term>\<open>None\<close>. The loops end only when their parsers consume tokens, so they are partial
  functions: \<^term>\<open>None\<close> is a loop that does not end.
\<close>

section \<open>Composing parsers\<close>

lemma parse_then_cases:
  obtains (ok) x b1 where "p b = (Ok x, b1)" "parse_then p f b = f x b1"
  | (err) e b1 where "p b = (Err e, b1)" "parse_then p f b = (Err e, b1)"
  | (panic) b1 where "p b = (Panic, b1)" "parse_then p f b = (Panic, b1)"
  by (cases "p b"; cases "fst (p b)") (auto simp: parse_then_def)

lemma steady_ok: "steady_parser (parse_ok x)"
  by unfold_locales (simp_all add: parse_ok_def)

lemma steady_err: "steady_parser (parse_err e)"
  by unfold_locales (simp_all add: parse_err_def)

lemma steady_then:
  assumes p: "steady_parser p" and f: "\<And>x. steady_parser (f x)"
  shows "steady_parser (parse_then p f)"
proof unfold_locales
  fix b
  show "fst (parse_then p f b) \<noteq> Panic"
    using steady_parser.no_panic [OF p, of b] steady_parser.no_panic [OF f]
    by (cases rule: parse_then_cases [of p b f]) auto
  show "trees (snd (parse_then p f b)) = trees b"
    using steady_parser.same_trees [OF p, of b] steady_parser.same_trees [OF f]
    by (cases rule: parse_then_cases [of p b f]) auto
  show "index b \<le> index (snd (parse_then p f b))"
    using steady_parser.no_step_back [OF p, of b] steady_parser.no_step_back [OF f] order_trans
    by (cases rule: parse_then_cases [of p b f]) fastforce+
  assume b: "index b \<le> length (trees b)"
  note p = steady_parser.in_bounds [OF p b] steady_parser.same_trees [OF p, of b]
  show "index (snd (parse_then p f b)) \<le> length (trees b)"
  proof (cases rule: parse_then_cases [of p b f])
    case (ok x b1)
    with p steady_parser.in_bounds [OF f [of x], of b1] show ?thesis by simp
  qed (use p in simp_all)
qed

lemma consuming_then:
  assumes p: "consuming_parser p" and f: "\<And>x. steady_parser (f x)"
  shows "consuming_parser (parse_then p f)"
proof -
  have sp: "steady_parser p" using p by (simp add: consuming_parser_def)
  show ?thesis
  proof (rule consuming_parser.intro [OF steady_then [OF sp f]], unfold_locales)
    fix b x assume "fst (parse_then p f b) = Ok x"
    then show "index b < index (snd (parse_then p f b))"
      using consuming_parser.consumes [OF p, of b] steady_parser.no_step_back [OF f]
      by (cases rule: parse_then_cases [of p b f]) (fastforce intro: less_le_trans)+
  qed
qed

interpretation parse_lit_str: consuming_parser parse_lit_str
  unfolding parse_lit_str_def
  by (intro consuming_then expect_literal.consuming_parser_axioms)
     (auto intro: steady_ok steady_err split: lit_kind.split)

interpretation parse_ident: consuming_parser parse_ident
  unfolding parse_ident_def by (intro consuming_then expect_ident.consuming_parser_axioms steady_ok)

interpretation parse_punct: token_parser "parse_punct p" for p
  unfolding parse_punct_def by (rule expect_token.token_parser_axioms)

section \<open>Punctuated sequences\<close>

record ('t, 'p) punctuated =
  inner :: "('t \<times> 'p) list"
  last_value :: "'t option"

definition punctuated_new :: "('t, 'p) punctuated" where
  "punctuated_new = \<lparr>inner = [], last_value = None\<rparr>"

definition punctuated_is_empty :: "('t, 'p) punctuated \<Rightarrow> bool" where
  "punctuated_is_empty pu \<longleftrightarrow> length (inner pu) = 0 \<and> last_value pu = None"

definition punctuated_len :: "('t, 'p) punctuated \<Rightarrow> nat" where
  "punctuated_len pu = length (inner pu) + (if last_value pu \<noteq> None then 1 else 0)"

definition empty_or_trailing :: "('t, 'p) punctuated \<Rightarrow> bool" where
  "empty_or_trailing pu \<longleftrightarrow> last_value pu = None"

definition push_value :: "'t \<Rightarrow> ('t, 'p) punctuated \<Rightarrow> ('t, 'p) punctuated option" where
  "push_value v pu = (if empty_or_trailing pu then Some (pu\<lparr>last_value := Some v\<rparr>) else None)"

definition push_punct :: "'p \<Rightarrow> ('t, 'p) punctuated \<Rightarrow> ('t, 'p) punctuated option" where
  "push_punct q pu =
     (case last_value pu of
        None \<Rightarrow> None
      | Some v \<Rightarrow> Some (pu\<lparr>inner := inner pu @ [(v, q)], last_value := None\<rparr>))"

text \<open>\<open>push\<close>, with the default punctuation as a parameter.\<close>

definition push :: "'p \<Rightarrow> 't \<Rightarrow> ('t, 'p) punctuated \<Rightarrow> ('t, 'p) punctuated option" where
  "push dflt v pu =
     Option.bind (if empty_or_trailing pu then Some pu else push_punct dflt pu) (push_value v)"

definition punctuated_extend :: "'p \<Rightarrow> 't list \<Rightarrow> ('t, 'p) punctuated \<Rightarrow> ('t, 'p) punctuated option" where
  "punctuated_extend dflt vs pu = fold_opt (push dflt) vs pu"

definition from_iter :: "'p \<Rightarrow> 't list \<Rightarrow> ('t, 'p) punctuated option" where
  "from_iter dflt vs = punctuated_extend dflt vs punctuated_new"

section \<open>The parsing loops\<close>

partial_function (option) parse_terminated_loop ::
  "'t parser \<Rightarrow> 'p parser \<Rightarrow> ('t, 'p) punctuated \<Rightarrow> buffer
    \<Rightarrow> ((error, ('t, 'p) punctuated) outcome \<times> buffer) option" where
  "parse_terminated_loop parser punct pu b =
     (if buffer_is_empty b then Some (Ok pu, b)
      else (case parser b of
          (Err e, b1) \<Rightarrow> Some (Err e, b1)
        | (Panic, b1) \<Rightarrow> Some (Panic, b1)
        | (Ok v, b1) \<Rightarrow>
            (case push_value v pu of
               None \<Rightarrow> Some (Panic, b1)
             | Some pu1 \<Rightarrow>
                 (if buffer_is_empty b1 then Some (Ok pu1, b1)
                  else (case punct b1 of
                      (Err e, b2) \<Rightarrow> Some (Err e, b2)
                    | (Panic, b2) \<Rightarrow> Some (Panic, b2)
                    | (Ok q, b2) \<Rightarrow>
                        (case push_punct q pu1 of
                           None \<Rightarrow> Some (Panic, b2)
                         | Some pu2 \<Rightarrow> parse_terminated_loop parser punct pu2 b2))))))"

definition parse_terminated_with ::
  "'t parser \<Rightarrow> 'p parser \<Rightarrow> buffer \<Rightarrow> ((error, ('t, 'p) punctuated) outcome \<times> buffer) option" where
  "parse_terminated_with parser punct b = parse_terminated_loop parser punct punctuated_new b"

partial_function (option) parse_separated_loop ::
  "'t parser \<Rightarrow> (buffer \<Rightarrow> bool) \<Rightarrow> 'p parser \<Rightarrow> ('t, 'p) punctuated \<Rightarrow> buffer
    \<Rightarrow> ((error, ('t, 'p) punctuated) outcome \<times> buffer) option" where
  "parse_separated_loop parser peekp punct pu b =
     (case parser b of
        (Err e, b1) \<Rightarrow> Some (Err e, b1)
      | (Panic, b1) \<Rightarrow> Some (Panic, b1)
      | (Ok v, b1) \<Rightarrow>
          (case push_value v pu of
             None \<Rightarrow> Some (Panic, b1)
           | Some pu1 \<Rightarrow>
               (if \<not> peekp b1 then Some (Ok pu1, b1)
                else (case punct b1 of
                    (Err e, b2) \<Rightarrow> Some (Err e, b2)
                  | (Panic, b2) \<Rightarrow> Some (Panic, b2)
                  | (Ok q, b2) \<Rightarrow>
                      (case push_punct q pu1 of
                         None \<Rightarrow> Some (Panic, b2)
                       | Some pu2 \<Rightarrow> parse_separated_loop parser peekp punct pu2 b2)))))"

definition parse_separated_nonempty_with ::
  "'t parser \<Rightarrow> (buffer \<Rightarrow> bool) \<Rightarrow> 'p parser \<Rightarrow> buffer
    \<Rightarrow> ((error, ('t, 'p) punctuated) outcome \<times> buffer) option" where
  "parse_separated_nonempty_with parser peekp punct b = parse_separated_loop parser peekp punct punctuated_new b"

declare parse_terminated_loop.simps [code] parse_separated_loop.simps [code]

section \<open>Iterators\<close>

text \<open>\<open>PrivateIter\<close>: what is left of the slice of pairs and of the optional last value.\<close>

record ('t, 'p) private_iter =
  it_inner :: "('t \<times> 'p) list"
  it_last :: "'t option"

definition punctuated_iter :: "('t, 'p) punctuated \<Rightarrow> ('t, 'p) private_iter" where
  "punctuated_iter pu = \<lparr>it_inner = inner pu, it_last = last_value pu\<rparr>"

definition iter_next :: "('t, 'p) private_iter \<Rightarrow> 't option \<times> ('t, 'p) private_iter" where
  "iter_next it =
     (case it_inner it of
        pair # rest \<Rightarrow> (Some (fst pair), it\<lparr>it_inner := rest\<rparr>)
      | [] \<Rightarrow> (it_last it, it\<lparr>it_last := None\<rparr>))"

definition iter_next_back :: "('t, 'p) private_iter \<Rightarrow> 't option \<times> ('t, 'p) private_iter" where
  "iter_next_back it =
     (case it_last it of
        Some v \<Rightarrow> (Some v, it\<lparr>it_last := None\<rparr>)
      | None \<Rightarrow>
          (if it_inner it = [] then (None, it)
           else (Some (fst (last (it_inner it))), it\<lparr>it_inner := butlast (it_inner it)\<rparr>)))"

definition iter_len :: "('t, 'p) private_iter \<Rightarrow> nat" where
  "iter_len it = length (it_inner it) + (case it_last it of None \<Rightarrow> 0 | Some _ \<Rightarrow> 1)"

text \<open>The owning iterator collects the values first.\<close>

definition into_iter :: "('t, 'p) punctuated \<Rightarrow> 't list" where
  "into_iter pu = map fst (inner pu) @ (case last_value pu of None \<Rightarrow> [] | Some v \<Rightarrow> [v])"

section \<open>Values and separators\<close>

text \<open>The values a sequence holds, in order, are what \<open>into_iter\<close> yields.\<close>

lemma into_iter_simps [simp]:
  "into_iter punctuated_new = []"
  "push_value v pu = Some pu1 \<Longrightarrow> into_iter pu1 = into_iter pu @ [v]"
  "push_punct q pu = Some pu1 \<Longrightarrow> into_iter pu1 = into_iter pu"
  by (auto simp: into_iter_def punctuated_new_def push_value_def push_punct_def empty_or_trailing_def
      split: if_splits option.splits)

lemma push_values: "\<exists>pu1. push dflt v pu = Some pu1 \<and> into_iter pu1 = into_iter pu @ [v] \<and> last_value pu1 = Some v"
  by (cases "last_value pu")
     (auto simp: push_def push_value_def push_punct_def empty_or_trailing_def into_iter_def)

lemma length_into_iter: "length (into_iter pu) = punctuated_len pu"
  by (auto simp: into_iter_def punctuated_len_def split: option.split)

lemma punctuated_extend_values: "\<exists>pu1. punctuated_extend dflt vs pu = Some pu1 \<and> into_iter pu1 = into_iter pu @ vs"
proof (induction vs arbitrary: pu)
  case Nil
  show ?case unfolding punctuated_extend_def by simp
next
  case (Cons v vs)
  obtain pu1 where "push dflt v pu = Some pu1" "into_iter pu1 = into_iter pu @ [v]"
    using push_values [of dflt v pu] by (elim exE conjE) (rule that)
  with Cons [of pu1] show ?case by (auto simp: punctuated_extend_def)
qed

section \<open>The loops end and consume\<close>

text \<open>
  The contract of the two loops: a consuming parser of the values, a consuming parser of the
  separator, and a peek that agrees with it.
\<close>

locale list_parser = val: consuming_parser parser + sep: consuming_parser punct
  for parser :: "'t parser" and punct :: "'p parser"
begin

lemma terminated_loop_total:
  assumes "last_value pu = None" and "index b \<le> length (trees b)"
  shows "\<exists>r b'. parse_terminated_loop parser punct pu b = Some (r, b') \<and> r \<noteq> Panic
    \<and> trees b' = trees b \<and> index b \<le> index b' \<and> index b' \<le> length (trees b)
    \<and> (\<forall>pu'. r = Ok pu' \<longrightarrow> buffer_is_empty b' \<and> (\<exists>vs. into_iter pu' = into_iter pu @ vs))"
  using assms
proof (induction "length (trees b) - index b" arbitrary: pu b rule: less_induct)
  case less
  note facts = val.no_panic [of b] val.same_trees [of b] val.no_step_back [of b] val.in_bounds [OF less.prems(2)]
  show ?case
  proof (cases "buffer_is_empty b")
    case True
    then show ?thesis
      using less.prems by (subst parse_terminated_loop.simps) (auto simp: parse_terminated_loop.simps)
  next
    case False
    obtain r1 b1 where p: "parser b = (r1, b1)" by (cases "parser b")
    show ?thesis
    proof (cases r1)
      case (Ok v)
      let ?pu1 = "pu\<lparr>last_value := Some v\<rparr>"
      have pu1: "push_value v pu = Some ?pu1" using less.prems(1) by (simp add: push_value_def empty_or_trailing_def)
      have lt: "index b < index b1" using val.consumes [of b v] p Ok by simp
      show ?thesis
      proof (cases "buffer_is_empty b1")
        case True
        then have "parse_terminated_loop parser punct pu b = Some (outcome.Ok ?pu1, b1)"
          using False p Ok pu1 by (subst parse_terminated_loop.simps) simp
        with True p facts lt show ?thesis by (auto simp: into_iter_simps(2) [OF pu1])
      next
        case False2: False
        obtain r2 b2 where q: "punct b1 = (r2, b2)" by (cases "punct b1")
        have b1: "index b1 \<le> length (trees b1)" "trees b1 = trees b" using facts p by simp_all
        note facts2 = sep.no_panic [of b1] sep.same_trees [of b1] sep.no_step_back [of b1] sep.in_bounds [OF b1(1)]
        show ?thesis
        proof (cases r2)
          case (Ok w)
          let ?pu2 = "\<lparr>inner = inner pu @ [(v, w)], last_value = None\<rparr>"
          have pu2: "push_punct w ?pu1 = Some ?pu2" by (simp add: push_punct_def)
          have step: "parse_terminated_loop parser punct pu b = parse_terminated_loop parser punct ?pu2 b2"
            using False False2 p \<open>r1 = outcome.Ok v\<close> pu1 q Ok pu2 by (subst parse_terminated_loop.simps) simp
          have b2: "length (trees b2) - index b2 < length (trees b) - index b" "index b2 \<le> length (trees b2)"
            "trees b2 = trees b" "index b1 \<le> index b2"
            using lt facts2 q b1 False by (auto simp: buffer_is_empty_def)
          have "into_iter ?pu2 = into_iter pu @ [v]"
            using into_iter_simps(2) [OF pu1] into_iter_simps(3) [OF pu2] by simp
          with less.hyps [OF b2(1) _ b2(2), of ?pu2] step b2 lt show ?thesis by fastforce
        next
          case (Err e)
          then have "parse_terminated_loop parser punct pu b = Some (outcome.Err e, b2)"
            using False False2 p \<open>r1 = outcome.Ok v\<close> pu1 q by (subst parse_terminated_loop.simps) simp
          with facts2 q b1 lt show ?thesis by simp
        qed (use facts2 q in simp)
      qed
    next
      case (Err e)
      then have "parse_terminated_loop parser punct pu b = Some (outcome.Err e, b1)"
        using False p by (subst parse_terminated_loop.simps) simp
      with p facts show ?thesis by simp
    qed (use p facts in simp)
  qed
qed

end

locale separated_parser = list_parser +
  fixes peekp :: "buffer \<Rightarrow> bool"
begin

lemma separated_loop_total:
  assumes "last_value pu = None" and "index b \<le> length (trees b)"
  shows "\<exists>r b'. parse_separated_loop parser peekp punct pu b = Some (r, b') \<and> r \<noteq> Panic
    \<and> trees b' = trees b \<and> index b \<le> index b' \<and> index b' \<le> length (trees b)
    \<and> (\<forall>pu'. r = Ok pu' \<longrightarrow> \<not> peekp b' \<and> last_value pu' \<noteq> None \<and> index b < index b'
          \<and> (\<exists>vs. vs \<noteq> [] \<and> into_iter pu' = into_iter pu @ vs))"
  using assms
proof (induction "length (trees b) - index b" arbitrary: pu b rule: less_induct)
  case less
  note facts = val.no_panic [of b] val.same_trees [of b] val.no_step_back [of b] val.in_bounds [OF less.prems(2)]
  obtain r1 b1 where p: "parser b = (r1, b1)" by (cases "parser b")
  show ?case
  proof (cases r1)
    case (Ok v)
    let ?pu1 = "pu\<lparr>last_value := Some v\<rparr>"
    have pu1: "push_value v pu = Some ?pu1" using less.prems(1) by (simp add: push_value_def empty_or_trailing_def)
    have lt: "index b < index b1" using val.consumes [of b v] p Ok by simp
    show ?thesis
    proof (cases "peekp b1")
      case False
      then have "parse_separated_loop parser peekp punct pu b = Some (outcome.Ok ?pu1, b1)"
        using p Ok pu1 by (subst parse_separated_loop.simps) simp
      with False p facts lt show ?thesis by (auto simp: into_iter_simps(2) [OF pu1])
    next
      case True
      obtain r2 b2 where q: "punct b1 = (r2, b2)" by (cases "punct b1")
      have b1: "index b1 \<le> length (trees b1)" "trees b1 = trees b" using facts p by simp_all
      note facts2 = sep.no_panic [of b1] sep.same_trees [of b1] sep.no_step_back [of b1] sep.in_bounds [OF b1(1)]
      show ?thesis
      proof (cases r2)
        case (Ok w)
        let ?pu2 = "\<lparr>inner = inner pu @ [(v, w)], last_value = None\<rparr>"
        have pu2: "push_punct w ?pu1 = Some ?pu2" by (simp add: push_punct_def)
        have step: "parse_separated_loop parser peekp punct pu b = parse_separated_loop parser peekp punct ?pu2 b2"
          using True p \<open>r1 = outcome.Ok v\<close> pu1 q Ok pu2 by (subst parse_separated_loop.simps) simp
        have b2: "length (trees b2) - index b2 < length (trees b) - index b" "index b2 \<le> length (trees b2)"
          "trees b2 = trees b" "index b1 \<le> index b2"
          using lt facts2 q b1 facts by auto
        have "into_iter ?pu2 = into_iter pu @ [v]"
          using into_iter_simps(2) [OF pu1] into_iter_simps(3) [OF pu2] by simp
        with less.hyps [OF b2(1) _ b2(2), of ?pu2] step b2 lt show ?thesis by fastforce
      next
        case (Err e)
        then have "parse_separated_loop parser peekp punct pu b = Some (outcome.Err e, b2)"
          using True p \<open>r1 = outcome.Ok v\<close> pu1 q by (subst parse_separated_loop.simps) simp
        with facts2 q b1 lt show ?thesis by simp
      qed (use facts2 q in simp)
    qed
  next
    case (Err e)
    then have "parse_separated_loop parser peekp punct pu b = Some (outcome.Err e, b1)"
      using p by (subst parse_separated_loop.simps) simp
    with p facts show ?thesis by simp
  qed (use p facts in simp)
qed

end

interpretation lit_list: list_parser parse_lit_str "parse_punct p" for p ..

interpretation ident_path: separated_parser parse_ident "parse_punct p" "peek_punct p" for p ..

section \<open>Properties\<close>

text \<open>
  C13. Parsing a terminated list always ends: with parsers that consume tokens when they succeed the
  loop returns, none of its assertions fails, and on success the whole input is consumed.
\<close>

theorem parse_terminated_total:
  assumes "consuming_parser parser" and "consuming_parser punct" and "index b \<le> length (trees b)"
  shows "\<exists>r b'. parse_terminated_with parser punct b = Some (r, b') \<and> r \<noteq> Panic
    \<and> (\<forall>pu. r = Ok pu \<longrightarrow> buffer_is_empty b')"
  using list_parser.terminated_loop_total [OF list_parser.intro [OF assms(1,2)], of punctuated_new b] assms(3)
  by (fastforce simp: parse_terminated_with_def punctuated_new_def)

theorem parse_terminated_total_witness:
  "\<exists>r b'. parse_terminated_with parse_lit_str (parse_punct PComma) (buffer_new [Token \<lparr>tok_kind = TkComma, tok_span = 0\<rparr> 0])
      = Some (r, b') \<and> r \<noteq> Panic"
  using parse_terminated_total [OF parse_lit_str.consuming_parser_axioms parse_punct.consuming_parser_axioms,
      of "buffer_new [Token \<lparr>tok_kind = TkComma, tok_span = 0\<rparr> 0]" PComma]
  by (auto simp: buffer_new_def)

text \<open>
  Parsing a non-empty separated list always ends, without a failed assertion; on success it
  holds at least one value, has no trailing separator, and no separator follows.
\<close>

theorem parse_separated_nonempty_total:
  assumes "consuming_parser parser" and "consuming_parser punct" and "index b \<le> length (trees b)"
  shows "\<exists>r b'. parse_separated_nonempty_with parser peekp punct b = Some (r, b') \<and> r \<noteq> Panic
    \<and> (\<forall>pu. r = Ok pu \<longrightarrow> punctuated_len pu \<noteq> 0 \<and> \<not> empty_or_trailing pu \<and> \<not> peekp b')"
proof -
  have "list_parser parser punct" by (rule list_parser.intro [OF assms(1,2)])
  from separated_parser.separated_loop_total [OF separated_parser.intro [OF this], of punctuated_new b peekp] assms(3)
  obtain r b' where r: "parse_separated_loop parser peekp punct punctuated_new b = Some (r, b')" "r \<noteq> Panic"
    "\<And>pu. r = Ok pu \<Longrightarrow> \<not> peekp b' \<and> last_value pu \<noteq> None"
    by (auto simp: punctuated_new_def)
  then show ?thesis
    by (auto simp: parse_separated_nonempty_with_def punctuated_len_def empty_or_trailing_def)
qed

theorem parse_separated_nonempty_total_witness:
  "\<exists>r b'. parse_separated_nonempty_with parse_ident (peek_punct PColon2) (parse_punct PColon2) (buffer_new [])
      = Some (r, b') \<and> r \<noteq> Panic"
  using parse_separated_nonempty_total [OF parse_ident.consuming_parser_axioms parse_punct.consuming_parser_axioms,
      of "buffer_new []" "peek_punct PColon2" PColon2]
  by (auto simp: buffer_new_def)

text \<open>Printing a list of string literals with separators, and a trailing one if wanted.\<close>

definition lit_tree :: "string \<Rightarrow> token_tree" where
  "lit_tree s = Token \<lparr>tok_kind = TkLiteral \<lparr>lit_kind = LitKindStr, lit_symbol = s\<rparr>, tok_span = 0\<rparr> 0"

definition punct_tree :: "punct \<Rightarrow> token_tree" where
  "punct_tree p = Token \<lparr>tok_kind = punct_token p, tok_span = 0\<rparr> 0"

fun print_list :: "punct \<Rightarrow> bool \<Rightarrow> string list \<Rightarrow> token_tree list" where
  "print_list p trailing [] = []"
| "print_list p trailing [s] = lit_tree s # (if trailing then [punct_tree p] else [])"
| "print_list p trailing (s # ss) = lit_tree s # punct_tree p # print_list p trailing ss"

lemma parse_lit_tree:
  "parse_lit_str \<lparr>trees = pre @ lit_tree s # ts, index = length pre\<rparr>
     = (Ok (LitStr s), \<lparr>trees = pre @ lit_tree s # ts, index = Suc (length pre)\<rparr>)"
  by (simp add: parse_lit_str_def parse_then_def expect_literal_def peek_def advance_def lit_tree_def
      parse_ok_def nth_append)

lemma parse_punct_tree:
  "parse_punct p \<lparr>trees = pre @ punct_tree p # ts, index = length pre\<rparr>
     = (Ok 0, \<lparr>trees = pre @ punct_tree p # ts, index = Suc (length pre)\<rparr>)"
  by (simp add: parse_punct_def expect_token_def peek_def advance_def punct_tree_def nth_append)

lemma parse_print_loop:
  "last_value pu = None \<Longrightarrow>
   \<exists>pu' b'. parse_terminated_loop parse_lit_str (parse_punct p) pu \<lparr>trees = pre @ print_list p tr ss, index = length pre\<rparr>
      = Some (Ok pu', b') \<and> map lit_str_value (into_iter pu') = map lit_str_value (into_iter pu) @ ss"
proof (induction p tr ss arbitrary: pu pre rule: print_list.induct)
  case (1 p tr)
  then show ?case by (subst parse_terminated_loop.simps) (simp add: buffer_is_empty_def)
next
  case (2 p tr s)
  let ?pu1 = "pu\<lparr>last_value := Some (LitStr s)\<rparr>" and ?pu2 = "\<lparr>inner = inner pu @ [(LitStr s, 0)], last_value = None\<rparr>"
  have pu1: "push_value (LitStr s) pu = Some ?pu1" using 2 by (simp add: push_value_def empty_or_trailing_def)
  have pu2: "push_punct 0 ?pu1 = Some ?pu2" by (simp add: push_punct_def)
  note vals = into_iter_simps(2) [OF pu1] into_iter_simps(3) [OF pu2]
  show ?case
  proof (cases tr)
    case True
    have "parse_terminated_loop parse_lit_str (parse_punct p) ?pu2
        \<lparr>trees = pre @ [lit_tree s, punct_tree p], index = Suc (Suc (length pre))\<rparr>
      = Some (Ok ?pu2, \<lparr>trees = pre @ [lit_tree s, punct_tree p], index = Suc (Suc (length pre))\<rparr>)"
      by (subst parse_terminated_loop.simps) (simp add: buffer_is_empty_def)
    with True pu1 pu2 vals parse_lit_tree [of pre s "[punct_tree p]"] parse_punct_tree [of p "pre @ [lit_tree s]" "[]"]
    show ?thesis by (subst parse_terminated_loop.simps) (simp add: buffer_is_empty_def lit_str_value_def)
  next
    case False
    with pu1 vals parse_lit_tree [of pre s "[]"] show ?thesis
      by (subst parse_terminated_loop.simps) (simp add: buffer_is_empty_def lit_str_value_def)
  qed
next
  case (3 p tr s s' ss)
  let ?ts = "print_list p tr (s' # ss)"
  let ?pu1 = "pu\<lparr>last_value := Some (LitStr s)\<rparr>" and ?pu2 = "\<lparr>inner = inner pu @ [(LitStr s, 0)], last_value = None\<rparr>"
  have pu1: "push_value (LitStr s) pu = Some ?pu1" using 3 by (simp add: push_value_def empty_or_trailing_def)
  have pu2: "push_punct 0 ?pu1 = Some ?pu2" by (simp add: push_punct_def)
  note vals = into_iter_simps(2) [OF pu1] into_iter_simps(3) [OF pu2]
  from "3.IH" [of ?pu2 "pre @ [lit_tree s, punct_tree p]"]
  obtain pu' b' where IH: "parse_terminated_loop parse_lit_str (parse_punct p) ?pu2
      \<lparr>trees = pre @ lit_tree s # punct_tree p # ?ts, index = Suc (Suc (length pre))\<rparr> = Some (Ok pu', b')"
    "map lit_str_value (into_iter pu') = map lit_str_value (into_iter ?pu2) @ s' # ss" by auto
  with pu1 pu2 vals parse_lit_tree [of pre s "punct_tree p # ?ts"] parse_punct_tree [of p "pre @ [lit_tree s]" ?ts]
  show ?case by (subst parse_terminated_loop.simps) (simp add: buffer_is_empty_def lit_str_value_def)
qed

text \<open>
  C12. Parsing inverts printing: a printed list of string literals with separators, with or without
  a trailing one, parses back to the same strings.
\<close>

theorem parse_print_roundtrip:
  "\<exists>pu b. parse_terminated_with parse_lit_str (parse_punct p) (buffer_new (print_list p trailing ss)) = Some (Ok pu, b)
     \<and> map lit_str_value (into_iter pu) = ss"
  using parse_print_loop [of punctuated_new p "[]" trailing ss]
  by (simp add: parse_terminated_with_def buffer_new_def punctuated_new_def into_iter_def)

text \<open>The values an iterator still has to yield.\<close>

definition iter_values :: "('t, 'p) private_iter \<Rightarrow> 't list" where
  "iter_values it = map fst (it_inner it) @ (case it_last it of None \<Rightarrow> [] | Some v \<Rightarrow> [v])"

text \<open>
  C14. The double-ended iterator is the list of the values: it starts with the sequence's values,
  \<open>next\<close> takes the first, \<open>next_back\<close> the last, in any order of calls, and \<open>len\<close> counts the rest.
\<close>

theorem iterator_refines_list:
  "iter_values (punctuated_iter pu) = into_iter pu
   \<and> iter_len it = length (iter_values it)
   \<and> (fst (iter_next it), iter_values (snd (iter_next it)))
       = (case iter_values it of [] \<Rightarrow> (None, []) | v # vs \<Rightarrow> (Some v, vs))
   \<and> (fst (iter_next_back it), iter_values (snd (iter_next_back it)))
       = (if iter_values it = [] then (None, []) else (Some (last (iter_values it)), butlast (iter_values it)))"
  by (auto simp: iter_values_def punctuated_iter_def into_iter_def iter_len_def iter_next_def iter_next_back_def
      last_map map_butlast split: list.splits option.splits)

text \<open>
  Collecting values into a sequence never fails an assertion and keeps them in order.
\<close>

theorem from_iter_values:
  "\<exists>pu. from_iter dflt vs = Some pu \<and> into_iter pu = vs \<and> punctuated_len pu = length vs
     \<and> (punctuated_is_empty pu \<longleftrightarrow> vs = [])"
proof -
  obtain pu where pu: "from_iter dflt vs = Some pu" "into_iter pu = vs"
    using punctuated_extend_values [of dflt vs punctuated_new] by (auto simp: from_iter_def)
  moreover from pu(2) have "punctuated_len pu = length vs" using length_into_iter [of pu] by simp
  moreover from pu(2) have "punctuated_is_empty pu \<longleftrightarrow> vs = []"
    by (auto simp: punctuated_is_empty_def into_iter_def split: option.splits)
  ultimately show ?thesis by blast
qed

text \<open>The inverse of the table of accepted tokens.\<close>

definition token_punct :: "token_kind \<Rightarrow> punct option" where
  "token_punct k = find (\<lambda>p. punct_token p = k)
     [PAdd, PAddEq, PAnd, PAndAnd, PAndEq, PAt, PBang, PCaret, PCaretEq, PColon, PColon2, PComma, PDiv, PDivEq,
      PDollar, PDot, PDot2, PDot3, PDotDotEq, PEq, PEqEq, PGe, PGt, PLe, PLt, PMulEq, PNe, POr, POrEq, POrOr,
      PPound, PQuestion, PRArrow, PLArrow, PRem, PRemEq, PFatArrow, PSemi, PShl, PShlEq, PShr, PShrEq, PStar,
      PSub, PSubEq, PTilde]"

lemma token_punct_inverse: "token_punct (punct_token p) = Some p"
  by (cases p) (simp_all add: token_punct_def)

text \<open>
  The token table is consistent: the macro names the struct of every punctuation text, the
  recorded length is the length of the text, and no two structs accept the same token.
\<close>

theorem token_table_consistent:
  "mtoken (punct_text p) = Some (punct_name p) \<and> punct_len p = length (punct_text p)
   \<and> (punct_token p = punct_token q \<longleftrightarrow> p = q)"
proof -
  have "mtoken (punct_text p) = Some (punct_name p) \<and> punct_len p = length (punct_text p)"
    by (cases p) (simp_all add: mtoken_def mtoken_table_def)
  moreover have "punct_token p = punct_token q \<longleftrightarrow> p = q"
    by (metis option.inject token_punct_inverse)
  ultimately show ?thesis by blast
qed

text \<open>The macro also has an entry for a struct that the table does not define.\<close>

lemma mtoken_undefined_struct: "mtoken ''_'' = Some ''Underscore'' \<and> punct_name p \<noteq> ''Underscore''"
  by (cases p) (simp_all add: mtoken_def mtoken_table_def)

end
