(* ===== verification/RealEdges.thy ===== *)
theory RealEdges
  imports MirSyntax BTree
begin

text \<open>
  \<open>translation/src/environment/mir_utils/real_edges.rs\<close>: the control-flow edges without unwinding
  and imaginary ones, as two vectors indexed by block. An index out of range is a panic
  (\<^term>\<open>None\<close>). The queries are those of \<open>environment/procedure.rs\<close> as well.
\<close>

section \<open>Real targets\<close>

fun real_targets :: "terminator \<Rightarrow> basic_block list option" where
  "real_targets (Goto target) = Some [target]"
| "real_targets (Assert _ _ target _) = Some [target]"
| "real_targets (SwitchInt _ _ targets) = Some targets"
| "real_targets CoroutineDrop = Some []"
| "real_targets Return = Some []"
| "real_targets Unreachable = Some []"
| "real_targets UnwindResume = Some []"
| "real_targets UnwindTerminate = Some []"
| "real_targets (TailCall _ _) = Some []"
| "real_targets (Drop _ target _) = Some [target]"
| "real_targets (Call _ _ _ target _) = Some (case target of Some t \<Rightarrow> [t] | None \<Rightarrow> [])"
| "real_targets (FalseEdge real_target _) = Some [real_target]"
| "real_targets (FalseUnwind real_target _) = Some [real_target]"
| "real_targets (Yield _ resume _) = Some [resume]"
| "real_targets (InlineAsm targets _) = (case targets of [] \<Rightarrow> None | t # _ \<Rightarrow> Some [t])"

section \<open>The edge vectors\<close>

record real_edges =
  re_succs :: "basic_block list list"
  re_preds :: "basic_block list list"

definition add_edge :: "basic_block \<Rightarrow> basic_block \<Rightarrow> real_edges \<Rightarrow> real_edges option" where
  "add_edge bb target R =
     (if bb < length (re_succs R) \<and> target < length (re_preds R)
      then Some (R\<lparr>re_succs := (re_succs R)[bb := re_succs R ! bb @ [target]],
                   re_preds := (re_preds R)[target := re_preds R ! target @ [bb]]\<rparr>)
      else None)"

definition add_block :: "body \<Rightarrow> basic_block \<Rightarrow> real_edges \<Rightarrow> real_edges option" where
  "add_block m bb R =
     Option.bind (real_targets (terminator (basic_blocks m ! bb))) (\<lambda>targets. fold_opt (add_edge bb) targets R)"

definition real_edges_new :: "body \<Rightarrow> real_edges option" where
  "real_edges_new m =
     fold_opt (add_block m) [0..<n_blocks m]
       \<lparr>re_succs = replicate (n_blocks m) [], re_preds = replicate (n_blocks m) []\<rparr>"

definition re_successors :: "real_edges \<Rightarrow> basic_block \<Rightarrow> basic_block list option" where
  "re_successors R bb = (if bb < length (re_succs R) then Some (re_succs R ! bb) else None)"

definition re_predecessors :: "real_edges \<Rightarrow> basic_block \<Rightarrow> basic_block list option" where
  "re_predecessors R bb = (if bb < length (re_preds R) then Some (re_preds R ! bb) else None)"

section \<open>What the vectors hold\<close>

abbreviation targets_of :: "body \<Rightarrow> basic_block \<Rightarrow> basic_block list" where
  "targets_of m b \<equiv> the (real_targets (terminator (basic_blocks m ! b)))"

text \<open>After the blocks below \<open>k\<close>: their successors, and the predecessors found among them.\<close>

definition edges_upto :: "body \<Rightarrow> nat \<Rightarrow> real_edges \<Rightarrow> bool" where
  "edges_upto m k R \<longleftrightarrow>
     length (re_succs R) = n_blocks m \<and> length (re_preds R) = n_blocks m \<and>
     (\<forall>b < n_blocks m. re_succs R ! b = (if b < k then targets_of m b else [])) \<and>
     (\<forall>b < n_blocks m. set (re_preds R ! b) = {p. p < k \<and> b \<in> set (targets_of m p)})"

lemma add_edges_result:
  assumes "fold_opt (add_edge bb) ts R = Some R'" and "bb < length (re_succs R)"
  shows "length (re_succs R') = length (re_succs R) \<and> length (re_preds R') = length (re_preds R)
    \<and> (\<forall>b < length (re_succs R). re_succs R' ! b = (if b = bb then re_succs R ! b @ ts else re_succs R ! b))
    \<and> (\<forall>b < length (re_preds R). set (re_preds R' ! b) = set (re_preds R ! b) \<union> (if b \<in> set ts then {bb} else {}))
    \<and> (\<forall>t \<in> set ts. t < length (re_preds R))"
  using assms
proof (induction ts arbitrary: R)
  case Nil
  then show ?case by simp
next
  case (Cons t ts)
  then obtain R1 where R1: "add_edge bb t R = Some R1" "fold_opt (add_edge bb) ts R1 = Some R'"
    by (auto split: option.splits)
  then have t: "t < length (re_preds R)"
    "R1 = R\<lparr>re_succs := (re_succs R)[bb := re_succs R ! bb @ [t]], re_preds := (re_preds R)[t := re_preds R ! t @ [bb]]\<rparr>"
    by (auto simp: add_edge_def split: if_splits)
  from Cons.IH [OF R1(2)] Cons.prems(2) t show ?case
    by (auto simp: nth_list_update)
qed

lemma add_edges_defined:
  "bb < length (re_succs R) \<Longrightarrow> \<forall>t \<in> set ts. t < length (re_preds R) \<Longrightarrow> fold_opt (add_edge bb) ts R \<noteq> None"
proof (induction ts arbitrary: R)
  case Nil
  then show ?case by simp
next
  case (Cons t ts)
  then show ?case by (auto simp: add_edge_def split: option.split)
qed

lemma add_block_result:
  assumes R: "edges_upto m k R" and k: "k < n_blocks m" and res: "add_block m k R = Some R'"
  shows "edges_upto m (Suc k) R' \<and> real_targets (terminator (basic_blocks m ! k)) \<noteq> None
    \<and> (\<forall>t \<in> set (targets_of m k). t < n_blocks m)"
proof -
  from res obtain ts where ts: "real_targets (terminator (basic_blocks m ! k)) = Some ts"
    "fold_opt (add_edge k) ts R = Some R'" by (auto simp: add_block_def bind_eq_Some_conv)
  from R k have "k < length (re_succs R)" by (simp add: edges_upto_def)
  from add_edges_result [OF ts(2) this] R k ts(1) show ?thesis
    by (auto simp: edges_upto_def less_Suc_eq)
qed

lemma real_edges_upto:
  "\<lbrakk>fold_opt (add_block m) [0..<k] \<lparr>re_succs = replicate (n_blocks m) [], re_preds = replicate (n_blocks m) []\<rparr> = Some R;
    k \<le> n_blocks m\<rbrakk>
   \<Longrightarrow> edges_upto m k R \<and> (\<forall>b < k. real_targets (terminator (basic_blocks m ! b)) \<noteq> None
         \<and> (\<forall>t \<in> set (targets_of m b). t < n_blocks m))"
proof (induction k arbitrary: R)
  case 0
  then show ?case by (auto simp: edges_upto_def)
next
  case (Suc k)
  then obtain R1 where R1: "fold_opt (add_block m) [0..<k]
      \<lparr>re_succs = replicate (n_blocks m) [], re_preds = replicate (n_blocks m) []\<rparr> = Some R1"
    "add_block m k R1 = Some R"
    by (auto simp: fold_opt_snoc bind_eq_Some_conv)
  from Suc.IH [OF R1(1)] Suc.prems(2) add_block_result [of m k R1 R] R1(2) show ?case
    by (auto simp: less_Suc_eq)
qed

text \<open>The edges of a body are in range when its real targets are blocks.\<close>

definition real_targets_ok :: "body \<Rightarrow> bool" where
  "real_targets_ok m \<longleftrightarrow>
     (\<forall>b < n_blocks m. case real_targets (terminator (basic_blocks m ! b)) of
        None \<Rightarrow> False | Some ts \<Rightarrow> list_all (\<lambda>t. t < n_blocks m) ts)"

lemma real_edges_defined:
  assumes "real_targets_ok m"
  shows "real_edges_new m \<noteq> None"
proof -
  have "fold_opt (add_block m) [0..<k] \<lparr>re_succs = replicate (n_blocks m) [], re_preds = replicate (n_blocks m) []\<rparr> \<noteq> None"
    if "k \<le> n_blocks m" for k
    using that
  proof (induction k)
    case (Suc k)
    then obtain R where R: "fold_opt (add_block m) [0..<k]
        \<lparr>re_succs = replicate (n_blocks m) [], re_preds = replicate (n_blocks m) []\<rparr> = Some R" by auto
    from real_edges_upto [OF R] Suc.prems have up: "edges_upto m k R" by simp
    from assms Suc.prems have "case real_targets (terminator (basic_blocks m ! k)) of
        None \<Rightarrow> False | Some ts \<Rightarrow> list_all (\<lambda>t. t < n_blocks m) ts"
      by (simp add: real_targets_ok_def)
    then obtain ts where ts: "real_targets (terminator (basic_blocks m ! k)) = Some ts"
      "\<forall>t \<in> set ts. t < n_blocks m"
      by (auto simp: list_all_iff split: option.splits)
    have "add_block m k R \<noteq> None"
      using add_edges_defined [of k R ts] ts up Suc.prems by (simp add: add_block_def edges_upto_def)
    with R show ?case by (simp add: fold_opt_snoc)
  qed simp
  then show ?thesis by (simp add: real_edges_new_def)
qed

text \<open>The edges of a body, as the two queries see them.\<close>

definition edges_of :: "real_edges \<Rightarrow> nat \<Rightarrow> bool" where
  "edges_of R n \<longleftrightarrow>
     length (re_succs R) = n \<and> length (re_preds R) = n \<and>
     (\<forall>b < n. \<forall>t \<in> set (re_succs R ! b). t < n) \<and>
     (\<forall>b < n. set (re_preds R ! b) = {p. p < n \<and> b \<in> set (re_succs R ! p)})"

text \<open>
  C11. Building the real edges succeeds exactly when every block has real targets among the blocks
  of the body; then the successors of a block are its real targets in order and the predecessors
  are exactly the blocks with an edge to it.
\<close>

theorem real_edges_new_spec:
  "case real_edges_new m of
     None \<Rightarrow> \<not> real_targets_ok m
   | Some R \<Rightarrow> real_targets_ok m \<and> edges_of R (n_blocks m)
       \<and> (\<forall>b. re_successors R b = (if b < n_blocks m then real_targets (terminator (basic_blocks m ! b)) else None))"
proof (cases "real_edges_new m")
  case None
  with real_edges_defined [of m] show ?thesis by auto
next
  case (Some R)
  note up = real_edges_upto [OF Some [unfolded real_edges_new_def] order_refl]
  then have R: "edges_upto m (n_blocks m) R" ..
  have targets: "real_targets (terminator (basic_blocks m ! b)) = Some (targets_of m b)"
    "\<forall>t \<in> set (targets_of m b). t < n_blocks m" if "b < n_blocks m" for b
    using up that by auto
  then have "real_targets_ok m"
    unfolding real_targets_ok_def by (metis (no_types, lifting) list_all_iff option.simps(5))
  moreover have "edges_of R (n_blocks m)"
    using R targets(2) by (auto simp: edges_of_def edges_upto_def)
  moreover have "re_successors R b = (if b < n_blocks m then real_targets (terminator (basic_blocks m ! b)) else None)" for b
    using R targets(1) by (auto simp: re_successors_def edges_upto_def)
  ultimately show ?thesis using Some by simp
qed

end
