(* ===== verification/BlockOrder.thy ===== *)
theory BlockOrder
  imports RealEdges "HOL-Library.Product_Lexorder"
begin

text \<open>
  The two graph searches of \<open>translation/src/environment/loops.rs\<close>: \<open>collect_loop_body\<close>, a
  backward worklist search, and \<open>order_basic_blocks\<close>, a depth-first search with two marks. The
  worklist loop is a partial function. The depth-first search gets fuel for its recursion depth and
  for its outer loop; both are proved to suffice when they exceed the number of blocks.
\<close>

section \<open>Collecting a loop body\<close>

text \<open>One predecessor: the body, and the work queue as a stack whose top is the head of the list.\<close>

definition visit_predecessor ::
  "basic_block \<Rightarrow> basic_block \<Rightarrow> basic_block btset \<times> basic_block list \<Rightarrow> basic_block btset \<times> basic_block list" where
  "visit_predecessor head p = (\<lambda>(body, queue).
     if p \<in> set body then (body, queue)
     else (bs_insert p body, if p \<noteq> head then p # queue else queue))"

partial_function (option) collect_loop ::
  "basic_block \<Rightarrow> real_edges \<Rightarrow> basic_block list \<Rightarrow> basic_block btset \<Rightarrow> basic_block btset option option" where
  "collect_loop head R queue body =
     (case queue of
        [] \<Rightarrow> Some (Some body)
      | current # rest \<Rightarrow>
          (case re_predecessors R current of
             None \<Rightarrow> Some None
           | Some ps \<Rightarrow>
               (let (body', queue') = fold (visit_predecessor head) ps (body, rest)
                in collect_loop head R queue' body')))"

definition collect_loop_body ::
  "basic_block \<Rightarrow> basic_block \<Rightarrow> real_edges \<Rightarrow> basic_block btset \<Rightarrow> basic_block btset option option" where
  "collect_loop_body head back_edge_source R body =
     collect_loop head R [back_edge_source] (bs_insert back_edge_source body)"

text \<open>
  The blocks the search reaches: backward from the source, not beyond the head, except that the
  source is always expanded.
\<close>

inductive backward_walk :: "real_edges \<Rightarrow> basic_block \<Rightarrow> basic_block \<Rightarrow> basic_block \<Rightarrow> bool" for R head source where
  source: "backward_walk R head source source"
| step: "\<lbrakk>backward_walk R head source c; c \<noteq> head \<or> c = source; c < length (re_preds R); p \<in> set (re_preds R ! c)\<rbrakk>
    \<Longrightarrow> backward_walk R head source p"

text \<open>A body that blocks the search nowhere: the predecessors of its blocks other than the head are in it.\<close>

definition closed_body :: "real_edges \<Rightarrow> basic_block \<Rightarrow> basic_block set \<Rightarrow> bool" where
  "closed_body R head B \<longleftrightarrow> (\<forall>c \<in> B. c \<noteq> head \<longrightarrow> c < length (re_preds R) \<longrightarrow> set (re_preds R ! c) \<subseteq> B)"

definition collect_inv ::
  "real_edges \<Rightarrow> basic_block \<Rightarrow> basic_block \<Rightarrow> basic_block set \<Rightarrow> basic_block list \<Rightarrow> basic_block btset \<Rightarrow> bool" where
  "collect_inv R head source B queue body \<longleftrightarrow>
     bs_ok body \<and> B \<subseteq> set body \<and> source \<in> set body \<and> set queue \<subseteq> set body \<and>
     (\<forall>c \<in> set queue. backward_walk R head source c \<and> (c \<noteq> head \<or> c = source)) \<and>
     set body \<subseteq> B \<union> {b. backward_walk R head source b} \<and>
     set body \<subseteq> {..<length (re_preds R)} \<and>
     (\<forall>c \<in> set body. c \<notin> set queue \<longrightarrow> c \<noteq> head \<or> c = source \<longrightarrow> set (re_preds R ! c) \<subseteq> set body)"

lemma fold_visit_predecessor:
  "fold (visit_predecessor head) ps (body, queue) = (body', queue') \<Longrightarrow>
     set body' = set body \<union> set ps \<and> (bs_ok body \<longrightarrow> bs_ok body')
     \<and> set queue' = set queue \<union> {p \<in> set ps. p \<notin> set body \<and> p \<noteq> head}
     \<and> (\<exists>new. queue' = new @ queue \<and> length new \<le> card (set body') - card (set body))"
proof (induction ps arbitrary: body queue)
  case Nil
  then show ?case by simp
next
  case (Cons p ps)
  show ?case
  proof (cases "p \<in> set body")
    case True
    then have "visit_predecessor head p (body, queue) = (body, queue)" by (simp add: visit_predecessor_def)
    with Cons.IH [of body queue] Cons.prems True show ?thesis by auto
  next
    case False
    let ?q = "if p \<noteq> head then p # queue else queue"
    have v: "visit_predecessor head p (body, queue) = (bs_insert p body, ?q)"
      using False by (simp add: visit_predecessor_def)
    with Cons.prems have "fold (visit_predecessor head) ps (bs_insert p body, ?q) = (body', queue')" by simp
    note IH = Cons.IH [OF this]
    have card: "card (set (bs_insert p body)) = Suc (card (set body))" using False by simp
    have "card (set (bs_insert p body)) \<le> card (set body')" using IH by (intro card_mono) auto
    with IH card obtain new where new: "queue' = new @ ?q" "Suc (length new) \<le> card (set body') - card (set body)" by auto
    have "\<exists>new. queue' = new @ queue \<and> length new \<le> card (set body') - card (set body)"
      using new by (intro exI [of _ "new @ (if p \<noteq> head then [p] else [])"]) auto
    moreover have "set queue' = set queue \<union> {x \<in> set (p # ps). x \<notin> set body \<and> x \<noteq> head}"
      using IH False by auto
    ultimately show ?thesis using IH by auto
  qed
qed

lemma collect_loop_result:
  assumes inv: "collect_inv R head source B queue body"
    and preds: "\<forall>c < length (re_preds R). set (re_preds R ! c) \<subseteq> {..<length (re_preds R)}"
  shows "\<exists>result. collect_loop head R queue body = Some (Some result) \<and> collect_inv R head source B [] result"
  using inv
proof (induction "2 * (length (re_preds R) - card (set body)) + length queue" arbitrary: queue body rule: less_induct)
  case less
  show ?case
  proof (cases queue)
    case Nil
    with less.prems show ?thesis by (subst collect_loop.simps) simp
  next
    case (Cons c rest)
    note inv = less.prems [unfolded collect_inv_def]
    have c: "c < length (re_preds R)" "backward_walk R head source c" "c \<noteq> head \<or> c = source" "c \<in> set body"
      using inv Cons by auto
    obtain body' queue' where f: "fold (visit_predecessor head) (re_preds R ! c) (body, rest) = (body', queue')"
      by fastforce
    note res = fold_visit_predecessor [OF f]
    have step: "collect_loop head R queue body = collect_loop head R queue' body'"
      using Cons c(1) f by (subst collect_loop.simps) (simp add: re_predecessors_def)
    have walk: "backward_walk R head source p" if "p \<in> set (re_preds R ! c)" for p
      using backward_walk.step [OF c(2,3,1) that] .
    have inv': "collect_inv R head source B queue' body'"
      unfolding collect_inv_def
    proof (intro conjI ballI impI)
      show "bs_ok body'" "B \<subseteq> set body'" "source \<in> set body'" using inv res by auto
      show "set queue' \<subseteq> set body'" using inv res Cons by auto
      show "set body' \<subseteq> B \<union> {b. backward_walk R head source b}" using inv res walk by auto
      show "set body' \<subseteq> {..<length (re_preds R)}" using inv res preds c(1) by auto
    next
      fix x assume "x \<in> set queue'"
      then show "backward_walk R head source x" "x \<noteq> head \<or> x = source" using inv res walk Cons by auto
    next
      fix x assume x: "x \<in> set body'" "x \<notin> set queue'" "x \<noteq> head \<or> x = source"
      show "set (re_preds R ! x) \<subseteq> set body'"
      proof (cases "x = c")
        case True
        with res show ?thesis by auto
      next
        case False
        with x inv res Cons have "x \<in> set body \<and> x \<notin> set queue" by auto
        with x(3) inv res show ?thesis by auto
      qed
    qed
    have "card (set body') \<le> length (re_preds R)"
      using inv' card_mono [of "{..<length (re_preds R)}" "set body'"] by (simp add: collect_inv_def)
    moreover have "card (set body) \<le> card (set body')" using res by (intro card_mono) auto
    moreover from res obtain new where "queue' = new @ rest" "length new \<le> card (set body') - card (set body)" by blast
    ultimately have "2 * (length (re_preds R) - card (set body')) + length queue'
        < 2 * (length (re_preds R) - card (set body)) + length queue"
      using Cons by simp
    from less.hyps [OF this inv'] step show ?thesis by simp
  qed
qed

lemma collect_loop_body_result:
  assumes "edges_of R n" and "source < n" and "bs_ok body" and "set body \<subseteq> {..<n}"
    and "closed_body R head (set body)"
  shows "\<exists>result. collect_loop_body head source R body = Some (Some result) \<and> bs_ok result
    \<and> set result = set body \<union> {b. backward_walk R head source b} \<and> set result \<subseteq> {..<n}
    \<and> closed_body R head (set result)"
proof -
  have n: "length (re_preds R) = n" using assms(1) by (simp add: edges_of_def)
  have preds: "\<forall>c < length (re_preds R). set (re_preds R ! c) \<subseteq> {..<length (re_preds R)}"
    using assms(1) by (auto simp: edges_of_def)
  have "collect_inv R head source (set body) [source] (bs_insert source body)"
    using assms n by (auto simp: collect_inv_def closed_body_def backward_walk.source)
  from collect_loop_result [OF this preds] obtain r where
    r: "collect_loop_body head source R body = Some (Some r)" "collect_inv R head source (set body) [] r"
    by (auto simp: collect_loop_body_def)
  note inv = r(2) [unfolded collect_inv_def]
  have "b \<in> set r" if "backward_walk R head source b" for b
    using that
  proof induction
    case source
    then show ?case using inv by simp
  next
    case (step c p)
    then show ?case using inv by auto
  qed
  then have "set r = set body \<union> {b. backward_walk R head source b}" using inv by auto
  moreover have "closed_body R head (set r)" using inv by (auto simp: closed_body_def)
  ultimately show ?thesis using r inv n by auto
qed

text \<open>
  Collecting the body of a back edge terminates without a panic and adds exactly the blocks of
  the backward walk, when the edges are in range and what is already in the body blocks nothing.
\<close>

theorem collect_loop_body_spec:
  assumes "edges_of R n" and "source < n" and "bs_ok body" and "set body \<subseteq> {..<n}"
    and "closed_body R head (set body)"
  shows "\<exists>result. collect_loop_body head source R body = Some (Some result) \<and> bs_ok result
    \<and> set result = set body \<union> {b. backward_walk R head source b} \<and> set result \<subseteq> {..<n}
    \<and> closed_body R head (set result)"
  using collect_loop_body_result [OF assms] .

text \<open>
  A block can be reached without passing the head; otherwise the head dominates it.
\<close>

inductive avoids :: "real_edges \<Rightarrow> basic_block \<Rightarrow> basic_block \<Rightarrow> bool" for R head where
  start: "0 \<noteq> head \<Longrightarrow> avoids R head 0"
| edge: "\<lbrakk>avoids R head p; p < length (re_succs R); c \<in> set (re_succs R ! p); c \<noteq> head\<rbrakk> \<Longrightarrow> avoids R head c"

text \<open>The self loop on block 1 of a two-block body: block 0 jumps to block 1.\<close>

definition self_loop_edges :: real_edges where
  "self_loop_edges = \<lparr>re_succs = [[1], [1]], re_preds = [[], [0, 1]]\<rparr>"

lemma self_loop_walk: "backward_walk self_loop_edges 1 1 0"
  by (rule backward_walk.step [OF backward_walk.source]) (simp_all add: self_loop_edges_def)

text \<open>
  With the source as the head the head itself is expanded: the body of the loop on block 1 contains
  the block that enters it.
\<close>

lemma self_loop_edges_of: "edges_of self_loop_edges 2"
  by (auto simp: edges_of_def self_loop_edges_def numeral_2_eq_2 less_Suc_eq intro!: gr0I)

lemma self_loop_body_leaves_loop:
  "\<exists>result. collect_loop_body 1 1 self_loop_edges [] = Some (Some result) \<and> 0 \<in> set result \<and> avoids self_loop_edges 1 0"
  using collect_loop_body_result [OF self_loop_edges_of, of 1 "[]" 1] self_loop_walk
  by (auto simp: closed_body_def intro: avoids.start)

theorem collect_loop_body_spec_witness:
  "\<exists>result. collect_loop_body 1 1 self_loop_edges [] = Some (Some result) \<and> 0 \<in> set result"
proof -
  from collect_loop_body_spec [OF self_loop_edges_of, of 1 "[]" 1] self_loop_walk show ?thesis
    by (auto simp: closed_body_def)
qed

text \<open>
  The body of a back edge whose source is not the head is a natural loop: when the head
  dominates the source, it dominates every block of the body.
\<close>

theorem loop_body_dominated:
  assumes "edges_of R n" and "source \<noteq> head" and "\<not> avoids R head source"
    and "backward_walk R head source b"
  shows "\<not> avoids R head b"
  using assms(4)
proof induction
  case source
  from assms(3) show ?case .
next
  case (step c p)
  then have c: "c \<noteq> head" using assms(2) by auto
  have "p < length (re_succs R)" "c \<in> set (re_succs R ! p)"
    using step.hyps assms(1) by (auto simp: edges_of_def)
  with c step.IH show ?case using avoids.edge by blast
qed

theorem loop_body_dominated_witness:
  "\<not> avoids \<lparr>re_succs = [[1], [2], [1]], re_preds = [[], [0, 2], [1]]\<rparr> 1 1"
proof -
  let ?R = "\<lparr>re_succs = [[1], [2], [1]], re_preds = [[], [0, 2], [1]]\<rparr>"
  have "edges_of ?R 3" by (auto simp: edges_of_def less_Suc_eq numeral_3_eq_3 numeral_2_eq_2 intro!: gr0I)
  moreover have "avoids ?R 1 b \<Longrightarrow> b = 0" for b
    by (induction rule: avoids.induct) (auto simp: nth_Cons split: nat.splits)
  moreover have "backward_walk ?R 1 2 1"
    by (rule backward_walk.step [OF backward_walk.source]) simp_all
  ultimately show ?thesis using loop_body_dominated [of ?R 3 2 1 1] by force
qed

section \<open>Ordering the blocks\<close>

datatype fuel = OutOfFuel

text \<open>The mark vectors are the sets of marked blocks; a block past their length is a panic.\<close>

record dfs =
  sorted_blocks :: "basic_block list"
  permanent_mark :: "basic_block set"
  temporary_mark :: "basic_block set"

record order_env =
  oe_count :: nat
  oe_edges :: real_edges
  oe_back :: "(basic_block \<times> basic_block) btset"
  oe_depth :: "basic_block \<Rightarrow> nat option"

text \<open>The successors with the less deep ones first, so that they come last in the reversed order.\<close>

definition grouped_successors :: "order_env \<Rightarrow> basic_block \<Rightarrow> basic_block list option" where
  "grouped_successors E current =
     (case (oe_depth E current, re_successors (oe_edges E) current) of
        (Some curr_depth, Some succs) \<Rightarrow>
          (if list_all (\<lambda>bb. oe_depth E bb \<noteq> None) succs
           then Some (filter (\<lambda>bb. the (oe_depth E bb) < curr_depth) succs
                      @ filter (\<lambda>bb. \<not> the (oe_depth E bb) < curr_depth) succs)
           else None)
      | _ \<Rightarrow> None)"

fun visit :: "nat \<Rightarrow> order_env \<Rightarrow> basic_block \<Rightarrow> dfs \<Rightarrow> (fuel, dfs) outcome" where
  "visit 0 E current st = Err OutOfFuel"
| "visit (Suc k) E current st =
     (if oe_count E \<le> current then Panic
      else if current \<in> permanent_mark st then Ok st
      else if current \<in> temporary_mark st then Panic
      else and_then (or_panic (grouped_successors E current)) (\<lambda>successors.
           and_then (for_each (\<lambda>successor st.
                        if (current, successor) \<in> set (oe_back E) then Ok st else visit k E successor st)
                      successors (st\<lparr>temporary_mark := insert current (temporary_mark st)\<rparr>)) (\<lambda>st'.
           Ok (st'\<lparr>permanent_mark := insert current (permanent_mark st'),
                   sorted_blocks := sorted_blocks st' @ [current]\<rparr>))))"

fun order_loop :: "nat \<Rightarrow> nat \<Rightarrow> order_env \<Rightarrow> dfs \<Rightarrow> (fuel, dfs) outcome" where
  "order_loop 0 k E st = Err OutOfFuel"
| "order_loop (Suc j) k E st =
     (case find (\<lambda>i. i \<notin> permanent_mark st) [0..<oe_count E] of
        None \<Rightarrow> Ok st
      | Some index \<Rightarrow> and_then (visit k E index st) (order_loop j k E))"

definition order_basic_blocks :: "order_env \<Rightarrow> (fuel, basic_block list) outcome" where
  "order_basic_blocks E =
     and_then (order_loop (Suc (oe_count E)) (Suc (oe_count E)) E
                 \<lparr>sorted_blocks = [], permanent_mark = {}, temporary_mark = {}\<rparr>) (\<lambda>st.
     Ok (rev (sorted_blocks st)))"

section \<open>The order is topological\<close>

text \<open>The forward edges: the real edges that are not back edges.\<close>

definition forward :: "order_env \<Rightarrow> (basic_block \<times> basic_block) set" where
  "forward E = {(u, v). u < oe_count E \<and> v \<in> set (re_succs (oe_edges E) ! u) \<and> (u, v) \<notin> set (oe_back E)}"

definition order_env_ok :: "order_env \<Rightarrow> bool" where
  "order_env_ok E \<longleftrightarrow> edges_of (oe_edges E) (oe_count E) \<and> (\<forall>b < oe_count E. oe_depth E b \<noteq> None)"

text \<open>Every block of the list comes after all its forward successors.\<close>

definition post_order :: "order_env \<Rightarrow> basic_block list \<Rightarrow> bool" where
  "post_order E bs \<longleftrightarrow> (\<forall>xs u ys v. bs = xs @ u # ys \<longrightarrow> (u, v) \<in> forward E \<longrightarrow> v \<in> set xs)"

lemma post_order_snoc: "post_order E (bs @ [u]) \<longleftrightarrow> post_order E bs \<and> (\<forall>v. (u, v) \<in> forward E \<longrightarrow> v \<in> set bs)"
proof
  assume L: "post_order E (bs @ [u])"
  then have "\<forall>v. (u, v) \<in> forward E \<longrightarrow> v \<in> set bs" unfolding post_order_def by blast
  moreover have "post_order E bs"
    unfolding post_order_def
  proof (intro allI impI)
    fix xs w ys v assume "bs = xs @ w # ys" "(w, v) \<in> forward E"
    then have "bs @ [u] = xs @ w # (ys @ [u])" by simp
    with L \<open>(w, v) \<in> forward E\<close> show "v \<in> set xs" unfolding post_order_def by blast
  qed
  ultimately show "post_order E bs \<and> (\<forall>v. (u, v) \<in> forward E \<longrightarrow> v \<in> set bs)" by blast
next
  assume R: "post_order E bs \<and> (\<forall>v. (u, v) \<in> forward E \<longrightarrow> v \<in> set bs)"
  show "post_order E (bs @ [u])"
    unfolding post_order_def
  proof (intro allI impI)
    fix xs w ys v assume eq: "bs @ [u] = xs @ w # ys" and e: "(w, v) \<in> forward E"
    show "v \<in> set xs"
    proof (cases ys rule: rev_cases)
      case Nil
      with eq e R show ?thesis by auto
    next
      case (snoc zs z)
      with eq have "bs = xs @ w # zs" by simp
      with R e show ?thesis unfolding post_order_def by blast
    qed
  qed
qed

definition dfs_ok :: "order_env \<Rightarrow> dfs \<Rightarrow> bool" where
  "dfs_ok E st \<longleftrightarrow>
     distinct (sorted_blocks st) \<and> set (sorted_blocks st) = permanent_mark st \<and>
     permanent_mark st \<subseteq> temporary_mark st \<and> temporary_mark st \<subseteq> {..<oe_count E} \<and>
     post_order E (sorted_blocks st)"

text \<open>What a visit changes: blocks are finished, none is left half-visited.\<close>

definition dfs_grows :: "dfs \<Rightarrow> dfs \<Rightarrow> bool" where
  "dfs_grows st st' \<longleftrightarrow>
     permanent_mark st \<subseteq> permanent_mark st' \<and> temporary_mark st \<subseteq> temporary_mark st' \<and>
     temporary_mark st' - permanent_mark st' = temporary_mark st - permanent_mark st"

lemma dfs_grows_refl [simp]: "dfs_grows st st"
  by (simp add: dfs_grows_def)

lemma dfs_grows_trans: "dfs_grows st st' \<Longrightarrow> dfs_grows st' st'' \<Longrightarrow> dfs_grows st st''"
  by (auto simp: dfs_grows_def)

lemma grouped_successors_set:
  assumes "order_env_ok E" and "u < oe_count E"
  shows "\<exists>ss. grouped_successors E u = Some ss \<and> set ss = set (re_succs (oe_edges E) ! u)"
proof -
  let ?ss = "re_succs (oe_edges E) ! u"
  have "list_all (\<lambda>bb. oe_depth E bb \<noteq> None) ?ss"
    using assms by (auto simp: order_env_ok_def edges_of_def list_all_iff)
  moreover obtain d where "oe_depth E u = Some d" using assms by (auto simp: order_env_ok_def)
  moreover have "re_successors (oe_edges E) u = Some ?ss"
    using assms by (simp add: order_env_ok_def edges_of_def re_successors_def)
  ultimately show ?thesis by (auto simp: grouped_successors_def)
qed

abbreviation visit_successor :: "nat \<Rightarrow> order_env \<Rightarrow> basic_block \<Rightarrow> basic_block \<Rightarrow> dfs \<Rightarrow> (fuel, dfs) outcome" where
  "visit_successor k E u \<equiv> \<lambda>v st. if (u, v) \<in> set (oe_back E) then Ok st else visit k E v st"

lemma visit_step:
  "\<lbrakk>u < oe_count E; u \<notin> permanent_mark st; u \<notin> temporary_mark st; grouped_successors E u = Some ss\<rbrakk>
   \<Longrightarrow> visit (Suc k) E u st =
      and_then (for_each (visit_successor k E u) ss (st\<lparr>temporary_mark := insert u (temporary_mark st)\<rparr>))
        (\<lambda>st'. Ok (st'\<lparr>permanent_mark := insert u (permanent_mark st'), sorted_blocks := sorted_blocks st' @ [u]\<rparr>))"
  by simp

lemma visit_guards:
  "visit (Suc k) E u st = Ok st' \<Longrightarrow> u \<notin> permanent_mark st \<Longrightarrow> u < oe_count E \<and> u \<notin> temporary_mark st"
  by (simp split: if_splits)

declare visit.simps(2) [simp del]

lemma visit_ok:
  assumes E: "order_env_ok E"
  shows "visit k E u st = Ok st' \<Longrightarrow> dfs_ok E st \<Longrightarrow> dfs_ok E st' \<and> dfs_grows st st' \<and> u \<in> permanent_mark st'"
proof (induction k arbitrary: u st st')
  case 0
  then show ?case by simp
next
  case (Suc k)
  show ?case
  proof (cases "u \<in> permanent_mark st")
    case True
    with Suc.prems show ?thesis by (auto simp: visit.simps(2) split: if_splits)
  next
    case False
    with Suc.prems(1) have u: "u < oe_count E" "u \<notin> temporary_mark st" using visit_guards by blast+
    from grouped_successors_set [OF E u(1)] obtain ss where
      ss: "grouped_successors E u = Some ss" "set ss = set (re_succs (oe_edges E) ! u)" by blast
    let ?f = "visit_successor k E u"
    let ?st1 = "st\<lparr>temporary_mark := insert u (temporary_mark st)\<rparr>"
    from Suc.prems(1) False u ss obtain st2 where
      st2: "for_each ?f ss ?st1 = Ok st2"
      "st' = st2\<lparr>permanent_mark := insert u (permanent_mark st2), sorted_blocks := sorted_blocks st2 @ [u]\<rparr>"
      unfolding visit_step [OF u(1) False u(2) ss(1)] and_then_Ok by auto
    have loop: "dfs_ok E t' \<and> dfs_grows t t' \<and> (\<forall>v \<in> set vs. (u, v) \<in> set (oe_back E) \<or> v \<in> permanent_mark t')"
      if "for_each ?f vs t = Ok t'" "dfs_ok E t" for vs t t'
      using that
    proof (induction vs arbitrary: t)
      case Nil
      then show ?case by simp
    next
      case (Cons v vs)
      then obtain t1 where t1: "?f v t = Ok t1" "for_each ?f vs t1 = Ok t'"
        unfolding for_each.simps and_then_Ok by blast
      have "dfs_ok E t1 \<and> dfs_grows t t1 \<and> ((u, v) \<in> set (oe_back E) \<or> v \<in> permanent_mark t1)"
        using t1(1) Cons.prems(2) Suc.IH [of v t t1] by (auto split: if_splits)
      note head = this
      from Cons.IH [OF t1(2)] head have tail: "dfs_ok E t'" "dfs_grows t1 t'"
        "\<forall>v \<in> set vs. (u, v) \<in> set (oe_back E) \<or> v \<in> permanent_mark t'" by blast+
      moreover have "dfs_grows t t'" using head tail(2) dfs_grows_trans by blast
      moreover have "permanent_mark t1 \<subseteq> permanent_mark t'" using tail(2) by (simp add: dfs_grows_def)
      ultimately show ?case using head by auto
    qed
    have "dfs_ok E ?st1" using Suc.prems(2) u by (auto simp: dfs_ok_def)
    note res = loop [OF st2(1) this]
    have gray: "temporary_mark st2 - permanent_mark st2 = insert u (temporary_mark st) - permanent_mark st"
      using res by (simp add: dfs_grows_def)
    then have "u \<in> temporary_mark st2" "u \<notin> permanent_mark st2" using False by auto
    moreover have "\<forall>v. (u, v) \<in> forward E \<longrightarrow> v \<in> permanent_mark st2"
      using res ss(2) by (auto simp: forward_def)
    ultimately have "dfs_ok E st'"
      using res u(1) by (auto simp: dfs_ok_def st2(2) post_order_snoc)
    moreover have "dfs_grows st st'"
      using res gray u(2) \<open>u \<in> temporary_mark st2\<close> by (auto simp: dfs_grows_def st2(2))
    ultimately show ?thesis by (simp add: st2(2))
  qed
qed

text \<open>With fuel for the unmarked blocks and no forward cycle, a visit returns.\<close>

lemma visit_returns:
  assumes E: "order_env_ok E" and acyclic: "acyclic (forward E)"
  shows "\<lbrakk>dfs_ok E st; u < oe_count E; card ({..<oe_count E} - temporary_mark st) < k;
      \<forall>g \<in> temporary_mark st - permanent_mark st. (g, u) \<in> (forward E)\<^sup>+\<rbrakk>
    \<Longrightarrow> \<exists>st'. visit k E u st = Ok st'"
proof (induction k arbitrary: u st)
  case 0
  then show ?case by simp
next
  case (Suc k)
  show ?case
  proof (cases "u \<in> permanent_mark st")
    case True
    with Suc.prems(2) show ?thesis by (simp add: visit.simps(2))
  next
    case False
    have nt: "u \<notin> temporary_mark st"
      using Suc.prems(4) False acyclic by (auto simp: acyclic_def)
    from grouped_successors_set [OF E Suc.prems(2)] obtain ss where
      ss: "grouped_successors E u = Some ss" "set ss = set (re_succs (oe_edges E) ! u)" by blast
    let ?f = "visit_successor k E u"
    let ?st1 = "st\<lparr>temporary_mark := insert u (temporary_mark st)\<rparr>"
    have st1: "dfs_ok E ?st1" using Suc.prems(1,2) nt by (auto simp: dfs_ok_def)
    have "{..<oe_count E} - temporary_mark ?st1 \<subset> {..<oe_count E} - temporary_mark st"
      using Suc.prems(2) nt by auto
    then have fuel: "card ({..<oe_count E} - temporary_mark ?st1) < k"
      using psubset_card_mono [of "{..<oe_count E} - temporary_mark st"] Suc.prems(3) by fastforce
    have loop: "\<exists>t'. for_each ?f vs t = Ok t'"
      if "dfs_ok E t" "dfs_grows ?st1 t" "set vs \<subseteq> set ss" for vs t
      using that
    proof (induction vs arbitrary: t)
      case Nil
      then show ?case by simp
    next
      case (Cons v vs)
      have "\<exists>t1. ?f v t = Ok t1"
      proof (cases "(u, v) \<in> set (oe_back E)")
        case False
        then have uv: "(u, v) \<in> forward E"
          using Cons.prems(3) ss(2) Suc.prems(2) by (auto simp: forward_def)
        have v: "v < oe_count E"
          using Cons.prems(3) ss(2) Suc.prems(2) E by (auto simp: order_env_ok_def edges_of_def)
        have "card ({..<oe_count E} - temporary_mark t) \<le> card ({..<oe_count E} - temporary_mark ?st1)"
          using Cons.prems(2) by (intro card_mono) (auto simp: dfs_grows_def)
        with fuel have "card ({..<oe_count E} - temporary_mark t) < k" by simp
        moreover have "\<forall>g \<in> temporary_mark t - permanent_mark t. (g, v) \<in> (forward E)\<^sup>+"
        proof
          fix g assume "g \<in> temporary_mark t - permanent_mark t"
          then have "g = u \<or> g \<in> temporary_mark st - permanent_mark st"
            using Cons.prems(2) by (auto simp: dfs_grows_def)
          with Suc.prems(4) uv show "(g, v) \<in> (forward E)\<^sup>+" by (auto intro: trancl_into_trancl)
        qed
        ultimately show ?thesis using Suc.IH [OF Cons.prems(1) v] False by simp
      qed simp
      then obtain t1 where t1: "?f v t = Ok t1" by blast
      have "dfs_ok E t1 \<and> dfs_grows t t1"
        using t1 Cons.prems(1) visit_ok [OF E, of k v t t1] by (auto split: if_splits)
      with Cons.IH [of t1] Cons.prems(2,3) dfs_grows_trans [of ?st1 t t1] t1 show ?case
        by simp
    qed
    from loop [OF st1 dfs_grows_refl, of ss] obtain st2 where "for_each ?f ss ?st1 = Ok st2" by blast
    with visit_step [OF Suc.prems(2) False nt ss(1)] show ?thesis by simp
  qed
qed

text \<open>The fuel suffices whether or not there is a cycle.\<close>

lemma visit_fuel:
  assumes E: "order_env_ok E"
  shows "\<lbrakk>dfs_ok E st; u < oe_count E; card ({..<oe_count E} - temporary_mark st) < k\<rbrakk> \<Longrightarrow> visit k E u st \<noteq> Err e"
proof (induction k arbitrary: u st)
  case 0
  then show ?case by simp
next
  case (Suc k)
  show ?case
  proof (cases "u \<in> permanent_mark st \<or> u \<in> temporary_mark st")
    case True
    with Suc.prems(2) show ?thesis by (auto simp: visit.simps(2))
  next
    case False
    then have False': "u \<notin> permanent_mark st" "u \<notin> temporary_mark st" by auto
    from grouped_successors_set [OF E Suc.prems(2)] obtain ss where
      ss: "grouped_successors E u = Some ss" "set ss = set (re_succs (oe_edges E) ! u)" by blast
    let ?f = "visit_successor k E u"
    let ?st1 = "st\<lparr>temporary_mark := insert u (temporary_mark st)\<rparr>"
    have st1: "dfs_ok E ?st1" using Suc.prems(1,2) False by (auto simp: dfs_ok_def)
    have "{..<oe_count E} - temporary_mark ?st1 \<subset> {..<oe_count E} - temporary_mark st"
      using Suc.prems(2) False by auto
    then have fuel: "card ({..<oe_count E} - temporary_mark ?st1) < k"
      using psubset_card_mono [of "{..<oe_count E} - temporary_mark st"] Suc.prems(3) by fastforce
    have loop: "for_each ?f vs t \<noteq> Err e"
      if "dfs_ok E t" "dfs_grows ?st1 t" "set vs \<subseteq> set ss" for vs t
      using that
    proof (induction vs arbitrary: t)
      case Nil
      then show ?case by simp
    next
      case (Cons v vs)
      have v: "v < oe_count E"
        using Cons.prems(3) ss(2) Suc.prems(2) E by (auto simp: order_env_ok_def edges_of_def)
      have "card ({..<oe_count E} - temporary_mark t) \<le> card ({..<oe_count E} - temporary_mark ?st1)"
        using Cons.prems(2) by (intro card_mono) (auto simp: dfs_grows_def)
      with fuel have "card ({..<oe_count E} - temporary_mark t) < k" by simp
      with Suc.IH [OF Cons.prems(1) v] have step: "?f v t \<noteq> Err e" by simp
      show ?case
      proof (cases "?f v t")
        case (Ok t1)
        then have "dfs_ok E t1 \<and> dfs_grows t t1"
          using Cons.prems(1) visit_ok [OF E, of k v t t1] by (auto split: if_splits)
        with Cons.IH [of t1] Cons.prems(2,3) dfs_grows_trans [of ?st1 t t1] Ok show ?thesis by simp
      qed (use step in simp_all)
    qed
    from loop [OF st1 dfs_grows_refl, of ss] visit_step [OF Suc.prems(2) False' ss(1), of k] show ?thesis
      by (simp add: and_then_Err)
  qed
qed

text \<open>The outer loop: between two visits every marked block is finished.\<close>

definition between_visits :: "order_env \<Rightarrow> dfs \<Rightarrow> bool" where
  "between_visits E st \<longleftrightarrow> dfs_ok E st \<and> temporary_mark st = permanent_mark st"

lemma find_unmarked:
  "find (\<lambda>i. i \<notin> P) [0..<n] = None \<longleftrightarrow> {..<n} \<subseteq> P"
  "find (\<lambda>i. i \<notin> P) [0..<n] = Some i \<Longrightarrow> i < n \<and> i \<notin> P"
  by (auto simp: find_None_iff find_Some_iff)

lemma between_visits_step:
  assumes "order_env_ok E" and "between_visits E st" and "visit k E u st = Ok st'"
  shows "between_visits E st' \<and> u \<in> permanent_mark st' \<and> permanent_mark st \<subseteq> permanent_mark st'"
  using visit_ok [OF assms(1,3)] assms(2) by (auto simp: between_visits_def dfs_grows_def dfs_ok_def)

lemma order_loop_ok:
  assumes "order_env_ok E"
  shows "order_loop j k E st = Ok st' \<Longrightarrow> between_visits E st \<Longrightarrow>
    between_visits E st' \<and> permanent_mark st' = {..<oe_count E}"
proof (induction j arbitrary: st)
  case 0
  then show ?case by simp
next
  case (Suc j)
  show ?case
  proof (cases "find (\<lambda>i. i \<notin> permanent_mark st) [0..<oe_count E]")
    case None
    with Suc.prems have "st' = st" "{..<oe_count E} \<subseteq> permanent_mark st" by (simp_all add: find_unmarked)
    with Suc.prems(2) show ?thesis by (auto simp: between_visits_def dfs_ok_def)
  next
    case (Some u)
    with Suc.prems(1) obtain st1 where st1: "visit k E u st = Ok st1" "order_loop j k E st1 = Ok st'"
      by (auto simp: and_then_Ok)
    from between_visits_step [OF assms Suc.prems(2) st1(1)] Suc.IH [OF st1(2)] show ?thesis by blast
  qed
qed

lemma order_loop_returns:
  assumes E: "order_env_ok E" and acyclic: "acyclic (forward E)"
  shows "\<lbrakk>between_visits E st; card ({..<oe_count E} - permanent_mark st) < j; oe_count E < k\<rbrakk>
    \<Longrightarrow> \<exists>st'. order_loop j k E st = Ok st'"
proof (induction j arbitrary: st)
  case 0
  then show ?case by simp
next
  case (Suc j)
  show ?case
  proof (cases "find (\<lambda>i. i \<notin> permanent_mark st) [0..<oe_count E]")
    case None
    then show ?thesis by simp
  next
    case (Some u)
    from find_unmarked(2) [OF Some] have u: "u < oe_count E" "u \<notin> permanent_mark st" by auto
    have "card ({..<oe_count E} - temporary_mark st) \<le> card {..<oe_count E}" by (intro card_mono) auto
    with Suc.prems(3) have "card ({..<oe_count E} - temporary_mark st) < k" by simp
    with visit_returns [OF E acyclic _ u(1), of st k] Suc.prems(1) obtain st1 where
      st1: "visit k E u st = Ok st1" by (auto simp: between_visits_def)
    note step = between_visits_step [OF E Suc.prems(1) st1]
    then have "{..<oe_count E} - permanent_mark st1 \<subset> {..<oe_count E} - permanent_mark st" using u by auto
    then have "card ({..<oe_count E} - permanent_mark st1) < card ({..<oe_count E} - permanent_mark st)"
      by (intro psubset_card_mono) auto
    with Suc.IH [of st1] step Suc.prems(2,3) Some st1 show ?thesis by simp
  qed
qed

lemma order_loop_fuel:
  assumes E: "order_env_ok E"
  shows "\<lbrakk>between_visits E st; card ({..<oe_count E} - permanent_mark st) < j; oe_count E < k\<rbrakk>
    \<Longrightarrow> order_loop j k E st \<noteq> Err e"
proof (induction j arbitrary: st)
  case 0
  then show ?case by simp
next
  case (Suc j)
  show ?case
  proof (cases "find (\<lambda>i. i \<notin> permanent_mark st) [0..<oe_count E]")
    case None
    then show ?thesis by simp
  next
    case (Some u)
    from find_unmarked(2) [OF Some] have u: "u < oe_count E" "u \<notin> permanent_mark st" by auto
    have "card ({..<oe_count E} - temporary_mark st) \<le> card {..<oe_count E}" by (intro card_mono) auto
    with Suc.prems(3) have "card ({..<oe_count E} - temporary_mark st) < k" by simp
    with visit_fuel [OF E _ u(1), of st k] Suc.prems(1) have ne: "visit k E u st \<noteq> Err e"
      by (auto simp: between_visits_def)
    show ?thesis
    proof (cases "visit k E u st")
      case (Ok st1)
      note step = between_visits_step [OF E Suc.prems(1) Ok]
      then have "{..<oe_count E} - permanent_mark st1 \<subset> {..<oe_count E} - permanent_mark st" using u by auto
      then have "card ({..<oe_count E} - permanent_mark st1) < card ({..<oe_count E} - permanent_mark st)"
        by (intro psubset_card_mono) auto
      with Suc.IH [of st1] step Suc.prems(2,3) Some Ok show ?thesis by simp
    qed (use ne Some in simp_all)
  qed
qed

text \<open>Every block of the list comes before all its forward successors.\<close>

definition topological :: "order_env \<Rightarrow> basic_block list \<Rightarrow> bool" where
  "topological E bs \<longleftrightarrow> (\<forall>xs u ys v. bs = xs @ u # ys \<longrightarrow> (u, v) \<in> forward E \<longrightarrow> v \<in> set ys)"

lemma topological_rev: "post_order E bs \<Longrightarrow> topological E (rev bs)"
  unfolding topological_def post_order_def
proof (intro allI impI)
  fix xs u ys v
  assume L: "\<forall>xs u ys v. bs = xs @ u # ys \<longrightarrow> (u, v) \<in> forward E \<longrightarrow> v \<in> set xs"
    and eq: "rev bs = xs @ u # ys" and e: "(u, v) \<in> forward E"
  from eq have "bs = rev ys @ u # rev xs" by (metis rev.simps(2) rev_append rev_rev_ident append.assoc append_Cons append_Nil)
  with L e show "v \<in> set ys" by fastforce
qed

lemma topological_acyclic:
  assumes "topological E bs" and "set bs = {..<oe_count E}" and "distinct bs"
  shows "acyclic (forward E)"
proof -
  define rank where "rank u = length (takeWhile ((\<noteq>) u) bs)" for u
  have "rank u < rank v" if e: "(u, v) \<in> forward E" for u v
  proof -
    from e assms(2) have "u \<in> set bs" by (auto simp: forward_def)
    then obtain xs ys where bs: "bs = xs @ u # ys" by (auto simp: in_set_conv_decomp)
    with assms(1) e have v: "v \<in> set ys" by (auto simp: topological_def)
    with assms(3) bs have "v \<notin> set xs" "v \<noteq> u" "u \<notin> set xs" by auto
    then have "takeWhile ((\<noteq>) u) bs = xs" "length xs < length (takeWhile ((\<noteq>) v) bs)"
      using bs by (auto simp: takeWhile_append takeWhile_eq_all_conv)
    then show ?thesis by (simp add: rank_def)
  qed
  then show ?thesis by (rule acyclicI_order [of _ "\<lambda>x. - int (rank x)", simplified])
qed

lemma order_basic_blocks_result:
  assumes "order_env_ok E"
  shows "case order_basic_blocks E of
      Ok bs \<Rightarrow> acyclic (forward E) \<and> distinct bs \<and> set bs = {..<oe_count E} \<and> topological E bs
    | Panic \<Rightarrow> \<not> acyclic (forward E)
    | Err OutOfFuel \<Rightarrow> False"
proof -
  let ?st0 = "\<lparr>sorted_blocks = [], permanent_mark = {}, temporary_mark = {}\<rparr>"
  have st0: "between_visits E ?st0" by (simp add: between_visits_def dfs_ok_def post_order_def)
  show ?thesis
  proof (cases "order_loop (Suc (oe_count E)) (Suc (oe_count E)) E ?st0")
    case (Ok st)
    from order_loop_ok [OF assms Ok st0] have st: "dfs_ok E st" "permanent_mark st = {..<oe_count E}"
      by (simp_all add: between_visits_def)
    have "order_basic_blocks E = outcome.Ok (rev (sorted_blocks st))"
      using Ok by (simp add: order_basic_blocks_def)
    moreover have "topological E (rev (sorted_blocks st))" "set (rev (sorted_blocks st)) = {..<oe_count E}"
      "distinct (rev (sorted_blocks st))"
      using st topological_rev by (auto simp: dfs_ok_def)
    ultimately show ?thesis using topological_acyclic by auto
  next
    case (Err e)
    with order_loop_fuel [OF assms st0, of "Suc (oe_count E)" "Suc (oe_count E)" e] show ?thesis by auto
  next
    case Panic
    with order_loop_returns [OF assms _ st0, of "Suc (oe_count E)" "Suc (oe_count E)"] have "\<not> acyclic (forward E)" by auto
    with Panic show ?thesis by (simp add: order_basic_blocks_def)
  qed
qed


text \<open>
  C10. The block order: when the forward edges have no cycle the search returns a topological order
  that lists every block exactly once, its fuel never runs out, and when they have one it panics.
\<close>

theorem order_basic_blocks_spec:
  assumes "order_env_ok E"
  shows "case order_basic_blocks E of
      Ok bs \<Rightarrow> acyclic (forward E) \<and> distinct bs \<and> set bs = {..<oe_count E} \<and> topological E bs
    | Panic \<Rightarrow> \<not> acyclic (forward E)
    | Err OutOfFuel \<Rightarrow> False"
  using order_basic_blocks_result [OF assms] .

text \<open>The diamond with a loop back: 0 to 1 and 2, both to 3, 3 back to 0.\<close>

definition diamond_env :: order_env where
  "diamond_env = \<lparr>oe_count = 4, oe_edges = \<lparr>re_succs = [[1, 2], [3], [3], [0]], re_preds = [[3], [0], [0], [1, 2]]\<rparr>,
     oe_back = [(3, 0)], oe_depth = (\<lambda>b. Some 0)\<rparr>"

theorem order_basic_blocks_spec_witness:
  "order_basic_blocks diamond_env = Ok [0, 2, 1, 3] \<and> topological diamond_env [0, 2, 1, 3]"
proof -
  have "order_env_ok diamond_env"
    by (auto simp: order_env_ok_def edges_of_def diamond_env_def less_Suc_eq numeral_nat)
  moreover have "order_basic_blocks diamond_env = Ok [0, 2, 1, 3]"
    by (simp add: order_basic_blocks_def diamond_env_def visit.simps(2) numeral_nat grouped_successors_def
        re_successors_def upt_rec)
  ultimately show ?thesis using order_basic_blocks_spec [of diamond_env] by simp
qed

end
