(* ===== verification/ProcedureLoops.thy ===== *)
theory ProcedureLoops
  imports BlockOrder
begin

text \<open>
  \<open>ProcedureLoops\<close> of \<open>translation/src/environment/loops.rs\<close> and its queries. The dominator test
  of the compiler is a parameter. A lookup \<open>map[key]\<close> that fails is a panic; the searches that do
  not return are \<^term>\<open>Err OutOfFuel\<close>, which the theorem of this file excludes. \<open>dbg\<close> tells whether debug
  assertions are checked; a failed one is a panic.
\<close>

section \<open>The construction\<close>

record procedure_loops =
  loop_heads :: "basic_block btset"
  loop_bodies :: "(basic_block, basic_block btset) btmap"
  ordered_loop_bodies :: "(basic_block, basic_block list) btmap"
  enclosing_loop_heads :: "(basic_block, basic_block list) btmap"

fun terminating :: "'a option option \<Rightarrow> (fuel, 'a) outcome" where
  "terminating None = Err OutOfFuel"
| "terminating (Some None) = Panic"
| "terminating (Some (Some x)) = Ok x"

definition find_back_edges ::
  "(basic_block \<Rightarrow> basic_block \<Rightarrow> bool) \<Rightarrow> real_edges \<Rightarrow> nat \<Rightarrow> (basic_block \<times> basic_block) btset option" where
  "find_back_edges dominates R n =
     fold_opt (\<lambda>bb acc. map_option (\<lambda>succs.
         fold (\<lambda>successor acc. if dominates successor bb then bs_insert (bb, successor) acc else acc) succs acc)
       (re_successors R bb)) [0..<n] []"

definition build_loop_bodies ::
  "real_edges \<Rightarrow> (basic_block \<times> basic_block) list \<Rightarrow> (fuel, (basic_block, basic_block btset) btmap) outcome" where
  "build_loop_bodies R back_edges =
     for_each (\<lambda>(source, target) bodies.
         and_then (terminating (collect_loop_body target source R
                     (case bm_get bodies target of None \<Rightarrow> [] | Some body \<Rightarrow> body))) (\<lambda>body.
         Ok (bm_insert target body bodies)))
       back_edges []"

definition enclosing_heads_set ::
  "(basic_block, basic_block btset) btmap \<Rightarrow> (basic_block, basic_block btset) btmap" where
  "enclosing_heads_set bodies =
     fold (\<lambda>(head, body) heads. fold (\<lambda>block. bm_update block [] (bs_insert head)) body heads) bodies []"

definition head_depths ::
  "(basic_block, basic_block btset) btmap \<Rightarrow> basic_block btset \<Rightarrow> (fuel, (basic_block, nat) btmap) outcome" where
  "head_depths heads_set heads =
     for_each (\<lambda>head depths. and_then (or_panic (map_option length (bm_get heads_set head))) (\<lambda>d.
         Ok (bm_insert head d depths))) heads []"

text \<open>\<open>sort_by_key\<close> is stable; the key function panics on a missing entry.\<close>

definition sort_by_map :: "('k::linorder, nat) btmap \<Rightarrow> 'k list \<Rightarrow> 'k list option" where
  "sort_by_map keys xs =
     (if list_all (\<lambda>x. bm_get keys x \<noteq> None) xs then Some (sort_key (\<lambda>x. the (bm_get keys x)) xs) else None)"

definition sorted_entries ::
  "(basic_block, nat) btmap \<Rightarrow> (basic_block, basic_block btset) btmap \<Rightarrow> (fuel, (basic_block, basic_block list) btmap) outcome" where
  "sorted_entries keys entries =
     for_each (\<lambda>entry m. and_then (or_panic (sort_by_map keys (snd entry))) (\<lambda>xs.
         Ok (bm_insert (fst entry) xs m))) entries []"

text \<open>The blocks of each loop in the order of all blocks; the first one is asserted to be the head.\<close>

definition order_loop_bodies ::
  "bool \<Rightarrow> (basic_block, nat) btmap \<Rightarrow> (basic_block, basic_block btset) btmap \<Rightarrow> (fuel, (basic_block, basic_block list) btmap) outcome" where
  "order_loop_bodies dbg block_order bodies =
     for_each (\<lambda>(loop_head, loop_body) ordered_bodies.
         and_then (or_panic (sort_by_map block_order loop_body)) (\<lambda>ordered_body.
         if dbg \<and> (ordered_body = [] \<or> hd ordered_body \<noteq> loop_head) then Panic
         else Ok (bm_insert loop_head ordered_body ordered_bodies)))
       bodies []"

definition loop_depth ::
  "(basic_block, nat) btmap \<Rightarrow> (basic_block, basic_block list) btmap \<Rightarrow> basic_block \<Rightarrow> nat option" where
  "loop_depth depths enclosing bb =
     (case bm_get enclosing bb of
        None \<Rightarrow> Some 0
      | Some heads \<Rightarrow> (if heads = [] then Some 0 else bm_get depths (last heads)))"

definition positions :: "basic_block list \<Rightarrow> (basic_block, nat) btmap" where
  "positions ordered = fold (\<lambda>(i, v). bm_insert v i) (enumerate 0 ordered) []"

text \<open>
  The blocks of a loop that switch on an integer and have an edge out of the loop. \<open>any\<close> stops at the first such
  edge. The border holds the blocks of the loop reached so far by forward edges; each block is asserted to be in it.
\<close>

fun any_less :: "(basic_block \<Rightarrow> nat option) \<Rightarrow> nat \<Rightarrow> basic_block list \<Rightarrow> bool option" where
  "any_less depth_of d [] = Some False"
| "any_less depth_of d (b # bs) =
     (case depth_of b of None \<Rightarrow> None | Some k \<Rightarrow> if k < d then Some True else any_less depth_of d bs)"

definition extend_border ::
  "(basic_block \<times> basic_block) list \<Rightarrow> basic_block btset \<Rightarrow> basic_block \<Rightarrow> basic_block list \<Rightarrow> basic_block btset \<Rightarrow> basic_block btset" where
  "extend_border back_edges loop_body curr_bb succs border =
     fold (\<lambda>succ_bb border.
         if (curr_bb, succ_bb) \<notin> set back_edges \<and> succ_bb \<in> set loop_body then bs_insert succ_bb border else border)
       succs (removeAll curr_bb border)"

definition exit_blocks ::
  "bool \<Rightarrow> body \<Rightarrow> real_edges \<Rightarrow> (basic_block \<Rightarrow> nat option) \<Rightarrow> (basic_block \<times> basic_block) list \<Rightarrow> nat \<Rightarrow> basic_block
    \<Rightarrow> basic_block btset \<Rightarrow> basic_block list \<Rightarrow> (fuel, basic_block list) outcome" where
  "exit_blocks dbg m R depth_of back_edges head_depth loop_head loop_body ordered_body =
     and_then (for_each (\<lambda>curr_bb (exits, border).
         if dbg \<and> curr_bb \<notin> set border then Panic
         else and_then (or_panic (terminator_at m curr_bb)) (\<lambda>t.
         and_then (or_panic (re_successors R curr_bb)) (\<lambda>succs.
         and_then (or_panic (any_less depth_of head_depth succs)) (\<lambda>has_exit_edge.
           let is_switch_int = (case t of SwitchInt _ _ _ \<Rightarrow> True | _ \<Rightarrow> False)
           in Ok (if is_switch_int \<and> has_exit_edge then exits @ [curr_bb] else exits,
                  extend_border back_edges loop_body curr_bb succs border)))))
       ordered_body ([], [loop_head])) (\<lambda>(exits, _). Ok exits)"

definition loop_exit_blocks ::
  "bool \<Rightarrow> body \<Rightarrow> real_edges \<Rightarrow> (basic_block \<Rightarrow> nat option) \<Rightarrow> (basic_block \<times> basic_block) list \<Rightarrow> (basic_block, nat) btmap
    \<Rightarrow> (basic_block, basic_block btset) btmap \<Rightarrow> (basic_block, basic_block list) btmap \<Rightarrow> basic_block btset
    \<Rightarrow> (fuel, (basic_block, basic_block list) btmap) outcome" where
  "loop_exit_blocks dbg m R depth_of back_edges depths bodies ordered_bodies heads =
     for_each (\<lambda>head exits.
         and_then (or_panic (bm_get depths head)) (\<lambda>d.
         and_then (or_panic (bm_get bodies head)) (\<lambda>body.
         and_then (or_panic (bm_get ordered_bodies head)) (\<lambda>ordered_body.
         and_then (exit_blocks dbg m R depth_of back_edges d head body ordered_body) (\<lambda>bs.
         Ok (bm_insert head bs exits))))))
       heads []"

definition procedure_loops_new ::
  "bool \<Rightarrow> (basic_block \<Rightarrow> basic_block \<Rightarrow> bool) \<Rightarrow> body \<Rightarrow> real_edges \<Rightarrow> (fuel, procedure_loops) outcome" where
  "procedure_loops_new dbg dominates m R =
     and_then (or_panic (find_back_edges dominates R (n_blocks m))) (\<lambda>back_edges.
     and_then (build_loop_bodies R back_edges) (\<lambda>bodies.
     let heads_set = enclosing_heads_set bodies; heads = bs_from (bm_keys bodies)
     in and_then (head_depths heads_set heads) (\<lambda>depths.
     and_then (sorted_entries depths heads_set) (\<lambda>enclosing.
     and_then (order_basic_blocks \<lparr>oe_count = n_blocks m, oe_edges = R, oe_back = back_edges,
                                   oe_depth = loop_depth depths enclosing\<rparr>) (\<lambda>ordered_blocks.
     and_then (order_loop_bodies dbg (positions ordered_blocks) bodies) (\<lambda>ordered_bodies.
     and_then (loop_exit_blocks dbg m R (loop_depth depths enclosing) back_edges depths bodies ordered_bodies heads) (\<lambda>exits.
     Ok \<lparr>loop_heads = heads, loop_bodies = bodies, ordered_loop_bodies = ordered_bodies,
         enclosing_loop_heads = enclosing\<rparr>)))))))"

definition is_loop_head :: "procedure_loops \<Rightarrow> basic_block \<Rightarrow> bool" where
  "is_loop_head L bbi \<longleftrightarrow> bbi \<in> set (loop_heads L)"

definition get_loop_head :: "procedure_loops \<Rightarrow> basic_block \<Rightarrow> basic_block option" where
  "get_loop_head L bbi =
     (case bm_get (enclosing_loop_heads L) bbi of
        None \<Rightarrow> None | Some heads \<Rightarrow> (if heads = [] then None else Some (last heads)))"

definition get_loop_body :: "procedure_loops \<Rightarrow> basic_block \<Rightarrow> basic_block list option" where
  "get_loop_body L loop_head = bm_get (ordered_loop_bodies L) loop_head"

section \<open>Back edges and bodies\<close>

lemma fold_back_edges:
  "set (fold (\<lambda>s acc. if doms s bb then bs_insert (bb, s) acc else acc) succs acc)
     = set acc \<union> {(bb, s) | s. s \<in> set succs \<and> doms s bb}"
  by (induction succs arbitrary: acc) auto

lemma find_back_edges_result:
  assumes "edges_of R n"
  shows "\<exists>bes. find_back_edges doms R n = Some bes \<and> set bes = {(b, s). b < n \<and> s \<in> set (re_succs R ! b) \<and> doms s b}"
proof -
  have "\<exists>bes. fold_opt (\<lambda>bb acc. map_option (\<lambda>succs.
         fold (\<lambda>successor acc. if doms successor bb then bs_insert (bb, successor) acc else acc) succs acc)
       (re_successors R bb)) [0..<k] [] = Some bes \<and> set bes = {(b, s). b < k \<and> s \<in> set (re_succs R ! b) \<and> doms s b}"
    if "k \<le> n" for k
    using that
  proof (induction k)
    case 0
    then show ?case by simp
  next
    case (Suc k)
    moreover have "re_successors R k = Some (re_succs R ! k)"
      using assms Suc.prems by (simp add: edges_of_def re_successors_def)
    ultimately show ?case by (auto simp: fold_opt_snoc fold_back_edges less_Suc_eq)
  qed
  then show ?thesis by (simp add: find_back_edges_def)
qed

text \<open>The blocks of all the loops with one head.\<close>

definition loop_blocks ::
  "real_edges \<Rightarrow> (basic_block \<times> basic_block) set \<Rightarrow> basic_block \<Rightarrow> basic_block set" where
  "loop_blocks R bes head = {b. \<exists>source. (source, head) \<in> bes \<and> backward_walk R head source b}"

definition bodies_ok ::
  "real_edges \<Rightarrow> nat \<Rightarrow> (basic_block \<times> basic_block) set \<Rightarrow> (basic_block, basic_block btset) btmap \<Rightarrow> bool" where
  "bodies_ok R n bes bodies \<longleftrightarrow>
     bm_ok bodies \<and>
     (\<forall>head. case bm_get bodies head of
         None \<Rightarrow> \<forall>source. (source, head) \<notin> bes
       | Some b \<Rightarrow> (\<exists>source. (source, head) \<in> bes) \<and> bs_ok b \<and> set b = loop_blocks R bes head
           \<and> set b \<subseteq> {..<n} \<and> closed_body R head (set b))"

lemma bodies_step:
  assumes R: "edges_of R n" and ok: "bodies_ok R n bes bodies" and s: "source < n"
  shows "\<exists>bodies'. and_then (terminating (collect_loop_body target source R
             (case bm_get bodies target of None \<Rightarrow> [] | Some body \<Rightarrow> body))) (\<lambda>body. Ok (bm_insert target body bodies))
           = (Ok bodies' :: (fuel, _) outcome) \<and> bodies_ok R n (insert (source, target) bes) bodies'"
proof -
  let ?b = "case bm_get bodies target of None \<Rightarrow> [] | Some body \<Rightarrow> body"
  have ok': "\<And>head. case bm_get bodies head of
         None \<Rightarrow> \<forall>source. (source, head) \<notin> bes
       | Some b \<Rightarrow> (\<exists>source. (source, head) \<in> bes) \<and> bs_ok b \<and> set b = loop_blocks R bes head
           \<and> set b \<subseteq> {..<n} \<and> closed_body R head (set b)" and bm: "bm_ok bodies"
    using ok by (simp_all add: bodies_ok_def)
  have b: "bs_ok ?b" "set ?b = loop_blocks R bes target" "set ?b \<subseteq> {..<n}" "closed_body R target (set ?b)"
    using ok' [of target]
    by (cases "bm_get bodies target"; simp; simp add: loop_blocks_def closed_body_def)+
  from collect_loop_body_result [OF R s b(1,3,4)] obtain r where
    r: "collect_loop_body target source R ?b = Some (Some r)" "bs_ok r"
    "set r = set ?b \<union> {x. backward_walk R target source x}" "set r \<subseteq> {..<n}" "closed_body R target (set r)"
    by blast
  have same: "set r = loop_blocks R (insert (source, target) bes) target"
    using r(3) b(2) by (auto simp: loop_blocks_def)
  have other: "loop_blocks R (insert (source, target) bes) head = loop_blocks R bes head" if "head \<noteq> target" for head
    using that by (auto simp: loop_blocks_def)
  have "case bm_get (bm_insert target r bodies) head of
         None \<Rightarrow> \<forall>s. (s, head) \<notin> insert (source, target) bes
       | Some b \<Rightarrow> (\<exists>s. (s, head) \<in> insert (source, target) bes) \<and> bs_ok b
           \<and> set b = loop_blocks R (insert (source, target) bes) head
           \<and> set b \<subseteq> {..<n} \<and> closed_body R head (set b)" for head
  proof (cases "head = target")
    case True
    with r same show ?thesis by (auto simp: bm_get_insert bm)
  next
    case False
    then have "bm_get (bm_insert target r bodies) head = bm_get bodies head"
      "\<And>s. (s, head) \<in> insert (source, target) bes \<longleftrightarrow> (s, head) \<in> bes"
      by (simp_all add: bm_get_insert bm)
    with ok' [of head] other [OF False] show ?thesis by (simp only:)
  qed
  then have "bodies_ok R n (insert (source, target) bes) (bm_insert target r bodies)"
    unfolding bodies_ok_def using bm by (simp add: bm_ok_insert)
  with r(1) show ?thesis by simp
qed

lemma build_loop_bodies_result:
  assumes "edges_of R n" and "\<forall>(s, h) \<in> set bes. s < n"
  shows "\<exists>bodies. build_loop_bodies R bes = Ok bodies \<and> bodies_ok R n (set bes) bodies"
proof -
  have "\<exists>bodies'. for_each (\<lambda>(source, target) bodies.
         and_then (terminating (collect_loop_body target source R
                     (case bm_get bodies target of None \<Rightarrow> [] | Some body \<Rightarrow> body))) (\<lambda>body.
         Ok (bm_insert target body bodies))) bes bodies = Ok bodies' \<and> bodies_ok R n (finished \<union> set bes) bodies'"
    if "bodies_ok R n finished bodies" for bodies finished
    using that assms(2)
  proof (induction bes arbitrary: bodies finished)
    case Nil
    then show ?case by simp
  next
    case (Cons e bes)
    obtain source target where e: "e = (source, target)" by (cases e)
    with Cons.prems(2) have "source < n" by simp
    from bodies_step [OF assms(1) Cons.prems(1) this, of target] obtain bodies1 where
      b1: "and_then (terminating (collect_loop_body target source R
             (case bm_get bodies target of None \<Rightarrow> [] | Some body \<Rightarrow> body))) (\<lambda>body. Ok (bm_insert target body bodies))
           = (Ok bodies1 :: (fuel, _) outcome)" "bodies_ok R n (insert (source, target) finished) bodies1" by blast
    from Cons.IH [OF b1(2)] Cons.prems(2) show ?case by (simp add: e b1(1))
  qed
  from this [of "{}" "[]"] show ?thesis
    by (simp add: build_loop_bodies_def bodies_ok_def bm_ok_def bm_keys_def bm_get_def)
qed


section \<open>The enclosing heads\<close>

text \<open>The heads recorded for a block, an absent entry being no head.\<close>

definition heads_of :: "(basic_block, basic_block btset) btmap \<Rightarrow> basic_block \<Rightarrow> basic_block set" where
  "heads_of m b = (case bm_get m b of None \<Rightarrow> {} | Some hs \<Rightarrow> set hs)"

definition heads_ok :: "(basic_block, basic_block btset) btmap \<Rightarrow> bool" where
  "heads_ok m \<longleftrightarrow> bm_ok m \<and> (\<forall>b hs. bm_get m b = Some hs \<longrightarrow> bs_ok hs \<and> hs \<noteq> [])"

lemma heads_ok_entry: "heads_ok m \<Longrightarrow> bm_get m b = None \<longleftrightarrow> heads_of m b = {}"
  by (auto simp: heads_ok_def heads_of_def split: option.splits)

lemma bs_insert_not_Nil [simp]: "bs_insert x s \<noteq> []"
  by (metis set_bs_insert empty_set insert_not_empty)

lemma add_head_result:
  assumes "heads_ok m"
  shows "heads_ok (bm_update b [] (bs_insert h) m)
    \<and> heads_of (bm_update b [] (bs_insert h) m) c = heads_of m c \<union> (if c = b then {h} else {})"
  using assms by (auto simp: heads_ok_def heads_of_def bm_ok_update bm_get_update split: option.splits if_splits)

lemma add_heads_result:
  "heads_ok m \<Longrightarrow> heads_ok (fold (\<lambda>block. bm_update block [] (bs_insert h)) bs m)
    \<and> heads_of (fold (\<lambda>block. bm_update block [] (bs_insert h)) bs m) c
        = heads_of m c \<union> (if c \<in> set bs then {h} else {})"
proof (induction bs arbitrary: m)
  case (Cons b bs)
  from Cons.IH [of "bm_update b [] (bs_insert h) m"] add_head_result [OF Cons.prems, of b h c]
    add_head_result [OF Cons.prems, of b h] show ?case by auto
qed simp

lemma enclosing_heads_set_result:
  "heads_ok (enclosing_heads_set bodies) \<and>
   heads_of (enclosing_heads_set bodies) c = {h. \<exists>body. (h, body) \<in> set bodies \<and> c \<in> set body}"
proof -
  have "heads_ok (fold (\<lambda>(head, body) heads. fold (\<lambda>block. bm_update block [] (bs_insert head)) body heads) bodies m)
    \<and> heads_of (fold (\<lambda>(head, body) heads. fold (\<lambda>block. bm_update block [] (bs_insert head)) body heads) bodies m) c
        = heads_of m c \<union> {h. \<exists>body. (h, body) \<in> set bodies \<and> c \<in> set body}" if "heads_ok m" for m
    using that
  proof (induction bodies arbitrary: m)
    case (Cons e bodies)
    obtain h body where e: "e = (h, body)" by (cases e)
    from Cons.IH [of "fold (\<lambda>block. bm_update block [] (bs_insert h)) body m"] add_heads_result [OF Cons.prems, of h body c]
      add_heads_result [OF Cons.prems, of h body] show ?case by (auto simp: e)
  qed simp
  from this [of "[]"] show ?thesis
    by (simp add: enclosing_heads_set_def heads_ok_def bm_ok_def bm_keys_def bm_get_def heads_of_def)
qed

section \<open>Filling maps\<close>

lemma for_each_insert:
  "\<forall>x \<in> set xs. f x \<noteq> None \<Longrightarrow>
   for_each (\<lambda>x m. and_then (or_panic (f x)) (\<lambda>v. Ok (bm_insert (key x) v m))) xs m
     = (Ok (fold (\<lambda>(k, v). bm_insert k v) (map (\<lambda>x. (key x, the (f x))) xs) m) :: ('e, _) outcome)"
  by (induction xs arbitrary: m) auto

lemma map_of_key_image:
  "distinct xs \<Longrightarrow> map_of (map (\<lambda>x. (x, f x)) xs) k = (if k \<in> set xs then Some (f k) else None)"
  by (induction xs) auto

lemma head_depths_result:
  assumes "distinct heads" and "\<forall>h \<in> set heads. bm_get hs h \<noteq> None"
  shows "\<exists>depths. head_depths hs heads = Ok depths
    \<and> (\<forall>h. bm_get depths h = (if h \<in> set heads then map_option length (bm_get hs h) else None))"
proof -
  let ?kvs = "map (\<lambda>h. (h, the (map_option length (bm_get hs h)))) heads"
  have "head_depths hs heads = Ok (fold (\<lambda>(k, v). bm_insert k v) ?kvs [])"
    unfolding head_depths_def by (rule for_each_insert) (use assms(2) in simp)
  moreover have "bm_get (fold (\<lambda>(k, v). bm_insert k v) ?kvs []) h
      = (if h \<in> set heads then map_option length (bm_get hs h) else None)" for h
  proof -
    have "map_of ?kvs h = (if h \<in> set heads then Some (the (map_option length (bm_get hs h))) else None)"
      by (rule map_of_key_image [OF assms(1)])
    with btm.get_collect [OF btm.ok_empty, of ?kvs h] assms show ?thesis
      by (auto simp: btm.get_empty comp_def)
  qed
  ultimately show ?thesis by blast
qed

lemma sorted_entries_result:
  assumes "bm_ok entries" and "\<forall>(k, xs) \<in> set entries. \<forall>x \<in> set xs. bm_get keys x \<noteq> None"
  shows "\<exists>m. sorted_entries keys entries = Ok m
    \<and> (\<forall>k. bm_get m k = map_option (sort_key (\<lambda>x. the (bm_get keys x))) (bm_get entries k))"
proof -
  let ?sort = "sort_key (\<lambda>x. the (bm_get keys x))"
  have sort: "sort_by_map keys (snd e) = Some (?sort (snd e))" if "e \<in> set entries" for e
    using assms(2) that by (auto simp: sort_by_map_def list_all_iff)
  let ?kvs = "map (\<lambda>e. (fst e, the (sort_by_map keys (snd e)))) entries"
  have kvs: "?kvs = map (\<lambda>(k, xs). (k, ?sort xs)) entries"
    using sort by (intro map_cong) auto
  have "sorted_entries keys entries = Ok (fold (\<lambda>(k, v). bm_insert k v) ?kvs [])"
    unfolding sorted_entries_def by (rule for_each_insert) (use sort in simp)
  moreover have "distinct (map fst ?kvs)" using assms(1) by (simp add: bm_ok_def bm_keys_def comp_def)
  moreover have "map_of ?kvs k = map_option ?sort (bm_get entries k)" for k
    unfolding kvs bm_get_def by (induction entries) auto
  ultimately show ?thesis
    using btm.get_collect [OF btm.ok_empty, of ?kvs] by (auto simp: btm.get_empty split: option.split)
qed

lemma order_loop_bodies_sorted:
  assumes "\<forall>(k, xs) \<in> set bodies. \<forall>x \<in> set xs. bm_get keys x \<noteq> None"
  shows "order_loop_bodies dbg keys bodies =
    (if dbg \<and> (\<exists>(h, body) \<in> set bodies. let xs = sort_key (\<lambda>x. the (bm_get keys x)) body in xs = [] \<or> hd xs \<noteq> h)
     then Panic else sorted_entries keys bodies)"
proof -
  let ?bad = "\<lambda>(h, body). let xs = sort_key (\<lambda>x. the (bm_get keys x)) body in xs = [] \<or> hd xs \<noteq> h"
  have "for_each (\<lambda>(loop_head, loop_body) ordered_bodies.
         and_then (or_panic (sort_by_map keys loop_body)) (\<lambda>ordered_body.
         if dbg \<and> (ordered_body = [] \<or> hd ordered_body \<noteq> loop_head) then Panic
         else Ok (bm_insert loop_head ordered_body ordered_bodies))) bodies m =
    (if dbg \<and> (\<exists>e \<in> set bodies. ?bad e) then Panic
     else for_each (\<lambda>entry m. and_then (or_panic (sort_by_map keys (snd entry))) (\<lambda>xs.
         Ok (bm_insert (fst entry) xs m))) bodies m)" for m
    using assms
  proof (induction bodies arbitrary: m)
    case (Cons e bodies)
    obtain h body where e: "e = (h, body)" by (cases e)
    with Cons.prems have "sort_by_map keys body = Some (sort_key (\<lambda>x. the (bm_get keys x)) body)"
      by (auto simp: sort_by_map_def list_all_iff)
    with Cons e show ?case by (auto simp: Let_def)
  qed simp
  then show ?thesis unfolding order_loop_bodies_def sorted_entries_def by this
qed

lemma positions_result:
  assumes "distinct bs"
  shows "bm_get (positions bs) b = (if b \<in> set bs then Some (length (takeWhile ((\<noteq>) b) bs)) else None)"
proof -
  have "bm_get (fold (\<lambda>(i, v). bm_insert v i) (enumerate k bs) m) b
      = (if b \<in> set bs then Some (k + length (takeWhile ((\<noteq>) b) bs)) else bm_get m b)" if "bm_ok m" for k m
    using assms that
  proof (induction bs arbitrary: k m)
    case (Cons x bs)
    from Cons.IH [of "bm_insert x k m" "Suc k"] Cons.prems show ?case
      by (auto simp: bm_ok_insert bm_get_insert)
  qed simp
  from this [OF btm.ok_empty, of 0] show ?thesis by (simp add: positions_def btm.get_empty)
qed

section \<open>Exit blocks\<close>

lemma any_less_defined: "\<forall>b \<in> set bs. depth_of b \<noteq> None \<Longrightarrow> any_less depth_of d bs \<noteq> None"
  by (induction bs) auto

lemma set_extend_border:
  "set (extend_border bes body b succs border) =
     (set border - {b}) \<union> {s \<in> set succs. (b, s) \<notin> set bes \<and> s \<in> set body}"
proof -
  have "set (fold (\<lambda>s border. if (b, s) \<notin> set bes \<and> s \<in> set body then bs_insert s border else border) succs border)
      = set border \<union> {s \<in> set succs. (b, s) \<notin> set bes \<and> s \<in> set body}" for border
    by (induction succs arbitrary: border) auto
  then show ?thesis by (simp add: extend_border_def)
qed

text \<open>Every block after the head has a forward edge from an earlier block of the list.\<close>

definition entered_in_order ::
  "real_edges \<Rightarrow> (basic_block \<times> basic_block) set \<Rightarrow> basic_block \<Rightarrow> basic_block list \<Rightarrow> bool" where
  "entered_in_order R bes head bs \<longleftrightarrow>
     (\<forall>xs b ys. bs = xs @ b # ys \<longrightarrow> b \<noteq> head \<longrightarrow> (\<exists>p \<in> set xs. b \<in> set (re_succs R ! p) \<and> (p, b) \<notin> bes))"

lemma exit_blocks_defined:
  assumes bs: "\<forall>b \<in> set bs. terminator_at m b \<noteq> None \<and> (\<exists>ss. re_successors R b = Some ss \<and> (\<forall>s \<in> set ss. depth_of s \<noteq> None))"
    and border: "dbg \<Longrightarrow> distinct bs \<and> set bs \<subseteq> set body \<and> entered_in_order R (set bes) head bs"
  shows "\<exists>es. exit_blocks dbg m R depth_of bes d head body bs = Ok es"
proof -
  let ?step = "\<lambda>curr_bb (exits, border).
         if dbg \<and> curr_bb \<notin> set border then Panic
         else and_then (or_panic (terminator_at m curr_bb)) (\<lambda>t.
         and_then (or_panic (re_successors R curr_bb)) (\<lambda>succs.
         and_then (or_panic (any_less depth_of d succs)) (\<lambda>has_exit_edge.
           let is_switch_int = (case t of SwitchInt _ _ _ \<Rightarrow> True | _ \<Rightarrow> False)
           in Ok (if is_switch_int \<and> has_exit_edge then exits @ [curr_bb] else exits,
                  extend_border bes body curr_bb succs border))))"
  let ?due = "\<lambda>done. {s \<in> set body - set done. s = head \<or> (\<exists>p \<in> set done. s \<in> set (re_succs R ! p) \<and> (p, s) \<notin> set bes)}"
  have "\<exists>r. for_each ?step todo (es, bd) = (Ok r :: (fuel, _) outcome)"
    if "bs = done @ todo" and "dbg \<Longrightarrow> ?due done \<subseteq> set bd" for todo es bd "done"
    using that
  proof (induction todo arbitrary: es bd "done")
    case (Cons b todo)
    from Cons.prems(1) bs obtain t ss where t: "terminator_at m b = Some t" "re_successors R b = Some ss"
      "\<forall>s \<in> set ss. depth_of s \<noteq> None" by auto
    from any_less_defined [OF t(3)] obtain e where e: "any_less depth_of d ss = Some e" by auto
    have ss: "ss = re_succs R ! b" using t(2) by (simp add: re_successors_def split: if_splits)
    have now: "b \<in> set bd" if dbg
    proof -
      have "b \<in> set body" "b \<notin> set done" using border [OF that] Cons.prems(1) by auto
      moreover have "b = head \<or> (\<exists>p \<in> set done. b \<in> set (re_succs R ! p) \<and> (p, b) \<notin> set bes)"
        using border [OF that] Cons.prems(1) by (auto simp: entered_in_order_def)
      ultimately show ?thesis using Cons.prems(2) [OF that] by auto
    qed
    have "?due (done @ [b]) \<subseteq> set (extend_border bes body b ss bd)" if dbg
      unfolding set_extend_border ss using Cons.prems(2) [OF that] by auto
    with Cons.IH [of "done @ [b]"] Cons.prems(1) now t e show ?case
      by (simp add: Let_def)
  qed simp
  from this [of "[]" bs "[head]" "[]"] obtain r where "for_each ?step bs ([], [head]) = (Ok r :: (fuel, _) outcome)" by auto
  then have "exit_blocks dbg m R depth_of bes d head body bs = Ok (fst r)"
    unfolding exit_blocks_def by (simp only: and_then.simps split_beta)
  then show ?thesis ..
qed

lemma loop_exit_blocks_defined:
  assumes "\<forall>h \<in> set heads. bm_get depths h \<noteq> None \<and> (\<exists>body. bm_get bodies h = Some body \<and> (\<exists>bs. bm_get ordered h = Some bs
      \<and> (\<forall>b \<in> set bs. terminator_at m b \<noteq> None \<and> (\<exists>ss. re_successors R b = Some ss \<and> (\<forall>s \<in> set ss. depth_of s \<noteq> None)))
      \<and> (dbg \<longrightarrow> distinct bs \<and> set bs \<subseteq> set body \<and> entered_in_order R (set bes) h bs)))"
  shows "\<exists>es. loop_exit_blocks dbg m R depth_of bes depths bodies ordered heads = Ok es"
proof -
  have "\<exists>es. for_each (\<lambda>head exits.
         and_then (or_panic (bm_get depths head)) (\<lambda>d.
         and_then (or_panic (bm_get bodies head)) (\<lambda>body.
         and_then (or_panic (bm_get ordered head)) (\<lambda>ordered_body.
         and_then (exit_blocks dbg m R depth_of bes d head body ordered_body) (\<lambda>bs. Ok (bm_insert head bs exits)))))) heads es0
       = (Ok es :: (fuel, _) outcome)" for es0
    using assms
  proof (induction heads arbitrary: es0)
    case (Cons h heads)
    then obtain d body bs where got: "bm_get depths h = Some d" "bm_get bodies h = Some body" "bm_get ordered h = Some bs" and
      bs: "\<forall>b \<in> set bs. terminator_at m b \<noteq> None \<and> (\<exists>ss. re_successors R b = Some ss \<and> (\<forall>s \<in> set ss. depth_of s \<noteq> None))"
      "dbg \<Longrightarrow> distinct bs \<and> set bs \<subseteq> set body \<and> entered_in_order R (set bes) h bs"
      by auto
    from exit_blocks_defined [OF bs] obtain es where "exit_blocks dbg m R depth_of bes d h body bs = Ok es" by blast
    with got Cons show ?case by simp
  qed simp
  then show ?thesis by (simp add: loop_exit_blocks_def)
qed

section \<open>The loop information\<close>

text \<open>The back edges of a body and the number of loops around a block.\<close>

definition back_edges_of :: "(basic_block \<Rightarrow> basic_block \<Rightarrow> bool) \<Rightarrow> real_edges \<Rightarrow> nat \<Rightarrow> (basic_block \<times> basic_block) set" where
  "back_edges_of doms R n = {(b, s). b < n \<and> s \<in> set (re_succs R ! b) \<and> doms s b}"

definition heads_around ::
  "(basic_block \<Rightarrow> basic_block \<Rightarrow> bool) \<Rightarrow> real_edges \<Rightarrow> nat \<Rightarrow> basic_block \<Rightarrow> basic_block set" where
  "heads_around doms R n b = {h. b \<in> loop_blocks R (back_edges_of doms R n) h}"

text \<open>The real edges, those that are no back edges, and what the dominator tree of a reducible graph guarantees.\<close>

definition edge_rel :: "real_edges \<Rightarrow> nat \<Rightarrow> (basic_block \<times> basic_block) set" where
  "edge_rel R n = {(u, v). u < n \<and> v \<in> set (re_succs R ! u)}"

definition forward_rel :: "(basic_block \<Rightarrow> basic_block \<Rightarrow> bool) \<Rightarrow> real_edges \<Rightarrow> nat \<Rightarrow> (basic_block \<times> basic_block) set" where
  "forward_rel doms R n = {(u, v). u < n \<and> v \<in> set (re_succs R ! u) \<and> \<not> doms v u}"

text \<open>
  A dominator of a block is on every path from the entry to it; the blocks from which the source of a back edge can be
  reached can be reached from the entry; no block jumps to the entry, as in every body of the compiler; and the edges
  other than back edges have no cycle.
\<close>

definition dominance_ok :: "(basic_block \<Rightarrow> basic_block \<Rightarrow> bool) \<Rightarrow> real_edges \<Rightarrow> nat \<Rightarrow> bool" where
  "dominance_ok doms R n \<longleftrightarrow>
     (\<forall>d b. doms d b \<longrightarrow> \<not> avoids R d b) \<and>
     (\<forall>(s, h) \<in> back_edges_of doms R n. \<forall>b. (b, s) \<in> (edge_rel R n)\<^sup>* \<longrightarrow> (0, b) \<in> (edge_rel R n)\<^sup>*) \<and>
     (\<forall>b < n. 0 \<notin> set (re_succs R ! b)) \<and>
     acyclic (forward_rel doms R n)"

text \<open>Along a path from the entry, the head is met or avoided.\<close>

lemma avoids_or_passes:
  assumes "edges_of R n" and "(0, b) \<in> E\<^sup>*" and "E \<subseteq> edge_rel R n"
  shows "avoids R h b \<or> (h, b) \<in> E\<^sup>*"
  using assms(2)
proof induction
  case base
  then show ?case by (cases "h = 0") (auto intro: avoids.start)
next
  case (step u v)
  then have "u < length (re_succs R)" "v \<in> set (re_succs R ! u)" using assms(1,3) by (auto simp: edge_rel_def edges_of_def)
  with step show ?case by (cases "v = h") (auto intro: avoids.edge rtrancl_into_rtrancl)
qed

text \<open>A path of \<open>k\<close> edges that does not avoid the head has a prefix that ends there.\<close>

lemma passes_within:
  assumes "edges_of R n" and "(0, b) \<in> (edge_rel R n) ^^ k" and "\<not> avoids R h b"
  shows "\<exists>j \<le> k. (0, h) \<in> (edge_rel R n) ^^ j"
  using assms(2,3)
proof (induction k arbitrary: b)
  case 0
  then have "b = 0" by simp
  with 0 have "h = 0" by (metis avoids.start)
  then show ?case by (intro exI [of _ 0]) simp
next
  case (Suc k)
  then obtain u where u: "(0, u) \<in> (edge_rel R n) ^^ k" "(u, b) \<in> edge_rel R n" by auto
  show ?case
  proof (cases "b = h")
    case True
    with Suc.prems(1) show ?thesis by blast
  next
    case False
    from u(2) have "u < length (re_succs R)" "b \<in> set (re_succs R ! u)" using assms(1) by (auto simp: edge_rel_def edges_of_def)
    with False Suc.prems(2) have "\<not> avoids R h u" by (blast intro: avoids.edge)
    from Suc.IH [OF u(1) this] show ?thesis by (meson le_SucI)
  qed
qed

text \<open>A shortest path from the entry has no back edge.\<close>

lemma reachable_forward:
  assumes "edges_of R n" and doms: "\<forall>d b. doms d b \<longrightarrow> \<not> avoids R d b" and "(0, b) \<in> (edge_rel R n)\<^sup>*"
  shows "(0, b) \<in> (forward_rel doms R n)\<^sup>*"
proof -
  have "(0, b) \<in> (forward_rel doms R n)\<^sup>*" if "(0, b) \<in> (edge_rel R n) ^^ k" "\<forall>j < k. (0, b) \<notin> (edge_rel R n) ^^ j" for k b
    using that
  proof (induction k arbitrary: b)
    case (Suc k)
    then obtain u where u: "(0, u) \<in> (edge_rel R n) ^^ k" "(u, b) \<in> edge_rel R n" by auto
    have "\<forall>j < k. (0, u) \<notin> (edge_rel R n) ^^ j"
    proof (intro allI impI notI)
      fix j assume "j < k" "(0, u) \<in> (edge_rel R n) ^^ j"
      with u(2) have "(0, b) \<in> (edge_rel R n) ^^ Suc j" by auto
      with \<open>j < k\<close> Suc.prems(2) show False by blast
    qed
    with Suc.IH u(1) have "(0, u) \<in> (forward_rel doms R n)\<^sup>*" by blast
    moreover have "\<not> doms b u"
    proof
      assume "doms b u"
      with doms passes_within [OF assms(1) u(1)] obtain j where "j \<le> k" "(0, b) \<in> (edge_rel R n) ^^ j" by blast
      with Suc.prems(2) show False by (simp add: less_Suc_eq_le)
    qed
    with u(2) have "(u, b) \<in> forward_rel doms R n" by (simp add: forward_rel_def edge_rel_def)
    ultimately show ?case by (rule rtrancl_into_rtrancl)
  qed simp
  moreover obtain k where "(0, b) \<in> (edge_rel R n) ^^ k" "\<forall>j < k. (0, b) \<notin> (edge_rel R n) ^^ j"
    using rtrancl_imp_relpow [OF assms(3)] exists_least_iff [of "\<lambda>k. (0, b) \<in> (edge_rel R n) ^^ k"] by blast
  ultimately show ?thesis by blast
qed

text \<open>Walking back from the source of a back edge meets every block of a path to it, up to the head.\<close>

lemma backward_walk_edge_rel:
  assumes "edges_of R n" and "s < n" and "backward_walk R h s b"
  shows "(b, s) \<in> (edge_rel R n)\<^sup>* \<and> b < n"
  using assms(3)
proof induction
  case (step c p)
  then have "(p, c) \<in> edge_rel R n" "p < n" using assms(1) by (auto simp: edges_of_def edge_rel_def)
  with step.IH show ?case by (blast intro: converse_rtrancl_into_rtrancl)
qed (simp add: assms(2))

lemma backward_walk_closed:
  assumes "edges_of R n" and "(b, c) \<in> edge_rel R n" and "c < n" and "backward_walk R h s c" and "c \<noteq> h \<or> c = s"
  shows "backward_walk R h s b"
  using assms by (intro backward_walk.step [OF assms(4,5)]) (auto simp: edges_of_def edge_rel_def)

lemma walk_reaches_head:
  assumes R: "edges_of R n" and s: "s < n" "(0, s) \<in> (edge_rel R n)\<^sup>*" and h: "\<not> avoids R h s"
  shows "backward_walk R h s h"
proof (rule ccontr)
  assume no: "\<not> backward_walk R h s h"
  have "backward_walk R h s b \<and> b < n" if "(b, s) \<in> (edge_rel R n)\<^sup>*" for b
    using that
  proof (induction rule: converse_rtrancl_induct)
    case base
    then show ?case using s(1) by (simp add: backward_walk.source)
  next
    case (step b c)
    then have "c \<noteq> h" using no by blast
    with step show ?case by (auto intro: backward_walk_closed [OF R] simp: edge_rel_def)
  qed
  then have "(h, s) \<notin> (edge_rel R n)\<^sup>*" using no by blast
  with avoids_or_passes [OF R s(2) subset_refl, of h] h show False by blast
qed

text \<open>
  What the dominator tree of a reducible control-flow graph guarantees: a dominator of a block lies
  on a path to it, so that the walk back from the source of a back edge meets the head, and the
  other edges have no cycle.
\<close>

definition dominators_ok :: "(basic_block \<Rightarrow> basic_block \<Rightarrow> bool) \<Rightarrow> real_edges \<Rightarrow> nat \<Rightarrow> bool" where
  "dominators_ok doms R n \<longleftrightarrow>
     (\<forall>(s, h) \<in> back_edges_of doms R n. backward_walk R h s h) \<and>
     acyclic {(u, v). u < n \<and> v \<in> set (re_succs R ! u) \<and> \<not> doms v u}"

lemma dominance_dominators:
  assumes R: "edges_of R n" and ok: "dominance_ok doms R n"
  shows "dominators_ok doms R n"
  unfolding dominators_ok_def
proof (intro conjI ballI case_prodI2)
  show "acyclic {(u, v). u < n \<and> v \<in> set (re_succs R ! u) \<and> \<not> doms v u}"
    using ok by (simp add: dominance_ok_def forward_rel_def)
  fix e s h assume e: "e \<in> back_edges_of doms R n" "e = (s, h)"
  then have "s < n" "\<not> avoids R h s" "(0, s) \<in> (edge_rel R n)\<^sup>*"
    using ok by (auto simp: dominance_ok_def back_edges_of_def)
  then show "backward_walk R h s h" by (intro walk_reaches_head [OF R])
qed

text \<open>All blocks in a topological order of the forward edges; the blocks of a loop in that order.\<close>

definition block_rank :: "basic_block list \<Rightarrow> basic_block \<Rightarrow> nat" where
  "block_rank order b = length (takeWhile ((\<noteq>) b) order)"

definition forward_order :: "(basic_block \<Rightarrow> basic_block \<Rightarrow> bool) \<Rightarrow> real_edges \<Rightarrow> nat \<Rightarrow> basic_block list \<Rightarrow> bool" where
  "forward_order doms R n order \<longleftrightarrow>
     distinct order \<and> set order = {..<n} \<and>
     (\<forall>xs u ys v. order = xs @ u # ys \<longrightarrow> (u, v) \<in> forward_rel doms R n \<longrightarrow> v \<in> set ys)"

definition ordered_body ::
  "(basic_block \<Rightarrow> basic_block \<Rightarrow> bool) \<Rightarrow> real_edges \<Rightarrow> nat \<Rightarrow> basic_block list \<Rightarrow> basic_block \<Rightarrow> basic_block list \<Rightarrow> bool" where
  "ordered_body doms R n order h bs \<longleftrightarrow>
     (\<exists>s. (s, h) \<in> back_edges_of doms R n) \<and> distinct bs \<and> set bs = loop_blocks R (back_edges_of doms R n) h \<and>
     sorted (map (block_rank order) bs)"

definition loops_ok ::
  "(basic_block \<Rightarrow> basic_block \<Rightarrow> bool) \<Rightarrow> real_edges \<Rightarrow> nat \<Rightarrow> procedure_loops \<Rightarrow> bool" where
  "loops_ok doms R n L \<longleftrightarrow>
     (\<forall>h. is_loop_head L h \<longleftrightarrow> (\<exists>s. (s, h) \<in> back_edges_of doms R n)) \<and>
     (\<exists>order. forward_order doms R n order \<and>
        (\<forall>h. case get_loop_body L h of
           None \<Rightarrow> \<not> is_loop_head L h
         | Some bs \<Rightarrow> ordered_body doms R n order h bs)) \<and>
     (\<forall>b. case get_loop_head L b of
         None \<Rightarrow> heads_around doms R n b = {}
       | Some h \<Rightarrow> h \<in> heads_around doms R n b \<and>
           (\<forall>h' \<in> heads_around doms R n b. card (heads_around doms R n h') \<le> card (heads_around doms R n h)))"

text \<open>Forward edges lead to later blocks.\<close>

lemma forward_rank:
  assumes o: "forward_order doms R n order" and "(u, v) \<in> forward_rel doms R n"
  shows "block_rank order u < block_rank order v"
proof -
  have "u \<in> set order" using assms by (auto simp: forward_order_def forward_rel_def)
  then obtain xs ys where order: "order = xs @ u # ys" by (auto simp: in_set_conv_decomp)
  with assms have v: "v \<in> set ys" by (auto simp: forward_order_def)
  with o order have "v \<notin> set xs" "v \<noteq> u" "u \<notin> set xs" by (auto simp: forward_order_def)
  then have "takeWhile ((\<noteq>) u) order = xs" "length xs < length (takeWhile ((\<noteq>) v) order)"
    using order by (auto simp: takeWhile_append takeWhile_eq_all_conv)
  then show ?thesis by (simp add: block_rank_def)
qed

lemma forward_path_rank:
  "\<lbrakk>forward_order doms R n order; (u, v) \<in> (forward_rel doms R n)\<^sup>+\<rbrakk> \<Longrightarrow> block_rank order u < block_rank order v"
  by (erule trancl_induct) (auto dest: forward_rank)

lemma sorted_key_head: "\<lbrakk>sorted (map f bs); b \<in> set bs\<rbrakk> \<Longrightarrow> bs \<noteq> [] \<and> (f (hd bs) :: nat) \<le> f b"
  by (cases bs) auto

lemma sorted_key_before: "\<lbrakk>sorted (map f (xs @ b # ys)); p \<in> set (xs @ b # ys); (f p :: nat) < f b\<rbrakk> \<Longrightarrow> p \<in> set xs"
  by (auto simp: sorted_append)

lemma ordered_body_first:
  "\<lbrakk>ordered_body doms R n order h bs; b \<in> set bs\<rbrakk> \<Longrightarrow> bs \<noteq> [] \<and> block_rank order (hd bs) \<le> block_rank order b"
  unfolding ordered_body_def by (elim conjE) (rule sorted_key_head)

lemma ordered_body_before:
  assumes "ordered_body doms R n order h (xs @ b # ys)" and "p \<in> set (xs @ b # ys)" and "block_rank order p < block_rank order b"
  shows "p \<in> set xs"
  using assms(1) sorted_key_before [OF _ assms(2,3)] unfolding ordered_body_def by blast

lemma forward_in_edge_rel: "forward_rel doms R n \<subseteq> edge_rel R n"
  by (auto simp: forward_rel_def edge_rel_def)

text \<open>The blocks of a loop with no self loop: dominated by the head and reached from it by forward edges.\<close>

lemma loop_block_from_head:
  assumes R: "edges_of R n" and ok: "dominance_ok doms R n" and no_self: "h \<notin> set (re_succs R ! h)"
    and b: "b \<in> loop_blocks R (back_edges_of doms R n) h"
  shows "\<not> avoids R h b" and "(h, b) \<in> (forward_rel doms R n)\<^sup>*"
proof -
  from b obtain s where s: "(s, h) \<in> back_edges_of doms R n" "backward_walk R h s b" by (auto simp: loop_blocks_def)
  then have sh: "s < n" "s \<noteq> h" "\<not> avoids R h s"
    using ok no_self by (auto simp: back_edges_of_def dominance_ok_def)
  show dom: "\<not> avoids R h b" by (rule loop_body_dominated [OF R sh(2,3) s(2)])
  from backward_walk_edge_rel [OF R sh(1) s(2)] s(1) ok have "(0, b) \<in> (edge_rel R n)\<^sup>*"
    by (auto simp: dominance_ok_def)
  then have "(0, b) \<in> (forward_rel doms R n)\<^sup>*" using ok by (intro reachable_forward [OF R]) (auto simp: dominance_ok_def)
  from avoids_or_passes [OF R this forward_in_edge_rel, of h] dom show "(h, b) \<in> (forward_rel doms R n)\<^sup>*" by blast
qed

lemma head_in_loop:
  assumes "edges_of R n" and "dominance_ok doms R n" and "(s, h) \<in> back_edges_of doms R n"
  shows "h \<in> loop_blocks R (back_edges_of doms R n) h"
  using dominance_dominators [OF assms(1,2)] assms(3) by (auto simp: dominators_ok_def loop_blocks_def)

lemma ordered_body_head:
  assumes R: "edges_of R n" and ok: "dominance_ok doms R n" and no_self: "h \<notin> set (re_succs R ! h)"
    and o: "forward_order doms R n order" and bs: "ordered_body doms R n order h bs"
  shows "bs \<noteq> [] \<and> hd bs = h"
proof -
  have "h \<in> set bs" using bs head_in_loop [OF R ok] by (auto simp: ordered_body_def)
  note first = ordered_body_first [OF bs this]
  then have "hd bs \<in> loop_blocks R (back_edges_of doms R n) h" using bs by (auto simp: ordered_body_def dest: hd_in_set)
  from loop_block_from_head(2) [OF R ok no_self this] have "h = hd bs \<or> (h, hd bs) \<in> (forward_rel doms R n)\<^sup>+"
    by (auto dest: rtranclD)
  with forward_path_rank [OF o] first show ?thesis by fastforce
qed

lemma ordered_body_entered:
  assumes R: "edges_of R n" and ok: "dominance_ok doms R n" and no_self: "h \<notin> set (re_succs R ! h)"
    and o: "forward_order doms R n order" and bs: "ordered_body doms R n order h bs"
  shows "entered_in_order R (back_edges_of doms R n) h bs"
  unfolding entered_in_order_def
proof (intro allI impI)
  fix xs b ys assume split: "bs = xs @ b # ys" and "b \<noteq> h"
  then have b: "b \<in> loop_blocks R (back_edges_of doms R n) h" using bs by (auto simp: ordered_body_def)
  from loop_block_from_head(2) [OF R ok no_self b] \<open>b \<noteq> h\<close> obtain p where
    p: "(p, b) \<in> forward_rel doms R n" by (metis rtranclE)
  from b obtain s where s: "(s, h) \<in> back_edges_of doms R n" "backward_walk R h s b" by (auto simp: loop_blocks_def)
  then have "s < n" by (simp add: back_edges_of_def)
  then have "b < n" using backward_walk_edge_rel [OF R _ s(2)] by blast
  have "backward_walk R h s p"
    using p \<open>b \<noteq> h\<close> forward_in_edge_rel by (intro backward_walk_closed [OF R _ \<open>b < n\<close> s(2)]) auto
  then have "p \<in> set bs" using s(1) bs by (auto simp: ordered_body_def loop_blocks_def)
  then have "p \<in> set xs"
    using ordered_body_before [of doms R n order h xs b ys p] bs split forward_rank [OF o p] by simp
  with p show "\<exists>p \<in> set xs. b \<in> set (re_succs R ! p) \<and> (p, b) \<notin> back_edges_of doms R n"
    by (auto simp: forward_rel_def back_edges_of_def)
qed

text \<open>With a self loop the entry block is in the body, before the head.\<close>

lemma self_loop_back_edge:
  assumes "dominance_ok doms R n" and "h < n" and "h \<in> set (re_succs R ! h)"
  shows "(h, h) \<in> back_edges_of doms R n"
proof (rule ccontr)
  assume "(h, h) \<notin> back_edges_of doms R n"
  with assms have "(h, h) \<in> forward_rel doms R n" by (simp add: back_edges_of_def forward_rel_def)
  with assms(1) show False by (auto simp: dominance_ok_def acyclic_def)
qed

lemma self_loop_entry:
  assumes R: "edges_of R n" and ok: "dominance_ok doms R n" and h: "h < n" "h \<in> set (re_succs R ! h)"
  shows "0 \<in> loop_blocks R (back_edges_of doms R n) h" and "(0, h) \<in> (forward_rel doms R n)\<^sup>+"
proof -
  note loop = self_loop_back_edge [OF ok h]
  with ok have reach: "(0, h) \<in> (edge_rel R n)\<^sup>*" by (auto simp: dominance_ok_def)
  have "backward_walk R h h b" if "(b, h) \<in> (edge_rel R n)\<^sup>*" for b
    using that
  proof (induction rule: converse_rtrancl_induct)
    case (step b c)
    moreover from step have "c < n" using backward_walk_edge_rel [OF R h(1)] by blast
    ultimately show ?case by (intro backward_walk_closed [OF R, of b c]) auto
  qed (rule backward_walk.source)
  with reach loop show "0 \<in> loop_blocks R (back_edges_of doms R n) h" by (auto simp: loop_blocks_def)
  have "h \<noteq> 0"
  proof
    assume "h = 0"
    with ok h show False unfolding dominance_ok_def by blast
  qed
  moreover have "(0, h) \<in> (forward_rel doms R n)\<^sup>*" using ok by (intro reachable_forward [OF R _ reach]) (simp add: dominance_ok_def)
  ultimately show "(0, h) \<in> (forward_rel doms R n)\<^sup>+" by (metis rtranclD)
qed

lemma self_loop_not_first:
  assumes "edges_of R n" and "dominance_ok doms R n" and "h < n" and "h \<in> set (re_succs R ! h)"
    and o: "forward_order doms R n order" and bs: "ordered_body doms R n order h bs"
  shows "hd bs \<noteq> h"
proof -
  have "0 \<in> set bs" using self_loop_entry(1) [OF assms(1-4)] bs by (simp add: ordered_body_def)
  from ordered_body_first [OF bs this] forward_path_rank [OF o self_loop_entry(2) [OF assms(1-4)]] show ?thesis by auto
qed

lemma procedure_loops_new_result:
  assumes R: "edges_of R (n_blocks m)" and doms: "dominators_ok doms R (n_blocks m)"
  shows "\<exists>order bodies. forward_order doms R (n_blocks m) order \<and>
    (\<forall>h. case bodies h of
        None \<Rightarrow> \<forall>s. (s, h) \<notin> back_edges_of doms R (n_blocks m)
      | Some bs \<Rightarrow> ordered_body doms R (n_blocks m) order h bs) \<and>
    (dbg \<and> (\<exists>h bs. bodies h = Some bs \<and> (bs = [] \<or> hd bs \<noteq> h)) \<longrightarrow> procedure_loops_new dbg doms m R = Panic) \<and>
    ((dbg \<longrightarrow> (\<forall>h bs. bodies h = Some bs \<longrightarrow> bs \<noteq> [] \<and> hd bs = h \<and> entered_in_order R (back_edges_of doms R (n_blocks m)) h bs)) \<longrightarrow>
       (\<exists>L. procedure_loops_new dbg doms m R = Ok L \<and> get_loop_body L = bodies \<and> loops_ok doms R (n_blocks m) L))"
proof -
  let ?n = "n_blocks m" and ?B = "back_edges_of doms R (n_blocks m)"
  from find_back_edges_result [OF R, of doms] obtain bes where
    bes: "find_back_edges doms R ?n = Some bes" "set bes = ?B" by (auto simp: back_edges_of_def)
  have "\<forall>(s, h) \<in> set bes. s < ?n" unfolding bes by (auto simp: back_edges_of_def)
  from build_loop_bodies_result [OF R this] bes(2) obtain bodies where
    bodies: "build_loop_bodies R bes = Ok bodies" "bodies_ok R ?n ?B bodies" by auto
  let ?hs = "enclosing_heads_set bodies" and ?heads = "bs_from (bm_keys bodies)"
  have bm: "bm_ok bodies" using bodies(2) by (simp add: bodies_ok_def)
  have at: "case bm_get bodies h of
         None \<Rightarrow> \<forall>source. (source, h) \<notin> ?B
       | Some b \<Rightarrow> (\<exists>source. (source, h) \<in> ?B) \<and> bs_ok b \<and> set b = loop_blocks R ?B h
           \<and> set b \<subseteq> {..<?n} \<and> closed_body R h (set b)" for h
    using bodies(2) by (simp add: bodies_ok_def)
  have body: "bm_get bodies h = None \<longleftrightarrow> (\<forall>s. (s, h) \<notin> ?B)"
    "bm_get bodies h = Some b \<Longrightarrow> bs_ok b \<and> set b = loop_blocks R ?B h \<and> set b \<subseteq> {..<?n}" for h b
    using at [of h] by (cases "bm_get bodies h"; simp)+
  have heads: "h \<in> set ?heads \<longleftrightarrow> (\<exists>s. (s, h) \<in> ?B)" for h
    using body(1) [of h] by (auto simp: bm_get_keys [symmetric])
  have distinct_heads: "distinct ?heads" using bs_ok_from [of "bm_keys bodies"] by (simp add: bs_ok_def)
  note hs = enclosing_heads_set_result [of bodies]
  have around: "heads_of ?hs b = heads_around doms R ?n b" for b
  proof -
    have "b \<in> loop_blocks R ?B h \<longleftrightarrow> (\<exists>body. (h, body) \<in> set bodies \<and> b \<in> set body)" for h
    proof
      assume L: "b \<in> loop_blocks R ?B h"
      then obtain c where "bm_get bodies h = Some c" using body(1) [of h] by (auto simp: loop_blocks_def)
      with L body(2) bm_get_entry [OF bm] show "\<exists>body. (h, body) \<in> set bodies \<and> b \<in> set body" by blast
    next
      assume "\<exists>body. (h, body) \<in> set bodies \<and> b \<in> set body"
      with body(2) bm_get_entry [OF bm] show "b \<in> loop_blocks R ?B h" by blast
    qed
    with hs [of b] show ?thesis by (auto simp: heads_around_def)
  qed
  have hs_entry: "bm_get ?hs b = None \<longleftrightarrow> heads_around doms R ?n b = {}"
    "bm_get ?hs b = Some xs \<Longrightarrow> distinct xs \<and> set xs = heads_around doms R ?n b \<and> xs \<noteq> []" for b xs
    using hs [of b] heads_ok_entry [of ?hs b] around [of b]
    by (auto simp: heads_ok_def bs_ok_def heads_of_def)
  have own: "h \<in> heads_around doms R ?n h" if "h \<in> set ?heads" for h
    using that doms heads [of h] by (auto simp: dominators_ok_def heads_around_def loop_blocks_def)
  have head_of: "h \<in> set ?heads" if "h \<in> heads_around doms R ?n b" for h b
    using that heads [of h] by (auto simp: heads_around_def loop_blocks_def)
  have "\<forall>h \<in> set ?heads. bm_get ?hs h \<noteq> None" using own hs_entry(1) by blast
  from head_depths_result [OF distinct_heads this] obtain depths where
    depths: "head_depths ?hs ?heads = Ok depths"
    "\<And>h. bm_get depths h = (if h \<in> set ?heads then map_option length (bm_get ?hs h) else None)" by blast
  have depth: "bm_get depths h = Some (card (heads_around doms R ?n h))" if "h \<in> set ?heads" for h
  proof -
    from own [OF that] hs_entry(1) [of h] obtain a where a: "bm_get ?hs h = Some a" by blast
    with hs_entry(2) [OF a] have "card (heads_around doms R ?n h) = length a" using distinct_card by metis
    with a depths(2) [of h] that show ?thesis by simp
  qed
  have hs_bm: "bm_ok ?hs" using hs by (simp add: heads_ok_def)
  have "\<forall>(k, xs) \<in> set ?hs. \<forall>x \<in> set xs. bm_get depths x \<noteq> None"
  proof (intro ballI case_prodI2)
    fix p k xs x assume "p \<in> set ?hs" "p = (k, xs)" "x \<in> set xs"
    then have "x \<in> heads_around doms R ?n k" using hs_entry(2) bm_get_entry [OF hs_bm] by blast
    with depth head_of show "bm_get depths x \<noteq> None" by simp
  qed
  from sorted_entries_result [OF hs_bm this] obtain enclosing where
    enclosing: "sorted_entries depths ?hs = Ok enclosing"
    "\<And>k. bm_get enclosing k = map_option (sort_key (\<lambda>x. the (bm_get depths x))) (bm_get ?hs k)" by blast
  have enc: "bm_get enclosing b = Some xs \<Longrightarrow> set xs = heads_around doms R ?n b \<and> xs \<noteq> []
      \<and> sorted (map (\<lambda>x. the (bm_get depths x)) xs)" for b xs
  proof -
    assume L: "bm_get enclosing b = Some xs"
    then obtain ys where ys: "bm_get ?hs b = Some ys" "xs = sort_key (\<lambda>x. the (bm_get depths x)) ys"
      using enclosing(2) [of b] by auto
    then have "xs \<noteq> []" using hs_entry(2) [OF ys(1)] by (metis set_sort set_empty)
    with ys hs_entry(2) [OF ys(1)] show ?thesis by (simp add: sorted_sort_key)
  qed
  let ?depth = "loop_depth depths enclosing"
  have depth_def: "?depth b \<noteq> None" for b
  proof (cases "bm_get enclosing b")
    case (Some xs)
    with enc have "last xs \<in> heads_around doms R ?n b" by (metis last_in_set)
    with Some enc depth head_of show ?thesis by (simp add: loop_depth_def)
  qed (simp add: loop_depth_def)
  let ?E = "\<lparr>oe_count = ?n, oe_edges = R, oe_back = bes, oe_depth = ?depth\<rparr>"
  have E: "order_env_ok ?E" using R depth_def by (simp add: order_env_ok_def)
  have forward: "forward ?E = {(u, v). u < ?n \<and> v \<in> set (re_succs R ! u) \<and> \<not> doms v u}"
    using bes(2) by (auto simp: forward_def back_edges_of_def)
  have "acyclic (forward ?E)" unfolding forward using doms by (simp add: dominators_ok_def)
  with order_basic_blocks_result [OF E] obtain order where
    order: "order_basic_blocks ?E = Ok order" "distinct order" "set order = {..<?n}" "topological ?E order"
    by (auto split: outcome.splits fuel.splits)
  have order_ok: "forward_order doms R ?n order"
    using order(2-4) forward by (auto simp: forward_order_def topological_def forward_rel_def)
  have pos: "bm_get (positions order) b = (if b < ?n then Some (block_rank order b) else None)" for b
    using positions_result [OF order(2)] order(3) by (simp add: block_rank_def)
  let ?key = "\<lambda>x. the (bm_get (positions order) x)"
  have keys: "\<forall>(k, xs) \<in> set bodies. \<forall>x \<in> set xs. bm_get (positions order) x \<noteq> None"
    using body(2) bm_get_entry [OF bm] pos by fastforce
  from sorted_entries_result [OF bm keys] obtain ordered where
    ordered: "sorted_entries (positions order) bodies = Ok ordered"
    "\<And>k. bm_get ordered k = map_option (sort_key ?key) (bm_get bodies k)" by blast
  have body_at: "ordered_body doms R ?n order h bs" if bs: "bm_get ordered h = Some bs" for h bs
  proof -
    from bs ordered(2) [of h] obtain b where b: "bm_get bodies h = Some b" "bs = sort_key ?key b" by auto
    note bo = body(2) [OF b(1)]
    have "map ?key bs = map (block_rank order) bs" using bo b(2) pos by (intro map_cong) auto
    moreover have "sorted (map ?key bs)" unfolding b(2) by (rule sorted_sort_key)
    ultimately have "sorted (map (block_rank order) bs)" by (simp only:)
    moreover have "\<exists>s. (s, h) \<in> ?B" using body(1) [of h] b(1) by auto
    ultimately show ?thesis using bo b(2) by (simp add: ordered_body_def bs_ok_def)
  qed
  have no_body: "\<forall>s. (s, h) \<notin> ?B" if "bm_get ordered h = None" for h
    using that ordered(2) [of h] body(1) [of h] by simp
  have wrong: "(\<exists>(h, body) \<in> set bodies. let xs = sort_key ?key body in xs = [] \<or> hd xs \<noteq> h)
      \<longleftrightarrow> (\<exists>h bs. bm_get ordered h = Some bs \<and> (bs = [] \<or> hd bs \<noteq> h))"
    by (auto simp: Let_def Bex_def ordered(2) bm_get_entry [OF bm, symmetric])
  note sorted = order_loop_bodies_sorted [OF keys, of dbg, unfolded wrong ordered(1)]
  have body_blocks: "b < ?n" if "bm_get ordered h = Some bs" "b \<in> set bs" for h bs b
  proof -
    from that(1) ordered(2) [of h] obtain a where "bm_get bodies h = Some a" "bs = sort_key ?key a" by auto
    with body(2) [OF this(1)] that(2) show ?thesis by auto
  qed
  let ?L = "\<lparr>loop_heads = ?heads, loop_bodies = bodies, ordered_loop_bodies = ordered, enclosing_loop_heads = enclosing\<rparr>"
  have bodies_case: "\<forall>h. case bm_get ordered h of None \<Rightarrow> \<forall>s. (s, h) \<notin> ?B | Some bs \<Rightarrow> ordered_body doms R ?n order h bs"
    using body_at no_body by (simp split: option.split)
  have panics: "procedure_loops_new dbg doms m R = Panic" if "dbg" "\<exists>h bs. bm_get ordered h = Some bs \<and> (bs = [] \<or> hd bs \<noteq> h)"
  proof -
    have "order_loop_bodies dbg (positions order) bodies = Panic" using that sorted by simp
    then show ?thesis by (simp add: procedure_loops_new_def bes bodies depths(1) enclosing(1) order(1) Let_def)
  qed
  have returns: "procedure_loops_new dbg doms m R = Ok ?L"
    if good: "dbg \<Longrightarrow> \<forall>h bs. bm_get ordered h = Some bs \<longrightarrow> bs \<noteq> [] \<and> hd bs = h \<and> entered_in_order R ?B h bs"
  proof -
    have sort: "order_loop_bodies dbg (positions order) bodies = Ok ordered" using sorted good by auto
    have "\<exists>es. loop_exit_blocks dbg m R ?depth bes depths bodies ordered ?heads = Ok es"
    proof (rule loop_exit_blocks_defined, intro ballI conjI)
      fix h assume h: "h \<in> set ?heads"
      with depth show "bm_get depths h \<noteq> None" by simp
      from h heads body(1) obtain b where b: "bm_get bodies h = Some b" by fastforce
      with ordered(2) [of h] have bs: "bm_get ordered h = Some (sort_key ?key b)" by simp
      have "\<forall>x \<in> set (sort_key ?key b). terminator_at m x \<noteq> None
          \<and> (\<exists>ss. re_successors R x = Some ss \<and> (\<forall>s \<in> set ss. ?depth s \<noteq> None))"
        using body_blocks [OF bs] R depth_def by (auto simp: terminator_at_def re_successors_def edges_of_def)
      moreover have "dbg \<longrightarrow> distinct (sort_key ?key b) \<and> set (sort_key ?key b) \<subseteq> set b
          \<and> entered_in_order R (set bes) h (sort_key ?key b)"
        using body(2) [OF b] good bs bes(2) by (auto simp: bs_ok_def)
      ultimately show "\<exists>body. bm_get bodies h = Some body \<and> (\<exists>bs. bm_get ordered h = Some bs
        \<and> (\<forall>b \<in> set bs. terminator_at m b \<noteq> None \<and> (\<exists>ss. re_successors R b = Some ss \<and> (\<forall>s \<in> set ss. ?depth s \<noteq> None)))
        \<and> (dbg \<longrightarrow> distinct bs \<and> set bs \<subseteq> set body \<and> entered_in_order R (set bes) h bs))"
        using b bs by blast
    qed
    then obtain es where "loop_exit_blocks dbg m R ?depth bes depths bodies ordered ?heads = Ok es" ..
    with sort show ?thesis
      by (simp add: procedure_loops_new_def bes bodies depths(1) enclosing(1) order(1) Let_def)
  qed
  have "loops_ok doms R ?n ?L"
    unfolding loops_ok_def
  proof (intro conjI allI)
    show is_head: "is_loop_head ?L h \<longleftrightarrow> (\<exists>s. (s, h) \<in> ?B)" for h by (simp add: is_loop_head_def heads del: set_bs_from)
    have "case get_loop_body ?L h of None \<Rightarrow> \<not> is_loop_head ?L h | Some bs \<Rightarrow> ordered_body doms R ?n order h bs" for h
      using body_at [of h] no_body [of h] is_head [of h] by (simp add: get_loop_body_def split: option.split)
    with order_ok show "\<exists>order. forward_order doms R ?n order \<and>
        (\<forall>h. case get_loop_body ?L h of None \<Rightarrow> \<not> is_loop_head ?L h | Some bs \<Rightarrow> ordered_body doms R ?n order h bs)"
      by blast
  next
    fix b show "case get_loop_head ?L b of
         None \<Rightarrow> heads_around doms R ?n b = {}
       | Some h \<Rightarrow> h \<in> heads_around doms R ?n b \<and>
           (\<forall>h' \<in> heads_around doms R ?n b. card (heads_around doms R ?n h') \<le> card (heads_around doms R ?n h))"
    proof (cases "bm_get enclosing b")
      case None
      then have "heads_around doms R ?n b = {}" using enclosing(2) [of b] hs_entry(1) [of b] by auto
      with None show ?thesis by (simp add: get_loop_head_def)
    next
      case (Some xs)
      note xs = enc [OF Some]
      have card: "the (bm_get depths h) = card (heads_around doms R ?n h)" if "h \<in> set xs" for h
        using that xs depth head_of by auto
      obtain ys where ys: "xs = ys @ [last xs]" using xs by (metis append_butlast_last_id)
      have "\<forall>h' \<in> set xs. the (bm_get depths h') \<le> the (bm_get depths (last xs))"
        using xs by (subst ys) (subst (asm) ys, auto simp: sorted_append)
      moreover have "last xs \<in> set xs" using xs last_in_set by blast
      ultimately show ?thesis using xs card Some by (auto simp: get_loop_head_def)
    qed
  qed
  moreover have "get_loop_body ?L = bm_get ordered" by (simp add: get_loop_body_def fun_eq_iff)
  ultimately show ?thesis using order_ok bodies_case panics returns
    by (intro exI [of _ order] exI [of _ "bm_get ordered"] conjI impI) blast+
qed

text \<open>
  C9. The loop information of a body whose dominators are on every path from the entry to their blocks, whose blocks that
  reach the source of a back edge are reachable, with no edge to the entry and no cycle of forward edges
  (\<open>dominance_ok\<close>), when no block jumps to itself. The construction returns without a panic,
  with debug assertions on or off; the loop heads are exactly the targets of back edges; the body of a loop lists the
  blocks of all its back edges in a topological order of the forward edges, starts with the head, and the head is on
  every path to each of its blocks; and the head reported for a block is the one with the most loops around it among
  those whose loop contains it. When some block jumps to itself, the assertion that a body starts with its head fails:
  its loop is given the blocks before it, the entry block included.
\<close>

theorem procedure_loops_new_spec:
  assumes "edges_of R (n_blocks m)" and "dominance_ok doms R (n_blocks m)"
  shows "if \<exists>b < n_blocks m. b \<in> set (re_succs R ! b)
    then procedure_loops_new True doms m R = Panic
    else \<exists>L. procedure_loops_new dbg doms m R = Ok L \<and> loops_ok doms R (n_blocks m) L \<and>
      (\<forall>h bs. get_loop_body L h = Some bs \<longrightarrow> bs \<noteq> [] \<and> hd bs = h \<and> (\<forall>b \<in> set bs. \<not> avoids R h b))"
proof (cases "\<exists>b < n_blocks m. b \<in> set (re_succs R ! b)")
  case True
  then obtain h where h: "h < n_blocks m" "h \<in> set (re_succs R ! h)" by blast
  from procedure_loops_new_result [OF assms(1) dominance_dominators [OF assms], of True] obtain order bodies where
    order: "forward_order doms R (n_blocks m) order" and
    bodies: "\<And>h. case bodies h of None \<Rightarrow> \<forall>s. (s, h) \<notin> back_edges_of doms R (n_blocks m)
      | Some bs \<Rightarrow> ordered_body doms R (n_blocks m) order h bs" and
    panic: "(\<exists>h bs. bodies h = Some bs \<and> (bs = [] \<or> hd bs \<noteq> h)) \<longrightarrow> procedure_loops_new True doms m R = Panic"
    by blast
  from self_loop_back_edge [OF assms(2) h] bodies [of h] obtain bs where
    "bodies h = Some bs" "ordered_body doms R (n_blocks m) order h bs" by (auto split: option.splits)
  with self_loop_not_first [OF assms h order] panic True show ?thesis by auto
next
  case False
  from procedure_loops_new_result [OF assms(1) dominance_dominators [OF assms], of dbg] obtain order bodies where
    order: "forward_order doms R (n_blocks m) order" and
    bodies: "\<And>h. case bodies h of None \<Rightarrow> \<forall>s. (s, h) \<notin> back_edges_of doms R (n_blocks m)
      | Some bs \<Rightarrow> ordered_body doms R (n_blocks m) order h bs" and
    returns: "(dbg \<longrightarrow> (\<forall>h bs. bodies h = Some bs \<longrightarrow> bs \<noteq> [] \<and> hd bs = h
        \<and> entered_in_order R (back_edges_of doms R (n_blocks m)) h bs)) \<longrightarrow>
      (\<exists>L. procedure_loops_new dbg doms m R = Ok L \<and> get_loop_body L = bodies \<and> loops_ok doms R (n_blocks m) L)"
    by blast
  have good: "bs \<noteq> [] \<and> hd bs = h \<and> entered_in_order R (back_edges_of doms R (n_blocks m)) h bs \<and> (\<forall>b \<in> set bs. \<not> avoids R h b)"
    if "bodies h = Some bs" for h bs
  proof -
    from bodies [of h] that have bs: "ordered_body doms R (n_blocks m) order h bs" by simp
    then obtain s where "(s, h) \<in> back_edges_of doms R (n_blocks m)" by (auto simp: ordered_body_def)
    then have "h < n_blocks m" using assms(1) by (auto simp: back_edges_of_def edges_of_def)
    with False have no_self: "h \<notin> set (re_succs R ! h)" by blast
    from ordered_body_head [OF assms no_self order bs] ordered_body_entered [OF assms no_self order bs]
      loop_block_from_head(1) [OF assms no_self] bs show ?thesis by (auto simp: ordered_body_def)
  qed
  with returns obtain L where "procedure_loops_new dbg doms m R = Ok L" "get_loop_body L = bodies" "loops_ok doms R (n_blocks m) L"
    by blast
  with good False show ?thesis by auto
qed

text \<open>A loop of blocks 1 and 2 entered from block 0.\<close>

definition loop_body :: body where
  "loop_body = \<lparr>basic_blocks =
      [\<lparr>statements = [], terminator = Goto 1\<rparr>, \<lparr>statements = [], terminator = Goto 2\<rparr>,
       \<lparr>statements = [], terminator = Goto 1\<rparr>], local_count = 1, arg_count = 0\<rparr>"

abbreviation loop_edges :: real_edges where
  "loop_edges \<equiv> \<lparr>re_succs = [[1], [2], [1]], re_preds = [[], [0, 2], [1]]\<rparr>"

lemma loop_edges_rel: "edge_rel loop_edges 3 = {(0, 1), (1, 2), (2, 1)}"
  by (auto simp: edge_rel_def less_Suc_eq numeral_3_eq_3 numeral_2_eq_2)

lemma loop_edges_avoids: "avoids loop_edges h b \<Longrightarrow> \<not> h \<le> b"
  by (induction rule: avoids.induct) (auto simp: nth_Cons split: nat.splits)

lemma loop_edges_dominance: "dominance_ok (\<le>) loop_edges 3"
  unfolding dominance_ok_def
proof (intro conjI)
  show "\<forall>d b. d \<le> b \<longrightarrow> \<not> avoids loop_edges d b" using loop_edges_avoids by blast
  have step: "(0, 1) \<in> edge_rel loop_edges 3" "(1, 2) \<in> edge_rel loop_edges 3" unfolding loop_edges_rel by blast+
  have "(0, b) \<in> (edge_rel loop_edges 3)\<^sup>*" if "b < 3" for b
    using that r_into_rtrancl [OF step(1)] rtrancl_into_rtrancl [OF r_into_rtrancl [OF step(1)] step(2)]
    by (auto simp: less_Suc_eq numeral_3_eq_3 numeral_2_eq_2)
  moreover have "(b, s) \<in> (edge_rel loop_edges 3)\<^sup>* \<Longrightarrow> s < 3 \<Longrightarrow> b < 3" for b s
    by (erule converse_rtranclE) (auto simp: edge_rel_def)
  ultimately show "\<forall>(s, h) \<in> back_edges_of (\<le>) loop_edges 3. \<forall>b. (b, s) \<in> (edge_rel loop_edges 3)\<^sup>* \<longrightarrow> (0, b) \<in> (edge_rel loop_edges 3)\<^sup>*"
    by (auto simp: back_edges_of_def)
  show "\<forall>b < 3. 0 \<notin> set (re_succs loop_edges ! b)" by (simp add: All_less_Suc numeral_3_eq_3 numeral_2_eq_2)
  show "acyclic (forward_rel (\<le>) loop_edges 3)"
    by (rule acyclicI_order [of _ "\<lambda>x. - int x", simplified]) (auto simp: forward_rel_def)
qed

theorem procedure_loops_new_spec_witness:
  "\<exists>L. procedure_loops_new True (\<le>) loop_body loop_edges = Ok L \<and> is_loop_head L 1 \<and> \<not> is_loop_head L 0"
proof -
  have n: "n_blocks loop_body = 3" by (simp add: loop_body_def)
  have edges: "edges_of loop_edges (n_blocks loop_body)"
    unfolding n by (auto simp: edges_of_def less_Suc_eq numeral_3_eq_3 numeral_2_eq_2 intro!: gr0I)
  have bset: "back_edges_of (\<le>) loop_edges 3 = {(2, 1)}"
    by (auto simp: back_edges_of_def less_Suc_eq numeral_3_eq_3 numeral_2_eq_2)
  have no_self: "\<not> (\<exists>b < n_blocks loop_body. b \<in> set (re_succs loop_edges ! b))"
    unfolding n by (simp add: Ex_less_Suc numeral_3_eq_3 numeral_2_eq_2)
  from procedure_loops_new_spec [OF edges loop_edges_dominance [folded n], of True, unfolded if_not_P [OF no_self]] obtain L where
    "procedure_loops_new True (\<le>) loop_body loop_edges = Ok L" "loops_ok (\<le>) loop_edges 3 L"
    unfolding n by blast
  with bset show ?thesis by (auto simp: loops_ok_def)
qed

end
