(* ===== verification/Datalog.thy ===== *)
theory Datalog
  imports Prelude "HOL-Library.While_Combinator"
begin

text \<open>
  The interface of the \<open>datafrog\<close> crate, which is not part of the repository. A program is the body
  of a loop \<open>while iteration.changed() { .. }\<close> that derives new facts from known ones by
  \<open>from_map\<close>, \<open>from_join\<close> and \<open>from_antijoin\<close>; the crate promises that after the loop the variables
  hold exactly what the rules derive from the initial facts. The locale \<open>datalog\<close> states that
  promise for an engine, and \<open>saturate\<close>, the naive iteration, keeps it.
\<close>

section \<open>The relational operations\<close>

text \<open>The joins match the first components, as the crate's sorted relations do.\<close>

definition from_map :: "'a list \<Rightarrow> ('a \<Rightarrow> 'b) \<Rightarrow> 'b list" where
  "from_map input logic = map logic input"

definition from_join :: "('k \<times> 'v) list \<Rightarrow> ('k \<times> 'w) list \<Rightarrow> ('k \<Rightarrow> 'v \<Rightarrow> 'w \<Rightarrow> 'b) \<Rightarrow> 'b list" where
  "from_join input1 input2 logic =
     concat (map (\<lambda>(k, v). map (\<lambda>(_, w). logic k v w) (filter (\<lambda>(k', _). k' = k) input2)) input1)"

definition from_antijoin :: "('k \<times> 'v) list \<Rightarrow> 'k list \<Rightarrow> ('k \<Rightarrow> 'v \<Rightarrow> 'b) \<Rightarrow> 'b list" where
  "from_antijoin input1 input2 logic =
     map (\<lambda>(k, v). logic k v) (filter (\<lambda>(k, _). k \<notin> set input2) input1)"

lemma in_from_map [simp]: "y \<in> set (from_map xs f) \<longleftrightarrow> (\<exists>x \<in> set xs. y = f x)"
  by (auto simp: from_map_def)

lemma in_from_join [simp]:
  "y \<in> set (from_join xs ys f) \<longleftrightarrow> (\<exists>k v w. (k, v) \<in> set xs \<and> (k, w) \<in> set ys \<and> y = f k v w)"
  by (force simp: from_join_def)

lemma in_from_antijoin [simp]:
  "y \<in> set (from_antijoin xs ks f) \<longleftrightarrow> (\<exists>k v. (k, v) \<in> set xs \<and> k \<notin> set ks \<and> y = f k v)"
  by (force simp: from_antijoin_def)

section \<open>What the rules derive\<close>

inductive_set derivable :: "('f list \<Rightarrow> 'f list) \<Rightarrow> 'f list \<Rightarrow> 'f set"
  for rules :: "'f list \<Rightarrow> 'f list" and facts :: "'f list" where
  given: "f \<in> set facts \<Longrightarrow> f \<in> derivable rules facts"
| derived: "\<lbrakk>\<forall>g \<in> set known. g \<in> derivable rules facts; f \<in> set (rules known)\<rbrakk> \<Longrightarrow> f \<in> derivable rules facts"

text \<open>A Datalog program without negation of derived facts is monotone.\<close>

definition monotone_rules :: "('f list \<Rightarrow> 'g list) \<Rightarrow> bool" where
  "monotone_rules rules \<longleftrightarrow> (\<forall>xs ys. set xs \<subseteq> set ys \<longrightarrow> set (rules xs) \<subseteq> set (rules ys))"

text \<open>Programs built from the operations above are monotone; a variable is a projection of the facts.\<close>

named_theorems monotone_intros "introduction rules for monotone rule sets"

lemma monotone_const [monotone_intros]: "monotone_rules (\<lambda>known. xs)"
  by (simp add: monotone_rules_def)

lemma monotone_append [monotone_intros]:
  "\<lbrakk>monotone_rules a; monotone_rules b\<rbrakk> \<Longrightarrow> monotone_rules (\<lambda>known. a known @ b known)"
  unfolding monotone_rules_def set_append by blast

lemma monotone_from_map [monotone_intros]: "monotone_rules a \<Longrightarrow> monotone_rules (\<lambda>known. from_map (a known) f)"
  unfolding monotone_rules_def from_map_def set_map by blast

lemma monotone_from_join [monotone_intros]:
  "\<lbrakk>monotone_rules a; monotone_rules b\<rbrakk> \<Longrightarrow> monotone_rules (\<lambda>known. from_join (a known) (b known) f)"
  unfolding monotone_rules_def subset_iff in_from_join by blast

lemma monotone_from_antijoin [monotone_intros]:
  "monotone_rules a \<Longrightarrow> monotone_rules (\<lambda>known. from_antijoin (a known) ks f)"
  unfolding monotone_rules_def subset_iff in_from_antijoin by blast

text \<open>The facts of one variable.\<close>

definition tuples :: "('f \<Rightarrow> 'a option) \<Rightarrow> 'f list \<Rightarrow> 'a list" where
  "tuples column known = List.map_filter column known"

lemma in_tuples: "x \<in> set (tuples column known) \<longleftrightarrow> (\<exists>f \<in> set known. column f = Some x)"
  by (force simp: tuples_def map_filter_def)

lemma in_tuples_iff: "(\<And>f. column f = Some x \<longleftrightarrow> f = g) \<Longrightarrow> x \<in> set (tuples column known) \<longleftrightarrow> g \<in> set known"
  by (simp add: in_tuples)

lemma monotone_tuples [monotone_intros]: "monotone_rules (tuples column)"
  unfolding monotone_rules_def subset_iff in_tuples by blast

lemma derivable_one:
  "\<lbrakk>f \<in> set (rules [g]); g \<in> derivable rules facts\<rbrakk> \<Longrightarrow> f \<in> derivable rules facts"
  by (rule derivable.derived [where known = "[g]"]) simp_all

lemma derivable_two:
  "\<lbrakk>f \<in> set (rules [g, h]); g \<in> derivable rules facts; h \<in> derivable rules facts\<rbrakk>
   \<Longrightarrow> f \<in> derivable rules facts"
  by (rule derivable.derived [where known = "[g, h]"]) simp_all

lemma derivable_least:
  assumes "set facts \<subseteq> S" and "\<And>known. set known \<subseteq> S \<Longrightarrow> set (rules known) \<subseteq> S"
  shows "derivable rules facts \<subseteq> S"
proof
  fix f assume "f \<in> derivable rules facts"
  then show "f \<in> S"
  proof (induction rule: derivable.induct)
    case (given f)
    then show ?case using assms(1) by auto
  next
    case (derived known f)
    then have "set known \<subseteq> S" by auto
    from assms(2) [OF this] derived.hyps show ?case by auto
  qed
qed

lemma derivable_given: "set facts \<subseteq> derivable rules facts"
  by (auto intro: derivable.given)

lemma derivable_rules: "set known \<subseteq> derivable rules facts \<Longrightarrow> set (rules known) \<subseteq> derivable rules facts"
  by (rule subsetI, rule derivable.derived) (simp_all add: subset_iff)

lemma derivable_mono: "set facts \<subseteq> derivable rules facts' \<Longrightarrow> derivable rules facts \<subseteq> derivable rules facts'"
  by (rule derivable_least) (auto dest: derivable_rules)

text \<open>Facts that were derived before may be given again.\<close>

lemma derivable_absorb:
  "\<lbrakk>set facts \<subseteq> set facts'; set facts' \<subseteq> derivable rules facts\<rbrakk>
   \<Longrightarrow> derivable rules facts' = derivable rules facts"
  by (intro equalityI derivable_mono) (auto intro: derivable.given)

section \<open>The promise of an engine\<close>

locale datalog =
  fixes engine :: "('f list \<Rightarrow> 'f list) \<Rightarrow> 'f list \<Rightarrow> 'f list"
  assumes complete: "\<lbrakk>monotone_rules rules; finite (derivable rules facts)\<rbrakk>
    \<Longrightarrow> set (engine rules facts) = derivable rules facts"
begin

text \<open>A specification of the derivable facts is a specification of the engine's result.\<close>

lemma engine_spec:
  assumes "monotone_rules rules" and "derivable rules facts = S" and "finite S"
  shows "set (engine rules facts) = S"
  using complete assms by metis

end

section \<open>The naive iteration keeps the promise\<close>

definition saturate :: "('f list \<Rightarrow> 'f list) \<Rightarrow> 'f list \<Rightarrow> 'f list" where
  "saturate rules facts =
     while (\<lambda>known. \<not> list_all (\<lambda>f. f \<in> set known) (rules known)) (\<lambda>known. remdups (rules known @ known)) facts"

lemma saturate_complete:
  assumes "monotone_rules rules" and fin: "finite (derivable rules facts)"
  shows "set (saturate rules facts) = derivable rules facts"
proof -
  let ?P = "\<lambda>known. set facts \<subseteq> set known \<and> set known \<subseteq> derivable rules facts"
  let ?r = "inv_image (finite_psubset) (\<lambda>known. derivable rules facts - set known)"
  have "?P (saturate rules facts) \<and> set (rules (saturate rules facts)) \<subseteq> set (saturate rules facts)"
    unfolding saturate_def
  proof (rule while_rule [where P = ?P and r = ?r])
    show "?P facts" by (auto intro: derivable.given)
  next
    fix known assume "?P known"
    with derivable_rules [of known rules facts] show "?P (remdups (rules known @ known))" by auto
  next
    fix known assume "?P known" "\<not> \<not> list_all (\<lambda>f. f \<in> set known) (rules known)"
    then show "?P known \<and> set (rules known) \<subseteq> set known" by (auto simp: list_all_iff)
  next
    show "wf ?r" by auto
  next
    fix known assume P: "?P known" and "\<not> list_all (\<lambda>f. f \<in> set known) (rules known)"
    then obtain f where "f \<in> set (rules known)" "f \<notin> set known" by (auto simp: list_all_iff)
    moreover from P this(1) have "f \<in> derivable rules facts" using derivable_rules [of known rules facts] by auto
    ultimately show "(remdups (rules known @ known), known) \<in> ?r" using fin by auto
  qed
  then have S: "?P (saturate rules facts)" "set (rules (saturate rules facts)) \<subseteq> set (saturate rules facts)" by auto
  have "derivable rules facts \<subseteq> set (saturate rules facts)"
  proof (rule derivable_least)
    fix known assume "set known \<subseteq> set (saturate rules facts)"
    with assms(1) S(2) show "set (rules known) \<subseteq> set (saturate rules facts)"
      unfolding monotone_rules_def by blast
  qed (use S in blast)
  with S show ?thesis by blast
qed

interpretation naive: datalog saturate
  by unfold_locales (rule saturate_complete)

lemma saturate_datalog: "datalog saturate"
  by (rule naive.datalog_axioms)

end
