(* ===== verification/Polonius.thy ===== *)
theory Polonius
  imports RealEdges Datalog
begin

text \<open>
  The borrow-checker facts of a procedure: \<open>translation/src/environment/borrowck/facts.rs\<close> and the
  part of \<open>translation/src/environment/polonius_info.rs\<close> that reads facts, with
  \<open>environment/region_folder.rs\<close>. The compiler's tables (the location table, Polonius' own output,
  the regions that occur in a type, the successors of a terminator) are parameters. \<open>unreachable!\<close>,
  failed assertions and failed \<open>unwrap\<close>s are \<^term>\<open>None\<close>. A hash map is a map; one that the code
  iterates over is an association list.
\<close>

section \<open>facts.rs\<close>

type_synonym origin = nat          \<comment> \<open>\<open>facts::Region\<close>; the number is \<open>region.index()\<close>\<close>
type_synonym loan = nat
type_synonym point_index = nat

datatype point_type = Start | Mid

record point =
  pt_location :: location
  pt_typ :: point_type

datatype rich_location = RichStart location | RichMid location

text \<open>\<open>PoloniusLocationTable\<close> of the compiler.\<close>

record location_table =
  start_index :: "location \<Rightarrow> point_index"
  mid_index :: "location \<Rightarrow> point_index"
  to_rich_location :: "point_index \<Rightarrow> rich_location"

definition get_point_index :: "location_table \<Rightarrow> point \<Rightarrow> point_index" where
  "get_point_index T p =
     (case pt_typ p of Start \<Rightarrow> start_index T (pt_location p) | Mid \<Rightarrow> mid_index T (pt_location p))"

definition get_point_of_index :: "location_table \<Rightarrow> point_index \<Rightarrow> point" where
  "get_point_of_index T i =
     (case to_rich_location T i of
        RichStart l \<Rightarrow> \<lparr>pt_location = l, pt_typ = Start\<rparr>
      | RichMid l \<Rightarrow> \<lparr>pt_location = l, pt_typ = Mid\<rparr>)"

text \<open>The fields of the input and output facts that the frontend reads.\<close>

record all_input =
  loan_issued_at :: "(origin \<times> loan \<times> point_index) list"
  placeholder :: "(origin \<times> loan) list"
  subset_base :: "(origin \<times> origin \<times> point_index) list"
  known_placeholder_subset :: "(origin \<times> origin) list"
  loan_killed_at :: "(loan \<times> point_index) list"
  cfg_edge :: "(point_index \<times> point_index) list"

record all_output =
  loan_live_at :: "(point_index \<times> loan list) list"
  origin_contains_loan_at :: "(point_index \<times> (origin \<times> loan list) list) list"
  origin_live_on_entry :: "(point_index \<times> origin list) list"
  subset_at :: "(point_index \<times> (origin \<times> origin list) list) list"

section \<open>Kinds of regions\<close>

datatype universal_region_kind = UStatic | UFunction | ULocal

datatype atomic_region =
    Loan origin
  | Universal universal_region_kind origin
  | PlaceRegion origin bool
  | Unknown origin bool

datatype region_kind =
    KLoan
  | KUniversal universal_region_kind
  | KPlaceRegion bool
  | KUnknown bool

fun is_place :: "atomic_region \<Rightarrow> bool" where
  "is_place (PlaceRegion _ _) = True"
| "is_place _ = False"

fun is_value :: "atomic_region \<Rightarrow> bool" where
  "is_value (Unknown _ _) = True"
| "is_value _ = False"

fun is_loan :: "atomic_region \<Rightarrow> bool" where
  "is_loan (Loan _) = True"
| "is_loan _ = False"

fun is_unconstrained :: "atomic_region \<Rightarrow> bool" where
  "is_unconstrained (PlaceRegion _ b) = b"
| "is_unconstrained (Unknown _ b) = b"
| "is_unconstrained _ = False"

fun get_region :: "atomic_region \<Rightarrow> origin" where
  "get_region (Loan r) = r"
| "get_region (Universal _ r) = r"
| "get_region (PlaceRegion r _) = r"
| "get_region (Unknown r _) = r"

section \<open>Free regions of a type\<close>

text \<open>
  The compiler's traversal of a type calls \<open>fold_region\<close> at every region, below some number of
  binders; \<open>fold_binder\<close> counts them in \<open>current_index\<close>. The traversal is the parameter
  \<open>ty_regions\<close>: the regions of a type with the number of binders around each.
\<close>

definition visits_region :: "region \<times> nat \<Rightarrow> bool" where
  "visits_region v =
     (case v of (r, current_index) \<Rightarrow>
        (case r of
           ReBound (BoundIdx debruijn) _ _ \<Rightarrow> \<not> debruijn < current_index
         | ReBound Canonical _ _ \<Rightarrow> False
         | _ \<Rightarrow> True))"

definition fold_regions :: "(ty \<Rightarrow> (region \<times> nat) list) \<Rightarrow> ty \<Rightarrow> region list" where
  "fold_regions ty_regions t = map fst (filter visits_region (ty_regions t))"

section \<open>The state of PoloniusInfo\<close>

type_synonym loans_at = "(point_index \<times> loan list) list"

record additional_facts =
  zombie_borrow_live_at :: loans_at
  borrow_become_zombie_at :: loans_at

record polonius_env =
  term_successors :: "terminator \<Rightarrow> basic_block list"
  ty_regions :: "ty \<Rightarrow> (region \<times> nat) list"

record polonius_info =
  pi_mir :: body
  pi_local_tys :: "ty list"          \<comment> \<open>the types of \<open>mir.local_decls\<close>\<close>
  borrowck_in_facts :: all_input
  borrowck_out_facts :: all_output
  interner :: location_table
  loan_position :: "loan \<rightharpoonup> location"
  loan_at_position :: "location \<rightharpoonup> loan"
  additional_facts :: additional_facts

definition get_region_kind :: "polonius_env \<Rightarrow> polonius_info \<Rightarrow> origin \<Rightarrow> region_kind option" where
  "get_region_kind E I region =
     (let facts = borrowck_in_facts I;
          v = map (\<lambda>(_, loan, _). loan) (filter (\<lambda>(r, _, _). r = region) (loan_issued_at facts))
      in if v \<noteq> [] then (if length v = 1 then Some KLoan else None)
         else if list_ex (\<lambda>(r, _). r = region) (placeholder facts) then
           (if region = 0 then Some (KUniversal UStatic)
            else if region + 1 = length (placeholder facts) then Some (KUniversal UFunction)
            else Some (KUniversal ULocal))
         else
           (let unconstrained = \<not> list_ex (\<lambda>(_, r2, _). r2 = region) (subset_base facts);
                found_region = list_ex (\<lambda>t. ReVar region \<in> set (fold_regions (ty_regions E) t)) (pi_local_tys I)
            in if found_region then Some (KPlaceRegion unconstrained) else Some (KUnknown unconstrained)))"

definition mk_atomic_region :: "polonius_env \<Rightarrow> polonius_info \<Rightarrow> origin \<Rightarrow> atomic_region option" where
  "mk_atomic_region E I r =
     map_option (\<lambda>kind. case kind of
         KLoan \<Rightarrow> Loan r
       | KPlaceRegion b \<Rightarrow> PlaceRegion r b
       | KUniversal uk \<Rightarrow> Universal uk r
       | KUnknown b \<Rightarrow> Unknown r b) (get_region_kind E I r)"

definition get_point :: "polonius_info \<Rightarrow> location \<Rightarrow> point_type \<Rightarrow> point_index" where
  "get_point I l typ = get_point_index (interner I) \<lparr>pt_location = l, pt_typ = typ\<rparr>"

definition get_new_subset_constraints_at_point :: "polonius_info \<Rightarrow> point_index \<Rightarrow> (origin \<times> origin) list" where
  "get_new_subset_constraints_at_point I pt =
     (let root_point = get_point_index (interner I) \<lparr>pt_location = loc 0 0, pt_typ = Mid\<rparr>;
          base = subset_base (borrowck_in_facts I)
      in map (\<lambda>(r1, r2, _). (r1, r2)) (filter (\<lambda>(r1, r2, p). p = pt \<and> (r1, r2, root_point) \<notin> set base) base))"

section \<open>Live and dying loans\<close>

definition get_borrow_live_at :: "polonius_info \<Rightarrow> bool \<Rightarrow> loans_at" where
  "get_borrow_live_at I zombie =
     (if zombie then zombie_borrow_live_at (additional_facts I) else loan_live_at (borrowck_out_facts I))"

text \<open>\<open>map.get(&point).cloned().unwrap_or_default()\<close>\<close>

definition loans_of :: "loans_at \<Rightarrow> point_index \<Rightarrow> loan list" where
  "loans_of m p = (case map_of m p of None \<Rightarrow> [] | Some ls \<Rightarrow> ls)"

text \<open>The loop at the end of \<open>get_active_loans\<close>: loans created at the point.\<close>

definition add_issued :: "all_input \<Rightarrow> point_index \<Rightarrow> loan list \<Rightarrow> loan list" where
  "add_issued facts mid_point loans =
     fold (\<lambda>(_, l, p) loans. if p = mid_point \<and> l \<notin> set loans then loans @ [l] else loans)
       (loan_issued_at facts) loans"

definition get_active_loans :: "polonius_info \<Rightarrow> location \<Rightarrow> bool \<Rightarrow> loan list option" where
  "get_active_loans I l zombie =
     (let live = get_borrow_live_at I zombie;
          start_point = get_point I l Start;
          mid_point = get_point I l Mid
      in map_option (\<lambda>loans. if zombie then loans else add_issued (borrowck_in_facts I) mid_point loans)
           (case map_of live mid_point of
              Some mid_loans \<Rightarrow>
                (let mid_loans = sort mid_loans; start_loans = sort (loans_of live start_point)
                 in if list_all (\<lambda>x. x \<in> set mid_loans) start_loans then Some mid_loans else None)
            | None \<Rightarrow> (if map_of live start_point = None then Some [] else None)))"

text \<open>\<open>mir[location.block]\<close> panics out of range.\<close>

definition get_successors :: "polonius_env \<Rightarrow> polonius_info \<Rightarrow> location \<Rightarrow> location list option" where
  "get_successors E I l =
     Option.bind (terminator_at (pi_mir I) (loc_block l)) (\<lambda>t.
       let statements_len = length (statements (basic_blocks (pi_mir I) ! loc_block l))
       in Some (if statement_index l < statements_len then [l\<lparr>statement_index := statement_index l + 1\<rparr>]
                else map (\<lambda>s. loc s 0) (term_successors E t)))"

definition is_return :: "body \<Rightarrow> location \<Rightarrow> bool option" where
  "is_return m l =
     Option.bind (terminator_at m (loc_block l)) (\<lambda>t.
       if length (statements (basic_blocks m ! loc_block l)) \<noteq> statement_index l then Some False
       else Some (case t of Return \<Rightarrow> True | _ \<Rightarrow> False))"

definition get_loans_dying_at ::
  "polonius_env \<Rightarrow> polonius_info \<Rightarrow> location \<Rightarrow> bool \<Rightarrow> loan list option" where
  "get_loans_dying_at E I l zombie =
     (let live = get_borrow_live_at I zombie in
      Option.bind (get_successors E I l) (\<lambda>succs.
      Option.bind (is_return (pi_mir I) l) (\<lambda>ret.
      let mid_point = get_point I l Mid;
          becoming_zombie_loans = loans_of (borrow_become_zombie_at (additional_facts I)) mid_point
      in map_option (\<lambda>active.
           filter (\<lambda>x. x \<notin> set becoming_zombie_loans)
             (filter (\<lambda>x.
                let alive_in_successor = list_ex (\<lambda>s. x \<in> set (loans_of live (get_point I s Start))) succs
                in \<not> (alive_in_successor \<or> (succs = [] \<and> ret))) active))
           (get_active_loans I l zombie))))"

definition get_dying_loans where
  "get_dying_loans E I l = get_loans_dying_at E I l False"

definition get_dying_zombie_loans where
  "get_dying_zombie_loans E I l = get_loans_dying_at E I l True"

definition get_loans_dying_between ::
  "polonius_info \<Rightarrow> location \<Rightarrow> location \<Rightarrow> bool \<Rightarrow> loan list option" where
  "get_loans_dying_between I initial_loc final_loc zombie =
     (let mid_point = get_point I initial_loc Mid;
          becoming_zombie_loans = loans_of (borrow_become_zombie_at (additional_facts I)) mid_point;
          final_loc_point = get_point I final_loc Start
      in map_option (\<lambda>active.
           filter (\<lambda>x. x \<notin> set becoming_zombie_loans)
             (filter (\<lambda>x. case map_of (get_borrow_live_at I zombie) final_loc_point of
                            None \<Rightarrow> True | Some successor_loans \<Rightarrow> x \<notin> set successor_loans) active))
           (get_active_loans I initial_loc zombie))"

section \<open>Where loans are created\<close>

definition get_loan_location :: "polonius_info \<Rightarrow> loan \<Rightarrow> location option" where
  "get_loan_location I l = loan_position I l"

definition get_optional_loan_at_location :: "polonius_info \<Rightarrow> location \<Rightarrow> loan option" where
  "get_optional_loan_at_location I l = loan_at_position I l"

definition get_loan_issued_at_for_loan :: "polonius_info \<Rightarrow> loan \<Rightarrow> origin option" where
  "get_loan_issued_at_for_loan I l =
     Option.bind (get_loan_location I l) (\<lambda>location.
       let pt = get_point I location Mid;
           regions = map fst (filter (\<lambda>(_, l', p). p = pt \<and> l' = l) (loan_issued_at (borrowck_in_facts I)))
       in if length regions = 1 then Some (regions ! 0) else None)"

definition atomic_region_of_loan :: "polonius_info \<Rightarrow> loan \<Rightarrow> atomic_region option" where
  "atomic_region_of_loan I l = map_option Loan (get_loan_issued_at_for_loan I l)"

end
