(* ===== verification/ZombieLoans.thy ===== *)
theory ZombieLoans
  imports Polonius "HOL-Library.AList" "HOL-Library.Product_Lexorder"
begin

text \<open>
  The facts that \<open>translation/src/environment/polonius_info.rs\<close> derives with \<open>datafrog\<close>:
  \<open>compute_transitive_closure\<close>, the zombie loans of \<open>AdditionalFacts\<close>, and the construction of
  \<open>PoloniusInfo\<close>. Every variable of an iteration is a constructor of a datatype of facts and the
  loop body is one function from the known facts to the derived ones, in the order of the code; the
  engine is a parameter with the promise of \<open>Datalog\<close>. The last section states what the loan
  queries return.
\<close>

section \<open>Relations\<close>

text \<open>A \<open>datafrog\<close> relation is sorted and has no duplicates.\<close>

definition elements :: "('a::linorder) list \<Rightarrow> 'a list" where
  "elements xs = sort (remdups xs)"

lemma set_elements [simp]: "set (elements xs) = set xs"
  by (simp add: elements_def)

section \<open>Transitive closure\<close>

datatype closure_fact = Incl origin origin | Incl1 origin origin

definition incl_of :: "closure_fact list \<Rightarrow> (origin \<times> origin) list" where
  "incl_of = tuples (\<lambda>f. case f of Incl a b \<Rightarrow> Some (a, b) | _ \<Rightarrow> None)"

definition incl1_of :: "closure_fact list \<Rightarrow> (origin \<times> origin) list" where
  "incl1_of = tuples (\<lambda>f. case f of Incl1 a b \<Rightarrow> Some (a, b) | _ \<Rightarrow> None)"

definition closure_rules :: "closure_fact list \<Rightarrow> closure_fact list" where
  "closure_rules known =
     from_map (incl_of known) (\<lambda>(r1, r2). Incl1 r2 r1) @
     from_join (incl1_of known) (incl_of known) (\<lambda>_ r1 r3. Incl r1 r3)"

definition compute_transitive_closure ::
  "((closure_fact list \<Rightarrow> closure_fact list) \<Rightarrow> closure_fact list \<Rightarrow> closure_fact list)
    \<Rightarrow> (origin \<times> origin) list \<Rightarrow> (origin \<times> origin) list" where
  "compute_transitive_closure engine constraints =
     elements (incl_of (engine closure_rules (map (\<lambda>(a, b). Incl a b) constraints)))"

lemma in_incl_of [simp]: "(a, b) \<in> set (incl_of fs) \<longleftrightarrow> Incl a b \<in> set fs"
  unfolding incl_of_def by (rule in_tuples_iff) (auto split: closure_fact.splits)

lemma in_incl1_of [simp]: "(a, b) \<in> set (incl1_of fs) \<longleftrightarrow> Incl1 a b \<in> set fs"
  unfolding incl1_of_def by (rule in_tuples_iff) (auto split: closure_fact.splits)

lemma closure_rules_set:
  "f \<in> set (closure_rules known) \<longleftrightarrow>
     (\<exists>a b. Incl a b \<in> set known \<and> f = Incl1 b a) \<or>
     (\<exists>b a c. Incl1 b a \<in> set known \<and> Incl b c \<in> set known \<and> f = Incl a c)"
  unfolding closure_rules_def set_append Un_iff in_from_map in_from_join Bex_def split_paired_Ex
    case_prod_conv in_incl_of in_incl1_of by blast

lemma monotone_closure_rules: "monotone_rules closure_rules"
  unfolding closure_rules_def incl_of_def incl1_of_def by (intro monotone_intros)

fun closure_holds :: "(origin \<times> origin) set \<Rightarrow> closure_fact \<Rightarrow> bool" where
  "closure_holds R (Incl a b) = ((a, b) \<in> R\<^sup>+)"
| "closure_holds R (Incl1 a b) = ((b, a) \<in> R\<^sup>+)"

lemma derivable_closure:
  "derivable closure_rules (map (\<lambda>(a, b). Incl a b) cs) = Collect (closure_holds (set cs))"
    (is "?D = ?S")
proof
  show "?D \<subseteq> ?S"
  proof (rule derivable_least)
    fix known assume known: "set known \<subseteq> ?S"
    show "set (closure_rules known) \<subseteq> ?S"
    proof
      fix f assume "f \<in> set (closure_rules known)"
      then consider (map) a b where "Incl a b \<in> set known" "f = Incl1 b a"
        | (join) b a c where "Incl1 b a \<in> set known" "Incl b c \<in> set known" "f = Incl a c"
        unfolding closure_rules_set by blast
      then show "f \<in> ?S"
      proof cases
        case map
        with known show ?thesis by auto
      next
        case join
        with known have "(a, b) \<in> (set cs)\<^sup>+" "(b, c) \<in> (set cs)\<^sup>+" by auto
        with join(3) show ?thesis by (auto intro: trancl_trans)
      qed
    qed
  qed auto
  have incl1: "Incl1 b a \<in> ?D" if "Incl a b \<in> ?D" for a b
    using that by (intro derivable.derived [where known = "[Incl a b]"]) (auto simp: closure_rules_set)
  have join: "Incl a c \<in> ?D" if "Incl a b \<in> ?D" "Incl b c \<in> ?D" for a b c
    using that incl1 [OF that(1)]
    by (intro derivable.derived [where known = "[Incl1 b a, Incl b c]"]) (auto simp: closure_rules_set)
  have "Incl a b \<in> ?D" if "(a, b) \<in> (set cs)\<^sup>+" for a b
    using that
  proof (induction rule: trancl_induct)
    case (base y)
    then show ?case by (intro derivable.given) force
  next
    case (step y z)
    moreover from step.hyps(2) have "Incl y z \<in> ?D" by (intro derivable.given) force
    ultimately show ?case using join by blast
  qed
  note incl = this
  show "?S \<subseteq> ?D"
  proof
    fix f assume "f \<in> ?S"
    then show "f \<in> ?D" using incl incl1 by (cases f) auto
  qed
qed

lemma finite_closure: "finite (Collect (closure_holds (set cs)))"
proof -
  have "Collect (closure_holds (set cs))
    \<subseteq> (\<lambda>(a, b). Incl a b) ` ((set cs)\<^sup>+) \<union> (\<lambda>(a, b). Incl1 b a) ` ((set cs)\<^sup>+)"
  proof
    fix f assume "f \<in> Collect (closure_holds (set cs))"
    then show "f \<in> (\<lambda>(a, b). Incl a b) ` ((set cs)\<^sup>+) \<union> (\<lambda>(a, b). Incl1 b a) ` ((set cs)\<^sup>+)"
      by (cases f) force+
  qed
  then show ?thesis by (rule finite_subset) simp
qed

lemma transitive_closure_result:
  assumes "datalog engine"
  shows "set (compute_transitive_closure engine cs) = (set cs)\<^sup>+"
proof -
  from datalog.engine_spec [OF assms monotone_closure_rules derivable_closure finite_closure]
  have "set (engine closure_rules (map (\<lambda>(a, b). Incl a b) cs)) = Collect (closure_holds (set cs))" .
  then show ?thesis by (auto simp: compute_transitive_closure_def)
qed

section \<open>Zombie loans\<close>

text \<open>The variables of \<open>derive_zombie_requires\<close>, with the columns the code gives them.\<close>

datatype zombie_fact =
    ZombieRequires origin loan point_index
  | ZombieBorrowLiveAt loan point_index
  | BorrowBecomeZombieAt loan point_index
  | ZombieRequiresRp "origin \<times> point_index" loan
  | ZombieRequiresP point_index "loan \<times> origin"
  | ZombieRequires1 point_index "loan \<times> origin"
  | ZombieRequires2 "origin \<times> point_index" loan
  | ZombieRequires3 "origin \<times> point_index" loan
  | ZombieRequires4 "origin \<times> point_index" "point_index \<times> loan"

text \<open>The variables filled once, before the loop.\<close>

record zombie_base =
  requires_lp :: "((loan \<times> point_index) \<times> origin) list"
  loan_killed :: "((loan \<times> point_index) \<times> unit) list"
  cfg_edge_p :: "(point_index \<times> point_index) list"
  origin_live :: "((origin \<times> point_index) \<times> unit) list"
  subset_r1p :: "((origin \<times> point_index) \<times> origin) list"

definition zombie_base_of :: "all_input \<Rightarrow> all_output \<Rightarrow> zombie_base" where
  "zombie_base_of all_facts output =
     \<lparr>requires_lp = concat (map (\<lambda>(pt, region_map).
          concat (map (\<lambda>(region, loans). map (\<lambda>l. ((l, pt), region)) loans) region_map))
        (origin_contains_loan_at output)),
      loan_killed = map (\<lambda>(l, pt). ((l, pt), ())) (loan_killed_at all_facts),
      cfg_edge_p = cfg_edge all_facts,
      origin_live = concat (map (\<lambda>(pt, origins). map (\<lambda>r. ((r, pt), ())) origins) (origin_live_on_entry output)),
      subset_r1p = concat (map (\<lambda>(pt, subset_map).
          concat (map (\<lambda>(region1, regions). map (\<lambda>region2. ((region1, pt), region2)) regions) subset_map))
        (subset_at output))\<rparr>"

definition zr_of :: "zombie_fact list \<Rightarrow> (origin \<times> loan \<times> point_index) list" where
  "zr_of = tuples (\<lambda>f. case f of ZombieRequires r l p \<Rightarrow> Some (r, l, p) | _ \<Rightarrow> None)"

definition live_of :: "zombie_fact list \<Rightarrow> (loan \<times> point_index) list" where
  "live_of = tuples (\<lambda>f. case f of ZombieBorrowLiveAt l p \<Rightarrow> Some (l, p) | _ \<Rightarrow> None)"

definition become_of :: "zombie_fact list \<Rightarrow> (loan \<times> point_index) list" where
  "become_of = tuples (\<lambda>f. case f of BorrowBecomeZombieAt l p \<Rightarrow> Some (l, p) | _ \<Rightarrow> None)"

definition zrp_of where
  "zrp_of = tuples (\<lambda>f. case f of ZombieRequiresRp k l \<Rightarrow> Some (k, l) | _ \<Rightarrow> None)"

definition zp_of where
  "zp_of = tuples (\<lambda>f. case f of ZombieRequiresP k l \<Rightarrow> Some (k, l) | _ \<Rightarrow> None)"

definition z1_of where
  "z1_of = tuples (\<lambda>f. case f of ZombieRequires1 k l \<Rightarrow> Some (k, l) | _ \<Rightarrow> None)"

definition z2_of where
  "z2_of = tuples (\<lambda>f. case f of ZombieRequires2 k l \<Rightarrow> Some (k, l) | _ \<Rightarrow> None)"

definition z3_of where
  "z3_of = tuples (\<lambda>f. case f of ZombieRequires3 k l \<Rightarrow> Some (k, l) | _ \<Rightarrow> None)"

definition z4_of where
  "z4_of = tuples (\<lambda>f. case f of ZombieRequires4 k l \<Rightarrow> Some (k, l) | _ \<Rightarrow> None)"

definition zombie_rules :: "zombie_base \<Rightarrow> zombie_fact list \<Rightarrow> zombie_fact list" where
  "zombie_rules B known =
     from_map (zr_of known) (\<lambda>(r, l, p). ZombieRequiresRp (r, p) l) @
     from_map (zr_of known) (\<lambda>(r, l, p). ZombieRequiresP p (l, r)) @
     from_join (requires_lp B) (loan_killed B) (\<lambda>(l, p) r _. ZombieRequires1 p (l, r)) @
     from_join (z1_of known) (cfg_edge_p B) (\<lambda>_ (l, r) q. ZombieRequires2 (r, q) l) @
     from_join (z2_of known) (origin_live B) (\<lambda>(r, q) l _. ZombieRequires r l q) @
     from_join (z1_of known) (cfg_edge_p B) (\<lambda>p (l, r) q. ZombieRequires4 (r, q) (p, l)) @
     from_join (z4_of known) (origin_live B) (\<lambda>_ (p, l) _. BorrowBecomeZombieAt l p) @
     from_join (zrp_of known) (subset_r1p B) (\<lambda>(_, p) b r2. ZombieRequires r2 b p) @
     from_join (zp_of known) (cfg_edge_p B) (\<lambda>_ (l, r) q. ZombieRequires3 (r, q) l) @
     from_join (z3_of known) (origin_live B) (\<lambda>(r, q) l _. ZombieRequires r l q) @
     from_join (zrp_of known) (origin_live B) (\<lambda>(_, p) l _. ZombieBorrowLiveAt l p)"

text \<open>\<open>map.entry(point).or_insert_with(Vec::new).push(loan)\<close>\<close>

definition push_loan :: "loan \<times> point_index \<Rightarrow> loans_at \<Rightarrow> loans_at" where
  "push_loan e m = (case e of (l, p) \<Rightarrow> AList.update p (loans_of m p @ [l]) m)"

type_synonym zombie_engine = "(zombie_fact list \<Rightarrow> zombie_fact list) \<Rightarrow> zombie_fact list \<Rightarrow> zombie_fact list"

definition derive_zombie_requires :: "zombie_engine \<Rightarrow> all_input \<Rightarrow> all_output \<Rightarrow> loans_at \<times> loans_at" where
  "derive_zombie_requires engine all_facts output =
     (let known = engine (zombie_rules (zombie_base_of all_facts output)) []
      in (fold push_loan (elements (live_of known)) [], fold push_loan (elements (become_of known)) []))"

definition additional_facts_new :: "zombie_engine \<Rightarrow> all_input \<Rightarrow> all_output \<Rightarrow> additional_facts" where
  "additional_facts_new engine all_facts output =
     (case derive_zombie_requires engine all_facts output of
        (live, become) \<Rightarrow> \<lparr>zombie_borrow_live_at = live, borrow_become_zombie_at = become\<rparr>)"

text \<open>
  \<open>PoloniusInfo::new\<close>, from the body, the types of its locals, its facts and its location table;
  \<open>polonius_engine::Output::compute\<close> is the parameter \<open>compute\<close>. The facts are optional in the
  compiler's record; their absence is a panic.
\<close>

definition polonius_info_new ::
  "zombie_engine \<Rightarrow> (all_input \<Rightarrow> all_output) \<Rightarrow> body \<Rightarrow> ty list \<Rightarrow> all_input option \<Rightarrow> location_table option
    \<Rightarrow> polonius_info option" where
  "polonius_info_new engine compute m tys input_facts location_table =
     Option.bind location_table (\<lambda>table.
     Option.bind input_facts (\<lambda>all_facts.
     let output = compute all_facts;
         location_of = (\<lambda>p. pt_location (get_point_of_index table p))
     in Some \<lparr>pi_mir = m, pi_local_tys = tys, borrowck_in_facts = all_facts, borrowck_out_facts = output,
          interner = table,
          loan_position = fold (\<lambda>(_, l, p) f. f(l \<mapsto> location_of p)) (loan_issued_at all_facts) Map.empty,
          loan_at_position = fold (\<lambda>(_, l, p) f. f(location_of p \<mapsto> l)) (loan_issued_at all_facts) Map.empty,
          additional_facts = additional_facts_new engine all_facts output\<rparr>))"

section \<open>The zombie facts meet the rules stated in the comments\<close>

text \<open>The rules as the comments of the source give them, over the facts of the borrow checker.\<close>

definition contains_loan :: "all_output \<Rightarrow> origin \<Rightarrow> loan \<Rightarrow> point_index \<Rightarrow> bool" where
  "contains_loan out r l p \<longleftrightarrow>
     (\<exists>m ls. (p, m) \<in> set (origin_contains_loan_at out) \<and> (r, ls) \<in> set m \<and> l \<in> set ls)"

definition is_live :: "all_output \<Rightarrow> origin \<Rightarrow> point_index \<Rightarrow> bool" where
  "is_live out r p \<longleftrightarrow> (\<exists>rs. (p, rs) \<in> set (origin_live_on_entry out) \<and> r \<in> set rs)"

definition subset_holds :: "all_output \<Rightarrow> origin \<Rightarrow> origin \<Rightarrow> point_index \<Rightarrow> bool" where
  "subset_holds out r1 r2 p \<longleftrightarrow>
     (\<exists>m rs. (p, m) \<in> set (subset_at out) \<and> (r1, rs) \<in> set m \<and> r2 \<in> set rs)"

inductive zombie_requires :: "all_input \<Rightarrow> all_output \<Rightarrow> origin \<Rightarrow> loan \<Rightarrow> point_index \<Rightarrow> bool"
  for I :: all_input and out :: all_output where
  killed: "\<lbrakk>contains_loan out r l p; (l, p) \<in> set (loan_killed_at I); (p, q) \<in> set (cfg_edge I); is_live out r q\<rbrakk>
    \<Longrightarrow> zombie_requires I out r l q"
| subset: "\<lbrakk>zombie_requires I out r1 l p; subset_holds out r1 r2 p\<rbrakk> \<Longrightarrow> zombie_requires I out r2 l p"
| flow: "\<lbrakk>zombie_requires I out r l p; (p, q) \<in> set (cfg_edge I); is_live out r q\<rbrakk> \<Longrightarrow> zombie_requires I out r l q"

definition becomes_zombie :: "all_input \<Rightarrow> all_output \<Rightarrow> loan \<Rightarrow> point_index \<Rightarrow> bool" where
  "becomes_zombie I out l p \<longleftrightarrow>
     (\<exists>r q. contains_loan out r l p \<and> (l, p) \<in> set (loan_killed_at I) \<and> (p, q) \<in> set (cfg_edge I) \<and> is_live out r q)"

lemma in_zombie_vars [simp]:
  "(r, l, p) \<in> set (zr_of fs) \<longleftrightarrow> ZombieRequires r l p \<in> set fs"
  "(l, p) \<in> set (live_of fs) \<longleftrightarrow> ZombieBorrowLiveAt l p \<in> set fs"
  "(l, p) \<in> set (become_of fs) \<longleftrightarrow> BorrowBecomeZombieAt l p \<in> set fs"
  "(k, l) \<in> set (zrp_of fs) \<longleftrightarrow> ZombieRequiresRp k l \<in> set fs"
  "(i, j) \<in> set (zp_of fs) \<longleftrightarrow> ZombieRequiresP i j \<in> set fs"
  "(i, j) \<in> set (z1_of fs) \<longleftrightarrow> ZombieRequires1 i j \<in> set fs"
  "(k, l) \<in> set (z2_of fs) \<longleftrightarrow> ZombieRequires2 k l \<in> set fs"
  "(k, l) \<in> set (z3_of fs) \<longleftrightarrow> ZombieRequires3 k l \<in> set fs"
  "(k, h) \<in> set (z4_of fs) \<longleftrightarrow> ZombieRequires4 k h \<in> set fs"
  unfolding zr_of_def live_of_def become_of_def zrp_of_def zp_of_def z1_of_def z2_of_def z3_of_def z4_of_def
  by (rule in_tuples_iff; force split: zombie_fact.splits)+

lemma monotone_zombie_rules: "monotone_rules (zombie_rules B)"
  unfolding zombie_rules_def zr_of_def zrp_of_def zp_of_def z1_of_def z2_of_def z3_of_def z4_of_def
  by (intro monotone_intros)

text \<open>Membership in the base relations.\<close>

lemma base_requires [simp]:
  "((l, p), r) \<in> set (requires_lp (zombie_base_of I out)) \<longleftrightarrow> contains_loan out r l p"
  by (auto simp: zombie_base_of_def contains_loan_def in_concat_map_pair image_iff simp del: set_concat)

lemma base_killed [simp]:
  "((l, p), u) \<in> set (loan_killed (zombie_base_of I out)) \<longleftrightarrow> (l, p) \<in> set (loan_killed_at I)"
  by (auto simp: zombie_base_of_def in_map_pair simp del: set_map)

lemma base_edges [simp]: "cfg_edge_p (zombie_base_of I out) = cfg_edge I"
  by (simp add: zombie_base_of_def)

lemma base_live [simp]:
  "((r, p), u) \<in> set (origin_live (zombie_base_of I out)) \<longleftrightarrow> is_live out r p"
  by (auto simp: zombie_base_of_def is_live_def in_concat_map_pair simp del: set_concat)

lemma base_subset [simp]:
  "((r, p), r2) \<in> set (subset_r1p (zombie_base_of I out)) \<longleftrightarrow> subset_holds out r r2 p"
  by (auto simp: zombie_base_of_def subset_holds_def in_concat_map_pair image_iff simp del: set_concat)

fun zombie_holds :: "all_input \<Rightarrow> all_output \<Rightarrow> zombie_fact \<Rightarrow> bool" where
  "zombie_holds I out (ZombieRequires r l p) = zombie_requires I out r l p"
| "zombie_holds I out (ZombieBorrowLiveAt l p) = (\<exists>r. zombie_requires I out r l p \<and> is_live out r p)"
| "zombie_holds I out (BorrowBecomeZombieAt l p) = becomes_zombie I out l p"
| "zombie_holds I out (ZombieRequiresRp (r, p) l) = zombie_requires I out r l p"
| "zombie_holds I out (ZombieRequiresP p (l, r)) = zombie_requires I out r l p"
| "zombie_holds I out (ZombieRequires1 p (l, r)) = (contains_loan out r l p \<and> (l, p) \<in> set (loan_killed_at I))"
| "zombie_holds I out (ZombieRequires2 (r, q) l) =
     (\<exists>p. contains_loan out r l p \<and> (l, p) \<in> set (loan_killed_at I) \<and> (p, q) \<in> set (cfg_edge I))"
| "zombie_holds I out (ZombieRequires3 (r, q) l) =
     (\<exists>p. zombie_requires I out r l p \<and> (p, q) \<in> set (cfg_edge I))"
| "zombie_holds I out (ZombieRequires4 (r, q) (p, l)) =
     (contains_loan out r l p \<and> (l, p) \<in> set (loan_killed_at I) \<and> (p, q) \<in> set (cfg_edge I))"

lemma zombie_rules_sound:
  assumes "\<forall>f \<in> set known. zombie_holds I out f" and "f \<in> set (zombie_rules (zombie_base_of I out) known)"
  shows "zombie_holds I out f"
proof -
  have known: "f \<in> set known \<Longrightarrow> zombie_holds I out f" for f using assms(1) by blast
  from assms(2) show ?thesis
    unfolding zombie_rules_def set_append Un_iff
    by (elim disjE; auto simp: becomes_zombie_def dest!: known intro: zombie_requires.intros) blast
qed

lemma zombie_derivable_sound:
  "f \<in> derivable (zombie_rules (zombie_base_of I out)) [] \<Longrightarrow> zombie_holds I out f"
proof (induction rule: derivable.induct)
  case (derived known f)
  then show ?case by (intro zombie_rules_sound) auto
qed simp

section \<open>Everything the rules require is derived\<close>

abbreviation zombie_derived :: "all_input \<Rightarrow> all_output \<Rightarrow> zombie_fact set" where
  "zombie_derived I out \<equiv> derivable (zombie_rules (zombie_base_of I out)) []"

text \<open>One application of each rule.\<close>

lemma derive_rp: "ZombieRequires r l p \<in> zombie_derived I out \<Longrightarrow> ZombieRequiresRp (r, p) l \<in> zombie_derived I out"
  by (erule derivable_one [rotated]) (simp add: zombie_rules_def from_map_def zr_of_def tuples_def map_filter_def)

lemma derive_p: "ZombieRequires r l p \<in> zombie_derived I out \<Longrightarrow> ZombieRequiresP p (l, r) \<in> zombie_derived I out"
  by (erule derivable_one [rotated]) (simp add: zombie_rules_def from_map_def zr_of_def tuples_def map_filter_def)

lemma derive_1:
  "\<lbrakk>contains_loan out r l p; (l, p) \<in> set (loan_killed_at I)\<rbrakk> \<Longrightarrow> ZombieRequires1 p (l, r) \<in> zombie_derived I out"
  by (rule derivable.derived [where known = "[]"]) (force simp: zombie_rules_def)+

lemma derive_2:
  "\<lbrakk>ZombieRequires1 p (l, r) \<in> zombie_derived I out; (p, q) \<in> set (cfg_edge I)\<rbrakk>
   \<Longrightarrow> ZombieRequires2 (r, q) l \<in> zombie_derived I out"
  by (erule derivable_one [rotated]) (force simp: zombie_rules_def)

lemma derive_3:
  "\<lbrakk>ZombieRequiresP p (l, r) \<in> zombie_derived I out; (p, q) \<in> set (cfg_edge I)\<rbrakk>
   \<Longrightarrow> ZombieRequires3 (r, q) l \<in> zombie_derived I out"
  by (erule derivable_one [rotated]) (force simp: zombie_rules_def)

lemma derive_4:
  "\<lbrakk>ZombieRequires1 p (l, r) \<in> zombie_derived I out; (p, q) \<in> set (cfg_edge I)\<rbrakk>
   \<Longrightarrow> ZombieRequires4 (r, q) (p, l) \<in> zombie_derived I out"
  by (erule derivable_one [rotated]) (force simp: zombie_rules_def)

lemma derive_from_2:
  "\<lbrakk>ZombieRequires2 (r, q) l \<in> zombie_derived I out; is_live out r q\<rbrakk> \<Longrightarrow> ZombieRequires r l q \<in> zombie_derived I out"
  by (erule derivable_one [rotated]) (force simp: zombie_rules_def)

lemma derive_from_3:
  "\<lbrakk>ZombieRequires3 (r, q) l \<in> zombie_derived I out; is_live out r q\<rbrakk> \<Longrightarrow> ZombieRequires r l q \<in> zombie_derived I out"
  by (erule derivable_one [rotated]) (force simp: zombie_rules_def)

lemma derive_become:
  "\<lbrakk>ZombieRequires4 (r, q) (p, l) \<in> zombie_derived I out; is_live out r q\<rbrakk>
   \<Longrightarrow> BorrowBecomeZombieAt l p \<in> zombie_derived I out"
  by (erule derivable_one [rotated]) (force simp: zombie_rules_def)

lemma derive_subset:
  "\<lbrakk>ZombieRequiresRp (r1, p) l \<in> zombie_derived I out; subset_holds out r1 r2 p\<rbrakk>
   \<Longrightarrow> ZombieRequires r2 l p \<in> zombie_derived I out"
  by (erule derivable_one [rotated]) (force simp: zombie_rules_def)

lemma derive_live:
  "\<lbrakk>ZombieRequiresRp (r, p) l \<in> zombie_derived I out; is_live out r p\<rbrakk>
   \<Longrightarrow> ZombieBorrowLiveAt l p \<in> zombie_derived I out"
  by (erule derivable_one [rotated]) (force simp: zombie_rules_def)

lemma derive_requires: "zombie_requires I out r l p \<Longrightarrow> ZombieRequires r l p \<in> zombie_derived I out"
proof (induction rule: zombie_requires.induct)
  case (killed r l p q)
  then show ?case by (meson derive_1 derive_2 derive_from_2)
next
  case (subset r1 l p r2)
  then show ?case by (meson derive_rp derive_subset)
next
  case (flow r l p q)
  then show ?case by (meson derive_p derive_3 derive_from_3)
qed

lemma zombie_derivable_complete:
  assumes "zombie_holds I out f"
  shows "f \<in> zombie_derived I out"
  using assms
  by (induction I out f rule: zombie_holds.induct)
     (auto simp: becomes_zombie_def intro: derive_requires derive_rp derive_p derive_1 derive_2 derive_3
        derive_4 derive_live derive_become)

lemma zombie_derivable: "zombie_derived I out = Collect (zombie_holds I out)"
  using zombie_derivable_sound zombie_derivable_complete by blast

section \<open>The derivation is finite\<close>

definition fact_origins :: "all_output \<Rightarrow> origin set" where
  "fact_origins out = set (concat (map (\<lambda>(_, rs). rs) (origin_live_on_entry out)))
     \<union> set (concat (map (\<lambda>(_, m). concat (map (\<lambda>(_, rs). rs) m)) (subset_at out)))
     \<union> set (concat (map (\<lambda>(_, m). map fst m) (origin_contains_loan_at out)))"

definition fact_loans :: "all_input \<Rightarrow> loan set" where
  "fact_loans I = fst ` set (loan_killed_at I)"

definition fact_points :: "all_input \<Rightarrow> point_index set" where
  "fact_points I = snd ` set (loan_killed_at I) \<union> fst ` set (cfg_edge I) \<union> snd ` set (cfg_edge I)"

lemma finite_universe: "finite (fact_origins out)" "finite (fact_loans I)" "finite (fact_points I)"
  by (auto simp: fact_origins_def fact_loans_def fact_points_def)

lemma universe_contains: "contains_loan out r l p \<Longrightarrow> r \<in> fact_origins out"
  unfolding contains_loan_def fact_origins_def Un_iff in_concat_map_pair set_map
  by (metis fst_conv imageI)

lemma universe_live: "is_live out r p \<Longrightarrow> r \<in> fact_origins out"
  unfolding is_live_def fact_origins_def Un_iff in_concat_map_pair by blast

lemma universe_subset: "subset_holds out r1 r p \<Longrightarrow> r \<in> fact_origins out"
  unfolding subset_holds_def fact_origins_def Un_iff in_concat_map_pair by blast

lemma universe_killed: "(l, p) \<in> set (loan_killed_at I) \<Longrightarrow> l \<in> fact_loans I \<and> p \<in> fact_points I"
  unfolding fact_loans_def fact_points_def by force

lemma universe_edge: "(p, q) \<in> set (cfg_edge I) \<Longrightarrow> p \<in> fact_points I \<and> q \<in> fact_points I"
  unfolding fact_points_def by force

lemmas universe_base = universe_contains universe_live universe_subset universe_killed universe_edge

lemma universe_requires:
  "zombie_requires I out r l p \<Longrightarrow> r \<in> fact_origins out \<and> l \<in> fact_loans I \<and> p \<in> fact_points I"
  by (induction rule: zombie_requires.induct) (auto dest: universe_base)

definition zombie_universe :: "origin set \<Rightarrow> loan set \<Rightarrow> point_index set \<Rightarrow> zombie_fact set" where
  "zombie_universe R L P =
     (\<lambda>(r, l, p). ZombieRequires r l p) ` (R \<times> L \<times> P) \<union>
     (\<lambda>(l, p). ZombieBorrowLiveAt l p) ` (L \<times> P) \<union>
     (\<lambda>(l, p). BorrowBecomeZombieAt l p) ` (L \<times> P) \<union>
     (\<lambda>(k, l). ZombieRequiresRp k l) ` ((R \<times> P) \<times> L) \<union>
     (\<lambda>(p, k). ZombieRequiresP p k) ` (P \<times> L \<times> R) \<union>
     (\<lambda>(p, k). ZombieRequires1 p k) ` (P \<times> L \<times> R) \<union>
     (\<lambda>(k, l). ZombieRequires2 k l) ` ((R \<times> P) \<times> L) \<union>
     (\<lambda>(k, l). ZombieRequires3 k l) ` ((R \<times> P) \<times> L) \<union>
     (\<lambda>(k, h). ZombieRequires4 k h) ` ((R \<times> P) \<times> P \<times> L)"

lemma zombie_universe_intros:
  "\<lbrakk>r \<in> R; l \<in> L; p \<in> P\<rbrakk> \<Longrightarrow> ZombieRequires r l p \<in> zombie_universe R L P"
  "\<lbrakk>l \<in> L; p \<in> P\<rbrakk> \<Longrightarrow> ZombieBorrowLiveAt l p \<in> zombie_universe R L P"
  "\<lbrakk>l \<in> L; p \<in> P\<rbrakk> \<Longrightarrow> BorrowBecomeZombieAt l p \<in> zombie_universe R L P"
  "\<lbrakk>r \<in> R; l \<in> L; p \<in> P\<rbrakk> \<Longrightarrow> ZombieRequiresRp (r, p) l \<in> zombie_universe R L P"
  "\<lbrakk>r \<in> R; l \<in> L; p \<in> P\<rbrakk> \<Longrightarrow> ZombieRequiresP p (l, r) \<in> zombie_universe R L P"
  "\<lbrakk>r \<in> R; l \<in> L; p \<in> P\<rbrakk> \<Longrightarrow> ZombieRequires1 p (l, r) \<in> zombie_universe R L P"
  "\<lbrakk>r \<in> R; l \<in> L; p \<in> P\<rbrakk> \<Longrightarrow> ZombieRequires2 (r, p) l \<in> zombie_universe R L P"
  "\<lbrakk>r \<in> R; l \<in> L; p \<in> P\<rbrakk> \<Longrightarrow> ZombieRequires3 (r, p) l \<in> zombie_universe R L P"
  "\<lbrakk>r \<in> R; l \<in> L; p \<in> P; q \<in> P\<rbrakk> \<Longrightarrow> ZombieRequires4 (r, q) (p, l) \<in> zombie_universe R L P"
  unfolding zombie_universe_def Un_iff image_iff Bex_def split_paired_Ex case_prod_conv by simp_all

lemma zombie_holds_universe:
  assumes "zombie_holds I out f"
  shows "f \<in> zombie_universe (fact_origins out) (fact_loans I) (fact_points I)"
  using assms
  by (induction I out f rule: zombie_holds.induct)
     (auto simp: becomes_zombie_def dest!: universe_requires dest: universe_base intro!: zombie_universe_intros)

lemma finite_zombie_derived: "finite (zombie_derived I out)"
proof (rule finite_subset)
  show "zombie_derived I out \<subseteq> zombie_universe (fact_origins out) (fact_loans I) (fact_points I)"
    using zombie_derivable zombie_holds_universe by auto
  show "finite (zombie_universe (fact_origins out) (fact_loans I) (fact_points I))"
    by (simp add: zombie_universe_def finite_universe)
qed

section \<open>The derived maps\<close>

lemma push_loan_lookup:
  "loans_of (push_loan (l, p) m) q = (if q = p then loans_of m p @ [l] else loans_of m q)"
  by (simp add: push_loan_def update_conv' loans_of_def)

lemma push_loans_lookup:
  "loans_of (fold push_loan es m) q = loans_of m q @ map fst (filter (\<lambda>e. snd e = q) es)"
proof (induction es arbitrary: m)
  case (Cons e es)
  obtain l p where "e = (l, p)" by (cases e)
  with Cons push_loan_lookup [of l p m q] show ?case by simp
qed simp

lemma derive_zombie_requires_result:
  assumes "datalog engine" and "derive_zombie_requires engine I out = (live, become)"
  shows "set (loans_of live p) = {l. \<exists>r. zombie_requires I out r l p \<and> is_live out r p}"
    and "set (loans_of become p) = {l. becomes_zombie I out l p}"
proof -
  have known: "set (engine (zombie_rules (zombie_base_of I out)) []) = Collect (zombie_holds I out)"
    using datalog.complete [OF assms(1) monotone_zombie_rules finite_zombie_derived] zombie_derivable by metis
  from assms(2) have maps:
    "live = fold push_loan (elements (live_of (engine (zombie_rules (zombie_base_of I out)) []))) []"
    "become = fold push_loan (elements (become_of (engine (zombie_rules (zombie_base_of I out)) []))) []"
    by (auto simp: derive_zombie_requires_def Let_def)
  have pick: "x \<in> fst ` {e \<in> A. snd e = p} \<longleftrightarrow> (x, p) \<in> A" for x and A :: "(loan \<times> point_index) set"
    by force
  show "set (loans_of live p) = {l. \<exists>r. zombie_requires I out r l p \<and> is_live out r p}"
    by (rule set_eqI) (simp add: maps push_loans_lookup pick known loans_of_def [of "[]"])
  show "set (loans_of become p) = {l. becomes_zombie I out l p}"
    by (rule set_eqI) (simp add: maps push_loans_lookup pick known loans_of_def [of "[]"])
qed

section \<open>What the loan queries return\<close>

text \<open>When a loan is live and when it is active, over the facts.\<close>

definition loan_live :: "all_input \<Rightarrow> all_output \<Rightarrow> bool \<Rightarrow> loan \<Rightarrow> point_index \<Rightarrow> bool" where
  "loan_live F out zombie x p \<longleftrightarrow>
     (if zombie then \<exists>r. zombie_requires F out r x p \<and> is_live out r p else x \<in> set (loans_of (loan_live_at out) p))"

definition loan_active :: "all_input \<Rightarrow> all_output \<Rightarrow> bool \<Rightarrow> loan \<Rightarrow> point_index \<Rightarrow> bool" where
  "loan_active F out zombie x p \<longleftrightarrow>
     loan_live F out zombie x p \<or> \<not> zombie \<and> (\<exists>r. (r, x, p) \<in> set (loan_issued_at F))"

text \<open>What the assertions of \<open>get_active_loans\<close> rely on: a loan live at the start of a statement is live in its middle.\<close>

definition live_through :: "polonius_info \<Rightarrow> bool \<Rightarrow> location \<Rightarrow> bool" where
  "live_through I zombie l \<longleftrightarrow>
     set (loans_of (get_borrow_live_at I zombie) (get_point I l Start))
       \<subseteq> set (loans_of (get_borrow_live_at I zombie) (get_point I l Mid)) \<and>
     (map_of (get_borrow_live_at I zombie) (get_point I l Mid) = None \<longrightarrow>
      map_of (get_borrow_live_at I zombie) (get_point I l Start) = None)"

lemma polonius_info_new_result:
  assumes "polonius_info_new engine compute m tys (Some F) (Some T) = Some I"
  shows "pi_mir I = m" "pi_local_tys I = tys" "borrowck_in_facts I = F" "borrowck_out_facts I = compute F"
    "interner I = T" "additional_facts I = additional_facts_new engine F (compute F)"
    "loan_position I = fold (\<lambda>(_, l, p) f. f(l \<mapsto> pt_location (get_point_of_index T p))) (loan_issued_at F) Map.empty"
    "loan_at_position I = fold (\<lambda>(_, l, p) f. f(pt_location (get_point_of_index T p) \<mapsto> l)) (loan_issued_at F) Map.empty"
  using assms by (auto simp: polonius_info_new_def Let_def)

lemma borrow_live_at_result:
  assumes "datalog engine" and "polonius_info_new engine compute m tys (Some F) (Some T) = Some I"
  shows "x \<in> set (loans_of (get_borrow_live_at I zombie) p) \<longleftrightarrow> loan_live F (compute F) zombie x p"
    and "x \<in> set (loans_of (borrow_become_zombie_at (additional_facts I)) p) \<longleftrightarrow> becomes_zombie F (compute F) x p"
proof -
  obtain live become where d: "derive_zombie_requires engine F (compute F) = (live, become)" by fastforce
  note D = derive_zombie_requires_result [OF assms(1) d]
  note I = polonius_info_new_result [OF assms(2)]
  show "x \<in> set (loans_of (get_borrow_live_at I zombie) p) \<longleftrightarrow> loan_live F (compute F) zombie x p"
    using D(1) [of p] by (auto simp: get_borrow_live_at_def I additional_facts_new_def d loan_live_def)
  show "x \<in> set (loans_of (borrow_become_zombie_at (additional_facts I)) p) \<longleftrightarrow> becomes_zombie F (compute F) x p"
    using D(2) [of p] by (simp add: I additional_facts_new_def d)
qed

lemma set_add_issued: "set (add_issued F mid ls) = set ls \<union> {l. \<exists>r. (r, l, mid) \<in> set (loan_issued_at F)}"
proof -
  have "set (fold (\<lambda>(_, l, p) loans. if p = mid \<and> l \<notin> set loans then loans @ [l] else loans) xs ls)
    = set ls \<union> {l. \<exists>r. (r, l, mid) \<in> set xs}" for xs :: "(origin \<times> loan \<times> point_index) list"
    by (induction xs arbitrary: ls) (auto split: if_splits)
  then show ?thesis by (simp add: add_issued_def)
qed

lemma get_active_loans_set:
  assumes "live_through I zombie l"
  shows "\<exists>ls. get_active_loans I l zombie = Some ls \<and>
    set ls = set (loans_of (get_borrow_live_at I zombie) (get_point I l Mid))
      \<union> (if zombie then {} else {x. \<exists>r. (r, x, get_point I l Mid) \<in> set (loan_issued_at (borrowck_in_facts I))})"
proof (cases "map_of (get_borrow_live_at I zombie) (get_point I l Mid)")
  case None
  with assms show ?thesis by (simp add: get_active_loans_def live_through_def set_add_issued loans_of_def)
next
  case (Some mid_loans)
  then have mid: "loans_of (get_borrow_live_at I zombie) (get_point I l Mid) = mid_loans" by (simp add: loans_of_def)
  with assms have "list_all (\<lambda>x. x \<in> set (sort mid_loans))
      (sort (loans_of (get_borrow_live_at I zombie) (get_point I l Start)))"
    by (auto simp: live_through_def list_all_iff)
  with Some mid show ?thesis by (simp add: get_active_loans_def set_add_issued Let_def)
qed

lemma get_loans_dying_at_result:
  assumes engine: "datalog engine"
    and new: "polonius_info_new engine compute m tys (Some F) (Some T) = Some I"
    and through: "live_through I zombie l"
    and succs: "get_successors E I l = Some succs" and ret: "is_return m l = Some ret"
  shows "\<exists>ls. get_loans_dying_at E I l zombie = Some ls \<and>
    set ls = {x. loan_active F (compute F) zombie x (get_point I l Mid)
      \<and> \<not> becomes_zombie F (compute F) x (get_point I l Mid)
      \<and> (\<forall>s \<in> set succs. \<not> loan_live F (compute F) zombie x (get_point I s Start))
      \<and> \<not> (succs = [] \<and> ret)}"
proof -
  note I = polonius_info_new_result [OF new]
  note live = borrow_live_at_result [OF engine new]
  from get_active_loans_set [OF through] obtain ls where
    ls: "get_active_loans I l zombie = Some ls"
    "set ls = set (loans_of (get_borrow_live_at I zombie) (get_point I l Mid))
      \<union> (if zombie then {} else {x. \<exists>r. (r, x, get_point I l Mid) \<in> set (loan_issued_at (borrowck_in_facts I))})"
    by blast
  have active: "x \<in> set ls \<longleftrightarrow> loan_active F (compute F) zombie x (get_point I l Mid)" for x
    by (auto simp: ls(2) live loan_active_def I)
  have ret': "is_return (pi_mir I) l = Some ret" using ret I(1) by simp
  let ?dead = "\<lambda>x. x \<notin> set (loans_of (borrow_become_zombie_at (additional_facts I)) (get_point I l Mid))"
  let ?gone = "\<lambda>x. \<not> (list_ex (\<lambda>s. x \<in> set (loans_of (get_borrow_live_at I zombie) (get_point I s Start))) succs
     \<or> (succs = [] \<and> ret))"
  have "get_loans_dying_at E I l zombie = Some (filter ?dead (filter ?gone ls))"
    by (simp only: get_loans_dying_at_def succs ret' ls(1) Let_def option.map Option.bind.bind_lunit)
  moreover have "x \<in> set (filter ?dead (filter ?gone ls)) \<longleftrightarrow>
      loan_active F (compute F) zombie x (get_point I l Mid)
      \<and> \<not> becomes_zombie F (compute F) x (get_point I l Mid)
      \<and> (\<forall>s \<in> set succs. \<not> loan_live F (compute F) zombie x (get_point I s Start))
      \<and> \<not> (succs = [] \<and> ret)" for x
    by (simp only: set_filter mem_Collect_eq list_ex_iff live active) blast
  ultimately show ?thesis by blast
qed

lemma filter_one: "\<lbrakk>distinct xs; x \<in> set xs; \<And>y. y \<in> set xs \<Longrightarrow> P y \<longleftrightarrow> y = x\<rbrakk> \<Longrightarrow> filter P xs = [x]"
proof (induction xs)
  case (Cons a xs)
  then show ?case
  proof (cases "a = x")
    case True
    with Cons.prems show ?thesis by (auto simp: filter_empty_conv)
  qed auto
qed simp

lemma fold_upd_lookup:
  assumes "x \<in> set xs" and "\<And>y. y \<in> set xs \<Longrightarrow> k y = k x \<Longrightarrow> v y = v x"
  shows "fold (\<lambda>y f. f(k y \<mapsto> v y)) xs m (k x) = Some (v x)"
proof -
  have keep: "fold (\<lambda>y f. f(k y \<mapsto> v y)) ys m (k x) = Some (v x)"
    if "set ys \<subseteq> set xs" "m (k x) = Some (v x)" for ys m
    using that by (induction ys arbitrary: m) (auto simp: assms(2))
  have "fold (\<lambda>y f. f(k y \<mapsto> v y)) ys m (k x) = Some (v x)" if "x \<in> set ys" "set ys \<subseteq> set xs" for ys m
    using that
  proof (induction ys arbitrary: m)
    case (Cons y ys)
    show ?case
    proof (cases "x \<in> set ys")
      case True
      with Cons show ?thesis by simp
    next
      case False
      with Cons.prems have "y = x" by simp
      with Cons.prems keep [of ys "m(k x \<mapsto> v x)"] show ?thesis by (simp del: fun_upd_apply add: fun_upd_same)
    qed
  qed simp
  with assms(1) show ?thesis by blast
qed

text \<open>Polonius issues every loan once, for an origin of its own.\<close>

definition loans_issued_once :: "all_input \<Rightarrow> bool" where
  "loans_issued_once F \<longleftrightarrow>
     distinct (map fst (loan_issued_at F)) \<and> distinct (map (\<lambda>(_, l, _). l) (loan_issued_at F))"

lemma issued_once_loan:
  "\<lbrakk>loans_issued_once F; (r, l, p) \<in> set (loan_issued_at F); (r', l, p') \<in> set (loan_issued_at F)\<rbrakk> \<Longrightarrow> r' = r \<and> p' = p"
  using inj_onD [of "\<lambda>(_, l, _). l" "set (loan_issued_at F)" "(r, l, p)" "(r', l, p')"]
  by (auto simp: loans_issued_once_def distinct_map)

lemma issued_once_origin:
  "\<lbrakk>loans_issued_once F; (r, l, p) \<in> set (loan_issued_at F); (r, l', p') \<in> set (loan_issued_at F)\<rbrakk> \<Longrightarrow> l' = l \<and> p' = p"
  using inj_onD [of fst "set (loan_issued_at F)" "(r, l, p)" "(r, l', p')"]
  by (auto simp: loans_issued_once_def distinct_map)

lemma loan_region_result:
  assumes new: "polonius_info_new engine compute m tys (Some F) (Some T) = Some I"
    and once: "loans_issued_once F" and issued: "(r, l, p) \<in> set (loan_issued_at F)"
    and table: "get_point_of_index T p = \<lparr>pt_location = location, pt_typ = Mid\<rparr>" "mid_index T location = p"
  shows "get_loan_location I l = Some location \<and> atomic_region_of_loan I l = Some (Loan r)
    \<and> mk_atomic_region E I r = Some (Loan r)"
proof -
  note I = polonius_info_new_result [OF new]
  have dist: "distinct (loan_issued_at F)" using once by (simp add: loans_issued_once_def distinct_map)
  have "fold (\<lambda>y f. f(fst (snd y) \<mapsto> pt_location (get_point_of_index T (snd (snd y))))) (loan_issued_at F) Map.empty
      (fst (snd (r, l, p))) = Some (pt_location (get_point_of_index T (snd (snd (r, l, p)))))"
    using issued_once_loan [OF once issued] by (intro fold_upd_lookup [OF issued]) auto
  then have location: "get_loan_location I l = Some location"
    by (simp add: get_loan_location_def I case_prod_beta' table(1) del: fun_upd_apply)
  have point: "get_point I location Mid = p" by (simp add: get_point_def get_point_index_def I table(2))
  have "filter (\<lambda>(_, l', p'). p' = p \<and> l' = l) (loan_issued_at F) = [(r, l, p)]"
    using issued_once_loan [OF once issued] by (intro filter_one [OF dist issued]) auto
  then have loan: "atomic_region_of_loan I l = Some (Loan r)"
    by (simp add: atomic_region_of_loan_def get_loan_issued_at_for_loan_def location point I)
  have "filter (\<lambda>(r', _, _). r' = r) (loan_issued_at F) = [(r, l, p)]"
    using issued_once_origin [OF once issued] by (intro filter_one [OF dist issued]) auto
  then have "mk_atomic_region E I r = Some (Loan r)"
    by (simp add: mk_atomic_region_def get_region_kind_def I)
  with location loan show ?thesis by simp
qed

section \<open>Properties\<close>

text \<open>
  C17. The loans reported as dying at a location: the query returns, and reports exactly the loans
  that are active in the middle of the statement, do not become zombies there, are live at the
  start of no successor, and are not returned. For zombie loans, being live is what the datalog
  rules stated in the comments of the source derive from the borrow checker's facts, for every
  engine that keeps the promise of the \<open>datafrog\<close> crate.
\<close>

theorem get_loans_dying_at_spec:
  assumes "datalog engine"
    and "polonius_info_new engine compute m tys (Some F) (Some T) = Some I"
    and "live_through I zombie l"
    and "get_successors E I l = Some succs" and "is_return m l = Some ret"
  shows "\<exists>ls. get_loans_dying_at E I l zombie = Some ls \<and>
    set ls = {x. loan_active F (compute F) zombie x (get_point I l Mid)
      \<and> \<not> becomes_zombie F (compute F) x (get_point I l Mid)
      \<and> (\<forall>s \<in> set succs. \<not> loan_live F (compute F) zombie x (get_point I s Start))
      \<and> \<not> (succs = [] \<and> ret)}"
  using get_loans_dying_at_result [OF assms] .

text \<open>Two statements; loan 0 is created in the middle of the first one and loan 1 is killed there.\<close>

definition sample_table :: location_table where
  "sample_table =
     \<lparr>start_index = (\<lambda>l. 20 * loc_block l + 2 * statement_index l),
      mid_index = (\<lambda>l. 20 * loc_block l + 2 * statement_index l + 1),
      to_rich_location = (\<lambda>i. let l = loc (i div 20) (i mod 20 div 2)
                              in if even i then RichStart l else RichMid l)\<rparr>"

definition sample_input :: all_input where
  "sample_input =
     \<lparr>loan_issued_at = [(5, 0, 1)], placeholder = [], subset_base = [], known_placeholder_subset = [], loan_killed_at = [(1, 1)],
      cfg_edge = [(0, 1), (1, 2), (2, 3)]\<rparr>"

definition sample_output :: "all_input \<Rightarrow> all_output" where
  "sample_output F =
     \<lparr>loan_live_at = [(1, [1])], origin_contains_loan_at = [(1, [(6, [1])])],
      origin_live_on_entry = [(2, [6])], subset_at = []\<rparr>"

definition sample_penv :: polonius_env where
  "sample_penv = \<lparr>term_successors = named_targets, ty_regions = (\<lambda>t. [])\<rparr>"

definition sample_info :: polonius_info where
  "sample_info = the (polonius_info_new saturate sample_output sample_body [] (Some sample_input) (Some sample_table))"

lemma sample_info_new:
  "polonius_info_new saturate sample_output sample_body [] (Some sample_input) (Some sample_table) = Some sample_info"
  by (simp add: sample_info_def polonius_info_new_def Let_def)

lemma sample_points: "get_point sample_info (loc 0 0) Start = 0" "get_point sample_info (loc 0 0) Mid = 1"
    "get_point sample_info (loc 0 1) Start = 2"
  by (simp_all add: get_point_def get_point_index_def polonius_info_new_result [OF sample_info_new] sample_table_def)

theorem get_loans_dying_at_spec_witness:
  "\<exists>ls. get_loans_dying_at sample_penv sample_info (loc 0 0) False = Some ls \<and> set ls = {0}"
proof -
  note I = polonius_info_new_result [OF sample_info_new]
  have through: "live_through sample_info False (loc 0 0)"
    by (simp add: live_through_def sample_points get_borrow_live_at_def I sample_output_def loans_of_def)
  have succs: "get_successors sample_penv sample_info (loc 0 0) = Some [loc 0 1]"
    by (simp add: get_successors_def terminator_at_def I sample_body_def)
  have ret: "is_return sample_body (loc 0 0) = Some False"
    by (simp add: is_return_def terminator_at_def sample_body_def)
  from get_loans_dying_at_spec [OF saturate_datalog sample_info_new through succs ret]
  obtain ls where ls: "get_loans_dying_at sample_penv sample_info (loc 0 0) False = Some ls"
    "set ls = {x. loan_active sample_input (sample_output sample_input) False x 1
      \<and> \<not> becomes_zombie sample_input (sample_output sample_input) x 1
      \<and> (\<forall>s \<in> set [loc 0 1]. \<not> loan_live sample_input (sample_output sample_input) False x (get_point sample_info s Start))
      \<and> \<not> ([loc 0 1] = [] \<and> False)}"
    unfolding sample_points by blast
  have "becomes_zombie sample_input (sample_output sample_input) x 1 \<longleftrightarrow> x = 1" for x
    by (auto simp: becomes_zombie_def contains_loan_def is_live_def sample_input_def sample_output_def)
  then have "set ls = {0}"
    unfolding ls(2)
    by (auto simp: sample_points loan_active_def loan_live_def sample_input_def sample_output_def loans_of_def)
  with ls(1) show ?thesis by blast
qed

text \<open>
  C18. Dying at a location and dying on its edges agree: at a location with successors, a loan is
  reported as dying exactly when it is reported as dying between the location and each successor.
\<close>

theorem dying_at_iff_dying_between:
  assumes "get_successors E I l = Some succs" and "succs \<noteq> []" and "is_return (pi_mir I) l = Some ret"
    and "get_loans_dying_at E I l zombie = Some ls"
  shows "set ls = {x. \<forall>s \<in> set succs. \<exists>between. get_loans_dying_between I l s zombie = Some between \<and> x \<in> set between}"
proof -
  from assms(4) obtain active where active: "get_active_loans I l zombie = Some active"
    by (auto simp: get_loans_dying_at_def Let_def bind_eq_Some_conv)
  let ?dead = "\<lambda>x. x \<notin> set (loans_of (borrow_become_zombie_at (additional_facts I)) (get_point I l Mid))"
  let ?live = "get_borrow_live_at I zombie"
  have "set ls = {x \<in> set active. ?dead x \<and> (\<forall>s \<in> set succs. x \<notin> set (loans_of ?live (get_point I s Start)))}"
    using assms active by (auto simp: get_loans_dying_at_def Let_def list_ex_iff)
  moreover have "(\<exists>between. get_loans_dying_between I l s zombie = Some between \<and> x \<in> set between)
      \<longleftrightarrow> x \<in> set active \<and> ?dead x \<and> x \<notin> set (loans_of ?live (get_point I s Start))" for s x
    by (auto simp: get_loans_dying_between_def Let_def active loans_of_def split: option.splits)
  ultimately show ?thesis using assms(2) by (auto simp: neq_Nil_conv)
qed

theorem dying_at_iff_dying_between_witness:
  "\<exists>between. get_loans_dying_between sample_info (loc 0 0) (loc 0 1) False = Some between \<and> 0 \<in> set between"
proof -
  note I = polonius_info_new_result [OF sample_info_new]
  have succs: "get_successors sample_penv sample_info (loc 0 0) = Some [loc 0 1]"
    by (simp add: get_successors_def terminator_at_def I sample_body_def)
  have ret: "is_return (pi_mir sample_info) (loc 0 0) = Some False"
    by (simp add: is_return_def terminator_at_def I sample_body_def)
  have through: "live_through sample_info False (loc 0 0)"
    by (simp add: live_through_def sample_points get_borrow_live_at_def I sample_output_def loans_of_def)
  have "is_return sample_body (loc 0 0) = Some False" using ret I(1) by simp
  from get_loans_dying_at_result [OF saturate_datalog sample_info_new through succs this]
  obtain ls where ls: "get_loans_dying_at sample_penv sample_info (loc 0 0) False = Some ls" "0 \<in> set ls"
    by (auto simp: sample_points loan_active_def loan_live_def becomes_zombie_def contains_loan_def is_live_def
      sample_input_def sample_output_def loans_of_def)
  from dying_at_iff_dying_between [OF succs _ ret ls(1)] ls(2) show ?thesis by auto
qed

text \<open>
  The region of a loan: for facts in which every loan is issued once and for an origin of its
  own, the location at which a loan is created is found, the atomic region of the loan is the
  origin it was issued for, and classifying that origin gives the same atomic region back.
\<close>

theorem loan_region_roundtrip:
  assumes "polonius_info_new engine compute m tys (Some F) (Some T) = Some I"
    and "loans_issued_once F" and "(r, l, p) \<in> set (loan_issued_at F)"
    and "get_point_of_index T p = \<lparr>pt_location = location, pt_typ = Mid\<rparr>" and "mid_index T location = p"
  shows "get_loan_location I l = Some location \<and> atomic_region_of_loan I l = Some (Loan r)
    \<and> mk_atomic_region E I r = Some (Loan r)"
  using loan_region_result [OF assms] .

theorem loan_region_roundtrip_witness: "mk_atomic_region sample_penv sample_info 5 = Some (Loan 5)"
proof -
  have "get_point_of_index sample_table 1 = \<lparr>pt_location = loc 0 0, pt_typ = Mid\<rparr>"
    by (simp add: get_point_of_index_def sample_table_def Let_def)
  moreover have "loans_issued_once sample_input" "(5, 0, 1) \<in> set (loan_issued_at sample_input)"
    by (simp_all add: loans_issued_once_def sample_input_def)
  ultimately show ?thesis
    using loan_region_roundtrip [OF sample_info_new, of 5 0 1 "loc 0 0" sample_penv]
    by (simp add: sample_table_def)
qed

text \<open>
  C19. \<open>compute_transitive_closure\<close> returns the transitive closure of the constraints, for every
  engine that keeps the promise of the \<open>datafrog\<close> crate.
\<close>

theorem compute_transitive_closure_spec:
  assumes "datalog engine"
  shows "set (compute_transitive_closure engine constraints) = (set constraints)\<^sup>+"
  using transitive_closure_result [OF assms] .

theorem compute_transitive_closure_spec_witness:
  "(1, 3) \<in> set (compute_transitive_closure saturate [(1, 2), (2, 3)])"
  unfolding compute_transitive_closure_spec [OF saturate_datalog] by (rule trancl_into_trancl) auto

end
