(* ===== verification/InclusionTracker.thy ===== *)
theory InclusionTracker
  imports Polonius BTree
begin

text \<open>
  \<open>translation/src/regions/inclusion_tracker.rs\<close>: the lifetime inclusions known at every program
  point. Base facts are pushed to lists; the closure under the control flow, the barriers and
  transitivity is recomputed by \<open>datafrog\<close> (the parameter \<open>engine\<close>) when a flag says that the last
  result is out of date. A method with \<open>&mut self\<close> returns the new tracker; a failed assertion or
  \<open>unreachable!\<close> is \<^term>\<open>None\<close>.
\<close>

section \<open>State\<close>

type_synonym inclusion = "origin \<times> origin \<times> point_index"

datatype dynamic_inclusion =
    ExtendLft atomic_region
  | IncludeLft atomic_region atomic_region

record inclusion_tracker =
  it_info :: polonius_info
  static_incl_base :: "inclusion list"
  dynamic_incl_base :: "inclusion list"
  static_incl :: "inclusion list option"
  full_incl :: "inclusion list option"
  barriers :: "(origin \<times> point_index) list"
  fully_invalidated :: bool
  invalidated :: bool

definition tracker_new :: "polonius_info \<Rightarrow> inclusion_tracker" where
  "tracker_new I =
     \<lparr>it_info = I, static_incl_base = [], dynamic_incl_base = [], static_incl = None, full_incl = None,
      barriers = [], fully_invalidated = True, invalidated = True\<rparr>"

definition add_static_inclusion :: "origin \<Rightarrow> origin \<Rightarrow> point_index \<Rightarrow> inclusion_tracker \<Rightarrow> inclusion_tracker" where
  "add_static_inclusion a b p t =
     t\<lparr>static_incl_base := static_incl_base t @ [(a, b, p)], invalidated := True\<rparr>"

definition add_dynamic_inclusion :: "origin \<Rightarrow> origin \<Rightarrow> point_index \<Rightarrow> inclusion_tracker \<Rightarrow> inclusion_tracker" where
  "add_dynamic_inclusion a b p t =
     t\<lparr>dynamic_incl_base := dynamic_incl_base t @ [(a, b, p)], invalidated := True\<rparr>"

definition add_barrier :: "origin \<Rightarrow> point_index \<Rightarrow> inclusion_tracker \<Rightarrow> inclusion_tracker" where
  "add_barrier r p t =
     t\<lparr>barriers := barriers t @ [(r, p)], invalidated := True, fully_invalidated := True\<rparr>"

section \<open>The closure\<close>

text \<open>The variables of the iteration: the inclusions themselves and the indexed copies.\<close>

datatype incl_fact =
    Inclusion origin origin point_index
  | InclAt point_index "origin \<times> origin"                       \<comment> \<open>\<open>incl1\<close>\<close>
  | InclNext "origin \<times> point_index" origin                       \<comment> \<open>\<open>incl2\<close>\<close>
  | InclNextFree "origin \<times> point_index" origin                   \<comment> \<open>\<open>incl3\<close>\<close>
  | InclByTarget "origin \<times> point_index" origin                   \<comment> \<open>\<open>incl4\<close>\<close>
  | InclBySource "origin \<times> point_index" origin                   \<comment> \<open>\<open>incl5\<close>\<close>

definition inclusions_of :: "incl_fact list \<Rightarrow> inclusion list" where
  "inclusions_of = tuples (\<lambda>f. case f of Inclusion a b p \<Rightarrow> Some (a, b, p) | _ \<Rightarrow> None)"

definition incl1_tuples where
  "incl1_tuples = tuples (\<lambda>f. case f of InclAt k v \<Rightarrow> Some (k, v) | _ \<Rightarrow> None)"

definition incl2_tuples where
  "incl2_tuples = tuples (\<lambda>f. case f of InclNext k v \<Rightarrow> Some (k, v) | _ \<Rightarrow> None)"

definition incl3_tuples where
  "incl3_tuples = tuples (\<lambda>f. case f of InclNextFree k v \<Rightarrow> Some (k, v) | _ \<Rightarrow> None)"

definition incl4_tuples where
  "incl4_tuples = tuples (\<lambda>f. case f of InclByTarget k v \<Rightarrow> Some (k, v) | _ \<Rightarrow> None)"

definition incl5_tuples where
  "incl5_tuples = tuples (\<lambda>f. case f of InclBySource k v \<Rightarrow> Some (k, v) | _ \<Rightarrow> None)"

definition inclusion_rules ::
  "(origin \<times> point_index) list \<Rightarrow> (point_index \<times> point_index) list \<Rightarrow> incl_fact list \<Rightarrow> incl_fact list" where
  "inclusion_rules bars edges known =
     from_map (inclusions_of known) (\<lambda>(r1, r2, p). InclByTarget (r2, p) r1) @
     from_map (inclusions_of known) (\<lambda>(r2, r3, p). InclBySource (r2, p) r3) @
     from_map (inclusions_of known) (\<lambda>(r1, r2, p). InclAt p (r1, r2)) @
     from_join edges (incl1_tuples known) (\<lambda>_ p2 (r1, r2). InclNext (r1, p2) r2) @
     from_antijoin (incl2_tuples known) bars (\<lambda>(r1, p2) r2. InclNextFree (r2, p2) r1) @
     from_antijoin (incl3_tuples known) bars (\<lambda>(r2, p2) r1. Inclusion r1 r2 p2) @
     from_join (incl4_tuples known) (incl5_tuples known) (\<lambda>(_, p) r1 r3. Inclusion r1 r3 p)"

type_synonym incl_engine = "(incl_fact list \<Rightarrow> incl_fact list) \<Rightarrow> incl_fact list \<Rightarrow> incl_fact list"

text \<open>\<open>compute_transitive_closure\<close> followed by \<open>complete().elements\<close>\<close>

definition tracker_closure :: "incl_engine \<Rightarrow> inclusion_tracker \<Rightarrow> inclusion list \<Rightarrow> inclusion list" where
  "tracker_closure engine t base =
     inclusions_of (engine (inclusion_rules (barriers t) (cfg_edge (borrowck_in_facts (it_info t))))
                      (map (\<lambda>(a, b, p). Inclusion a b p) base))"

definition recompute_static_incl :: "incl_engine \<Rightarrow> inclusion_tracker \<Rightarrow> inclusion_tracker" where
  "recompute_static_incl engine t =
     (let base = static_incl_base t @
            (if \<not> fully_invalidated t then (case static_incl t of Some s \<Rightarrow> s | None \<Rightarrow> []) else [])
      in t\<lparr>static_incl := Some (tracker_closure engine t base), fully_invalidated := False, invalidated := False\<rparr>)"

definition recompute :: "incl_engine \<Rightarrow> inclusion_tracker \<Rightarrow> inclusion_tracker" where
  "recompute engine t0 =
     (let t = recompute_static_incl engine t0;
          base = (if \<not> fully_invalidated t then (case full_incl t of Some s \<Rightarrow> s | None \<Rightarrow> []) else []) @
            (case static_incl t of Some s \<Rightarrow> s | None \<Rightarrow> []) @ dynamic_incl_base t
      in t\<lparr>full_incl := Some (tracker_closure engine t base), fully_invalidated := False, invalidated := False\<rparr>)"

section \<open>Queries\<close>

definition contains_incl :: "inclusion list option \<Rightarrow> inclusion \<Rightarrow> bool" where
  "contains_incl s x = (case s of None \<Rightarrow> False | Some xs \<Rightarrow> x \<in> set xs)"

definition check_inclusion ::
  "incl_engine \<Rightarrow> origin \<Rightarrow> origin \<Rightarrow> point_index \<Rightarrow> inclusion_tracker \<Rightarrow> bool \<times> inclusion_tracker" where
  "check_inclusion engine r1 r2 p t0 =
     (let t = (if invalidated t0 \<or> full_incl t0 = None then recompute engine t0 else t0)
      in (contains_incl (full_incl t) (r1, r2, p) \<or> r1 = r2, t))"

definition is_region_known :: "origin \<Rightarrow> inclusion_tracker \<Rightarrow> bool" where
  "is_region_known r1 t = list_ex (\<lambda>(rx, ry, _). rx = r1 \<or> ry = r1) (static_incl_base t)"

definition check_static_inclusion ::
  "incl_engine \<Rightarrow> origin \<Rightarrow> origin \<Rightarrow> point_index \<Rightarrow> inclusion_tracker \<Rightarrow> bool \<times> inclusion_tracker" where
  "check_static_inclusion engine r1 r2 p t0 =
     (let t = (if invalidated t0 \<or> static_incl t0 = None then recompute_static_incl engine t0 else t0)
      in (contains_incl (static_incl t) (r1, r2, p) \<or> r1 = r2, t))"

section \<open>Generating dynamic inclusions\<close>

type_synonym annots = "dynamic_inclusion list"

definition generate_dyn_inclusion ::
  "polonius_env \<Rightarrow> incl_engine \<Rightarrow> inclusion \<Rightarrow> annots \<times> inclusion_tracker \<Rightarrow> (annots \<times> inclusion_tracker) option" where
  "generate_dyn_inclusion E engine incl s =
     (case (incl, s) of ((r1, r2, p), (stmt_annots, t)) \<Rightarrow>
        (case check_inclusion engine r1 r2 p t of (holds, t1) \<Rightarrow>
           if holds then Some (stmt_annots, t1)
           else (case check_inclusion engine r2 r1 p t1 of (reverse, t2) \<Rightarrow>
             if reverse then
               (case check_static_inclusion engine r2 r1 p t2 of (static, t3) \<Rightarrow>
                  if static then
                    (let t4 = add_dynamic_inclusion r1 r2 p t3
                     in map_option (\<lambda>a. (stmt_annots @ [ExtendLft a], t4)) (mk_atomic_region E (it_info t4) r1))
                  else None)
             else
               (let t4 = add_dynamic_inclusion r1 r2 p t2
                in Option.bind (mk_atomic_region E (it_info t4) r2) (\<lambda>a2.
                   map_option (\<lambda>a1. (stmt_annots @ [IncludeLft a2 a1], t4)) (mk_atomic_region E (it_info t4) r1))))))"

definition generate_dyn_inclusions ::
  "polonius_env \<Rightarrow> incl_engine \<Rightarrow> inclusion btset \<Rightarrow> inclusion_tracker \<Rightarrow> (annots \<times> inclusion_tracker) option" where
  "generate_dyn_inclusions E engine incls t =
     fold_opt (\<lambda>(r1, r2, p) s.
         if (r2, r1, p) \<in> set incls then Some s else generate_dyn_inclusion E engine (r1, r2, p) s)
       incls ([], t)"

section \<open>The rules stated in the comments\<close>

inductive included :: "(origin \<times> point_index) set \<Rightarrow> (point_index \<times> point_index) set \<Rightarrow> inclusion set
    \<Rightarrow> origin \<Rightarrow> origin \<Rightarrow> point_index \<Rightarrow> bool"
  for bars :: "(origin \<times> point_index) set" and edges :: "(point_index \<times> point_index) set" and base :: "inclusion set" where
  base: "(r1, r2, p) \<in> base \<Longrightarrow> included bars edges base r1 r2 p"
| flow: "\<lbrakk>included bars edges base r1 r2 p1; (p1, p2) \<in> edges; (r1, p2) \<notin> bars; (r2, p2) \<notin> bars\<rbrakk>
    \<Longrightarrow> included bars edges base r1 r2 p2"
| trans: "\<lbrakk>included bars edges base r1 r2 p; included bars edges base r2 r3 p\<rbrakk> \<Longrightarrow> included bars edges base r1 r3 p"

lemma included_mono: "\<lbrakk>included bars edges base r1 r2 p; base \<subseteq> base'\<rbrakk> \<Longrightarrow> included bars edges base' r1 r2 p"
  by (induction rule: included.induct) (auto intro: included.intros)

text \<open>Adding derived facts to the base changes nothing.\<close>

lemma included_absorb:
  "included bars edges (base \<union> old) r1 r2 p \<Longrightarrow> old \<subseteq> {(a, b, q). included bars edges base a b q}
   \<Longrightarrow> included bars edges base r1 r2 p"
  by (induction rule: included.induct) (auto intro: included.intros)

fun incl_holds :: "(origin \<times> point_index) set \<Rightarrow> (point_index \<times> point_index) set \<Rightarrow> inclusion set \<Rightarrow> incl_fact \<Rightarrow> bool" where
  "incl_holds bars edges base (Inclusion a b p) = included bars edges base a b p"
| "incl_holds bars edges base (InclAt p (a, b)) = included bars edges base a b p"
| "incl_holds bars edges base (InclByTarget (b, p) a) = included bars edges base a b p"
| "incl_holds bars edges base (InclBySource (a, p) b) = included bars edges base a b p"
| "incl_holds bars edges base (InclNext (a, q) b) = (\<exists>p. included bars edges base a b p \<and> (p, q) \<in> edges)"
| "incl_holds bars edges base (InclNextFree (b, q) a) =
     ((\<exists>p. included bars edges base a b p \<and> (p, q) \<in> edges) \<and> (a, q) \<notin> bars)"

lemma in_incl_vars [simp]:
  "(a, b, p) \<in> set (inclusions_of fs) \<longleftrightarrow> Inclusion a b p \<in> set fs"
  "(p, v) \<in> set (incl1_tuples fs) \<longleftrightarrow> InclAt p v \<in> set fs"
  "(k, a) \<in> set (incl2_tuples fs) \<longleftrightarrow> InclNext k a \<in> set fs"
  "(k, a) \<in> set (incl3_tuples fs) \<longleftrightarrow> InclNextFree k a \<in> set fs"
  "(k, a) \<in> set (incl4_tuples fs) \<longleftrightarrow> InclByTarget k a \<in> set fs"
  "(k, a) \<in> set (incl5_tuples fs) \<longleftrightarrow> InclBySource k a \<in> set fs"
  unfolding inclusions_of_def incl1_tuples_def incl2_tuples_def incl3_tuples_def incl4_tuples_def incl5_tuples_def
  by (rule in_tuples_iff; force split: incl_fact.splits)+

lemma monotone_inclusion_rules: "monotone_rules (inclusion_rules bars edges)"
  unfolding inclusion_rules_def inclusions_of_def incl1_tuples_def incl2_tuples_def incl3_tuples_def incl4_tuples_def
    incl5_tuples_def
  by (intro monotone_intros)

lemma inclusion_rules_sound:
  assumes "\<forall>f \<in> set known. incl_holds (set bars) (set edges) base f" and "f \<in> set (inclusion_rules bars edges known)"
  shows "incl_holds (set bars) (set edges) base f"
proof -
  have known: "f \<in> set known \<Longrightarrow> incl_holds (set bars) (set edges) base f" for f using assms(1) by blast
  from assms(2) show ?thesis
    unfolding inclusion_rules_def set_append Un_iff
    by (elim disjE; auto dest!: known intro: included.intros)
qed

abbreviation incl_derived where
  "incl_derived bars edges base \<equiv> derivable (inclusion_rules bars edges) (map (\<lambda>(a, b, p). Inclusion a b p) base)"

lemma incl_derivable_sound:
  "f \<in> incl_derived bars edges base \<Longrightarrow> incl_holds (set bars) (set edges) (set base) f"
proof (induction rule: derivable.induct)
  case (given f)
  then show ?case by (auto intro: included.base)
next
  case (derived known f)
  then show ?case by (intro inclusion_rules_sound) auto
qed

lemma derive_by_target: "Inclusion a b p \<in> incl_derived bars edges base \<Longrightarrow> InclByTarget (b, p) a \<in> incl_derived bars edges base"
  by (erule derivable_one [rotated]) (simp add: inclusion_rules_def from_map_def inclusions_of_def tuples_def map_filter_def)

lemma derive_by_source: "Inclusion a b p \<in> incl_derived bars edges base \<Longrightarrow> InclBySource (a, p) b \<in> incl_derived bars edges base"
  by (erule derivable_one [rotated]) (simp add: inclusion_rules_def from_map_def inclusions_of_def tuples_def map_filter_def)

lemma derive_at: "Inclusion a b p \<in> incl_derived bars edges base \<Longrightarrow> InclAt p (a, b) \<in> incl_derived bars edges base"
  by (erule derivable_one [rotated]) (simp add: inclusion_rules_def from_map_def inclusions_of_def tuples_def map_filter_def)

lemma derive_next:
  "\<lbrakk>InclAt p (a, b) \<in> incl_derived bars edges base; (p, q) \<in> set edges\<rbrakk> \<Longrightarrow> InclNext (a, q) b \<in> incl_derived bars edges base"
  by (erule derivable_one [rotated]) (force simp: inclusion_rules_def)

lemma derive_next_free:
  "\<lbrakk>InclNext (a, q) b \<in> incl_derived bars edges base; (a, q) \<notin> set bars\<rbrakk>
   \<Longrightarrow> InclNextFree (b, q) a \<in> incl_derived bars edges base"
  by (erule derivable_one [rotated]) (force simp: inclusion_rules_def)

lemma derive_flow:
  "\<lbrakk>InclNextFree (b, q) a \<in> incl_derived bars edges base; (b, q) \<notin> set bars\<rbrakk>
   \<Longrightarrow> Inclusion a b q \<in> incl_derived bars edges base"
  by (erule derivable_one [rotated]) (force simp: inclusion_rules_def)

lemma derive_trans:
  "\<lbrakk>InclByTarget (b, p) a \<in> incl_derived bars edges base; InclBySource (b, p) c \<in> incl_derived bars edges base\<rbrakk>
   \<Longrightarrow> Inclusion a c p \<in> incl_derived bars edges base"
  by (rule derivable_two [where g = "InclByTarget (b, p) a" and h = "InclBySource (b, p) c"])
     (simp_all add: inclusion_rules_def from_join_def incl4_tuples_def incl5_tuples_def tuples_def map_filter_def)

lemma derive_included:
  "included (set bars) (set edges) (set base) a b p \<Longrightarrow> Inclusion a b p \<in> incl_derived bars edges base"
proof (induction rule: included.induct)
  case (base r1 r2 p)
  then show ?case by (intro derivable.given) force
next
  case (flow r1 r2 p1 p2)
  show ?case
    by (rule derive_flow [OF derive_next_free [OF derive_next [OF derive_at [OF flow.IH]]]]) (use flow.hyps in simp_all)
next
  case (trans r1 r2 p r3)
  show ?case by (rule derive_trans [OF derive_by_target [OF trans.IH(1)] derive_by_source [OF trans.IH(2)]])
qed

lemma incl_derivable: "incl_derived bars edges base = Collect (incl_holds (set bars) (set edges) (set base))"
proof -
  have "f \<in> incl_derived bars edges base" if "incl_holds (set bars) (set edges) (set base) f" for f
    using that
    by (cases "(set bars, set edges, set base, f)" rule: incl_holds.cases)
       (auto intro: derive_included derive_by_target derive_by_source derive_at derive_next derive_next_free)
  then show ?thesis using incl_derivable_sound by blast
qed

definition incl_origins :: "inclusion list \<Rightarrow> origin set" where
  "incl_origins base = fst ` set base \<union> (fst \<circ> snd) ` set base"

definition incl_points :: "(point_index \<times> point_index) list \<Rightarrow> inclusion list \<Rightarrow> point_index set" where
  "incl_points edges base = (snd \<circ> snd) ` set base \<union> snd ` set edges"

lemma included_universe:
  "included bars (set edges) (set base) a b p \<Longrightarrow> a \<in> incl_origins base \<and> b \<in> incl_origins base \<and> p \<in> incl_points edges base"
proof (induction rule: included.induct)
  case (base r1 r2 p)
  then show ?case by (force simp: incl_origins_def incl_points_def)
next
  case (flow r1 r2 p1 p2)
  then show ?case by (force simp: incl_points_def)
qed simp

definition incl_universe :: "origin set \<Rightarrow> point_index set \<Rightarrow> incl_fact set" where
  "incl_universe R P =
     (\<lambda>(a, b, p). Inclusion a b p) ` (R \<times> R \<times> P) \<union> (\<lambda>(p, v). InclAt p v) ` (P \<times> R \<times> R) \<union>
     (\<lambda>(k, a). InclNext k a) ` ((R \<times> P) \<times> R) \<union> (\<lambda>(k, a). InclNextFree k a) ` ((R \<times> P) \<times> R) \<union>
     (\<lambda>(k, a). InclByTarget k a) ` ((R \<times> P) \<times> R) \<union> (\<lambda>(k, a). InclBySource k a) ` ((R \<times> P) \<times> R)"

lemma incl_universe_intros:
  "\<lbrakk>a \<in> R; b \<in> R; p \<in> P\<rbrakk> \<Longrightarrow> Inclusion a b p \<in> incl_universe R P"
  "\<lbrakk>a \<in> R; b \<in> R; p \<in> P\<rbrakk> \<Longrightarrow> InclAt p (a, b) \<in> incl_universe R P"
  "\<lbrakk>a \<in> R; b \<in> R; p \<in> P\<rbrakk> \<Longrightarrow> InclNext (a, p) b \<in> incl_universe R P"
  "\<lbrakk>a \<in> R; b \<in> R; p \<in> P\<rbrakk> \<Longrightarrow> InclNextFree (b, p) a \<in> incl_universe R P"
  "\<lbrakk>a \<in> R; b \<in> R; p \<in> P\<rbrakk> \<Longrightarrow> InclByTarget (b, p) a \<in> incl_universe R P"
  "\<lbrakk>a \<in> R; b \<in> R; p \<in> P\<rbrakk> \<Longrightarrow> InclBySource (a, p) b \<in> incl_universe R P"
  unfolding incl_universe_def Un_iff image_iff Bex_def split_paired_Ex case_prod_conv by simp_all

lemma incl_edge_point: "(p, q) \<in> set edges \<Longrightarrow> q \<in> incl_points edges base"
  by (force simp: incl_points_def)

lemma incl_holds_universe:
  assumes "incl_holds bars (set edges) (set base) f"
  shows "f \<in> incl_universe (incl_origins base) (incl_points edges base)"
  using assms
  by (cases "(bars, set edges, set base, f)" rule: incl_holds.cases)
     (auto dest: incl_edge_point dest!: included_universe intro!: incl_universe_intros)

lemma finite_incl_derived: "finite (incl_derived bars edges base)"
proof (rule finite_subset)
  show "incl_derived bars edges base \<subseteq> incl_universe (incl_origins base) (incl_points edges base)"
    using incl_derivable incl_holds_universe by auto
  show "finite (incl_universe (incl_origins base) (incl_points edges base))"
    by (simp add: incl_universe_def incl_origins_def incl_points_def)
qed

section \<open>The tracker's answers\<close>

abbreviation edges_of_tracker :: "inclusion_tracker \<Rightarrow> (point_index \<times> point_index) set" where
  "edges_of_tracker t \<equiv> set (cfg_edge (borrowck_in_facts (it_info t)))"

definition static_closure :: "inclusion_tracker \<Rightarrow> inclusion set" where
  "static_closure t = {(a, b, p). included (set (barriers t)) (edges_of_tracker t) (set (static_incl_base t)) a b p}"

definition full_closure :: "inclusion_tracker \<Rightarrow> inclusion set" where
  "full_closure t = {(a, b, p). included (set (barriers t)) (edges_of_tracker t)
      (set (static_incl_base t) \<union> set (dynamic_incl_base t)) a b p}"

text \<open>
  The recorded closures are sound for the present base facts and barriers, and up to date when the
  tracker is not marked as invalidated.
\<close>

definition tracker_ok :: "inclusion_tracker \<Rightarrow> bool" where
  "tracker_ok t \<longleftrightarrow>
     (\<forall>S. static_incl t = Some S \<longrightarrow> \<not> fully_invalidated t \<longrightarrow> set S \<subseteq> static_closure t) \<and>
     (\<forall>S. full_incl t = Some S \<longrightarrow> set S \<subseteq> full_closure t) \<and>
     (\<not> invalidated t \<longrightarrow> \<not> fully_invalidated t \<and> (\<exists>S. static_incl t = Some S \<and> set S = static_closure t) \<and>
        (\<forall>S. full_incl t = Some S \<longrightarrow> set S = full_closure t))"

lemma set_tracker_closure:
  assumes "datalog engine"
  shows "set (tracker_closure engine t base) =
    {(a, b, p). included (set (barriers t)) (edges_of_tracker t) (set base) a b p}"
proof -
  have "set (engine (inclusion_rules (barriers t) (cfg_edge (borrowck_in_facts (it_info t))))
      (map (\<lambda>(a, b, p). Inclusion a b p) base))
    = Collect (incl_holds (set (barriers t)) (edges_of_tracker t) (set base))"
    using datalog.complete [OF assms monotone_inclusion_rules finite_incl_derived] incl_derivable by metis
  then show ?thesis by (auto simp: tracker_closure_def)
qed

lemma closure_absorb:
  assumes "old \<subseteq> {(a, b, p). included bars edges base a b p}"
  shows "included bars edges (base \<union> old) a b p \<longleftrightarrow> included bars edges base a b p"
proof
  show "included bars edges (base \<union> old) a b p \<Longrightarrow> included bars edges base a b p"
    by (erule included_absorb [OF _ assms])
  show "included bars edges base a b p \<Longrightarrow> included bars edges (base \<union> old) a b p"
    by (erule included_mono) simp
qed

lemma recompute_static_incl_result:
  assumes "datalog engine" and "tracker_ok t"
  obtains S where "recompute_static_incl engine t =
      t\<lparr>static_incl := Some S, fully_invalidated := False, invalidated := False\<rparr>" "set S = static_closure t"
proof -
  define old where "old = (if \<not> fully_invalidated t then (case static_incl t of Some s \<Rightarrow> s | None \<Rightarrow> []) else [])"
  have "set old \<subseteq> static_closure t"
  proof (cases "fully_invalidated t \<or> static_incl t = None")
    case True
    then have "old = []" unfolding old_def by (elim disjE) simp_all
    then show ?thesis by simp
  next
    case False
    with assms(2) show ?thesis unfolding tracker_ok_def by (auto simp: old_def)
  qed
  then have "set (tracker_closure engine t (static_incl_base t @ old)) = static_closure t"
    unfolding static_closure_def by (simp add: set_tracker_closure [OF assms(1)] closure_absorb)
  with that show thesis by (simp add: recompute_static_incl_def Let_def old_def)
qed

lemma static_subset_full: "static_closure t \<subseteq> full_closure t"
  unfolding static_closure_def full_closure_def by (auto elim: included_mono)

lemma full_closure_self: "included (set (barriers t)) (edges_of_tracker t) (full_closure t) a b p \<Longrightarrow> (a, b, p) \<in> full_closure t"
proof (induction rule: included.induct)
  case (base r1 r2 p)
  then show ?case .
next
  case (flow r1 r2 p1 p2)
  then show ?case unfolding full_closure_def by (auto intro: included.flow)
next
  case (trans r1 r2 p r3)
  then show ?case unfolding full_closure_def by (auto intro: included.trans)
qed

lemma recompute_result:
  assumes "datalog engine" and "tracker_ok t"
  obtains S F where "recompute engine t =
      t\<lparr>static_incl := Some S, full_incl := Some F, fully_invalidated := False, invalidated := False\<rparr>"
    "set S = static_closure t" "set F = full_closure t"
proof -
  obtain S where S: "recompute_static_incl engine t =
      t\<lparr>static_incl := Some S, fully_invalidated := False, invalidated := False\<rparr>" "set S = static_closure t"
    by (rule recompute_static_incl_result [OF assms])
  let ?t = "t\<lparr>static_incl := Some S, fully_invalidated := False, invalidated := False\<rparr>"
  define old where "old = (case full_incl t of Some s \<Rightarrow> s | None \<Rightarrow> [])"
  have old: "set old \<subseteq> full_closure t"
    using assms(2) unfolding tracker_ok_def old_def by (cases "full_incl t") simp_all
  let ?base = "set (old @ S @ dynamic_incl_base t)"
  have base: "?base \<subseteq> full_closure t" "set (static_incl_base t) \<union> set (dynamic_incl_base t) \<subseteq> ?base"
    using old S(2) static_subset_full [of t]
    by (auto simp: full_closure_def static_closure_def intro: included.base)
  have "included (set (barriers t)) (edges_of_tracker t) ?base a b p \<longleftrightarrow> (a, b, p) \<in> full_closure t" for a b p
  proof
    assume "included (set (barriers t)) (edges_of_tracker t) ?base a b p"
    from included_mono [OF this base(1)] show "(a, b, p) \<in> full_closure t" by (rule full_closure_self)
  next
    assume "(a, b, p) \<in> full_closure t"
    then show "included (set (barriers t)) (edges_of_tracker t) ?base a b p"
      using included_mono [OF _ base(2)] unfolding full_closure_def by blast
  qed
  then have "set (tracker_closure engine ?t (old @ S @ dynamic_incl_base t)) = full_closure t"
    by (auto simp: set_tracker_closure [OF assms(1)])
  with S that show thesis by (simp add: recompute_def Let_def old_def)
qed

text \<open>Queries change the cached closures only.\<close>

definition same_facts :: "inclusion_tracker \<Rightarrow> inclusion_tracker \<Rightarrow> bool" where
  "same_facts t t' \<longleftrightarrow> it_info t' = it_info t \<and> static_incl_base t' = static_incl_base t
     \<and> dynamic_incl_base t' = dynamic_incl_base t \<and> barriers t' = barriers t"

lemma same_facts_closures: "same_facts t t' \<Longrightarrow> static_closure t' = static_closure t \<and> full_closure t' = full_closure t"
  by (simp add: same_facts_def static_closure_def full_closure_def)

lemma check_inclusion_result:
  assumes "datalog engine" and ok: "tracker_ok t"
  obtains t' where "check_inclusion engine r1 r2 p t = ((r1, r2, p) \<in> full_closure t \<or> r1 = r2, t')"
    "tracker_ok t'" "same_facts t t'" "\<not> invalidated t'" "full_incl t' \<noteq> None"
proof (cases "invalidated t \<or> full_incl t = None")
  case True
  obtain S F where R: "recompute engine t =
      t\<lparr>static_incl := Some S, full_incl := Some F, fully_invalidated := False, invalidated := False\<rparr>"
    "set S = static_closure t" "set F = full_closure t"
    by (rule recompute_result [OF assms])
  let ?t = "t\<lparr>static_incl := Some S, full_incl := Some F, fully_invalidated := False, invalidated := False\<rparr>"
  have same: "same_facts t ?t" by (simp add: same_facts_def)
  have "tracker_ok ?t" using same_facts_closures [OF same] R(2,3) by (simp add: tracker_ok_def)
  moreover have "check_inclusion engine r1 r2 p t = ((r1, r2, p) \<in> full_closure t \<or> r1 = r2, ?t)"
    using True by (simp add: check_inclusion_def R(1,3) contains_incl_def)
  moreover have "\<not> invalidated ?t" "full_incl ?t \<noteq> None" by simp_all
  ultimately show thesis by (intro that [of ?t] same)
next
  case False
  then obtain F where F: "full_incl t = Some F" by auto
  with ok False have "set F = full_closure t" by (simp add: tracker_ok_def)
  with False F have "check_inclusion engine r1 r2 p t = ((r1, r2, p) \<in> full_closure t \<or> r1 = r2, t)"
    by (simp add: check_inclusion_def contains_incl_def)
  with ok False that show thesis by (simp add: same_facts_def)
qed

lemma check_static_inclusion_fresh:
  assumes "tracker_ok t" and "\<not> invalidated t"
  shows "check_static_inclusion engine r1 r2 p t = ((r1, r2, p) \<in> static_closure t \<or> r1 = r2, t)"
  using assms unfolding tracker_ok_def by (auto simp: check_static_inclusion_def contains_incl_def)

lemma check_static_inclusion_result:
  assumes "datalog engine" and ok: "tracker_ok t" and "full_incl t = None"
  obtains t' where "check_static_inclusion engine r1 r2 p t = ((r1, r2, p) \<in> static_closure t \<or> r1 = r2, t')"
    "tracker_ok t'" "same_facts t t'"
proof (cases "invalidated t \<or> static_incl t = None")
  case True
  obtain S where R: "recompute_static_incl engine t =
      t\<lparr>static_incl := Some S, fully_invalidated := False, invalidated := False\<rparr>" "set S = static_closure t"
    by (rule recompute_static_incl_result [OF assms(1,2)])
  let ?t = "t\<lparr>static_incl := Some S, fully_invalidated := False, invalidated := False\<rparr>"
  have same: "same_facts t ?t" by (simp add: same_facts_def)
  have "tracker_ok ?t" using same_facts_closures [OF same] R(2) assms(3) by (simp add: tracker_ok_def)
  moreover have "check_static_inclusion engine r1 r2 p t = ((r1, r2, p) \<in> static_closure t \<or> r1 = r2, ?t)"
    using True by (simp add: check_static_inclusion_def R contains_incl_def)
  ultimately show thesis by (intro that [of ?t] same)
next
  case False
  with ok that show thesis by (simp add: check_static_inclusion_fresh same_facts_def)
qed

text \<open>Operations that keep the tracker sound.\<close>

lemma tracker_ok_new: "tracker_ok (tracker_new I)"
  by (simp add: tracker_ok_def tracker_new_def)

lemma closures_add_static:
  "static_closure t \<subseteq> static_closure (add_static_inclusion a b p t)"
  "full_closure t \<subseteq> full_closure (add_static_inclusion a b p t)"
  unfolding static_closure_def full_closure_def add_static_inclusion_def by (auto elim: included_mono)

lemma closures_add_dynamic:
  "static_closure (add_dynamic_inclusion a b p t) = static_closure t"
  "full_closure t \<subseteq> full_closure (add_dynamic_inclusion a b p t)"
  unfolding static_closure_def full_closure_def add_dynamic_inclusion_def by (auto elim: included_mono)

lemma tracker_ok_add_static:
  assumes "tracker_ok t"
  shows "tracker_ok (add_static_inclusion a b p t)"
  using assms subset_trans [OF _ closures_add_static(1)] subset_trans [OF _ closures_add_static(2)]
  unfolding tracker_ok_def by (simp add: add_static_inclusion_def)

lemma tracker_ok_add_dynamic:
  assumes "tracker_ok t"
  shows "tracker_ok (add_dynamic_inclusion a b p t)"
  using assms closures_add_dynamic(1) subset_trans [OF _ closures_add_dynamic(2)]
  unfolding tracker_ok_def by (simp add: add_dynamic_inclusion_def)

lemma tracker_ok_add_barrier: "tracker_ok t \<Longrightarrow> full_incl t = None \<Longrightarrow> tracker_ok (add_barrier r p t)"
  by (simp add: tracker_ok_def add_barrier_def)

section \<open>Enforcing inclusions\<close>

text \<open>\<open>t'\<close> is \<open>t\<close> with more dynamic facts, all of them from \<open>new\<close>.\<close>

definition extends :: "inclusion set \<Rightarrow> inclusion_tracker \<Rightarrow> inclusion_tracker \<Rightarrow> bool" where
  "extends new t t' \<longleftrightarrow> it_info t' = it_info t \<and> static_incl_base t' = static_incl_base t \<and> barriers t' = barriers t \<and>
     (\<exists>xs. dynamic_incl_base t' = dynamic_incl_base t @ xs \<and> set xs \<subseteq> new)"

lemma extends_refl: "extends new t t"
  by (simp add: extends_def)

lemma extends_trans: "\<lbrakk>extends new t t'; extends new t' t''\<rbrakk> \<Longrightarrow> extends new t t''"
  by (auto simp: extends_def)

lemma extends_mono: "\<lbrakk>extends new t t'; new \<subseteq> new'\<rbrakk> \<Longrightarrow> extends new' t t'"
  by (auto simp: extends_def)

lemma extends_same: "same_facts t t' \<Longrightarrow> extends new t t'"
  by (simp add: extends_def same_facts_def)

lemma extends_add: "\<lbrakk>same_facts t t'; (a, b, p) \<in> new\<rbrakk> \<Longrightarrow> extends new t (add_dynamic_inclusion a b p t')"
  by (simp add: extends_def same_facts_def add_dynamic_inclusion_def)

lemma extends_closure: "extends new t t' \<Longrightarrow> full_closure t \<subseteq> full_closure t'"
  unfolding extends_def full_closure_def by (auto elim: included_mono)

lemma same_facts_trans: "\<lbrakk>same_facts t t'; same_facts t' t''\<rbrakk> \<Longrightarrow> same_facts t t''"
  by (simp add: same_facts_def)

lemma add_dynamic_included: "(a, b, p) \<in> full_closure (add_dynamic_inclusion a b p t)"
  by (simp add: full_closure_def add_dynamic_inclusion_def included.base)

text \<open>
  One inclusion. The four ways through the method: it holds already; the reverse holds by static
  inclusions (the lifetime is extended); neither holds (it is included dynamically); the reverse
  holds by dynamic inclusions only, and the assertion fails.
\<close>

definition dyn_inclusion_spec ::
  "polonius_env \<Rightarrow> inclusion \<Rightarrow> annots \<times> inclusion_tracker \<Rightarrow> (annots \<times> inclusion_tracker) option \<Rightarrow> bool" where
  "dyn_inclusion_spec E incl s res \<longleftrightarrow>
     (case (incl, s) of ((r1, r2, p), (as, t)) \<Rightarrow>
        if (r1, r2, p) \<in> full_closure t \<or> r1 = r2 then
          (\<exists>t'. res = Some (as, t') \<and> tracker_ok t' \<and> same_facts t t')
        else if (r2, r1, p) \<in> full_closure t \<and> (r2, r1, p) \<notin> static_closure t then res = None
        else (\<exists>t'. tracker_ok t' \<and> same_facts t t' \<and>
          res = (case mk_atomic_region E (it_info t) r1 of None \<Rightarrow> None | Some a1 \<Rightarrow>
            if (r2, r1, p) \<in> static_closure t then Some (as @ [ExtendLft a1], add_dynamic_inclusion r1 r2 p t')
            else (case mk_atomic_region E (it_info t) r2 of None \<Rightarrow> None | Some a2 \<Rightarrow>
              Some (as @ [IncludeLft a2 a1], add_dynamic_inclusion r1 r2 p t')))))"

lemma generate_dyn_inclusion_result:
  assumes "datalog engine" and ok: "tracker_ok t"
  shows "dyn_inclusion_spec E (r1, r2, p) (as, t) (generate_dyn_inclusion E engine (r1, r2, p) (as, t))"
proof -
  obtain t1 where t1: "check_inclusion engine r1 r2 p t = ((r1, r2, p) \<in> full_closure t \<or> r1 = r2, t1)"
    "tracker_ok t1" "same_facts t t1" "\<not> invalidated t1"
    by (rule check_inclusion_result [OF assms])
  obtain t2 where t2: "check_inclusion engine r2 r1 p t1 = ((r2, r1, p) \<in> full_closure t1 \<or> r2 = r1, t2)"
    "tracker_ok t2" "same_facts t1 t2" "\<not> invalidated t2"
    by (rule check_inclusion_result [OF assms(1) t1(2)])
  have same: "same_facts t t2" by (rule same_facts_trans [OF t1(3) t2(3)])
  note facts = same_facts_closures [OF t1(3)] same_facts_closures [OF same]
  have t3: "check_static_inclusion engine r2 r1 p t2 = ((r2, r1, p) \<in> static_closure t \<or> r2 = r1, t2)"
    using check_static_inclusion_fresh [OF t2(2,4)] facts by simp
  have info: "it_info t2 = it_info t" using same by (simp add: same_facts_def)
  show ?thesis
  proof (cases "(r1, r2, p) \<in> full_closure t \<or> r1 = r2")
    case True
    with t1 show ?thesis by (auto simp: dyn_inclusion_spec_def generate_dyn_inclusion_def)
  next
    case False
    let ?res = "generate_dyn_inclusion E engine (r1, r2, p) (as, t)"
    have rev: "check_inclusion engine r2 r1 p t1 = ((r2, r1, p) \<in> full_closure t, t2)"
      using t2(1) facts False by auto
    have stat: "check_static_inclusion engine r2 r1 p t2 = ((r2, r1, p) \<in> static_closure t, t2)"
      using t3 False by auto
    have sub: "(r2, r1, p) \<in> static_closure t \<Longrightarrow> (r2, r1, p) \<in> full_closure t"
      using static_subset_full by blast
    have "?res = (if (r2, r1, p) \<in> full_closure t \<and> (r2, r1, p) \<notin> static_closure t then None else
        (case mk_atomic_region E (it_info t) r1 of None \<Rightarrow> None | Some a1 \<Rightarrow>
            if (r2, r1, p) \<in> static_closure t then Some (as @ [ExtendLft a1], add_dynamic_inclusion r1 r2 p t2)
            else (case mk_atomic_region E (it_info t) r2 of None \<Rightarrow> None | Some a2 \<Rightarrow>
              Some (as @ [IncludeLft a2 a1], add_dynamic_inclusion r1 r2 p t2))))"
      using False sub
      by (auto simp: generate_dyn_inclusion_def t1(1) rev stat Let_def add_dynamic_inclusion_def info
          split: option.splits)
    note res = this
    show ?thesis
    proof (cases "(r2, r1, p) \<in> full_closure t \<and> (r2, r1, p) \<notin> static_closure t")
      case True
      with False res show ?thesis by (simp add: dyn_inclusion_spec_def)
    next
      case static: False
      show ?thesis
        unfolding dyn_inclusion_spec_def prod.case if_not_P [OF False] if_not_P [OF static]
        by (intro exI [of _ t2] conjI t2(2) same) (use res static in auto)
    qed
  qed
qed

definition one_sided :: "inclusion btset \<Rightarrow> inclusion set" where
  "one_sided incls = {(r1, r2, p). (r1, r2, p) \<in> set incls \<and> (r2, r1, p) \<notin> set incls}"

lemma generate_one_step:
  assumes "datalog engine" and "tracker_ok t"
    and "generate_dyn_inclusion E engine (r1, r2, p) (as, t) = Some (as', t')"
  shows "tracker_ok t' \<and> extends {(r1, r2, p)} t t' \<and> ((r1, r2, p) \<in> full_closure t' \<or> r1 = r2)
    \<and> length as' + length (dynamic_incl_base t) = length as + length (dynamic_incl_base t')"
proof -
  have spec: "dyn_inclusion_spec E (r1, r2, p) (as, t) (Some (as', t'))"
    using generate_dyn_inclusion_result [OF assms(1,2), of E r1 r2 p as] assms(3) by simp
  show ?thesis
  proof (cases "(r1, r2, p) \<in> full_closure t \<or> r1 = r2")
    case True
    with spec show ?thesis
      by (auto simp: dyn_inclusion_spec_def extends_same same_facts_closures) (simp_all add: same_facts_def)
  next
    case False
    with spec obtain t0 where t0: "tracker_ok t0" "same_facts t t0" and
      res: "Some (as', t') = (case mk_atomic_region E (it_info t) r1 of None \<Rightarrow> None | Some a1 \<Rightarrow>
            if (r2, r1, p) \<in> static_closure t then Some (as @ [ExtendLft a1], add_dynamic_inclusion r1 r2 p t0)
            else (case mk_atomic_region E (it_info t) r2 of None \<Rightarrow> None | Some a2 \<Rightarrow>
              Some (as @ [IncludeLft a2 a1], add_dynamic_inclusion r1 r2 p t0)))"
      unfolding dyn_inclusion_spec_def prod.case by (auto split: if_split_asm)
    from res have "t' = add_dynamic_inclusion r1 r2 p t0" "length as' = Suc (length as)"
      by (auto split: option.splits if_splits)
    note t0 = t0 this
    have "extends {(r1, r2, p)} t t'" using t0 by (simp add: extends_add)
    moreover have "length (dynamic_incl_base t') = Suc (length (dynamic_incl_base t))"
      using t0(2,3) by (simp add: add_dynamic_inclusion_def same_facts_def)
    ultimately show ?thesis
      using t0 add_dynamic_included [of r1 r2 p t0] by (simp add: tracker_ok_add_dynamic)
  qed
qed

lemma generate_dyn_inclusions_result:
  assumes engine: "datalog engine" and ok: "tracker_ok t"
    and res: "generate_dyn_inclusions E engine incls t = Some (as', t')"
  shows "tracker_ok t' \<and> extends (one_sided incls) t t'
    \<and> (\<forall>(r1, r2, p) \<in> one_sided incls. (r1, r2, p) \<in> full_closure t' \<or> r1 = r2)
    \<and> length as' = length (dynamic_incl_base t') - length (dynamic_incl_base t)"
proof -
  let ?step = "\<lambda>(r1, r2, p) s. if (r2, r1, p) \<in> set incls then Some s else generate_dyn_inclusion E engine (r1, r2, p) s"
  have "tracker_ok t' \<and> extends (one_sided incls) t t'
    \<and> (\<forall>(r1, r2, p) \<in> set xs. (r2, r1, p) \<notin> set incls \<longrightarrow> (r1, r2, p) \<in> full_closure t' \<or> r1 = r2)
    \<and> length as' + length (dynamic_incl_base t) = length as + length (dynamic_incl_base t')"
    if "fold_opt ?step xs (as, t) = Some (as', t')" "set xs \<subseteq> set incls" "tracker_ok t" for xs as t
    using that
  proof (induction xs arbitrary: as t)
    case Nil
    then show ?case by (simp add: extends_refl)
  next
    case (Cons x xs)
    obtain r1 r2 p where x: "x = (r1, r2, p)" by (cases x)
    show ?case
    proof (cases "(r2, r1, p) \<in> set incls")
      case True
      with Cons x show ?thesis by auto
    next
      case False
      with Cons.prems(1) x obtain as1 t1 where
        s1: "generate_dyn_inclusion E engine (r1, r2, p) (as, t) = Some (as1, t1)"
        "fold_opt ?step xs (as1, t1) = Some (as', t')"
        by (auto split: option.splits)
      note one = generate_one_step [OF engine Cons.prems(3) s1(1)]
      have rest: "tracker_ok t'" "extends (one_sided incls) t1 t'"
        "\<forall>(r1, r2, p) \<in> set xs. (r2, r1, p) \<notin> set incls \<longrightarrow> (r1, r2, p) \<in> full_closure t' \<or> r1 = r2"
        "length as' + length (dynamic_incl_base t1) = length as1 + length (dynamic_incl_base t')"
        using Cons.IH [OF s1(2)] Cons.prems(2) one by auto
      have "{(r1, r2, p)} \<subseteq> one_sided incls" using Cons.prems(2) x False by (simp add: one_sided_def)
      then have "extends (one_sided incls) t t1" using one by (auto intro: extends_mono)
      then have "extends (one_sided incls) t t'" by (rule extends_trans) (rule rest(2))
      moreover have "(r1, r2, p) \<in> full_closure t' \<or> r1 = r2"
        using one extends_closure [OF rest(2)] by blast
      ultimately show ?thesis using rest one x by auto
    qed
  qed
  from this [of incls "[]" t, OF res [unfolded generate_dyn_inclusions_def] subset_refl ok]
  show ?thesis unfolding one_sided_def by auto
qed

section \<open>Sequences of operations\<close>

datatype tracker_op =
    AddStatic origin origin point_index
  | AddDynamic origin origin point_index
  | AddBarrier origin point_index
  | Check origin origin point_index
  | CheckStatic origin origin point_index
  | GenerateDyn "inclusion btset"

fun tracker_op_run :: "polonius_env \<Rightarrow> incl_engine \<Rightarrow> tracker_op \<Rightarrow> inclusion_tracker \<Rightarrow> inclusion_tracker option" where
  "tracker_op_run E engine (AddStatic a b p) t = Some (add_static_inclusion a b p t)"
| "tracker_op_run E engine (AddDynamic a b p) t = Some (add_dynamic_inclusion a b p t)"
| "tracker_op_run E engine (AddBarrier r p) t = Some (add_barrier r p t)"
| "tracker_op_run E engine (Check a b p) t = Some (snd (check_inclusion engine a b p t))"
| "tracker_op_run E engine (CheckStatic a b p) t = Some (snd (check_static_inclusion engine a b p t))"
| "tracker_op_run E engine (GenerateDyn incls) t = map_option snd (generate_dyn_inclusions E engine incls t)"

definition tracker_run :: "polonius_env \<Rightarrow> incl_engine \<Rightarrow> tracker_op list \<Rightarrow> inclusion_tracker \<Rightarrow> inclusion_tracker option" where
  "tracker_run E engine = fold_opt (tracker_op_run E engine)"

text \<open>
  The operations that keep the caches in step: a barrier only before the full closure is recorded, a static query
  only where it need not recompute while a full closure is recorded.
\<close>

fun timely :: "tracker_op \<Rightarrow> inclusion_tracker \<Rightarrow> bool" where
  "timely (AddBarrier r p) t \<longleftrightarrow> full_incl t = None"
| "timely (CheckStatic a b p) t \<longleftrightarrow> full_incl t = None \<or> \<not> invalidated t"
| "timely _ t \<longleftrightarrow> True"

fun all_timely :: "polonius_env \<Rightarrow> incl_engine \<Rightarrow> tracker_op list \<Rightarrow> inclusion_tracker \<Rightarrow> bool" where
  "all_timely E engine [] t \<longleftrightarrow> True"
| "all_timely E engine (op # ops) t \<longleftrightarrow> timely op t \<and>
     (case tracker_op_run E engine op t of None \<Rightarrow> True | Some t' \<Rightarrow> all_timely E engine ops t')"

lemma tracker_op_ok:
  assumes "datalog engine" and "tracker_ok t" and "timely op t" and "tracker_op_run E engine op t = Some t'"
  shows "tracker_ok t'"
proof (cases op)
  case (Check a b p)
  with assms(4) check_inclusion_result [OF assms(1,2), of a b p] show ?thesis by (metis option.inject snd_conv tracker_op_run.simps(4))
next
  case (CheckStatic a b p)
  with assms check_static_inclusion_result [OF assms(1,2), of a b p] check_static_inclusion_fresh [OF assms(2)]
  show ?thesis by (metis option.inject snd_conv timely.simps(2) tracker_op_run.simps(5))
next
  case (GenerateDyn incls)
  with assms generate_dyn_inclusions_result [OF assms(1,2)] show ?thesis by auto
qed (use assms in \<open>auto intro: tracker_ok_add_static tracker_ok_add_dynamic tracker_ok_add_barrier\<close>)

lemma tracker_run_ok:
  "\<lbrakk>datalog engine; tracker_ok t; all_timely E engine ops t; tracker_run E engine ops t = Some t'\<rbrakk> \<Longrightarrow> tracker_ok t'"
  by (induction ops arbitrary: t) (auto simp: tracker_run_def split: option.splits dest: tracker_op_ok)

lemma tracker_runs_ok:
  "\<lbrakk>datalog engine; all_timely E engine ops (tracker_new I); tracker_run E engine ops (tracker_new I) = Some t\<rbrakk> \<Longrightarrow> tracker_ok t"
  by (rule tracker_run_ok [OF _ tracker_ok_new])

section \<open>Recorded inclusions are never dropped\<close>

lemma recompute_keeps_full:
  assumes "datalog engine" and "full_incl t = Some F"
  shows "\<exists>F'. full_incl (recompute engine t) = Some F' \<and> set F \<subseteq> set F'"
proof -
  let ?t = "recompute_static_incl engine t"
  let ?base = "F @ (case static_incl ?t of Some s \<Rightarrow> s | None \<Rightarrow> []) @ dynamic_incl_base ?t"
  have "full_incl ?t = Some F" "\<not> fully_invalidated ?t" by (simp_all add: recompute_static_incl_def Let_def assms)
  then have "full_incl (recompute engine t) = Some (tracker_closure engine ?t ?base)"
    by (simp only: recompute_def Let_def option.case simp_thms if_True) simp
  moreover have "set F \<subseteq> set (tracker_closure engine ?t ?base)"
    unfolding set_tracker_closure [OF assms(1)] by (auto intro: included.base)
  ultimately show ?thesis by blast
qed

definition recorded :: "inclusion \<Rightarrow> inclusion_tracker \<Rightarrow> bool" where
  "recorded x t \<longleftrightarrow> contains_incl (full_incl t) x"

lemma recorded_fields:
  "recorded x (add_static_inclusion a b p t) = recorded x t"
  "recorded x (add_dynamic_inclusion a b p t) = recorded x t"
  "recorded x (add_barrier r p t) = recorded x t"
  "recorded x (recompute_static_incl engine t) = recorded x t"
  by (simp_all add: recorded_def add_static_inclusion_def add_dynamic_inclusion_def add_barrier_def
      recompute_static_incl_def Let_def)

lemma recorded_recompute: "datalog engine \<Longrightarrow> recorded x t \<Longrightarrow> recorded x (recompute engine t)"
  using recompute_keeps_full [of engine t] by (fastforce simp: recorded_def contains_incl_def split: option.splits)

lemma recorded_check: "datalog engine \<Longrightarrow> recorded x t \<Longrightarrow> recorded x (snd (check_inclusion engine a b p t))"
  by (simp add: check_inclusion_def Let_def recorded_recompute)

lemma recorded_check_static: "recorded x t \<Longrightarrow> recorded x (snd (check_static_inclusion engine a b p t))"
  by (simp add: check_static_inclusion_def Let_def recorded_fields)

lemma recorded_generate_one:
  assumes "datalog engine" and "recorded x t" and "generate_dyn_inclusion E engine (r1, r2, p) (as, t) = Some (as', t')"
  shows "recorded x t'"
proof -
  obtain h1 t1 where 1: "check_inclusion engine r1 r2 p t = (h1, t1)" by fastforce
  obtain h2 t2 where 2: "check_inclusion engine r2 r1 p t1 = (h2, t2)" by fastforce
  obtain h3 t3 where 3: "check_static_inclusion engine r2 r1 p t2 = (h3, t3)" by fastforce
  have "recorded x t1" using recorded_check [OF assms(1,2), of r1 r2 p] 1 by simp
  moreover from this have "recorded x t2" using recorded_check [OF assms(1), of x t1 r2 r1 p] 2 by simp
  moreover from this have "recorded x t3" using recorded_check_static [of x t2 engine r2 r1 p] 3 by simp
  ultimately show ?thesis
    using assms(3) by (auto simp: generate_dyn_inclusion_def 1 2 3 Let_def recorded_fields bind_eq_Some_conv split: if_splits)
qed

lemma recorded_generate:
  assumes "datalog engine" and "recorded x t" and "generate_dyn_inclusions E engine incls t = Some (as', t')"
  shows "recorded x t'"
proof -
  let ?step = "\<lambda>(r1, r2, p) s. if (r2, r1, p) \<in> set incls then Some s else generate_dyn_inclusion E engine (r1, r2, p) s"
  have "fold_opt ?step xs (as, t) = Some (as', t') \<Longrightarrow> recorded x t \<Longrightarrow> recorded x t'" for xs as t
    by (induction xs arbitrary: as t)
       (fastforce split: option.splits if_splits dest: recorded_generate_one [OF assms(1), rotated])+
  with assms(2,3) show ?thesis unfolding generate_dyn_inclusions_def by blast
qed

lemma recorded_op:
  "\<lbrakk>datalog engine; recorded x t; tracker_op_run E engine op t = Some t'\<rbrakk> \<Longrightarrow> recorded x t'"
  by (cases op) (auto simp: recorded_fields recorded_check recorded_check_static dest: recorded_generate)

lemma recorded_run:
  "\<lbrakk>datalog engine; recorded x t; tracker_run E engine ops t = Some t'\<rbrakk> \<Longrightarrow> recorded x t'"
  by (induction ops arbitrary: t) (auto simp: tracker_run_def split: option.splits dest: recorded_op)

lemma check_inclusion_recorded:
  "check_inclusion engine r1 r2 p t = (h, t') \<Longrightarrow> h \<longleftrightarrow> recorded (r1, r2, p) t' \<or> r1 = r2"
  by (auto simp: check_inclusion_def Let_def recorded_def)

section \<open>Properties\<close>

text \<open>
  C20. The answer to an inclusion query: on a tracker in step with its facts (which \<open>tracker_runs_ok\<close> shows of a
  new tracker and timely operations, see above), the query answers
  whether the inclusion follows from the base facts by the rules of the source (flow along an edge
  unless a barrier stops one of the regions, transitivity), keeps the tracker sound and changes no fact.
\<close>

theorem check_inclusion_spec:
  assumes "datalog engine" and "tracker_ok t"
  shows "\<exists>t'. check_inclusion engine r1 r2 p t =
      (r1 = r2 \<or> included (set (barriers t)) (edges_of_tracker t)
         (set (static_incl_base t) \<union> set (dynamic_incl_base t)) r1 r2 p, t')
    \<and> tracker_ok t' \<and> same_facts t t'"
  by (rule check_inclusion_result [OF assms, of r1 r2 p]) (auto simp: full_closure_def)

text \<open>Two points with an edge between them.\<close>

definition two_points :: polonius_info where
  "two_points =
     \<lparr>pi_mir = sample_body, pi_local_tys = [],
      borrowck_in_facts = \<lparr>loan_issued_at = [], placeholder = [], subset_base = [], known_placeholder_subset = [], loan_killed_at = [], cfg_edge = [(0, 1)]\<rparr>,
      borrowck_out_facts = \<lparr>loan_live_at = [], origin_contains_loan_at = [], origin_live_on_entry = [], subset_at = []\<rparr>,
      interner = \<lparr>start_index = (\<lambda>_. 0), mid_index = (\<lambda>_. 1), to_rich_location = (\<lambda>_. RichStart (loc 0 0))\<rparr>,
      loan_position = Map.empty, loan_at_position = Map.empty,
      additional_facts = \<lparr>zombie_borrow_live_at = [], borrow_become_zombie_at = []\<rparr>\<rparr>"

abbreviation plain_env :: polonius_env where
  "plain_env \<equiv> \<lparr>term_successors = named_targets, ty_regions = (\<lambda>_. [])\<rparr>"

lemma two_points_edges: "cfg_edge (borrowck_in_facts two_points) = [(0, 1)]"
  by (simp add: two_points_def)

lemma two_points_region: "mk_atomic_region plain_env two_points r = Some (Unknown r True)"
  by (simp add: mk_atomic_region_def get_region_kind_def two_points_def Let_def)

definition one_inclusion :: inclusion_tracker where
  "one_inclusion = add_static_inclusion 1 2 0 (tracker_new two_points)"

lemma one_inclusion_ok: "tracker_ok one_inclusion"
  unfolding one_inclusion_def by (intro tracker_ok_add_static tracker_ok_new)

lemma one_inclusion_sel:
  "barriers one_inclusion = []" "edges_of_tracker one_inclusion = {(0, 1)}"
  "static_incl_base one_inclusion = [(1, 2, 0)]" "dynamic_incl_base one_inclusion = []"
  "it_info one_inclusion = two_points" "cfg_edge (borrowck_in_facts (it_info one_inclusion)) = [(0, 1)]" "full_incl one_inclusion = None"
  by (simp_all add: one_inclusion_def add_static_inclusion_def tracker_new_def two_points_def)

lemma included_across: "included {} {(0, 1)} {(1, 2, 0)} 1 2 1"
proof -
  have "included {} {(0, 1)} {(1, 2, 0)} 1 2 0" by (rule included.base) simp
  then show ?thesis by (rule included.flow) simp_all
qed

theorem check_inclusion_spec_witness:
  "fst (check_inclusion saturate 1 2 1 one_inclusion)"
  using check_inclusion_spec [OF saturate_datalog one_inclusion_ok, of 1 2 1] included_across
  by (auto simp: one_inclusion_sel two_points_edges)

text \<open>
  C21. Enforcing a set of inclusions, on a tracker in step with its facts (\<open>tracker_ok\<close>; \<open>tracker_runs_ok\<close> shows it of
  a new tracker after operations none of which adds a barrier once the full closure is recorded, the case of C22, or
  asks a static query of an invalidated tracker with a full closure, the case of \<open>static_query_hides_fact\<close>).
  When the generation returns, every inclusion of the set whose
  reverse is not in the set holds afterwards, only such inclusions were added as dynamic facts, one
  annotation was generated for each fact added, and static facts and barriers are unchanged.
\<close>

theorem generate_dyn_inclusions_spec:
  assumes "datalog engine" and "tracker_ok t"
    and "generate_dyn_inclusions E engine incls t = Some (annots, t')"
  shows "tracker_ok t' \<and> extends (one_sided incls) t t'
    \<and> (\<forall>(r1, r2, p) \<in> one_sided incls. (r1, r2, p) \<in> full_closure t' \<or> r1 = r2)
    \<and> length annots = length (dynamic_incl_base t') - length (dynamic_incl_base t)"
  using generate_dyn_inclusions_result [OF assms] .

lemma not_included_one: "included {} {(0, 1)} {(1, 2, 0)} a b p \<Longrightarrow> a = 1 \<and> b = 2"
  by (induction rule: included.induct) auto

lemma one_inclusion_closures:
  "(3, 4, 0) \<notin> full_closure one_inclusion" "(4, 3, 0) \<notin> full_closure one_inclusion" "(4, 3, 0) \<notin> static_closure one_inclusion"
  using not_included_one by (fastforce simp: full_closure_def static_closure_def one_inclusion_sel two_points_edges)+

theorem generate_dyn_inclusions_spec_witness:
  "\<exists>annots t'. generate_dyn_inclusions plain_env saturate [(3, 4, 0)] one_inclusion = Some (annots, t')
     \<and> (3, 4, 0) \<in> full_closure t'"
proof -
  have "dyn_inclusion_spec plain_env (3, 4, 0) ([], one_inclusion)
      (generate_dyn_inclusion plain_env saturate (3, 4, 0) ([], one_inclusion))"
    by (rule generate_dyn_inclusion_result [OF saturate_datalog one_inclusion_ok])
  then obtain annots t' where "generate_dyn_inclusion plain_env saturate (3, 4, 0) ([], one_inclusion) = Some (annots, t')"
    by (auto simp: dyn_inclusion_spec_def one_inclusion_closures one_inclusion_sel two_points_region)
  then have gen: "generate_dyn_inclusions plain_env saturate [(3, 4, 0)] one_inclusion = Some (annots, t')"
    by (simp add: generate_dyn_inclusions_def)
  have "(3, 4, 0) \<in> one_sided [(3, 4, 0)]" by (simp add: one_sided_def)
  with generate_dyn_inclusions_spec [OF saturate_datalog one_inclusion_ok gen] gen show ?thesis by fastforce
qed

lemma recompute_same_facts: "same_facts t (recompute engine t)"
  by (simp add: recompute_def recompute_static_incl_def Let_def same_facts_def)

lemma barrier_blocks: "included {(1, 1)} {(0, 1)} {(1, 2, 0)} a b p \<Longrightarrow> a = 1 \<and> b = 2 \<and> p = 0"
  by (induction rule: included.induct) auto

text \<open>
  C22. Once a query has answered that an inclusion holds, every later query answers so, whatever operations come in
  between: facts are added, barriers are added, other queries are asked, inclusions are generated. So a barrier added
  after the query has no effect on what was reported, also where the rules, with the barrier, no longer derive it (as
  in \<open>late_barrier_example\<close>). The first recomputation resets the flag that the second one tests, so the old closure is kept
  as a base.
\<close>

theorem reported_inclusion_persists:
  assumes "datalog engine" and "check_inclusion engine r1 r2 p t = (True, t1)" and "tracker_run E engine ops t1 = Some t2"
  shows "fst (check_inclusion engine r1 r2 p t2)"
proof (cases "r1 = r2")
  case False
  with check_inclusion_recorded [OF assms(2)] have "recorded (r1, r2, p) t1" by simp
  with assms(1,3) have "recorded (r1, r2, p) t2" by (blast intro: recorded_run)
  then have "recorded (r1, r2, p) (snd (check_inclusion engine r1 r2 p t2))" by (rule recorded_check [OF assms(1)])
  then show ?thesis using check_inclusion_recorded [of engine r1 r2 p t2] by (metis prod.collapse)
qed (simp add: check_inclusion_def Let_def)

text \<open>The inclusion of 1 in 2 at point 1 only holds by the edge from 0, across which a barrier on 1 stops it.\<close>

lemma one_inclusion_check: "\<exists>t1. check_inclusion saturate 1 2 1 one_inclusion = (True, t1) \<and> same_facts one_inclusion t1"
  using check_inclusion_result [OF saturate_datalog one_inclusion_ok, of 1 2 1] included_across
  by (auto simp: full_closure_def one_inclusion_sel two_points_edges)

lemma late_barrier_example:
  "same_facts one_inclusion t1 \<Longrightarrow>
   \<not> included (set (barriers (add_barrier 1 1 t1))) (edges_of_tracker (add_barrier 1 1 t1))
       (set (static_incl_base (add_barrier 1 1 t1)) \<union> set (dynamic_incl_base (add_barrier 1 1 t1))) 1 2 1"
  using barrier_blocks [of 1 2 1] by (auto simp: same_facts_def add_barrier_def one_inclusion_sel two_points_edges)

theorem reported_inclusion_persists_witness:
  "\<exists>t1. check_inclusion saturate 1 2 1 one_inclusion = (True, t1) \<and>
    fst (check_inclusion saturate 1 2 1 (add_barrier 1 1 t1)) \<and>
    \<not> included (set (barriers (add_barrier 1 1 t1))) (edges_of_tracker (add_barrier 1 1 t1))
       (set (static_incl_base (add_barrier 1 1 t1)) \<union> set (dynamic_incl_base (add_barrier 1 1 t1))) 1 2 1"
proof -
  obtain t1 where t1: "check_inclusion saturate 1 2 1 one_inclusion = (True, t1)" "same_facts one_inclusion t1"
    using one_inclusion_check by blast
  have "tracker_run plain_env saturate [AddBarrier 1 1] t1 = Some (add_barrier 1 1 t1)" by (simp add: tracker_run_def)
  from reported_inclusion_persists [OF saturate_datalog t1(1) this] late_barrier_example [OF t1(2)] t1(1)
  show ?thesis by blast
qed

text \<open>
  The static query clears the mark of the whole tracker without recomputing the full closure: a fact added before it
  is not seen by the next full query.
\<close>

lemma static_query_hides_fact:
  assumes "full_incl t = Some F" and "(a, b, p) \<notin> set F" and "a \<noteq> b"
  shows "\<not> fst (check_inclusion engine a b p (snd (check_static_inclusion engine r1 r2 q (add_static_inclusion a b p t))))"
  using assms
  by (simp add: check_inclusion_def check_static_inclusion_def add_static_inclusion_def recompute_static_incl_def
      contains_incl_def Let_def)

end
