(* ===== verification/Unification.thy ===== *)
theory Unification
  imports MirSyntax
begin

text \<open>
  \<open>translation/src/unification.rs\<close>: are two types the same up to a renaming of type parameters.
  The mutable hash map is passed through, also when the answer is no. The specification is the
  relation \<open>renamed\<close>, over all constructors of types: the types are equal up to their parameters, and a map of
  parameters sends those of the first to those of the second. The theorem says that on the types of \<open>searched\<close>
  the search finds the least such map; \<open>same_ty\<close> is what the code compares in general.
\<close>

section \<open>The code\<close>

type_synonym unification_map = "nat \<rightharpoonup> generic_arg"

fun as_type :: "generic_arg \<Rightarrow> ty option" where
  "as_type (ArgType t) = Some t"
| "as_type _ = None"

definition is_param :: "ty \<Rightarrow> nat \<Rightarrow> bool" where
  "is_param t idx = (case t of TyParam i _ \<Rightarrow> i = idx | _ \<Rightarrow> False)"

definition unify_regions :: "region \<Rightarrow> region \<Rightarrow> bool" where
  "unify_regions r1 r2 =
     (case (r1, r2) of (ReEarlyParam i1 _, ReEarlyParam i2 _) \<Rightarrow> i1 = i2 | _ \<Rightarrow> False)"

definition unify_param :: "nat \<Rightarrow> ty \<Rightarrow> unification_map \<Rightarrow> bool \<times> unification_map" where
  "unify_param idx1 ty2 m =
     (case ty2 of
        TyParam idx2 _ \<Rightarrow>
          (case m idx1 of
             Some a1 \<Rightarrow> (case as_type a1 of Some ty1x \<Rightarrow> (is_param ty1x idx2, m) | None \<Rightarrow> (False, m))
           | None \<Rightarrow> (True, m(idx1 \<mapsto> ArgType ty2)))
      | _ \<Rightarrow> (False, m))"

text \<open>\<open>unify_generic_args\<close> checks the lengths and then runs the loop \<open>unify_zip\<close>.\<close>

fun unify_types :: "ty \<Rightarrow> ty \<Rightarrow> unification_map \<Rightarrow> bool \<times> unification_map"
  and unify_args :: "generic_arg \<Rightarrow> generic_arg \<Rightarrow> unification_map \<Rightarrow> bool \<times> unification_map"
  and unify_generic_args :: "generic_arg list \<Rightarrow> generic_arg list \<Rightarrow> unification_map \<Rightarrow> bool \<times> unification_map"
  and unify_zip :: "generic_arg list \<Rightarrow> generic_arg list \<Rightarrow> unification_map \<Rightarrow> bool \<times> unification_map" where
  "unify_types (TyAdt adt args1) ty2 m =
     (case ty2 of
        TyAdt adt2 args2 \<Rightarrow> if adt \<noteq> adt2 then (False, m) else unify_generic_args args1 args2 m
      | _ \<Rightarrow> (False, m))"
| "unify_types (TyRef r1 ty1 m1) ty2 m =
     (case ty2 of
        TyRef r2 ty2 m2 \<Rightarrow>
          if m1 \<noteq> m2 then (False, m)
          else if \<not> unify_regions r1 r2 then (False, m)
          else unify_types ty1 ty2 m
      | _ \<Rightarrow> (False, m))"
| "unify_types (TyRawPtr ty1 m1) ty2 m =
     (case ty2 of
        TyRawPtr ty2 m2 \<Rightarrow> if m1 \<noteq> m2 then (False, m) else unify_types ty1 ty2 m
      | _ \<Rightarrow> (False, m))"
| "unify_types TyBool ty2 m = (ty2 = TyBool, m)"
| "unify_types TyChar ty2 m = (ty2 = TyChar, m)"
| "unify_types (TyInt int_ty1) ty2 m = (case ty2 of TyInt int_ty2 \<Rightarrow> (int_ty1 = int_ty2, m) | _ \<Rightarrow> (False, m))"
| "unify_types (TyUint int_ty1) ty2 m = (case ty2 of TyUint int_ty2 \<Rightarrow> (int_ty1 = int_ty2, m) | _ \<Rightarrow> (False, m))"
| "unify_types (TyParam idx1 _) ty2 m = unify_param idx1 ty2 m"
| "unify_types ty1 ty2 m = (ty1 = ty2, m)"
| "unify_args (ArgType ty1) arg2 m = (case arg2 of ArgType ty2 \<Rightarrow> unify_types ty1 ty2 m | _ \<Rightarrow> (False, m))"
| "unify_args (ArgConst _) arg2 m = (False, m)"
| "unify_args (ArgLifetime r1) arg2 m =
     (case arg2 of ArgLifetime r2 \<Rightarrow> (unify_regions r1 r2, m) | _ \<Rightarrow> (False, m))"
| "unify_generic_args args1 args2 m =
     (if length args1 \<noteq> length args2 then (False, m) else unify_zip args1 args2 m)"
| "unify_zip (a1 # args1) (a2 # args2) m =
     (case unify_args a1 a2 m of (ok, m1) \<Rightarrow> if \<not> ok then (False, m1) else unify_zip args1 args2 m1)"
| "unify_zip _ _ m = (True, m)"

text \<open>\<open>args_unify_types\<close>: the loop skips the positions whose reference is not a type.\<close>

fun args_unify_loop ::
  "(generic_arg \<times> generic_arg option) list \<Rightarrow> unification_map \<Rightarrow> bool \<times> unification_map" where
  "args_unify_loop [] m = (True, m)"
| "args_unify_loop ((arg1, arg2) # rest) m =
     (case as_type arg1 of
        None \<Rightarrow> args_unify_loop rest m
      | Some ty1 \<Rightarrow>
          (case arg2 of
             None \<Rightarrow> (False, m)
           | Some arg2 \<Rightarrow>
               (case as_type arg2 of
                  None \<Rightarrow> (False, m)
                | Some ty2 \<Rightarrow>
                    (case unify_types ty1 ty2 m of (ok, m1) \<Rightarrow> if \<not> ok then (False, m1) else args_unify_loop rest m1))))"

definition args_unify_types ::
  "generic_arg list \<Rightarrow> generic_arg option list \<Rightarrow> unification_map \<Rightarrow> bool \<times> unification_map" where
  "args_unify_types reference compare m =
     (if length reference \<noteq> length compare then (False, m) else args_unify_loop (zip reference compare) m)"

section \<open>Types up to their parameters\<close>

type_synonym renaming = "nat \<rightharpoonup> nat"

text \<open>
  A type with its parameters blanked out, and the parameters in order of occurrence. An early-bound lifetime is known
  by its index, its name is dropped.
\<close>

fun erase_region :: "region \<Rightarrow> region" where
  "erase_region (ReEarlyParam i _) = ReEarlyParam i []"
| "erase_region r = r"

fun erase_ty :: "ty \<Rightarrow> ty" and erase_arg :: "generic_arg \<Rightarrow> generic_arg" where
  "erase_ty (TyParam _ _) = TyParam 0 []"
| "erase_ty (TyAdt d args) = TyAdt d (map erase_arg args)"
| "erase_ty (TyArray t c) = TyArray (erase_ty t) c"
| "erase_ty (TySlice t) = TySlice (erase_ty t)"
| "erase_ty (TyRawPtr t m) = TyRawPtr (erase_ty t) m"
| "erase_ty (TyRef r t m) = TyRef (erase_region r) (erase_ty t) m"
| "erase_ty (TyFnDef d args) = TyFnDef d (map erase_arg args)"
| "erase_ty (TyFnPtr ts h) = TyFnPtr (map erase_ty ts) h"
| "erase_ty (TyDynamic n args r) = TyDynamic n (map erase_arg args) (erase_region r)"
| "erase_ty (TyClosure d args) = TyClosure d (map erase_arg args)"
| "erase_ty (TyCoroutineClosure d args) = TyCoroutineClosure d (map erase_arg args)"
| "erase_ty (TyCoroutine d args) = TyCoroutine d (map erase_arg args)"
| "erase_ty (TyCoroutineWitness d args) = TyCoroutineWitness d (map erase_arg args)"
| "erase_ty (TyTuple ts) = TyTuple (map erase_ty ts)"
| "erase_ty (TyPat t n) = TyPat (erase_ty t) n"
| "erase_ty (TyAlias k d args) = TyAlias k d (map erase_arg args)"
| "erase_ty (TyUnsafeBinder t) = TyUnsafeBinder (erase_ty t)"
| "erase_ty t = t"
| "erase_arg (ArgType t) = ArgType (erase_ty t)"
| "erase_arg (ArgLifetime r) = ArgLifetime (erase_region r)"
| "erase_arg (ArgConst c) = ArgConst c"

fun params_ty :: "ty \<Rightarrow> nat list" and params_arg :: "generic_arg \<Rightarrow> nat list" where
  "params_ty (TyParam i _) = [i]"
| "params_ty (TyAdt d args) = concat (map params_arg args)"
| "params_ty (TyArray t c) = params_ty t"
| "params_ty (TySlice t) = params_ty t"
| "params_ty (TyRawPtr t m) = params_ty t"
| "params_ty (TyRef r t m) = params_ty t"
| "params_ty (TyFnDef d args) = concat (map params_arg args)"
| "params_ty (TyFnPtr ts h) = concat (map params_ty ts)"
| "params_ty (TyDynamic n args r) = concat (map params_arg args)"
| "params_ty (TyClosure d args) = concat (map params_arg args)"
| "params_ty (TyCoroutineClosure d args) = concat (map params_arg args)"
| "params_ty (TyCoroutine d args) = concat (map params_arg args)"
| "params_ty (TyCoroutineWitness d args) = concat (map params_arg args)"
| "params_ty (TyTuple ts) = concat (map params_ty ts)"
| "params_ty (TyPat t n) = params_ty t"
| "params_ty (TyAlias k d args) = concat (map params_arg args)"
| "params_ty (TyUnsafeBinder t) = params_ty t"
| "params_ty _ = []"
| "params_arg (ArgType t) = params_ty t"
| "params_arg _ = []"

text \<open>Two types that are the same when the parameters of the first are mapped by \<open>r\<close>.\<close>

definition renamed :: "renaming \<Rightarrow> ty \<Rightarrow> ty \<Rightarrow> bool" where
  "renamed r t1 t2 \<longleftrightarrow> erase_ty t1 = erase_ty t2 \<and> map r (params_ty t1) = map Some (params_ty t2)"

text \<open>Types without any parameter or early-bound lifetime.\<close>

fun early :: "region \<Rightarrow> bool" where
  "early (ReEarlyParam _ _) = True"
| "early _ = False"

fun open_ty :: "ty \<Rightarrow> bool" and open_arg :: "generic_arg \<Rightarrow> bool" where
  "open_ty (TyParam i _) = True"
| "open_ty (TyAdt d args) = list_ex open_arg args"
| "open_ty (TyArray t c) = open_ty t"
| "open_ty (TySlice t) = open_ty t"
| "open_ty (TyRawPtr t m) = open_ty t"
| "open_ty (TyRef r t m) = (early r \<or> open_ty t)"
| "open_ty (TyFnDef d args) = list_ex open_arg args"
| "open_ty (TyFnPtr ts h) = list_ex open_ty ts"
| "open_ty (TyDynamic n args r) = (early r \<or> list_ex open_arg args)"
| "open_ty (TyClosure d args) = list_ex open_arg args"
| "open_ty (TyCoroutineClosure d args) = list_ex open_arg args"
| "open_ty (TyCoroutine d args) = list_ex open_arg args"
| "open_ty (TyCoroutineWitness d args) = list_ex open_arg args"
| "open_ty (TyTuple ts) = list_ex open_ty ts"
| "open_ty (TyPat t n) = open_ty t"
| "open_ty (TyAlias k d args) = list_ex open_arg args"
| "open_ty (TyUnsafeBinder t) = open_ty t"
| "open_ty _ = False"
| "open_arg (ArgType t) = open_ty t"
| "open_arg (ArgLifetime r) = early r"
| "open_arg (ArgConst c) = False"

text \<open>
  The types the search covers: ADTs with type and early-bound lifetime arguments, references with early-bound
  lifetimes, raw pointers, parameters, and any other type that has nothing to rename.
\<close>

fun searched :: "ty \<Rightarrow> bool" and searched_arg :: "generic_arg \<Rightarrow> bool" where
  "searched (TyAdt d args) = list_all searched_arg args"
| "searched (TyRef r t m) = (early r \<and> searched t)"
| "searched (TyRawPtr t m) = searched t"
| "searched (TyParam i n) = True"
| "searched t = (\<not> open_ty t)"
| "searched_arg (ArgType t) = searched t"
| "searched_arg (ArgLifetime r) = early r"
| "searched_arg (ArgConst c) = False"

section \<open>What the code compares\<close>

text \<open>
  The types are compared structurally at the constructors the code descends into, and for equality
  below all others; lifetimes must be the same early-bound parameter, constants never match.
\<close>

fun same_ty :: "renaming \<Rightarrow> ty \<Rightarrow> ty \<Rightarrow> bool"
  and same_arg :: "renaming \<Rightarrow> generic_arg \<Rightarrow> generic_arg \<Rightarrow> bool"
  and same_args :: "renaming \<Rightarrow> generic_arg list \<Rightarrow> generic_arg list \<Rightarrow> bool" where
  "same_ty r (TyAdt adt args1) t = (case t of TyAdt adt2 args2 \<Rightarrow> adt = adt2 \<and> same_args r args1 args2 | _ \<Rightarrow> False)"
| "same_ty r (TyRef r1 ty1 m1) t =
     (case t of TyRef r2 ty2 m2 \<Rightarrow> m1 = m2 \<and> unify_regions r1 r2 \<and> same_ty r ty1 ty2 | _ \<Rightarrow> False)"
| "same_ty r (TyRawPtr ty1 m1) t = (case t of TyRawPtr ty2 m2 \<Rightarrow> m1 = m2 \<and> same_ty r ty1 ty2 | _ \<Rightarrow> False)"
| "same_ty r (TyParam i _) t = (case t of TyParam j _ \<Rightarrow> r i = Some j | _ \<Rightarrow> False)"
| "same_ty r ty1 t = (ty1 = t)"
| "same_arg r (ArgType ty1) a = (case a of ArgType ty2 \<Rightarrow> same_ty r ty1 ty2 | _ \<Rightarrow> False)"
| "same_arg r (ArgConst _) a = False"
| "same_arg r (ArgLifetime r1) a = (case a of ArgLifetime r2 \<Rightarrow> unify_regions r1 r2 | _ \<Rightarrow> False)"
| "same_args r [] bs = (bs = [])"
| "same_args r (a # as) bs = (case bs of [] \<Rightarrow> False | b # bs \<Rightarrow> same_arg r a b \<and> same_args r as bs)"

text \<open>The renaming a map stands for; the code only ever stores parameters.\<close>

definition renaming_of :: "unification_map \<Rightarrow> renaming" where
  "renaming_of m i = (case m i of Some (ArgType (TyParam j _)) \<Rightarrow> Some j | _ \<Rightarrow> None)"

definition param_map :: "unification_map \<Rightarrow> bool" where
  "param_map m \<longleftrightarrow> (\<forall>i a. m i = Some a \<longrightarrow> (\<exists>j n. a = ArgType (TyParam j n)))"

text \<open>The result \<open>res\<close> of a search from \<open>m\<close> for a renaming with the property \<open>P\<close>.\<close>

definition least_renaming :: "(renaming \<Rightarrow> bool) \<Rightarrow> unification_map \<Rightarrow> bool \<times> unification_map \<Rightarrow> bool" where
  "least_renaming P m res \<longleftrightarrow>
     (case res of (found, m') \<Rightarrow>
        param_map m' \<and> renaming_of m \<subseteq>\<^sub>m renaming_of m' \<and>
        (found \<longrightarrow> P (renaming_of m')) \<and>
        (\<forall>r. renaming_of m \<subseteq>\<^sub>m r \<and> P r \<longrightarrow> found \<and> renaming_of m' \<subseteq>\<^sub>m r))"

lemma least_renaming_no: "param_map m \<Longrightarrow> \<forall>r. \<not> P r \<Longrightarrow> least_renaming P m (False, m)"
  by (simp add: least_renaming_def)

lemma least_renaming_const: "param_map m \<Longrightarrow> \<forall>r. P r = b \<Longrightarrow> least_renaming P m (b, m)"
  by (simp add: least_renaming_def)

lemma least_renaming_cong: "least_renaming P m res \<Longrightarrow> (\<And>r. P r = Q r) \<Longrightarrow> least_renaming Q m res"
  by (simp add: least_renaming_def)

lemma unify_param_result:
  assumes "param_map m"
  shows "least_renaming (\<lambda>r. same_ty r (TyParam i n) t) m (unify_param i t m)"
proof (cases t)
  case (TyParam j k)
  show ?thesis
  proof (cases "m i")
    case None
    with assms TyParam show ?thesis
      by (auto simp: least_renaming_def unify_param_def param_map_def renaming_of_def map_le_def dom_def
          split: if_splits)
  next
    case (Some a)
    with assms obtain j' n' where "a = ArgType (TyParam j' n')" unfolding param_map_def by blast
    with Some assms TyParam show ?thesis
      by (auto simp: least_renaming_def unify_param_def is_param_def renaming_of_def map_le_def dom_def)
  qed
qed (use assms in \<open>simp_all add: unify_param_def least_renaming_no\<close>)

text \<open>Renamings only have to grow for the relation to persist.\<close>

lemma same_mono:
  "\<lbrakk>same_ty r t1 t2; r \<subseteq>\<^sub>m r'\<rbrakk> \<Longrightarrow> same_ty r' t1 t2"
  "\<lbrakk>same_arg r a1 a2; r \<subseteq>\<^sub>m r'\<rbrakk> \<Longrightarrow> same_arg r' a1 a2"
  "\<lbrakk>same_args r as1 as2; r \<subseteq>\<^sub>m r'\<rbrakk> \<Longrightarrow> same_args r' as1 as2"
  by (induction r t1 t2 and r a1 a2 and r as1 as2 rule: same_ty_same_arg_same_args.induct)
     (auto split: ty.splits generic_arg.splits list.splits simp: map_le_def dom_def)

lemma same_args_length: "same_args r as bs \<Longrightarrow> length as = length bs"
  by (induction as arbitrary: bs) (auto split: list.splits)

text \<open>One search after another.\<close>

lemma least_renaming_seq:
  assumes first: "least_renaming P m (ok, m1)" and second: "ok \<Longrightarrow> least_renaming Q m1 res"
    and mono: "\<And>r r'. P r \<Longrightarrow> r \<subseteq>\<^sub>m r' \<Longrightarrow> P r'"
  shows "least_renaming (\<lambda>r. P r \<and> Q r) m (if \<not> ok then (False, m1) else res)"
proof (cases ok)
  case False
  with first show ?thesis by (auto simp: least_renaming_def)
next
  case True
  obtain found m2 where res: "res = (found, m2)" by (cases res)
  from second [OF True] res have s: "param_map m2" "renaming_of m1 \<subseteq>\<^sub>m renaming_of m2"
    "found \<Longrightarrow> Q (renaming_of m2)"
    "\<And>r. renaming_of m1 \<subseteq>\<^sub>m r \<Longrightarrow> Q r \<Longrightarrow> found \<and> renaming_of m2 \<subseteq>\<^sub>m r"
    by (auto simp: least_renaming_def)
  from first True have f: "renaming_of m \<subseteq>\<^sub>m renaming_of m1" "P (renaming_of m1)"
    "\<And>r. renaming_of m \<subseteq>\<^sub>m r \<Longrightarrow> P r \<Longrightarrow> renaming_of m1 \<subseteq>\<^sub>m r"
    by (auto simp: least_renaming_def)
  show ?thesis
    unfolding least_renaming_def res using True s f mono [OF f(2) s(2)]
    by (auto intro: map_le_trans)
qed

lemma unify_result:
  "param_map m \<Longrightarrow> least_renaming (\<lambda>r. same_ty r t1 t2) m (unify_types t1 t2 m)"
  "param_map m \<Longrightarrow> least_renaming (\<lambda>r. same_arg r a1 a2) m (unify_args a1 a2 m)"
  "param_map m \<Longrightarrow> least_renaming (\<lambda>r. same_args r as1 as2) m (unify_generic_args as1 as2 m)"
  "param_map m \<Longrightarrow> length bs1 = length bs2 \<Longrightarrow> least_renaming (\<lambda>r. same_args r bs1 bs2) m (unify_zip bs1 bs2 m)"
proof (induction t1 t2 m and a1 a2 m and as1 as2 m and bs1 bs2 m
    rule: unify_types_unify_args_unify_generic_args_unify_zip.induct)
  case (8 i n t m)
  then show ?case using unify_param_result by simp
next
  case (13 as bs m)
  then show ?case by (auto intro!: least_renaming_no dest: same_args_length)
next
  case (14 a as b bs m)
  obtain ok m1 where one: "unify_args a b m = (ok, m1)" by (cases "unify_args a b m")
  have "param_map m1" using 14(1) [OF 14(3)] one by (simp add: least_renaming_def)
  have "least_renaming (\<lambda>r. same_arg r a b \<and> same_args r as bs) m
     (if \<not> ok then (False, m1) else unify_zip as bs m1)"
  proof (rule least_renaming_seq)
    show "least_renaming (\<lambda>r. same_arg r a b) m (ok, m1)" using 14(1) [OF 14(3)] one by simp
    show "ok \<Longrightarrow> least_renaming (\<lambda>r. same_args r as bs) m1 (unify_zip as bs m1)"
      using 14(2) [OF one [symmetric]] \<open>param_map m1\<close> 14(4) by simp
  qed (rule same_mono(2))
  with one show ?case by simp
qed (auto intro: least_renaming_const least_renaming_no split: ty.split generic_arg.split)

text \<open>The type positions of the reference match; the others are not looked at.\<close>

fun type_position :: "renaming \<Rightarrow> generic_arg \<times> generic_arg option \<Rightarrow> bool" where
  "type_position r (ArgType t, b) = (\<exists>t2. b = Some (ArgType t2) \<and> same_ty r t t2)"
| "type_position r (_, b) = True"

lemma type_position_mono: "type_position r x \<Longrightarrow> r \<subseteq>\<^sub>m r' \<Longrightarrow> type_position r' x"
  by (induction r x rule: type_position.induct) (auto intro: same_mono)

lemma args_unify_loop_result:
  "param_map m \<Longrightarrow> least_renaming (\<lambda>r. list_all (type_position r) ps) m (args_unify_loop ps m)"
proof (induction ps arbitrary: m)
  case Nil
  then show ?case by (simp add: least_renaming_const)
next
  case (Cons p ps)
  obtain a b where p: "p = (a, b)" by (cases p)
  show ?case
  proof (cases "\<exists>t1 t2. a = ArgType t1 \<and> b = Some (ArgType t2)")
    case True
    then obtain t1 t2 where ab: "a = ArgType t1" "b = Some (ArgType t2)" by blast
    obtain ok m1 where one: "unify_types t1 t2 m = (ok, m1)" by (cases "unify_types t1 t2 m")
    have first: "least_renaming (\<lambda>r. same_ty r t1 t2) m (ok, m1)" using unify_result(1) [OF Cons.prems, of t1 t2] one by simp
    have "least_renaming (\<lambda>r. same_ty r t1 t2 \<and> list_all (type_position r) ps) m
        (if \<not> ok then (False, m1) else args_unify_loop ps m1)"
    proof (rule least_renaming_seq [OF first])
      show "ok \<Longrightarrow> least_renaming (\<lambda>r. list_all (type_position r) ps) m1 (args_unify_loop ps m1)"
        using first Cons.IH [of m1] by (simp add: least_renaming_def)
    qed (rule same_mono(1))
    with p ab one show ?thesis by simp
  next
    case False
    show ?thesis
    proof (cases a)
      case (ArgType t)
      with False have "b = None \<or> (\<exists>a2. b = Some a2 \<and> as_type a2 = None)"
        by (cases b) (auto elim!: as_type.elims, metis as_type.elims option.distinct(1))
      with ArgType p False Cons.prems show ?thesis
        by (auto intro!: least_renaming_no)
    qed (use p Cons in simp_all)
  qed
qed

lemma args_unify_types_result:
  assumes "param_map m"
  shows "least_renaming (\<lambda>r. length reference = length compare \<and> list_all (type_position r) (zip reference compare)) m
    (args_unify_types reference compare m)"
  using assms args_unify_loop_result [OF assms, of "zip reference compare"]
  by (auto simp: args_unify_types_def intro: least_renaming_no)

section \<open>Agreement on the searched types\<close>

lemma erase_closed_region: "\<not> early r \<Longrightarrow> erase_region r = r"
  by (cases r) auto

lemma early_erase [simp]: "early (erase_region r) = early r"
  by (cases r) auto

lemma open_erase [simp]:
  "open_ty (erase_ty t) = open_ty t" "open_arg (erase_arg a) = open_arg a"
  by (induction t and a rule: erase_ty_erase_arg.induct) (auto simp: list_ex_iff)

lemma closed_erase:
  "\<not> open_ty t \<Longrightarrow> erase_ty t = t \<and> params_ty t = []"
  "\<not> open_arg a \<Longrightarrow> erase_arg a = a \<and> params_arg a = []"
  by (induction t and a rule: erase_ty_erase_arg.induct) (auto simp: list_ex_iff erase_closed_region intro: map_idI)

lemma renamed_closed:
  assumes "\<not> open_ty t1"
  shows "renamed r t1 t2 \<longleftrightarrow> t1 = t2"
proof
  assume "renamed r t1 t2"
  then have "erase_ty t2 = t1" using closed_erase(1) [OF assms] by (simp add: renamed_def)
  with assms have "\<not> open_ty t2" using open_erase(1) [of t2] by simp
  from closed_erase(1) [OF this] \<open>erase_ty t2 = t1\<close> show "t1 = t2" by simp
qed (use closed_erase(1) [OF assms] in \<open>simp add: renamed_def\<close>)

lemma unify_regions_erase: "early r1 \<Longrightarrow> unify_regions r1 r2 \<longleftrightarrow> erase_region r1 = erase_region r2"
  by (cases r1; cases r2) (auto simp: unify_regions_def)

text \<open>The parameters of equal shapes correspond position by position.\<close>

lemma params_erase [simp]:
  "length (params_ty (erase_ty t)) = length (params_ty t)" "length (params_arg (erase_arg a)) = length (params_arg a)"
  by (induction t and a rule: erase_ty_erase_arg.induct) (simp_all add: length_concat comp_def cong: map_cong)

definition renamed_arg :: "renaming \<Rightarrow> generic_arg \<Rightarrow> generic_arg \<Rightarrow> bool" where
  "renamed_arg r a b \<longleftrightarrow> erase_arg a = erase_arg b \<and> map r (params_arg a) = map Some (params_arg b)"

lemma renamed_list:
  "map erase_arg as = map erase_arg bs \<and> map r (concat (map params_arg as)) = map Some (concat (map params_arg bs))
   \<longleftrightarrow> list_all2 (renamed_arg r) as bs"
proof (induction as arbitrary: bs)
  case (Cons a as)
  show ?case
  proof (cases bs)
    case (Cons b bs')
    have "erase_arg a = erase_arg b \<Longrightarrow> length (params_arg a) = length (params_arg b)"
      by (metis params_erase(2))
    with Cons.IH [of bs'] Cons show ?thesis by (auto simp: renamed_arg_def)
  qed simp
qed auto

lemma same_args_list: "same_args r as bs \<longleftrightarrow> list_all2 (same_arg r) as bs"
  by (induction as arbitrary: bs) (auto split: list.splits simp: list_all2_Cons1)

lemma same_iff_renamed:
  "searched t1 \<Longrightarrow> same_ty r t1 t2 \<longleftrightarrow> renamed r t1 t2"
  "searched_arg a1 \<Longrightarrow> same_arg r a1 a2 \<longleftrightarrow> renamed_arg r a1 a2"
proof (induction t1 and a1 arbitrary: t2 and a2 rule: searched_searched_arg.induct)
  case (1 d args)
  have "list_all2 (same_arg r) args bs \<longleftrightarrow> list_all2 (renamed_arg r) args bs" for bs
    using 1 by (auto simp: list_all_iff list_all2_conv_all_nth)
  then show ?case
    by (auto simp: renamed_def same_args_list renamed_list [symmetric] split: ty.split)
next
  case (2 q t m)
  then show ?case by (auto simp: renamed_def unify_regions_erase split: ty.split)
next
  case (3 t m)
  then show ?case by (auto simp: renamed_def split: ty.split)
next
  case (4 i n)
  then show ?case by (auto simp: renamed_def split: ty.split)
qed (simp_all add: renamed_closed, auto simp: renamed_arg_def renamed_def unify_regions_erase split: generic_arg.split)

section \<open>Properties\<close>

text \<open>
  C23. Unification of two types finds the least map of parameters that makes them the same, when the first is built from
  ADTs with type and early-bound lifetime arguments, references with early-bound lifetimes, raw pointers, parameters,
  and other types in which nothing can be renamed. The search never changes an entry of the map; it succeeds exactly
  when some map that extends the given one turns the parameters of the first type into those of the second, the types
  being equal otherwise; and then the new map is contained in every such map. The map holds parameters only, before
  and after. It need not be injective, see \<open>renaming_not_injective\<close> and \<open>unify_both_ways\<close>; the types left out
  are those of \<open>slices_are_not_renamed\<close> and \<open>equal_types_not_unified\<close>.
\<close>

theorem unify_types_least_renaming:
  assumes "param_map m" and "searched t1" and "unify_types t1 t2 m = (found, m')"
  shows "param_map m' \<and> renaming_of m \<subseteq>\<^sub>m renaming_of m'
    \<and> (found \<longleftrightarrow> (\<exists>r. renaming_of m \<subseteq>\<^sub>m r \<and> renamed r t1 t2))
    \<and> (\<forall>r. renaming_of m \<subseteq>\<^sub>m r \<and> renamed r t1 t2 \<longrightarrow> renaming_of m' \<subseteq>\<^sub>m r)"
  using unify_result(1) [OF assms(1), of t1 t2] assms(3)
  by (auto simp: least_renaming_def same_iff_renamed(1) [OF assms(2)])

theorem unify_types_least_renaming_witness:
  "\<exists>r. renamed r (TyRawPtr (TyParam 0 ''T'') 0) (TyRawPtr (TyParam 5 ''U'') 0)"
proof -
  have "param_map Map.empty" by (simp add: param_map_def)
  moreover have "unify_types (TyRawPtr (TyParam 0 ''T'') 0) (TyRawPtr (TyParam 5 ''U'') 0) Map.empty
      = (True, [0 \<mapsto> ArgType (TyParam 5 ''U'')])"
    by (simp add: unify_param_def)
  moreover have "searched (TyRawPtr (TyParam 0 ''T'') 0)" by simp
  ultimately show ?thesis using unify_types_least_renaming by blast
qed

text \<open>Unification in both directions: there is an injective map.\<close>

lemma map_Some_inverse:
  "(\<exists>r. map r xs = map Some ys) \<and> (\<exists>r. map r ys = map Some xs) \<longleftrightarrow> (\<exists>r. map r xs = map Some ys \<and> inj_on r (set xs))"
proof (intro iffI conjI; (elim conjE exE)?)
  fix r q assume r: "map r xs = map Some ys" and q: "map q ys = map Some xs"
  have "length xs = length ys" using map_eq_imp_length_eq [OF r] .
  moreover have "r (xs ! i) = Some (ys ! i)" "q (ys ! i) = Some (xs ! i)" if "i < length xs" for i
    using that r q calculation by (metis nth_map)+
  ultimately have "inj_on r (set xs)"
    by (intro inj_onI) (metis in_set_conv_nth option.inject)
  with r show "\<exists>r. map r xs = map Some ys \<and> inj_on r (set xs)" by blast
next
  fix r assume r: "map r xs = map Some ys" and inj: "inj_on r (set xs)"
  then show "\<exists>r. map r xs = map Some ys" by blast
  define q where "q y = (if y \<in> set ys then Some (inv_into (set xs) r (Some y)) else None)" for y
  have len: "length xs = length ys" using map_eq_imp_length_eq [OF r] .
  have "map q ys = map Some xs"
  proof (rule nth_equalityI)
    fix i assume "i < length (map q ys)"
    then have i: "i < length xs" "i < length ys" using len by simp_all
    then have "r (xs ! i) = Some (ys ! i)" using r by (metis nth_map)
    then have "inv_into (set xs) r (Some (ys ! i)) = xs ! i"
      using inv_into_f_f [OF inj, of "xs ! i"] i by simp
    with i show "map q ys ! i = map Some xs ! i" by (simp add: q_def)
  qed (simp add: len)
  then show "\<exists>r. map r ys = map Some xs" by blast
qed

lemma unify_found_iff:
  assumes "searched t1"
  shows "fst (unify_types t1 t2 Map.empty) \<longleftrightarrow> (\<exists>r. renamed r t1 t2)"
proof -
  have empty: "param_map Map.empty" "renaming_of Map.empty \<subseteq>\<^sub>m r" for r
    by (simp_all add: param_map_def map_le_def renaming_of_def dom_def)
  show ?thesis
    using unify_result(1) [OF empty(1), of t1 t2] empty(2)
    by (auto simp: least_renaming_def same_iff_renamed(1) [OF assms] split: prod.splits)
qed

lemma unify_both_ways:
  assumes "searched t1" and "searched t2"
  shows "fst (unify_types t1 t2 Map.empty) \<and> fst (unify_types t2 t1 Map.empty) \<longleftrightarrow>
    (\<exists>r. renamed r t1 t2 \<and> inj_on r (set (params_ty t1)))"
  using map_Some_inverse [of "params_ty t1" "params_ty t2"]
  unfolding unify_found_iff [OF assms(1)] unify_found_iff [OF assms(2)] renamed_def by metis

text \<open>
  Matching argument lists: the answer is yes exactly when the lists have the same length and one
  renaming that extends the map makes every type position of the reference the same as the
  argument it is compared with.
\<close>

theorem args_unify_types_spec:
  assumes "param_map m" and "args_unify_types reference compare m = (found, m')"
  shows "param_map m' \<and> (found \<longleftrightarrow> length reference = length compare \<and>
    (\<exists>r. renaming_of m \<subseteq>\<^sub>m r \<and> list_all (type_position r) (zip reference compare)))"
  using args_unify_types_result [OF assms(1), of reference compare] assms(2)
  by (auto simp: least_renaming_def)

theorem args_unify_types_spec_witness:
  "\<exists>r. list_all (type_position r)
     (zip [ArgType (TyParam 0 ''T''), ArgConst 1] [Some (ArgType (TyParam 2 ''U'')), None])"
proof -
  have "param_map Map.empty" by (simp add: param_map_def)
  moreover have "args_unify_types [ArgType (TyParam 0 ''T''), ArgConst 1] [Some (ArgType (TyParam 2 ''U'')), None] Map.empty
      = (True, [0 \<mapsto> ArgType (TyParam 2 ''U'')])"
    by (simp add: args_unify_types_def unify_param_def)
  ultimately show ?thesis using args_unify_types_spec by blast
qed

text \<open>Below a slice, an array or a tuple no renaming is considered.\<close>

lemma slices_are_not_renamed:
  "unify_types (TySlice (TyParam 0 ''T'')) (TySlice (TyParam 1 ''U'')) Map.empty = (False, Map.empty)"
  "unify_types (TyTuple [TyParam 0 ''T'']) (TyTuple [TyParam 1 ''U'']) Map.empty = (False, Map.empty)"
  "renamed [0 \<mapsto> 1] (TySlice (TyParam 0 ''T'')) (TySlice (TyParam 1 ''U''))"
  by (simp_all add: renamed_def)

text \<open>Lifetimes other than early-bound ones and constants do not even match themselves.\<close>

lemma equal_types_not_unified:
  "fst (unify_types (TyRef ReStatic TyStr 0) (TyRef ReStatic TyStr 0) Map.empty) = False"
  "fst (unify_types (TyAdt 0 [ArgConst 1]) (TyAdt 0 [ArgConst 1]) Map.empty) = False"
  by (simp_all add: unify_regions_def)

text \<open>The renaming need not be injective: two parameters may be mapped to one.\<close>

lemma renaming_not_injective:
  "fst (unify_types (TyAdt 0 [ArgType (TyParam 0 ''T''), ArgType (TyParam 1 ''U'')])
     (TyAdt 0 [ArgType (TyParam 0 ''T''), ArgType (TyParam 0 ''T'')]) Map.empty)"
  by (simp add: unify_param_def)

end
