(* ===== verification/CoqSyntax.thy ===== *)
theory CoqSyntax
  imports BTree
begin

text \<open>
  The part of crate \<open>radium\<close> that the attribute parsers build: Rocq terms, types, binders and Iris
  propositions with their printing (\<open>radium/src/coq/term.rs\<close>, \<open>binder.rs\<close>, \<open>iris.rs\<close>,
  \<open>radium/src/model.rs\<close>), module exports (\<open>coq/module.rs\<close>) and the record of the variables a
  literal mentions (\<open>TypeAnnotMeta\<close> of \<open>radium/src/specs/mod.rs\<close>). A string is the list of its UTF-8
  bytes, a panic is \<^term>\<open>None\<close>. The indentation writer of the \<open>indent_write\<close> crate is a parameter
  of the printers.
\<close>

section \<open>Pieces of text\<close>

text \<open>The characters outside ASCII, as their UTF-8 bytes.\<close>

definition u_sep :: string where "u_sep = [CHR 0xE2, CHR 0x88, CHR 0x97]"
definition u_or :: string where "u_or = [CHR 0xE2, CHR 0x88, CHR 0xA8]"
definition u_and :: string where "u_and = [CHR 0xE2, CHR 0x88, CHR 0xA7]"
definition u_not :: string where "u_not = [CHR 0xC2, CHR 0xAC]"
definition u_exists :: string where "u_exists = [CHR 0xE2, CHR 0x88, CHR 0x83]"
definition u_forall :: string where "u_forall = [CHR 0xE2, CHR 0x88, CHR 0x80]"
definition u_lambda :: string where "u_lambda = [CHR 0xCE, CHR 0xBB]"
definition u_arrow :: string where "u_arrow = [CHR 0xE2, CHR 0x86, CHR 0x92]"
definition u_lceil :: string where "u_lceil = [CHR 0xE2, CHR 0x8C, CHR 0x9C]"
definition u_rceil :: string where "u_rceil = [CHR 0xE2, CHR 0x8C, CHR 0x9D]"
definition u_pi :: string where "u_pi = [CHR 0xCF, CHR 0x80]"
definition u_gamma :: string where "u_gamma = [CHR 0xCE, CHR 0xB3]"
definition u_sigma :: string where "u_sigma = [CHR 0xCE, CHR 0xA3]"
definition u_own :: string where "u_own = [CHR 0xE2, CHR 0x97, CHR 0x81]"
definition u_sub_l :: string where "u_sub_l = [CHR 0xE2, CHR 0x82, CHR 0x97]"
definition newline :: string where "newline = [CHR 0x0A]"
definition dquote :: string where "dquote = [CHR 0x22]"

text \<open>\<open>str::contains\<close>, on bytes.\<close>

definition contains_text :: "string \<Rightarrow> string \<Rightarrow> bool" where
  "contains_text pat s = list_ex (\<lambda>i. take (length pat) (drop i s) = pat) [0..<Suc (length s)]"

text \<open>Joining by a separator, and concatenating pieces of which one may have panicked.\<close>

fun join_with :: "string \<Rightarrow> string list \<Rightarrow> string" where
  "join_with sep [] = []"
| "join_with sep [x] = x"
| "join_with sep (x # xs) = x @ sep @ join_with sep xs"

definition pieces :: "string option list \<Rightarrow> string option" where
  "pieces ps = map_option concat (those ps)"

definition joined :: "string \<Rightarrow> string option list \<Rightarrow> string option" where
  "joined sep ps = map_option (join_with sep) (those ps)"

text \<open>\<open>fmt_list!(v, sep, "(..)")\<close> with an opening and a closing text around each element.\<close>

definition joined_in :: "string \<Rightarrow> string \<Rightarrow> string \<Rightarrow> string option list \<Rightarrow> string option" where
  "joined_in l r sep ps = joined sep (map (map_option (\<lambda>s. l @ s @ r)) ps)"

section \<open>Terms, types, binders and propositions\<close>

datatype binder_kind = Explicit | MaxImplicit | NonMaxImplicit

text \<open>
  \<open>Term\<close>, \<open>Type\<close>, \<open>Binder\<close> and \<open>IProp\<close>. The constructors of \<open>model::Term\<close> and \<open>model::Type\<close> stand beside
  those of the term language instead of under \<open>UserDefined\<close>; \<open>TModel\<close> is one of the constructors of
  \<open>model::Type\<close> without arguments, given by its text.
\<close>

datatype coq_term =
    TmType coq_type
  | TmLiteral string
  | TmInfer
  | TmIdent string
  | TmApp coq_term "coq_term list"
  | TmLetIn string coq_term coq_term
  | TmRecordBody "(string \<times> coq_binder list \<times> coq_term) list"
  | TmRecordProj coq_term string
  | TmAll "coq_binder list" coq_term
  | TmExists "coq_binder list" coq_term
  | TmLambda "coq_binder list" coq_term
  | TmInfix string "coq_term list"
  | TmPrefix string coq_term
  | TmAsType coq_term coq_type
  | TmIProp iprop
  | TmWithName coq_term string
and coq_type =
    TTerm coq_term
  | TLiteral string
  | TFunction "coq_type list" coq_type
  | TInfer
  | TProp
  | TType
  | TRT
  | TUnit
  | TZ
  | TBool
  | TList coq_type
  | TProd "coq_type list"
  | TModel string
  | TPlaceRfn coq_type
  | TPList string "coq_type list" string
  | TSpecWith nat "coq_type list" coq_type
  | TStructT coq_term "coq_type list"
  | TTtype coq_type
  | TRtXt coq_type
  | TWithName coq_term string
and coq_binder =
    Default "string option" coq_type
  | Implicit binder_kind "string option" "coq_type option"
  | Generalizing binder_kind "string option" coq_type
and iprop =
    IpTrue
  | IpAtom string
  | IpPure coq_term
  | IpSep "iprop list"
  | IpDisj "iprop list"
  | IpConj "iprop list"
  | IpWand iprop iprop
  | IpExists "coq_binder list" iprop
  | IpAll "coq_binder list" iprop

text \<open>The types \<open>gname\<close>, \<open>iProp\<close> and \<open>thread_id\<close> of the model.\<close>

definition TGname :: coq_type where "TGname = TModel ''gname''"
definition TIProp :: coq_type where "TIProp = TModel (''iProp '' @ u_sigma)"
definition TThreadId :: coq_type where "TThreadId = TModel ''thread_id''"

section \<open>Binders\<close>

definition binder_new :: "string option \<Rightarrow> coq_type \<Rightarrow> coq_binder" where
  "binder_new name ty = Default name ty"

definition new_with_name_hint :: "string \<Rightarrow> coq_type \<Rightarrow> coq_binder" where
  "new_with_name_hint name ty = Default (Some name) (TWithName (TmType ty) name)"

definition new_implicit :: "binder_kind \<Rightarrow> string option \<Rightarrow> coq_type option \<Rightarrow> coq_binder" where
  "new_implicit kind name ty = Implicit kind name ty"

definition new_generalized :: "binder_kind \<Rightarrow> string option \<Rightarrow> coq_type \<Rightarrow> coq_binder" where
  "new_generalized kind name ty = Generalizing kind name ty"

fun get_name_ref :: "coq_binder \<Rightarrow> string option" where
  "get_name_ref (Default name _) = name"
| "get_name_ref (Implicit _ name _) = name"
| "get_name_ref (Generalizing _ name _) = name"

definition get_name :: "coq_binder \<Rightarrow> string" where
  "get_name b = (case get_name_ref b of None \<Rightarrow> ''_'' | Some name \<Rightarrow> name)"

fun get_type :: "coq_binder \<Rightarrow> coq_type option" where
  "get_type (Default _ ty) = Some ty"
| "get_type (Implicit _ _ ty) = ty"
| "get_type (Generalizing _ _ ty) = Some ty"

fun is_implicit :: "coq_binder \<Rightarrow> bool" where
  "is_implicit (Generalizing _ _ _) = True"
| "is_implicit _ = False"

definition is_dependent_on_sigma :: "coq_binder \<Rightarrow> bool" where
  "is_dependent_on_sigma b =
     (case get_type b of Some (TLiteral lit) \<Rightarrow> contains_text u_sigma lit | _ \<Rightarrow> False)"

fun set_name :: "string \<Rightarrow> coq_binder \<Rightarrow> coq_binder" where
  "set_name name (Default _ ty) = Default (Some name) ty"
| "set_name name (Implicit k _ ty) = Implicit k (Some name) ty"
| "set_name name (Generalizing k _ ty) = Generalizing k (Some name) ty"

fun make_implicit :: "binder_kind \<Rightarrow> coq_binder \<Rightarrow> coq_binder" where
  "make_implicit kind (Default name ty) = Generalizing kind name ty"
| "make_implicit kind (Generalizing _ name ty) = Generalizing kind name ty"
| "make_implicit kind (Implicit _ name ty) = Implicit kind name ty"

text \<open>Binder lists.\<close>

definition make_using_terms :: "coq_binder list \<Rightarrow> coq_term list" where
  "make_using_terms bs = map (\<lambda>b. TmLiteral (get_name b)) (filter (\<lambda>b. \<not> is_implicit b) bs)"

definition make_implicit_inst_terms :: "coq_binder list \<Rightarrow> coq_term list" where
  "make_implicit_inst_terms bs = map (\<lambda>b. TmLiteral (''('' @ get_name b @ '' := '' @ get_name b @ '')'')) bs"

definition list_make_implicit :: "binder_kind \<Rightarrow> coq_binder list \<Rightarrow> coq_binder list" where
  "list_make_implicit kind bs = map (make_implicit kind) bs"

section \<open>Printing\<close>

text \<open>
  What the \<open>IndentWriter\<close> of two kinds makes of the text written through it: one that indents every
  line, and one that leaves the first line alone.
\<close>

record indenter =
  indent_lines :: "string \<Rightarrow> string"
  indent_skip_initial :: "string \<Rightarrow> string"

fun show_nat :: "nat \<Rightarrow> string" where
  "show_nat n = (if n < 10 then [char_of (48 + n)] else show_nat (n div 10) @ [char_of (48 + n mod 10)])"

declare show_nat.simps [simp del]

definition binders_text_empty :: "string \<Rightarrow> string \<Rightarrow> string option list \<Rightarrow> string option" where
  "binders_text_empty op dflt bs =
     (if bs = [] then Some dflt else pieces [Some op, Some '' '', joined '' '' bs, Some '', ''])"

definition binders_text :: "string \<Rightarrow> string option list \<Rightarrow> string option" where
  "binders_text op bs = binders_text_empty op [] bs"

definition infix_text :: "string \<Rightarrow> string option list \<Rightarrow> string option" where
  "infix_text op ts = (if ts = [] then Some ''True'' else joined_in ''('' '')'' ('' '' @ op @ '' '') ts)"

text \<open>\<open>fmt_with_op\<close> of \<open>iris.rs\<close>.\<close>

definition fmt_with_op :: "string \<Rightarrow> string option list \<Rightarrow> string option" where
  "fmt_with_op op ps = (if ps = [] then Some ''True'' else joined_in ''('' '')'' (newline @ op @ '' '') ps)"

definition fmt_prod :: "string option list \<Rightarrow> string option" where
  "fmt_prod ts =
     (case ts of [] \<Rightarrow> Some ''unit'' | [t] \<Rightarrow> t
      | _ \<Rightarrow> pieces [Some ''('', joined '' * '' ts, Some '')%type''])"

definition record_item_text :: "indenter \<Rightarrow> string \<times> string option list \<times> string option \<Rightarrow> string option" where
  "record_item_text I it =
     (case it of (name, params, t) \<Rightarrow>
        map_option (indent_skip_initial I)
          (pieces [Some name, Some '' '', joined '' '' params, Some ('' :='' @ newline), t, Some '';'']))"

definition record_body_text :: "indenter \<Rightarrow> (string \<times> string option list \<times> string option) list \<Rightarrow> string option" where
  "record_body_text I its =
     pieces [Some (''{|'' @ newline),
       map_option (indent_lines I) (pieces (map (\<lambda>it. pieces [record_item_text I it, Some newline]) its)),
       Some (''|}'' @ newline)]"

text \<open>Implicit binders cannot be explicit: printing one panics.\<close>

definition implicit_text :: "binder_kind \<Rightarrow> string option \<Rightarrow> string option option \<Rightarrow> string option" where
  "implicit_text kind name ty =
     (let inner = (case (name, ty) of
            (Some n, Some t) \<Rightarrow> pieces [Some n, Some '' : '', t]
          | (Some n, None) \<Rightarrow> Some n
          | (None, Some t) \<Rightarrow> t
          | (None, None) \<Rightarrow> Some [])
      in case kind of
           Explicit \<Rightarrow> None
         | MaxImplicit \<Rightarrow> pieces [Some ''{'', inner, Some ''}'']
         | NonMaxImplicit \<Rightarrow> pieces [Some ''['', inner, Some '']''])"

definition generalizing_text :: "binder_kind \<Rightarrow> string option \<Rightarrow> string option \<Rightarrow> string option" where
  "generalizing_text kind name ty =
     (let inner = (case name of Some n \<Rightarrow> pieces [Some n, Some '' : !'', ty] | None \<Rightarrow> pieces [Some ''!'', ty])
      in case kind of
           Explicit \<Rightarrow> pieces [Some ''`('', inner, Some '')'']
         | MaxImplicit \<Rightarrow> pieces [Some ''`{'', inner, Some ''}'']
         | NonMaxImplicit \<Rightarrow> pieces [Some ''`['', inner, Some '']''])"

text \<open>The \<open>Display\<close> instances of the four types.\<close>

primrec fmt_term :: "indenter \<Rightarrow> coq_term \<Rightarrow> string option"
  and fmt_type :: "indenter \<Rightarrow> coq_type \<Rightarrow> string option"
  and fmt_binder :: "indenter \<Rightarrow> coq_binder \<Rightarrow> string option"
  and fmt_iprop :: "indenter \<Rightarrow> iprop \<Rightarrow> string option" where
  "fmt_term I (TmType t) = fmt_type I t"
| "fmt_term I (TmLiteral lit) = Some (indent_skip_initial I lit)"
| "fmt_term I TmInfer = Some ''_''"
| "fmt_term I (TmIdent s) = Some s"
| "fmt_term I (TmApp f xs) =
     (if xs = [] then fmt_term I f
      else pieces [Some ''('', fmt_term I f, Some '' '', joined_in ''('' '')'' '' '' (map (fmt_term I) xs), Some '')''])"
| "fmt_term I (TmLetIn x t u) = pieces [Some ''let '', Some x, Some '' := '', fmt_term I t, Some '' in '', fmt_term I u]"
| "fmt_term I (TmRecordBody its) =
     record_body_text I (map (map_prod id (map_prod (map (fmt_binder I)) (fmt_term I))) its)"
| "fmt_term I (TmRecordProj r c) = pieces [fmt_term I r, Some ''.('', Some c, Some '')'']"
| "fmt_term I (TmAll bs t) = pieces [binders_text u_forall (map (fmt_binder I) bs), fmt_term I t]"
| "fmt_term I (TmExists bs t) = pieces [binders_text u_exists (map (fmt_binder I) bs), fmt_term I t]"
| "fmt_term I (TmLambda bs t) =
     pieces [binders_text_empty u_lambda (u_lambda @ '' '' @ [CHR 0x27] @ ''(), '') (map (fmt_binder I) bs), fmt_term I t]"
| "fmt_term I (TmInfix op ts) = infix_text op (map (fmt_term I) ts)"
| "fmt_term I (TmPrefix op t) = pieces [Some op, Some '' ('', fmt_term I t, Some '')'']"
| "fmt_term I (TmAsType t ty) = pieces [Some ''('', fmt_term I t, Some '') : ('', fmt_type I ty, Some '')'']"
| "fmt_term I (TmIProp p) = pieces [Some ''('', fmt_iprop I p, Some '')%I'']"
| "fmt_term I (TmWithName t n) =
     pieces [Some (''name_hint '' @ dquote @ n @ dquote @ '' (''), fmt_term I t, Some '')%Z'']"
| "fmt_type I (TTerm t) = fmt_term I t"
| "fmt_type I (TLiteral s) = Some (''('' @ s @ '')'')"
| "fmt_type I (TFunction ts t) =
     pieces [joined_in ''('' '')'' ('' '' @ u_arrow @ '' '') (map (fmt_type I) ts), Some ('' '' @ u_arrow @ '' ''), fmt_type I t]"
| "fmt_type I TInfer = Some ''_''"
| "fmt_type I TProp = Some ''Prop''"
| "fmt_type I TType = Some ''Type''"
| "fmt_type I TRT = Some ''RT''"
| "fmt_type I TUnit = Some ''unit''"
| "fmt_type I TZ = Some ''Z''"
| "fmt_type I TBool = Some ''bool''"
| "fmt_type I (TList t) = pieces [Some ''list ('', fmt_type I t, Some '')'']"
| "fmt_type I (TProd ts) = fmt_prod (map (fmt_type I) ts)"
| "fmt_type I (TModel s) = Some s"
| "fmt_type I (TPlaceRfn t) = pieces [Some ''(place_rfnRT '', fmt_type I t, Some '')'']"
| "fmt_type I (TPList c ts k) =
     pieces [Some (''(plist '' @ c @ '' [''), joined_in [] ('' : '' @ k) ''; '' (map (fmt_type I) ts), Some ''])'']"
| "fmt_type I (TSpecWith n ts t) =
     pieces [Some (''(spec_with '' @ show_nat n @ '' [''), joined ''; '' (map (fmt_type I) ts), Some ''] ('',
       fmt_type I t, Some ''))'']"
| "fmt_type I (TStructT t ts) =
     pieces [Some ''(struct_t '', fmt_term I t, Some '' +['', joined ''; '' (map (fmt_type I) ts), Some ''])'']"
| "fmt_type I (TTtype t) = pieces [Some ''(type '', fmt_type I t, Some '')'']"
| "fmt_type I (TRtXt t) = pieces [Some ''(RT_xt '', fmt_type I t, Some '')'']"
| "fmt_type I (TWithName t n) =
     pieces [Some (''name_hint_ty '' @ dquote @ n @ dquote @ '' (''), fmt_term I t, Some '')%Z'']"
| "fmt_binder I (Default name ty) =
     pieces [Some (''('' @ (case name of None \<Rightarrow> ''_'' | Some n \<Rightarrow> n) @ '': ''), fmt_type I ty, Some '')'']"
| "fmt_binder I (Implicit kind name ty) = implicit_text kind name (map_option (fmt_type I) ty)"
| "fmt_binder I (Generalizing kind name ty) = generalizing_text kind name (fmt_type I ty)"
| "fmt_iprop I IpTrue = Some ''True''"
| "fmt_iprop I (IpAtom s) = Some s"
| "fmt_iprop I (IpPure t) = pieces [Some (u_lceil @ ''(''), fmt_term I t, Some ('')%Z'' @ u_rceil)]"
| "fmt_iprop I (IpSep ps) = fmt_with_op u_sep (map (fmt_iprop I) ps)"
| "fmt_iprop I (IpDisj ps) = fmt_with_op u_or (map (fmt_iprop I) ps)"
| "fmt_iprop I (IpConj ps) = fmt_with_op u_and (map (fmt_iprop I) ps)"
| "fmt_iprop I (IpWand p q) = pieces [fmt_iprop I p, Some ('' -'' @ u_sep @ '' ''), fmt_iprop I q]"
| "fmt_iprop I (IpExists bs p) = pieces [binders_text u_exists (map (fmt_binder I) bs), fmt_iprop I p]"
| "fmt_iprop I (IpAll bs p) = pieces [binders_text u_forall (map (fmt_binder I) bs), fmt_iprop I p]"

text \<open>The loop of \<open>uncurry\<close>: the pattern, the types and the flag for a separator.\<close>

definition uncurry_step ::
  "indenter \<Rightarrow> coq_binder \<Rightarrow> string \<times> string \<times> bool \<Rightarrow> (string \<times> string \<times> bool) option" where
  "uncurry_step I b s =
     (case s of (pattern, types, need_sep) \<Rightarrow>
        let pattern = pattern @ (if need_sep then '', '' else []) @ get_name b;
            types = types @ (if need_sep then '' * '' else [])
        in map_option (\<lambda>ty. (pattern, types @ ty, True)) (Option.bind (get_type b) (fmt_type I)))"

definition uncurry :: "indenter \<Rightarrow> coq_binder list \<Rightarrow> (string \<times> coq_type) option" where
  "uncurry I bs =
     (if bs = [] then Some (''_'', TUnit)
      else map_option (\<lambda>(pattern, types, _). (pattern @ '')'', TLiteral (types @ '')'')))
             (fold_opt (uncurry_step I) bs (''('', ''('', False)))"

section \<open>Propositions made pure\<close>

text \<open>
  \<open>try_to_pure\<close>: an existential quantifier is not lifted. \<open>map_option\<close> of a list of results is
  \<open>try_collect\<close>.
\<close>

fun try_to_pure :: "iprop \<Rightarrow> coq_term option" where
  "try_to_pure IpTrue = Some (TmLiteral ''True'')"
| "try_to_pure (IpPure t) = Some t"
| "try_to_pure (IpSep ps) = map_option (TmInfix u_and) (those (map try_to_pure ps))"
| "try_to_pure (IpConj ps) = map_option (TmInfix u_and) (those (map try_to_pure ps))"
| "try_to_pure (IpDisj ps) = map_option (TmInfix u_or) (those (map try_to_pure ps))"
| "try_to_pure (IpAll bs p) = map_option (TmAll bs) (try_to_pure p)"
| "try_to_pure (IpAtom _) = None"
| "try_to_pure (IpWand _ _) = None"
| "try_to_pure (IpExists _ _) = None"

definition purify :: "iprop \<Rightarrow> iprop" where
  "purify p = (case try_to_pure p of Some t \<Rightarrow> IpPure t | None \<Rightarrow> p)"

section \<open>Module exports\<close>

datatype module_kind = Import | Export

record from_require =
  fr_from :: "string list option"
  fr_import :: "string list"
  fr_kind :: module_kind

definition export_new :: "string list \<Rightarrow> from_require" where
  "export_new import = \<lparr>fr_from = None, fr_import = import, fr_kind = Export\<rparr>"

definition export_from :: "string list \<Rightarrow> from_require \<Rightarrow> from_require" where
  "export_from path e = e\<lparr>fr_from := Some path\<rparr>"

section \<open>Variables mentioned by a literal\<close>

record annot_meta =
  escaped_lfts :: "nat btset"
  escaped_tyvars :: "nat btset"

definition meta_is_empty :: "annot_meta \<Rightarrow> bool" where
  "meta_is_empty a \<longleftrightarrow> escaped_lfts a = [] \<and> escaped_tyvars a = []"

definition meta_empty :: annot_meta where
  "meta_empty = \<lparr>escaped_lfts = [], escaped_tyvars = []\<rparr>"

definition meta_join :: "annot_meta \<Rightarrow> annot_meta \<Rightarrow> annot_meta" where
  "meta_join a s =
     \<lparr>escaped_lfts = bs_from (escaped_lfts a @ escaped_lfts s),
      escaped_tyvars = bs_from (escaped_tyvars a @ escaped_tyvars s)\<rparr>"

definition add_lft :: "nat \<Rightarrow> annot_meta \<Rightarrow> annot_meta" where
  "add_lft l a = a\<lparr>escaped_lfts := bs_insert l (escaped_lfts a)\<rparr>"

section \<open>Laws\<close>

lemma make_implicit_sel [simp]:
  "get_name (make_implicit k b) = get_name b" "get_type (make_implicit k b) = get_type b"
  by (cases b; simp add: get_name_def)+

lemma get_name_set_name [simp]: "get_name (set_name n b) = n" "get_type (set_name n b) = get_type b"
  by (cases b; simp add: get_name_def)+

lemma join_with_Cons: "join_with sep (x # xs) = x @ concat (map (\<lambda>y. sep @ y) xs)"
  by (induction xs arbitrary: x) simp_all

text \<open>The text of a binder's type, where it has one that prints.\<close>

definition type_text :: "indenter \<Rightarrow> coq_binder \<Rightarrow> string option" where
  "type_text I b = Option.bind (get_type b) (fmt_type I)"

lemma uncurry_loop:
  assumes "list_all (\<lambda>b. type_text I b \<noteq> None) bs"
  shows "fold_opt (uncurry_step I) bs (pat, tys, True) =
    Some (pat @ concat (map (\<lambda>b. '', '' @ get_name b) bs), tys @ concat (map (\<lambda>b. '' * '' @ the (type_text I b)) bs), True)"
  using assms by (induction bs arbitrary: pat tys) (auto simp: uncurry_step_def Let_def type_text_def)

lemma uncurry_result:
  assumes "bs \<noteq> []" and "list_all (\<lambda>b. type_text I b \<noteq> None) bs"
  shows "uncurry I bs = Some (''('' @ join_with '', '' (map get_name bs) @ '')'',
    TLiteral (''('' @ join_with '' * '' (map (the \<circ> type_text I) bs) @ '')''))"
proof -
  obtain b cs where bs: "bs = b # cs" using assms(1) by (cases bs) auto
  obtain ty where ty: "type_text I b = Some ty" using assms(2) bs by auto
  have "uncurry_step I b (''('', ''('', False) = Some (''('' @ get_name b, ''('' @ ty, True)"
    using ty by (simp add: uncurry_step_def type_text_def)
  moreover have "list_all (\<lambda>b. type_text I b \<noteq> None) cs" using assms(2) bs by simp
  ultimately show ?thesis
    by (simp add: uncurry_def bs uncurry_loop join_with_Cons comp_def ty)
qed

end
