(* ===== verification/PureProps.thy ===== *)
theory PureProps
  imports CoqSyntax
begin

text \<open>
  What \<open>purify\<close> of \<open>radium/src/coq/iris.rs\<close> preserves. Propositions are interpreted over resources,
  as sets of some type that a separating conjunction splits; terms that are not connectives, atoms and
  binders have an arbitrary meaning. A pure proposition holds of every resource.
\<close>

section \<open>Meaning of terms and propositions\<close>

record ('e, 'r) prop_model =
  pm_term :: "coq_term \<Rightarrow> 'e \<Rightarrow> bool"
  pm_atom :: "string \<Rightarrow> 'e \<Rightarrow> 'r set \<Rightarrow> bool"
  pm_bind :: "coq_binder list \<Rightarrow> 'e \<Rightarrow> 'e set"

text \<open>An infix term without operands prints as \<open>True\<close>, whatever its operator.\<close>

fun term_holds :: "('e, 'r) prop_model \<Rightarrow> coq_term \<Rightarrow> 'e \<Rightarrow> bool" where
  "term_holds K (TmInfix op ts) e =
     (if ts = [] then True
      else if op = u_and then \<forall>t \<in> set ts. term_holds K t e
      else if op = u_or then \<exists>t \<in> set ts. term_holds K t e
      else pm_term K (TmInfix op ts) e)"
| "term_holds K (TmAll bs t) e = (\<forall>e' \<in> pm_bind K bs e. term_holds K t e')"
| "term_holds K (TmLiteral s) e = (s = ''True'' \<or> pm_term K (TmLiteral s) e)"
| "term_holds K t e = pm_term K t e"

text \<open>A resource split between propositions; what is left over is dropped.\<close>

fun sep_holds :: "('r set \<Rightarrow> bool) list \<Rightarrow> 'r set \<Rightarrow> bool" where
  "sep_holds [] h = True"
| "sep_holds (P # Ps) h = (\<exists>h1 h2. h1 \<inter> h2 = {} \<and> h1 \<union> h2 \<subseteq> h \<and> P h1 \<and> sep_holds Ps h2)"

fun iprop_holds :: "('e, 'r) prop_model \<Rightarrow> iprop \<Rightarrow> 'e \<Rightarrow> 'r set \<Rightarrow> bool" where
  "iprop_holds K IpTrue e h = True"
| "iprop_holds K (IpAtom s) e h = pm_atom K s e h"
| "iprop_holds K (IpPure t) e h = term_holds K t e"
| "iprop_holds K (IpSep ps) e h = sep_holds (map (\<lambda>p h. iprop_holds K p e h) ps) h"
| "iprop_holds K (IpDisj ps) e h = (ps = [] \<or> (\<exists>p \<in> set ps. iprop_holds K p e h))"
| "iprop_holds K (IpConj ps) e h = (\<forall>p \<in> set ps. iprop_holds K p e h)"
| "iprop_holds K (IpWand p q) e h = (\<forall>h'. h \<inter> h' = {} \<longrightarrow> iprop_holds K p e h' \<longrightarrow> iprop_holds K q e (h \<union> h'))"
| "iprop_holds K (IpExists bs p) e h = (\<exists>e' \<in> pm_bind K bs e. iprop_holds K p e' h)"
| "iprop_holds K (IpAll bs p) e h = (\<forall>e' \<in> pm_bind K bs e. iprop_holds K p e' h)"

section \<open>Pure propositions\<close>

lemma u_or_and: "u_or \<noteq> u_and"
  by (simp add: u_or_def u_and_def)

lemma those_Some: "those xs = Some ys \<longleftrightarrow> xs = map Some ys"
  by (induction xs arbitrary: ys) (auto split: option.splits)

lemma those_map_Some: "those (map f xs) = Some ys \<Longrightarrow> set ys = (the \<circ> f) ` set xs \<and> (\<forall>x \<in> set xs. f x = Some (the (f x)))"
  unfolding those_Some by (induction xs arbitrary: ys) auto

text \<open>Propositions that do not depend on the resource can share the empty one.\<close>

lemma sep_holds_pure:
  assumes "\<And>P h h'. P \<in> set Ps \<Longrightarrow> P h = P h'"
  shows "sep_holds Ps h \<longleftrightarrow> (\<forall>P \<in> set Ps. P {})"
  using assms
proof (induction Ps arbitrary: h)
  case (Cons P Ps)
  have "sep_holds (P # Ps) h \<longleftrightarrow> P {} \<and> (\<exists>h1 h2. h1 \<inter> h2 = {} \<and> h1 \<union> h2 \<subseteq> h \<and> sep_holds Ps h2)"
    using Cons.prems [of P _ "{}"] by auto
  also have "\<dots> \<longleftrightarrow> P {} \<and> (\<forall>Q \<in> set Ps. Q {})"
    using Cons by (metis (no_types, lifting) Int_empty_left Un_empty_left empty_subsetI list.set_intros(2))
  finally show ?case by simp
qed simp

lemma try_to_pure_holds: "try_to_pure p = Some t \<Longrightarrow> iprop_holds K p e h = term_holds K t e"
proof (induction p arbitrary: t e h rule: try_to_pure.induct)
  case (3 ps)
  then obtain ts where ts: "those (map try_to_pure ps) = Some ts" "t = TmInfix u_and ts" by auto
  note each = those_map_Some [OF ts(1)]
  have same: "iprop_holds K p e h = term_holds K (the (try_to_pure p)) e" if "p \<in> set ps" for p h
    using 3 that each by blast
  then have "iprop_holds K (IpSep ps) e h \<longleftrightarrow> (\<forall>p \<in> set ps. iprop_holds K p e {})"
    by (subst iprop_holds.simps, subst sep_holds_pure) auto
  also have "\<dots> \<longleftrightarrow> (\<forall>u \<in> set ts. term_holds K u e)" using same each by (simp add: comp_def)
  finally show ?case using ts(2) by auto
next
  case (4 ps)
  then obtain ts where ts: "those (map try_to_pure ps) = Some ts" "t = TmInfix u_and ts" by auto
  note each = those_map_Some [OF ts(1)]
  have "iprop_holds K p e h = term_holds K (the (try_to_pure p)) e" if "p \<in> set ps" for p
    using 4 that each by blast
  then have "iprop_holds K (IpConj ps) e h \<longleftrightarrow> (\<forall>u \<in> set ts. term_holds K u e)" using each by (simp add: comp_def)
  then show ?case using ts(2) by auto
next
  case (5 ps)
  then obtain ts where ts: "those (map try_to_pure ps) = Some ts" "t = TmInfix u_or ts" by auto
  note each = those_map_Some [OF ts(1)]
  have "iprop_holds K p e h = term_holds K (the (try_to_pure p)) e" if "p \<in> set ps" for p
    using 5 that each by blast
  then have "iprop_holds K (IpDisj ps) e h \<longleftrightarrow> ts = [] \<or> (\<exists>u \<in> set ts. term_holds K u e)"
    using each ts(1) by (auto simp: comp_def those_Some)
  then show ?case using ts(2) u_or_and by auto
qed auto

text \<open>
  C27. Purifying a proposition does not change what it says: the pure term it becomes, where it
  becomes one, holds exactly when the proposition holds of the resource, for separating and ordinary
  conjunctions, disjunctions and universal quantifiers at any depth.
\<close>

theorem purify_sound: "iprop_holds K (purify p) e h \<longleftrightarrow> iprop_holds K p e h"
  by (cases "try_to_pure p") (simp_all add: purify_def try_to_pure_holds)

end
