(* ===== verification/AttributeParsers.thy ===== *)
theory AttributeParsers
  imports Punctuated CoqSyntax
begin

text \<open>
  The parsers of attribute arguments in \<open>translation/src/spec_parsers/parse_utils.rs\<close>,
  \<open>spec_parsers/mod.rs\<close>, and the argument parsers of the enum, struct and loop specifications, on
  top of the token cursor. The interpretation of a literal (\<open>process_coq_literal\<close>, which goes
  through the \<open>regex\<close> crate) and the debug printing of a string are fields of the record \<open>parse_env\<close>.
\<close>

section \<open>Scopes\<close>

datatype rust_path_elem = AssocItem string
type_synonym rust_path = "rust_path_elem list"

text \<open>\<open>ParamLookup\<close>: types and lifetimes are opaque.\<close>

datatype projection = ProjDeref | ProjField string

type_synonym rust_place = "string \<times> projection list"

definition fmt_projections :: "projection list \<Rightarrow> string" where
  "fmt_projections ps = join_with ''_'' (map (\<lambda>p. case p of ProjDeref \<Rightarrow> ''deref'' | ProjField f \<Rightarrow> f) ps)"

record scope =
  lookup_ty_param :: "rust_path \<Rightarrow> nat option"
  lookup_lft :: "string \<Rightarrow> nat option"
  lookup_literal :: "rust_path \<Rightarrow> string option"
  lookup_place :: "rust_place \<Rightarrow> string option \<Rightarrow> string option"

record parse_env =
  pe_process :: "scope \<Rightarrow> string \<Rightarrow> string \<times> annot_meta"
  pe_debug :: "string \<Rightarrow> string"
  pe_scope :: scope

definition process_coq_literal :: "parse_env \<Rightarrow> string \<Rightarrow> string \<times> annot_meta" where
  "process_coq_literal M s = pe_process M (pe_scope M) s"

section \<open>Reading the cursor\<close>

text \<open>\<open>X::peek(stream)\<close>, and \<open>stream.pos().unwrap()\<close>, which panics at the end of the input.\<close>

definition parse_peek :: "punct \<Rightarrow> bool parser" where
  "parse_peek p = (\<lambda>b. (Ok (peek_punct p b), b))"

definition parse_pos :: "span parser" where
  "parse_pos = (\<lambda>b. (or_panic (pos b), b))"

definition other_err :: "string \<Rightarrow> 'a parser" where
  "other_err msg = parse_then parse_pos (\<lambda>p. parse_err (OtherErr p msg))"

text \<open>
  The two list parsers as parsers. The loops are partial functions; with parsers that consume
  tokens they return (\<open>parse_terminated_total\<close>, \<open>parse_separated_nonempty_total\<close>), and a loop that did
  not would show as a panic here.
\<close>

definition parse_list :: "'t parser \<Rightarrow> punct \<Rightarrow> 't list parser" where
  "parse_list p q = parse_map into_iter (\<lambda>b. case parse_terminated_with p (parse_punct q) b of Some r \<Rightarrow> r | None \<Rightarrow> (Panic, b))"

definition parse_list1 :: "'t parser \<Rightarrow> punct \<Rightarrow> 't list parser" where
  "parse_list1 p q = parse_map into_iter
     (\<lambda>b. case parse_separated_nonempty_with p (peek_punct q) (parse_punct q) b of Some r \<Rightarrow> r | None \<Rightarrow> (Panic, b))"

section \<open>parse\_utils.rs\<close>

datatype ident_or_term = IsIdent string | IsTerm string

fun ident_or_term_process :: "parse_env \<Rightarrow> ident_or_term \<Rightarrow> ident_or_term" where
  "ident_or_term_process M (IsIdent i) = IsIdent i"
| "ident_or_term_process M (IsTerm t) = IsTerm (fst (process_coq_literal M t))"

fun ident_or_term_text :: "ident_or_term \<Rightarrow> string" where
  "ident_or_term_text (IsIdent s) = s"
| "ident_or_term_text (IsTerm s) = s"

text \<open>The first alternative may fail; the second one then starts where the first one stopped.\<close>

definition parse_or :: "'a parser \<Rightarrow> 'a parser \<Rightarrow> 'a parser" where
  "parse_or p q = (\<lambda>b. case p b of (Err _, b1) \<Rightarrow> q b1 | r \<Rightarrow> r)"

definition parse_ident_or_term :: "ident_or_term parser" where
  "parse_ident_or_term =
     parse_or (parse_map (\<lambda>i. IsIdent (ident_value i)) parse_ident)
              (parse_map (\<lambda>s. IsTerm (lit_str_value s)) parse_lit_str)"

text \<open>A string literal, interpreted.\<close>

definition parse_literal :: "parse_env \<Rightarrow> (string \<times> annot_meta) parser" where
  "parse_literal M = parse_map (\<lambda>s. process_coq_literal M (lit_str_value s)) parse_lit_str"

record literal_type_with_ref =
  lt_rfn :: ident_or_term
  lt_ty :: "string option"
  lt_raw :: bool

definition parse_raw_flag :: "bool parser" where
  "parse_raw_flag =
     (\<lambda>b. let loc = pos b in
       parse_then (parse_peek PPound) (\<lambda>pound.
         if pound then
           parse_then (parse_punct PPound) (\<lambda>_.
           parse_then parse_ident (\<lambda>macro_cmd.
             if ident_value macro_cmd = ''raw'' then parse_ok True
             else (\<lambda>b'. case loc of Some p \<Rightarrow> (Err (OtherErr p ''Unsupported flag''), b') | None \<Rightarrow> (Panic, b'))))
         else parse_ok False) b)"

definition parse_literal_type_with_ref :: "parse_env \<Rightarrow> literal_type_with_ref parser" where
  "parse_literal_type_with_ref M =
     parse_then parse_raw_flag (\<lambda>raw.
     parse_then parse_ident_or_term (\<lambda>rfn.
     let rfn = ident_or_term_process M rfn in
     parse_then (parse_peek PAt) (\<lambda>at.
       if at then
         parse_then (parse_punct PAt) (\<lambda>_.
         parse_then (parse_literal M) (\<lambda>(ty, _).
         parse_ok \<lparr>lt_rfn = rfn, lt_ty = Some ty, lt_raw = raw\<rparr>))
       else parse_ok \<lparr>lt_rfn = rfn, lt_ty = None, lt_raw = raw\<rparr>)))"

definition parse_literal_type :: "parse_env \<Rightarrow> string parser" where
  "parse_literal_type M = parse_map fst (parse_literal M)"

text \<open>An Iris proposition is an atom with the interpreted text.\<close>

definition parse_iprop :: "parse_env \<Rightarrow> iprop parser" where
  "parse_iprop M = parse_map (\<lambda>(lit, _). IpAtom lit) (parse_literal M)"

definition parse_coq_type :: "parse_env \<Rightarrow> coq_type parser" where
  "parse_coq_type M = parse_map (\<lambda>(ty, _). TLiteral ty) (parse_literal M)"

definition parse_term :: "parse_env \<Rightarrow> string parser" where
  "parse_term M = parse_map fst (parse_literal M)"

definition parse_terms :: "parse_env \<Rightarrow> string list parser" where
  "parse_terms M = parse_list (parse_term M) PComma"

text \<open>\<open>RRParam\<close> and \<open>RRParamNamed\<close>: a name with an optional type.\<close>

definition parse_typed_name :: "parse_env \<Rightarrow> (string \<Rightarrow> coq_type \<Rightarrow> coq_binder) \<Rightarrow> coq_binder parser" where
  "parse_typed_name M mk =
     parse_then parse_ident_or_term (\<lambda>n.
     let name = ident_or_term_text n in
     parse_then (parse_peek PColon) (\<lambda>colon.
       if colon then
         parse_then (parse_punct PColon) (\<lambda>_.
         parse_then (parse_coq_type M) (\<lambda>ty. parse_ok (mk name ty)))
       else parse_ok (mk name TInfer)))"

definition parse_param :: "parse_env \<Rightarrow> coq_binder parser" where
  "parse_param M = parse_typed_name M (\<lambda>name ty. binder_new (Some name) ty)"

definition parse_params :: "parse_env \<Rightarrow> coq_binder list parser" where
  "parse_params M = parse_list (parse_param M) PComma"

definition parse_param_named :: "parse_env \<Rightarrow> coq_binder parser" where
  "parse_param_named M = parse_typed_name M new_with_name_hint"

definition parse_params_named :: "parse_env \<Rightarrow> coq_binder list parser" where
  "parse_params_named M = parse_list (parse_param_named M) PComma"

definition parse_export_module :: "from_require parser" where
  "parse_export_module =
     parse_then parse_lit_str (\<lambda>path_or_module.
     parse_then (parse_peek PComma) (\<lambda>comma.
       if comma then
         parse_then (parse_punct PComma) (\<lambda>_.
         parse_then parse_lit_str (\<lambda>module.
         parse_ok (export_from [lit_str_value path_or_module] (export_new [lit_str_value module]))))
       else parse_ok (export_new [lit_str_value path_or_module])))"

record context_item =
  ci_item :: string
  ci_at_end :: bool

definition parse_context_item :: "parse_env \<Rightarrow> context_item parser" where
  "parse_context_item M =
     parse_map (\<lambda>(item, annot_meta). \<lparr>ci_item = item, ci_at_end = \<not> meta_is_empty annot_meta\<rparr>) (parse_literal M)"

definition context_item_binder :: "context_item \<Rightarrow> coq_binder" where
  "context_item_binder x = new_generalized MaxImplicit None (TLiteral (ci_item x))"

section \<open>mod.rs\<close>

definition parse_rust_path :: "string list parser" where
  "parse_rust_path = parse_map (map ident_value) (parse_list1 parse_ident PColon2)"

record export_as =
  ea_path :: "string list"
  ea_as_method :: bool

definition parse_export_as :: "parse_env \<Rightarrow> export_as parser" where
  "parse_export_as M =
     parse_then (parse_peek PPound) (\<lambda>pound.
     parse_then
       (if pound then
          parse_then (parse_punct PPound) (\<lambda>_.
          parse_then parse_ident (\<lambda>macro_cmd.
            if ident_value macro_cmd = ''method'' then parse_ok True
            else other_err (''invalid macro command: '' @ pe_debug M (ident_value macro_cmd))))
        else parse_ok False) (\<lambda>as_method.
     parse_map (\<lambda>path. \<lparr>ea_path = path, ea_as_method = as_method\<rparr>) parse_rust_path))"

definition parse_depends_on :: "string list list parser" where
  "parse_depends_on = parse_list1 parse_rust_path PComma"

record shim_annot =
  sh_code_name :: string
  sh_spec_name :: string
  sh_trait_req_incl_name :: string

definition parse_shim :: "shim_annot parser" where
  "parse_shim =
     parse_then parse_pos (\<lambda>p.
     parse_then (parse_list parse_lit_str PComma) (\<lambda>args.
       if length args \<noteq> 3 then parse_err (OtherErr p ''Expected exactly three arguments to rr::shim'')
       else parse_ok \<lparr>sh_code_name = lit_str_value (args ! 0), sh_spec_name = lit_str_value (args ! 1),
                     sh_trait_req_incl_name = lit_str_value (args ! 2)\<rparr>))"

definition parse_code_shim :: "string parser" where
  "parse_code_shim =
     parse_then parse_pos (\<lambda>p.
     parse_then (parse_list parse_lit_str PComma) (\<lambda>args.
       if length args \<noteq> 1 then parse_err (OtherErr p ''Expected exactly one argument to rr::code_shim'')
       else parse_ok (lit_str_value (args ! 0))))"

section \<open>Arguments of enum, struct and loop specifications\<close>

record enum_pattern =
  ep_pat :: string
  ep_args :: "string list"

definition parse_enum_pattern :: "parse_env \<Rightarrow> enum_pattern parser" where
  "parse_enum_pattern M =
     parse_then (parse_literal M) (\<lambda>(pat, _).
     parse_then (parse_peek PDollar) (\<lambda>dollar.
     parse_then
       (if dollar then
          parse_then (parse_punct PDollar) (\<lambda>_.
          parse_map (map (\<lambda>s. fst (process_coq_literal M (lit_str_value s)))) (parse_list parse_lit_str PComma))
        else parse_ok []) (\<lambda>args.
     parse_ok \<lparr>ep_pat = pat, ep_args = args\<rparr>)))"

text \<open>\<open>RfnPattern\<close> of \<open>struct_spec_parser.rs\<close>.\<close>

definition parse_rfn_pattern :: "parse_env \<Rightarrow> (string \<times> coq_type option) parser" where
  "parse_rfn_pattern M =
     parse_then (parse_literal M) (\<lambda>(pat, _).
     parse_then (parse_peek PColon) (\<lambda>colon.
       if colon then
         parse_then (parse_punct PColon) (\<lambda>_.
         parse_map (\<lambda>(rt, _). (pat, Some (TLiteral rt))) (parse_literal M))
       else parse_ok (pat, None)))"

datatype inv_flags = Persistent | Plain | NonAtomic | Atomic

definition parse_inv_flags :: "inv_flags parser" where
  "parse_inv_flags =
     parse_then parse_ident (\<lambda>mode.
       let m = ident_value mode in
       if m = ''persistent'' then parse_ok Persistent
       else if m = ''plain'' then parse_ok Plain
       else if m = ''na'' then parse_ok NonAtomic
       else if m = ''atomic'' then parse_ok Atomic
       else other_err ''invalid ADT mode'')"

text \<open>
  The clauses of a specification: the three enumerations \<open>MetaIProp\<close> of \<open>struct_spec_parser.rs\<close>,
  \<open>loop_attr_parser.rs\<close> and \<open>verbose_function_spec_parser.rs\<close> in one. Structs have \<open>own\<close> and \<open>shr\<close>,
  functions have \<open>observe\<close>, \<open>linktime\<close> and \<open>trait\<close>; the ownership of a type is guarded by a later in
  structs only.
\<close>

record ty_own_spec =
  to_loc :: string
  to_rfn :: string
  to_ty :: string
  to_with_later :: bool
  to_meta :: annot_meta

datatype meta_iprop =
    Pure string "string option"
  | Iris iprop
  | TypeClause ty_own_spec
  | Own iprop
  | Shared iprop
  | Observe string "string option" string
  | Linktime string
  | TraitAttr string string string

definition fmt_ty_own :: "string \<Rightarrow> string \<Rightarrow> ty_own_spec \<Rightarrow> string" where
  "fmt_ty_own tid mode s =
     to_loc s @ '' '' @ u_own @ u_sub_l @ ''['' @ tid @ '', '' @ mode @ ''] #('' @ to_rfn s @ '') @ ('' @ u_own @ '' '' @ to_ty s @ '')''"

definition fmt_owned :: "string \<Rightarrow> ty_own_spec \<Rightarrow> string" where
  "fmt_owned tid s =
     (if to_with_later s then ''guarded true ('' @ fmt_ty_own tid ''Owned'' s @ '')''
      else fmt_ty_own tid ''Owned'' s)"

definition fmt_shared :: "string \<Rightarrow> string \<Rightarrow> ty_own_spec \<Rightarrow> string" where
  "fmt_shared tid lft s =
     (if to_with_later s then ''guarded false ('' @ fmt_ty_own tid (''Shared '' @ lft) s @ '')''
      else fmt_ty_own tid (''Shared '' @ lft) s)"

text \<open>\<open>From<MetaIProp> for IProp\<close> of loops and functions; \<open>own\<close> and \<open>shr\<close> do not occur there.\<close>

fun iprop_of_meta :: "meta_iprop \<Rightarrow> iprop option" where
  "iprop_of_meta (Pure p None) = Some (IpPure (TmLiteral p))"
| "iprop_of_meta (Pure p (Some n)) = Some (IpPure (TmWithName (TmLiteral p) n))"
| "iprop_of_meta (Iris p) = Some p"
| "iprop_of_meta (TypeClause s) = Some (IpAtom (fmt_owned u_pi s))"
| "iprop_of_meta (Observe name (Some ty_hint) t) =
     Some (IpAtom (''gvar_pobs '' @ name @ '' ($#@'' @ ''{'' @ ty_hint @ ''} '' @ t @ '')''))"
| "iprop_of_meta (Observe name None t) = Some (IpAtom (''gvar_pobs '' @ name @ '' ('' @ t @ '')''))"
| "iprop_of_meta (Linktime _) = Some IpTrue"
| "iprop_of_meta (TraitAttr _ _ _) = Some IpTrue"
| "iprop_of_meta (Own _) = None"
| "iprop_of_meta (Shared _) = None"

definition parse_ty_own :: "parse_env \<Rightarrow> bool \<Rightarrow> meta_iprop parser" where
  "parse_ty_own M with_later =
     parse_then (parse_literal M) (\<lambda>(loc_str, meta1).
     parse_then (parse_punct PColon) (\<lambda>_.
     parse_then (parse_literal M) (\<lambda>(rfn_str, meta2).
     parse_then (parse_punct PAt) (\<lambda>_.
     parse_then (parse_literal M) (\<lambda>(type_str, meta3).
     parse_ok (TypeClause \<lparr>to_loc = loc_str, to_rfn = rfn_str, to_ty = type_str, to_with_later = with_later,
                 to_meta = meta_join (meta_join meta1 meta2) meta3\<rparr>))))))"

definition parse_pure :: "parse_env \<Rightarrow> meta_iprop parser" where
  "parse_pure M =
     parse_then parse_lit_str (\<lambda>name_or_prop_str.
     parse_then (parse_peek PColon) (\<lambda>colon.
       if colon then
         parse_then (parse_punct PColon) (\<lambda>_.
         parse_map (\<lambda>(pure_str, _). Pure pure_str (Some (lit_str_value name_or_prop_str))) (parse_literal M))
       else parse_ok (Pure (fst (process_coq_literal M (lit_str_value name_or_prop_str))) None)))"

definition parse_struct_iprop :: "parse_env \<Rightarrow> meta_iprop parser" where
  "parse_struct_iprop M =
     parse_then (parse_peek PPound) (\<lambda>pound.
       if pound then
         parse_then (parse_punct PPound) (\<lambda>_.
         parse_then parse_ident (\<lambda>macro_cmd.
           let m = ident_value macro_cmd in
           if m = ''iris'' then parse_map Iris (parse_iprop M)
           else if m = ''own'' then parse_map Own (parse_iprop M)
           else if m = ''shr'' then parse_map Shared (parse_iprop M)
           else if m = ''type'' then parse_ty_own M True
           else other_err (''invalid macro command: '' @ pe_debug M m)))
       else parse_pure M)"

definition parse_loop_iprop :: "parse_env \<Rightarrow> meta_iprop parser" where
  "parse_loop_iprop M =
     parse_then (parse_peek PPound) (\<lambda>pound.
       if pound then
         parse_then (parse_punct PPound) (\<lambda>_.
         parse_then parse_ident (\<lambda>macro_cmd.
           let m = ident_value macro_cmd in
           if m = ''type'' then parse_ty_own M False
           else if m = ''iris'' then parse_map Iris (parse_iprop M)
           else other_err (''invalid macro command: '' @ pe_debug M m)))
       else parse_pure M)"

definition parse_fn_iprop :: "parse_env \<Rightarrow> meta_iprop parser" where
  "parse_fn_iprop M =
     parse_then (parse_peek PPound) (\<lambda>pound.
       if pound then
         parse_then (parse_punct PPound) (\<lambda>_.
         parse_then parse_ident (\<lambda>macro_cmd.
           let m = ident_value macro_cmd in
           if m = ''type'' then parse_ty_own M False
           else if m = ''iris'' then parse_map Iris (parse_iprop M)
           else if m = ''observe'' then
             parse_then parse_lit_str (\<lambda>gname.
             parse_then (parse_punct PColon) (\<lambda>_.
             parse_map (\<lambda>(t, _). Observe (lit_str_value gname) None t) (parse_literal M)))
           else if m = ''linktime'' then parse_map (\<lambda>(t, _). Linktime t) (parse_literal M)
           else if m = ''trait'' then
             parse_then parse_ident (\<lambda>type_param.
             parse_then (parse_punct PColon2) (\<lambda>_.
             parse_then parse_ident (\<lambda>attr.
             parse_then (parse_punct PColon) (\<lambda>_.
             parse_then (parse_punct PEq) (\<lambda>_.
             parse_map (\<lambda>(t, _). TraitAttr (ident_value type_param) (ident_value attr) t) (parse_literal M))))))
           else other_err (''invalid macro command: '' @ pe_debug M m)))
       else parse_pure M)"

definition parse_args :: "parse_env \<Rightarrow> literal_type_with_ref list parser" where
  "parse_args M = parse_list (parse_literal_type_with_ref M) PComma"

record inv_var =
  iv_local :: string
  iv_rfn :: "string option"

definition parse_inv_var :: "parse_env \<Rightarrow> inv_var parser" where
  "parse_inv_var M =
     parse_then parse_lit_str (\<lambda>local_str.
     parse_then (parse_peek PColon) (\<lambda>colon.
       if colon then
         parse_then (parse_punct PColon) (\<lambda>_.
         parse_map (\<lambda>(rfn, _). \<lparr>iv_local = lit_str_value local_str, iv_rfn = Some rfn\<rparr>) (parse_literal M))
       else parse_ok \<lparr>iv_local = lit_str_value local_str, iv_rfn = None\<rparr>))"

section \<open>Parsers that never panic\<close>

text \<open>
  \<open>parser_intros\<close> proves that a composed parser is steady or consuming. A parser that fails at the
  end of the input without moving can be repeated in a non-empty list.
\<close>

named_theorems parser_intros "introduction rules for steady and consuming parsers"

declare steady_ok [parser_intros] steady_err [parser_intros]

lemma consuming_steady: "consuming_parser p \<Longrightarrow> steady_parser p"
  by (simp add: consuming_parser_def)

lemma steady_then' [parser_intros]:
  "\<lbrakk>steady_parser p; \<And>x. steady_parser (f x)\<rbrakk> \<Longrightarrow> steady_parser (parse_then p f)"
  by (rule steady_then)

lemma steady_map [parser_intros]: "steady_parser p \<Longrightarrow> steady_parser (parse_map f p)"
  unfolding parse_map_def by (intro steady_then steady_ok)

lemma consuming_map: "consuming_parser p \<Longrightarrow> consuming_parser (parse_map f p)"
  unfolding parse_map_def by (intro consuming_then steady_ok)

lemma steady_if [parser_intros]: "\<lbrakk>steady_parser p; steady_parser q\<rbrakk> \<Longrightarrow> steady_parser (if c then p else q)"
  by simp

lemma steady_pair [parser_intros]: "(\<And>x y. steady_parser (f x y)) \<Longrightarrow> steady_parser (case z of (x, y) \<Rightarrow> f x y)"
  by (simp split: prod.split)

lemma steady_let [parser_intros]: "(\<And>x. steady_parser (f x)) \<Longrightarrow> steady_parser (let x = e in f x)"
  by simp

lemma steady_peek [parser_intros]: "steady_parser (parse_peek p)"
  by unfold_locales (simp_all add: parse_peek_def)

lemma steady_punct [parser_intros]: "steady_parser (parse_punct p)"
  by (rule parse_punct.steady_parser_axioms)

lemma steady_ident [parser_intros]: "steady_parser parse_ident"
  by (rule parse_ident.steady_parser_axioms)

lemma steady_lit_str [parser_intros]: "steady_parser parse_lit_str"
  by (rule parse_lit_str.steady_parser_axioms)

lemma parse_or_cases:
  obtains (fst) "parse_or p q b = p b" "\<And>e. fst (p b) \<noteq> Err e"
  | (snd) e b1 where "p b = (Err e, b1)" "parse_or p q b = q b1"
  by (cases "p b"; cases "fst (p b)") (auto simp: parse_or_def)

lemma consuming_or:
  assumes p: "consuming_parser p" and q: "consuming_parser q"
  shows "consuming_parser (parse_or p q)"
proof -
  note sp = consuming_steady [OF p] and sq = consuming_steady [OF q]
  have both: "fst (parse_or p q b) \<noteq> Panic \<and> trees (snd (parse_or p q b)) = trees b
    \<and> index b \<le> index (snd (parse_or p q b))
    \<and> (index b \<le> length (trees b) \<longrightarrow> index (snd (parse_or p q b)) \<le> length (trees b))
    \<and> (\<forall>x. fst (parse_or p q b) = Ok x \<longrightarrow> index b < index (snd (parse_or p q b)))" for b
  proof (cases rule: parse_or_cases [of p q b])
    case fst
    then show ?thesis
      using steady_parser.no_panic [OF sp, of b] steady_parser.same_trees [OF sp, of b] consuming_parser.consumes [OF p, of b]
        steady_parser.no_step_back [OF sp, of b] steady_parser.in_bounds [OF sp, of b] by simp
  next
    case (snd e b1)
    then have "trees b1 = trees b" "index b \<le> index b1" "index b \<le> length (trees b) \<longrightarrow> index b1 \<le> length (trees b)"
      using steady_parser.same_trees [OF sp, of b] steady_parser.no_step_back [OF sp, of b]
        steady_parser.in_bounds [OF sp, of b] by auto
    then show ?thesis
      using snd(2) steady_parser.no_panic [OF sq, of b1] steady_parser.same_trees [OF sq, of b1]
        consuming_parser.consumes [OF q, of b1] steady_parser.no_step_back [OF sq, of b1]
        steady_parser.in_bounds [OF sq, of b1] by fastforce
  qed
  show ?thesis by unfold_locales (use both in blast)+
qed

lemma consuming_ident_or_term: "consuming_parser parse_ident_or_term"
  unfolding parse_ident_or_term_def
  by (intro consuming_or consuming_map parse_ident.consuming_parser_axioms parse_lit_str.consuming_parser_axioms)

lemma consuming_literal: "consuming_parser (parse_literal M)"
  unfolding parse_literal_def by (intro consuming_map parse_lit_str.consuming_parser_axioms)

lemmas [parser_intros] = consuming_steady [OF consuming_ident_or_term] consuming_steady [OF consuming_literal]

lemma consuming_term: "consuming_parser (parse_term M)"
  unfolding parse_term_def by (intro consuming_map consuming_literal)

lemma consuming_coq_type: "consuming_parser (parse_coq_type M)"
  unfolding parse_coq_type_def by (intro consuming_map consuming_literal)

lemma consuming_iprop: "consuming_parser (parse_iprop M)"
  unfolding parse_iprop_def by (intro consuming_map consuming_literal)

lemmas [parser_intros] = consuming_steady [OF consuming_coq_type] consuming_steady [OF consuming_iprop]

lemma consuming_typed_name: "consuming_parser (parse_typed_name M mk)"
  unfolding parse_typed_name_def Let_def
  by (intro consuming_then consuming_ident_or_term parser_intros)

text \<open>A list of values that consume tokens.\<close>

lemma steady_list [parser_intros]:
  assumes "consuming_parser p"
  shows "steady_parser (parse_list p q)"
  unfolding parse_list_def
proof (rule steady_map, unfold_locales)
  fix b
  let ?run = "case parse_terminated_with p (parse_punct q) b of Some r \<Rightarrow> r | None \<Rightarrow> (Panic, b)"
  have "list_parser p (parse_punct q)" using assms parse_punct.consuming_parser_axioms by (rule list_parser.intro)
  note total = list_parser.terminated_loop_total [OF this, of punctuated_new b]
  have "fst ?run \<noteq> Panic \<and> trees (snd ?run) = trees b \<and> index b \<le> index (snd ?run)
    \<and> (index b \<le> length (trees b) \<longrightarrow> index (snd ?run) \<le> length (trees b))"
  proof (cases "index b \<le> length (trees b)")
    case True
    with total show ?thesis by (auto simp: parse_terminated_with_def punctuated_new_def)
  next
    case False
    then have "parse_terminated_with p (parse_punct q) b = Some (Ok punctuated_new, b)"
      unfolding parse_terminated_with_def by (subst parse_terminated_loop.simps) (simp add: buffer_is_empty_def)
    with False show ?thesis by simp
  qed
  then show "fst ?run \<noteq> Panic" "trees (snd ?run) = trees b" "index b \<le> index (snd ?run)"
    "index b \<le> length (trees b) \<Longrightarrow> index (snd ?run) \<le> length (trees b)" by blast+
qed

locale eager_parser = consuming_parser +
  assumes at_end: "length (trees b) \<le> index b \<Longrightarrow> \<exists>e. p b = (Err e, b)"

lemma eager_list1:
  assumes "eager_parser p"
  shows "eager_parser (parse_list1 p q)"
proof -
  have cp: "consuming_parser p" using assms by (simp add: eager_parser_def)
  let ?run = "\<lambda>b. case parse_separated_nonempty_with p (peek_punct q) (parse_punct q) b of Some r \<Rightarrow> r | None \<Rightarrow> (Panic, b)"
  have "list_parser p (parse_punct q)" using cp parse_punct.consuming_parser_axioms by (rule list_parser.intro)
  note total = separated_parser.separated_loop_total [OF separated_parser.intro [OF this], of punctuated_new]
  have at_end: "\<exists>e. ?run b = (Err e, b)" if bd: "length (trees b) \<le> index b" for b
  proof -
    obtain e where "p b = (Err e, b)" using eager_parser.at_end [OF assms bd] by blast
    then have "parse_separated_nonempty_with p (peek_punct q) (parse_punct q) b = Some (Err e, b)"
      unfolding parse_separated_nonempty_with_def by (subst parse_separated_loop.simps) simp
    then show ?thesis by simp
  qed
  have run: "fst (?run b) \<noteq> Panic \<and> trees (snd (?run b)) = trees b \<and> index b \<le> index (snd (?run b))
    \<and> (index b \<le> length (trees b) \<longrightarrow> index (snd (?run b)) \<le> length (trees b))
    \<and> (\<forall>x. fst (?run b) = Ok x \<longrightarrow> index b < index (snd (?run b)))" for b
  proof (cases "index b \<le> length (trees b)")
    case True
    with total [of b "peek_punct q"] show ?thesis by (auto simp: parse_separated_nonempty_with_def punctuated_new_def)
  next
    case False
    with at_end [of b] show ?thesis by auto
  qed
  have "consuming_parser ?run" by unfold_locales (use run in blast)+
  then have "consuming_parser (parse_list1 p q)" unfolding parse_list1_def by (rule consuming_map)
  then show ?thesis
  proof (rule eager_parser.intro, unfold_locales)
    fix b :: buffer assume "length (trees b) \<le> index b"
    from at_end [OF this] show "\<exists>e. parse_list1 p q b = (Err e, b)"
      by (auto simp: parse_list1_def parse_map_def parse_then_def)
  qed
qed

interpretation eager_ident: eager_parser parse_ident
  by unfold_locales (simp add: parse_ident_def parse_then_def expect_ident_def peek_def)

interpretation rust_path: eager_parser parse_rust_path
proof -
  have e: "eager_parser (parse_list1 parse_ident PColon2)" by (rule eager_list1, rule eager_ident.eager_parser_axioms)
  then have "consuming_parser parse_rust_path"
    unfolding parse_rust_path_def by (intro consuming_map) (simp add: eager_parser_def)
  then show "eager_parser parse_rust_path"
  proof (rule eager_parser.intro, unfold_locales)
    fix b :: buffer assume "length (trees b) \<le> index b"
    from eager_parser.at_end [OF e this] show "\<exists>e. parse_rust_path b = (Err e, b)"
      by (auto simp: parse_rust_path_def parse_map_def parse_then_def)
  qed
qed

interpretation depends_on: eager_parser parse_depends_on
  unfolding parse_depends_on_def by (rule eager_list1, rule rust_path.eager_parser_axioms)

section \<open>Parsers that never panic\<close>

text \<open>A parser that behaves like a steady one at each buffer is steady.\<close>

lemma steady_local:
  assumes "\<And>b. \<exists>g. steady_parser g \<and> p b = g b"
  shows "steady_parser p"
proof unfold_locales
  fix b
  obtain g where g: "steady_parser g" "p b = g b" using assms by blast
  show "fst (p b) \<noteq> Panic" "trees (snd (p b)) = trees b" "index b \<le> index (snd (p b))"
    "index b \<le> length (trees b) \<Longrightarrow> index (snd (p b)) \<le> length (trees b)"
    using g steady_parser.no_panic [OF g(1)] steady_parser.same_trees [OF g(1)]
      steady_parser.no_step_back [OF g(1)] steady_parser.in_bounds [OF g(1)] by auto
qed

lemma peek_punct_pos: "peek_punct p b \<Longrightarrow> \<exists>s. pos b = Some s"
  by (auto simp: peek_punct_def peek_token_def peek_def pos_def split: if_splits outcome.splits)

lemma peek_then: "parse_then (parse_peek p) f b = f (peek_punct p b) b"
  by (simp add: parse_peek_def parse_then_def)

lemma steady_raw_flag [parser_intros]: "steady_parser parse_raw_flag"
proof (rule steady_local)
  fix b
  show "\<exists>g. steady_parser g \<and> parse_raw_flag b = g b"
  proof (cases "peek_punct PPound b")
    case True
    then obtain s where s: "pos b = Some s" using peek_punct_pos by blast
    let ?g = "parse_then (parse_punct PPound) (\<lambda>_. parse_then parse_ident (\<lambda>macro_cmd.
      if ident_value macro_cmd = ''raw'' then parse_ok True else parse_err (OtherErr s ''Unsupported flag'')))"
    have "steady_parser ?g" by (intro parser_intros)
    moreover have "parse_raw_flag b = ?g b"
      by (simp add: parse_raw_flag_def peek_then s True parse_err_def cong: if_cong)
    ultimately show ?thesis by (intro exI [of _ ?g] conjI)
  next
    case False
    then have "parse_raw_flag b = parse_ok False b"
      by (simp add: parse_raw_flag_def peek_then)
    then show ?thesis by (intro exI [of _ "parse_ok False"] conjI steady_ok)
  qed
qed

lemma consuming_then_steady: "\<lbrakk>steady_parser p; \<And>x. consuming_parser (f x)\<rbrakk> \<Longrightarrow> consuming_parser (parse_then p f)"
proof (unfold_locales)
  fix b
  assume p: "steady_parser p" and f: "\<And>x. consuming_parser (f x)"
  have st: "steady_parser (parse_then p f)" by (intro steady_then p consuming_steady f)
  show "fst (parse_then p f b) \<noteq> Panic" "trees (snd (parse_then p f b)) = trees b"
    "index b \<le> index (snd (parse_then p f b))"
    "index b \<le> length (trees b) \<Longrightarrow> index (snd (parse_then p f b)) \<le> length (trees b)"
    using steady_parser.no_panic [OF st] steady_parser.same_trees [OF st]
      steady_parser.no_step_back [OF st] steady_parser.in_bounds [OF st] by auto
  show "index b < index (snd (parse_then p f b))" if ok: "fst (parse_then p f b) = Ok x" for x
  proof (cases "p b")
    case (Pair r b1)
    with ok obtain y where "r = Ok y" "fst (f y b1) = Ok x" by (cases r) (auto simp: parse_then_def)
    with Pair show ?thesis
      using steady_parser.no_step_back [OF p, of b] consuming_parser.consumes [OF f, of y b1 x]
      by (simp add: parse_then_def)
  qed
qed

lemma consuming_if: "\<lbrakk>consuming_parser p; consuming_parser q\<rbrakk> \<Longrightarrow> consuming_parser (if c then p else q)"
  by simp

lemma consuming_arg: "consuming_parser (parse_literal_type_with_ref M)"
  unfolding parse_literal_type_with_ref_def Let_def
  by (intro consuming_then_steady consuming_then consuming_ident_or_term parser_intros)

lemma consuming_inv_var: "consuming_parser (parse_inv_var M)"
  unfolding parse_inv_var_def by (intro consuming_then parse_lit_str.consuming_parser_axioms parser_intros)

lemma steady_params [parser_intros]: "steady_parser (parse_params M)" "steady_parser (parse_params_named M)"
  "steady_parser (parse_terms M)" "steady_parser (parse_args M)" "steady_parser (parse_list (parse_inv_var M) q)"
  unfolding parse_params_def parse_params_named_def parse_terms_def parse_args_def parse_param_def parse_param_named_def
  by (intro steady_list consuming_typed_name consuming_term consuming_arg consuming_inv_var)+

lemma steady_export_module [parser_intros]: "steady_parser parse_export_module"
  unfolding parse_export_module_def by (intro parser_intros)

lemma steady_context_item [parser_intros]: "steady_parser (parse_context_item M)"
  unfolding parse_context_item_def by (intro parser_intros)

lemma steady_rfn_pattern [parser_intros]: "steady_parser (parse_rfn_pattern M)"
  unfolding parse_rfn_pattern_def by (intro parser_intros)

lemma steady_lit_list [parser_intros]: "steady_parser (parse_list parse_lit_str q)"
  by (intro steady_list parse_lit_str.consuming_parser_axioms)

lemma steady_enum_pattern [parser_intros]: "steady_parser (parse_enum_pattern M)"
  unfolding parse_enum_pattern_def by (intro parser_intros)

lemma steady_pure [parser_intros]: "steady_parser (parse_pure M)"
  unfolding parse_pure_def by (intro parser_intros)

lemma steady_ty_own [parser_intros]: "steady_parser (parse_ty_own M later)"
  unfolding parse_ty_own_def by (intro parser_intros)

lemma steady_path [parser_intros]: "steady_parser parse_rust_path" "steady_parser parse_depends_on"
  using rust_path.steady_parser_axioms depends_on.steady_parser_axioms by auto

text \<open>What steadiness gives at a cursor within the tokens.\<close>

definition stays_in_bounds :: "'a parser \<Rightarrow> buffer \<Rightarrow> bool" where
  "stays_in_bounds p b \<longleftrightarrow>
     fst (p b) \<noteq> Panic \<and> trees (snd (p b)) = trees b
   \<and> index b \<le> index (snd (p b)) \<and> index (snd (p b)) \<le> length (trees b)"

lemma stays_in_bounds_steady: "\<lbrakk>steady_parser p; index b \<le> length (trees b)\<rbrakk> \<Longrightarrow> stays_in_bounds p b"
  by (simp add: stays_in_bounds_def steady_parser.no_panic steady_parser.same_trees
    steady_parser.no_step_back steady_parser.in_bounds)

definition plain_env :: parse_env where
  "plain_env =
     \<lparr>pe_process = (\<lambda>_ s. (s, meta_empty)), pe_debug = (\<lambda>s. s),
      pe_scope = \<lparr>lookup_ty_param = (\<lambda>_. None), lookup_lft = (\<lambda>_. None), lookup_literal = (\<lambda>_. None),
                  lookup_place = (\<lambda>_ _. None)\<rparr>\<rparr>"

text \<open>
  C24. The parsers of arguments, parameters, terms, patterns, context items, paths, dependencies and
  variables return on every input, with a value or an error and never a panic: the repeated ones loop
  finitely often, and the cursor stays within the tokens.
\<close>

theorem argument_parsers_total:
  assumes "index b \<le> length (trees b)"
  shows "stays_in_bounds (parse_args M) b \<and> stays_in_bounds (parse_params M) b
    \<and> stays_in_bounds (parse_params_named M) b \<and> stays_in_bounds (parse_terms M) b
    \<and> stays_in_bounds (parse_context_item M) b \<and> stays_in_bounds parse_export_module b
    \<and> stays_in_bounds (parse_rfn_pattern M) b \<and> stays_in_bounds (parse_enum_pattern M) b
    \<and> stays_in_bounds (parse_pure M) b \<and> stays_in_bounds (parse_ty_own M later) b
    \<and> stays_in_bounds parse_depends_on b \<and> stays_in_bounds (parse_list (parse_inv_var M) PComma) b"
  by (intro conjI stays_in_bounds_steady parser_intros assms)

theorem argument_parsers_total_witness:
  "stays_in_bounds (parse_params plain_env) \<lparr>trees = [lit_tree ''x'', punct_tree PColon, lit_tree ''Z'', punct_tree PComma], index = 1\<rparr>"
  using argument_parsers_total [of "\<lparr>trees = [lit_tree ''x'', punct_tree PColon, lit_tree ''Z'', punct_tree PComma], index = 1\<rparr>" plain_env True]
  by simp

section \<open>Parsers that may panic\<close>

text \<open>
  An error message asks for the position of the next token and panics where there is none: after a
  flag or a macro name that is unknown and the last token, and at an empty argument list.
\<close>

lemma other_err_Panic: "fst (other_err msg b) = Panic \<longleftrightarrow> length (trees b) \<le> index b"
  by (auto simp: other_err_def parse_pos_def parse_then_def parse_err_def pos_def)

lemma parse_ident_Ok:
  "parse_ident b = (Ok i, b') \<longleftrightarrow>
     index b < length (trees b) \<and> b' = advance 1 b
   \<and> (\<exists>t sp r. trees b ! index b = Token t sp \<and> tok_kind t = TkIdent (ident_value i) r)"
  by (cases i)
     (auto simp: parse_ident_def expect_ident_def parse_then_def parse_ok_def peek_def ident_value_def
       split: token_tree.splits token_kind.splits)

lemma then_Panic:
  "fst (parse_then p f b) = Panic \<longleftrightarrow> fst (p b) = Panic \<or> (\<exists>x b'. p b = (Ok x, b') \<and> fst (f x b') = Panic)"
  by (auto simp: parse_then_def split: prod.splits outcome.splits)

lemma map_Panic: "fst (parse_map f p b) = Panic \<longleftrightarrow> fst (p b) = Panic"
  by (auto simp: parse_map_def then_Panic parse_ok_def)

lemma parse_inv_flags_Panic:
  "fst (parse_inv_flags b) = Panic \<longleftrightarrow>
     (\<exists>i. parse_ident b = (Ok i, advance 1 b) \<and> length (trees b) = Suc (index b)
        \<and> ident_value i \<notin> {''persistent'', ''plain'', ''na'', ''atomic''})"
  using steady_parser.no_panic [OF steady_ident]
  by (auto simp: parse_inv_flags_def then_Panic Let_def other_err_Panic parse_ok_def parse_ident_Ok cursor_simps
    split: if_splits)

lemma shim_Panic:
  "fst (parse_shim b) = Panic \<longleftrightarrow> length (trees b) \<le> index b"
  "fst (parse_code_shim b) = Panic \<longleftrightarrow> length (trees b) \<le> index b"
  using steady_parser.no_panic [OF steady_lit_list]
  by (auto simp: parse_shim_def parse_code_shim_def then_Panic parse_pos_def pos_def parse_ok_def parse_err_def
    split: if_splits)

end
