(* ===== verification/ToolAttributes.thy ===== *)
theory ToolAttributes
  imports AttributeParsers
begin

text \<open>
  Finding and reading tool attributes: \<open>translation/src/attrs.rs\<close>, \<open>attr_args_tokens\<close> of
  \<open>spec_parsers/parse_utils.rs\<close> and the getters of \<open>spec_parsers/mod.rs\<close>. The configured tool name
  (\<open>rrconfig::spec_hotword\<close>) is the parameter \<open>hotword\<close>.
\<close>

section \<open>Attributes\<close>

datatype attr_args =
    ArgsDelimited "token_tree list"
  | ArgsEmpty
  | ArgsEq nat

record attr_item =
  at_segments :: "string list"
  at_args :: attr_args

text \<open>\<open>hir::Attribute\<close>: the ones the compiler parsed itself are not looked into.\<close>

datatype attribute = Unparsed attr_item | Parsed nat

fun attr_args_tokens :: "attr_args \<Rightarrow> token_tree list" where
  "attr_args_tokens (ArgsDelimited ts) = ts"
| "attr_args_tokens ArgsEmpty = []"
| "attr_args_tokens (ArgsEq _) = []"

definition is_tool_attr :: "string \<Rightarrow> string \<Rightarrow> attr_item \<Rightarrow> bool" where
  "is_tool_attr hotword name it \<longleftrightarrow>
     length (at_segments it) = 2 \<and> at_segments it ! 0 = hotword \<and> at_segments it ! 1 = name"

fun get_tool_attr :: "string \<Rightarrow> attribute list \<Rightarrow> string \<Rightarrow> attr_args option" where
  "get_tool_attr hotword [] name = None"
| "get_tool_attr hotword (Parsed _ # attrs) name = get_tool_attr hotword attrs name"
| "get_tool_attr hotword (Unparsed it # attrs) name =
     (if is_tool_attr hotword name it then Some (at_args it) else get_tool_attr hotword attrs name)"

definition has_tool_attr :: "string \<Rightarrow> attribute list \<Rightarrow> string \<Rightarrow> bool" where
  "has_tool_attr hotword attrs name \<longleftrightarrow> get_tool_attr hotword attrs name \<noteq> None"

definition has_tool_attr_filtered :: "string \<Rightarrow> attr_item list \<Rightarrow> string \<Rightarrow> bool" where
  "has_tool_attr_filtered hotword attrs name \<longleftrightarrow> list_ex (is_tool_attr hotword name) attrs"

text \<open>The first segment is taken by index, which panics on an empty path.\<close>

fun has_any_tool_attr :: "string \<Rightarrow> attribute list \<Rightarrow> bool option" where
  "has_any_tool_attr hotword [] = Some False"
| "has_any_tool_attr hotword (Parsed _ # attrs) = has_any_tool_attr hotword attrs"
| "has_any_tool_attr hotword (Unparsed it # attrs) =
     (case at_segments it of
        [] \<Rightarrow> None
      | seg # _ \<Rightarrow> if seg = hotword then Some True else has_any_tool_attr hotword attrs)"

fun filter_for_tool :: "string \<Rightarrow> attribute list \<Rightarrow> attr_item list" where
  "filter_for_tool hotword [] = []"
| "filter_for_tool hotword (Parsed _ # attrs) = filter_for_tool hotword attrs"
| "filter_for_tool hotword (Unparsed it # attrs) =
     (case at_segments it of
        seg # _ \<Rightarrow> (if seg = hotword then [it] else []) @ filter_for_tool hotword attrs
      | [] \<Rightarrow> filter_for_tool hotword attrs)"

section \<open>Reading the arguments of an attribute\<close>

text \<open>
  The error strings of the attribute parsers: a parse error (\<open>str_err\<close>), an attribute that is not
  known, and a message. The name of what was to be specified stands for the rest of the text.
\<close>

datatype spec_error =
    StrErr error
  | UnknownAttribute string attr_args
  | UnknownAttributePath "string list"
  | Message string

type_synonym 'a spec_result = "(spec_error, 'a) outcome"

text \<open>\<open>path_segs.get(1)\<close>, the buffer over the arguments, and a parser with \<open>map_err(str_err)\<close>.\<close>

definition second_segment :: "attr_item \<Rightarrow> string option" where
  "second_segment it = (case at_segments it of _ # seg # _ \<Rightarrow> Some seg | _ \<Rightarrow> None)"

definition attr_buffer :: "attr_item \<Rightarrow> buffer" where
  "attr_buffer it = buffer_new (attr_args_tokens (at_args it))"

definition parse_step :: "'a parser \<Rightarrow> buffer \<Rightarrow> ('a \<times> buffer) spec_result" where
  "parse_step p b = (case p b of (Ok x, b') \<Rightarrow> Ok (x, b') | (Err e, _) \<Rightarrow> Err (StrErr e) | (Panic, _) \<Rightarrow> Panic)"

definition parse_attr :: "'a parser \<Rightarrow> attr_item \<Rightarrow> 'a spec_result" where
  "parse_attr p it = and_then (parse_step p (attr_buffer it)) (\<lambda>(x, _). Ok x)"

text \<open>A pass over the attributes, which skips those without a second segment.\<close>

definition for_attrs :: "(string \<Rightarrow> attr_item \<Rightarrow> 's \<Rightarrow> 's spec_result) \<Rightarrow> attr_item list \<Rightarrow> 's \<Rightarrow> 's spec_result" where
  "for_attrs f attrs =
     for_each (\<lambda>it s. case second_segment it of None \<Rightarrow> Ok s | Some seg \<Rightarrow> f seg it s) attrs"

section \<open>Getters\<close>

text \<open>The first attribute of a name decides.\<close>

fun get_first_attr :: "string \<Rightarrow> 'a parser \<Rightarrow> string \<Rightarrow> attr_item list \<Rightarrow> 'a spec_result" where
  "get_first_attr name p msg [] = Err (Message msg)"
| "get_first_attr name p msg (it # attrs) =
     (if second_segment it = Some name then parse_attr p it else get_first_attr name p msg attrs)"

definition get_export_as_attr :: "parse_env \<Rightarrow> attr_item list \<Rightarrow> export_as spec_result" where
  "get_export_as_attr M attrs =
     get_first_attr ''export_as'' (parse_export_as M) ''Did not find export_as annotation'' attrs"

definition get_depends_on_attrs :: "attr_item list \<Rightarrow> string list list spec_result" where
  "get_depends_on_attrs attrs =
     for_attrs (\<lambda>seg it deps.
       if seg = ''depends_on'' then and_then (parse_attr parse_depends_on it) (\<lambda>paths. Ok (deps @ paths))
       else Ok deps) attrs []"

definition get_shim_attrs :: "attr_item list \<Rightarrow> shim_annot spec_result" where
  "get_shim_attrs attrs = get_first_attr ''shim'' parse_shim ''Did not find shim annotation'' attrs"

definition get_code_shim_attrs :: "attr_item list \<Rightarrow> string spec_result" where
  "get_code_shim_attrs attrs = get_first_attr ''code_shim'' parse_code_shim ''Did not find shim annotation'' attrs"

definition propagate_method_attr_from_impl :: "attr_item \<Rightarrow> bool" where
  "propagate_method_attr_from_impl it =
     (case second_segment it of None \<Rightarrow> False | Some ident \<Rightarrow> ident = ''context'' \<or> ident = ''verify'')"

section \<open>Laws\<close>

lemma parse_step_simps [rust_simps]:
  "parse_step p b = Ok (x, b') \<longleftrightarrow> p b = (Ok x, b')"
  "parse_step p b = Panic \<longleftrightarrow> fst (p b) = Panic"
  by (auto simp: parse_step_def split: prod.splits outcome.splits)

lemma parse_attr_Ok [rust_simps]: "parse_attr p it = Ok x \<longleftrightarrow> fst (p (attr_buffer it)) = Ok x"
  by (cases "p (attr_buffer it)") (auto simp: parse_attr_def parse_step_def split: outcome.splits)

lemma parse_attr_Panic [rust_simps]: "parse_attr p it = Panic \<longleftrightarrow> fst (p (attr_buffer it)) = Panic"
  by (cases "p (attr_buffer it)") (auto simp: parse_attr_def parse_step_def split: outcome.splits)

lemma parse_attr_steady: "steady_parser p \<Longrightarrow> parse_attr p it \<noteq> Panic"
  by (simp add: parse_attr_Panic steady_parser.no_panic)

lemma for_attrs_Nil [simp]: "for_attrs f [] s = Ok s"
  by (simp add: for_attrs_def)

lemma for_attrs_Cons:
  "for_attrs f (it # attrs) s =
     and_then (case second_segment it of None \<Rightarrow> Ok s | Some seg \<Rightarrow> f seg it s) (for_attrs f attrs)"
  by (simp add: for_attrs_def)

lemma for_attrs_invariant:
  assumes "for_attrs f attrs s = Ok t" and "P s"
    and "\<And>seg it u u'. it \<in> set attrs \<Longrightarrow> second_segment it = Some seg \<Longrightarrow> P u \<Longrightarrow> f seg it u = Ok u' \<Longrightarrow> P u'"
  shows "P t"
  using assms(1,2) unfolding for_attrs_def
  by (rule for_each_invariant) (use assms(3) in \<open>auto split: option.splits\<close>)

lemma filtered_tool_attr:
  "has_tool_attr hotword attrs name \<longleftrightarrow> has_tool_attr_filtered hotword (filter_for_tool hotword attrs) name"
proof (induction hotword attrs name rule: get_tool_attr.induct)
  case (3 hotword it attrs name)
  then show ?case
    by (cases "at_segments it") (auto simp: has_tool_attr_def has_tool_attr_filtered_def is_tool_attr_def)
qed (simp_all add: has_tool_attr_def has_tool_attr_filtered_def)

lemma any_tool_attr_filter:
  assumes "\<And>it. Unparsed it \<in> set attrs \<Longrightarrow> at_segments it \<noteq> []"
  shows "has_any_tool_attr hotword attrs = Some (filter_for_tool hotword attrs \<noteq> [])"
  using assms
proof (induction hotword attrs rule: has_any_tool_attr.induct)
  case (3 hotword it attrs)
  then obtain seg rest where "at_segments it = seg # rest" by (cases "at_segments it") auto
  with 3 show ?case by auto
qed simp_all

end
