(* ===== verification/ItemAttributes.thy ===== *)
theory ItemAttributes
  imports ToolAttributes "HOL-Library.List_Lexorder" "HOL-Library.Char_ord"
begin

text \<open>
  The loops over the attributes of an item, in \<open>translation/src/spec_parsers\<close>: crates
  (\<open>crate_attr_parser.rs\<close>), modules (\<open>module_attr_parser.rs\<close>), constants (\<open>const_attr_parser.rs\<close>), enums
  (\<open>enum_spec_parser.rs\<close>), traits (\<open>trait_attr_parser.rs\<close>), trait implementations
  (\<open>trait_impl_attr_parser.rs\<close>) and struct invariants and fields (\<open>struct_spec_parser.rs\<close>). A loop is
  a pass with the local variables of the function as its state; an \<open>Err\<close> or a panic ends it.
\<close>

section \<open>Crates, modules and constants\<close>

record module_attrs =
  ma_exports :: "from_require list"
  ma_includes :: "string set"
  ma_export_includes :: "string set"

definition parse_module_attr :: "string \<Rightarrow> attr_item \<Rightarrow> module_attrs \<Rightarrow> module_attrs spec_result" where
  "parse_module_attr seg it s =
     (if seg = ''import'' then
        and_then (parse_attr parse_export_module it) (\<lambda>path. Ok (s\<lparr>ma_exports := ma_exports s @ [path]\<rparr>))
      else if seg = ''include'' then
        and_then (parse_attr parse_lit_str it)
          (\<lambda>name. Ok (s\<lparr>ma_includes := insert (lit_str_value name) (ma_includes s)\<rparr>))
      else if seg = ''export_include'' then
        and_then (parse_attr parse_lit_str it)
          (\<lambda>name. Ok (s\<lparr>ma_export_includes := insert (lit_str_value name) (ma_export_includes s)\<rparr>))
      else Err (UnknownAttribute ''module'' (at_args it)))"

definition parse_module_attrs :: "attr_item list \<Rightarrow> module_attrs spec_result" where
  "parse_module_attrs attrs =
     for_attrs parse_module_attr attrs \<lparr>ma_exports = [], ma_includes = {}, ma_export_includes = {}\<rparr>"

record crate_attrs =
  ca_exports :: "from_require list"
  ca_prefix :: "string option"
  ca_includes :: "string set"
  ca_export_includes :: "string set"
  ca_package :: "string option"

definition parse_crate_attr :: "string \<Rightarrow> attr_item \<Rightarrow> crate_attrs \<Rightarrow> crate_attrs spec_result" where
  "parse_crate_attr seg it s =
     (if seg = ''import'' then
        and_then (parse_attr parse_export_module it) (\<lambda>path. Ok (s\<lparr>ca_exports := ca_exports s @ [path]\<rparr>))
      else if seg = ''include'' then
        and_then (parse_attr parse_lit_str it)
          (\<lambda>name. Ok (s\<lparr>ca_includes := insert (lit_str_value name) (ca_includes s)\<rparr>))
      else if seg = ''export_include'' then
        and_then (parse_attr parse_lit_str it)
          (\<lambda>name. Ok (s\<lparr>ca_export_includes := insert (lit_str_value name) (ca_export_includes s)\<rparr>))
      else if seg = ''coq_prefix'' then
        and_then (parse_attr parse_lit_str it) (\<lambda>path.
          if ca_prefix s \<noteq> None then Err (Message ''multiple rr::coq_prefix attributes have been provided'')
          else Ok (s\<lparr>ca_prefix := Some (lit_str_value path)\<rparr>))
      else if seg = ''package'' then
        and_then (parse_attr parse_lit_str it) (\<lambda>path.
          if ca_package s \<noteq> None then Err (Message ''multiple rr::package attributes have been provided'')
          else Ok (s\<lparr>ca_package := Some (lit_str_value path)\<rparr>))
      else Err (UnknownAttribute ''crate'' (at_args it)))"

definition parse_crate_attrs :: "attr_item list \<Rightarrow> crate_attrs spec_result" where
  "parse_crate_attrs attrs =
     for_attrs parse_crate_attr attrs
       \<lparr>ca_exports = [], ca_prefix = None, ca_includes = {}, ca_export_includes = {}, ca_package = None\<rparr>"

definition parse_const_attr :: "string \<Rightarrow> attr_item \<Rightarrow> string option \<Rightarrow> string option spec_result" where
  "parse_const_attr seg it name =
     (if seg = ''name'' then
        and_then (parse_attr parse_lit_str it) (\<lambda>parsed_name.
          if name \<noteq> None then Err (Message ''name attribute has already been specified'')
          else Ok (Some (lit_str_value parsed_name)))
      else Err (UnknownAttribute ''const'' (at_args it)))"

definition parse_const_attrs :: "attr_item list \<Rightarrow> string spec_result" where
  "parse_const_attrs attrs =
     and_then (for_attrs parse_const_attr attrs None) (\<lambda>name.
       case name of None \<Rightarrow> Err (Message ''no name attribute specified on const'') | Some n \<Rightarrow> Ok n)"

section \<open>Enums\<close>

record enum_spec =
  es_rfn_type :: coq_type
  es_variant_patterns :: "(string \<times> string list \<times> string) list"
  es_is_partial :: bool

definition parse_enum_attr ::
  "parse_env \<Rightarrow> string \<Rightarrow> attr_item \<Rightarrow> string option \<times> bool \<Rightarrow> (string option \<times> bool) spec_result" where
  "parse_enum_attr M seg it s =
     (case s of (rfn_type, is_partial) \<Rightarrow>
        if seg = ''refined_by'' then
          and_then (parse_attr parse_lit_str it)
            (\<lambda>ty. Ok (Some (fst (process_coq_literal M (lit_str_value ty))), is_partial))
        else if seg = ''partial'' then Ok (rfn_type, True)
        else if seg = ''export_as'' \<or> seg = ''derive_instantiate'' then Ok s
        else Err (UnknownAttribute ''enum'' (at_args it)))"

definition parse_variant_attr ::
  "parse_env \<Rightarrow> string \<Rightarrow> attr_item \<Rightarrow> enum_pattern option \<times> string option
     \<Rightarrow> (enum_pattern option \<times> string option) spec_result" where
  "parse_variant_attr M seg it s =
     (case s of (pat, refinement) \<Rightarrow>
        if seg = ''pattern'' then and_then (parse_attr (parse_enum_pattern M) it) (\<lambda>p. Ok (Some p, refinement))
        else if seg = ''refinement'' then
          and_then (parse_attr parse_lit_str it)
            (\<lambda>rfn. Ok (pat, Some (fst (process_coq_literal M (lit_str_value rfn)))))
        else Ok s)"

definition parse_variant ::
  "parse_env \<Rightarrow> attr_item list \<Rightarrow> (string \<times> string list \<times> string) list \<Rightarrow> (string \<times> string list \<times> string) list spec_result" where
  "parse_variant M attrs variant_patterns =
     and_then (for_attrs (parse_variant_attr M) attrs (None, None)) (\<lambda>(pat, refinement).
       case pat of
         None \<Rightarrow> Ok variant_patterns
       | Some p \<Rightarrow> Ok (variant_patterns @
           [(ep_pat p, ep_args p, (case refinement of None \<Rightarrow> ''*[]'' | Some r \<Rightarrow> r))]))"

definition parse_enum_spec ::
  "parse_env \<Rightarrow> string \<Rightarrow> attr_item list \<Rightarrow> attr_item list list \<Rightarrow> enum_spec spec_result" where
  "parse_enum_spec M ty_name attrs variant_attrs =
     and_then (for_attrs (parse_enum_attr M) attrs (None, False)) (\<lambda>(rfn_type, is_partial).
     and_then (for_each (parse_variant M) variant_attrs []) (\<lambda>variant_patterns.
       case rfn_type of
         None \<Rightarrow> Err (Message (''No refined_by clause provided for enum '' @ pe_debug M ty_name))
       | Some ty \<Rightarrow> Ok \<lparr>es_rfn_type = TLiteral ty, es_variant_patterns = variant_patterns, es_is_partial = is_partial\<rparr>))"

definition parse_enum_refine_as :: "attr_args \<Rightarrow> string option spec_result" where
  "parse_enum_refine_as args =
     (if args = ArgsEmpty then Ok None
      else and_then (parse_step parse_lit_str (buffer_new (attr_args_tokens args)))
             (\<lambda>(name, _). Ok (Some (lit_str_value name))))"

section \<open>Traits\<close>

text \<open>\<open>TraitAttrScope\<close>: literals of the attributes parsed so far, before those of the scope;
  \<open>lookup_place\<close> is the default of the trait, no place.\<close>

definition trait_attr_scope :: "(string \<rightharpoonup> string) \<Rightarrow> scope \<Rightarrow> scope" where
  "trait_attr_scope literals sc =
     sc\<lparr>lookup_literal := (\<lambda>path.
       case path of
         [AssocItem x] \<Rightarrow> (case literals x of Some lit \<Rightarrow> Some lit | None \<Rightarrow> lookup_literal sc path)
       | _ \<Rightarrow> lookup_literal sc path),
     lookup_place := (\<lambda>_ _. None)\<rparr>"

definition with_literals :: "(string \<rightharpoonup> string) \<Rightarrow> parse_env \<Rightarrow> parse_env" where
  "with_literals literals M = M\<lparr>pe_scope := trait_attr_scope literals (pe_scope M)\<rparr>"

text \<open>The variables of \<open>parse_trait_attrs\<close>, with the literals of its scope.\<close>

record trait_attr_state =
  ta_attrs :: "(string \<times> coq_type) list"
  ta_used :: "string set"
  ta_external :: bool
  ta_semantic :: "string option"
  ta_literals :: "string \<rightharpoonup> string"

record trait_attrs =
  td_attrs :: "(string \<times> coq_type) list option"
  td_semantic_interp :: "string option"

text \<open>A name and a colon, as both passes over the declarations read them.\<close>

definition parse_declared_name :: "string parser" where
  "parse_declared_name =
     parse_then parse_ident_or_term (\<lambda>n.
     parse_then (parse_punct PColon) (\<lambda>_. parse_ok (ident_or_term_text n)))"

definition parse_trait_exists ::
  "parse_env \<Rightarrow> (string \<Rightarrow> string) \<Rightarrow> attr_item \<Rightarrow> trait_attr_state \<Rightarrow> trait_attr_state spec_result" where
  "parse_trait_exists M make_record_id it s =
     and_then (parse_step parse_declared_name (attr_buffer it)) (\<lambda>(name, b).
     let literals = (ta_literals s)(name \<mapsto> make_record_id name) in
     and_then (parse_step (parse_coq_type (with_literals literals M)) b) (\<lambda>(ty, _).
       if name \<in> ta_used s then
         Err (Message (''attribute '' @ name @ '' has been declared multiple times''))
       else Ok (s\<lparr>ta_attrs := ta_attrs s @ [(name, ty)], ta_used := insert name (ta_used s), ta_literals := literals\<rparr>)))"

definition parse_trait_attr ::
  "parse_env \<Rightarrow> (string \<Rightarrow> string) \<Rightarrow> string \<Rightarrow> attr_item \<Rightarrow> trait_attr_state \<Rightarrow> trait_attr_state spec_result" where
  "parse_trait_attr M make_record_id seg it s =
     (if seg = ''external_attrs'' then
        (if ta_attrs s \<noteq> [] then
           Err (Message ''rr::external_attrs specified, but rr::exists has been previously specified'')
         else Ok (s\<lparr>ta_external := True\<rparr>))
      else if seg = ''exists'' then
        (if ta_external s then
           Err (Message ''rr::exists specified, but rr::external_attrs has been previously specified'')
         else parse_trait_exists M make_record_id it s)
      else if seg = ''semantic'' then
        and_then (parse_attr parse_lit_str it) (\<lambda>t.
          if ta_semantic s \<noteq> None then Err (Message ''rr::semantic has been declared multiple times'')
          else Ok (s\<lparr>ta_semantic := Some (fst (process_coq_literal (with_literals (ta_literals s) M) (lit_str_value t)))\<rparr>))
      else if seg = ''nondependent'' \<or> seg = ''export_as'' then Ok s
      else Err (UnknownAttribute ''trait'' (at_args it)))"

definition trait_attr_init :: trait_attr_state where
  "trait_attr_init = \<lparr>ta_attrs = [], ta_used = {}, ta_external = False, ta_semantic = None, ta_literals = Map.empty\<rparr>"

definition parse_trait_attrs ::
  "parse_env \<Rightarrow> (string \<Rightarrow> string) \<Rightarrow> attr_item list \<Rightarrow> trait_attrs spec_result" where
  "parse_trait_attrs M make_record_id attrs =
     and_then (for_attrs (parse_trait_attr M make_record_id) attrs trait_attr_init) (\<lambda>s.
       Ok \<lparr>td_attrs = (if ta_external s then None else Some (ta_attrs s)), td_semantic_interp = ta_semantic s\<rparr>)"

definition get_declared_trait_attrs :: "attr_item list \<Rightarrow> string list spec_result" where
  "get_declared_trait_attrs attrs =
     for_attrs (\<lambda>seg it trait_attrs.
       if seg = ''exists'' then
         and_then (parse_attr parse_declared_name it) (\<lambda>name. Ok (trait_attrs @ [name]))
       else if seg = ''external_attrs'' then
         and_then (parse_attr (parse_list parse_lit_str PComma) it)
           (\<lambda>params. Ok (trait_attrs @ map lit_str_value params))
       else Ok trait_attrs) attrs []"

section \<open>Trait implementations\<close>

datatype spec_attr_inst = AttrTerm coq_term | AttrProof string

record trait_impl_attrs =
  ti_attrs :: "(string, spec_attr_inst) btmap"
  ti_context_items :: "coq_binder list"

definition filter_for_attrs :: "trait_impl_attrs \<Rightarrow> string list \<Rightarrow> (string, (string, spec_attr_inst) btmap) outcome" where
  "filter_for_attrs m required =
     for_each (\<lambda>attr out.
       case bm_get (ti_attrs m) attr of
         Some a \<Rightarrow> Ok (bm_insert attr a out)
       | None \<Rightarrow> Err attr) required []"

definition parse_inst_proof :: "parse_env \<Rightarrow> buffer \<Rightarrow> spec_attr_inst spec_result" where
  "parse_inst_proof M b =
     and_then (parse_step (parse_punct PPound) b) (\<lambda>(_, b).
     and_then (parse_step parse_ident b) (\<lambda>(macro_cmd, b).
       if ident_value macro_cmd \<noteq> ''proof'' then
         Err (Message (''unknown macro '' @ ident_value macro_cmd @ '' in trait attribute instantiation''))
       else and_then (parse_step (parse_literal M) b) (\<lambda>((t, _), _). Ok (AttrProof t))))"

definition parse_inst_term :: "parse_env \<Rightarrow> buffer \<Rightarrow> spec_attr_inst spec_result" where
  "parse_inst_term M b =
     (let b = (case peek_delimited b of Some stream \<Rightarrow> buffer_new stream | None \<Rightarrow> b)
      in and_then (parse_step (parse_literal M) b) (\<lambda>((t, _), _). Ok (AttrTerm (TmLiteral t))))"

definition parse_instantiate :: "parse_env \<Rightarrow> attr_item \<Rightarrow> (string \<times> spec_attr_inst) spec_result" where
  "parse_instantiate M it =
     and_then (parse_step parse_declared_name (attr_buffer it)) (\<lambda>(name, b).
     and_then (parse_step (parse_punct PEq) b) (\<lambda>(_, b).
     and_then (if peek_punct PPound b then parse_inst_proof M b else parse_inst_term M b)
       (\<lambda>inst. Ok (name, inst))))"

definition add_instantiation :: "parse_env \<Rightarrow> attr_item \<Rightarrow> trait_impl_attrs \<Rightarrow> trait_impl_attrs spec_result" where
  "add_instantiation M it s =
     and_then (parse_instantiate M it) (\<lambda>(name, inst).
       if bm_get (ti_attrs s) name \<noteq> None then
         Err (Message (''attribute '' @ name @ '' has been instantiated multiple times''))
       else Ok (s\<lparr>ti_attrs := bm_insert name inst (ti_attrs s)\<rparr>))"

definition add_context_item :: "parse_env \<Rightarrow> attr_item \<Rightarrow> trait_impl_attrs \<Rightarrow> trait_impl_attrs spec_result" where
  "add_context_item M it s =
     and_then (parse_attr (parse_context_item M) it)
       (\<lambda>item. Ok (s\<lparr>ti_context_items := ti_context_items s @ [context_item_binder item]\<rparr>))"

definition parse_trait_impl_attr ::
  "parse_env \<Rightarrow> string \<Rightarrow> attr_item \<Rightarrow> trait_impl_attrs \<Rightarrow> trait_impl_attrs spec_result" where
  "parse_trait_impl_attr M seg it s =
     (if seg = ''instantiate'' then add_instantiation M it s
      else if seg = ''context'' then add_context_item M it s
      else if seg \<in> {''export_as'', ''only_spec'', ''trust_me'', ''skip'', ''verify''} then Ok s
      else Err (UnknownAttributePath (at_segments it)))"

definition parse_trait_impl_attrs :: "parse_env \<Rightarrow> attr_item list \<Rightarrow> trait_impl_attrs spec_result" where
  "parse_trait_impl_attrs M attrs =
     for_attrs (parse_trait_impl_attr M) attrs \<lparr>ti_attrs = [], ti_context_items = []\<rparr>"

definition parse_derive_trait_impl_attrs :: "parse_env \<Rightarrow> attr_item list \<Rightarrow> trait_impl_attrs spec_result" where
  "parse_derive_trait_impl_attrs M attrs =
     for_attrs (\<lambda>seg it s.
       if seg = ''derive_instantiate'' then add_instantiation M it s
       else if seg = ''context'' then add_context_item M it s
       else Ok s) attrs \<lparr>ti_attrs = [], ti_context_items = []\<rparr>"

section \<open>Struct invariants and fields\<close>

datatype inv_mode = ModeAll | ModeOnlyShared | ModeOnlyOwned

record inv_spec =
  is_name :: string
  is_flags :: inv_flags
  is_rfn_type :: coq_type
  is_rfn_pat :: string
  is_existentials :: "coq_binder list"
  is_invariants :: "(iprop \<times> inv_mode) list"
  is_type_invariants :: "ty_own_spec list"
  is_ty_lfts :: "string list"
  is_ty_wf_elctx :: "string list"
  is_abstracted_refinement :: "string option"
  is_params :: "coq_binder list"

definition inv_spec_init :: "string \<Rightarrow> inv_spec" where
  "inv_spec_init struct_name =
     \<lparr>is_name = struct_name, is_flags = Plain, is_rfn_type = TInfer, is_rfn_pat = ''placeholder_pat'',
      is_existentials = [], is_invariants = [], is_type_invariants = [], is_ty_lfts = [],
      is_ty_wf_elctx = [], is_abstracted_refinement = None, is_params = []\<rparr>"

text \<open>A clause of the invariant; the function-only clauses do not come out of this parser.\<close>

fun add_inv_clause :: "meta_iprop \<Rightarrow> inv_spec \<Rightarrow> inv_spec spec_result" where
  "add_inv_clause (Own p) s = Ok (s\<lparr>is_invariants := is_invariants s @ [(p, ModeOnlyOwned)]\<rparr>)"
| "add_inv_clause (Shared p) s = Ok (s\<lparr>is_invariants := is_invariants s @ [(p, ModeOnlyShared)]\<rparr>)"
| "add_inv_clause (Iris p) s = Ok (s\<lparr>is_invariants := is_invariants s @ [(p, ModeAll)]\<rparr>)"
| "add_inv_clause (TypeClause ty) s = Ok (s\<lparr>is_type_invariants := is_type_invariants s @ [ty]\<rparr>)"
| "add_inv_clause (Pure p None) s =
     Ok (s\<lparr>is_invariants := is_invariants s @ [(IpPure (TmLiteral p), ModeAll)]\<rparr>)"
| "add_inv_clause (Pure p (Some n)) s =
     Ok (s\<lparr>is_invariants := is_invariants s @ [(IpPure (TmWithName (TmLiteral p) n), ModeAll)]\<rparr>)"
| "add_inv_clause (Observe _ _ _) s = Panic"
| "add_inv_clause (Linktime _) s = Panic"
| "add_inv_clause (TraitAttr _ _ _) s = Panic"

definition parse_invariant_attr :: "parse_env \<Rightarrow> string \<Rightarrow> attr_item \<Rightarrow> inv_spec \<Rightarrow> inv_spec spec_result" where
  "parse_invariant_attr M seg it s =
     (if seg = ''refined_by'' then
        and_then (parse_attr (parse_rfn_pattern M) it) (\<lambda>(pat, ty).
          Ok (s\<lparr>is_rfn_pat := pat, is_rfn_type := (case ty of Some t \<Rightarrow> t | None \<Rightarrow> is_rfn_type s)\<rparr>))
      else if seg = ''inv'' \<or> seg = ''invariant'' then
        and_then (parse_attr (parse_struct_iprop M) it) (\<lambda>clause. add_inv_clause clause s)
      else if seg = ''ty_lfts'' then
        and_then (parse_attr (parse_terms M) it) (\<lambda>ts. Ok (s\<lparr>is_ty_lfts := is_ty_lfts s @ ts\<rparr>))
      else if seg = ''ty_wf_elctx'' \<or> seg = ''ty_wf_E'' then
        and_then (parse_attr (parse_terms M) it) (\<lambda>ts. Ok (s\<lparr>is_ty_wf_elctx := is_ty_wf_elctx s @ ts\<rparr>))
      else if seg = ''exists'' then
        and_then (parse_attr (parse_params_named M) it) (\<lambda>ps. Ok (s\<lparr>is_existentials := is_existentials s @ ps\<rparr>))
      else if seg = ''mode'' then
        and_then (parse_attr parse_inv_flags it) (\<lambda>mode. Ok (s\<lparr>is_flags := mode\<rparr>))
      else if seg = ''refines'' then
        and_then (parse_attr parse_ident_or_term it) (\<lambda>t.
          if is_abstracted_refinement s \<noteq> None then Err (Message ''multiple refines specifications given'')
          else Ok (s\<lparr>is_abstracted_refinement := Some (ident_or_term_text t)\<rparr>))
      else if seg = ''context'' then
        and_then (parse_attr (parse_context_item M) it) (\<lambda>item.
          Ok (s\<lparr>is_params := is_params s @ [new_generalized MaxImplicit None (TLiteral (ci_item item))]\<rparr>))
      else Ok s)"

definition parse_invariant_spec :: "parse_env \<Rightarrow> string \<Rightarrow> attr_item list \<Rightarrow> (inv_spec \<times> bool) spec_result" where
  "parse_invariant_spec M struct_name attrs =
     (if attrs = [] then Err (Message ''no invariant specifications given'')
      else and_then (for_attrs (parse_invariant_attr M) attrs (inv_spec_init struct_name))
             (\<lambda>s. Ok (s, is_abstracted_refinement s \<noteq> None)))"

text \<open>
  A field: the annotated type (made from the text by \<open>make_type\<close>, a parameter, as it goes through the
  interner of type literals) or the default type, and the refinement.
\<close>

record 'ty field_spec =
  fs_ty :: 'ty
  fs_rfn :: "string option"

text \<open>The type that follows a refinement is optional, the \<open>@\<close> tells.\<close>

definition parse_field_ty ::
  "parse_env \<Rightarrow> (string \<Rightarrow> 'ty \<Rightarrow> 'ty) \<Rightarrow> 'ty \<Rightarrow> string \<Rightarrow> string option \<Rightarrow> 'ty option \<Rightarrow> buffer
     \<Rightarrow> ('ty option \<times> string option) spec_result" where
  "parse_field_ty M make_type default_ty field_name rfn field_type b =
     and_then (parse_step (parse_literal_type M) b) (\<lambda>(ty, _).
       if field_type \<noteq> None then
         Err (Message (''field attribute specified twice for field '' @ pe_debug M field_name))
       else Ok (Some (make_type ty default_ty), rfn))"

definition parse_field_attr ::
  "parse_env \<Rightarrow> (string \<Rightarrow> 'ty \<Rightarrow> 'ty) \<Rightarrow> 'ty \<Rightarrow> bool \<Rightarrow> string \<Rightarrow> string \<Rightarrow> attr_item
     \<Rightarrow> 'ty option \<times> string option \<Rightarrow> ('ty option \<times> string option) spec_result" where
  "parse_field_attr M make_type default_ty expect_rfn field_name seg it s =
     (case s of (field_type, parsed_rfn) \<Rightarrow>
        if seg \<noteq> ''field'' then Err (UnknownAttribute ''struct field'' (at_args it))
        else if expect_rfn then
          and_then (parse_step (parse_literal M) (attr_buffer it)) (\<lambda>((rfn, _), b).
            if peek_punct PAt b then
              and_then (parse_step (parse_punct PAt) b) (\<lambda>(_, b).
                parse_field_ty M make_type default_ty field_name (Some rfn) field_type b)
            else Ok (field_type, Some rfn))
        else parse_field_ty M make_type default_ty field_name parsed_rfn field_type (attr_buffer it))"

definition parse_field_spec ::
  "parse_env \<Rightarrow> (string \<Rightarrow> 'ty \<Rightarrow> 'ty) \<Rightarrow> 'ty \<Rightarrow> bool \<Rightarrow> string \<Rightarrow> attr_item list \<Rightarrow> 'ty field_spec spec_result" where
  "parse_field_spec M make_type default_ty expect_rfn field_name attrs =
     and_then (for_attrs (parse_field_attr M make_type default_ty expect_rfn field_name) attrs (None, None))
       (\<lambda>(field_type, parsed_rfn).
          Ok \<lparr>fs_ty = (case field_type of Some ty \<Rightarrow> ty | None \<Rightarrow> default_ty), fs_rfn = parsed_rfn\<rparr>)"

section \<open>Declarations of trait attributes\<close>

text \<open>
  The pass that only collects the declared names, run before the declarations are checked, agrees with
  the checking pass wherever that one accepts declarations.
\<close>

text \<open>The loop state of the checking pass as the collecting one sees it.\<close>

definition names_collected :: "trait_attr_state \<Rightarrow> string list \<Rightarrow> bool" where
  "names_collected s names \<longleftrightarrow>
     names = map fst (ta_attrs s) \<and> ta_used s = set names \<and> distinct names"

lemma names_collected_simps [simp]:
  "names_collected (s\<lparr>ta_semantic := x\<rparr>) names = names_collected s names"
  by (simp add: names_collected_def)

lemma parse_trait_exists_collects:
  assumes "parse_trait_exists M mk it s = Ok s'" and "names_collected s names"
  obtains name where "parse_attr parse_declared_name it = Ok name" "names_collected s' (names @ [name])"
    "ta_external s' = ta_external s"
proof -
  from assms(1) obtain name b ty where
    "parse_step parse_declared_name (attr_buffer it) = Ok (name, b)" "name \<notin> ta_used s"
    and s': "s' = s\<lparr>ta_attrs := ta_attrs s @ [(name, ty)], ta_used := insert name (ta_used s),
      ta_literals := (ta_literals s)(name \<mapsto> mk name)\<rparr>"
    by (auto simp: parse_trait_exists_def Let_def rust_simps split: prod.splits if_splits)
  with assms(2) show thesis
    by (intro that [of name]) (auto simp: names_collected_def parse_attr_def rust_simps)
qed

lemma external_persists:
  assumes "for_attrs (parse_trait_attr M mk) attrs s = Ok t" and "ta_external s"
  shows "ta_external t"
  using assms by (rule for_attrs_invariant)
    (auto simp: parse_trait_attr_def rust_simps split: if_splits)

lemma declared_names_agree_loop:
  assumes "for_attrs (parse_trait_attr M mk) attrs s = Ok t" and "\<not> ta_external t" and "names_collected s names"
  shows "\<exists>names'. for_attrs (\<lambda>seg it trait_attrs.
       if seg = ''exists'' then
         and_then (parse_attr parse_declared_name it) (\<lambda>name. Ok (trait_attrs @ [name]))
       else if seg = ''external_attrs'' then
         and_then (parse_attr (parse_list parse_lit_str PComma) it)
           (\<lambda>params. Ok (trait_attrs @ map lit_str_value params))
       else Ok trait_attrs) attrs names = Ok names' \<and> names_collected t names'"
  using assms
proof (induction attrs arbitrary: s names)
  case Nil
  then show ?case by simp
next
  case (Cons it attrs)
  show ?case
  proof (cases "second_segment it")
    case None
    with Cons show ?thesis by (simp add: for_attrs_Cons)
  next
    case (Some seg)
    with Cons.prems(1) obtain u where u: "parse_trait_attr M mk seg it s = Ok u"
      "for_attrs (parse_trait_attr M mk) attrs u = Ok t" by (auto simp: for_attrs_Cons rust_simps)
    have ext: "\<not> ta_external u" using external_persists [OF u(2)] Cons.prems(2) by blast
    then have not_ext: "seg \<noteq> ''external_attrs''" using u(1) by (auto simp: parse_trait_attr_def split: if_splits)
    show ?thesis
    proof (cases "seg = ''exists''")
      case True
      with u(1) have "parse_trait_exists M mk it s = Ok u" by (auto simp: parse_trait_attr_def split: if_splits)
      then obtain name where "parse_attr parse_declared_name it = Ok name" "names_collected u (names @ [name])"
        using parse_trait_exists_collects Cons.prems(3) by blast
      with Cons.IH [OF u(2) Cons.prems(2)] Some True show ?thesis by (simp add: for_attrs_Cons)
    next
      case False
      then have "names_collected u names"
        using u(1) Cons.prems(3) not_ext by (auto simp: parse_trait_attr_def rust_simps split: if_splits)
      with Cons.IH [OF u(2) Cons.prems(2)] Some False not_ext show ?thesis by (simp add: for_attrs_Cons)
    qed
  qed
qed

lemma declared_names_agree_result:
  assumes "parse_trait_attrs M mk attrs = Ok ta" and "td_attrs ta = Some decls"
  shows "get_declared_trait_attrs attrs = Ok (map fst decls) \<and> distinct (map fst decls)"
proof -
  obtain t where t: "for_attrs (parse_trait_attr M mk) attrs trait_attr_init = Ok t"
      "\<not> ta_external t" "ta_attrs t = decls"
    using assms by (auto simp: parse_trait_attrs_def rust_simps split: if_splits)
  have "names_collected trait_attr_init []" by (simp add: names_collected_def trait_attr_init_def)
  with declared_names_agree_loop [OF t(1,2)] t(3) show ?thesis
    by (auto simp: get_declared_trait_attrs_def names_collected_def)
qed

text \<open>
  C25. Where the checking pass over the attributes of a trait accepts declarations, the pass that only
  collects names yields exactly the declared names in the same order, and no name twice.
\<close>

theorem declared_trait_attrs_agree:
  assumes "parse_trait_attrs M make_record_id attrs = Ok ta" and "td_attrs ta = Some decls"
  shows "get_declared_trait_attrs attrs = Ok (map fst decls) \<and> distinct (map fst decls)"
  using assms by (rule declared_names_agree_result)

definition plain_indenter :: indenter where
  "plain_indenter = \<lparr>indent_lines = (\<lambda>s. s), indent_skip_initial = (\<lambda>s. s)\<rparr>"

definition tool_item :: "string \<Rightarrow> token_tree list \<Rightarrow> attr_item" where
  "tool_item name ts = \<lparr>at_segments = [''rr'', name], at_args = ArgsDelimited ts\<rparr>"

definition sample_trait :: "attr_item list" where
  "sample_trait =
     [tool_item ''exists'' [lit_tree ''Pre'', punct_tree PColon, lit_tree ''Prop''],
      tool_item ''nondependent'' [],
      tool_item ''exists'' [lit_tree ''Post'', punct_tree PColon, lit_tree ''Z'']]"

theorem declared_trait_attrs_agree_witness:
  "get_declared_trait_attrs sample_trait = Ok [''Pre'', ''Post'']"
proof -
  have "parse_trait_attrs plain_env (\<lambda>s. s) sample_trait =
      Ok \<lparr>td_attrs = Some [(''Pre'', TLiteral ''Prop''), (''Post'', TLiteral ''Z'')], td_semantic_interp = None\<rparr>"
    by (simp add: sample_trait_def parse_trait_attrs_def for_attrs_def second_segment_def tool_item_def parse_trait_attr_def
      trait_attr_init_def parse_trait_exists_def parse_step_def attr_buffer_def buffer_new_def parse_declared_name_def
      parse_then_def parse_ident_or_term_def parse_or_def parse_map_def parse_ident_def expect_ident_def peek_def
      parse_lit_str_def expect_literal_def lit_tree_def punct_tree_def parse_punct_def expect_token_def parse_ok_def
      advance_def lit_str_value_def parse_coq_type_def parse_literal_def process_coq_literal_def with_literals_def
      plain_env_def)
  from declared_trait_attrs_agree [OF this] show ?thesis by simp
qed

section \<open>When a struct invariant makes the parser panic\<close>

text \<open>A mode, or a macro after \<open>#\<close>, that is unknown and the last token.\<close>

definition lone_unknown_mode :: "token_tree list \<Rightarrow> bool" where
  "lone_unknown_mode ts \<longleftrightarrow>
     (\<exists>t sp m r. ts = [Token t sp] \<and> tok_kind t = TkIdent m r \<and> m \<notin> {''persistent'', ''plain'', ''na'', ''atomic''})"

definition lone_unknown_macro :: "token_tree list \<Rightarrow> bool" where
  "lone_unknown_macro ts \<longleftrightarrow>
     (\<exists>p psp t sp m r. ts = [Token p psp, Token t sp] \<and> tok_kind p = TkPound \<and> tok_kind t = TkIdent m r
        \<and> m \<notin> {''iris'', ''own'', ''shr'', ''type''})"

definition panicking_attr :: "attr_item \<Rightarrow> bool" where
  "panicking_attr it \<longleftrightarrow>
     (second_segment it = Some ''mode'' \<and> lone_unknown_mode (attr_args_tokens (at_args it)))
   \<or> (second_segment it \<in> {Some ''inv'', Some ''invariant''} \<and> lone_unknown_macro (attr_args_tokens (at_args it)))"

lemma attr_buffer_sel [simp]: "trees (attr_buffer it) = attr_args_tokens (at_args it)" "index (attr_buffer it) = 0"
  by (simp_all add: attr_buffer_def buffer_new_def)

lemma ident_value_Ident: "ident_value (Ident s) = s"
  by (simp add: ident_value_def)

lemma inv_flags_panic: "fst (parse_inv_flags (attr_buffer it)) = Panic \<longleftrightarrow> lone_unknown_mode (attr_args_tokens (at_args it))"
proof
  let ?ts = "attr_args_tokens (at_args it)"
  assume "fst (parse_inv_flags (attr_buffer it)) = Panic"
  then obtain i t sp r where "length ?ts = 1" "?ts ! 0 = Token t sp" "tok_kind t = TkIdent (ident_value i) r"
      "ident_value i \<notin> {''persistent'', ''plain'', ''na'', ''atomic''}"
    by (auto simp: parse_inv_flags_Panic parse_ident_Ok)
  then show "lone_unknown_mode ?ts" unfolding lone_unknown_mode_def
    by (intro exI [of _ t] exI [of _ sp] exI [of _ "ident_value i"] exI [of _ r]) (cases ?ts; simp)
next
  let ?ts = "attr_args_tokens (at_args it)"
  assume "lone_unknown_mode ?ts"
  then obtain t sp m r where "?ts = [Token t sp]" "tok_kind t = TkIdent m r"
    "m \<notin> {''persistent'', ''plain'', ''na'', ''atomic''}" by (auto simp: lone_unknown_mode_def)
  then show "fst (parse_inv_flags (attr_buffer it)) = Panic" unfolding parse_inv_flags_Panic
    by (intro exI [of _ "Ident m"]) (auto simp: parse_ident_Ok ident_value_Ident)
qed

lemma punct_Ok:
  "parse_punct p b = (Ok s, b') \<longleftrightarrow> peek_punct p b \<and> b' = advance 1 b
   \<and> (\<exists>t sp. trees b ! index b = Token t sp \<and> s = tok_span t)"
  by (auto simp: parse_punct_def expect_token_def peek_punct_def peek_token_def peek_def
    split: token_tree.splits if_splits)

lemma peek_punct_iff:
  "peek_punct p b \<longleftrightarrow> index b < length (trees b) \<and> (\<exists>t sp. trees b ! index b = Token t sp \<and> tok_kind t = punct_token p)"
  by (auto simp: peek_punct_def peek_token_def peek_def split: token_tree.splits)

lemma struct_iprop_clauses:
  assumes "parse_struct_iprop M b = (Ok c, b')"
  shows "add_inv_clause c s \<noteq> Panic"
proof -
  have pure: "parse_pure M b = (Ok c, b') \<Longrightarrow> \<exists>p n. c = Pure p n" for b
    by (auto simp: parse_pure_def parse_then_def parse_map_def parse_ok_def parse_err_def parse_peek_def
      split: prod.splits outcome.splits if_splits)
  have own: "parse_ty_own M l b = (Ok c, b') \<Longrightarrow> \<exists>t. c = TypeClause t" for b l
    by (auto simp: parse_ty_own_def parse_then_def parse_ok_def split: prod.splits outcome.splits)
  have mapped: "parse_map f p b = (Ok c, b') \<Longrightarrow> \<exists>x. c = f x" for f :: "iprop \<Rightarrow> meta_iprop" and p b
    by (auto simp: parse_map_def parse_then_def parse_ok_def split: prod.splits outcome.splits)
  have bad: "\<not> other_err msg b = (Ok c, b')" for msg b
    by (auto simp: other_err_def parse_then_def parse_err_def split: prod.splits outcome.splits)
  from assms have "(\<exists>p n. c = Pure p n) \<or> (\<exists>t. c = TypeClause t) \<or> (\<exists>p. c = Iris p \<or> c = Own p \<or> c = Shared p)"
    by (auto simp: parse_struct_iprop_def peek_then parse_then_def [of "parse_punct _"] parse_then_def [of parse_ident] Let_def bad
      split: prod.splits outcome.splits if_splits dest: pure own mapped)
  then show ?thesis by (cases s) (auto, metis add_inv_clause.simps(5,6) not_None_eq outcome.distinct(3))
qed

lemma struct_iprop_panic:
  "fst (parse_struct_iprop M (attr_buffer it)) = Panic \<longleftrightarrow> lone_unknown_macro (attr_args_tokens (at_args it))"
proof -
  let ?ts = "attr_args_tokens (at_args it)" and ?b = "attr_buffer it"
  have np: "fst (parse_pure M b) \<noteq> Panic" "fst (parse_ty_own M l b) \<noteq> Panic" "fst (parse_iprop M b) \<noteq> Panic"
    "fst (parse_punct p b) \<noteq> Panic" "fst (parse_ident b) \<noteq> Panic" for b l p
    by (rule steady_parser.no_panic, intro parser_intros)+
  have "fst (parse_struct_iprop M ?b) = Panic \<longleftrightarrow>
      peek_punct PPound ?b \<and> (\<exists>i. parse_ident (advance 1 ?b) = (Ok i, advance 2 ?b) \<and> length ?ts = 2
        \<and> ident_value i \<notin> {''iris'', ''own'', ''shr'', ''type''})"
    by (auto simp: parse_struct_iprop_def peek_then then_Panic map_Panic np Let_def other_err_Panic punct_Ok parse_ident_Ok
      cursor_simps advance_def peek_punct_iff split: if_splits)
  also have "\<dots> \<longleftrightarrow> lone_unknown_macro ?ts"
  proof
    assume "peek_punct PPound ?b \<and> (\<exists>i. parse_ident (advance 1 ?b) = (Ok i, advance 2 ?b) \<and> length ?ts = 2
        \<and> ident_value i \<notin> {''iris'', ''own'', ''shr'', ''type''})"
    then obtain i p psp t sp r where "length ?ts = 2" "?ts ! 0 = Token p psp" "tok_kind p = TkPound"
        "?ts ! 1 = Token t sp" "tok_kind t = TkIdent (ident_value i) r" "ident_value i \<notin> {''iris'', ''own'', ''shr'', ''type''}"
      by (auto simp: peek_punct_iff parse_ident_Ok cursor_simps)
    moreover from \<open>length ?ts = 2\<close> have "?ts = [?ts ! 0, ?ts ! 1]"
      by (auto simp: list_eq_iff_nth_eq less_Suc_eq numeral_2_eq_2)
    ultimately show "lone_unknown_macro ?ts" unfolding lone_unknown_macro_def
      by (intro exI [of _ p] exI [of _ psp] exI [of _ t] exI [of _ sp] exI [of _ "ident_value i"] exI [of _ r]) simp
  next
    assume "lone_unknown_macro ?ts"
    then obtain p psp t sp m r where "?ts = [Token p psp, Token t sp]" "tok_kind p = TkPound" "tok_kind t = TkIdent m r"
      "m \<notin> {''iris'', ''own'', ''shr'', ''type''}" by (auto simp: lone_unknown_macro_def)
    then show "peek_punct PPound ?b \<and> (\<exists>i. parse_ident (advance 1 ?b) = (Ok i, advance 2 ?b) \<and> length ?ts = 2
        \<and> ident_value i \<notin> {''iris'', ''own'', ''shr'', ''type''})"
      by (intro conjI exI [of _ "Ident m"]) (auto simp: peek_punct_iff parse_ident_Ok cursor_simps advance_def ident_value_Ident)
  qed
  finally show ?thesis .
qed

lemma invariant_attr_panic:
  assumes "second_segment it = Some seg"
  shows "parse_invariant_attr M seg it s = Panic \<longleftrightarrow> panicking_attr it"
proof -
  have clause: "and_then (parse_attr (parse_struct_iprop M) it) (\<lambda>c. add_inv_clause c s) = Panic
      \<longleftrightarrow> lone_unknown_macro (attr_args_tokens (at_args it))"
    using struct_iprop_clauses
    by (auto simp: rust_simps struct_iprop_panic) (metis prod.collapse)
  have np: "parse_attr (parse_rfn_pattern M) it = Panic \<longleftrightarrow> False" "parse_attr (parse_terms M) it = Panic \<longleftrightarrow> False"
    "parse_attr (parse_params_named M) it = Panic \<longleftrightarrow> False" "parse_attr parse_ident_or_term it = Panic \<longleftrightarrow> False"
    "parse_attr (parse_context_item M) it = Panic \<longleftrightarrow> False"
    by (simp_all only: simp_thms, (rule parse_attr_steady, intro parser_intros)+)
  have "parse_invariant_attr M seg it s = Panic \<longleftrightarrow>
      (seg = ''mode'' \<and> parse_attr parse_inv_flags it = Panic)
    \<or> ((seg = ''inv'' \<or> seg = ''invariant'') \<and> lone_unknown_macro (attr_args_tokens (at_args it)))"
    unfolding parse_invariant_attr_def clause [symmetric] by (simp add: and_then_Panic np split_beta)
  then show ?thesis using assms by (simp add: panicking_attr_def parse_attr_Panic inv_flags_panic)
qed

lemma invariant_step_panic:
  "(case second_segment it of None \<Rightarrow> Ok s | Some seg \<Rightarrow> parse_invariant_attr M seg it s) = Panic \<longleftrightarrow> panicking_attr it"
  by (cases "second_segment it") (simp_all add: invariant_attr_panic, simp add: panicking_attr_def)

text \<open>
  C26. Reading a struct invariant panics exactly when some attribute, reached without an error, is a
  mode or an invariant clause that ends in an unknown identifier: the error message asks for the
  position of the token after it, and there is none.
\<close>

theorem parse_invariant_spec_panics:
  "parse_invariant_spec M struct_name attrs = Panic \<longleftrightarrow>
     (\<exists>before it after s. attrs = before @ it # after
        \<and> for_attrs (parse_invariant_attr M) before (inv_spec_init struct_name) = Ok s \<and> panicking_attr it)"
proof -
  have "for_attrs (parse_invariant_attr M) attrs (inv_spec_init struct_name) = Panic \<longleftrightarrow>
     (\<exists>before it after s. attrs = before @ it # after
        \<and> for_attrs (parse_invariant_attr M) before (inv_spec_init struct_name) = Ok s \<and> panicking_attr it)"
    unfolding for_attrs_def for_each_Panic invariant_step_panic ..
  then show ?thesis by (auto simp: parse_invariant_spec_def and_then_Panic)
qed

text \<open>An unknown mode, and a shim without arguments.\<close>

lemma unknown_mode_panics:
  "parse_invariant_spec M n [tool_item ''mode'' [Token \<lparr>tok_kind = TkIdent ''shared'' False, tok_span = 0\<rparr> 0]] = Panic"
  by (auto simp: parse_invariant_spec_def for_attrs_def second_segment_def tool_item_def invariant_attr_panic
    panicking_attr_def lone_unknown_mode_def and_then_Panic)

lemma shim_without_arguments_panics:
  "get_shim_attrs [tool_item ''shim'' []] = Panic" "get_code_shim_attrs [tool_item ''code_shim'' []] = Panic"
  by (simp_all add: get_shim_attrs_def get_code_shim_attrs_def tool_item_def second_segment_def rust_simps shim_Panic)

section \<open>Instantiations of trait attributes\<close>

text \<open>Filtering succeeds when every required attribute is there, and names the first that is not.\<close>

lemma filter_for_attrs_result:
  assumes "bm_ok (ti_attrs m)"
  shows "(\<forall>a \<in> set required. bm_get (ti_attrs m) a \<noteq> None) \<Longrightarrow>
      \<exists>out. filter_for_attrs m required = Ok out \<and> bm_ok out
        \<and> (\<forall>a. bm_get out a = (if a \<in> set required then bm_get (ti_attrs m) a else None))"
    and "(\<exists>a \<in> set required. bm_get (ti_attrs m) a = None) \<Longrightarrow>
      \<exists>before a after. required = before @ a # after \<and> (\<forall>x \<in> set before. bm_get (ti_attrs m) x \<noteq> None)
        \<and> bm_get (ti_attrs m) a = None \<and> filter_for_attrs m required = Err a"
proof -
  let ?step = "\<lambda>attr out. case bm_get (ti_attrs m) attr of Some a \<Rightarrow> Ok (bm_insert attr a out) | None \<Rightarrow> Err attr"
  have good: "\<exists>out'. for_each ?step xs out = Ok out' \<and> bm_ok out'
      \<and> (\<forall>a. bm_get out' a = (if a \<in> set xs then bm_get (ti_attrs m) a else bm_get out a))"
    if "\<forall>a \<in> set xs. bm_get (ti_attrs m) a \<noteq> None" "bm_ok out" for xs out
    using that
  proof (induction xs arbitrary: out)
    case (Cons x xs)
    then obtain a where a: "bm_get (ti_attrs m) x = Some a" by auto
    have "\<forall>a \<in> set xs. bm_get (ti_attrs m) a \<noteq> None" using Cons.prems(1) by simp
    from Cons.IH [OF this bm_ok_insert [OF Cons.prems(2)], of x a] a Cons.prems(2) show ?case
      by (auto simp: bm_get_insert fun_eq_iff)
  qed simp
  have nil: "bm_ok ([] :: (string, spec_attr_inst) btmap)" "bm_get ([] :: (string, spec_attr_inst) btmap) a = None" for a
    by (simp_all add: bm_ok_def bm_get_def bm_keys_def)
  show "\<exists>out. filter_for_attrs m required = Ok out \<and> bm_ok out
        \<and> (\<forall>a. bm_get out a = (if a \<in> set required then bm_get (ti_attrs m) a else None))"
    if "\<forall>a \<in> set required. bm_get (ti_attrs m) a \<noteq> None"
    using good [OF that nil(1)] unfolding filter_for_attrs_def nil(2) .
  show "\<exists>before a after. required = before @ a # after \<and> (\<forall>x \<in> set before. bm_get (ti_attrs m) x \<noteq> None)
        \<and> bm_get (ti_attrs m) a = None \<and> filter_for_attrs m required = Err a"
    if ex: "\<exists>a \<in> set required. bm_get (ti_attrs m) a = None"
  proof -
    from split_list_first_prop [OF ex] obtain before a after where
      req: "required = before @ a # after" "bm_get (ti_attrs m) a = None" "\<forall>x \<in> set before. bm_get (ti_attrs m) x \<noteq> None"
      by blast
    from good [OF req(3) nil(1)] obtain out where "for_each ?step before [] = Ok out" by blast
    with req have "filter_for_attrs m required = Err a" by (simp add: filter_for_attrs_def for_each_append)
    with req show ?thesis by blast
  qed
qed

end
