(* ===== verification/CaesiumSyntax.thy ===== *)
theory CaesiumSyntax
  imports CoqSyntax "HOL-Library.Word"
begin

text \<open>
  The target language of the translation: \<open>radium/src/lang.rs\<close> and the code part of
  \<open>radium/src/code.rs\<close>, with the \<open>Display\<close> instances that print it as a Rocq term. Two indentation
  writers are parameters: \<open>I\<close> for the terms inside (\<open>BASE_INDENT\<close>) and \<open>J\<close> for statements
  (\<open>make_indent(1)\<close>). Printing a checked operation without a checked form is \<open>unimplemented!()\<close>, that
  is \<^term>\<open>None\<close>.
\<close>

section \<open>Numbers and booleans\<close>

definition show_int :: "int \<Rightarrow> string" where
  "show_int i = (if i < 0 then ''-'' @ show_nat (nat (- i)) else show_nat (nat i))"

definition show_bool :: "bool \<Rightarrow> string" where
  "show_bool b = (if b then ''true'' else ''false'')"

definition quoted :: "string \<Rightarrow> string" where
  "quoted s = dquote @ s @ dquote"

section \<open>Layouts, syntactic types and operation types\<close>

datatype int_type = I8 | I16 | I32 | I64 | I128 | U8 | U16 | U32 | U64 | U128 | ISize | USize

fun fmt_int_type :: "int_type \<Rightarrow> string" where
  "fmt_int_type I8 = ''I8''"
| "fmt_int_type I16 = ''I16''"
| "fmt_int_type I32 = ''I32''"
| "fmt_int_type I64 = ''I64''"
| "fmt_int_type I128 = ''I128''"
| "fmt_int_type U8 = ''U8''"
| "fmt_int_type U16 = ''U16''"
| "fmt_int_type U32 = ''U32''"
| "fmt_int_type U64 = ''U64''"
| "fmt_int_type U128 = ''U128''"
| "fmt_int_type ISize = ''ISize''"
| "fmt_int_type USize = ''USize''"

definition BOOL_REPR :: int_type where "BOOL_REPR = U8"

datatype layout =
    LyPtr
  | LyInt int_type
  | LyBool
  | LyChar
  | LyUnit
  | UseLayoutAlg coq_term
  | LyPad nat
  | LyArray layout nat

primrec fmt_layout :: "indenter \<Rightarrow> layout \<Rightarrow> string option" where
  "fmt_layout I LyPtr = Some ''void*''"
| "fmt_layout I (LyInt it) = Some (''(it_layout '' @ fmt_int_type it @ '')'')"
| "fmt_layout I LyBool = Some ''bool_layout''"
| "fmt_layout I LyChar = Some ''char_layout''"
| "fmt_layout I LyUnit = Some ''(layout_of unit_sl)''"
| "fmt_layout I (UseLayoutAlg t) = pieces [Some (''(use_layout_alg'' @ [CHR 0x27] @ '' ''), fmt_term I t, Some '')'']"
| "fmt_layout I (LyPad n) = Some (''(Layout '' @ show_nat n @ ''%nat 0%nat)'')"
| "fmt_layout I (LyArray ly n) = pieces [Some ''(mk_array_layout '', fmt_layout I ly, Some ('' '' @ show_nat n @ '')'')]"

datatype syn_type =
    BoolSynType
  | CharSynType
  | IntSynType int_type
  | PtrSynType
  | FnPtrSynType
  | UntypedSynType layout
  | UnitSynType
  | NeverSynType
  | ArraySynType syn_type nat
  | LiteralSynType string

primrec fmt_syn_type :: "indenter \<Rightarrow> syn_type \<Rightarrow> string option" where
  "fmt_syn_type I BoolSynType = Some ''BoolSynType''"
| "fmt_syn_type I CharSynType = Some ''CharSynType''"
| "fmt_syn_type I (IntSynType it) = Some (''(IntSynType '' @ fmt_int_type it @ '')'')"
| "fmt_syn_type I PtrSynType = Some ''PtrSynType''"
| "fmt_syn_type I FnPtrSynType = Some ''FnPtrSynType''"
| "fmt_syn_type I (UntypedSynType ly) = pieces [Some ''(UntypedSynType '', fmt_layout I ly, Some '')'']"
| "fmt_syn_type I UnitSynType = Some ''UnitSynType''"
| "fmt_syn_type I NeverSynType = Some ''UnitSynType''"
| "fmt_syn_type I (ArraySynType st n) = pieces [Some ''(ArraySynType '', fmt_syn_type I st, Some ('' '' @ show_nat n @ '')'')]"
| "fmt_syn_type I (LiteralSynType s) = Some s"

datatype op_type =
    IntOp int_type
  | BoolOp
  | CharOp
  | PtrOp
  | StructOp
  | UntypedOp layout
  | UseOpAlg coq_term

fun fmt_op_type :: "indenter \<Rightarrow> op_type \<Rightarrow> string option" where
  "fmt_op_type I (IntOp it) = Some (''IntOp '' @ fmt_int_type it)"
| "fmt_op_type I BoolOp = Some ''BoolOp''"
| "fmt_op_type I CharOp = Some ''CharOp''"
| "fmt_op_type I PtrOp = Some ''PtrOp''"
| "fmt_op_type I StructOp = Some ''StructOp unit_sl []''"
| "fmt_op_type I (UntypedOp ly) = pieces [Some ''UntypedOp ('', fmt_layout I ly, Some '')'']"
| "fmt_op_type I (UseOpAlg t) = pieces [Some (''(use_op_alg'' @ [CHR 0x27] @ '' ''), fmt_term I t, Some '')'']"

text \<open>\<open>From<&SynType> for Layout\<close> and \<open>From<&SynType> for OpType\<close>\<close>

primrec layout_of_synty :: "syn_type \<Rightarrow> layout" where
  "layout_of_synty BoolSynType = LyBool"
| "layout_of_synty CharSynType = LyChar"
| "layout_of_synty (IntSynType it) = LyInt it"
| "layout_of_synty PtrSynType = LyPtr"
| "layout_of_synty FnPtrSynType = LyPtr"
| "layout_of_synty (ArraySynType st n) = LyArray (layout_of_synty st) n"
| "layout_of_synty (UntypedSynType ly) = ly"
| "layout_of_synty UnitSynType = LyUnit"
| "layout_of_synty NeverSynType = LyUnit"
| "layout_of_synty (LiteralSynType rhs) = UseLayoutAlg (TmLiteral rhs)"

fun op_type_of_synty :: "syn_type \<Rightarrow> op_type" where
  "op_type_of_synty BoolSynType = BoolOp"
| "op_type_of_synty CharSynType = CharOp"
| "op_type_of_synty (IntSynType it) = IntOp it"
| "op_type_of_synty PtrSynType = PtrOp"
| "op_type_of_synty FnPtrSynType = PtrOp"
| "op_type_of_synty (UntypedSynType ly) = UntypedOp ly"
| "op_type_of_synty UnitSynType = StructOp"
| "op_type_of_synty NeverSynType = UntypedOp LyUnit"
| "op_type_of_synty (ArraySynType st n) = UntypedOp (layout_of_synty (ArraySynType st n))"
| "op_type_of_synty (LiteralSynType rhs) = UseOpAlg (TmLiteral rhs)"

section \<open>Rust types in annotations\<close>

type_synonym lft = string

text \<open>
  The three types are mutually recursive in the source; here the instantiations are containers of
  the types inside them.
\<close>

datatype 'r lit_term = TypeRt 'r | AppDef "string list" "'r lit_term list"

datatype 'r rust_scope_inst = RustScopeInst (apps: "'r list") (lfts: "lft list") (trait_attrs: "'r lit_term list")

datatype rust_type =
    RSTLitType "string list" "rust_type rust_scope_inst"
  | RSTTyVar string
  | RSTInt int_type
  | RSTBool
  | RSTChar
  | RSTUnit
  | RSTAliasPtr
  | RSTMutRef rust_type lft
  | RSTShrRef rust_type lft
  | RSTBox rust_type
  | RSTStruct string "rust_type list"
  | RSTArray nat rust_type

record rust_enum_def =
  red_path :: "string list"
  red_inst :: "rust_type rust_scope_inst"

primrec fmt_lit_term :: "string lit_term \<Rightarrow> string" where
  "fmt_lit_term (TypeRt t) = ''TypeRt '' @ t"
| "fmt_lit_term (AppDef names args) =
     ''AppDef ['' @ join_with ''; '' names @ ''] ['' @ join_with ''; '' (map fmt_lit_term args) @ '']''"

fun fmt_scope_inst :: "string rust_scope_inst \<Rightarrow> string" where
  "fmt_scope_inst (RustScopeInst as ls ts) =
     ''RSTScopeInst ['' @ join_with ''; '' (map quoted ls) @ ''] ['' @ join_with ''; '' as @ ''] [''
       @ join_with ''; '' (map fmt_lit_term ts) @ '']''"

primrec fmt_rust_type :: "rust_type \<Rightarrow> string" where
  "fmt_rust_type (RSTLitType path inst) =
     ''RSTLitType ['' @ join_with ''; '' (map quoted path) @ ''] ('' @ fmt_scope_inst (map_rust_scope_inst fmt_rust_type inst) @ '')''"
| "fmt_rust_type (RSTTyVar x) = ''RSTTyVar '' @ quoted x"
| "fmt_rust_type (RSTInt it) = ''RSTInt '' @ fmt_int_type it"
| "fmt_rust_type RSTBool = ''RSTBool''"
| "fmt_rust_type RSTChar = ''RSTChar''"
| "fmt_rust_type RSTUnit = ''RSTUnit''"
| "fmt_rust_type RSTAliasPtr = ''RSTAliasPtr''"
| "fmt_rust_type (RSTMutRef t l) = ''RSTRef Mut '' @ quoted l @ '' ('' @ fmt_rust_type t @ '')''"
| "fmt_rust_type (RSTShrRef t l) = ''RSTRef Shr '' @ quoted l @ '' ('' @ fmt_rust_type t @ '')''"
| "fmt_rust_type (RSTBox t) = ''RSTBox ('' @ fmt_rust_type t @ '')''"
| "fmt_rust_type (RSTStruct s ts) = ''RSTStruct ('' @ s @ '') ['' @ join_with ''; '' (map fmt_rust_type ts) @ '']''"
| "fmt_rust_type (RSTArray n t) = ''RSTArray '' @ show_nat n @ '' ('' @ fmt_rust_type t @ '')''"

definition fmt_rust_enum_def :: "rust_enum_def \<Rightarrow> string" where
  "fmt_rust_enum_def d =
     ''RSTEnumDef ['' @ join_with ''; '' (map quoted (red_path d)) @ ''] (''
       @ fmt_scope_inst (map_rust_scope_inst fmt_rust_type (red_inst d)) @ '')''"

section \<open>Literals, operators and annotations\<close>

datatype literal =
    LitI8 "8 word" | LitI16 "16 word" | LitI32 "32 word" | LitI64 "64 word" | LitI128 "128 word" | LitISize "64 word"
  | LitU8 "8 word" | LitU16 "16 word" | LitU32 "32 word" | LitU64 "64 word" | LitU128 "128 word" | LitUSize "64 word"
  | LitBool bool
  | LitChar nat         \<comment> \<open>the code point\<close>
  | LitLoc string
  | ZST

definition i2v_text :: "string \<Rightarrow> string \<Rightarrow> string" where
  "i2v_text n it = ''i2v ('' @ n @ '') '' @ it"

fun fmt_literal :: "literal \<Rightarrow> string" where
  "fmt_literal (LitI8 x) = i2v_text (show_int (sint x)) (fmt_int_type I8)"
| "fmt_literal (LitI16 x) = i2v_text (show_int (sint x)) (fmt_int_type I16)"
| "fmt_literal (LitI32 x) = i2v_text (show_int (sint x)) (fmt_int_type I32)"
| "fmt_literal (LitI64 x) = i2v_text (show_int (sint x)) (fmt_int_type I64)"
| "fmt_literal (LitI128 x) = i2v_text (show_int (sint x)) (fmt_int_type I128)"
| "fmt_literal (LitISize x) = i2v_text (show_int (sint x)) (fmt_int_type ISize)"
| "fmt_literal (LitU8 x) = i2v_text (show_int (uint x)) (fmt_int_type U8)"
| "fmt_literal (LitU16 x) = i2v_text (show_int (uint x)) (fmt_int_type U16)"
| "fmt_literal (LitU32 x) = i2v_text (show_int (uint x)) (fmt_int_type U32)"
| "fmt_literal (LitU64 x) = i2v_text (show_int (uint x)) (fmt_int_type U64)"
| "fmt_literal (LitU128 x) = i2v_text (show_int (uint x)) (fmt_int_type U128)"
| "fmt_literal (LitUSize x) = i2v_text (show_int (uint x)) (fmt_int_type USize)"
| "fmt_literal (LitBool b) = ''val_of_bool '' @ show_bool b"
| "fmt_literal (LitChar c) = i2v_text (show_nat c) ''CharIt''"
| "fmt_literal (LitLoc l) = l"
| "fmt_literal ZST = ''zst_val''"

datatype unop = NegOp | NotBoolOp | NotIntOp | CastOp op_type

fun fmt_unop :: "indenter \<Rightarrow> unop \<Rightarrow> string option" where
  "fmt_unop I NegOp = Some ''NegOp''"
| "fmt_unop I NotBoolOp = Some ''NotBoolOp''"
| "fmt_unop I NotIntOp = Some ''NotIntOp''"
| "fmt_unop I (CastOp ot) = pieces [Some ''CastOp ('', fmt_op_type I ot, Some '')'']"

datatype binop =
    OpAdd | OpSub | OpMul | OpDiv | OpMod
  | OpAnd | OpOr
  | OpBitAnd | OpBitOr | OpBitXor | OpShl | OpShr
  | OpAddUnchecked | OpSubUnchecked | OpMulUnchecked | OpShlUnchecked | OpShrUnchecked
  | OpEq | OpNe | OpLt | OpGt | OpLe | OpGe
  | PtrOffset layout | PtrNegOffset layout | PtrDiff layout

definition u_times :: string where "u_times = [CHR 0xC3, CHR 0x97]"
definition u_le :: string where "u_le = [CHR 0xE2, CHR 0x89, CHR 0xA4]"
definition u_ge :: string where "u_ge = [CHR 0xE2, CHR 0x89, CHR 0xA5]"
definition u_empty :: string where "u_empty = [CHR 0xE2, CHR 0x88, CHR 0x85]"

definition format_prim :: "indenter \<Rightarrow> op_type \<Rightarrow> op_type \<Rightarrow> string \<Rightarrow> string option" where
  "format_prim I ot1 ot2 st =
     pieces [Some (st @ '' ''), fmt_op_type I ot1, Some '' , '', fmt_op_type I ot2, Some '' }'']"

definition format_bool :: "indenter \<Rightarrow> op_type \<Rightarrow> op_type \<Rightarrow> string \<Rightarrow> string option" where
  "format_bool I ot1 ot2 st =
     pieces [Some (st @ '' ''), fmt_op_type I ot1, Some '' , '', fmt_op_type I ot2,
       Some ('' , '' @ fmt_int_type BOOL_REPR @ '' }'')]"

definition format_ptr :: "indenter \<Rightarrow> op_type \<Rightarrow> op_type \<Rightarrow> string \<Rightarrow> layout \<Rightarrow> string option" where
  "format_ptr I ot1 ot2 st ly =
     pieces [Some (st @ ''{ ''), fmt_layout I ly, Some '' , '', fmt_op_type I ot1, Some '' , '', fmt_op_type I ot2, Some '' }'']"

fun caesium_fmt :: "indenter \<Rightarrow> op_type \<Rightarrow> op_type \<Rightarrow> binop \<Rightarrow> string option" where
  "caesium_fmt I ot1 ot2 OpAdd = format_prim I ot1 ot2 ''+{''"
| "caesium_fmt I ot1 ot2 OpSub = format_prim I ot1 ot2 ''-{''"
| "caesium_fmt I ot1 ot2 OpMul = format_prim I ot1 ot2 (u_times @ ''{'')"
| "caesium_fmt I ot1 ot2 OpDiv = format_prim I ot1 ot2 ''/{''"
| "caesium_fmt I ot1 ot2 OpMod = format_prim I ot1 ot2 ''%{''"
| "caesium_fmt I ot1 ot2 OpAnd = format_bool I ot1 ot2 ''&&{''"
| "caesium_fmt I ot1 ot2 OpOr = format_bool I ot1 ot2 ''||{''"
| "caesium_fmt I ot1 ot2 OpBitAnd = format_prim I ot1 ot2 ''&b{''"
| "caesium_fmt I ot1 ot2 OpBitOr = format_prim I ot1 ot2 ''|{''"
| "caesium_fmt I ot1 ot2 OpBitXor = format_prim I ot1 ot2 ''^{''"
| "caesium_fmt I ot1 ot2 OpShl = format_prim I ot1 ot2 ''<<{''"
| "caesium_fmt I ot1 ot2 OpShr = format_prim I ot1 ot2 ''>>{''"
| "caesium_fmt I ot1 ot2 OpAddUnchecked = format_prim I ot1 ot2 ''+unchecked{''"
| "caesium_fmt I ot1 ot2 OpSubUnchecked = format_prim I ot1 ot2 ''-unchecked{''"
| "caesium_fmt I ot1 ot2 OpMulUnchecked = format_prim I ot1 ot2 (u_times @ ''unchecked{'')"
| "caesium_fmt I ot1 ot2 OpShlUnchecked = format_prim I ot1 ot2 ''<<unchecked{''"
| "caesium_fmt I ot1 ot2 OpShrUnchecked = format_prim I ot1 ot2 ''>>unchecked{''"
| "caesium_fmt I ot1 ot2 OpEq = format_bool I ot1 ot2 ''= {''"
| "caesium_fmt I ot1 ot2 OpNe = format_bool I ot1 ot2 ''!= {''"
| "caesium_fmt I ot1 ot2 OpLt = format_bool I ot1 ot2 ''<{''"
| "caesium_fmt I ot1 ot2 OpGt = format_bool I ot1 ot2 ''>{''"
| "caesium_fmt I ot1 ot2 OpLe = format_bool I ot1 ot2 (u_le @ ''{'')"
| "caesium_fmt I ot1 ot2 OpGe = format_bool I ot1 ot2 (u_ge @ ''{'')"
| "caesium_fmt I ot1 ot2 (PtrOffset ly) = format_ptr I ot1 ot2 ''at_offset'' ly"
| "caesium_fmt I ot1 ot2 (PtrNegOffset ly) = format_ptr I ot1 ot2 ''at_neg_offset'' ly"
| "caesium_fmt I ot1 ot2 (PtrDiff ly) = format_ptr I ot1 ot2 ''sub_ptr'' ly"

fun caesium_checked_fmt :: "indenter \<Rightarrow> op_type \<Rightarrow> op_type \<Rightarrow> binop \<Rightarrow> string option" where
  "caesium_checked_fmt I ot1 ot2 OpAdd = format_prim I ot1 ot2 ''+c{''"
| "caesium_checked_fmt I ot1 ot2 OpSub = format_prim I ot1 ot2 ''-c{''"
| "caesium_checked_fmt I ot1 ot2 OpMul = format_prim I ot1 ot2 (u_times @ ''c{'')"
| "caesium_checked_fmt I ot1 ot2 OpDiv = format_prim I ot1 ot2 ''/c{''"
| "caesium_checked_fmt I ot1 ot2 OpMod = format_prim I ot1 ot2 ''%c{''"
| "caesium_checked_fmt I ot1 ot2 OpShl = format_prim I ot1 ot2 ''<<c{''"
| "caesium_checked_fmt I ot1 ot2 OpShr = format_prim I ot1 ot2 ''>>c{''"
| "caesium_checked_fmt I ot1 ot2 _ = None"

datatype code_mutability = MutRaw | SharedRaw

fun fmt_mutability :: "code_mutability \<Rightarrow> string" where
  "fmt_mutability MutRaw = ''Mut''"
| "fmt_mutability SharedRaw = ''Shr''"

datatype bor_kind = MutableBor | SharedBor

fun fmt_bor_kind :: "bor_kind \<Rightarrow> string" where
  "fmt_bor_kind MutableBor = ''Mut''"
| "fmt_bor_kind SharedBor = ''Shr''"

datatype annotation =
    StartLftAnnot lft "lft list"
  | EndLftAnnot lft
  | ExtendLftAnnot lft
  | DynIncludeLftAnnot lft lft
  | CopyLftNameAnnot lft lft
  | UnconstrainedLftAnnot lft
  | AliasLftAnnot lft "lft list"
  | StratifyContextAnnot

fun fmt_annotation :: "annotation \<Rightarrow> string" where
  "fmt_annotation (StartLftAnnot l ls) = ''StartLftAnnot '' @ quoted l @ '' ['' @ join_with ''; '' (map quoted ls) @ '']''"
| "fmt_annotation (EndLftAnnot l) = ''EndLftAnnot '' @ quoted l"
| "fmt_annotation (ExtendLftAnnot l) = ''ExtendLftAnnot '' @ quoted l"
| "fmt_annotation (DynIncludeLftAnnot l1 l2) = ''DynIncludeLftAnnot '' @ quoted l1 @ '' '' @ quoted l2"
| "fmt_annotation (CopyLftNameAnnot l1 l2) = ''CopyLftNameAnnot '' @ quoted l2 @ '' '' @ quoted l1"
| "fmt_annotation (UnconstrainedLftAnnot l) = ''UnconstrainedLftAnnot '' @ quoted l"
| "fmt_annotation (AliasLftAnnot l ls) = ''AliasLftAnnot '' @ quoted l @ '' ['' @ join_with ''; '' (map quoted ls) @ '']''"
| "fmt_annotation StratifyContextAnnot = ''StratifyContextAnnot''"

fun needs_laters :: "annotation \<Rightarrow> nat" where
  "needs_laters (EndLftAnnot _) = 2"
| "needs_laters _ = 1"

definition fmt_comment :: "string option \<Rightarrow> string" where
  "fmt_comment o' = (case o' of None \<Rightarrow> [] | Some comment \<Rightarrow> '' (* '' @ comment @ '' *)'')"

definition fmt_option :: "string option \<Rightarrow> string" where
  "fmt_option o' = (case o' of None \<Rightarrow> ''None'' | Some x \<Rightarrow> ''Some ('' @ x @ '')'')"

section \<open>Expressions\<close>

text \<open>\<open>coq::term::App<String, String>\<close>\<close>

datatype coq_app = App string "string list"

fun fmt_app :: "coq_app \<Rightarrow> string" where
  "fmt_app (App lhs rhs) =
     (if rhs = [] then lhs
      else ''('' @ lhs @ '' '' @ join_with '' '' (map (\<lambda>x. ''('' @ x @ '')'') rhs) @ '')'')"

definition new_lhs :: "string \<Rightarrow> coq_app" where "new_lhs s = App s []"

datatype expr =
    VarE string
  | MetaParamE string
  | LiteralE literal
  | UnOpE unop op_type expr
  | BinOpE binop op_type op_type expr expr
  | CheckBinOpE binop op_type op_type expr expr
  | DerefE op_type expr
  | MagicBoxDerefE syn_type syn_type expr
  | MoveE op_type expr
  | CopyE op_type expr
  | BorrowE lft bor_kind "rust_type option" expr
  | AddressOfE code_mutability expr
  | CallE expr "lft list" "rust_type list" "expr list"
  | IfE op_type expr expr expr
  | FieldOfE expr string string                    \<comment> \<open>the structure \<open>sls\<close>, then the field\<close>
  | AnnotE annotation "string option" expr
  | StructInitE coq_app "(string \<times> expr) list"
  | EnumInitE coq_app string rust_enum_def expr
  | DropE expr
  | BoxE syn_type
  | EnumDiscriminantE string expr
  | EnumDataE string string expr

primrec fmt_expr :: "indenter \<Rightarrow> expr \<Rightarrow> string option" where
  "fmt_expr I (VarE x) = Some (quoted x)"
| "fmt_expr I (MetaParamE x) = Some x"
| "fmt_expr I (LiteralE l) = Some (fmt_literal l)"
| "fmt_expr I (UnOpE o' ot e) =
     pieces [Some ''UnOp ('', fmt_unop I o', Some '') ('', fmt_op_type I ot, Some '') ('', fmt_expr I e, Some '')'']"
| "fmt_expr I (BinOpE o' ot1 ot2 e1 e2) =
     pieces [Some ''('', fmt_expr I e1, Some '') '', caesium_fmt I ot1 ot2 o', Some '' ('', fmt_expr I e2, Some '')'']"
| "fmt_expr I (CheckBinOpE o' ot1 ot2 e1 e2) =
     pieces [Some ''('', fmt_expr I e1, Some '') '', caesium_checked_fmt I ot1 ot2 o', Some '' ('', fmt_expr I e2, Some '')'']"
| "fmt_expr I (DerefE ot e) = pieces [Some ''!{ '', fmt_op_type I ot, Some '' } ( '', fmt_expr I e, Some '' )'']"
| "fmt_expr I (MagicBoxDerefE tst ast e) =
     pieces [Some ''!box{ '', fmt_syn_type I tst, Some '', '', fmt_syn_type I ast, Some '' } ( '', fmt_expr I e, Some '' )'']"
| "fmt_expr I (MoveE ot e) = pieces [Some ''move{ '', fmt_op_type I ot, Some '' } ('', fmt_expr I e, Some '')'']"
| "fmt_expr I (CopyE ot e) = pieces [Some ''copy{ '', fmt_op_type I ot, Some '' } ('', fmt_expr I e, Some '')'']"
| "fmt_expr I (BorrowE l bk ty e) =
     pieces [Some (''&ref{ '' @ fmt_bor_kind bk @ '', '' @ fmt_option (map_option fmt_rust_type ty) @ '', '' @ quoted l @ '' } (''),
       fmt_expr I e, Some '')'']"
| "fmt_expr I (AddressOfE mt e) = pieces [Some (''&raw{ '' @ fmt_mutability mt @ '' } (''), fmt_expr I e, Some '')'']"
| "fmt_expr I (CallE f ls tys as) =
     pieces [Some ''CallE '', fmt_expr I f,
       Some ('' ['' @ join_with ''; '' (map quoted ls) @ ''] ['' @ join_with ''; '' (map fmt_rust_type tys) @ ''] [@'' @ ''{expr} ''),
       joined ''; '' (map (fmt_expr I) as), Some '']'']"
| "fmt_expr I (IfE ot e1 e2 e3) =
     pieces [Some ''IfE ('', fmt_op_type I ot, Some '') ('', fmt_expr I e1, Some '') ('', fmt_expr I e2, Some '') ('',
       fmt_expr I e3, Some '')'']"
| "fmt_expr I (FieldOfE e sls name) =
     pieces [Some ''('', fmt_expr I e, Some ('') at{ '' @ sls @ '' } '' @ quoted name)]"
| "fmt_expr I (AnnotE a why e) =
     pieces [Some (''AnnotExpr'' @ fmt_comment why @ '' '' @ show_nat (needs_laters a) @ '' ('' @ fmt_annotation a @ '') (''),
       fmt_expr I e, Some '')'']"
| "fmt_expr I (StructInitE sls cs) =
     pieces [Some (''StructInit '' @ fmt_app sls @ '' [''),
       joined ''; '' (map (\<lambda>(name, e). pieces [Some (''('' @ quoted name @ '', ''), e, Some '' : expr)''])
         (map (map_prod id (fmt_expr I)) cs)),
       Some '']'']"
| "fmt_expr I (EnumInitE els variant ty e) =
     pieces [Some (''EnumInit '' @ fmt_app els @ '' '' @ quoted variant @ '' ('' @ fmt_rust_enum_def ty @ '') (''),
       fmt_expr I e, Some '')'']"
| "fmt_expr I (DropE e) = pieces [Some ''AnnotExpr 0 DropAnnot ('', fmt_expr I e, Some '')'']"
| "fmt_expr I (BoxE st) = pieces [Some ''box{'', fmt_syn_type I st, Some ''}'']"
| "fmt_expr I (EnumDiscriminantE els e) = pieces [Some (''EnumDiscriminant ('' @ els @ '') (''), fmt_expr I e, Some '')'']"
| "fmt_expr I (EnumDataE els variant e) =
     pieces [Some (''EnumData ('' @ els @ '') '' @ quoted variant @ '' (''), fmt_expr I e, Some '')'']"

definition with_optional_annotation :: "expr \<Rightarrow> annotation option \<Rightarrow> string option \<Rightarrow> expr" where
  "with_optional_annotation e a why = (case a of Some a \<Rightarrow> AnnotE a why e | None \<Rightarrow> e)"

section \<open>Statements\<close>

datatype code_variable = Variable string syn_type

datatype prim_stmt =
    AssignS op_type expr expr
  | ExprS expr
  | AssertS expr
  | LocalLiveS code_variable
  | LocalDeadS string
  | AnnotS "annotation list" "string option"

datatype stmt =
    GotoBlockS nat
  | ReturnS expr
  | IfS op_type expr stmt stmt
  | SwitchS expr int_type "(nat, nat) btmap" "stmt list" stmt
  | PrimS "prim_stmt list" stmt
  | StuckS

fun fmt_prim_stmt :: "indenter \<Rightarrow> prim_stmt \<Rightarrow> string option" where
  "fmt_prim_stmt I (AssignS ot e1 e2) =
     pieces [fmt_expr I e1, Some '' <-{ '', fmt_op_type I ot, Some '' } '', fmt_expr I e2, Some ('';'' @ newline)]"
| "fmt_prim_stmt I (ExprS e) = pieces [Some ''expr: '', fmt_expr I e, Some ('';'' @ newline)]"
| "fmt_prim_stmt I (AssertS e) =
     pieces [Some ''assert{ '', fmt_op_type I BoolOp, Some '' }: '', fmt_expr I e, Some ('';'' @ newline)]"
| "fmt_prim_stmt I (LocalLiveS (Variable x st)) =
     pieces [Some ''local_live{ '', fmt_syn_type I st, Some ('' } '' @ quoted x @ '';'' @ newline)]"
| "fmt_prim_stmt I (LocalDeadS x) = Some (''local_dead '' @ quoted x @ '';'' @ newline)"
| "fmt_prim_stmt I (AnnotS as why) =
     Some (concat (map (\<lambda>x. ''annot{ '' @ show_nat (needs_laters x) @ '' }: '' @ fmt_annotation x @ '';''
       @ fmt_comment why @ newline) as))"

primrec fmt_stmt :: "indenter \<Rightarrow> indenter \<Rightarrow> stmt \<Rightarrow> string option" where
  "fmt_stmt I J (GotoBlockS b) = Some (''Goto '' @ quoted (''_bb'' @ show_nat b))"
| "fmt_stmt I J (ReturnS e) = pieces [Some ''return ('', fmt_expr I e, Some '')'']"
| "fmt_stmt I J (IfS ot e s1 s2) =
     pieces [Some ''if{ '', fmt_op_type I ot, Some '' }: '', fmt_expr I e, Some ('' then'' @ newline),
       map_option (indent_lines J) (fmt_stmt I J s1), Some (newline @ ''else'' @ newline),
       map_option (indent_lines J) (fmt_stmt I J s2)]"
| "fmt_stmt I J (SwitchS e it index_map bs def) =
     pieces [Some (''Switch ('' @ fmt_int_type it @ '': int_type) (''), fmt_expr I e,
       Some ('') ('' @ concat (map (\<lambda>(k, v). ''<[ '' @ show_nat k @ ''%Z := '' @ show_nat v @ ''%nat ]> $ '') index_map)
         @ u_empty @ '') (['' ),
       joined ''; '' (map (fmt_stmt I J) bs), Some '']) ('', fmt_stmt I J def, Some '')'']"
| "fmt_stmt I J (PrimS ps s) = pieces [joined [] (map (fmt_prim_stmt I) ps), fmt_stmt I J s]"
| "fmt_stmt I J StuckS = Some ''StuckS''"

section \<open>Code of a function\<close>

record stack_map =
  sm_args :: "code_variable list"
  sm_used_names :: "string set"

definition stack_map_new :: stack_map where
  "stack_map_new = \<lparr>sm_args = [], sm_used_names = {}\<rparr>"

definition insert_arg :: "string \<Rightarrow> syn_type \<Rightarrow> stack_map \<Rightarrow> bool \<times> stack_map" where
  "insert_arg name st m =
     (if name \<in> sm_used_names m then (False, m)
      else (True, m\<lparr>sm_used_names := insert name (sm_used_names m), sm_args := sm_args m @ [Variable name st]\<rparr>))"

record function_code_def =
  stack_layout :: stack_map
  code_blocks :: "(nat, stmt) btmap"

definition function_code_def_new :: function_code_def where
  "function_code_def_new = \<lparr>stack_layout = stack_map_new, code_blocks = []\<rparr>"

text \<open>The answer of \<open>insert_arg\<close> is dropped.\<close>

definition add_argument :: "string \<Rightarrow> syn_type \<Rightarrow> function_code_def \<Rightarrow> function_code_def" where
  "add_argument name st c = c\<lparr>stack_layout := snd (insert_arg name st (stack_layout c))\<rparr>"

definition add_basic_block :: "nat \<Rightarrow> stmt \<Rightarrow> function_code_def \<Rightarrow> function_code_def" where
  "add_basic_block index bb c = c\<lparr>code_blocks := bm_insert index bb (code_blocks c)\<rparr>"

fun fmt_variable :: "indenter \<Rightarrow> code_variable \<Rightarrow> string option" where
  "fmt_variable I (Variable name ty) =
     pieces [Some (''('' @ quoted name @ '', ''), fmt_layout I (layout_of_synty ty), Some '' : layout)'']"

definition fmt_block :: "indenter \<Rightarrow> indenter \<Rightarrow> nat \<times> stmt \<Rightarrow> string option" where
  "fmt_block I J nb =
     (case nb of (name, bb) \<Rightarrow>
        pieces [Some (''<['' @ newline @ quoted (''_bb'' @ show_nat name) @ '' :='' @ newline @ '' ''),
          map_option (indent_skip_initial J) (fmt_stmt I J bb), Some (newline @ '']>%E $'')])"

definition fmt_code :: "indenter \<Rightarrow> indenter \<Rightarrow> function_code_def \<Rightarrow> string option" where
  "fmt_code I J c =
     pieces [Some (''{|'' @ newline @ '' f_args := ['' @ newline @ ''  ''),
       map_option (indent_skip_initial J) (joined ('';'' @ newline) (map (fmt_variable I) (sm_args (stack_layout c)))),
       Some (newline @ '' ];'' @ newline @ '' f_code :='' @ newline @ ''  ''),
       map_option (indent_skip_initial J) (joined newline (map (fmt_block I J) (code_blocks c))),
       Some (newline @ ''  '' @ u_empty @ '';'' @ newline @ '' f_init := '' @ quoted ''_bb0'' @ '';'' @ newline @ ''|}'')]"

datatype local_kind = KArg | KLocal | KCompilerTemp

fun mk_local_name :: "local_kind \<Rightarrow> string \<Rightarrow> string" where
  "mk_local_name KArg name = ''arg_'' @ name"
| "mk_local_name KCompilerTemp name = ''local_'' @ name"
| "mk_local_name KLocal name = ''local_'' @ name"

section \<open>When printing succeeds\<close>

text \<open>
  Of the pieces of code, only a checked operation without a checked form and the Rocq terms of
  layouts and operation types can make printing panic.
\<close>

lemma those_None: "those xs = None \<longleftrightarrow> None \<in> set xs"
  by (induction xs) (auto split: option.splits)

lemma pieces_None [simp]: "pieces ps = None \<longleftrightarrow> None \<in> set ps"
  by (simp add: pieces_def those_None)

lemma joined_None [simp]: "joined sep ps = None \<longleftrightarrow> None \<in> set ps"
  by (simp add: joined_def those_None)

definition prints_layout :: "layout \<Rightarrow> bool" where
  "prints_layout ly \<longleftrightarrow> (\<forall>I. fmt_layout I ly \<noteq> None)"

definition prints_synty :: "syn_type \<Rightarrow> bool" where
  "prints_synty st \<longleftrightarrow> (\<forall>I. fmt_syn_type I st \<noteq> None)"

definition prints_op :: "op_type \<Rightarrow> bool" where
  "prints_op ot \<longleftrightarrow> (\<forall>I. fmt_op_type I ot \<noteq> None)"

definition prints_expr :: "expr \<Rightarrow> bool" where
  "prints_expr e \<longleftrightarrow> (\<forall>I. fmt_expr I e \<noteq> None)"

definition prints_prim :: "prim_stmt \<Rightarrow> bool" where
  "prints_prim s \<longleftrightarrow> (\<forall>I. fmt_prim_stmt I s \<noteq> None)"

definition prints_stmt :: "stmt \<Rightarrow> bool" where
  "prints_stmt s \<longleftrightarrow> (\<forall>I J. fmt_stmt I J s \<noteq> None)"

lemma None_eq_commute: "None = x \<longleftrightarrow> x = None"
  by auto

lemmas prints_defs = None_eq_commute prints_layout_def prints_synty_def prints_op_def prints_expr_def prints_prim_def prints_stmt_def

lemma prints_layout_of_synty: "prints_synty st \<Longrightarrow> prints_layout (layout_of_synty st)"
  unfolding prints_layout_def prints_synty_def by (induction st) (simp_all add: None_eq_commute del: not_None_eq)

lemma prints_op_of_synty: "prints_synty st \<Longrightarrow> prints_op (op_type_of_synty st)"
proof (cases st)
  case (ArraySynType st' n)
  moreover assume "prints_synty st"
  ultimately show ?thesis
    using prints_layout_of_synty [of st] by (simp add: prints_defs del: layout_of_synty.simps not_None_eq)
qed (auto simp: prints_defs simp del: not_None_eq)

lemma prints_op_simps [simp]:
  "prints_op (IntOp it)" "prints_op BoolOp" "prints_op CharOp" "prints_op PtrOp" "prints_op StructOp"
  "prints_op (UntypedOp ly) \<longleftrightarrow> prints_layout ly"
  by (simp_all add: prints_defs del: not_None_eq)

definition has_checked_form :: "binop \<Rightarrow> bool" where
  "has_checked_form o' \<longleftrightarrow> o' \<in> {OpAdd, OpSub, OpMul, OpDiv, OpMod, OpShl, OpShr}"

fun prints_binop :: "binop \<Rightarrow> bool" where
  "prints_binop (PtrOffset ly) \<longleftrightarrow> prints_layout ly"
| "prints_binop (PtrNegOffset ly) \<longleftrightarrow> prints_layout ly"
| "prints_binop (PtrDiff ly) \<longleftrightarrow> prints_layout ly"
| "prints_binop _ \<longleftrightarrow> True"

lemma caesium_fmt_None:
  "caesium_fmt I ot1 ot2 o' \<noteq> None" if "prints_op ot1" "prints_op ot2" "prints_binop o'"
  using that by (cases o') (auto simp: format_prim_def format_bool_def format_ptr_def prints_defs simp del: not_None_eq)

lemma caesium_checked_fmt_None:
  "caesium_checked_fmt I ot1 ot2 o' \<noteq> None" if "prints_op ot1" "prints_op ot2" "has_checked_form o'"
  using that by (cases o') (auto simp: format_prim_def prints_defs has_checked_form_def simp del: not_None_eq)

lemma prints_expr_simps [simp]:
  "prints_expr (VarE x)" "prints_expr (MetaParamE x)" "prints_expr (LiteralE lit)"
  "prints_expr (FieldOfE e sls name) \<longleftrightarrow> prints_expr e"
  "prints_expr (AnnotE a why e) \<longleftrightarrow> prints_expr e"
  "prints_expr (BorrowE l bk ty e) \<longleftrightarrow> prints_expr e"
  "prints_expr (AddressOfE mt e) \<longleftrightarrow> prints_expr e"
  "prints_expr (EnumDiscriminantE els e) \<longleftrightarrow> prints_expr e"
  "prints_expr (EnumDataE els variant e) \<longleftrightarrow> prints_expr e"
  "prints_expr (EnumInitE app variant def e) \<longleftrightarrow> prints_expr e"
  by (simp_all add: prints_defs del: not_None_eq)

lemma prints_expr_intros:
  "\<lbrakk>prints_op ot; prints_expr e\<rbrakk> \<Longrightarrow> prints_expr (DerefE ot e)"
  "\<lbrakk>prints_op ot; prints_expr e\<rbrakk> \<Longrightarrow> prints_expr (MoveE ot e)"
  "\<lbrakk>prints_op ot; prints_expr e\<rbrakk> \<Longrightarrow> prints_expr (CopyE ot e)"
  "\<lbrakk>prints_synty tst; prints_synty ast; prints_expr e\<rbrakk> \<Longrightarrow> prints_expr (MagicBoxDerefE tst ast e)"
  "\<lbrakk>prints_expr f; \<forall>a \<in> set as. prints_expr a\<rbrakk> \<Longrightarrow> prints_expr (CallE f ls tys as)"
  "\<forall>c \<in> set cs. prints_expr (snd c) \<Longrightarrow> prints_expr (StructInitE sls cs)"
  by (auto simp: prints_defs simp del: not_None_eq)

lemma prints_unop:
  "\<lbrakk>case o' of CastOp ot' \<Rightarrow> prints_op ot' | _ \<Rightarrow> True; prints_op ot; prints_expr e\<rbrakk> \<Longrightarrow> prints_expr (UnOpE o' ot e)"
  by (cases o') (auto simp: prints_defs simp del: not_None_eq)

lemma prints_binop_expr:
  "\<lbrakk>prints_binop o'; prints_op ot1; prints_op ot2; prints_expr e1; prints_expr e2\<rbrakk> \<Longrightarrow> prints_expr (BinOpE o' ot1 ot2 e1 e2)"
  using caesium_fmt_None by (simp add: prints_defs del: not_None_eq)

lemma prints_checked_expr:
  "\<lbrakk>has_checked_form o'; prints_op ot1; prints_op ot2; prints_expr e1; prints_expr e2\<rbrakk>
   \<Longrightarrow> prints_expr (CheckBinOpE o' ot1 ot2 e1 e2)"
  using caesium_checked_fmt_None by (simp add: prints_defs del: not_None_eq)

lemma prints_prim_simps [simp]:
  "prints_prim (ExprS e) \<longleftrightarrow> prints_expr e" "prints_prim (AssertS e) \<longleftrightarrow> prints_expr e"
  "prints_prim (LocalDeadS x)" "prints_prim (AnnotS as why)"
  "prints_prim (LocalLiveS (Variable x st)) \<longleftrightarrow> prints_synty st"
  by (simp_all add: prints_defs del: not_None_eq)

lemma prints_assign: "\<lbrakk>prints_op ot; prints_expr e1; prints_expr e2\<rbrakk> \<Longrightarrow> prints_prim (AssignS ot e1 e2)"
  by (auto simp: prints_defs simp del: not_None_eq)

lemma prints_stmt_simps [simp]:
  "prints_stmt (GotoBlockS b)" "prints_stmt StuckS"
  "prints_stmt (ReturnS e) \<longleftrightarrow> prints_expr e"
  by (simp_all add: prints_defs del: not_None_eq)

lemma prints_stmt_intros:
  "\<lbrakk>\<forall>p \<in> set ps. prints_prim p; prints_stmt s\<rbrakk> \<Longrightarrow> prints_stmt (PrimS ps s)"
  "\<lbrakk>prints_op ot; prints_expr e; prints_stmt s1; prints_stmt s2\<rbrakk> \<Longrightarrow> prints_stmt (IfS ot e s1 s2)"
  "\<lbrakk>prints_expr e; \<forall>b \<in> set bs. prints_stmt b; prints_stmt d\<rbrakk> \<Longrightarrow> prints_stmt (SwitchS e it m bs d)"
  by (auto simp: prints_defs simp del: not_None_eq)

end
