(* ===== verification/LoopSpec.thy ===== *)
theory LoopSpec
  imports ItemAttributes CaesiumSyntax "HOL-Library.Multiset"
begin

text \<open>
  Loop specifications: \<open>translation/src/spec_parsers/loop_attr_parser.rs\<close>. The attributes are read by a
  pass as for the other items; then the locals are sorted into those the invariant talks about, those
  whose type is preserved, and uninitialized temporaries, and the invariant is assembled. The type of a
  local enters through its refinement type, the specification of an iterator through its attribute term
  and the name of its trait; both are computed by \<open>radium\<close> and the compiler.
\<close>

section \<open>Inputs\<close>

record local_var =
  lv_local :: nat
  lv_name :: string
  lv_kind :: local_kind
  lv_initialized :: bool
  lv_rfn_type :: coq_type

record iterator_info =
  ii_variable :: nat
  ii_binder_name :: string
  ii_history_name :: string
  ii_attr_term :: string
  ii_trait_name :: string

definition make_spec_attr_name :: "iterator_info \<Rightarrow> string \<Rightarrow> string" where
  "make_spec_attr_name info attr = ii_trait_name info @ ''_'' @ attr"

text \<open>Names for the parts of the iterator, before those of the scope.\<close>

definition iterator_literal :: "iterator_info \<Rightarrow> string \<Rightarrow> string option" where
  "iterator_literal info x =
     (if x = ''Iter'' then Some (ii_binder_name info)
      else if x = ''Hist'' then Some (ii_history_name info)
      else if x = ''IterAttrs'' then Some (''('' @ ii_attr_term info @ '')'')
      else if x = ''IterNext'' then Some (''('' @ ii_attr_term info @ '').('' @ make_spec_attr_name info ''Next'' @ '')'')
      else if x = ''IterInv'' then Some (''('' @ ii_attr_term info @ '').('' @ make_spec_attr_name info ''Inv'' @ '')'')
      else None)"

text \<open>\<open>LoopMetaInfo\<close>: literals of the iterator; its \<open>lookup_place\<close> is the default of the trait, no place.\<close>

definition loop_scope :: "iterator_info option \<Rightarrow> scope \<Rightarrow> scope" where
  "loop_scope iterator sc =
     sc\<lparr>lookup_literal := (\<lambda>path.
       case (iterator, path) of
         (Some info, [AssocItem x]) \<Rightarrow>
           (case iterator_literal info x of Some t \<Rightarrow> Some t | None \<Rightarrow> lookup_literal sc path)
       | _ \<Rightarrow> lookup_literal sc path),
     lookup_place := (\<lambda>_ _. None)\<rparr>"

section \<open>Reading the attributes\<close>

record loop_attrs =
  la_invariant :: "iprop list"
  la_inv_vars :: "inv_var list"
  la_inv_var_set :: "string set"
  la_existentials :: "coq_binder list"
  la_params :: "coq_binder list"

definition loop_attrs_init :: loop_attrs where
  "loop_attrs_init = \<lparr>la_invariant = [], la_inv_vars = [], la_inv_var_set = {}, la_existentials = [], la_params = []\<rparr>"

definition add_inv_var :: "inv_var \<Rightarrow> loop_attrs \<Rightarrow> loop_attrs" where
  "add_inv_var v s = s\<lparr>la_inv_var_set := insert (iv_local v) (la_inv_var_set s), la_inv_vars := la_inv_vars s @ [v]\<rparr>"

definition parse_loop_attr :: "parse_env \<Rightarrow> string \<Rightarrow> attr_item \<Rightarrow> loop_attrs \<Rightarrow> loop_attrs spec_result" where
  "parse_loop_attr M seg it s =
     (if seg = ''params'' then
        and_then (parse_attr (parse_params M) it) (\<lambda>ps. Ok (s\<lparr>la_params := la_params s @ ps\<rparr>))
      else if seg = ''exists'' then
        and_then (parse_attr (parse_params M) it) (\<lambda>ps. Ok (s\<lparr>la_existentials := la_existentials s @ ps\<rparr>))
      else if seg = ''inv'' \<or> seg = ''invariant'' then
        and_then (parse_attr (parse_loop_iprop M) it) (\<lambda>clause.
        and_then (or_panic (iprop_of_meta clause)) (\<lambda>p. Ok (s\<lparr>la_invariant := la_invariant s @ [p]\<rparr>)))
      else if seg = ''inv_var'' then and_then (parse_attr (parse_inv_var M) it) (\<lambda>v. Ok (add_inv_var v s))
      else if seg = ''inv_vars'' then
        and_then (parse_attr (parse_list (parse_inv_var M) PComma) it) (\<lambda>vs. Ok (fold add_inv_var vs s))
      else if seg = ''ignore'' then Ok s
      else Err (UnknownAttribute ''loop'' (at_args it)))"

section \<open>Sorting the locals\<close>

text \<open>The variables of the pass over the locals.\<close>

record sorted_locals =
  sl_inv :: "string list"
  sl_uninit :: "string list"
  sl_preserved :: "string list"
  sl_binder_names :: "(string, string) btmap"
  sl_binders :: "coq_binder list"
  sl_iterator_var :: "(string \<times> coq_type) option"

definition sorted_locals_init :: sorted_locals where
  "sorted_locals_init =
     \<lparr>sl_inv = [], sl_uninit = [], sl_preserved = [], sl_binder_names = [], sl_binders = [], sl_iterator_var = None\<rparr>"

definition is_iterator_var :: "iterator_info option \<Rightarrow> local_var \<Rightarrow> bool" where
  "is_iterator_var iterator l = (case iterator of Some info \<Rightarrow> ii_variable info = lv_local l | None \<Rightarrow> False)"

definition bind_local :: "local_var \<Rightarrow> sorted_locals \<Rightarrow> sorted_locals" where
  "bind_local l s =
     s\<lparr>sl_inv := sl_inv s @ [lv_name l],
       sl_binder_names := bm_insert (lv_name l) (''_var_'' @ lv_name l) (sl_binder_names s),
       sl_binders := sl_binders s @ [binder_new (Some (''_var_'' @ lv_name l)) (TPlaceRfn (lv_rfn_type l))]\<rparr>"

definition sort_local :: "iterator_info option \<Rightarrow> string set \<Rightarrow> local_var \<Rightarrow> sorted_locals \<Rightarrow> sorted_locals" where
  "sort_local iterator inv_var_set l s =
     (if lv_kind l = KCompilerTemp \<and> \<not> lv_initialized l then s\<lparr>sl_uninit := sl_uninit s @ [lv_name l]\<rparr>
      else if lv_initialized l \<and> lv_name l \<in> inv_var_set then bind_local l s
      else if lv_initialized l \<and> is_iterator_var iterator l then
        (bind_local l s)\<lparr>sl_iterator_var := Some (lv_name l, TPlaceRfn (lv_rfn_type l))\<rparr>
      else s\<lparr>sl_preserved := sl_preserved s @ [lv_name l]\<rparr>)"

section \<open>Assembling the invariant\<close>

text \<open>\<open>Vec::insert\<close>, which panics past the end.\<close>

definition insert_at :: "nat \<Rightarrow> 'a \<Rightarrow> 'a list \<Rightarrow> 'a list option" where
  "insert_at i x xs = (if i \<le> length xs then Some (take i xs @ x # drop i xs) else None)"

definition pure_lit :: "string \<Rightarrow> iprop" where
  "pure_lit s = IpPure (TmLiteral s)"

text \<open>A clause of the invariant for each variable, and an existential where none is named.\<close>

definition constrain_var ::
  "(string, string) btmap \<Rightarrow> inv_var \<Rightarrow> iprop list \<times> coq_binder list \<Rightarrow> (iprop list \<times> coq_binder list) spec_result" where
  "constrain_var names v s =
     (case s of (props, existentials) \<Rightarrow>
        case bm_get names (iv_local v) of
          Some binder_name \<Rightarrow>
            (case iv_rfn v of
               Some rfn \<Rightarrow> Ok (props @ [pure_lit (binder_name @ '' = '' @ rfn)], existentials)
             | None \<Rightarrow> Ok (props @ [pure_lit (binder_name @ '' = ($# '' @ iv_local v @ '')'')],
                         existentials @ [binder_new (Some (iv_local v)) TInfer]))
        | None \<Rightarrow> Err (Message (''Cannot specify loop invariant on potentially uninitialized variable '' @ iv_local v)))"

record loop_parts =
  lp_props :: "iprop list"
  lp_existentials :: "coq_binder list"
  lp_params :: "coq_binder list"
  lp_binders :: "coq_binder list"
  lp_param_pos :: nat
  lp_iterator :: "string option"

text \<open>What a \<open>for\<close> loop adds: the value the iterator starts from, its history and its invariant.\<close>

definition add_iterator ::
  "iterator_info \<Rightarrow> string \<Rightarrow> coq_type \<Rightarrow> string \<Rightarrow> loop_parts \<Rightarrow> loop_parts" where
  "add_iterator info name rfn_ty binder_name p =
     (let ex_name = ii_binder_name info;
          init_value_binder = ''_init_'' @ name;
          iterator_param_name = ''_iterator_param''
      in p\<lparr>lp_props := lp_props p @
             [pure_lit (binder_name @ '' = ($# '' @ ex_name @ '')''),
              IpAtom (''IteratorNextFusedTrans ('' @ ii_attr_term info @ '') '' @ u_pi @ '' '' @ iterator_param_name @ '' ''
                @ init_value_binder @ '' '' @ ii_history_name info @ '' '' @ ii_binder_name info),
              IpAtom (''('' @ ii_attr_term info @ '').('' @ make_spec_attr_name info ''Inv'' @ '') '' @ u_pi @ '' ''
                @ iterator_param_name @ '' '' @ ii_binder_name info)],
           lp_existentials := lp_existentials p @
             [binder_new (Some ex_name) TInfer, binder_new (Some (ii_history_name info)) TInfer],
           lp_params := lp_params p @ [binder_new (Some iterator_param_name) TInfer],
           lp_binders := binder_new (Some init_value_binder) (TRtXt rfn_ty) # lp_binders p,
           lp_param_pos := 1,
           lp_iterator := Some name\<rparr>)"

definition add_iterator_parts :: "iterator_info option \<Rightarrow> sorted_locals \<Rightarrow> loop_parts \<Rightarrow> loop_parts" where
  "add_iterator_parts iterator sl p =
     (case (iterator, sl_iterator_var sl) of
        (Some info, Some (name, rfn_ty)) \<Rightarrow>
          (case bm_get (sl_binder_names sl) name of
             Some binder_name \<Rightarrow> add_iterator info name rfn_ty binder_name p
           | None \<Rightarrow> p)
      | _ \<Rightarrow> p)"

record loop_spec =
  ls_predicate :: coq_term
  ls_inv_locals :: "string list"
  ls_preserved_locals :: "string list"
  ls_uninit_locals :: "string list"
  ls_iterator_local :: "string option"

definition loop_predicate :: "indenter \<Rightarrow> loop_parts \<Rightarrow> iprop list \<Rightarrow> coq_term option" where
  "loop_predicate I p invariant =
     Option.bind (uncurry I (lp_params p)) (\<lambda>(param_pat, param_ty).
     Option.bind (insert_at (lp_param_pos p) (binder_new (Some ''_params'') param_ty) (lp_binders p)) (\<lambda>binders.
       Some (TmLambda binders
         (TmLetIn (CHR 0x27 # param_pat) (TmIdent ''_params'')
           (TmAsType (TmIProp (IpExists (lp_existentials p) (IpSep (lp_props p @ invariant)))) TIProp)))))"

definition parse_loop_attrs ::
  "indenter \<Rightarrow> parse_env \<Rightarrow> iterator_info option \<Rightarrow> local_var list \<Rightarrow> attr_item list \<Rightarrow> loop_spec spec_result" where
  "parse_loop_attrs I M iterator locals attrs =
     and_then (for_attrs (parse_loop_attr (M\<lparr>pe_scope := loop_scope iterator (pe_scope M)\<rparr>)) attrs loop_attrs_init) (\<lambda>a.
     let sl = fold (sort_local iterator (la_inv_var_set a)) locals sorted_locals_init in
     and_then (for_each (constrain_var (sl_binder_names sl)) (la_inv_vars a) ([], la_existentials a)) (\<lambda>(props, existentials).
     let p = add_iterator_parts iterator sl
               \<lparr>lp_props = props, lp_existentials = existentials, lp_params = la_params a, lp_binders = sl_binders sl,
                lp_param_pos = 0, lp_iterator = None\<rparr> in
     and_then (or_panic (loop_predicate I p (la_invariant a))) (\<lambda>pred.
       Ok \<lparr>ls_predicate = pred, ls_inv_locals = sl_inv sl, ls_preserved_locals = sl_preserved sl,
           ls_uninit_locals = sl_uninit sl, ls_iterator_local = lp_iterator p\<rparr>)))"

section \<open>Laws\<close>

text \<open>The class a local falls into.\<close>

definition in_invariant :: "iterator_info option \<Rightarrow> string set \<Rightarrow> local_var \<Rightarrow> bool" where
  "in_invariant iterator vs l \<longleftrightarrow> lv_initialized l \<and> (lv_name l \<in> vs \<or> is_iterator_var iterator l)"

definition uninit_temp :: "local_var \<Rightarrow> bool" where
  "uninit_temp l \<longleftrightarrow> lv_kind l = KCompilerTemp \<and> \<not> lv_initialized l"

definition local_binder :: "local_var \<Rightarrow> coq_binder" where
  "local_binder l = binder_new (Some (''_var_'' @ lv_name l)) (TPlaceRfn (lv_rfn_type l))"

text \<open>What the pass has computed after the locals \<open>ls\<close>.\<close>

definition sorted_ok :: "iterator_info option \<Rightarrow> string set \<Rightarrow> local_var list \<Rightarrow> sorted_locals \<Rightarrow> bool" where
  "sorted_ok iterator vs ls t \<longleftrightarrow>
     sl_inv t = map lv_name (filter (in_invariant iterator vs) ls)
   \<and> sl_uninit t = map lv_name (filter uninit_temp ls)
   \<and> sl_preserved t = map lv_name (filter (\<lambda>l. \<not> in_invariant iterator vs l \<and> \<not> uninit_temp l) ls)
   \<and> sl_binders t = map local_binder (filter (in_invariant iterator vs) ls)
   \<and> bm_ok (sl_binder_names t) \<and> set (bm_keys (sl_binder_names t)) = set (sl_inv t)
   \<and> (\<forall>n b. bm_get (sl_binder_names t) n = Some b \<longrightarrow> b = ''_var_'' @ n)
   \<and> (\<forall>n ty. sl_iterator_var t = Some (n, ty) \<longrightarrow> n \<in> set (sl_inv t) \<and>
        (\<exists>l \<in> set ls. is_iterator_var iterator l \<and> lv_name l = n \<and> ty = TPlaceRfn (lv_rfn_type l)))"

lemma sorted_ok_init: "sorted_ok iterator vs [] sorted_locals_init"
  by (simp add: sorted_ok_def sorted_locals_init_def bm_ok_def bm_keys_def bm_get_def)

lemma sorted_ok_bind:
  assumes "sorted_ok iterator vs ls t" and "in_invariant iterator vs l"
  shows "sorted_ok iterator vs (ls @ [l]) (bind_local l t)"
  using assms unfolding sorted_ok_def
  by (auto simp: bind_local_def local_binder_def in_invariant_def uninit_temp_def bm_ok_insert set_bm_keys_insert
    bm_get_insert split: if_splits)

lemma sorted_ok_step:
  assumes "sorted_ok iterator vs ls t"
  shows "sorted_ok iterator vs (ls @ [l]) (sort_local iterator vs l t)"
proof -
  consider (uninit) "uninit_temp l" "\<not> in_invariant iterator vs l"
    | (var) "\<not> uninit_temp l" "in_invariant iterator vs l" "lv_name l \<in> vs"
    | (iterator) "\<not> uninit_temp l" "in_invariant iterator vs l" "lv_name l \<notin> vs" "is_iterator_var iterator l"
    | (preserved) "\<not> uninit_temp l" "\<not> in_invariant iterator vs l"
    by (auto simp: uninit_temp_def in_invariant_def)
  then show ?thesis
  proof cases
    case uninit
    then have "sort_local iterator vs l t = t\<lparr>sl_uninit := sl_uninit t @ [lv_name l]\<rparr>"
      by (simp add: sort_local_def uninit_temp_def)
    with assms uninit show ?thesis by (auto simp: sorted_ok_def)
  next
    case var
    then have "sort_local iterator vs l t = bind_local l t"
      by (simp add: sort_local_def uninit_temp_def in_invariant_def)
    with sorted_ok_bind [OF assms var(2)] show ?thesis by simp
  next
    case iterator
    then have step: "sort_local iterator vs l t = (bind_local l t)\<lparr>sl_iterator_var := Some (lv_name l, TPlaceRfn (lv_rfn_type l))\<rparr>"
      by (simp add: sort_local_def uninit_temp_def in_invariant_def)
    have "sorted_ok iterator vs (ls @ [l]) (bind_local l t)" using assms iterator(2) by (rule sorted_ok_bind)
    with iterator show ?thesis unfolding step sorted_ok_def by (auto simp: bind_local_def)
  next
    case preserved
    then have "sort_local iterator vs l t = t\<lparr>sl_preserved := sl_preserved t @ [lv_name l]\<rparr>"
      by (auto simp: sort_local_def uninit_temp_def in_invariant_def)
    with assms preserved show ?thesis by (auto simp: sorted_ok_def)
  qed
qed

lemma sort_locals_ok: "sorted_ok iterator vs ls (fold (sort_local iterator vs) ls sorted_locals_init)"
  by (induction ls rule: rev_induct) (simp_all add: sorted_ok_init sorted_ok_step)

text \<open>A clause is added for each variable, and each one has a binder.\<close>

lemma constrain_vars_bound:
  assumes "for_each (constrain_var names) vs s = Ok t" and "v \<in> set vs"
  shows "bm_get names (iv_local v) \<noteq> None"
  using assms
proof (induction vs arbitrary: s)
  case (Cons w vs)
  then show ?case
    by (cases "v = w") (auto simp: constrain_var_def rust_simps split: prod.splits option.splits)
qed simp

text \<open>The variables named by the attributes are those the set was built from.\<close>

definition vars_ok :: "loop_attrs \<Rightarrow> bool" where
  "vars_ok s \<longleftrightarrow> la_inv_var_set s = iv_local ` set (la_inv_vars s)"

lemma vars_ok_updates [simp]:
  "vars_ok (s\<lparr>la_params := x\<rparr>) = vars_ok s"
  "vars_ok (s\<lparr>la_existentials := x\<rparr>) = vars_ok s"
  "vars_ok (s\<lparr>la_invariant := y\<rparr>) = vars_ok s"
  "vars_ok s \<Longrightarrow> vars_ok (add_inv_var v s)"
  by (auto simp: vars_ok_def add_inv_var_def)

lemma vars_ok_fold [simp]: "vars_ok s \<Longrightarrow> vars_ok (fold add_inv_var vs s)"
  by (induction vs arbitrary: s) simp_all

lemma parse_loop_attr_vars:
  assumes "parse_loop_attr M seg it s = Ok t" and "vars_ok s"
  shows "vars_ok t"
  using assms by (auto simp: parse_loop_attr_def rust_simps split: if_splits)

lemma loop_attrs_vars:
  assumes "for_attrs (parse_loop_attr M) attrs loop_attrs_init = Ok a"
  shows "la_inv_var_set a = iv_local ` set (la_inv_vars a)"
proof -
  have "vars_ok a"
    by (rule for_attrs_invariant [OF assms])
       (auto simp: vars_ok_def loop_attrs_init_def dest: parse_loop_attr_vars [unfolded vars_ok_def])
  then show ?thesis by (simp add: vars_ok_def)
qed

section \<open>What an accepted loop specification contains\<close>

text \<open>The names of the variables a loop's attributes constrain.\<close>

definition constrained_vars :: "parse_env \<Rightarrow> iterator_info option \<Rightarrow> attr_item list \<Rightarrow> string set" where
  "constrained_vars M iterator attrs =
     (case for_attrs (parse_loop_attr (M\<lparr>pe_scope := loop_scope iterator (pe_scope M)\<rparr>)) attrs loop_attrs_init of
        Ok a \<Rightarrow> la_inv_var_set a | _ \<Rightarrow> {})"

text \<open>The binders of the invariant: the locals, the parameters, and the start of the iterator.\<close>

definition loop_binder_names :: "loop_spec \<Rightarrow> string list" where
  "loop_binder_names sp =
     (case ls_iterator_local sp of None \<Rightarrow> [] | Some n \<Rightarrow> [''_init_'' @ n]) @ ''_params'' # map (\<lambda>n. ''_var_'' @ n) (ls_inv_locals sp)"

lemma loop_predicate_binders:
  assumes "loop_predicate I p invariant = Some pred"
  obtains param_ty body where
    "pred = TmLambda (take (lp_param_pos p) (lp_binders p) @ binder_new (Some ''_params'') param_ty # drop (lp_param_pos p) (lp_binders p)) body"
  using assms by (auto simp: loop_predicate_def bind_eq_Some_conv insert_at_def split: if_splits prod.splits)

lemma parse_loop_attrs_result:
  assumes "parse_loop_attrs I M iterator locals attrs = Ok sp"
  defines "vs \<equiv> constrained_vars M iterator attrs"
  shows "ls_inv_locals sp = map lv_name (filter (in_invariant iterator vs) locals)"
    and "ls_uninit_locals sp = map lv_name (filter uninit_temp locals)"
    and "ls_preserved_locals sp = map lv_name (filter (\<lambda>l. \<not> in_invariant iterator vs l \<and> \<not> uninit_temp l) locals)"
    and "vs \<subseteq> set (ls_inv_locals sp)"
    and "\<exists>bs body. ls_predicate sp = TmLambda bs body \<and> map get_name bs = loop_binder_names sp"
proof -
  let ?M = "M\<lparr>pe_scope := loop_scope iterator (pe_scope M)\<rparr>"
  from assms(1) obtain a props exs pred where
    a: "for_attrs (parse_loop_attr ?M) attrs loop_attrs_init = Ok a" and
    c: "for_each (constrain_var (sl_binder_names (fold (sort_local iterator (la_inv_var_set a)) locals sorted_locals_init)))
          (la_inv_vars a) ([], la_existentials a) = Ok (props, exs)"
    by (auto simp: parse_loop_attrs_def Let_def rust_simps split: prod.splits)
  define sl where "sl = fold (sort_local iterator (la_inv_var_set a)) locals sorted_locals_init"
  define p where "p = add_iterator_parts iterator sl
    \<lparr>lp_props = props, lp_existentials = exs, lp_params = la_params a, lp_binders = sl_binders sl,
     lp_param_pos = 0, lp_iterator = None\<rparr>"
  from assms(1) a c obtain pred where pred: "loop_predicate I p (la_invariant a) = Some pred"
    and sp: "sp = \<lparr>ls_predicate = pred, ls_inv_locals = sl_inv sl, ls_preserved_locals = sl_preserved sl,
           ls_uninit_locals = sl_uninit sl, ls_iterator_local = lp_iterator p\<rparr>"
    by (auto simp: parse_loop_attrs_def Let_def rust_simps sl_def p_def)
  have vs: "vs = la_inv_var_set a" by (simp add: vs_def constrained_vars_def a)
  have ok: "sorted_ok iterator vs locals sl" unfolding sl_def vs by (rule sort_locals_ok)
  then show "ls_inv_locals sp = map lv_name (filter (in_invariant iterator vs) locals)"
    "ls_uninit_locals sp = map lv_name (filter uninit_temp locals)"
    "ls_preserved_locals sp = map lv_name (filter (\<lambda>l. \<not> in_invariant iterator vs l \<and> \<not> uninit_temp l) locals)"
    by (simp_all add: sp sorted_ok_def)
  have names: "map get_name (sl_binders sl) = map (\<lambda>n. ''_var_'' @ n) (sl_inv sl)"
    using ok by (simp add: sorted_ok_def local_binder_def binder_new_def get_name_def)
  show "vs \<subseteq> set (ls_inv_locals sp)"
  proof
    fix n assume "n \<in> vs"
    then obtain v where "v \<in> set (la_inv_vars a)" "n = iv_local v" using loop_attrs_vars [OF a] by (auto simp: vs)
    with constrain_vars_bound [OF c [folded sl_def]] have "bm_get (sl_binder_names sl) n \<noteq> None" by blast
    then have "n \<in> set (bm_keys (sl_binder_names sl))" by (rule iffD1 [OF bm_get_keys])
    with ok show "n \<in> set (ls_inv_locals sp)" by (simp add: sorted_ok_def sp)
  qed
  have parts: "(lp_binders p = sl_binders sl \<and> lp_param_pos p = 0 \<and> lp_iterator p = None)
    \<or> (\<exists>n ty. lp_binders p = binder_new (Some (''_init_'' @ n)) ty # sl_binders sl \<and> lp_param_pos p = 1 \<and> lp_iterator p = Some n)"
    by (auto simp: p_def add_iterator_parts_def add_iterator_def Let_def split: option.splits prod.splits)
  obtain param_ty body where "pred = TmLambda (take (lp_param_pos p) (lp_binders p)
      @ binder_new (Some ''_params'') param_ty # drop (lp_param_pos p) (lp_binders p)) body"
    using pred by (rule loop_predicate_binders)
  moreover have "get_name (binder_new (Some x) t) = x" for x t by (simp add: binder_new_def get_name_def)
  ultimately show "\<exists>bs body. ls_predicate sp = TmLambda bs body \<and> map get_name bs = loop_binder_names sp"
    using parts names by (auto simp: sp loop_binder_names_def)
qed

section \<open>A loop over an iterator\<close>

definition sample_iterator :: iterator_info where
  "sample_iterator = \<lparr>ii_variable = 2, ii_binder_name = ''it'', ii_history_name = ''hist'', ii_attr_term = ''A'', ii_trait_name = ''Iterator''\<rparr>"

definition sample_locals :: "local_var list" where
  "sample_locals =
     [\<lparr>lv_local = 1, lv_name = ''x'', lv_kind = KLocal, lv_initialized = True, lv_rfn_type = TZ\<rparr>,
      \<lparr>lv_local = 2, lv_name = ''i'', lv_kind = KCompilerTemp, lv_initialized = True, lv_rfn_type = TZ\<rparr>,
      \<lparr>lv_local = 3, lv_name = ''t'', lv_kind = KCompilerTemp, lv_initialized = False, lv_rfn_type = TZ\<rparr>,
      \<lparr>lv_local = 4, lv_name = ''y'', lv_kind = KArg, lv_initialized = True, lv_rfn_type = TBool\<rparr>]"

lemma sorted_classes:
  "mset (filter (in_invariant iterator vs) ls) + mset (filter uninit_temp ls)
     + mset (filter (\<lambda>l. \<not> in_invariant iterator vs l \<and> \<not> uninit_temp l) ls) = mset ls"
  by (induction ls) (auto simp: in_invariant_def uninit_temp_def)

lemma sorted_classes_names:
  assumes "a = map lv_name (filter (in_invariant iterator vs) ls)" and "b = map lv_name (filter uninit_temp ls)"
    and "c = map lv_name (filter (\<lambda>l. \<not> in_invariant iterator vs l \<and> \<not> uninit_temp l) ls)"
  shows "mset a + mset b + mset c = mset (map lv_name ls)"
  unfolding assms mset_map sorted_classes [of iterator vs ls, symmetric] by simp

text \<open>
  C28. An accepted loop specification sorts the locals into three classes, each in the order of the
  locals and together all of them: the initialized ones that an attribute names or that hold the
  iterator, the uninitialized temporaries, and the rest. Every variable an attribute constrains is in
  the first class, and the invariant binds a variable for each local of that class, in the same order,
  after the parameters and the initial iterator.
\<close>

theorem parse_loop_attrs_spec:
  assumes "parse_loop_attrs I M iterator locals attrs = Ok sp"
  shows "ls_inv_locals sp = map lv_name (filter (in_invariant iterator (constrained_vars M iterator attrs)) locals)
    \<and> ls_uninit_locals sp = map lv_name (filter uninit_temp locals)
    \<and> mset (ls_inv_locals sp) + mset (ls_uninit_locals sp) + mset (ls_preserved_locals sp) = mset (map lv_name locals)
    \<and> constrained_vars M iterator attrs \<subseteq> set (ls_inv_locals sp)
    \<and> (\<exists>bs body. ls_predicate sp = TmLambda bs body \<and> map get_name bs = loop_binder_names sp)"
  using parse_loop_attrs_result [OF assms]
    sorted_classes_names [OF parse_loop_attrs_result(1-3) [OF assms]] by blast

theorem parse_loop_attrs_spec_witness:
  "case parse_loop_attrs plain_indenter plain_env (Some sample_iterator) sample_locals [tool_item ''inv_var'' [lit_tree ''x'']] of
     Ok sp \<Rightarrow> ls_inv_locals sp = [''x'', ''i''] \<and> ls_uninit_locals sp = [''t''] \<and> ls_preserved_locals sp = [''y'']
       \<and> loop_binder_names sp = [''_init_i'', ''_params'', ''_var_x'', ''_var_i'']
       \<and> (\<exists>bs body. ls_predicate sp = TmLambda bs body \<and> map get_name bs = loop_binder_names sp)
   | _ \<Rightarrow> False"
proof -
  let ?run = "parse_loop_attrs plain_indenter plain_env (Some sample_iterator) sample_locals [tool_item ''inv_var'' [lit_tree ''x'']]"
  have vals: "case ?run of Ok sp \<Rightarrow> ls_inv_locals sp = [''x'', ''i''] \<and> ls_uninit_locals sp = [''t''] \<and> ls_preserved_locals sp = [''y'']
       \<and> loop_binder_names sp = [''_init_i'', ''_params'', ''_var_x'', ''_var_i''] | _ \<Rightarrow> False"
    by code_simp
  then obtain sp where sp: "?run = Ok sp" by (cases ?run) auto
  with vals parse_loop_attrs_spec [OF sp] show ?thesis by simp
qed

end
