(* ===== verification/FunctionSpec.thy ===== *)
theory FunctionSpec
  imports ItemAttributes
begin

text \<open>
  Function specifications: the builder \<open>LiteralSpecBuilder\<close> of \<open>radium/src/specs/functions.rs\<close> and the
  parser of function attributes of \<open>translation/src/spec_parsers/verbose_function_spec_parser.rs\<close>.
  Types of the translation are opaque: what the code asks of them is the record \<open>type_env\<close>. A trait
  requirement is identified by its address, as in the code; where it comes from and what it becomes
  are the parameters of the record \<open>trait_env\<close>.
\<close>

section \<open>The builder\<close>

text \<open>\<open>TypeWithRef\<close>: a type with the text of its refinement.\<close>

type_synonym 'ty type_with_ref = "'ty \<times> string"

record ('ty, 'd) builder =
  lb_params :: "coq_binder list"
  lb_extra_elctx :: "string list"
  lb_pre :: iprop
  lb_args :: "'ty type_with_ref list"
  lb_existential :: "coq_binder list"
  lb_ret :: "'ty type_with_ref option"
  lb_post :: iprop
  lb_coq_names :: "string set"
  lb_trait_attrs :: "'d list"
  lb_has_spec :: bool

definition builder_new :: "('ty, 'd) builder" where
  "builder_new =
     \<lparr>lb_params = [], lb_extra_elctx = [], lb_pre = IpSep [], lb_args = [], lb_existential = [], lb_ret = None,
      lb_post = IpSep [], lb_coq_names = {}, lb_trait_attrs = [], lb_has_spec = False\<rparr>"

definition push_coq_name :: "string option \<Rightarrow> ('ty, 'd) builder \<Rightarrow> ('ty, 'd) builder" where
  "push_coq_name name b = (case name of Some n \<Rightarrow> b\<lparr>lb_coq_names := insert n (lb_coq_names b)\<rparr> | None \<Rightarrow> b)"

definition ensure_coq_not_bound :: "string option \<Rightarrow> ('ty, 'd) builder \<Rightarrow> unit spec_result" where
  "ensure_coq_not_bound name b =
     (case name of
        Some n \<Rightarrow> if n \<in> lb_coq_names b then Err (Message (''Coq name is already bound: '' @ n)) else Ok ()
      | None \<Rightarrow> Ok ())"

definition add_param :: "coq_binder \<Rightarrow> ('ty, 'd) builder \<Rightarrow> ('ty, 'd) builder spec_result" where
  "add_param binding b =
     and_then (ensure_coq_not_bound (get_name_ref binding) b) (\<lambda>_.
       let b = push_coq_name (get_name_ref binding) b in Ok (b\<lparr>lb_params := lb_params b @ [binding]\<rparr>))"

definition add_literal_lifetime_constraint :: "string \<Rightarrow> ('ty, 'd) builder \<Rightarrow> ('ty, 'd) builder" where
  "add_literal_lifetime_constraint elctx b = b\<lparr>lb_extra_elctx := lb_extra_elctx b @ [elctx]\<rparr>"

definition add_arg :: "'ty type_with_ref \<Rightarrow> ('ty, 'd) builder \<Rightarrow> ('ty, 'd) builder" where
  "add_arg arg b = b\<lparr>lb_args := lb_args b @ [arg]\<rparr>"

text \<open>The conditions are separating conjunctions; anything else panics.\<close>

definition add_precondition :: "iprop \<Rightarrow> ('ty, 'd) builder \<Rightarrow> ('ty, 'd) builder spec_result" where
  "add_precondition pre b = (case lb_pre b of IpSep v \<Rightarrow> Ok (b\<lparr>lb_pre := IpSep (v @ [pre])\<rparr>) | _ \<Rightarrow> Panic)"

definition add_postcondition :: "iprop \<Rightarrow> ('ty, 'd) builder \<Rightarrow> ('ty, 'd) builder spec_result" where
  "add_postcondition post b = (case lb_post b of IpSep v \<Rightarrow> Ok (b\<lparr>lb_post := IpSep (v @ [post])\<rparr>) | _ \<Rightarrow> Panic)"

definition set_ret_type :: "'ty type_with_ref \<Rightarrow> ('ty, 'd) builder \<Rightarrow> ('ty, 'd) builder spec_result" where
  "set_ret_type ret b =
     (if lb_ret b \<noteq> None then Err (Message ''Re-definition of return type'') else Ok (b\<lparr>lb_ret := Some ret\<rparr>))"

text \<open>An existential is checked against the names, but its own name is not recorded.\<close>

definition add_existential :: "coq_binder \<Rightarrow> ('ty, 'd) builder \<Rightarrow> ('ty, 'd) builder spec_result" where
  "add_existential binding b =
     and_then (ensure_coq_not_bound (get_name_ref binding) b)
       (\<lambda>_. Ok (b\<lparr>lb_existential := lb_existential b @ [binding]\<rparr>))"

definition have_spec :: "('ty, 'd) builder \<Rightarrow> ('ty, 'd) builder" where
  "have_spec b = b\<lparr>lb_has_spec := True\<rparr>"

definition provide_specialized_trait_attrs :: "'d list \<Rightarrow> ('ty, 'd) builder \<Rightarrow> ('ty, 'd) builder" where
  "provide_specialized_trait_attrs specs b = b\<lparr>lb_trait_attrs := specs\<rparr>"

section \<open>Environment and state of the parser\<close>

record 'ty type_env =
  te_rfn_type :: "'ty \<Rightarrow> coq_type"
  te_make_raw :: "'ty \<Rightarrow> 'ty"
  te_literal :: "string \<Rightarrow> 'ty \<Rightarrow> 'ty"
  te_shr_ref :: "'ty \<Rightarrow> nat \<Rightarrow> 'ty"
  te_mut_ref :: "'ty \<Rightarrow> nat \<Rightarrow> 'ty"
  te_is_shr_ref :: "'ty \<Rightarrow> ('ty \<times> nat) option"
  te_is_mut_ref :: "'ty \<Rightarrow> ('ty \<times> nat) option"

record 'd trait_env =
  tr_origin :: "string \<Rightarrow> string \<Rightarrow> nat option"
  tr_attach :: "string \<Rightarrow> nat \<Rightarrow> (string, spec_attr_inst) btmap \<Rightarrow> 'd option"

record ('ty, 'd) fn_env =
  fe_parse :: parse_env
  fe_types :: "'ty type_env"
  fe_traits :: "'d trait_env"
  fe_indent :: indenter
  fe_name_prefix :: string
  fe_arg_types :: "'ty list"
  fe_ret_type :: 'ty
  fe_ret_is_option :: bool
  fe_ret_is_result :: bool
  fe_arg_names :: "string list option"

text \<open>\<open>FunctionRequirements\<close> with its \<open>ProofInfo\<close>, and the trait specifications by address.\<close>

record fn_requirements =
  fr_late_coq_params :: "coq_binder list"
  fr_early_coq_params :: "coq_binder list"
  fr_sidecond_tactics :: "string list"
  fr_linktime_assumptions :: "string list"
  fr_trait_specs :: "(nat, (string, spec_attr_inst) btmap) btmap"

definition fn_requirements_new :: fn_requirements where
  "fn_requirements_new =
     \<lparr>fr_late_coq_params = [], fr_early_coq_params = [], fr_sidecond_tactics = [], fr_linktime_assumptions = [],
      fr_trait_specs = []\<rparr>"

record ok_spec =
  ok_mode :: bool
  ok_exists :: "coq_binder list"
  ok_requires :: "coq_term list"
  ok_ensures :: "coq_term list"

definition ok_spec_new :: ok_spec where
  "ok_spec_new = \<lparr>ok_mode = False, ok_exists = [], ok_requires = [], ok_ensures = []\<rparr>"

record 'ty parsed_spec =
  ps_params :: "(coq_binder \<times> bool) list"
  ps_args :: "'ty type_with_ref list"
  ps_preconditions :: "meta_iprop list"
  ps_postconditions :: "meta_iprop list"
  ps_existentials :: "coq_binder list"
  ps_ret :: "'ty type_with_ref option"
  ps_lifetime_constraints :: "string list"
  ps_ok_spec :: ok_spec
  ps_got_args :: bool

definition parsed_spec_new :: "'ty parsed_spec" where
  "parsed_spec_new =
     \<lparr>ps_params = [], ps_args = [], ps_preconditions = [], ps_postconditions = [], ps_existentials = [],
      ps_ret = None, ps_lifetime_constraints = [], ps_ok_spec = ok_spec_new, ps_got_args = False\<rparr>"

section \<open>Types and terms\<close>

text \<open>The annotated type, or the translated one; the second component is a hint for the refinement.\<close>

definition make_type_with_ref :: "'ty type_env \<Rightarrow> literal_type_with_ref \<Rightarrow> 'ty \<Rightarrow> 'ty type_with_ref \<times> coq_type option" where
  "make_type_with_ref T lit ty =
     (case lt_ty lit of
        Some lit_ty \<Rightarrow> ((te_literal T lit_ty ty, ident_or_term_text (lt_rfn lit)), None)
      | None \<Rightarrow>
          (let ty = (if lt_raw lit then te_make_raw T ty else ty)
           in ((ty, ident_or_term_text (lt_rfn lit)), Some (te_rfn_type T ty))))"

text \<open>\<open>TryFrom<MetaIProp> for Term\<close>.\<close>

fun term_of_meta :: "meta_iprop \<Rightarrow> coq_term option" where
  "term_of_meta (Pure p (Some name)) = Some (TmLiteral (''name_hint '' @ dquote @ name @ dquote @ '' ('' @ p @ '')''))"
| "term_of_meta (Pure p None) = Some (TmLiteral p)"
| "term_of_meta _ = None"

text \<open>The first parameter of the name gets the type unless it has one.\<close>

fun annot_params :: "string \<Rightarrow> coq_type \<Rightarrow> (coq_binder \<times> bool) list \<Rightarrow> (coq_binder \<times> bool) list spec_result" where
  "annot_params name ty [] = Err (Message ''could not find name'')"
| "annot_params name ty ((param, b) # params) =
     (if get_name_ref param = Some name then
        (case get_type param of
           None \<Rightarrow> Panic
         | Some param_ty \<Rightarrow>
             Ok ((if param_ty = TInfer then binder_new (Some name) ty else param, b) # params))
      else and_then (annot_params name ty params) (\<lambda>params. Ok ((param, b) # params)))"

definition add_param_type_annot :: "string \<Rightarrow> coq_type \<Rightarrow> 'ty parsed_spec \<Rightarrow> 'ty parsed_spec spec_result" where
  "add_param_type_annot name ty s =
     and_then (annot_params name ty (ps_params s)) (\<lambda>params. Ok (s\<lparr>ps_params := params\<rparr>))"

section \<open>Attributes\<close>

type_synonym 'ty fn_state = "fn_requirements \<times> 'ty parsed_spec"

definition add_typed_arg ::
  "'ty type_env \<Rightarrow> literal_type_with_ref \<times> 'ty \<Rightarrow> 'ty parsed_spec \<Rightarrow> 'ty parsed_spec spec_result" where
  "add_typed_arg T x s =
     (case make_type_with_ref T (fst x) (snd x) of
        (ty, hint) \<Rightarrow>
          let s = s\<lparr>ps_args := ps_args s @ [ty]\<rparr> in
          (case (hint, lt_rfn (fst x)) of
             (Some cty, IsIdent i) \<Rightarrow> add_param_type_annot i cty s
           | _ \<Rightarrow> Ok s))"

definition handle_args :: "('ty, 'd) fn_env \<Rightarrow> attr_item \<Rightarrow> 'ty parsed_spec \<Rightarrow> 'ty parsed_spec spec_result" where
  "handle_args E it s =
     and_then (parse_attr (parse_args (fe_parse E)) it) (\<lambda>args.
       if length (fe_arg_types E) \<noteq> length args then
         Err (Message (''wrong number of function arguments given: expected '' @ show_nat (length (fe_arg_types E)) @ '' args''))
       else for_each (add_typed_arg (fe_types E)) (zip args (fe_arg_types E)) (s\<lparr>ps_got_args := True\<rparr>))"

definition specialize_trait ::
  "('ty, 'd) fn_env \<Rightarrow> string \<Rightarrow> string \<Rightarrow> string \<Rightarrow> fn_requirements \<Rightarrow> fn_requirements spec_result" where
  "specialize_trait E for_ty attr t r =
     (case tr_origin (fe_traits E) for_ty attr of
        None \<Rightarrow> Err (Message ''could not find trait requirement to attach trait specialization to'')
      | Some req \<Rightarrow>
          let entries = (case bm_get (fr_trait_specs r) req of Some m \<Rightarrow> m | None \<Rightarrow> []) in
          if bm_get entries attr \<noteq> None then
            Err (Message (''multiple specializations for '' @ attr @ '' were specified''))
          else Ok (r\<lparr>fr_trait_specs := bm_insert req (bm_insert attr (AttrTerm (TmLiteral t)) entries) (fr_trait_specs r)\<rparr>))"

definition handle_requires ::
  "('ty, 'd) fn_env \<Rightarrow> bool \<Rightarrow> meta_iprop \<Rightarrow> 'ty fn_state \<Rightarrow> 'ty fn_state spec_result" where
  "handle_requires E in_closure p st =
     (case st of (r, s) \<Rightarrow>
        case p of
          Linktime assum \<Rightarrow>
            if in_closure then Err (Message ''linktime assumptions are not allowed on closures'')
            else Ok (r\<lparr>fr_linktime_assumptions := fr_linktime_assumptions r @ [assum]\<rparr>, s)
        | TraitAttr for_ty attr t \<Rightarrow>
            if in_closure then Err (Message ''assumptions on trait attributes are not allowed on closures'')
            else and_then (specialize_trait E for_ty attr t r) (\<lambda>r. Ok (r, s))
        | _ \<Rightarrow>
            if ok_mode (ps_ok_spec s) then
              (case term_of_meta p of
                 Some t \<Rightarrow> Ok (r, s\<lparr>ps_ok_spec := (ps_ok_spec s)\<lparr>ok_requires := ok_requires (ps_ok_spec s) @ [t]\<rparr>\<rparr>)
               | None \<Rightarrow> Err (Message ''non-pure requires clause after rr::ok''))
            else Ok (r, s\<lparr>ps_preconditions := ps_preconditions s @ [p]\<rparr>))"

definition handle_ensures :: "meta_iprop \<Rightarrow> 'ty parsed_spec \<Rightarrow> 'ty parsed_spec spec_result" where
  "handle_ensures p s =
     (if ok_mode (ps_ok_spec s) then
        (case term_of_meta p of
           Some t \<Rightarrow> Ok (s\<lparr>ps_ok_spec := (ps_ok_spec s)\<lparr>ok_ensures := ok_ensures (ps_ok_spec s) @ [t]\<rparr>\<rparr>)
         | None \<Rightarrow> Err (Message ''non-pure ensures clause after rr::ok''))
      else Ok (s\<lparr>ps_postconditions := ps_postconditions s @ [p]\<rparr>))"

definition parse_observe :: "parse_env \<Rightarrow> meta_iprop parser" where
  "parse_observe M =
     parse_then parse_lit_str (\<lambda>gname.
     parse_then (parse_punct PColon) (\<lambda>_.
     parse_map (\<lambda>(t, _). Observe (lit_str_value gname) None t) (parse_literal M)))"

definition handle_exists :: "coq_binder list \<Rightarrow> 'ty parsed_spec \<Rightarrow> 'ty parsed_spec" where
  "handle_exists ps s =
     (if ok_mode (ps_ok_spec s) then s\<lparr>ps_ok_spec := (ps_ok_spec s)\<lparr>ok_exists := ok_exists (ps_ok_spec s) @ ps\<rparr>\<rparr>
      else s\<lparr>ps_existentials := ps_existentials s @ ps\<rparr>)"

definition handle_context :: "context_item \<Rightarrow> fn_requirements \<Rightarrow> fn_requirements" where
  "handle_context item r =
     (if ci_at_end item then r\<lparr>fr_late_coq_params := fr_late_coq_params r @ [context_item_binder item]\<rparr>
      else r\<lparr>fr_early_coq_params := fr_early_coq_params r @ [context_item_binder item]\<rparr>)"

text \<open>The attributes functions and closures share; \<open>None\<close> tells that the name is not one of them.\<close>

definition handle_common_attributes ::
  "('ty, 'd) fn_env \<Rightarrow> bool \<Rightarrow> string \<Rightarrow> attr_item \<Rightarrow> 'ty fn_state \<Rightarrow> 'ty fn_state option spec_result" where
  "handle_common_attributes E in_closure name it st =
     (case st of (r, s) \<Rightarrow>
      let M = fe_parse E; spec = (\<lambda>s. Ok (Some (r, s))) in
      if name = ''ok'' then spec (s\<lparr>ps_ok_spec := (ps_ok_spec s)\<lparr>ok_mode := True\<rparr>\<rparr>)
      else if name = ''params'' then
        and_then (parse_attr (parse_params M) it) (\<lambda>ps. spec (s\<lparr>ps_params := ps_params s @ map (\<lambda>p. (p, True)) ps\<rparr>))
      else if name = ''param'' then
        and_then (parse_attr (parse_param M) it) (\<lambda>p. spec (s\<lparr>ps_params := ps_params s @ [(p, True)]\<rparr>))
      else if name = ''args'' then and_then (handle_args E it s) spec
      else if name = ''requires'' then
        and_then (parse_attr (parse_fn_iprop M) it) (\<lambda>p.
        and_then (handle_requires E in_closure p (r, s)) (\<lambda>st. Ok (Some st)))
      else if name = ''ensures'' then
        and_then (parse_attr (parse_fn_iprop M) it) (\<lambda>p. and_then (handle_ensures p s) spec)
      else if name = ''observe'' then
        and_then (parse_attr (parse_observe M) it) (\<lambda>m. spec (s\<lparr>ps_postconditions := ps_postconditions s @ [m]\<rparr>))
      else if name = ''returns'' then
        and_then (parse_attr (parse_literal_type_with_ref M) it) (\<lambda>tr.
          spec (s\<lparr>ps_ret := Some (fst (make_type_with_ref (fe_types E) tr (fe_ret_type E)))\<rparr>))
      else if name = ''exists'' then and_then (parse_attr (parse_params M) it) (\<lambda>ps. spec (handle_exists ps s))
      else if name = ''tactics'' then
        and_then (parse_attr parse_lit_str it) (\<lambda>tacs.
          Ok (Some (r\<lparr>fr_sidecond_tactics := fr_sidecond_tactics r @ [lit_str_value tacs]\<rparr>, s)))
      else if name = ''unsafe_elctx'' then
        and_then (parse_attr (parse_literal M) it) (\<lambda>(t, _).
          spec (s\<lparr>ps_lifetime_constraints := ps_lifetime_constraints s @ [t]\<rparr>))
      else if name = ''context'' then
        and_then (parse_attr (parse_context_item M) it) (\<lambda>item. Ok (Some (handle_context item r, s)))
      else if name = ''verify'' then Ok (Some st)
      else Ok None)"

section \<open>Fallible specifications\<close>

definition ok_condition_text :: "indenter \<Rightarrow> string \<Rightarrow> string \<Rightarrow> coq_term \<Rightarrow> string option" where
  "ok_condition_text I test ret_name cond = fmt_term I (TmApp (TmLiteral (test @ '' '' @ ret_name)) [cond])"

definition assemble_fallible_spec ::
  "indenter \<Rightarrow> string \<Rightarrow> bool \<Rightarrow> bool \<Rightarrow> 'ty parsed_spec \<Rightarrow> 'ty parsed_spec spec_result" where
  "assemble_fallible_spec I ret_name ret_is_option ret_is_result s0 =
     (let ok = ps_ok_spec s0; s = s0\<lparr>ps_ok_spec := ok_spec_new\<rparr> in
      if \<not> ok_mode ok then Ok s
      else if \<not> (ret_is_option \<or> ret_is_result) then
        Err (Message ''specified rr::ok but the return type is neither an Option nor a Result'')
      else
        let conjoined_postconds = TmExists (ok_exists ok) (TmInfix u_and (ok_ensures ok));
            lambda_binders = [binder_new (Some ret_name) TInfer];
            ok_condition = TmLambda lambda_binders (TmInfix u_and (ok_requires ok @ [conjoined_postconds]));
            err_condition = TmPrefix u_not (TmInfix u_and (ok_requires ok));
            add = (\<lambda>test cond s.
              and_then (or_panic (ok_condition_text I test ret_name cond))
                (\<lambda>t. Ok (s\<lparr>ps_postconditions := ps_postconditions s @ [Pure t None]\<rparr>)))
        in if ret_is_result then
             and_then (add ''if_Ok'' ok_condition s) (add ''if_Err'' (TmLambda lambda_binders err_condition))
           else and_then (add ''if_Some'' ok_condition s) (add ''if_None'' err_condition))"

section \<open>Default specification\<close>

definition add_default_args :: "('ty, 'd) fn_env \<Rightarrow> 'ty parsed_spec \<Rightarrow> 'ty parsed_spec" where
  "add_default_args E s =
     (case (ps_got_args s, fe_arg_names E) of
        (False, Some arg_names) \<Rightarrow>
          (fold (\<lambda>(arg, ty) s.
             s\<lparr>ps_params := ps_params s @ [(binder_new (Some arg) TInfer, False)], ps_args := ps_args s @ [(ty, arg)]\<rparr>)
             (zip arg_names (fe_arg_types E)) s)\<lparr>ps_got_args := True\<rparr>
      | _ \<Rightarrow> s)"

text \<open>The return value and whether it was added here.\<close>

definition add_default_ret :: "('ty, 'd) fn_env \<Rightarrow> 'ty parsed_spec \<Rightarrow> 'ty parsed_spec \<times> bool" where
  "add_default_ret E s =
     (if ps_ret s \<noteq> None then (s, False)
      else
        (s\<lparr>ps_existentials := ps_existentials s @ [binder_new (Some ''ret'') TInfer],
           ps_ret := Some (fst (make_type_with_ref (fe_types E)
             \<lparr>lt_rfn = IsIdent ''ret'', lt_ty = None, lt_raw = False\<rparr> (fe_ret_type E)))\<rparr>, True))"

definition add_default_spec :: "('ty, 'd) fn_env \<Rightarrow> 'ty parsed_spec \<Rightarrow> 'ty parsed_spec spec_result" where
  "add_default_spec E s =
     (case add_default_ret E (add_default_args E s) of
        (s, is_implicit_ret) \<Rightarrow>
          if ok_mode (ps_ok_spec s) then
            (if \<not> is_implicit_ret then Err (Message ''specified rr::returns and rr::ok at the same time'')
             else assemble_fallible_spec (fe_indent E) ''ret'' (fe_ret_is_option E) (fe_ret_is_result E) s)
          else Ok s)"

section \<open>Filling the builder\<close>

definition add_meta ::
  "(iprop \<Rightarrow> ('ty, 'd) builder \<Rightarrow> ('ty, 'd) builder spec_result) \<Rightarrow> meta_iprop \<Rightarrow> ('ty, 'd) builder \<Rightarrow> ('ty, 'd) builder spec_result" where
  "add_meta add p b = and_then (or_panic (iprop_of_meta p)) (\<lambda>p. add p b)"

definition push_to_builder :: "'ty parsed_spec \<Rightarrow> ('ty, 'd) builder \<Rightarrow> ('ty, 'd) builder spec_result" where
  "push_to_builder s b =
     and_then (for_each (\<lambda>(param, _). add_param param) (ps_params s) b) (\<lambda>b.
     let b = fold add_arg (ps_args s) b in
     and_then (for_each (add_meta add_precondition) (ps_preconditions s) b) (\<lambda>b.
     and_then (for_each (add_meta add_postcondition) (ps_postconditions s) b) (\<lambda>b.
     and_then (for_each add_existential (ps_existentials s) b) (\<lambda>b.
     and_then (case ps_ret s of Some ret \<Rightarrow> set_ret_type ret b | None \<Rightarrow> Ok b) (\<lambda>b.
     let b = fold add_literal_lifetime_constraint (ps_lifetime_constraints s) b in
     Ok (if ps_ret s \<noteq> None \<and> ps_got_args s then have_spec b else b))))))"

definition function_attr ::
  "('ty, 'd) fn_env \<Rightarrow> string \<Rightarrow> attr_item \<Rightarrow> 'ty fn_state \<Rightarrow> 'ty fn_state spec_result" where
  "function_attr E name it st =
     and_then (handle_common_attributes E False name it st) (\<lambda>st'.
       case st' of
         Some st' \<Rightarrow> Ok st'
       | None \<Rightarrow>
           if name \<in> {''code_shim'', ''export_as'', ''only_spec'', ''verify'', ''trust_me''} then Ok st
           else Err (Message (''unknown function attribute: '' @ name)))"

definition attach_traits :: "('ty, 'd) fn_env \<Rightarrow> fn_requirements \<Rightarrow> 'd list spec_result" where
  "attach_traits E r =
     for_each (\<lambda>(spec_use, ts) defs.
       case tr_attach (fe_traits E) (fe_name_prefix E) spec_use ts of
         Some d \<Rightarrow> Ok (defs @ [d])
       | None \<Rightarrow> Err (Message ''unable to attach trait attr requirement'')) (fr_trait_specs r) []"

definition parse_function_spec ::
  "('ty, 'd) fn_env \<Rightarrow> attr_item list \<Rightarrow> ('ty, 'd) builder \<Rightarrow> (('ty, 'd) builder \<times> fn_requirements) spec_result" where
  "parse_function_spec E attrs b =
     and_then (for_attrs (function_attr E) attrs (fn_requirements_new, parsed_spec_new)) (\<lambda>(r, s).
     and_then (add_default_spec E s) (\<lambda>s.
     and_then (push_to_builder s b) (\<lambda>b.
     and_then (attach_traits E r) (\<lambda>defs. Ok (provide_specialized_trait_attrs defs b, r)))))"

section \<open>Arguments\<close>

text \<open>How many \<open>args\<close> attributes there are, and what the state knows of the arguments after them.\<close>

definition args_attrs :: "attr_item list \<Rightarrow> nat" where
  "args_attrs attrs = length (filter (\<lambda>it. second_segment it = Some ''args'') attrs)"

definition args_read :: "nat \<Rightarrow> nat \<Rightarrow> 'ty parsed_spec \<Rightarrow> bool" where
  "args_read n k s \<longleftrightarrow> length (ps_args s) = k * n \<and> (ps_got_args s \<longleftrightarrow> k \<noteq> 0)"

lemma args_read_updates [simp]:
  "args_read n k (s\<lparr>ps_params := x1\<rparr>) = args_read n k s"
  "args_read n k (s\<lparr>ps_preconditions := x2\<rparr>) = args_read n k s"
  "args_read n k (s\<lparr>ps_postconditions := x2\<rparr>) = args_read n k s"
  "args_read n k (s\<lparr>ps_existentials := x3\<rparr>) = args_read n k s"
  "args_read n k (s\<lparr>ps_ret := x4\<rparr>) = args_read n k s"
  "args_read n k (s\<lparr>ps_lifetime_constraints := x5\<rparr>) = args_read n k s"
  "args_read n k (s\<lparr>ps_ok_spec := x6\<rparr>) = args_read n k s"
  by (simp_all add: args_read_def)

lemma add_typed_arg_args:
  "add_typed_arg T x s = Ok s' \<Longrightarrow> length (ps_args s') = Suc (length (ps_args s)) \<and> ps_got_args s' = ps_got_args s"
  by (auto simp: add_typed_arg_def add_param_type_annot_def Let_def rust_simps
    split: prod.splits option.splits ident_or_term.splits)

lemma add_typed_args:
  "for_each (add_typed_arg T) xs s = Ok s' \<Longrightarrow>
   length (ps_args s') = length (ps_args s) + length xs \<and> ps_got_args s' = ps_got_args s"
  by (induction xs arbitrary: s) (auto simp: rust_simps dest!: add_typed_arg_args)

lemma handle_args_read:
  "handle_args E it s = Ok s' \<Longrightarrow> args_read (length (fe_arg_types E)) k s \<Longrightarrow> args_read (length (fe_arg_types E)) (Suc k) s'"
  by (auto simp: handle_args_def args_read_def rust_simps split: if_splits dest!: add_typed_args)

lemma handle_requires_read:
  "handle_requires E c p (r, s) = Ok (r', s') \<Longrightarrow> args_read n k s \<Longrightarrow> args_read n k s'"
  by (auto simp: handle_requires_def rust_simps split: meta_iprop.splits if_splits option.splits)

lemma handle_ensures_read: "handle_ensures p s = Ok s' \<Longrightarrow> args_read n k s \<Longrightarrow> args_read n k s'"
  by (auto simp: handle_ensures_def split: if_splits option.splits)

lemma handle_exists_read [simp]: "args_read n k (handle_exists ps s) = args_read n k s"
  by (simp add: handle_exists_def)

lemma handle_common_read:
  assumes "handle_common_attributes E c name it (r, s) = Ok (Some (r', s'))"
    and "args_read (length (fe_arg_types E)) k s"
  shows "args_read (length (fe_arg_types E)) (if name = ''args'' then Suc k else k) s'"
proof (cases "name = ''args''")
  case True
  with assms show ?thesis by (auto simp: handle_common_attributes_def Let_def rust_simps dest: handle_args_read)
next
  case False
  with assms show ?thesis
    by (auto simp: handle_common_attributes_def Let_def rust_simps handle_requires_read handle_ensures_read
      split: if_splits)
qed

lemma function_attr_read:
  assumes "function_attr E name it (r, s) = Ok (r', s')" and "args_read (length (fe_arg_types E)) k s"
  shows "args_read (length (fe_arg_types E)) (if name = ''args'' then Suc k else k) s'"
proof -
  from assms(1) consider "handle_common_attributes E False name it (r, s) = Ok (Some (r', s'))"
    | "name \<in> {''code_shim'', ''export_as'', ''only_spec'', ''verify'', ''trust_me''}" "s' = s"
    by (auto simp: function_attr_def rust_simps split: option.splits if_splits)
  then show ?thesis
  proof cases
    case 1
    then show ?thesis using assms(2) by (rule handle_common_read)
  next
    case 2
    with assms(2) show ?thesis by auto
  qed
qed

lemma function_attrs_read:
  assumes "for_attrs (function_attr E) attrs (r, s) = Ok (r', s')" and "args_read (length (fe_arg_types E)) k s"
  shows "args_read (length (fe_arg_types E)) (k + args_attrs attrs) s'"
  using assms
proof (induction attrs arbitrary: r s k)
  case (Cons it attrs)
  show ?case
  proof (cases "second_segment it")
    case None
    with Cons show ?thesis by (simp add: for_attrs_Cons args_attrs_def)
  next
    case (Some name)
    with Cons.prems(1) obtain r1 s1 where step: "function_attr E name it (r, s) = Ok (r1, s1)"
      "for_attrs (function_attr E) attrs (r1, s1) = Ok (r', s')" by (auto simp: for_attrs_Cons rust_simps)
    from Cons.IH [OF step(2) function_attr_read [OF step(1) Cons.prems(2)]] Some show ?thesis
      by (simp add: args_attrs_def split: if_splits)
  qed
qed (simp add: args_attrs_def)

text \<open>
  The arguments after the defaults are added: those of the \<open>args\<close> attribute when it is given, which must be as many
  as the function has types; else the named ones.
\<close>

definition expected_args :: "('ty, 'd) fn_env \<Rightarrow> bool \<Rightarrow> nat" where
  "expected_args E given =
     (if given then length (fe_arg_types E)
      else case fe_arg_names E of None \<Rightarrow> 0 | Some names \<Rightarrow> min (length names) (length (fe_arg_types E)))"

lemma fold_default_args:
  "length (ps_args (fold (\<lambda>(arg, ty) s. s\<lparr>ps_params := ps_params s @ [(binder_new (Some arg) TInfer, False)],
     ps_args := ps_args s @ [(ty, arg)]\<rparr>) xs s)) = length (ps_args s) + length xs"
  by (induction xs arbitrary: s) auto

lemma add_default_args_read:
  assumes "args_read (length (fe_arg_types E)) k s"
  shows "(k \<le> 1 \<longrightarrow> length (ps_args (add_default_args E s)) = expected_args E (k = 1))
    \<and> (ps_got_args (add_default_args E s) \<longleftrightarrow> k \<noteq> 0 \<or> fe_arg_names E \<noteq> None)"
  using assms
  by (auto simp: add_default_args_def args_read_def expected_args_def fold_default_args le_Suc_eq split: option.splits)

lemma assemble_frame:
  "assemble_fallible_spec I n o1 o2 s = Ok s' \<Longrightarrow>
   ps_args s' = ps_args s \<and> ps_got_args s' = ps_got_args s \<and> ps_ret s' = ps_ret s"
  by (auto simp: assemble_fallible_spec_def Let_def rust_simps split: if_splits)

lemma add_default_spec_read:
  assumes "add_default_spec E s = Ok s'" and "args_read (length (fe_arg_types E)) k s"
  shows "(k \<le> 1 \<longrightarrow> length (ps_args s') = expected_args E (k = 1)) \<and> (ps_got_args s' \<longleftrightarrow> k \<noteq> 0 \<or> fe_arg_names E \<noteq> None) \<and> ps_ret s' \<noteq> None"
  using assms(1) add_default_args_read [OF assms(2)]
  by (auto simp: add_default_spec_def add_default_ret_def split: if_splits dest!: assemble_frame)

section \<open>The filled builder\<close>

definition param_names :: "('ty, 'd) builder \<Rightarrow> string list" where
  "param_names b = List.map_filter get_name_ref (lb_params b)"

lemma param_names_add:
  "param_names (b\<lparr>lb_coq_names := ns, lb_params := lb_params b @ [p]\<rparr>) =
     param_names b @ (case get_name_ref p of None \<Rightarrow> [] | Some n \<Rightarrow> [n])"
  by (simp add: param_names_def map_filter_def split: option.splits)

text \<open>The recorded names are those of the parameters, and no parameter name is used twice.\<close>

definition names_ok :: "('ty, 'd) builder \<Rightarrow> bool" where
  "names_ok b \<longleftrightarrow> lb_coq_names b = set (param_names b) \<and> distinct (param_names b)"

lemma add_param_result:
  assumes "add_param p b = Ok b'"
  shows "b' = b\<lparr>lb_coq_names := lb_coq_names b \<union> set_option (get_name_ref p), lb_params := lb_params b @ [p]\<rparr>
    \<and> set_option (get_name_ref p) \<inter> lb_coq_names b = {}"
  using assms
  by (auto simp: add_param_def ensure_coq_not_bound_def push_coq_name_def Let_def rust_simps split: option.splits if_splits)

lemma add_param_names:
  assumes "add_param p b = Ok b'" and "names_ok b"
  shows "names_ok b'"
proof -
  note r = add_param_result [OF assms(1)]
  have "param_names b' = param_names b @ (case get_name_ref p of None \<Rightarrow> [] | Some n \<Rightarrow> [n])"
    using r by (metis param_names_add)
  then show ?thesis using assms(2) r by (auto simp: names_ok_def split: option.splits)
qed

text \<open>What the steps after the parameters keep.\<close>

lemma fold_add_arg: "fold add_arg xs b = b\<lparr>lb_args := lb_args b @ xs\<rparr>"
  by (induction xs arbitrary: b) (simp_all add: add_arg_def)

lemma fold_add_constraint: "fold add_literal_lifetime_constraint xs b = b\<lparr>lb_extra_elctx := lb_extra_elctx b @ xs\<rparr>"
  by (induction xs arbitrary: b) (simp_all add: add_literal_lifetime_constraint_def)

lemma add_pre: "add_meta add_precondition p b = Ok b' \<Longrightarrow> \<exists>v. b' = b\<lparr>lb_pre := v\<rparr>"
  by (cases "lb_pre b") (auto simp: add_meta_def add_precondition_def rust_simps)

lemma add_pres: "for_each (add_meta add_precondition) ps b = Ok b' \<Longrightarrow> \<exists>v. b' = b\<lparr>lb_pre := v\<rparr>"
  by (rule for_each_invariant [where P = "\<lambda>u. \<exists>v. u = b\<lparr>lb_pre := v\<rparr>"], assumption)
     (auto intro: exI [of _ "lb_pre b"] dest!: add_pre)

lemma add_post: "add_meta add_postcondition p b = Ok b' \<Longrightarrow> \<exists>v. b' = b\<lparr>lb_post := v\<rparr>"
  by (cases "lb_post b") (auto simp: add_meta_def add_postcondition_def rust_simps)

lemma add_posts: "for_each (add_meta add_postcondition) ps b = Ok b' \<Longrightarrow> \<exists>v. b' = b\<lparr>lb_post := v\<rparr>"
  by (rule for_each_invariant [where P = "\<lambda>u. \<exists>v. u = b\<lparr>lb_post := v\<rparr>"], assumption)
     (auto intro: exI [of _ "lb_post b"] dest!: add_post)

lemma add_existential_result:
  assumes "add_existential e b = Ok b'"
  shows "b' = b\<lparr>lb_existential := lb_existential b @ [e]\<rparr> \<and> set_option (get_name_ref e) \<inter> lb_coq_names b = {}"
  using assms by (auto simp: add_existential_def ensure_coq_not_bound_def rust_simps split: option.splits if_splits)

lemma add_existentials:
  "for_each add_existential es b = Ok b' \<Longrightarrow>
   b' = b\<lparr>lb_existential := lb_existential b @ es\<rparr> \<and> (\<forall>e \<in> set es. set_option (get_name_ref e) \<inter> lb_coq_names b = {})"
proof (induction es arbitrary: b)
  case (Cons e es)
  then obtain b1 where b1: "add_existential e b = Ok b1" "for_each add_existential es b1 = Ok b'"
    by (auto simp: rust_simps)
  from add_existential_result [OF b1(1)] Cons.IH [OF b1(2)] show ?case by simp
qed simp

lemma add_params:
  "for_each (\<lambda>(param, _). add_param param) ps b = Ok b' \<Longrightarrow> names_ok b \<Longrightarrow>
   names_ok b' \<and> (\<exists>ns. b' = b\<lparr>lb_coq_names := ns, lb_params := lb_params b @ map fst ps\<rparr>)"
proof (induction ps arbitrary: b)
  case Nil
  then show ?case by (auto intro: exI [of _ "lb_coq_names b"])
next
  case (Cons p ps)
  then obtain b1 where b1: "add_param (fst p) b = Ok b1" "for_each (\<lambda>(param, _). add_param param) ps b1 = Ok b'"
    by (auto simp: rust_simps split: prod.splits)
  from Cons.IH [OF b1(2) add_param_names [OF b1(1) Cons.prems(2)]] add_param_result [OF b1(1)] show ?case by auto
qed

lemma names_ok_updates [simp]:
  "names_ok (b\<lparr>lb_args := x1\<rparr>) = names_ok b" "names_ok (b\<lparr>lb_pre := x2\<rparr>) = names_ok b"
  "names_ok (b\<lparr>lb_post := x2\<rparr>) = names_ok b" "names_ok (b\<lparr>lb_existential := x3\<rparr>) = names_ok b"
  "names_ok (b\<lparr>lb_ret := x4\<rparr>) = names_ok b" "names_ok (b\<lparr>lb_extra_elctx := x5\<rparr>) = names_ok b"
  "names_ok (b\<lparr>lb_has_spec := x6\<rparr>) = names_ok b" "names_ok (b\<lparr>lb_trait_attrs := x7\<rparr>) = names_ok b"
  by (simp_all add: names_ok_def param_names_def)

lemma push_to_builder_result:
  assumes "push_to_builder s b = Ok b'" and "names_ok b"
  shows "names_ok b' \<and> lb_params b' = lb_params b @ map fst (ps_params s) \<and> lb_args b' = lb_args b @ ps_args s
    \<and> lb_existential b' = lb_existential b @ ps_existentials s
    \<and> (\<forall>e \<in> set (ps_existentials s). set_option (get_name_ref e) \<inter> lb_coq_names b' = {})
    \<and> (lb_ret b = None \<longrightarrow> lb_ret b' = ps_ret s)
    \<and> (lb_has_spec b' \<longleftrightarrow> lb_has_spec b \<or> ps_ret s \<noteq> None \<and> ps_got_args s)"
proof -
  from assms(1) obtain b1 b2 b3 b4 b5 where
    b1: "for_each (\<lambda>(param, _). add_param param) (ps_params s) b = Ok b1" and
    b2: "for_each (add_meta add_precondition) (ps_preconditions s) (b1\<lparr>lb_args := lb_args b1 @ ps_args s\<rparr>) = Ok b2" and
    b3: "for_each (add_meta add_postcondition) (ps_postconditions s) b2 = Ok b3" and
    b4: "for_each add_existential (ps_existentials s) b3 = Ok b4" and
    b5: "(case ps_ret s of Some ret \<Rightarrow> set_ret_type ret b4 | None \<Rightarrow> Ok b4) = Ok b5" and
    b': "b' = (let b6 = b5\<lparr>lb_extra_elctx := lb_extra_elctx b5 @ ps_lifetime_constraints s\<rparr>
               in if ps_ret s \<noteq> None \<and> ps_got_args s then have_spec b6 else b6)"
    by (auto simp: push_to_builder_def Let_def rust_simps fold_add_arg fold_add_constraint)
  from add_params [OF b1 assms(2)] obtain ns where p1: "names_ok b1"
    "b1 = b\<lparr>lb_coq_names := ns, lb_params := lb_params b @ map fst (ps_params s)\<rparr>" by blast
  from add_pres [OF b2] add_posts [OF b3] obtain v w where
    p3: "b3 = b1\<lparr>lb_args := lb_args b1 @ ps_args s, lb_pre := v, lb_post := w\<rparr>" by auto
  note p4 = add_existentials [OF b4]
  have p5: "b5 = b4\<lparr>lb_ret := lb_ret b5\<rparr> \<and> (lb_ret b4 = None \<longrightarrow> lb_ret b5 = ps_ret s)"
    using b5 by (auto simp: set_ret_type_def split: option.splits if_splits)
  have n4: "names_ok b4" using p1(1) p3 p4 by simp
  have s4: "lb_params b4 = lb_params b @ map fst (ps_params s)" "lb_args b4 = lb_args b @ ps_args s"
    "lb_existential b4 = lb_existential b @ ps_existentials s" "lb_ret b4 = lb_ret b" "lb_has_spec b4 = lb_has_spec b"
    "lb_coq_names b4 = lb_coq_names b3"
    using p1(2) p3 p4 by simp_all
  have s5: "lb_params b5 = lb_params b4" "lb_args b5 = lb_args b4" "lb_existential b5 = lb_existential b4"
    "lb_has_spec b5 = lb_has_spec b4" "lb_coq_names b5 = lb_coq_names b4" "names_ok b5 = names_ok b4"
    using p5 by (metis builder.select_convs builder.surjective builder.update_convs names_ok_updates(5))+
  show ?thesis unfolding b' using s4 s5 n4 p4 p5 by (simp add: Let_def have_spec_def)
qed

lemma names_ok_new: "names_ok builder_new"
  by (simp add: names_ok_def builder_new_def param_names_def)

lemma parse_function_spec_result:
  assumes "parse_function_spec E attrs builder_new = Ok (b, r)"
  shows "distinct (param_names b)
    \<and> (\<forall>e \<in> set (lb_existential b). set_option (get_name_ref e) \<inter> set (param_names b) = {})
    \<and> lb_ret b \<noteq> None \<and> (args_attrs attrs \<le> 1 \<longrightarrow> length (lb_args b) = expected_args E (args_attrs attrs = 1))
    \<and> (lb_has_spec b \<longleftrightarrow> args_attrs attrs \<noteq> 0 \<or> fe_arg_names E \<noteq> None)"
proof -
  from assms obtain s s1 b1 defs where
    s: "for_attrs (function_attr E) attrs (fn_requirements_new, parsed_spec_new) = Ok (r, s)" and
    s1: "add_default_spec E s = Ok s1" and b1: "push_to_builder s1 builder_new = Ok b1" and
    b: "b = provide_specialized_trait_attrs defs b1"
    by (auto simp: parse_function_spec_def rust_simps split: prod.splits)
  have "args_read (length (fe_arg_types E)) 0 parsed_spec_new" by (simp add: args_read_def parsed_spec_new_def)
  from function_attrs_read [OF s this] have "args_read (length (fe_arg_types E)) (args_attrs attrs) s" by simp
  from add_default_spec_read [OF s1 this] push_to_builder_result [OF b1 names_ok_new] show ?thesis
    by (auto simp: b provide_specialized_trait_attrs_def names_ok_def param_names_def builder_new_def)
qed

text \<open>
  C29. What an accepted function specification puts into a fresh builder: no parameter name twice and
  no existential with a parameter's name; a return type; and, when at most one \<open>args\<close> attribute is given, as many
  arguments as the attribute must list, one for each type of the function, or, where there is none, the named ones.
  (A repeated \<open>args\<close> attribute is accepted and appends its arguments, see \<open>repeated_args_attribute\<close>.)
\<close>

theorem parse_function_spec_builder:
  assumes "parse_function_spec E attrs builder_new = Ok (b, r)"
  shows "distinct (param_names b)
    \<and> (\<forall>e \<in> set (lb_existential b). set_option (get_name_ref e) \<inter> set (param_names b) = {})
    \<and> lb_ret b \<noteq> None
    \<and> (args_attrs attrs \<le> 1 \<longrightarrow> length (lb_args b) = expected_args E (args_attrs attrs = 1))"
  using parse_function_spec_result [OF assms] by simp

text \<open>A function of one argument, over numbers as types.\<close>

definition sample_fn_env :: "(nat, nat) fn_env" where
  "sample_fn_env =
     \<lparr>fe_parse = plain_env,
      fe_types = \<lparr>te_rfn_type = (\<lambda>_. TZ), te_make_raw = (\<lambda>t. t), te_literal = (\<lambda>_ t. t), te_shr_ref = (\<lambda>t _. t),
                  te_mut_ref = (\<lambda>t _. t), te_is_shr_ref = (\<lambda>_. None), te_is_mut_ref = (\<lambda>_. None)\<rparr>,
      fe_traits = \<lparr>tr_origin = (\<lambda>_ _. None), tr_attach = (\<lambda>_ _ _. None)\<rparr>,
      fe_indent = plain_indenter, fe_name_prefix = ''f'', fe_arg_types = [7], fe_ret_type = 9,
      fe_ret_is_option = True, fe_ret_is_result = False, fe_arg_names = Some [''x'']\<rparr>"

definition ident_tree :: "string \<Rightarrow> token_tree" where
  "ident_tree s = Token \<lparr>tok_kind = TkIdent s False, tok_span = 0\<rparr> 0"

definition sample_fn_attrs :: "attr_item list" where
  "sample_fn_attrs =
     [tool_item ''params'' [lit_tree ''x'', punct_tree PColon, lit_tree ''Z'', punct_tree PComma, ident_tree ''y''],
      tool_item ''args'' [ident_tree ''y''],
      tool_item ''ok'' [],
      tool_item ''requires'' [lit_tree ''0 < x''],
      tool_item ''ensures'' [lit_tree ''ret = x'']]"

theorem parse_function_spec_builder_witness:
  "case parse_function_spec sample_fn_env sample_fn_attrs builder_new of
     Ok (b, r) \<Rightarrow> param_names b = [''x'', ''y''] \<and> lb_args b = [(7, ''y'')]
       \<and> length (lb_args b) = expected_args sample_fn_env True
       \<and> (\<forall>e \<in> set (lb_existential b). set_option (get_name_ref e) \<inter> set (param_names b) = {})
   | _ \<Rightarrow> False"
proof -
  let ?run = "parse_function_spec sample_fn_env sample_fn_attrs builder_new"
  have vals: "case ?run of Ok (b, r) \<Rightarrow> param_names b = [''x'', ''y''] \<and> lb_args b = [(7, ''y'')] | _ \<Rightarrow> False"
    by code_simp
  then obtain b r where br: "?run = Ok (b, r)" by (cases ?run) auto
  have one: "args_attrs sample_fn_attrs = 1" by code_simp
  with br vals parse_function_spec_builder [OF br] show ?thesis by simp
qed

text \<open>A second \<open>args\<close> attribute adds the arguments again.\<close>

lemma repeated_args_attribute:
  "case parse_function_spec sample_fn_env [tool_item ''args'' [lit_tree ''1''], tool_item ''args'' [lit_tree ''2'']] builder_new of
     Ok (b, r) \<Rightarrow> lb_args b = [(7, ''1''), (7, ''2'')]
   | _ \<Rightarrow> False"
  by code_simp

text \<open>
  The mark \<open>has_spec\<close>: its documentation says that there are annotations, the parser sets it when the arguments
  are known. A function with named arguments and no attribute is marked, one with an annotation and no names is not.
\<close>

lemma has_spec_iff_args_known:
  "parse_function_spec E attrs builder_new = Ok (b, r) \<Longrightarrow>
   lb_has_spec b \<longleftrightarrow> args_attrs attrs \<noteq> 0 \<or> fe_arg_names E \<noteq> None"
  using parse_function_spec_result by blast

lemma has_spec_without_annotation:
  "case parse_function_spec sample_fn_env [] builder_new of Ok (b, r) \<Rightarrow> lb_has_spec b | _ \<Rightarrow> False"
  by code_simp

lemma annotation_without_has_spec:
  "case parse_function_spec (sample_fn_env\<lparr>fe_arg_names := None\<rparr>) [tool_item ''requires'' [lit_tree ''True'']] builder_new of
     Ok (b, r) \<Rightarrow> \<not> lb_has_spec b
   | _ \<Rightarrow> False"
  by code_simp

end
