(* ===== verification/ClosureSpec.thy ===== *)
theory ClosureSpec
  imports FunctionSpec
begin

text \<open>
  Closure specifications of \<open>verbose_function_spec_parser.rs\<close>: the captured places become parameters,
  the pre- and postconditions of the closure are encoded as Rocq terms. A place is given by the
  projections the compiler reports, a field by the name its definition has. The map from places to
  their refinements is a partial map: its order is never observed.
\<close>

section \<open>Captures\<close>

datatype capture_kind = ByValue | ByRefImmutable | ByRefUniqueImmutable | ByRefMutable | ByUse

text \<open>A projection of a captured place; the name of a field is known if the type is an ADT.\<close>

datatype place_projection = CapDeref | CapField "string option" | CapOther

record capture =
  cp_base :: string
  cp_projections :: "place_projection list"
  cp_kind :: capture_kind

datatype closure_kind = FnClosure | FnMutClosure | FnOnceClosure

record 'ty closure_meta =
  cm_kind :: closure_kind
  cm_captures :: "capture list"
  cm_capture_tys :: "'ty list"
  cm_lifetime :: "nat option"

fun compute_projection :: "place_projection list \<Rightarrow> projection list option" where
  "compute_projection [] = Some []"
| "compute_projection (CapDeref # ps) = map_option (\<lambda>qs. ProjDeref # qs) (compute_projection ps)"
| "compute_projection (CapField (Some f) # ps) = map_option (\<lambda>qs. ProjField f # qs) (compute_projection ps)"
| "compute_projection (CapField None # ps) = None"
| "compute_projection (CapOther # ps) = None"

type_synonym capture_spec_map = "rust_place \<rightharpoonup> literal_type_with_ref \<times> literal_type_with_ref option"

text \<open>\<open>ClosureCaptureScope\<close>: a place stands for its refinement, with \<open>new\<close> for the one afterwards.\<close>

definition closure_capture_scope :: "capture_spec_map \<Rightarrow> scope \<Rightarrow> scope" where
  "closure_capture_scope m sc =
     sc\<lparr>lookup_place := (\<lambda>place modifier.
       case m place of
         None \<Rightarrow> None
       | Some (pre, post) \<Rightarrow>
           (case modifier of
              None \<Rightarrow> Some (ident_or_term_text (lt_rfn pre))
            | Some md \<Rightarrow>
                (case post of
                   Some y \<Rightarrow> if md = ''new'' then Some (ident_or_term_text (lt_rfn y)) else None
                 | None \<Rightarrow> None)))\<rparr>"

section \<open>The specification of the captures\<close>

text \<open>A mutable capture has a pattern, a ghost variable and the type behind the reference.\<close>

datatype capture_post = CapMut string string string | CapImmutOrConsume string

record 'ty closure_spec_info_parts =
  cs_params :: "coq_binder list"
  cs_postconditions :: "meta_iprop list"
  cs_fnmut_observes :: "meta_iprop option"
  cs_closure_arg :: "'ty type_with_ref"
  cs_self_rfn :: string
  cs_self_post_rfn :: string

text \<open>The variables of the pass over the captures.\<close>

record 'ty capture_state =
  cc_ghost_vars :: "string list"
  cc_pre_types :: "'ty type_with_ref list"
  cc_post_patterns :: "capture_post list"

definition capture_by_value ::
  "('ty, 'd) fn_env \<Rightarrow> 'ty \<Rightarrow> literal_type_with_ref \<Rightarrow> literal_type_with_ref option \<Rightarrow> 'ty capture_state
     \<Rightarrow> 'ty capture_state spec_result" where
  "capture_by_value E ty pre post s =
     (let processed = fst (make_type_with_ref (fe_types E) pre ty) in
      if post \<noteq> None then Err (Message ''Did not expect postcondition for by-value capture'')
      else Ok (s\<lparr>cc_pre_types := cc_pre_types s @ [processed],
                 cc_post_patterns := cc_post_patterns s @ [CapImmutOrConsume (snd processed)]\<rparr>))"

definition capture_shared ::
  "('ty, 'd) fn_env \<Rightarrow> 'ty \<Rightarrow> literal_type_with_ref \<Rightarrow> 'ty capture_state \<Rightarrow> 'ty capture_state" where
  "capture_shared E ty pre s =
     (case te_is_shr_ref (fe_types E) ty of
        None \<Rightarrow> s
      | Some (auto_type, lft) \<Rightarrow>
          (case fst (make_type_with_ref (fe_types E) pre auto_type) of
             (t, rfn) \<Rightarrow>
               let altered_rfn = ''('' @ rfn @ '')'' in
               s\<lparr>cc_pre_types := cc_pre_types s @ [(te_shr_ref (fe_types E) t lft, altered_rfn)],
                 cc_post_patterns := cc_post_patterns s @ [CapImmutOrConsume altered_rfn]\<rparr>))"

definition capture_mutable ::
  "('ty, 'd) fn_env \<Rightarrow> string \<Rightarrow> 'ty \<Rightarrow> literal_type_with_ref \<Rightarrow> literal_type_with_ref option \<Rightarrow> 'ty capture_state
     \<Rightarrow> 'ty capture_state option" where
  "capture_mutable E base ty pre post s =
     (case te_is_mut_ref (fe_types E) ty of
        None \<Rightarrow> Some s
      | Some (auto_type, lft) \<Rightarrow>
          (case fst (make_type_with_ref (fe_types E) pre auto_type) of
             (t, rfn) \<Rightarrow>
               let ghost_var = ''_'' @ u_gamma @ base in
               map_option (\<lambda>type_hint.
                 s\<lparr>cc_ghost_vars := cc_ghost_vars s @ [ghost_var],
                   cc_pre_types := cc_pre_types s
                     @ [(te_mut_ref (fe_types E) t lft, ''(('' @ rfn @ ''), '' @ ghost_var @ '')'')],
                   cc_post_patterns := cc_post_patterns s
                     @ [CapMut (case post of Some y \<Rightarrow> ident_or_term_text (lt_rfn y) | None \<Rightarrow> rfn) ghost_var type_hint]\<rparr>)
                 (fmt_type (fe_indent E) (te_rfn_type (fe_types E) auto_type))))"

definition merge_capture ::
  "('ty, 'd) fn_env \<Rightarrow> capture_spec_map \<Rightarrow> capture \<times> 'ty \<Rightarrow> 'ty capture_state \<Rightarrow> 'ty capture_state spec_result" where
  "merge_capture E m x s =
     (case x of (cap, ty) \<Rightarrow>
      and_then (or_panic (compute_projection (cp_projections cap))) (\<lambda>proj.
        case m (cp_base cap, proj) of
          None \<Rightarrow> Err (Message ''ambiguous specification of capture'')
        | Some (pre, post) \<Rightarrow>
            (case cp_kind cap of
               ByValue \<Rightarrow> capture_by_value E ty pre post s
             | ByRefImmutable \<Rightarrow> Ok (capture_shared E ty pre s)
             | ByUse \<Rightarrow> Err (Message ''Closure captures ByUse, which is not supported'')
             | _ \<Rightarrow> or_panic (capture_mutable E (cp_base cap) ty pre post s))))"

definition capture_post_text :: "capture_post \<Rightarrow> string" where
  "capture_post_text p =
     (case p of CapImmutOrConsume pat \<Rightarrow> ''('' @ pat @ '')''
      | CapMut pat gvar _ \<Rightarrow> ''(('' @ pat @ ''), '' @ gvar @ '')'')"

text \<open>The tuple of refinements as a pattern or, where it is empty, as \<open>()\<close> or \<open>tt\<close>.\<close>

definition tuple_text :: "string \<Rightarrow> string list \<Rightarrow> string" where
  "tuple_text none xs = (if xs = [] then none else '' *['' @ join_with ''; '' xs @ '']'')"

definition capture_observes :: "capture_post list \<Rightarrow> meta_iprop list" where
  "capture_observes ps =
     concat (map (\<lambda>p. case p of CapImmutOrConsume _ \<Rightarrow> [] | CapMut pat gvar hint \<Rightarrow> [Observe gvar (Some hint) pat]) ps)"

definition closure_argument ::
  "('ty, 'd) fn_env \<Rightarrow> 'ty closure_meta \<Rightarrow> 'ty \<Rightarrow> string \<Rightarrow> string
     \<Rightarrow> ('ty type_with_ref \<times> coq_binder list \<times> meta_iprop option) option" where
  "closure_argument E meta capture_tuple pre_rfn_pat post_rfn_pat =
     (case cm_kind meta of
        FnOnceClosure \<Rightarrow> Some ((capture_tuple, pre_rfn_pat), [], None)
      | FnClosure \<Rightarrow>
          map_option (\<lambda>lft. ((te_shr_ref (fe_types E) capture_tuple lft, pre_rfn_pat), [], None)) (cm_lifetime meta)
      | FnMutClosure \<Rightarrow>
          (let post_name = ''__'' @ u_gamma @ ''clos'' in
           Option.bind (cm_lifetime meta) (\<lambda>lft.
           map_option (\<lambda>hint.
             ((te_mut_ref (fe_types E) capture_tuple lft, ''(('' @ pre_rfn_pat @ ''), '' @ post_name @ '')''),
              [binder_new (Some post_name) TGname], Some (Observe post_name (Some hint) post_rfn_pat)))
             (fmt_type (fe_indent E) (te_rfn_type (fe_types E) capture_tuple)))))"

definition merge_capture_information ::
  "('ty, 'd) fn_env \<Rightarrow> ('ty list \<Rightarrow> 'ty) \<Rightarrow> capture_spec_map \<Rightarrow> 'ty closure_meta \<Rightarrow> 'ty closure_spec_info_parts spec_result" where
  "merge_capture_information E make_tuple m meta =
     and_then (for_each (merge_capture E m) (zip (cm_captures meta) (cm_capture_tys meta))
       \<lparr>cc_ghost_vars = [], cc_pre_types = [], cc_post_patterns = []\<rparr>) (\<lambda>s.
     let pre_texts = map (\<lambda>x. ''('' @ snd x @ '')'') (cc_pre_types s);
         post_texts = map capture_post_text (cc_post_patterns s);
         capture_tuple = make_tuple (map fst (cc_pre_types s)) in
     and_then (or_panic (closure_argument E meta capture_tuple (tuple_text ''()'' pre_texts) (tuple_text ''()'' post_texts)))
       (\<lambda>(closure_arg, extra_params, fnmut_observes).
          Ok \<lparr>cs_params = map (\<lambda>x. binder_new (Some x) TGname) (cc_ghost_vars s) @ extra_params,
              cs_postconditions = capture_observes (cc_post_patterns s),
              cs_fnmut_observes = fnmut_observes,
              cs_closure_arg = closure_arg,
              cs_self_rfn = tuple_text ''tt'' pre_texts,
              cs_self_post_rfn = tuple_text ''tt'' post_texts\<rparr>))"

definition push_captures :: "'ty closure_spec_info_parts \<Rightarrow> ('ty, 'd) builder \<Rightarrow> ('ty, 'd) builder spec_result" where
  "push_captures c b =
     and_then (for_each add_param (cs_params c) b) (\<lambda>b.
     and_then (case cs_fnmut_observes c of
         Some p \<Rightarrow> add_meta add_postcondition p b
       | None \<Rightarrow> for_each (add_meta add_postcondition) (cs_postconditions c) b) (\<lambda>b.
     Ok (add_arg (cs_closure_arg c) b)))"

section \<open>The encoded conditions\<close>

record closure_spec_info =
  ci_params_encoded :: coq_term
  ci_pre_encoded :: coq_term
  ci_post_encoded :: coq_term
  ci_post_mut_encoded :: coq_term

definition infer_binder :: "string \<Rightarrow> coq_binder" where
  "infer_binder x = binder_new (Some x) TInfer"

definition lit_prop :: "string \<Rightarrow> iprop" where
  "lit_prop s = IpPure (TmLiteral s)"

text \<open>The three conditions, as lambdas over the thread, the parameters and what the closure sees.\<close>

definition encode_condition :: "coq_binder list \<Rightarrow> iprop \<Rightarrow> coq_term" where
  "encode_condition binders p = TmLambda binders (TmIProp (purify p))"

definition closure_spec_info_new ::
  "'ty parsed_spec \<Rightarrow> 'ty closure_spec_info_parts \<Rightarrow> coq_binder list \<Rightarrow> coq_binder list \<Rightarrow> closure_spec_info option" where
  "closure_spec_info_new s c extra_params extra_existentials =
     (let ext_params = map fst (filter snd (ps_params s)) in
      Option.bind (those (map get_type ext_params)) (\<lambda>ext_params_tys.
      Option.bind (those (map iprop_of_meta (ps_preconditions s))) (\<lambda>pres.
      Option.bind (those (map iprop_of_meta (ps_postconditions s))) (\<lambda>posts.
      Option.bind (those (map iprop_of_meta (cs_postconditions c))) (\<lambda>capture_posts.
      let ext_params_ty = TPList ''id'' ext_params_tys ''Type'';
          params_binder = binder_new (Some ''_params'') ext_params_ty;
          tid_binder = binder_new (Some u_pi) TThreadId;
          all_params = map fst (ps_params s) @ cs_params c @ extra_params;
          self_clause = lit_prop (''_self = ('' @ cs_self_rfn c @ '')'');
          args_clause = lit_prop (if ps_args s = [] then ''_args = tt''
            else ''_args = *[ '' @ join_with ''; '' (map snd (ps_args s)) @ '' ]'');
          params_clause = lit_prop (''_params = *[ '' @ join_with ''; '' (map get_name ext_params) @ '' ]'');
          all_existentials = ps_existentials s @ extra_existentials;
          ret_term = (case ps_ret s of Some ret \<Rightarrow> snd ret | None \<Rightarrow> ''tt'');
          ret_clause = lit_prop (''_ret = ('' @ ret_term @ '')'');
          self_post_clause = lit_prop (''_self_post = ('' @ cs_self_post_rfn c @ '')'');
          common = [tid_binder, params_binder, infer_binder ''_self'', infer_binder ''_args''];
          pre = IpExists all_params (IpSep ([params_clause, args_clause, self_clause] @ pres @ [IpTrue]));
          post_clause = (\<lambda>clauses. IpExists all_params
            (IpSep [params_clause, self_clause, args_clause, IpExists all_existentials (IpSep clauses), IpTrue]))
      in Some \<lparr>ci_params_encoded = TmType ext_params_ty,
               ci_pre_encoded = encode_condition common pre,
               ci_post_encoded = encode_condition (common @ [infer_binder ''_ret''])
                 (post_clause (ret_clause # posts @ capture_posts)),
               ci_post_mut_encoded = encode_condition (common @ [infer_binder ''_self_post'', infer_binder ''_ret''])
                 (post_clause (ret_clause # posts @ [self_post_clause]))\<rparr>)))))"

section \<open>The parser\<close>

text \<open>The refinement type of what is captured, which lies behind the reference of a capture by reference.\<close>

definition capture_rfn_type :: "'ty type_env \<Rightarrow> capture_kind \<Rightarrow> 'ty \<Rightarrow> coq_type option" where
  "capture_rfn_type T kind ty =
     (if kind = ByValue \<or> kind = ByUse then Some (te_rfn_type T ty)
      else case te_is_mut_ref T ty of
        Some (t, _) \<Rightarrow> Some (te_rfn_type T t)
      | None \<Rightarrow> map_option (\<lambda>(t, _). te_rfn_type T t) (te_is_shr_ref T ty))"

record capture_binders =
  cb_params :: "coq_binder list"
  cb_existentials :: "coq_binder list"
  cb_map :: capture_spec_map

definition bind_capture :: "'ty type_env \<Rightarrow> capture \<times> 'ty \<Rightarrow> capture_binders \<Rightarrow> capture_binders option" where
  "bind_capture T x s =
     (case x of (cap, ty) \<Rightarrow>
      Option.bind (compute_projection (cp_projections cap)) (\<lambda>proj.
      let base = cp_base cap;
          capture_name = ''capture_'' @ base @ ''_'' @ fmt_projections proj;
          capture_post_name = capture_name @ ''_new'' in
      map_option (\<lambda>capture_ty.
        let capture_binder = binder_new (Some capture_name) (TRtXt capture_ty);
            pre_ty = \<lparr>lt_rfn = IsTerm capture_name, lt_ty = None, lt_raw = False\<rparr>;
            is_mut = (cp_kind cap = ByRefMutable);
            post_ty = (if is_mut then Some \<lparr>lt_rfn = IsTerm capture_post_name, lt_ty = None, lt_raw = False\<rparr> else None)
        in \<lparr>cb_params = cb_params s @ [capture_binder],
            cb_existentials = cb_existentials s @ (if is_mut then [binder_new (Some capture_post_name) capture_ty] else []),
            cb_map = (cb_map s)((base, proj) \<mapsto> (pre_ty, post_ty))\<rparr>)
        (capture_rfn_type T (cp_kind cap) ty)))"

definition closure_attr ::
  "('ty, 'd) fn_env \<Rightarrow> string \<Rightarrow> attr_item \<Rightarrow> 'ty fn_state \<Rightarrow> 'ty fn_state spec_result" where
  "closure_attr E name it st =
     and_then (handle_common_attributes E True name it st) (\<lambda>st'.
       case st' of
         Some st' \<Rightarrow> Ok st'
       | None \<Rightarrow>
           if name \<in> {''capture'', ''only_spec'', ''verify'', ''trust_me''} then Ok st
           else Err (Message (''unknown closure attribute: '' @ name)))"

definition parse_closure_spec ::
  "('ty, 'd) fn_env \<Rightarrow> ('ty list \<Rightarrow> 'ty) \<Rightarrow> attr_item list \<Rightarrow> 'ty closure_meta \<Rightarrow> ('ty, 'd) builder
     \<Rightarrow> (('ty, 'd) builder \<times> closure_spec_info \<times> fn_requirements) spec_result" where
  "parse_closure_spec E make_tuple attrs meta b =
     and_then (or_panic (fold_opt (bind_capture (fe_types E)) (zip (cm_captures meta) (cm_capture_tys meta))
       \<lparr>cb_params = [], cb_existentials = [], cb_map = Map.empty\<rparr>)) (\<lambda>cb.
     and_then (for_each add_param (cb_params cb) b) (\<lambda>b.
     and_then (for_each add_existential (cb_existentials cb) b) (\<lambda>b.
     and_then (merge_capture_information E make_tuple (cb_map cb) meta) (\<lambda>c.
     and_then (push_captures c b) (\<lambda>b.
     let M = fe_parse E;
         E' = E\<lparr>fe_parse := M\<lparr>pe_scope := closure_capture_scope (cb_map cb) (pe_scope M)\<rparr>\<rparr> in
     and_then (for_attrs (closure_attr E') attrs (fn_requirements_new, parsed_spec_new)) (\<lambda>(r, s).
     and_then (add_default_spec E s) (\<lambda>s.
     and_then (push_to_builder s b) (\<lambda>b.
     and_then (or_panic (closure_spec_info_new s c (cb_params cb) (cb_existentials cb))) (\<lambda>info.
     Ok (b, info, r))))))))))"

section \<open>Laws\<close>

lemma purify_exists [simp]: "purify (IpExists bs p) = IpExists bs p"
  by (simp add: purify_def)

text \<open>The conditions are not pure, and the one with the new state binds it before the result.\<close>

lemma closure_spec_info_binders:
  assumes "closure_spec_info_new s c extra_params extra_existentials = Some info"
  shows "\<exists>bs p. ci_pre_encoded info = TmLambda bs (TmIProp p) \<and> map get_name bs = [u_pi, ''_params'', ''_self'', ''_args'']"
    and "\<exists>bs p. ci_post_encoded info = TmLambda bs (TmIProp p)
      \<and> map get_name bs = [u_pi, ''_params'', ''_self'', ''_args'', ''_ret'']"
    and "\<exists>bs p. ci_post_mut_encoded info = TmLambda bs (TmIProp p)
      \<and> map get_name bs = [u_pi, ''_params'', ''_self'', ''_args'', ''_self_post'', ''_ret'']"
  using assms
  by (auto simp: closure_spec_info_new_def Let_def bind_eq_Some_conv encode_condition_def infer_binder_def binder_new_def
    get_name_def)

end
