(* ===== verification/RegionAnnots.thy ===== *)
theory RegionAnnots
  imports InclusionTracker ZombieLoans CaesiumSyntax
begin

text \<open>
  Lifetime annotations of assignments, composite values, calls and the start of a function:
  \<open>translation/src/regions/mod.rs\<close>, \<open>assignment.rs\<close>, \<open>composite.rs\<close>, \<open>calls.rs\<close> and the constraints of
  \<open>init.rs\<close>. The inclusion tracker is passed through; the borrow-checker facts are those of its
  \<open>it_info\<close>. \<^term>\<open>None\<close> is a panic; where the code returns a \<open>Result\<close>, an outcome is used.
\<close>

section \<open>Names of lifetimes\<close>

datatype lft_param_origin =
    OriginSurroundingTrait | OriginSurroundingImpl | OriginLocalEarlyBound | OriginLocalLateBound
  | OriginForBinder | OriginFunctionRebound

record lft_param =
  lp_lft :: lft
  lp_origin :: lft_param_origin

text \<open>The type in a constraint is not looked at here.\<close>

datatype lft_constr = RegionOutlives origin origin | TypeOutlives nat origin

record early_late_region_map =
  early_regions :: "origin option list"
  late_regions :: "origin list list"
  external_regions :: "origin list"
  lft_constraints :: "lft_constr list"
  region_names :: "(origin, lft_param) btmap"
  lft_names :: "string \<rightharpoonup> origin"

text \<open>\<open>xs.get(i)\<close>\<close>

definition vec_get :: "'a list \<Rightarrow> nat \<Rightarrow> 'a option" where
  "vec_get xs i = (if i < length xs then Some (xs ! i) else None)"

definition lookup_region :: "early_late_region_map \<Rightarrow> origin \<Rightarrow> lft_param option" where
  "lookup_region m r = bm_get (region_names m) r"

definition lookup_early_region :: "early_late_region_map \<Rightarrow> nat \<Rightarrow> lft_param option" where
  "lookup_early_region m idx =
     Option.bind (vec_get (early_regions m) idx) (\<lambda>ovid. Option.bind ovid (lookup_region m))"

definition lookup_late_region :: "early_late_region_map \<Rightarrow> nat \<Rightarrow> nat \<Rightarrow> lft_param option" where
  "lookup_late_region m idx var =
     Option.bind (vec_get (late_regions m) idx) (\<lambda>binder. Option.bind (vec_get binder var) (lookup_region m))"

text \<open>The outer option is the panic at a canonical bound variable.\<close>

definition translate_region_to_polonius :: "early_late_region_map \<Rightarrow> region \<Rightarrow> origin option option" where
  "translate_region_to_polonius m r =
     (case r of
        ReVar vid \<Rightarrow> Some (Some vid)
      | ReEarlyParam idx _ \<Rightarrow> Some (Option.bind (vec_get (early_regions m) idx) (\<lambda>r. r))
      | ReBound (BoundIdx idx) var _ \<Rightarrow>
          Some (Option.bind (vec_get (late_regions m) idx) (\<lambda>binder. vec_get binder var))
      | ReBound Canonical _ _ \<Rightarrow> None
      | _ \<Rightarrow> Some None)"

definition format_atomic_region_direct :: "atomic_region \<Rightarrow> early_late_region_map option \<Rightarrow> lft" where
  "format_atomic_region_direct r scope =
     (let text = (\<lambda>prefix index. prefix @ ''lft'' @ show_nat index) in
      case r of
        Loan r \<Rightarrow> text ''l'' r
      | PlaceRegion r uc \<Rightarrow> text (if uc then ''puc'' else ''p'') r
      | Unknown r uc \<Rightarrow> text (if uc then ''vuc'' else ''v'') r
      | Universal k r \<Rightarrow>
          if k = UStatic then ''static''
          else (case Option.bind scope (\<lambda>m. lookup_region m r) of
                  Some s \<Rightarrow> lp_lft s
                | None \<Rightarrow> text ''u'' r))"

definition translate_atomic_region :: "early_late_region_map \<Rightarrow> atomic_region \<Rightarrow> lft" where
  "translate_atomic_region m r = format_atomic_region_direct r (Some m)"

definition ensure_closure_region :: "atomic_region \<Rightarrow> early_late_region_map \<Rightarrow> early_late_region_map" where
  "ensure_closure_region r m =
     (if bm_get (region_names m) (get_region r) = None then
        m\<lparr>region_names := bm_insert (get_region r)
            \<lparr>lp_lft = format_atomic_region_direct r None, lp_origin = OriginLocalLateBound\<rparr> (region_names m),
          external_regions := external_regions m @ [get_region r]\<rparr>
      else m)"

definition insert_vid_fixup :: "origin \<Rightarrow> origin \<Rightarrow> early_late_region_map \<Rightarrow> early_late_region_map option" where
  "insert_vid_fixup from to m =
     (if from = to then Some m
      else if bm_get (region_names m) from \<noteq> None then None
      else map_option (\<lambda>to_name. m\<lparr>region_names := bm_insert from to_name (region_names m)\<rparr>) (bm_get (region_names m) to))"

definition region_to_region_vid :: "region \<Rightarrow> origin option" where
  "region_to_region_vid r = (case r of ReVar vid \<Rightarrow> Some vid | _ \<Rightarrow> None)"

section \<open>Regions of a type\<close>

text \<open>
  \<open>TyRegionCollectFolder\<close> visits every region of a type, also below binders; \<open>get_regions_of_ty\<close> goes
  through \<open>RegionFolder\<close>. What the compiler's traversal visits is the parameter of \<open>polonius_env\<close>.
\<close>

definition var_regions :: "region list \<Rightarrow> origin list" where
  "var_regions rs = List.map_filter (\<lambda>r. case r of ReVar v \<Rightarrow> Some v | _ \<Rightarrow> None) rs"

definition ty_region_collect :: "polonius_env \<Rightarrow> ty \<Rightarrow> origin btset" where
  "ty_region_collect E t = bs_from (var_regions (map fst (ty_regions E t)))"

definition get_regions_of_ty :: "polonius_env \<Rightarrow> ty \<Rightarrow> origin set" where
  "get_regions_of_ty E t = set (var_regions (fold_regions (ty_regions E) t))"

record place_ty =
  pty_ty :: ty
  pty_variant :: "nat option"

definition find_region_variables_of_place_type :: "polonius_env \<Rightarrow> place_ty \<Rightarrow> origin btset option" where
  "find_region_variables_of_place_type E t =
     (if pty_variant t \<noteq> None then None else Some (ty_region_collect E (pty_ty t)))"

section \<open>The environment of the annotations\<close>

record region_env =
  re_polonius :: polonius_env
  re_engine :: incl_engine
  re_closure_engine :: "(closure_fact list \<Rightarrow> closure_fact list) \<Rightarrow> closure_fact list \<Rightarrow> closure_fact list"
  re_scope :: early_late_region_map

definition atomic_of :: "region_env \<Rightarrow> inclusion_tracker \<Rightarrow> origin \<Rightarrow> atomic_region option" where
  "atomic_of R t r = mk_atomic_region (re_polonius R) (it_info t) r"

text \<open>\<open>ty_translator.format_atomic_region(info.mk_atomic_region(r))\<close>; in a body with borrow-checker
  facts, \<open>translate_region_var\<close> is the same.\<close>

definition region_lft :: "region_env \<Rightarrow> inclusion_tracker \<Rightarrow> origin \<Rightarrow> lft option" where
  "region_lft R t r = map_option (translate_atomic_region (re_scope R)) (atomic_of R t r)"

abbreviation base_of :: "inclusion_tracker \<Rightarrow> (origin \<times> origin \<times> point_index) list" where
  "base_of t \<equiv> subset_base (borrowck_in_facts (it_info t))"

abbreviation mid_of :: "inclusion_tracker \<Rightarrow> location \<Rightarrow> point_index" where
  "mid_of t l \<equiv> get_point (it_info t) l Mid"

section \<open>Assignments\<close>

definition strong_update_step ::
  "region_env \<Rightarrow> point_index \<Rightarrow> origin \<times> origin \<times> point_index
    \<Rightarrow> inclusion btset \<times> inclusion_tracker \<Rightarrow> (inclusion btset \<times> inclusion_tracker) option" where
  "strong_update_step R midpoint c s =
     (case (c, s) of ((s1, s2, point), (constraints, t)) \<Rightarrow>
        if point \<noteq> midpoint then Some s
        else Option.bind (atomic_of R t s2) (\<lambda>lft2.
          case check_inclusion (re_engine R) s1 s2 point t of (holds, t1) \<Rightarrow>
            Some (if holds then constraints
                  else if is_place lft2 then bs_insert (s1, s2, point) constraints
                  else constraints, t1)))"

definition get_assignment_strong_update_constraints ::
  "region_env \<Rightarrow> location \<Rightarrow> inclusion_tracker \<Rightarrow> (inclusion btset \<times> inclusion_tracker) option" where
  "get_assignment_strong_update_constraints R l t =
     fold_opt (strong_update_step R (mid_of t l)) (base_of t) ([], t)"

definition weak_update_step ::
  "region_env \<Rightarrow> point_index \<Rightarrow> origin \<times> origin \<times> point_index
    \<Rightarrow> inclusion btset \<times> inclusion_tracker \<Rightarrow> inclusion btset \<times> inclusion_tracker" where
  "weak_update_step R midpoint c s =
     (case (c, s) of ((s1, s2, point), (constraints, t)) \<Rightarrow>
        if point \<noteq> midpoint then s
        else (case check_inclusion (re_engine R) s1 s2 point t of (holds, t1) \<Rightarrow>
          (if holds then constraints else bs_insert (s1, s2, point) constraints, t1)))"

definition get_assignment_weak_update_constraints ::
  "region_env \<Rightarrow> location \<Rightarrow> inclusion_tracker \<Rightarrow> inclusion btset \<times> inclusion_tracker" where
  "get_assignment_weak_update_constraints R l t = fold (weak_update_step R (mid_of t l)) (base_of t) ([], t)"

definition get_new_unconstrained_regions :: "region_env \<Rightarrow> location \<Rightarrow> inclusion_tracker \<Rightarrow> origin btset option" where
  "get_new_unconstrained_regions R l t =
     fold_opt (\<lambda>(s1, _, point) rs.
         if point \<noteq> mid_of t l then Some rs
         else map_option (\<lambda>lft1. if is_unconstrained lft1 then bs_insert s1 rs else rs) (atomic_of R t s1))
       (base_of t) []"

record region_info =
  expr_annot :: "annotation option"
  new_dyn_inclusions :: "annotation list"
  stmt_annot :: "annotation list"
  unconstrained_regions :: "origin btset"

fun dyn_annotation :: "early_late_region_map \<Rightarrow> dynamic_inclusion \<Rightarrow> annotation" where
  "dyn_annotation m (ExtendLft l) = ExtendLftAnnot (translate_atomic_region m l)"
| "dyn_annotation m (IncludeLft l1 l2) =
     DynIncludeLftAnnot (translate_atomic_region m l1) (translate_atomic_region m l2)"

definition generate_dyn_inclusion_annots ::
  "region_env \<Rightarrow> inclusion btset \<Rightarrow> inclusion_tracker \<Rightarrow> (annotation list \<times> inclusion_tracker) option" where
  "generate_dyn_inclusion_annots R incls t =
     map_option (\<lambda>(incls, t). (map (dyn_annotation (re_scope R)) incls, t))
       (generate_dyn_inclusions (re_polonius R) (re_engine R) incls t)"

text \<open>One of the new constraints of a strong update.\<close>

definition strong_annot_step ::
  "region_env \<Rightarrow> inclusion \<Rightarrow> annotation list \<times> inclusion_tracker \<Rightarrow> (annotation list \<times> inclusion_tracker) option" where
  "strong_annot_step R c s =
     (case (c, s) of ((r1, r2, p), (annots, t)) \<Rightarrow>
        Option.bind (atomic_of R t r1) (\<lambda>ar1. Option.bind (atomic_of R t r2) (\<lambda>ar2.
          Some (if \<not> is_region_known r1 t \<and> \<not> is_loan ar1 \<and> \<not> is_unconstrained ar1 then s
                else (annots @ [CopyLftNameAnnot (translate_atomic_region (re_scope R) ar1)
                                                 (translate_atomic_region (re_scope R) ar2)],
                      add_static_inclusion r2 r1 p (add_static_inclusion r1 r2 p t))))))"

definition get_assignment_annots ::
  "region_env \<Rightarrow> location \<Rightarrow> bool \<Rightarrow> place_ty \<Rightarrow> inclusion_tracker \<Rightarrow> (region_info \<times> inclusion_tracker) option" where
  "get_assignment_annots R l lhs_strongly_writeable lhs_ty t =
     Option.bind (get_new_unconstrained_regions R l t) (\<lambda>unconstrained.
       Option.bind
         (if lhs_strongly_writeable then
            Option.bind (find_region_variables_of_place_type (re_polonius R) lhs_ty) (\<lambda>regions.
              let t1 = fold (\<lambda>r. add_barrier r (mid_of t l)) regions t in
              Option.bind (get_assignment_strong_update_constraints R l t1) (\<lambda>(new_constraints, t2).
                map_option (\<lambda>(annots, t3). (annots, [], t3)) (fold_opt (strong_annot_step R) new_constraints ([], t2))))
          else
            (case get_assignment_weak_update_constraints R l t of (incls, t1) \<Rightarrow> Some ([], incls, t1)))
         (\<lambda>(annots, incls, t').
            map_option (\<lambda>(dyn, t''). (\<lparr>expr_annot = None, new_dyn_inclusions = dyn, stmt_annot = annots,
                unconstrained_regions = unconstrained\<rparr>, t''))
              (generate_dyn_inclusion_annots R incls t')))"

definition get_outliving_regions_on_loan ::
  "origin \<Rightarrow> point_index \<Rightarrow> inclusion_tracker \<Rightarrow> origin list \<times> inclusion_tracker" where
  "get_outliving_regions_on_loan r loan_point t =
     fold (\<lambda>(r1, r2, p) (outliving, t).
         if p = loan_point \<and> r2 = r then (outliving @ [r1], add_static_inclusion r1 r2 p t) else (outliving, t))
       (base_of t) ([], t)"

definition get_assignment_loan_annots ::
  "region_env \<Rightarrow> location \<Rightarrow> inclusion_tracker \<Rightarrow> (annotation list \<times> inclusion_tracker) option" where
  "get_assignment_loan_annots R l t =
     (case get_optional_loan_at_location (it_info t) l of
        None \<Rightarrow> Some ([], t)
      | Some loan \<Rightarrow>
          Option.bind (atomic_region_of_loan (it_info t) loan) (\<lambda>lft.
            case get_outliving_regions_on_loan (get_region lft) (mid_of t l) t of (outliving, t1) \<Rightarrow>
              Option.bind (those (map (region_lft R t1) outliving)) (\<lambda>outliving_lfts.
                map_option (\<lambda>_. ([StartLftAnnot (translate_atomic_region (re_scope R) lft)
                       (if outliving_lfts = [] then [''_flft''] else outliving_lfts)], t1))
                  (get_region_kind (re_polonius R) (it_info t1) (get_region lft)))))"

text \<open>One unconstrained region of an assignment with right-hand side \<open>rhs\<close>, or of a call (no \<open>rhs\<close>).\<close>

type_synonym unconstrained_state = "annotation list \<times> lft list \<times> inclusion_tracker"

definition static_annot :: "region_env \<Rightarrow> origin \<Rightarrow> unconstrained_state \<Rightarrow> unconstrained_state option" where
  "static_annot R r s =
     (case s of (annots, hints, t) \<Rightarrow>
        map_option (\<lambda>l. (annots @ [CopyLftNameAnnot ''static'' l], hints, t)) (region_lft R t r))"

definition borrow_below_raw :: "region_env \<Rightarrow> origin \<Rightarrow> rvalue \<Rightarrow> unconstrained_state \<Rightarrow> unconstrained_state option" where
  "borrow_below_raw R r rhs s =
     (case s of (annots, hints, t) \<Rightarrow>
        case rhs of
          Use (Constant _) \<Rightarrow> static_annot R r s
        | Ref region _ _ \<Rightarrow>
            Option.bind (region_to_region_vid region) (\<lambda>vid.
              if vid = r then
                map_option (\<lambda>l. (annots @ [UnconstrainedLftAnnot l], hints @ [l], t)) (region_lft R t r)
              else static_annot R r s)
        | _ \<Rightarrow> static_annot R r s)"

definition unconstrained_step ::
  "region_env \<Rightarrow> location \<Rightarrow> rvalue option \<Rightarrow> origin \<Rightarrow> unconstrained_state \<Rightarrow> unconstrained_state option" where
  "unconstrained_step R l rhs r s =
     (case s of (annots, hints, t) \<Rightarrow>
        case rhs of
          None \<Rightarrow> Some s
        | Some (Ref region BorShared p) \<Rightarrow>
            Option.bind (region_to_region_vid region) (\<lambda>region'.
              case List.find (\<lambda>(_, r2). r2 = region')
                     (get_new_subset_constraints_at_point (it_info t) (mid_of t l)) of
                Some (r1, _) \<Rightarrow>
                  Option.bind (region_lft R t r1) (\<lambda>l1. map_option (\<lambda>l2.
                    (annots @ [CopyLftNameAnnot l1 l2], hints, add_static_inclusion r1 region' (mid_of t l) t))
                    (region_lft R t region'))
              | None \<Rightarrow> borrow_below_raw R r (Ref region BorShared p) s)
        | Some v \<Rightarrow> borrow_below_raw R r v s)"

definition make_unconstrained_region_annotations ::
  "region_env \<Rightarrow> origin btset \<Rightarrow> location \<Rightarrow> rvalue option \<Rightarrow> inclusion_tracker \<Rightarrow> unconstrained_state option" where
  "make_unconstrained_region_annotations R unconstrained l rhs t =
     fold_opt (unconstrained_step R l rhs) unconstrained ([], [], t)"

section \<open>Composite values\<close>

definition composite_step ::
  "region_env \<Rightarrow> point_index \<Rightarrow> origin set \<Rightarrow> origin \<times> origin \<times> point_index
    \<Rightarrow> annotation list \<times> inclusion_tracker \<Rightarrow> (annotation list \<times> inclusion_tracker) option" where
  "composite_step R midpoint regions_of_ty c s =
     (case (c, s) of ((s1, s2, point), (annots, t)) \<Rightarrow>
        if point \<noteq> midpoint then Some s
        else Option.bind (atomic_of R t s1) (\<lambda>lft1. Option.bind (atomic_of R t s2) (\<lambda>lft2.
          Some (if is_value lft2 \<and> is_place lft1 \<and> s2 \<in> regions_of_ty \<and> (s2, s1, midpoint) \<notin> set (base_of t) then
                  (annots @ [CopyLftNameAnnot (translate_atomic_region (re_scope R) lft1)
                                              (translate_atomic_region (re_scope R) lft2)],
                   add_static_inclusion s2 s1 midpoint (add_static_inclusion s1 s2 midpoint t))
                else s))))"

definition get_composite_rvalue_creation_annots ::
  "region_env \<Rightarrow> location \<Rightarrow> ty \<Rightarrow> inclusion_tracker \<Rightarrow> (annotation list \<times> inclusion_tracker) option" where
  "get_composite_rvalue_creation_annots R l rhs_ty t =
     fold_opt (composite_step R (mid_of t l) (get_regions_of_ty (re_polonius R) rhs_ty)) (base_of t) ([], t)"

section \<open>Calls\<close>

datatype call_region_kind = Intersection "origin btset" | EqR origin

record call_regions =
  cr_early_regions :: "origin list"
  cr_late_regions :: "origin list"
  cr_classification :: "(origin, call_region_kind) btmap"

definition early_call_regions :: "generic_arg list \<Rightarrow> origin list" where
  "early_call_regions substs =
     List.map_filter (\<lambda>a. case a of ArgLifetime (ReVar r) \<Rightarrow> Some r | _ \<Rightarrow> None) substs"

definition generic_call_regions :: "polonius_env \<Rightarrow> generic_arg list \<Rightarrow> origin btset" where
  "generic_call_regions E substs =
     bs_from (concat (map (\<lambda>a. case a of ArgType c \<Rightarrow> var_regions (fold_regions (ty_regions E) c) | _ \<Rightarrow> []) substs))"

definition is_unknown_kind :: "region_kind \<Rightarrow> bool" where
  "is_unknown_kind k = (case k of KUnknown _ \<Rightarrow> True | _ \<Rightarrow> False)"

definition relevant_step ::
  "region_env \<Rightarrow> inclusion_tracker \<Rightarrow> origin \<times> origin
    \<Rightarrow> origin btset \<times> (origin \<times> origin) list \<Rightarrow> (origin btset \<times> (origin \<times> origin) list) option" where
  "relevant_step R t c s =
     (case (c, s) of ((r1, r2), (new_regions, relevant)) \<Rightarrow>
        let kind = get_region_kind (re_polonius R) (it_info t);
            note = (\<lambda>r (new, rel). map_option (\<lambda>k.
              if is_unknown_kind k then (bs_insert r new, rel @ [(r1, r2)]) else (new, rel)) (kind r))
        in Option.bind (note r1 (new_regions, relevant)) (note r2))"

definition retained_late ::
  "origin list \<Rightarrow> (origin \<times> origin) list \<Rightarrow> nat \<Rightarrow> origin list \<Rightarrow> origin list" where
  "retained_late early relevant expected late =
     (if length late > expected then
        filter (\<lambda>x. \<not> list_ex (\<lambda>y. (x, y) \<in> set relevant \<and> (y, x) \<in> set relevant) early) late
      else late)"

text \<open>
  The inner loop for the region \<open>r\<close>: \<open>known\<close> is the tracker's query, \<open>rel\<close> the closed constraints, of
  which the list holds those still to visit. \<open>unreachable!()\<close> is \<^term>\<open>None\<close>.
\<close>

fun classify_region ::
  "(origin \<Rightarrow> bool) \<Rightarrow> origin set \<Rightarrow> (origin \<times> origin) set \<Rightarrow> origin \<Rightarrow> (origin \<times> origin) list
    \<Rightarrow> (origin, call_region_kind) btmap \<Rightarrow> (origin, call_region_kind) btmap option" where
  "classify_region known new rel r [] m = Some m"
| "classify_region known new rel r ((r1, r2) # rest) m =
     (if r2 \<noteq> r then classify_region known new rel r rest m
      else if r1 = r2 then classify_region known new rel r rest m
      else if \<not> known r1 \<and> r1 \<notin> new then classify_region known new rel r rest m
      else if (r2, r1) \<in> rel then
        (if r1 \<in> new \<and> r2 < r1 then classify_region known new rel r rest m
         else Some (bm_insert r2 (EqR r1) m))
      else if r1 \<in> new then classify_region known new rel r rest m
      else (case (case bm_get m r of None \<Rightarrow> Intersection [] | Some k \<Rightarrow> k) of
              EqR _ \<Rightarrow> None
            | Intersection s \<Rightarrow> classify_region known new rel r rest (bm_insert r (Intersection (bs_insert r1 s)) m)))"

definition compute_call_regions ::
  "region_env \<Rightarrow> generic_arg list \<Rightarrow> location \<Rightarrow> nat \<Rightarrow> inclusion_tracker \<Rightarrow> call_regions option" where
  "compute_call_regions R substs l num_expected_late_bounds t =
     (let early = early_call_regions substs;
          generic = generic_call_regions (re_polonius R) substs;
          new_constraints = get_new_subset_constraints_at_point (it_info t) (mid_of t l)
      in Option.bind (fold_opt (relevant_step R t) new_constraints ([], [])) (\<lambda>(new_regions, relevant).
           let late = filter (\<lambda>r. r \<notin> set early \<and> r \<notin> set generic) new_regions;
               late = retained_late early relevant num_expected_late_bounds late;
               closed = compute_transitive_closure (re_closure_engine R) relevant
           in map_option (\<lambda>m. \<lparr>cr_early_regions = early, cr_late_regions = late, cr_classification = m\<rparr>)
                (fold_opt (\<lambda>r m. classify_region (\<lambda>r1. is_region_known r1 t) (set new_regions) (set closed) r closed m)
                   new_regions [])))"

definition early_lft_name :: "early_late_region_map \<Rightarrow> nat \<Rightarrow> (origin \<times> lft) option" where
  "early_lft_name m idx =
     (if idx < length (early_regions m) then
        Option.bind (early_regions m ! idx) (\<lambda>vid. map_option (\<lambda>p. (vid, lp_lft p)) (bm_get (region_names m) vid))
      else None)"

definition unconstrained_call_step ::
  "region_env \<Rightarrow> point_index \<Rightarrow> (lft, nat) btmap \<Rightarrow> origin
    \<Rightarrow> annotation list \<times> origin btset \<times> inclusion_tracker
    \<Rightarrow> (annotation list \<times> origin btset \<times> inclusion_tracker) option" where
  "unconstrained_call_step R midpoint early_region_map r s =
     (case s of (annots, remaining, t) \<Rightarrow>
        Option.bind (region_lft R t r) (\<lambda>translated_region.
          case bm_get early_region_map translated_region of
            None \<Rightarrow> Some (annots, bs_insert r remaining, t)
          | Some idx \<Rightarrow>
              map_option (\<lambda>(early_lft_vid, name).
                (annots @ [CopyLftNameAnnot name translated_region], remaining,
                 add_static_inclusion early_lft_vid r midpoint (add_static_inclusion r early_lft_vid midpoint t)))
                (early_lft_name (re_scope R) idx)))"

definition compute_unconstrained_region_annots ::
  "region_env \<Rightarrow> location \<Rightarrow> origin btset \<Rightarrow> (lft, nat) btmap \<Rightarrow> inclusion_tracker
    \<Rightarrow> (annotation list \<times> origin btset \<times> inclusion_tracker) option" where
  "compute_unconstrained_region_annots R l unconstrained early_region_map t =
     fold_opt (unconstrained_call_step R (mid_of t l) early_region_map) unconstrained ([], [], t)"

section \<open>The start of a function\<close>

abbreviation root_point :: "polonius_info \<Rightarrow> point_type \<Rightarrow> point_index" where
  "root_point I typ \<equiv> get_point I (loc 0 0) typ"

definition find_placeholder_region_for :: "polonius_env \<Rightarrow> origin \<Rightarrow> polonius_info \<Rightarrow> origin option option" where
  "find_placeholder_region_for E r I =
     fold_opt (\<lambda>(r1, r2, p) found.
         if found \<noteq> None then Some found
         else map_option (\<lambda>k1.
           if p = root_point I Start \<and> r2 = r \<and> (case k1 of KUniversal _ \<Rightarrow> True | _ \<Rightarrow> False) then Some r1 else None)
           (get_region_kind E I r1))
       (subset_base (borrowck_in_facts I)) None"

definition initialize_inclusion_tracker :: "early_late_region_map \<Rightarrow> polonius_info \<Rightarrow> inclusion_tracker" where
  "initialize_inclusion_tracker lifetime_scope I =
     fold (\<lambda>(r1, r2) t. add_static_inclusion r1 r2 (root_point I Start) t)
       (known_placeholder_subset (borrowck_in_facts I))
       (fold (\<lambda>cstr t. case cstr of
            RegionOutlives r1 r2 \<Rightarrow> add_static_inclusion r1 r2 (root_point I Start) t
          | TypeOutlives _ _ \<Rightarrow> t) (lft_constraints lifetime_scope) (tracker_new I))"

definition closure_constraint_step ::
  "polonius_env \<Rightarrow> polonius_info \<Rightarrow> origin \<times> origin \<times> point_index
    \<Rightarrow> (atomic_region \<times> atomic_region) list \<times> inclusion_tracker
    \<Rightarrow> ((atomic_region \<times> atomic_region) list \<times> inclusion_tracker) option" where
  "closure_constraint_step E I c s =
     (case (c, s) of ((r1, r2, p), (constraints, t)) \<Rightarrow>
        if p = root_point I Mid \<and> (r2, r1, p) \<in> set (subset_base (borrowck_in_facts I)) then
          Option.bind (mk_atomic_region E I r1) (\<lambda>lft1. Option.bind (mk_atomic_region E I r2) (\<lambda>lft2.
            Some (if is_place lft1 \<and> is_value lft2 then
                    (constraints @ [(lft1, lft2)],
                     add_static_inclusion r2 r1 (root_point I Mid) (add_static_inclusion r1 r2 (root_point I Mid) t))
                  else s)))
        else Some s)"

definition get_initial_closure_constraints ::
  "polonius_env \<Rightarrow> polonius_info \<Rightarrow> inclusion_tracker
    \<Rightarrow> ((atomic_region \<times> atomic_region) list \<times> inclusion_tracker) option" where
  "get_initial_closure_constraints E I t =
     fold_opt (closure_constraint_step E I) (subset_base (borrowck_in_facts I)) ([], t)"

end
