(* ===== verification/DefOrder.thy ===== *)
theory DefOrder
  imports MirSyntax BTree CoqSyntax "HOL-Library.Multiset"
begin

text \<open>
  Names and orders of definitions: \<open>base.rs\<close> and the name mangling of \<open>types/mod.rs\<close> and \<open>types/scope.rs\<close>
  in \<open>translation/src\<close>. Strings are the bytes of UTF-8 text, as in \<open>CoqSyntax\<close>; which characters beyond
  ASCII are alphanumeric, the printing of types, the erasure of regions, the path hashes of definitions and
  the crate \<open>topological_sort\<close> are parameters.
\<close>

section \<open>Identifiers\<close>

text \<open>\<open>str::replace\<close> with a non-empty pattern: matches are found from the left and do not overlap.\<close>

function str_replace :: "string \<Rightarrow> string \<Rightarrow> string \<Rightarrow> string" where
  "str_replace pat new s =
     (case s of [] \<Rightarrow> []
      | c # cs \<Rightarrow>
          if pat \<noteq> [] \<and> take (length pat) s = pat then new @ str_replace pat new (drop (length pat) s)
          else c # str_replace pat new cs)"
  by pat_completeness auto
termination by (relation "measure (\<lambda>(pat, new, s). length s)") (auto simp: Suc_le_eq)

declare str_replace.simps [simp del]

text \<open>The characters of a UTF-8 string, each as its bytes: a byte and the continuation bytes after it.\<close>

definition continuation_byte :: "char \<Rightarrow> bool" where
  "continuation_byte c \<longleftrightarrow> 128 \<le> (of_char c :: nat) \<and> (of_char c :: nat) < 192"

function utf8_chars :: "string \<Rightarrow> string list" where
  "utf8_chars [] = []"
| "utf8_chars (c # cs) = (c # takeWhile continuation_byte cs) # utf8_chars (dropWhile continuation_byte cs)"
  by pat_completeness auto
termination by (relation "measure length") (auto simp: le_imp_less_Suc length_dropWhile_le)

definition ascii_alnum :: "char \<Rightarrow> bool" where
  "ascii_alnum c \<longleftrightarrow> c \<in> set ''0123456789ABCDEFGHIJKLMNOPQRSTUVWXYZabcdefghijklmnopqrstuvwxyz''"

definition ident_char :: "(string \<Rightarrow> bool) \<Rightarrow> string \<Rightarrow> bool" where
  "ident_char alnum s =
     (case s of [c] \<Rightarrow> ascii_alnum c \<or> c = CHR ''_'' | _ \<Rightarrow> alnum s)"

definition strip_coq_ident :: "(string \<Rightarrow> bool) \<Rightarrow> string \<Rightarrow> string" where
  "strip_coq_ident alnum s =
     concat (filter (ident_char alnum) (utf8_chars
       (str_replace ''()'' ''unit'' (str_replace ''&'' ''REF'' (str_replace ''::'' ''_'' (str_replace [CHR 0x27] [] s))))))"

text \<open>\<open>format!("{ty}")\<close> is the parameter \<open>show_ty\<close>.\<close>

definition mangle_name_with_tys :: "(string \<Rightarrow> bool) \<Rightarrow> (ty \<Rightarrow> string) \<Rightarrow> string \<Rightarrow> ty list \<Rightarrow> string" where
  "mangle_name_with_tys alnum show_ty method_name args =
     strip_coq_ident alnum (method_name @ concat (map (\<lambda>arg. ''_'' @ show_ty arg) args))"

definition mangle_name_with_args :: "(string \<Rightarrow> bool) \<Rightarrow> (ty \<Rightarrow> string) \<Rightarrow> string \<Rightarrow> generic_arg list \<Rightarrow> string" where
  "mangle_name_with_args alnum show_ty name args =
     name @ concat (map (\<lambda>arg. case arg of ArgType t \<Rightarrow> ''_'' @ strip_coq_ident alnum (show_ty t) | _ \<Rightarrow> []) args)"

section \<open>Ordered definition identifiers\<close>

text \<open>
  An \<open>OrderedDefId\<close>: the path hash, which the compiler computes, and the definition itself. Definitions are
  numbered in the order of the pairs of crate and index that a \<open>DefId\<close> consists of.
\<close>

datatype ordered_did = OrderedDid (odid_hash: nat) (odid_def: def_id)

definition odid_new :: "(def_id \<Rightarrow> nat) \<Rightarrow> def_id \<Rightarrow> ordered_did" where
  "odid_new def_path_hash did = OrderedDid (def_path_hash did) did"

text \<open>\<open>impl Ord for OrderedDefId\<close>\<close>

fun odid_less :: "ordered_did \<Rightarrow> ordered_did \<Rightarrow> bool" where
  "odid_less (OrderedDid h d) (OrderedDid h' d') \<longleftrightarrow> h < h' \<or> (h = h' \<and> d < d')"

instantiation ordered_did :: linorder
begin
definition less_ordered_did :: "ordered_did \<Rightarrow> ordered_did \<Rightarrow> bool" where
  "less_ordered_did = odid_less"
definition less_eq_ordered_did :: "ordered_did \<Rightarrow> ordered_did \<Rightarrow> bool" where
  "less_eq_ordered_did a b \<longleftrightarrow> a = b \<or> odid_less a b"
instance
proof
  fix x y z :: ordered_did
  show "x < y \<longleftrightarrow> x \<le> y \<and> \<not> y \<le> x"
    by (cases x; cases y) (auto simp: less_ordered_did_def less_eq_ordered_did_def)
  show "x \<le> x" by (simp add: less_eq_ordered_did_def)
  show "x \<le> y \<Longrightarrow> y \<le> z \<Longrightarrow> x \<le> z"
    by (cases x; cases y; cases z) (auto simp: less_eq_ordered_did_def)
  show "x \<le> y \<Longrightarrow> y \<le> x \<Longrightarrow> x = y"
    by (cases x; cases y) (auto simp: less_eq_ordered_did_def)
  show "x \<le> y \<or> y \<le> x"
    by (cases x; cases y) (auto simp: less_eq_ordered_did_def)
qed
end

text \<open>\<open>sort_by\<close> is stable.\<close>

definition sort_def_ids :: "(def_id \<Rightarrow> nat) \<Rightarrow> def_id list \<Rightarrow> def_id list" where
  "sort_def_ids def_path_hash dids = sort_key def_path_hash dids"

section \<open>Topological order of definitions\<close>

text \<open>
  The crate \<open>topological_sort\<close> as a record of its operations. Its documentation promises what the locale
  states, with \<open>items\<close> the elements not yet popped and \<open>edges\<close> the dependencies between them: \<open>pop_all\<close>
  removes and returns all elements that depend on no other one.
\<close>

record 's topo_ops =
  topo_new :: 's
  topo_insert :: "def_id \<Rightarrow> 's \<Rightarrow> 's"
  topo_add_dependency :: "def_id \<Rightarrow> def_id \<Rightarrow> 's \<Rightarrow> 's"     \<comment> \<open>predecessor, then successor\<close>
  topo_is_empty :: "'s \<Rightarrow> bool"
  topo_pop_all :: "'s \<Rightarrow> def_id list \<times> 's"

definition topo_graph :: "'s topo_ops \<Rightarrow> (ordered_did, ordered_did btset) btmap \<Rightarrow> 's" where
  "topo_graph T deps =
     fold (\<lambda>(did, referenced) topo.
         fold (\<lambda>did2 topo. topo_add_dependency T (odid_def did2) (odid_def did) topo) referenced (topo_insert T (odid_def did) topo))
       deps (topo_new T)"

text \<open>
  The loop that pops the elements level by level. The outer option is \<^term>\<open>None\<close> when it does not return,
  the inner one is the panic at a dependency cycle.
\<close>

partial_function (option) order_levels ::
  "(def_id \<Rightarrow> nat) \<Rightarrow> 's topo_ops \<Rightarrow> ordered_did btset \<Rightarrow> 's \<Rightarrow> def_id list \<Rightarrow> def_id list option option" where
  "order_levels D T defs topo defn_order =
     (if topo_is_empty T topo then Some (Some defn_order)
      else (case topo_pop_all T topo of (nxt, topo') \<Rightarrow>
        let nxt = sort_def_ids D nxt in
        if nxt = [] then Some None
        else order_levels D T defs topo' (defn_order @ filter (\<lambda>x. odid_new D x \<in> set defs) nxt)))"

definition order_defs_with_deps ::
  "(def_id \<Rightarrow> nat) \<Rightarrow> 's topo_ops \<Rightarrow> (ordered_did, ordered_did btset) btmap \<Rightarrow> def_id list option option" where
  "order_defs_with_deps D T deps = order_levels D T (bm_keys deps) (topo_graph T deps) []"

section \<open>Laws of the identifiers\<close>

lemma concat_utf8_chars: "concat (utf8_chars s) = s"
  by (induction s rule: utf8_chars.induct) simp_all

lemma set_str_replace: "set (str_replace pat new s) \<subseteq> set s \<union> set new"
proof (induction pat new s rule: str_replace.induct)
  case (1 pat new s)
  show ?case
  proof (cases s)
    case Nil
    then show ?thesis by (simp add: str_replace.simps)
  next
    case (Cons c cs)
    show ?thesis
    proof (cases "pat \<noteq> [] \<and> take (length pat) s = pat")
      case True
      then have "str_replace pat new s = new @ str_replace pat new (drop (length pat) s)"
        using Cons by (subst str_replace.simps) simp
      with 1(1) [OF Cons] True set_drop_subset [of "length pat" s] Cons show ?thesis by auto
    next
      case False
      then have "str_replace pat new s = c # str_replace pat new cs"
        using Cons by (subst str_replace.simps) auto
      with 1(2) [OF Cons] False Cons show ?thesis by auto
    qed
  qed
qed

definition ascii :: "string \<Rightarrow> bool" where
  "ascii s \<longleftrightarrow> (\<forall>c \<in> set s. (of_char c :: nat) < 128)"

lemma utf8_chars_ascii: "ascii s \<Longrightarrow> utf8_chars s = map (\<lambda>c. [c]) s"
proof (induction s rule: utf8_chars.induct)
  case (2 c cs)
  then have "takeWhile continuation_byte cs = []" "dropWhile continuation_byte cs = cs"
    by (cases cs; auto simp: ascii_def continuation_byte_def)+
  with 2 show ?case by (auto simp: ascii_def)
qed simp

lemma ascii_str_replace: "ascii s \<Longrightarrow> ascii new \<Longrightarrow> ascii (str_replace pat new s)"
  using set_str_replace [of pat new s] by (auto simp: ascii_def)

text \<open>What is left of an ASCII name is an identifier.\<close>

lemma strip_coq_ident_chars:
  assumes "ascii s" and "c \<in> set (strip_coq_ident alnum s)"
  shows "ascii_alnum c \<or> c = CHR ''_''"
proof -
  have "ascii (str_replace ''()'' ''unit'' (str_replace ''&'' ''REF'' (str_replace ''::'' ''_'' (str_replace [CHR 0x27] [] s))))"
    by (intro ascii_str_replace assms(1)) (simp_all add: ascii_def)
  from utf8_chars_ascii [OF this] assms(2) show ?thesis
    by (auto simp: strip_coq_ident_def ident_char_def)
qed

text \<open>Different types are printed to the same name: here a pair and a parameter called \<open>AB\<close>.\<close>

definition show_pair :: "ty \<Rightarrow> string" where
  "show_pair t = (case t of TyTuple _ \<Rightarrow> ''(A, B)'' | _ \<Rightarrow> ''AB'')"

lemma mangling_not_injective:
  "mangle_name_with_tys (\<lambda>_. False) show_pair ''f'' [TyTuple [TyParam 0 ''A'', TyParam 1 ''B'']]
     = mangle_name_with_tys (\<lambda>_. False) show_pair ''f'' [TyParam 0 ''AB'']"
  by code_simp

section \<open>Laws of the topological sort\<close>

text \<open>The graph of a map of dependencies, and lists in which dependencies come first.\<close>

definition deps_edges :: "(ordered_did, ordered_did btset) btmap \<Rightarrow> (def_id \<times> def_id) set" where
  "deps_edges deps = {(odid_def d2, odid_def d) | d d2 refs. (d, refs) \<in> set deps \<and> d2 \<in> set refs}"

definition deps_nodes :: "(ordered_did, ordered_did btset) btmap \<Rightarrow> def_id set" where
  "deps_nodes deps = odid_def ` set (bm_keys deps) \<union> odid_def ` (\<Union>(d, refs) \<in> set deps. set refs)"

definition deps_first :: "(def_id \<times> def_id) set \<Rightarrow> def_id set \<Rightarrow> def_id list \<Rightarrow> bool" where
  "deps_first R K xs \<longleftrightarrow> (\<forall>as d bs p. xs = as @ d # bs \<longrightarrow> (p, d) \<in> R \<longrightarrow> p \<in> K \<longrightarrow> p \<in> set as)"

locale topological_sort =
  fixes T :: "'s topo_ops" and items :: "'s \<Rightarrow> def_id set" and edges :: "'s \<Rightarrow> (def_id \<times> def_id) set"
  assumes items_new: "items (topo_new T) = {}"
    and edges_new: "edges (topo_new T) = {}"
    and items_insert: "items (topo_insert T x s) = insert x (items s)"
    and edges_insert: "edges (topo_insert T x s) = edges s"
    and items_add: "items (topo_add_dependency T p q s) = {p, q} \<union> items s"
    and edges_add: "edges (topo_add_dependency T p q s) = insert (p, q) (edges s)"
    and empty_iff: "topo_is_empty T s \<longleftrightarrow> items s = {}"
    and pop_distinct: "distinct (fst (topo_pop_all T s))"
    and pop_set: "set (fst (topo_pop_all T s)) = {x \<in> items s. \<forall>p. (p, x) \<notin> edges s}"
    and items_pop: "items (snd (topo_pop_all T s)) = items s - set (fst (topo_pop_all T s))"
    and edges_pop: "edges (snd (topo_pop_all T s)) = {e \<in> edges s. fst e \<notin> set (fst (topo_pop_all T s))}"
begin

lemmas topo_laws = items_new edges_new items_insert edges_insert items_add edges_add items_pop edges_pop

lemma graph_dependencies:
  "items (fold (\<lambda>d2 t. topo_add_dependency T (odid_def d2) d t) refs t) =
     items t \<union> odid_def ` set refs \<union> (if refs = [] then {} else {d})
   \<and> edges (fold (\<lambda>d2 t. topo_add_dependency T (odid_def d2) d t) refs t) = edges t \<union> (\<lambda>d2. (odid_def d2, d)) ` set refs"
  by (induction refs arbitrary: t) (auto simp: topo_laws)

lemma graph_from:
  "items (fold (\<lambda>(d, refs) t. fold (\<lambda>d2 t. topo_add_dependency T (odid_def d2) (odid_def d) t) refs
       (topo_insert T (odid_def d) t)) deps t) = items t \<union> deps_nodes deps
   \<and> edges (fold (\<lambda>(d, refs) t. fold (\<lambda>d2 t. topo_add_dependency T (odid_def d2) (odid_def d) t) refs
       (topo_insert T (odid_def d) t)) deps t) = edges t \<union> deps_edges deps"
proof (induction deps arbitrary: t)
  case Nil
  show ?case by (simp add: deps_nodes_def deps_edges_def bm_keys_def)
next
  case (Cons e deps)
  obtain d refs where e: "e = (d, refs)" by fastforce
  have nodes: "deps_nodes (e # deps) = insert (odid_def d) (odid_def ` set refs) \<union> deps_nodes deps"
    by (auto simp: e deps_nodes_def bm_keys_def)
  have edges: "deps_edges (e # deps) = (\<lambda>d2. (odid_def d2, odid_def d)) ` set refs \<union> deps_edges deps"
    by (fastforce simp: e deps_edges_def)
  show ?case
    unfolding nodes edges using Cons.IH [of "fold (\<lambda>d2 t. topo_add_dependency T (odid_def d2) (odid_def d) t) refs
       (topo_insert T (odid_def d) t)"]
    by (auto simp: e graph_dependencies topo_laws)
qed

lemma graph_items: "items (topo_graph T deps) = deps_nodes deps"
  and graph_edges: "edges (topo_graph T deps) = deps_edges deps"
  using graph_from [of deps "topo_new T"] by (simp_all add: topo_graph_def topo_laws)

definition level_inv ::
  "(def_id \<times> def_id) set \<Rightarrow> def_id set \<Rightarrow> def_id set \<Rightarrow> 's \<Rightarrow> def_id list \<Rightarrow> bool" where
  "level_inv R N K topo acc \<longleftrightarrow>
     items topo \<subseteq> N \<and> edges topo = {e \<in> R. fst e \<in> items topo} \<and> distinct acc
   \<and> set acc = (N - items topo) \<inter> K \<and> deps_first R K acc"

lemma level_inv_pop:
  assumes inv: "level_inv R N K topo acc" and R: "R \<subseteq> N \<times> N" and pop: "topo_pop_all T topo = (nxt, topo')"
    and mset: "mset nxt' = mset nxt"
  shows "level_inv R N K topo' (acc @ filter (\<lambda>x. x \<in> K) nxt')"
proof -
  have nxt: "set nxt = {x \<in> items topo. \<forall>p. (p, x) \<notin> edges topo}" "distinct nxt"
    and topo': "items topo' = items topo - set nxt" "edges topo' = {e \<in> edges topo. fst e \<notin> set nxt}"
    using pop_set [of topo] pop_distinct [of topo] items_pop [of topo] edges_pop [of topo] pop by simp_all
  from mset have set: "set nxt' = set nxt" by (metis set_mset_mset)
  from mset nxt(2) have dist: "distinct nxt'" by (metis distinct_count_atmost_1 set)
  have first: "deps_first R K (acc @ filter (\<lambda>x. x \<in> K) nxt')"
    unfolding deps_first_def
  proof (intro allI impI)
    fix as d bs p
    assume split: "acc @ filter (\<lambda>x. x \<in> K) nxt' = as @ d # bs" and p: "(p, d) \<in> R" "p \<in> K"
    show "p \<in> set as"
    proof -
      from split consider us where "acc = as @ us" "us @ filter (\<lambda>x. x \<in> K) nxt' = d # bs" "us \<noteq> []"
        | us where "as = acc @ us" "filter (\<lambda>x. x \<in> K) nxt' = us @ d # bs"
        by (auto simp: append_eq_append_conv2) (metis append_Nil append_Nil2)
      then show ?thesis
      proof cases
        case 1
        then obtain bs' where "acc = as @ d # bs'" by (cases us) auto
        with inv p show ?thesis by (auto simp: level_inv_def deps_first_def)
      next
        case 2
        from 2(2) have "d \<in> set (filter (\<lambda>x. x \<in> K) nxt')" by (metis in_set_conv_decomp)
        then have "d \<in> set nxt" using set by auto
        with nxt(1) have "(p, d) \<notin> edges topo" by simp
        with inv p(1) have "p \<notin> items topo" by (auto simp: level_inv_def)
        moreover from p(1) R have "p \<in> N" by auto
        ultimately have "p \<in> set acc" using inv p(2) by (simp add: level_inv_def)
        with 2(1) show ?thesis by simp
      qed
    qed
  qed
  have acc: "set acc = (N - items topo) \<inter> K" "distinct acc" "items topo \<subseteq> N" "edges topo = {e \<in> R. fst e \<in> items topo}"
    using inv by (simp_all add: level_inv_def)
  show ?thesis unfolding level_inv_def topo'
    using acc first dist set nxt(1) by auto
qed

lemma order_levels_spec:
  assumes "finite N" and R: "R \<subseteq> N \<times> N" and K: "\<And>x. x \<in> N \<Longrightarrow> odid_new h x \<in> set defs \<longleftrightarrow> x \<in> K"
    and "level_inv R N K topo acc"
  shows "\<exists>r. order_levels h T defs topo acc = Some r \<and>
     (case r of Some xs \<Rightarrow> distinct xs \<and> set xs = N \<inter> K \<and> deps_first R K xs | None \<Rightarrow> \<not> acyclic R)"
  using assms(4)
proof (induction "card (items topo)" arbitrary: topo acc rule: less_induct)
  case less
  show ?case
  proof (cases "items topo = {}")
    case True
    with less.prems show ?thesis
      by (subst order_levels.simps) (auto simp: empty_iff level_inv_def)
  next
    case False
    obtain nxt topo' where pop: "topo_pop_all T topo = (nxt, topo')" by fastforce
    define nxt' where "nxt' = sort_def_ids h nxt"
    have mset: "mset nxt' = mset nxt" by (simp add: nxt'_def sort_def_ids_def)
    have inN: "set nxt' \<subseteq> N" "items topo \<subseteq> N" and fin: "finite (items topo)"
      using less.prems pop_set [of topo] pop mset_eq_setD [OF mset] finite_subset [OF _ \<open>finite N\<close>]
      by (auto simp: level_inv_def)
    have step: "order_levels h T defs topo acc =
        (if nxt' = [] then Some None else order_levels h T defs topo' (acc @ filter (\<lambda>x. x \<in> K) nxt'))"
    proof -
      have "filter (\<lambda>x. odid_new h x \<in> set defs) nxt' = filter (\<lambda>x. x \<in> K) nxt'"
        using inN K by (auto intro: filter_cong)
      then show ?thesis using False
        by (subst order_levels.simps) (simp add: empty_iff pop nxt'_def)
    qed
    show ?thesis
    proof (cases "nxt' = []")
      case True
      have "\<not> acyclic R"
      proof
        assume "acyclic R"
        then have "acyclic (R \<inter> items topo \<times> items topo)" by (rule acyclic_subset) simp
        then have "wf (R \<inter> items topo \<times> items topo)"
          by (rule finite_acyclic_wf [rotated]) (rule finite_subset [OF Int_lower2 finite_cartesian_product [OF fin fin]])
        moreover from False obtain x0 where "x0 \<in> items topo" by auto
        ultimately obtain x where x: "x \<in> items topo" "\<And>y. (y, x) \<in> R \<inter> items topo \<times> items topo \<Longrightarrow> y \<notin> items topo"
          by (rule wfE_min) blast
        have "(p, x) \<notin> edges topo" for p
        proof
          assume "(p, x) \<in> edges topo"
          with less.prems have "(p, x) \<in> R" "p \<in> items topo" by (simp_all add: level_inv_def)
          with x(1) x(2) [of p] show False by simp
        qed
        then have "x \<in> set nxt" using x(1) pop_set [of topo] pop by simp
        with True mset show False by simp
      qed
      with True show ?thesis by (simp add: step)
    next
      case nonempty: False
      from nonempty mset have "nxt \<noteq> []" by auto
      then obtain x where "x \<in> set nxt" by (cases nxt) auto
      moreover have "set nxt \<subseteq> items topo" using pop_set [of topo] pop by auto
      ultimately have "items topo' \<subset> items topo" using items_pop [of topo] pop by auto
      with fin have "card (items topo') < card (items topo)" by (rule psubset_card_mono)
      from less.hyps [OF this level_inv_pop [OF less.prems R pop mset]] nonempty
      show ?thesis by (simp add: step)
    qed
  qed
qed

lemma order_defs_spec:
  assumes hashes: "\<forall>d \<in> set (bm_keys deps). odid_new h (odid_def d) = d"
  shows "\<exists>r. order_defs_with_deps h T deps = Some r
    \<and> (case r of Some xs \<Rightarrow> distinct xs \<and> set xs = odid_def ` set (bm_keys deps)
           \<and> deps_first (deps_edges deps) (odid_def ` set (bm_keys deps)) xs
       | None \<Rightarrow> \<not> acyclic (deps_edges deps))"
proof -
  let ?R = "deps_edges deps" and ?N = "deps_nodes deps" and ?K = "odid_def ` set (bm_keys deps)"
  have fin: "finite ?N" by (auto simp: deps_nodes_def)
  have R: "?R \<subseteq> ?N \<times> ?N" by (force simp: deps_edges_def deps_nodes_def bm_keys_def)
  have K: "odid_new h x \<in> set (bm_keys deps) \<longleftrightarrow> x \<in> ?K" for x
    using hashes by (force simp: odid_new_def)
  have inv: "level_inv ?R ?N ?K (topo_graph T deps) []"
    using R by (auto simp: level_inv_def graph_items graph_edges deps_first_def)
  have "?N \<inter> ?K = ?K" by (auto simp: deps_nodes_def)
  with order_levels_spec [OF fin R K inv] show ?thesis
    by (simp add: order_defs_with_deps_def cong: option.case_cong)
qed

end

text \<open>A list in which each definition stands after the ones it refers to comes from a graph without cycles.\<close>

lemma deps_first_acyclic:
  assumes first: "deps_first R K xs" and targets: "\<And>p q. (p, q) \<in> R \<Longrightarrow> q \<in> K" and set: "set xs = K"
  shows "acyclic R"
proof -
  let ?f = "\<lambda>x. if x \<in> K then Suc (length (takeWhile (\<lambda>y. y \<noteq> x) xs)) else 0"
  have "?f p < ?f q" if e: "(p, q) \<in> R" for p q
  proof (cases "p \<in> K")
    case True
    from targets [OF e] set have q: "q \<in> set xs" by simp
    then have "xs = takeWhile (\<lambda>y. y \<noteq> q) xs @ q # tl (dropWhile (\<lambda>y. y \<noteq> q) xs)"
      by (metis (mono_tags, lifting) dropWhile_eq_Nil_conv hd_dropWhile list.collapse takeWhile_dropWhile_id)
    with first e True have "p \<in> set (takeWhile (\<lambda>y. y \<noteq> q) xs)" by (auto simp: deps_first_def)
    then obtain as bs where split: "takeWhile (\<lambda>y. y \<noteq> q) xs = as @ p # bs" "p \<notin> set as"
      by (meson split_list_first)
    have "xs = as @ p # bs @ dropWhile (\<lambda>y. y \<noteq> q) xs"
      using split(1) by (metis append.assoc append_Cons takeWhile_dropWhile_id)
    then have "takeWhile (\<lambda>y. y \<noteq> p) xs = as"
      using split(2) by (metis (mono_tags, lifting) takeWhile_append2 takeWhile.simps(2) append_Nil2)
    with split(1) True targets [OF e] show ?thesis by simp
  qed (use targets [OF e] in simp)
  then have "R \<subseteq> measure ?f" by auto
  then show ?thesis by (rule wf_acyclic [OF wf_subset [OF wf_measure]])
qed

section \<open>Ordering definitions\<close>

text \<open>A topological sort on lists of elements and edges.\<close>

definition list_topo :: "(def_id list \<times> (def_id \<times> def_id) list) topo_ops" where
  "list_topo =
     \<lparr>topo_new = ([], []),
      topo_insert = (\<lambda>x (xs, es). (x # xs, es)),
      topo_add_dependency = (\<lambda>p q (xs, es). (p # q # xs, (p, q) # es)),
      topo_is_empty = (\<lambda>(xs, es). xs = []),
      topo_pop_all = (\<lambda>(xs, es).
        let ready = remdups (filter (\<lambda>x. \<forall>e \<in> set es. snd e \<noteq> x) xs)
        in (ready, filter (\<lambda>x. x \<notin> set ready) xs, filter (\<lambda>e. fst e \<notin> set ready) es))\<rparr>"

interpretation list_topo: topological_sort list_topo "\<lambda>s. set (fst s)" "\<lambda>s. set (snd s)"
  by unfold_locales (auto simp: list_topo_def Let_def split: prod.splits)

text \<open>
  C31. Ordering definitions by their dependencies returns. It panics exactly when the dependencies have a
  cycle; otherwise the result lists each definition once, after all definitions it refers to.
\<close>

theorem order_defs_with_deps_spec:
  assumes topo: "topological_sort T items edges"
    and hashes: "\<forall>d \<in> set (bm_keys deps). odid_new h (odid_def d) = d"
  shows "\<exists>r. order_defs_with_deps h T deps = Some r
    \<and> (r = None \<longleftrightarrow> \<not> acyclic (deps_edges deps))
    \<and> (\<forall>xs. r = Some xs \<longrightarrow> distinct xs \<and> set xs = odid_def ` set (bm_keys deps)
         \<and> deps_first (deps_edges deps) (odid_def ` set (bm_keys deps)) xs)"
proof -
  let ?R = "deps_edges deps" and ?K = "odid_def ` set (bm_keys deps)"
  have targets: "(p, q) \<in> ?R \<Longrightarrow> q \<in> ?K" for p q
    by (force simp: deps_edges_def bm_keys_def)
  from topological_sort.order_defs_spec [OF topo hashes] deps_first_acyclic [of ?R ?K, OF _ targets]
  show ?thesis by (fastforce split: option.splits)
qed

text \<open>Definition 7 refers to 5 and 9, of which 9 is not to be ordered.\<close>

definition three_defs :: "(ordered_did, ordered_did btset) btmap" where
  "three_defs = [(OrderedDid 1 7, [OrderedDid 2 5, OrderedDid 3 9]), (OrderedDid 2 5, [])]"

lemma order_defs_with_deps_spec_witness:
  "\<exists>xs. order_defs_with_deps (\<lambda>d. if d = 7 then 1 else 2) list_topo three_defs = Some (Some xs) \<and> set xs = {5, 7}"
proof -
  have "acyclic (deps_edges three_defs)"
  proof (rule wf_acyclic [OF wf_subset [OF wf_measure [of "\<lambda>d. if d = 7 then 1 else 0"]]])
    show "deps_edges three_defs \<subseteq> measure (\<lambda>d. if d = 7 then 1 else 0)"
      by (auto simp: deps_edges_def three_defs_def)
  qed
  with order_defs_with_deps_spec [OF list_topo.topological_sort_axioms, of three_defs "\<lambda>d. if d = 7 then 1 else 2"]
  show ?thesis by (auto simp: three_defs_def bm_keys_def odid_new_def)
qed

end
