(* ===== verification/Procedures.thy ===== *)
theory Procedures
  imports DefOrder
begin

text \<open>
  The errors of the translation (\<open>base.rs\<close>) and its registries of functions and statics:
  \<open>translation/src/procedures.rs\<close> and \<open>consts.rs\<close>. Translated functions, specifications and the information on
  closures are opaque here. Of the errors only the variant and the definitions and indices they carry are
  kept, not the messages.
\<close>

section \<open>Errors\<close>

datatype translation_error =
    UnsupportedFeature
  | UnsupportedType
  | RecursiveTypeWithoutInvariant def_id
  | Unimplemented
  | InvalidLayout
  | UnknownVar
  | UnknownError
  | FatalError
  | AttributeError
  | UnknownAttributeParser
  | UnknownProcedure
  | UnknownEarlyRegion
  | UnknownLateRegionOutsideFunction nat nat
  | UnknownLateRegion nat nat
  | PlaceholderRegion
  | UnknownRegion
  | PoloniusRegionOutsideFunction nat
  | UnknownPoloniusRegion nat
  | TraitResolution
  | TraitTranslation
  | ProcedureRegistry
  | LoopSpecError
  | IncompleteTraitImplSpec def_id
  | ErrorReported

section \<open>Modes and metadata\<close>

datatype mode = Prove | OnlySpec | TrustMe | Shim | CodeShim | Ignore

fun is_prove :: "mode \<Rightarrow> bool" where "is_prove Prove = True" | "is_prove _ = False"
fun is_only_spec :: "mode \<Rightarrow> bool" where "is_only_spec OnlySpec = True" | "is_only_spec _ = False"
fun is_trust_me :: "mode \<Rightarrow> bool" where "is_trust_me TrustMe = True" | "is_trust_me _ = False"
fun is_shim :: "mode \<Rightarrow> bool" where "is_shim Shim = True" | "is_shim _ = False"
fun is_code_shim :: "mode \<Rightarrow> bool" where "is_code_shim CodeShim = True" | "is_code_shim _ = False"
fun is_ignore :: "mode \<Rightarrow> bool" where "is_ignore Ignore = True" | "is_ignore _ = False"

definition is_assumed :: "mode \<Rightarrow> bool" where "is_assumed m \<longleftrightarrow> is_only_spec m \<or> is_trust_me m"
definition needs_proof :: "mode \<Rightarrow> bool" where "needs_proof m \<longleftrightarrow> is_prove m \<or> is_code_shim m"
definition needs_def :: "mode \<Rightarrow> bool" where "needs_def m \<longleftrightarrow> is_prove m \<or> is_trust_me m"
definition needs_spec :: "mode \<Rightarrow> bool" where
  "needs_spec m \<longleftrightarrow> is_prove m \<or> is_trust_me m \<or> is_only_spec m \<or> is_code_shim m"

record meta =
  meta_spec_name :: string
  meta_code_name :: string
  meta_trait_req_incl_name :: string
  meta_name :: string
  meta_mode :: mode
  meta_is_default_trait_impl :: bool
  meta_is_closure :: bool

section \<open>The scope of procedures\<close>

text \<open>\<open>'f\<close> is a translated function, \<open>'s\<close> a specification, \<open>'c\<close> what is stored about a closure.\<close>

record ('f, 's, 'c) proc_scope =
  name_map :: "(ordered_did, meta) btmap"
  translated_functions :: "(ordered_did, 'f) btmap"
  specced_functions :: "(ordered_did, 's) btmap"
  closure_infos :: "(ordered_did, 'c) btmap"

definition proc_scope_new :: "('f, 's, 'c) proc_scope" where
  "proc_scope_new = \<lparr>name_map = [], translated_functions = [], specced_functions = [], closure_infos = []\<rparr>"

type_synonym path_hash = "def_id \<Rightarrow> nat"

definition lookup_closure_info :: "path_hash \<Rightarrow> ('f, 's, 'c) proc_scope \<Rightarrow> def_id \<Rightarrow> 'c option" where
  "lookup_closure_info h S did = bm_get (closure_infos S) (odid_new h did)"

definition lookup_function :: "path_hash \<Rightarrow> ('f, 's, 'c) proc_scope \<Rightarrow> def_id \<Rightarrow> meta option" where
  "lookup_function h S did = bm_get (name_map S) (odid_new h did)"

text \<open>\<open>spec_of\<close> is the field \<open>spec\<close> of a translated function.\<close>

definition lookup_function_spec :: "path_hash \<Rightarrow> ('f \<Rightarrow> 's) \<Rightarrow> ('f, 's, 'c) proc_scope \<Rightarrow> def_id \<Rightarrow> 's option" where
  "lookup_function_spec h spec_of S did =
     (case bm_get (translated_functions S) (odid_new h did) of
        Some f \<Rightarrow> Some (spec_of f)
      | None \<Rightarrow> bm_get (specced_functions S) (odid_new h did))"

definition lookup_function_mode :: "path_hash \<Rightarrow> ('f, 's, 'c) proc_scope \<Rightarrow> def_id \<Rightarrow> mode option" where
  "lookup_function_mode h S did = map_option meta_mode (bm_get (name_map S) (odid_new h did))"

text \<open>
  Registering a function also reports a diagnostic when assumptions are not allowed (the second component).
  The entry is replaced before the error is returned.
\<close>

definition register_function ::
  "path_hash \<Rightarrow> bool \<Rightarrow> def_id \<Rightarrow> meta \<Rightarrow> ('f, 's, 'c) proc_scope
    \<Rightarrow> (translation_error, unit) outcome \<times> bool \<times> ('f, 's, 'c) proc_scope" where
  "register_function h no_assumption did m S =
     (if bm_get (name_map S) (odid_new h did) \<noteq> None then Err ProcedureRegistry else Ok (),
      no_assumption \<and> is_assumed (meta_mode m),
      S\<lparr>name_map := bm_insert (odid_new h did) m (name_map S)\<rparr>)"

definition override_trait_default_impl_names ::
  "path_hash \<Rightarrow> def_id \<Rightarrow> string \<Rightarrow> string \<Rightarrow> ('f, 's, 'c) proc_scope \<Rightarrow> ('f, 's, 'c) proc_scope option" where
  "override_trait_default_impl_names h did spec_name trait_req_incl_name S =
     (case bm_get (name_map S) (odid_new h did) of
        None \<Rightarrow> Some S
      | Some names \<Rightarrow>
          if meta_is_default_trait_impl names then
            Some (S\<lparr>name_map := bm_insert (odid_new h did)
              (names\<lparr>meta_spec_name := spec_name, meta_trait_req_incl_name := trait_req_incl_name\<rparr>) (name_map S)\<rparr>)
          else None)"

definition provide_translated_function ::
  "path_hash \<Rightarrow> def_id \<Rightarrow> 'f \<Rightarrow> ('f, 's, 'c) proc_scope \<Rightarrow> ('f, 's, 'c) proc_scope option" where
  "provide_translated_function h did trf S =
     Option.bind (bm_get (name_map S) (odid_new h did)) (\<lambda>m.
       if needs_def (meta_mode m) \<or> is_code_shim (meta_mode m) then
         if bm_get (translated_functions S) (odid_new h did) = None
         then Some (S\<lparr>translated_functions := bm_insert (odid_new h did) trf (translated_functions S)\<rparr>)
         else None
       else None)"

definition provide_specced_function ::
  "path_hash \<Rightarrow> def_id \<Rightarrow> 's \<Rightarrow> ('f, 's, 'c) proc_scope \<Rightarrow> ('f, 's, 'c) proc_scope option" where
  "provide_specced_function h did spec S =
     Option.bind (bm_get (name_map S) (odid_new h did)) (\<lambda>m.
       if is_only_spec (meta_mode m) then
         if bm_get (specced_functions S) (odid_new h did) = None
         then Some (S\<lparr>specced_functions := bm_insert (odid_new h did) spec (specced_functions S)\<rparr>)
         else None
       else None)"

definition iter_code :: "('f, 's, 'c) proc_scope \<Rightarrow> (ordered_did \<times> 'f) list" where
  "iter_code S = translated_functions S"

definition iter_only_spec :: "('f, 's, 'c) proc_scope \<Rightarrow> (ordered_did \<times> 's) list" where
  "iter_only_spec S = specced_functions S"

section \<open>Statics\<close>

record 'y static_meta =
  static_ident :: string
  static_loc_name :: string
  static_ty :: 'y

type_synonym 'y const_scope = "(ordered_did, 'y static_meta) btmap"

definition register_static :: "ordered_did \<Rightarrow> 'y static_meta \<Rightarrow> 'y const_scope \<Rightarrow> 'y const_scope" where
  "register_static did m S = bm_insert did m S"

definition get_static :: "'y const_scope \<Rightarrow> ordered_did \<Rightarrow> (translation_error, 'y static_meta) outcome" where
  "get_static S did = (case bm_get S did of Some m \<Rightarrow> Ok m | None \<Rightarrow> Err UnknownError)"

section \<open>Laws of the registry\<close>

text \<open>
  A function is stored as translated only if its registered mode asks for a definition or a code shim, as
  specified only if its mode is \<open>only_spec\<close>; so no function is both, and the lookup is not ambiguous.
\<close>

definition proc_scope_ok :: "('f, 's, 'c) proc_scope \<Rightarrow> bool" where
  "proc_scope_ok S \<longleftrightarrow>
     bm_ok (name_map S) \<and> bm_ok (translated_functions S) \<and> bm_ok (specced_functions S)
   \<and> (\<forall>d f. bm_get (translated_functions S) d = Some f \<longrightarrow>
        (\<exists>m. bm_get (name_map S) d = Some m \<and> (needs_def (meta_mode m) \<or> is_code_shim (meta_mode m))))
   \<and> (\<forall>d s. bm_get (specced_functions S) d = Some s \<longrightarrow>
        (\<exists>m. bm_get (name_map S) d = Some m \<and> is_only_spec (meta_mode m)))"

lemma only_spec_not_def: "is_only_spec m \<Longrightarrow> \<not> needs_def m \<and> \<not> is_code_shim m"
  by (cases m) (auto simp: needs_def_def)

lemma proc_scope_ok_new: "proc_scope_ok proc_scope_new"
  by (simp add: proc_scope_ok_def proc_scope_new_def bm_ok_def bm_keys_def bm_get_def)

lemma proc_scope_ok_register:
  assumes "proc_scope_ok S" and "register_function h no did m S = (Ok (), diag, S')"
  shows "proc_scope_ok S'"
proof -
  from assms(2) have S': "S' = S\<lparr>name_map := bm_insert (odid_new h did) m (name_map S)\<rparr>"
    and new: "bm_get (name_map S) (odid_new h did) = None"
    by (auto simp: register_function_def split: if_splits)
  have "bm_get (translated_functions S) (odid_new h did) = None" "bm_get (specced_functions S) (odid_new h did) = None"
    using assms(1) new by (auto simp: proc_scope_ok_def)
  with assms(1) show ?thesis
    unfolding S' by (auto simp: proc_scope_ok_def bm_ok_insert bm_get_insert)
qed

text \<open>The scopes that a sequence of successful operations produces.\<close>

inductive reachable_scope :: "path_hash \<Rightarrow> ('f, 's, 'c) proc_scope \<Rightarrow> bool" for h where
  new: "reachable_scope h proc_scope_new"
| register: "\<lbrakk>reachable_scope h S; register_function h no did m S = (Ok (), diag, S')\<rbrakk> \<Longrightarrow> reachable_scope h S'"
| override: "\<lbrakk>reachable_scope h S; override_trait_default_impl_names h did sn tn S = Some S'\<rbrakk> \<Longrightarrow> reachable_scope h S'"
| translated: "\<lbrakk>reachable_scope h S; provide_translated_function h did f S = Some S'\<rbrakk> \<Longrightarrow> reachable_scope h S'"
| specced: "\<lbrakk>reachable_scope h S; provide_specced_function h did s S = Some S'\<rbrakk> \<Longrightarrow> reachable_scope h S'"

lemma reachable_scope_ok: "reachable_scope h S \<Longrightarrow> proc_scope_ok S"
proof (induction rule: reachable_scope.induct)
  case new
  show ?case by (rule proc_scope_ok_new)
next
  case (register S no did m diag S')
  then show ?case by (blast intro: proc_scope_ok_register)
next
  case (override S did sn tn S')
  then show ?case
    by (auto simp: override_trait_default_impl_names_def proc_scope_ok_def bm_ok_insert bm_get_insert
        split: option.splits if_splits) fastforce+
next
  case (translated S did f S')
  then show ?case
    by (auto simp: provide_translated_function_def proc_scope_ok_def bm_ok_insert bm_get_insert
        split: bind_splits if_splits)
next
  case (specced S did s S')
  then show ?case
    by (auto simp: provide_specced_function_def proc_scope_ok_def bm_ok_insert bm_get_insert
        split: bind_splits if_splits)
qed

text \<open>
  C32. In every registry that successful operations produce, a function has a translated body only if its
  registered mode asks for one, and a bare specification only if its mode is \<open>only_spec\<close>; it never has both.
\<close>

theorem registry_modes_respected:
  assumes "reachable_scope h S"
  shows "(bm_get (translated_functions S) (odid_new h did) \<noteq> None \<longrightarrow>
            (\<exists>m. lookup_function_mode h S did = Some m \<and> (needs_def m \<or> is_code_shim m)))
    \<and> (bm_get (specced_functions S) (odid_new h did) \<noteq> None \<longrightarrow> lookup_function_mode h S did = Some OnlySpec)
    \<and> (bm_get (translated_functions S) (odid_new h did) = None \<or> bm_get (specced_functions S) (odid_new h did) = None)"
proof -
  have only: "is_only_spec m \<longleftrightarrow> m = OnlySpec" for m by (cases m) auto
  from reachable_scope_ok [OF assms] show ?thesis
    by (fastforce simp: proc_scope_ok_def lookup_function_mode_def only needs_def_def)
qed

definition spec_meta :: meta where
  "spec_meta = \<lparr>meta_spec_name = ''type_of_f'', meta_code_name = ''f_def'', meta_trait_req_incl_name = ''f_incl'',
     meta_name = ''f'', meta_mode = OnlySpec, meta_is_default_trait_impl = False, meta_is_closure = False\<rparr>"

definition one_registered :: "(nat, nat, nat) proc_scope" where
  "one_registered = snd (snd (register_function id False 3 spec_meta proc_scope_new))"

definition one_specced :: "(nat, nat, nat) proc_scope" where
  "one_specced = the (provide_specced_function id 3 0 one_registered)"

lemma one_specced_reachable: "reachable_scope id one_specced"
proof -
  have "register_function id False 3 spec_meta proc_scope_new = (Ok (), False, one_registered)"
    by (simp add: one_registered_def register_function_def proc_scope_new_def bm_get_def spec_meta_def is_assumed_def)
  then have "reachable_scope id one_registered" by (rule reachable_scope.register [OF reachable_scope.new])
  moreover have "provide_specced_function id 3 0 one_registered = Some one_specced"
    by (simp add: one_specced_def one_registered_def register_function_def proc_scope_new_def provide_specced_function_def
      bm_get_def odid_new_def spec_meta_def)
  ultimately show ?thesis by (rule reachable_scope.specced)
qed

lemma registry_modes_respected_witness:
  "bm_get (specced_functions one_specced) (odid_new id 3) = Some 0
    \<and> lookup_function_mode id one_specced 3 = Some OnlySpec
    \<and> bm_get (translated_functions one_specced) (odid_new id 3) = None"
proof -
  have "bm_get (specced_functions one_specced) (odid_new id 3) = Some 0"
    by (simp add: one_specced_def one_registered_def register_function_def proc_scope_new_def provide_specced_function_def
      bm_get_def odid_new_def spec_meta_def)
  with registry_modes_respected [OF one_specced_reachable, of 3] show ?thesis by simp
qed

end
