(* ===== verification/BodyState.thy ===== *)
theory BodyState
  imports RegionAnnots ProcedureLoops Procedures "HOL-Library.List_Lexorder" "HOL-Library.Char_ord"
begin

text \<open>
  The translation of function bodies, its state and its environment: the struct \<open>TX\<close> and the helper
  methods of \<open>translation/src/body/translation/mod.rs\<close>, the searches of \<open>loops.rs\<close> and the function builder of
  \<open>radium/src/code.rs\<close>. The fields of \<open>TX\<close> that change during the translation are the record \<open>tx\<close>; the
  others, with what the compiler and the type translator compute, are the record \<open>tx_env\<close>. A method is a
  function on states with an outcome; an error or a panic ends the translation of the body, so the state
  is dropped there. \<open>'y\<close> is a translated type, \<open>'t\<close> the state of the type translator, \<open>'g\<close> a generic scope,
  an instantiation or an implementation of radium.
\<close>

section \<open>Methods\<close>

type_synonym ('s, 'a) action = "'s \<Rightarrow> (translation_error, 'a \<times> 's) outcome"

definition tx_return :: "'a \<Rightarrow> ('s, 'a) action" where
  "tx_return x = (\<lambda>s. Ok (x, s))"

definition tx_bind :: "('s, 'a) action \<Rightarrow> ('a \<Rightarrow> ('s, 'b) action) \<Rightarrow> ('s, 'b) action" where
  "tx_bind m f = (\<lambda>s. and_then (m s) (\<lambda>(x, s'). f x s'))"

definition tx_seq :: "('s, 'a) action \<Rightarrow> ('s, 'b) action \<Rightarrow> ('s, 'b) action" where
  "tx_seq m n = tx_bind m (\<lambda>_. n)"

definition tx_fail :: "translation_error \<Rightarrow> ('s, 'a) action" where
  "tx_fail e = (\<lambda>s. Err e)"

definition tx_panic :: "('s, 'a) action" where
  "tx_panic = (\<lambda>s. Panic)"

definition tx_lift :: "(translation_error, 'a) outcome \<Rightarrow> ('s, 'a) action" where
  "tx_lift r = (\<lambda>s. and_then r (\<lambda>x. Ok (x, s)))"

definition tx_get :: "('s \<Rightarrow> 'a) \<Rightarrow> ('s, 'a) action" where
  "tx_get f = (\<lambda>s. Ok (f s, s))"

definition tx_modify :: "('s \<Rightarrow> 's) \<Rightarrow> ('s, unit) action" where
  "tx_modify f = (\<lambda>s. Ok ((), f s))"

primrec tx_map :: "('a \<Rightarrow> ('s, 'b) action) \<Rightarrow> 'a list \<Rightarrow> ('s, 'b list) action" where
  "tx_map f [] = tx_return []"
| "tx_map f (x # xs) = tx_bind (f x) (\<lambda>y. tx_bind (tx_map f xs) (\<lambda>ys. tx_return (y # ys)))"

text \<open>A loop over \<open>xs\<close> with an accumulator.\<close>

primrec tx_fold :: "('a \<Rightarrow> 'b \<Rightarrow> ('s, 'b) action) \<Rightarrow> 'a list \<Rightarrow> 'b \<Rightarrow> ('s, 'b) action" where
  "tx_fold f [] acc = tx_return acc"
| "tx_fold f (x # xs) acc = tx_bind (f x acc) (tx_fold f xs)"

section \<open>What the compiler computes\<close>

datatype adt_kind = AdtStruct | AdtEnum | AdtUnion

datatype int_size = Size8 | Size16 | Size32 | Size64 | Size128

text \<open>\<open>abi::IntegerType\<close>; the boolean is the sign.\<close>

datatype integer_type = Fixed int_size bool | Pointer bool

record adt_variant =
  av_def_id :: def_id
  av_name :: string
  av_fields :: "string list"

record adt_def =
  ad_kind :: adt_kind
  ad_is_box :: bool
  ad_variants :: "adt_variant list"
  ad_discr_type :: integer_type

datatype global_alloc = StaticAlloc def_id | OtherAlloc

text \<open>A local declaration: its type, its kind and whether its storage is always live.\<close>

datatype mir_local_kind = ArgLocal | TempLocal | ReturnLocal

text \<open>An entry of the debug information: a name and the local it stands for, if it is a whole local.\<close>

record debug_info =
  dbg_name :: string
  dbg_local :: "mir_local option"

record mir_env =
  me_body :: body
  me_local_tys :: "ty list"
  me_local_kind :: "mir_local \<Rightarrow> mir_local_kind"
  me_always_live :: "mir_local \<Rightarrow> bool"
  me_debug_info :: "debug_info list"
  me_place_ty :: "place \<Rightarrow> place_ty"
  me_operand_ty :: "operand \<Rightarrow> ty"
  me_rvalue_ty :: "rvalue \<Rightarrow> ty"
  me_projection_ty :: "place_ty \<Rightarrow> place_elem \<Rightarrow> place_ty"
  me_adt :: "def_id \<Rightarrow> adt_def"
  me_const_eval :: "nat \<Rightarrow> const_value option"
  me_global_alloc :: "nat \<Rightarrow> global_alloc"
  me_path_hash :: path_hash
  me_alnum :: "string \<Rightarrow> bool"
  me_show_ty :: "ty \<Rightarrow> string"
  me_begin_panic :: "def_id option"
  me_core_panic :: "def_id option"
  me_discriminant_value :: "def_id option"

section \<open>The type translator\<close>

text \<open>
  \<open>types::LocalTX\<close>: its methods change the scope of the function. The use of a literal type is known by its
  syntactic types and, for an enum, its annotation.
\<close>

record literal_use =
  lu_raw_syn_type :: syn_type
  lu_syn_type :: syn_type
  lu_enum_def :: "rust_enum_def option"

record ('y, 't) types_env =
  ty_translate :: "ty \<Rightarrow> ('t, 'y) action"
  ty_structlike :: "ty \<Rightarrow> nat option \<Rightarrow> ('t, literal_use option) action"
  ty_struct :: "def_id \<Rightarrow> generic_arg list \<Rightarrow> ('t, literal_use option) action"
  ty_enum_variant :: "def_id \<Rightarrow> generic_arg list \<Rightarrow> ('t, literal_use) action"
  ty_enum :: "def_id \<Rightarrow> generic_arg list \<Rightarrow> ('t, literal_use) action"
  ty_tuple :: "ty list \<Rightarrow> ('t, literal_use) action"
  ty_syn :: "'y \<Rightarrow> syn_type"
  ty_rust :: "'y \<Rightarrow> rust_type option"
  ty_int :: "'y \<Rightarrow> int_type option"
  ty_layoutable :: "'t \<Rightarrow> syn_type list"     \<comment> \<open>of the type parameters, the shims and the tuples used\<close>

section \<open>The function builder\<close>

datatype 'g used_procedure_spec = SpecTerm string string | SpecTraitMethod 'g string

record 'g used_procedure =
  up_loc_name :: string
  up_spec_term :: "'g used_procedure_spec"
  up_quantified_scope :: 'g
  up_scope_inst :: 'g
  up_syntypes :: "syn_type list"

text \<open>The specification is opaque: \<open>'s\<close>, with \<^term>\<open>None\<close> when none has been created.\<close>

record ('y, 'g, 'l, 's) function_builder =
  fb_code :: function_code_def
  fb_code_name :: string
  fb_spec :: "'s option"
  fb_generics :: "'g option"
  fb_other_functions :: "'g used_procedure list"
  fb_layoutable :: "syn_type list"
  fb_statics :: "'y static_meta list"
  fb_unconstrained :: "lft list"
  fb_tactics :: "string list"
  fb_loop_invariants :: "(nat, 'l) btmap"
  fb_link_assum :: "string list"

definition builder_new :: "string \<Rightarrow> ('y, 'g, 'l, 's) function_builder" where
  "builder_new code_name =
     \<lparr>fb_code = function_code_def_new, fb_code_name = code_name, fb_spec = None, fb_generics = None,
      fb_other_functions = [], fb_layoutable = [], fb_statics = [], fb_unconstrained = [], fb_tactics = [],
      fb_loop_invariants = [], fb_link_assum = []\<rparr>"

definition require_function ::
  "'g used_procedure \<Rightarrow> ('y, 'g, 'l, 's) function_builder \<Rightarrow> ('y, 'g, 'l, 's) function_builder" where
  "require_function p b = b\<lparr>fb_other_functions := fb_other_functions b @ [p]\<rparr>"

definition require_static ::
  "'y static_meta \<Rightarrow> ('y, 'g, 'l, 's) function_builder \<Rightarrow> ('y, 'g, 'l, 's) function_builder" where
  "require_static m b = b\<lparr>fb_statics := fb_statics b @ [m]\<rparr>"

definition add_manual_tactic ::
  "string \<Rightarrow> ('y, 'g, 'l, 's) function_builder \<Rightarrow> ('y, 'g, 'l, 's) function_builder" where
  "add_manual_tactic tac b = b\<lparr>fb_tactics := fb_tactics b @ [tac]\<rparr>"

definition add_unconstrained_lft_hint ::
  "lft \<Rightarrow> ('y, 'g, 'l, 's) function_builder \<Rightarrow> ('y, 'g, 'l, 's) function_builder" where
  "add_unconstrained_lft_hint l b = b\<lparr>fb_unconstrained := fb_unconstrained b @ [l]\<rparr>"

definition assume_synty_layoutable ::
  "syn_type \<Rightarrow> ('y, 'g, 'l, 's) function_builder \<Rightarrow> ('y, 'g, 'l, 's) function_builder" where
  "assume_synty_layoutable st b = b\<lparr>fb_layoutable := fb_layoutable b @ [st]\<rparr>"

definition register_loop_invariant ::
  "nat \<Rightarrow> 'l \<Rightarrow> ('y, 'g, 'l, 's) function_builder \<Rightarrow> ('y, 'g, 'l, 's) function_builder option" where
  "register_loop_invariant bb spec b =
     (if bm_get (fb_loop_invariants b) bb \<noteq> None then None
      else Some (b\<lparr>fb_loop_invariants := bm_insert bb spec (fb_loop_invariants b)\<rparr>))"

definition provide_generic_scope ::
  "'g \<Rightarrow> ('y, 'g, 'l, 's) function_builder \<Rightarrow> ('y, 'g, 'l, 's) function_builder option" where
  "provide_generic_scope sc b = (if fb_generics b \<noteq> None then None else Some (b\<lparr>fb_generics := Some sc\<rparr>))"

definition add_linktime_assumption ::
  "string \<Rightarrow> ('y, 'g, 'l, 's) function_builder \<Rightarrow> ('y, 'g, 'l, 's) function_builder" where
  "add_linktime_assumption a b = b\<lparr>fb_link_assum := fb_link_assum b @ [a]\<rparr>"

definition add_function_spec ::
  "'s \<Rightarrow> ('y, 'g, 'l, 's) function_builder \<Rightarrow> ('y, 'g, 'l, 's) function_builder option" where
  "add_function_spec sp b = (if fb_spec b \<noteq> None then None else Some (b\<lparr>fb_spec := Some sp\<rparr>))"

text \<open>The code with its parameters is assembled and printed elsewhere; here the parts are put in order.\<close>

definition into_function :: "('y, 'g, 'l, 's) function_builder \<Rightarrow> ('y, 'g, 'l, 's) function_builder option" where
  "into_function b =
     (if fb_spec b = None then None
      else Some (b\<lparr>fb_other_functions := sort_key up_loc_name (fb_other_functions b),
                   fb_statics := sort_key static_ident (fb_statics b)\<rparr>))"

section \<open>Function uses\<close>

datatype trait_resolution_kind = ResolvedParam | ResolvedUserDefined | ResolvedClosure

datatype closure_kind = ClosureFn | ClosureFnMut | ClosureFnOnce

text \<open>\<open>AbstractedGenerics\<close> and \<open>ProcedureInst\<close>\<close>

record ('y, 'g) abstracted_generics =
  ag_scope :: 'g
  ag_lft_inst :: "lft list"
  ag_ty_inst :: "'y list"
  ag_num_latebounds :: nat
  ag_fn_scope_inst :: 'g

record 'y procedure_inst =
  pi_method_params :: "generic_arg list"
  pi_type_hint :: "'y list"
  pi_lft_hint :: "lft list"
  pi_num_latebounds :: nat
  pi_mapped_early_regions :: "(lft, nat) btmap"

record 'g trait_method_use =
  tm_loc_name :: string
  tm_spec_term :: "'g used_procedure_spec"
  tm_spec_scope :: 'g
  tm_spec_inst :: "lft list"
  tm_mapped_early_regions :: "(lft, nat) btmap"
  tm_method_params :: "generic_arg list"

text \<open>
  What resolving a call needs of the compiler, the trait registry and the type translator. Late-bound
  variables and resolved trait requirements are opaque.
\<close>

record ('y, 'g, 't) calls_env =
  ce_erase_regions :: "ty \<Rightarrow> ty"
  ce_is_trait_item :: "def_id \<Rightarrow> bool"
  ce_resolve :: "def_id \<Rightarrow> generic_arg list \<Rightarrow> (def_id \<times> generic_arg list \<times> trait_resolution_kind) option"
  ce_trait_requirements :: "def_id \<Rightarrow> generic_arg list \<Rightarrow> bool \<Rightarrow> ('t, 'g) action"
  ce_is_trait_impl_fn :: "def_id \<Rightarrow> bool"
  ce_expected_late_bounds :: "def_id \<Rightarrow> (translation_error, 'g) outcome"
  ce_sig_late_bounds :: "def_id \<Rightarrow> generic_arg list \<Rightarrow> 'g"
  ce_abstraction :: "def_id \<Rightarrow> generic_arg list \<Rightarrow> 'g \<Rightarrow> 'g \<Rightarrow> bool \<Rightarrow> ('t, ('y, 'g) abstracted_generics) action"
  ce_trait_method :: "def_id \<Rightarrow> generic_arg list \<Rightarrow> ('t, 'g trait_method_use) action"
  ce_append_scope :: "'g \<Rightarrow> 'g \<Rightarrow> 'g"
  ce_closure_kind :: "def_id \<Rightarrow> closure_kind option"
  ce_closure_abstraction :: "def_id \<Rightarrow> generic_arg list \<Rightarrow> closure_kind \<Rightarrow> generic_arg list \<Rightarrow> ('t, ('y, 'g) abstracted_generics) action"
  ce_closure_meta :: "def_id \<Rightarrow> closure_kind \<Rightarrow> meta option"
  ce_callee_ty :: "def_id \<Rightarrow> generic_arg list \<Rightarrow> ty"
  ce_fn_inputs :: "ty \<Rightarrow> ty list"
  ce_closure_parts :: "generic_arg list \<Rightarrow> closure_kind \<times> ty \<times> ty list"    \<comment> \<open>kind, type of the captures, inputs\<close>
  ce_callee_syn_type :: "ty \<Rightarrow> (translation_error, syn_type) outcome"
  ce_is_fn_def :: "def_id \<Rightarrow> bool"
  ce_output_ty :: "def_id \<Rightarrow> generic_arg list \<Rightarrow> ty"

section \<open>The state of the translation\<close>

record 'y fn_local =
  fl_local :: mir_local
  fl_kind :: local_kind
  fl_name :: string
  fl_ty :: 'y
  fl_live :: bool

type_synonym procedure_key = "ordered_did \<times> ty list"

record ('y, 'g, 't) tx_env =
  te_mir :: mir_env
  te_edges :: real_edges
  te_loops :: procedure_loops
  te_info :: polonius_info
  te_region :: region_env
  te_types :: "('y, 't) types_env"
  te_calls :: "('y, 'g, 't) calls_env"
  te_indent :: indenter
  te_lookup_function :: "def_id \<Rightarrow> meta option"
  te_statics :: "'y const_scope"
  te_vars :: "mir_local \<rightharpoonup> string"
  te_return_name :: string
  te_return_ty :: ty
  te_locals :: "'y fn_local list"
  te_initial_constraints :: "(atomic_region \<times> atomic_region) list"

record ('y, 'g, 't, 'l, 's) tx =
  tx_types :: 't
  tx_tracker :: inclusion_tracker
  tx_procs :: "(procedure_key \<times> 'g used_procedure) list"
  tx_statics :: "ordered_did btset"
  tx_queue :: "basic_block list"
  tx_processed :: "basic_block set"
  tx_loop_specs :: "(basic_block, def_id option) btmap"
  tx_fn :: "('y, 'g, 'l, 's) function_builder"

text \<open>Calling a method of the type translator, and a function of the inclusion tracker.\<close>

definition with_types :: "('t, 'a) action \<Rightarrow> (('y, 'g, 't, 'l, 's) tx, 'a) action" where
  "with_types m = (\<lambda>s. and_then (m (tx_types s)) (\<lambda>(x, t). Ok (x, s\<lparr>tx_types := t\<rparr>)))"

definition with_tracker :: "(inclusion_tracker \<Rightarrow> ('a \<times> inclusion_tracker) option) \<Rightarrow> (('y, 'g, 't, 'l, 's) tx, 'a) action" where
  "with_tracker f = (\<lambda>s. and_then (or_panic (f (tx_tracker s))) (\<lambda>(x, t). Ok (x, s\<lparr>tx_tracker := t\<rparr>)))"

definition update_fn ::
  "(('y, 'g, 'l, 's) function_builder \<Rightarrow> ('y, 'g, 'l, 's) function_builder) \<Rightarrow> (('y, 'g, 't, 'l, 's) tx, unit) action" where
  "update_fn f = tx_modify (\<lambda>s. s\<lparr>tx_fn := f (tx_fn s)\<rparr>)"

definition translate_type :: "('y, 'g, 't) tx_env \<Rightarrow> ty \<Rightarrow> (('y, 'g, 't, 'l, 's) tx, 'y) action" where
  "translate_type E t = with_types (ty_translate (te_types E) t)"

definition translate_type_to_syn_type :: "('y, 'g, 't) tx_env \<Rightarrow> ty \<Rightarrow> (('y, 'g, 't, 'l, 's) tx, syn_type) action" where
  "translate_type_to_syn_type E t = tx_bind (translate_type E t) (\<lambda>y. tx_return (ty_syn (te_types E) y))"

text \<open>\<open>st.to_string()\<close>\<close>

definition synty_text :: "('y, 'g, 't) tx_env \<Rightarrow> syn_type \<Rightarrow> ('s, string) action" where
  "synty_text E st = tx_lift (or_panic (fmt_syn_type (te_indent E) st))"

abbreviation te_body :: "('y, 'g, 't) tx_env \<Rightarrow> body" where
  "te_body E \<equiv> me_body (te_mir E)"

abbreviation place_ty_of :: "('y, 'g, 't) tx_env \<Rightarrow> place \<Rightarrow> place_ty" where
  "place_ty_of E p \<equiv> me_place_ty (te_mir E) p"

abbreviation operand_ty_of :: "('y, 'g, 't) tx_env \<Rightarrow> operand \<Rightarrow> ty" where
  "operand_ty_of E op \<equiv> me_operand_ty (te_mir E) op"

definition get_type_of_local :: "('y, 'g, 't) tx_env \<Rightarrow> mir_local \<Rightarrow> (translation_error, ty) outcome" where
  "get_type_of_local E l =
     (case vec_get (me_local_tys (te_mir E)) l of Some t \<Rightarrow> Ok t | None \<Rightarrow> Err UnknownVar)"

definition is_spec_fn :: "('y, 'g, 't) tx_env \<Rightarrow> def_id \<Rightarrow> bool" where
  "is_spec_fn E did =
     (case map_option meta_mode (te_lookup_function E did) of Some m \<Rightarrow> is_ignore m | None \<Rightarrow> False)"

definition is_spec_closure_local :: "('y, 'g, 't) tx_env \<Rightarrow> mir_local \<Rightarrow> (translation_error, def_id option) outcome" where
  "is_spec_closure_local E l =
     and_then (get_type_of_local E l) (\<lambda>t.
       case t of TyClosure did _ \<Rightarrow> Ok (if is_spec_fn E did then Some did else None) | _ \<Rightarrow> Ok None)"

text \<open>\<open>format_region\<close>; computing the atomic region may panic.\<close>

definition format_region :: "('y, 'g, 't) tx_env \<Rightarrow> origin \<Rightarrow> lft option" where
  "format_region E r =
     map_option (translate_atomic_region (re_scope (te_region E)))
       (mk_atomic_region (re_polonius (te_region E)) (te_info E) r)"

text \<open>
  The projections of a place with the place before each of them (\<open>iter_projections\<close>): is the type before
  one of them a reference?
\<close>

definition check_place_below_reference :: "('y, 'g, 't) tx_env \<Rightarrow> place \<Rightarrow> bool" where
  "check_place_below_reference E p =
     list_ex (\<lambda>i. case pty_ty (place_ty_of E (p\<lparr>projection := take i (projection p)\<rparr>)) of TyRef _ _ _ \<Rightarrow> True | _ \<Rightarrow> False)
       [0..<length (projection p)]"

section \<open>Jumps\<close>

definition enqueue_basic_block :: "basic_block \<Rightarrow> (('y, 'g, 't, 'l, 's) tx, unit) action" where
  "enqueue_basic_block bb = tx_modify (\<lambda>s.
     if bb \<in> tx_processed s then s
     else s\<lparr>tx_processed := insert bb (tx_processed s), tx_queue := tx_queue s @ [bb]\<rparr>)"

text \<open>The first assignment to a specification closure in a list of statements.\<close>

primrec find_spec_assignment :: "('y, 'g, 't) tx_env \<Rightarrow> statement list \<Rightarrow> (translation_error, def_id option) outcome" where
  "find_spec_assignment E [] = Ok None"
| "find_spec_assignment E (st # rest) =
     (case st of
        Assign pl _ \<Rightarrow> and_then (is_spec_closure_local E (local_of pl)) (\<lambda>found.
          case found of Some did \<Rightarrow> Ok (Some did) | None \<Rightarrow> find_spec_assignment E rest)
      | _ \<Rightarrow> find_spec_assignment E rest)"

primrec find_spec_in_blocks ::
  "('y, 'g, 't) tx_env \<Rightarrow> basic_block \<Rightarrow> basic_block list \<Rightarrow> (translation_error, def_id option) outcome" where
  "find_spec_in_blocks E head_bb [] = Ok None"
| "find_spec_in_blocks E head_bb (bb # rest) =
     (if get_loop_head (te_loops E) bb = Some head_bb then
        and_then (or_panic (vec_get (basic_blocks (te_body E)) bb)) (\<lambda>data.
        and_then (find_spec_assignment E (statements data)) (\<lambda>found.
          case found of Some did \<Rightarrow> Ok (Some did) | None \<Rightarrow> find_spec_in_blocks E head_bb rest))
      else find_spec_in_blocks E head_bb rest)"

definition find_loop_spec_closure :: "('y, 'g, 't) tx_env \<Rightarrow> basic_block \<Rightarrow> (translation_error, def_id option) outcome" where
  "find_loop_spec_closure E head_bb =
     and_then (or_panic (get_loop_body (te_loops E) head_bb)) (find_spec_in_blocks E head_bb)"

definition register_loop_head :: "('y, 'g, 't) tx_env \<Rightarrow> basic_block \<Rightarrow> (('y, 'g, 't, 'l, 's) tx, unit) action" where
  "register_loop_head E target =
     tx_bind (tx_get tx_loop_specs) (\<lambda>specs.
       if is_loop_head (te_loops E) target \<and> bm_get specs target = None then
         tx_bind (tx_lift (find_loop_spec_closure E target)) (\<lambda>spec.
           tx_modify (\<lambda>s. s\<lparr>tx_loop_specs := bm_insert target spec (tx_loop_specs s)\<rparr>))
       else tx_return ())"

definition translate_goto_like :: "('y, 'g, 't) tx_env \<Rightarrow> basic_block \<Rightarrow> (('y, 'g, 't, 'l, 's) tx, stmt) action" where
  "translate_goto_like E target =
     tx_seq (enqueue_basic_block target) (tx_seq (register_loop_head E target) (tx_return
       (if is_loop_head (te_loops E) target
        then PrimS [AnnotS [StratifyContextAnnot] (Some ''goto to loop head'')] (GotoBlockS target)
        else GotoBlockS target)))"

section \<open>Dying loans\<close>

definition endlft_stmt :: "lft \<Rightarrow> prim_stmt" where
  "endlft_stmt l = AnnotS [EndLftAnnot l] (Some ''endlft'')"

definition generate_endlfts :: "('y, 'g, 't) tx_env \<Rightarrow> loan list \<Rightarrow> prim_stmt list option" where
  "generate_endlfts E dying =
     those (map (\<lambda>d. map_option (\<lambda>r. endlft_stmt (translate_atomic_region (re_scope (te_region E)) r))
       (atomic_region_of_loan (te_info E) d)) dying)"

definition get_loc_predecessors :: "('y, 'g, 't) tx_env \<Rightarrow> location \<Rightarrow> location list option" where
  "get_loc_predecessors E l =
     (if statement_index l > 0 then Some [l\<lparr>statement_index := statement_index l - 1\<rparr>]
      else Option.bind (re_predecessors (te_edges E) (loc_block l)) (\<lambda>pred_bbs.
        those (map (\<lambda>bb. map_option (\<lambda>data. loc bb (length (statements data))) (vec_get (basic_blocks (te_body E)) bb)) pred_bbs)))"

text \<open>The loans and zombie loans that die between a predecessor and the location, as an ordered set.\<close>

definition loans_dying_before :: "('y, 'g, 't) tx_env \<Rightarrow> location \<Rightarrow> loan btset option" where
  "loans_dying_before E l =
     Option.bind (get_loc_predecessors E l) (\<lambda>pred.
       fold_opt (\<lambda>p dying.
         Option.bind (get_loans_dying_between (te_info E) p l False) (\<lambda>loans.
         Option.bind (get_loans_dying_between (te_info E) p l True) (\<lambda>zombies.
           Some (fold bs_insert zombies (fold bs_insert loans dying))))) pred [])"

end
