(* ===== verification/BodyExpr.thy ===== *)
theory BodyExpr
  imports BodyState
begin

text \<open>
  Translation of places, constants, function uses, operands and rvalues:
  \<open>translation/src/body/translation/place.rs\<close>, \<open>constants.rs\<close>, \<open>rvalue.rs\<close> and the function uses of
  \<open>calls.rs\<close>, with the field and variant names of \<open>types/translator.rs\<close>.
\<close>

section \<open>Names of fields and variants\<close>

fun translate_integer_type :: "integer_type \<Rightarrow> int_type" where
  "translate_integer_type (Fixed width sign) =
     (if sign then (case width of Size8 \<Rightarrow> I8 | Size16 \<Rightarrow> I16 | Size32 \<Rightarrow> I32 | Size64 \<Rightarrow> I64 | Size128 \<Rightarrow> I128)
      else (case width of Size8 \<Rightarrow> U8 | Size16 \<Rightarrow> U16 | Size32 \<Rightarrow> U32 | Size64 \<Rightarrow> U64 | Size128 \<Rightarrow> U128))"
| "translate_integer_type (Pointer sign) = (if sign then ISize else USize)"

definition variant_field :: "adt_def \<Rightarrow> nat \<Rightarrow> nat \<Rightarrow> (translation_error, string) outcome" where
  "variant_field def v f =
     and_then (or_panic (vec_get (ad_variants def) v)) (\<lambda>variant.
       case vec_get (av_fields variant) f of Some name \<Rightarrow> Ok name | None \<Rightarrow> Err UnknownError)"

definition get_field_name_of :: "mir_env \<Rightarrow> nat \<Rightarrow> ty \<Rightarrow> nat option \<Rightarrow> (translation_error, string) outcome" where
  "get_field_name_of M f t variant =
     (case t of
        TyAdt did _ \<Rightarrow>
          (case ad_kind (me_adt M did) of
             AdtStruct \<Rightarrow> variant_field (me_adt M did) 0 f
           | AdtEnum \<Rightarrow> and_then (or_panic variant) (\<lambda>v. variant_field (me_adt M did) v f)
           | AdtUnion \<Rightarrow> Err UnsupportedFeature)
      | TyTuple _ \<Rightarrow> Ok (show_nat f)
      | TyClosure _ _ \<Rightarrow> Ok (show_nat f)
      | _ \<Rightarrow> Err InvalidLayout)"

definition get_variant_name_of :: "mir_env \<Rightarrow> ty \<Rightarrow> nat \<Rightarrow> (translation_error, string) outcome" where
  "get_variant_name_of M t variant =
     (case t of
        TyAdt did _ \<Rightarrow> and_then (or_panic (vec_get (ad_variants (me_adt M did)) variant)) (\<lambda>v. Ok (av_name v))
      | _ \<Rightarrow> Err InvalidLayout)"

section \<open>Places\<close>

definition expect_ty :: "generic_arg \<Rightarrow> ('s, ty) action" where
  "expect_ty a = (case a of ArgType t \<Rightarrow> tx_return t | _ \<Rightarrow> tx_panic)"

definition is_box_ty :: "mir_env \<Rightarrow> ty \<Rightarrow> bool" where
  "is_box_ty M t = (case t of TyAdt did _ \<Rightarrow> ad_is_box (me_adt M did) | _ \<Rightarrow> False)"

definition translate_deref :: "('y, 'g, 't) tx_env \<Rightarrow> ty \<Rightarrow> expr \<Rightarrow> (('y, 'g, 't, 'l, 's) tx, expr) action" where
  "translate_deref E cur acc =
     (case cur of
        TyAdt did args \<Rightarrow>
          if ad_is_box (me_adt (te_mir E) did) then
            (case args of
               [t, alloc] \<Rightarrow>
                 tx_bind (expect_ty t) (\<lambda>t. tx_bind (translate_type_to_syn_type E t) (\<lambda>tst.
                 tx_bind (expect_ty alloc) (\<lambda>a. tx_bind (translate_type_to_syn_type E a) (\<lambda>ast.
                   tx_return (MagicBoxDerefE tst ast acc)))))
             | _ \<Rightarrow> tx_fail UnsupportedFeature)
          else tx_bind (translate_type_to_syn_type E cur) (\<lambda>st. tx_return (DerefE (op_type_of_synty st) acc))
      | _ \<Rightarrow> tx_bind (translate_type_to_syn_type E cur) (\<lambda>st. tx_return (DerefE (op_type_of_synty st) acc)))"

definition translate_field ::
  "('y, 'g, 't) tx_env \<Rightarrow> nat \<Rightarrow> place_ty \<Rightarrow> expr \<Rightarrow> (('y, 'g, 't, 'l, 's) tx, expr) action" where
  "translate_field E f cur acc =
     tx_bind (with_types (ty_structlike (te_types E) (pty_ty cur) (pty_variant cur))) (\<lambda>lit.
     tx_bind (tx_lift (get_field_name_of (te_mir E) f (pty_ty cur) (pty_variant cur))) (\<lambda>name.
     tx_bind (synty_text E (case lit of None \<Rightarrow> UnitSynType | Some u \<Rightarrow> lu_raw_syn_type u)) (\<lambda>sls.
       tx_return (FieldOfE acc sls name))))"

definition translate_downcast ::
  "('y, 'g, 't) tx_env \<Rightarrow> nat \<Rightarrow> ty \<Rightarrow> expr \<Rightarrow> (('y, 'g, 't, 'l, 's) tx, expr) action" where
  "translate_downcast E variant cur acc =
     (case cur of
        TyAdt did args \<Rightarrow>
          if ad_kind (me_adt (te_mir E) did) = AdtEnum then
            tx_bind (with_types (ty_enum (te_types E) did args)) (\<lambda>u.
            tx_bind (tx_lift (get_variant_name_of (te_mir E) cur variant)) (\<lambda>name.
            tx_bind (synty_text E (lu_raw_syn_type u)) (\<lambda>els.
              tx_return (EnumDataE els name acc))))
          else tx_fail UnknownError
      | _ \<Rightarrow> tx_fail UnknownError)"

definition translate_projection ::
  "('y, 'g, 't) tx_env \<Rightarrow> place_elem \<Rightarrow> place_ty \<times> expr \<Rightarrow> (('y, 'g, 't, 'l, 's) tx, place_ty \<times> expr) action" where
  "translate_projection E it s =
     (case s of (cur, acc) \<Rightarrow>
        tx_bind
          (case it of
             Deref \<Rightarrow> translate_deref E (pty_ty cur) acc
           | Field f _ \<Rightarrow> translate_field E f cur acc
           | Downcast _ variant \<Rightarrow> translate_downcast E variant (pty_ty cur) acc
           | _ \<Rightarrow> tx_fail UnsupportedFeature)
          (\<lambda>acc. tx_return (me_projection_ty (te_mir E) cur it, acc)))"

definition translate_place :: "('y, 'g, 't) tx_env \<Rightarrow> place \<Rightarrow> (('y, 'g, 't, 'l, 's) tx, expr) action" where
  "translate_place E pl =
     tx_bind (tx_lift (get_type_of_local E (local_of pl))) (\<lambda>t.
       case te_vars E (local_of pl) of
         None \<Rightarrow> tx_fail UnknownVar
       | Some name \<Rightarrow>
           tx_bind (tx_fold (translate_projection E) (projection pl) (\<lparr>pty_ty = t, pty_variant = None\<rparr>, VarE name)) (\<lambda>(_, e).
             tx_return e))"

section \<open>Function uses\<close>

type_synonym 'y expr_with_info = "expr \<times> 'y procedure_inst option"

text \<open>\<open>generate_args_inst_key\<close>\<close>

primrec generate_args_inst_key :: "(ty \<Rightarrow> ty) \<Rightarrow> generic_arg list \<Rightarrow> (translation_error, ty list) outcome" where
  "generate_args_inst_key erase [] = Ok []"
| "generate_args_inst_key erase (p # ps) =
     (case p of
        ArgLifetime _ \<Rightarrow> generate_args_inst_key erase ps
      | ArgType t \<Rightarrow> and_then (generate_args_inst_key erase ps) (\<lambda>key. Ok (erase t # key))
      | ArgConst _ \<Rightarrow> Err UnsupportedFeature)"

primrec map_outcome :: "('a \<Rightarrow> ('e, 'b) outcome) \<Rightarrow> 'a list \<Rightarrow> ('e, 'b list) outcome" where
  "map_outcome f [] = Ok []"
| "map_outcome f (x # xs) = and_then (f x) (\<lambda>y. and_then (map_outcome f xs) (\<lambda>ys. Ok (y # ys)))"

definition get_arg_syntypes_for_procedure_call ::
  "('y, 'g, 't) calls_env \<Rightarrow> def_id \<Rightarrow> generic_arg list \<Rightarrow> (translation_error, syn_type list) outcome" where
  "get_arg_syntypes_for_procedure_call C callee_did ty_params =
     (let full_ty = ce_callee_ty C callee_did ty_params in
      case full_ty of
        TyFnDef _ _ \<Rightarrow> map_outcome (ce_callee_syn_type C) (ce_fn_inputs C full_ty)
      | TyClosure _ args \<Rightarrow>
          (case ce_closure_parts C args of (kind, tuple_ty, tupled_inputs) \<Rightarrow>
             and_then (if kind = ClosureFnOnce then ce_callee_syn_type C tuple_ty else Ok PtrSynType) (\<lambda>self.
               case tupled_inputs of
                 [TyTuple inputs] \<Rightarrow> and_then (map_outcome (ce_callee_syn_type C) inputs) (\<lambda>sts. Ok (self # sts))
               | _ \<Rightarrow> Panic))
      | _ \<Rightarrow> Panic)"

text \<open>The part that the three kinds of uses share: a use with a known key keeps the name it was registered with.\<close>

definition register_use ::
  "procedure_key \<Rightarrow> (translation_error, 'g used_procedure) outcome \<Rightarrow> (('y, 'g, 't, 'l, 's) tx, string) action" where
  "register_use key make_use =
     tx_bind (tx_get tx_procs) (\<lambda>procs.
       case map_of procs key of
         Some u \<Rightarrow> tx_return (up_loc_name u)
       | None \<Rightarrow>
           tx_bind (tx_lift make_use) (\<lambda>u.
           tx_seq (tx_modify (\<lambda>s. s\<lparr>tx_procs := (key, u) # tx_procs s\<rparr>)) (tx_return (up_loc_name u))))"

definition translation_key :: "('y, 'g, 't) tx_env \<Rightarrow> def_id \<Rightarrow> ty list \<Rightarrow> procedure_key" where
  "translation_key E did key = (odid_new (me_path_hash (te_mir E)) did, key)"

definition use_from_meta ::
  "('y, 'g, 't) tx_env \<Rightarrow> meta option \<Rightarrow> ty list \<Rightarrow> def_id \<Rightarrow> generic_arg list \<Rightarrow> 'g \<Rightarrow> 'g \<Rightarrow> (translation_error, 'g used_procedure) outcome" where
  "use_from_meta E meta key did ty_params sc inst =
     (case meta of
        None \<Rightarrow> Err UnknownProcedure
      | Some m \<Rightarrow>
          and_then (get_arg_syntypes_for_procedure_call (te_calls E) did ty_params) (\<lambda>sts.
            Ok \<lparr>up_loc_name = mangle_name_with_tys (me_alnum (te_mir E)) (me_show_ty (te_mir E)) (meta_name m) key @ ''_loc'',
                up_spec_term = SpecTerm (meta_spec_name m) (meta_trait_req_incl_name m),
                up_quantified_scope = sc, up_scope_inst = inst, up_syntypes = sts\<rparr>))"

definition register_use_procedure ::
  "('y, 'g, 't) tx_env \<Rightarrow> def_id \<Rightarrow> generic_arg list \<Rightarrow> 'g \<Rightarrow> (('y, 'g, 't, 'l, 's) tx, 'y expr_with_info) action" where
  "register_use_procedure E callee_did ty_params trait_specs =
     (let C = te_calls E in
      tx_bind (tx_lift (generate_args_inst_key (ce_erase_regions C) ty_params)) (\<lambda>key.
      tx_bind (tx_lift (if ce_is_trait_impl_fn C callee_did then ce_expected_late_bounds C callee_did
                        else Ok (ce_sig_late_bounds C callee_did ty_params))) (\<lambda>late_bounds.
      tx_bind (with_types (ce_abstraction C callee_did ty_params late_bounds trait_specs True)) (\<lambda>q.
      tx_bind (register_use (translation_key E callee_did key)
          (use_from_meta E (te_lookup_function E callee_did) key callee_did ty_params (ag_scope q) (ag_fn_scope_inst q))) (\<lambda>res.
        tx_return (MetaParamE res, Some \<lparr>pi_method_params = ty_params, pi_type_hint = ag_ty_inst q,
          pi_lft_hint = ag_lft_inst q, pi_num_latebounds = ag_num_latebounds q, pi_mapped_early_regions = []\<rparr>))))))"

definition register_use_trait_method ::
  "('y, 'g, 't) tx_env \<Rightarrow> def_id \<Rightarrow> generic_arg list \<Rightarrow> 'g \<Rightarrow> (('y, 'g, 't, 'l, 's) tx, 'y expr_with_info) action" where
  "register_use_trait_method E callee_did ty_params trait_specs =
     (let C = te_calls E in
      tx_bind (tx_lift (generate_args_inst_key (ce_erase_regions C) ty_params)) (\<lambda>key.
      tx_bind (with_types (ce_trait_method C callee_did ty_params)) (\<lambda>m.
      tx_bind (with_types (ce_abstraction C callee_did (tm_method_params m) (ce_sig_late_bounds C callee_did ty_params)
          trait_specs False)) (\<lambda>q.
      tx_bind (register_use (translation_key E callee_did key)
          (and_then (get_arg_syntypes_for_procedure_call C callee_did ty_params) (\<lambda>sts.
             Ok \<lparr>up_loc_name = tm_loc_name m, up_spec_term = tm_spec_term m,
                 up_quantified_scope = ce_append_scope C (tm_spec_scope m) (ag_scope q),
                 up_scope_inst = ag_fn_scope_inst q, up_syntypes = sts\<rparr>))) (\<lambda>res.
        tx_return (MetaParamE res, Some \<lparr>pi_method_params = ty_params, pi_type_hint = ag_ty_inst q,
          pi_lft_hint = tm_spec_inst m @ ag_lft_inst q, pi_num_latebounds = ag_num_latebounds q,
          pi_mapped_early_regions = tm_mapped_early_regions m\<rparr>))))))"

text \<open>\<open>traits::Error::NotAClosureTrait\<close> is converted to a trait translation error.\<close>

definition register_use_closure ::
  "('y, 'g, 't) tx_env \<Rightarrow> def_id \<Rightarrow> generic_arg list \<Rightarrow> def_id \<Rightarrow> generic_arg list
    \<Rightarrow> (('y, 'g, 't, 'l, 's) tx, 'y expr_with_info) action" where
  "register_use_closure E closure_did closure_args call_fn_did ty_params =
     (let C = te_calls E in
      tx_bind (tx_lift (case ce_closure_kind C call_fn_did of Some k \<Rightarrow> Ok k | None \<Rightarrow> Err TraitTranslation)) (\<lambda>kind.
      tx_bind (tx_lift (generate_args_inst_key (ce_erase_regions C) ty_params)) (\<lambda>key.
      tx_bind (with_types (ce_closure_abstraction C closure_did closure_args kind ty_params)) (\<lambda>q.
      tx_bind (register_use (translation_key E call_fn_did key)
          (use_from_meta E (ce_closure_meta C closure_did kind) key call_fn_did ty_params (ag_scope q) (ag_fn_scope_inst q))) (\<lambda>res.
        tx_return (MetaParamE res, Some \<lparr>pi_method_params = ty_params, pi_type_hint = ag_ty_inst q,
          pi_lft_hint = ag_lft_inst q, pi_num_latebounds = ag_num_latebounds q, pi_mapped_early_regions = []\<rparr>))))))"

definition translate_fn_def_use ::
  "('y, 'g, 't) tx_env \<Rightarrow> ty \<Rightarrow> (('y, 'g, 't, 'l, 's) tx, 'y expr_with_info) action" where
  "translate_fn_def_use E t =
     (let C = te_calls E in
      case t of
        TyFnDef did params \<Rightarrow>
          if \<not> ce_is_trait_item C did then
            tx_bind (with_types (ce_trait_requirements C did params True)) (register_use_procedure E did params)
          else
            (case ce_resolve C did params of
               None \<Rightarrow> tx_fail TraitResolution
             | Some (resolved_did, resolved_params, ResolvedUserDefined) \<Rightarrow>
                 tx_bind (with_types (ce_trait_requirements C resolved_did resolved_params True))
                   (register_use_procedure E resolved_did resolved_params)
             | Some (resolved_did, resolved_params, ResolvedParam) \<Rightarrow>
                 tx_bind (with_types (ce_trait_requirements C did params False))
                   (register_use_trait_method E resolved_did resolved_params)
             | Some (resolved_did, resolved_params, ResolvedClosure) \<Rightarrow>
                 tx_bind (with_types (ce_trait_requirements C did params True)) (\<lambda>_.
                   register_use_closure E resolved_did resolved_params did params))
      | _ \<Rightarrow> tx_fail UnknownError)"

section \<open>Constants\<close>

text \<open>The literal of an integer type from the bits of a scalar, and the size of the type in bytes.\<close>

definition signed_literal :: "int_ty \<Rightarrow> nat \<Rightarrow> nat \<times> literal" where
  "signed_literal it d =
     (if it = 0 then (8, LitISize (of_nat d)) else if it = 1 then (1, LitI8 (of_nat d))
      else if it = 2 then (2, LitI16 (of_nat d)) else if it = 3 then (4, LitI32 (of_nat d))
      else if it = 4 then (8, LitI64 (of_nat d)) else (16, LitI128 (of_nat d)))"

definition unsigned_literal :: "int_ty \<Rightarrow> nat \<Rightarrow> nat \<times> literal" where
  "unsigned_literal it d =
     (if it = 0 then (8, LitUSize (of_nat d)) else if it = 1 then (1, LitU8 (of_nat d))
      else if it = 2 then (2, LitU16 (of_nat d)) else if it = 3 then (4, LitU32 (of_nat d))
      else if it = 4 then (8, LitU64 (of_nat d)) else (16, LitU128 (of_nat d)))"

text \<open>
  Scalars of a type with a literal; \<^term>\<open>None\<close> for a size that does not fit the type or bits that are no value
  of it.
\<close>

definition scalar_literal :: "ty \<Rightarrow> nat \<Rightarrow> nat \<Rightarrow> literal option" where
  "scalar_literal t d sz =
     (case t of
        TyBool \<Rightarrow> if sz = 1 \<and> d \<le> 1 then Some (LitBool (d = 1)) else None
      | TyInt it \<Rightarrow> (case signed_literal it d of (n, l) \<Rightarrow> if sz = n then Some l else None)
      | TyUint it \<Rightarrow> (case unsigned_literal it d of (n, l) \<Rightarrow> if sz = n then Some l else None)
      | TyChar \<Rightarrow> if sz = 4 \<and> d < 0x110000 \<and> \<not> (0xD800 \<le> d \<and> d < 0xE000) then Some (LitChar d) else None
      | _ \<Rightarrow> None)"

definition lit_expr :: "literal \<Rightarrow> ('s, 'y expr_with_info) action" where
  "lit_expr l = tx_return (LiteralE l, None)"

definition translate_scalar_int ::
  "('y, 'g, 't) tx_env \<Rightarrow> nat \<Rightarrow> nat \<Rightarrow> ty \<Rightarrow> (('y, 'g, 't, 'l, 's) tx, 'y expr_with_info) action" where
  "translate_scalar_int E d sz t =
     (let literal = (case scalar_literal t d sz of Some l \<Rightarrow> lit_expr l | None \<Rightarrow> tx_panic) in
      case t of
        TyBool \<Rightarrow> literal
      | TyInt _ \<Rightarrow> literal
      | TyUint _ \<Rightarrow> literal
      | TyFnDef _ _ \<Rightarrow> translate_fn_def_use E t
      | TyTuple tys \<Rightarrow> if tys = [] then lit_expr ZST else tx_fail UnsupportedFeature
      | _ \<Rightarrow> tx_fail UnsupportedFeature)"

definition translate_static_ref ::
  "('y, 'g, 't) tx_env \<Rightarrow> nat \<Rightarrow> (('y, 'g, 't, 'l, 's) tx, 'y expr_with_info) action" where
  "translate_static_ref E alloc =
     (case me_global_alloc (te_mir E) alloc of
        StaticAlloc did \<Rightarrow>
          (let ordered = odid_new (me_path_hash (te_mir E)) did in
           tx_bind (tx_lift (get_static (te_statics E) ordered)) (\<lambda>m.
           tx_seq (tx_modify (\<lambda>s. s\<lparr>tx_statics := bs_insert ordered (tx_statics s)\<rparr>)) (lit_expr (LitLoc (static_loc_name m)))))
      | OtherAlloc \<Rightarrow> tx_fail UnsupportedFeature)"

definition translate_scalar ::
  "('y, 'g, 't) tx_env \<Rightarrow> scalar \<Rightarrow> ty \<Rightarrow> (('y, 'g, 't, 'l, 's) tx, 'y expr_with_info) action" where
  "translate_scalar E sc t =
     (let literal = (case sc of
                ScalarInt d sz \<Rightarrow> (case scalar_literal t d sz of Some l \<Rightarrow> lit_expr l | None \<Rightarrow> tx_fail InvalidLayout)
              | ScalarPtr _ \<Rightarrow> tx_fail InvalidLayout) in
      case t of
        TyBool \<Rightarrow> literal
      | TyInt _ \<Rightarrow> literal
      | TyUint _ \<Rightarrow> literal
      | TyChar \<Rightarrow> literal
      | TyFnDef _ _ \<Rightarrow> translate_fn_def_use E t
      | TyTuple tys \<Rightarrow> if tys = [] then lit_expr ZST else tx_fail UnsupportedFeature
      | TyRef _ _ _ \<Rightarrow> (case sc of ScalarInt _ _ \<Rightarrow> tx_panic | ScalarPtr alloc \<Rightarrow> translate_static_ref E alloc)
      | _ \<Rightarrow> tx_fail UnsupportedFeature)"

definition translate_constant_value ::
  "('y, 'g, 't) tx_env \<Rightarrow> const_value \<Rightarrow> ty \<Rightarrow> (('y, 'g, 't, 'l, 's) tx, 'y expr_with_info) action" where
  "translate_constant_value E v t =
     (case v of
        CvScalar sc \<Rightarrow> translate_scalar E sc t
      | CvZeroSized \<Rightarrow> (case t of TyFnDef _ _ \<Rightarrow> translate_fn_def_use E t | _ \<Rightarrow> lit_expr ZST)
      | CvOther _ \<Rightarrow> tx_fail UnsupportedFeature)"

definition translate_constant ::
  "('y, 'g, 't) tx_env \<Rightarrow> mir_const \<Rightarrow> (('y, 'g, 't, 'l, 's) tx, 'y expr_with_info) action" where
  "translate_constant E c =
     (case c of
        ConstTy _ (CkValue t (Some (d, sz))) \<Rightarrow> translate_scalar_int E d sz t
      | ConstTy _ _ \<Rightarrow> tx_fail UnsupportedFeature
      | ConstVal v t \<Rightarrow> translate_constant_value E v t
      | ConstUnevaluated u t \<Rightarrow>
          (case me_const_eval (te_mir E) u of
             Some v \<Rightarrow> translate_constant_value E v t
           | None \<Rightarrow> tx_fail UnsupportedFeature))"

section \<open>Operands\<close>

definition translate_operand ::
  "('y, 'g, 't) tx_env \<Rightarrow> operand \<Rightarrow> bool \<Rightarrow> (('y, 'g, 't, 'l, 's) tx, 'y expr_with_info) action" where
  "translate_operand E op to_rvalue =
     (let place_operand = (\<lambda>pl is_copy.
          tx_bind (translate_place E pl) (\<lambda>e.
          tx_bind (translate_type_to_syn_type E (pty_ty (place_ty_of E pl))) (\<lambda>st.
            tx_return (if to_rvalue \<and> is_copy then CopyE (op_type_of_synty st) e
                       else if to_rvalue then MoveE (op_type_of_synty st) e else e, None))))
      in case op of
        Copy pl \<Rightarrow> place_operand pl True
      | Move pl \<Rightarrow> place_operand pl False
      | Constant c \<Rightarrow> translate_constant E c
      | RuntimeChecks _ \<Rightarrow> tx_fail UnsupportedFeature)"

abbreviation translate_rvalue_operand ::
  "('y, 'g, 't) tx_env \<Rightarrow> operand \<Rightarrow> (('y, 'g, 't, 'l, 's) tx, expr) action" where
  "translate_rvalue_operand E op \<equiv> tx_bind (translate_operand E op True) (\<lambda>(e, _). tx_return e)"

section \<open>Operators\<close>

fun translate_unop :: "un_op \<Rightarrow> ty \<Rightarrow> (translation_error, unop) outcome" where
  "translate_unop UnNot t =
     (case t of TyBool \<Rightarrow> Ok NotBoolOp | TyInt _ \<Rightarrow> Ok NotIntOp | TyUint _ \<Rightarrow> Ok NotIntOp | _ \<Rightarrow> Err UnknownError)"
| "translate_unop UnNeg t = Ok NegOp"
| "translate_unop UnPtrMetadata t = Err UnsupportedFeature"

fun get_offset_ty :: "ty \<Rightarrow> (translation_error, ty) outcome" where
  "get_offset_ty (TyArray t _) = Ok t"
| "get_offset_ty (TySlice t) = Ok t"
| "get_offset_ty (TyRef _ t _) = Ok t"
| "get_offset_ty (TyRawPtr t _) = Ok t"
| "get_offset_ty _ = Err UnknownError"

fun plain_binop :: "bin_op \<Rightarrow> binop option" where
  "plain_binop BinAdd = Some OpAdd"
| "plain_binop BinSub = Some OpSub"
| "plain_binop BinMul = Some OpMul"
| "plain_binop BinDiv = Some OpDiv"
| "plain_binop BinRem = Some OpMod"
| "plain_binop BinBitXor = Some OpBitXor"
| "plain_binop BinBitAnd = Some OpBitAnd"
| "plain_binop BinBitOr = Some OpBitOr"
| "plain_binop BinShl = Some OpShl"
| "plain_binop BinShr = Some OpShr"
| "plain_binop BinAddUnchecked = Some OpAddUnchecked"
| "plain_binop BinSubUnchecked = Some OpSubUnchecked"
| "plain_binop BinMulUnchecked = Some OpMulUnchecked"
| "plain_binop BinShlUnchecked = Some OpShlUnchecked"
| "plain_binop BinShrUnchecked = Some OpShrUnchecked"
| "plain_binop BinEq = Some OpEq"
| "plain_binop BinLt = Some OpLt"
| "plain_binop BinLe = Some OpLe"
| "plain_binop BinNe = Some OpNe"
| "plain_binop BinGe = Some OpGe"
| "plain_binop BinGt = Some OpGt"
| "plain_binop _ = None"

fun overflow_binop :: "bin_op \<Rightarrow> binop option" where
  "overflow_binop BinAddWithOverflow = Some OpAdd"
| "overflow_binop BinMulWithOverflow = Some OpMul"
| "overflow_binop BinSubWithOverflow = Some OpSub"
| "overflow_binop _ = None"

text \<open>An operation with overflow yields a pair: the result and whether it overflowed.\<close>

definition checked_pair :: "string \<Rightarrow> binop \<Rightarrow> op_type \<Rightarrow> op_type \<Rightarrow> expr \<Rightarrow> expr \<Rightarrow> expr" where
  "checked_pair st o' ot1 ot2 e1 e2 =
     StructInitE (new_lhs (''(tuple2_sls ('' @ st @ '') BoolSynType)''))
       [(''0'', BinOpE o' ot1 ot2 e1 e2), (''1'', CheckBinOpE o' ot1 ot2 e1 e2)]"

definition translate_binop ::
  "('y, 'g, 't) tx_env \<Rightarrow> bin_op \<Rightarrow> operand \<Rightarrow> operand \<Rightarrow> (('y, 'g, 't, 'l, 's) tx, expr) action" where
  "translate_binop E op op1 op2 =
     tx_bind (translate_type_to_syn_type E (operand_ty_of E op1)) (\<lambda>st1.
     tx_bind (translate_type_to_syn_type E (operand_ty_of E op2)) (\<lambda>st2.
     tx_bind (translate_rvalue_operand E op1) (\<lambda>e1.
     tx_bind (translate_rvalue_operand E op2) (\<lambda>e2.
       let ot1 = op_type_of_synty st1; ot2 = op_type_of_synty st2 in
       case (plain_binop op, overflow_binop op) of
         (Some o', _) \<Rightarrow> tx_return (BinOpE o' ot1 ot2 e1 e2)
       | (None, Some o') \<Rightarrow> tx_bind (synty_text E st1) (\<lambda>t. tx_return (checked_pair t o' ot1 ot2 e1 e2))
       | (None, None) \<Rightarrow>
           if op = BinOffset then
             tx_bind (tx_lift (get_offset_ty (operand_ty_of E op1))) (\<lambda>off_ty.
             tx_bind (translate_type_to_syn_type E off_ty) (\<lambda>st.
               tx_return (BinOpE (PtrOffset (layout_of_synty st)) ot1 ot2 e1 e2)))
           else tx_fail UnsupportedFeature))))"

definition translate_cast ::
  "('y, 'g, 't) tx_env \<Rightarrow> cast_kind \<Rightarrow> operand \<Rightarrow> ty \<Rightarrow> (('y, 'g, 't, 'l, 's) tx, expr) action" where
  "translate_cast E kind op to_ty =
     tx_bind (translate_type_to_syn_type E (operand_ty_of E op)) (\<lambda>op_st.
     tx_bind (translate_rvalue_operand E op) (\<lambda>e.
     tx_bind (translate_type_to_syn_type E to_ty) (\<lambda>target_st.
       case kind of
         PointerCoercion MutToConstPointer \<Rightarrow> tx_return (UnOpE (CastOp PtrOp) PtrOp e)
       | IntToInt \<Rightarrow> tx_return (UnOpE (CastOp (op_type_of_synty target_st)) (op_type_of_synty op_st) e)
       | PtrToPtr \<Rightarrow>
           (case (operand_ty_of E op, to_ty) of
              (TyRawPtr _ _, TyRawPtr _ _) \<Rightarrow> tx_return (UnOpE (CastOp PtrOp) PtrOp e)
            | _ \<Rightarrow> tx_fail UnsupportedFeature)
       | PointerExposeProvenance \<Rightarrow> tx_return (UnOpE (CastOp (op_type_of_synty target_st)) PtrOp e)
       | _ \<Rightarrow> tx_fail UnsupportedFeature)))"

fun translate_borrow_kind :: "borrow_kind \<Rightarrow> (translation_error, bor_kind) outcome" where
  "translate_borrow_kind BorShared = Ok SharedBor"
| "translate_borrow_kind (BorFake _) = Err UnsupportedFeature"
| "translate_borrow_kind (BorMut _) = Ok MutableBor"

fun translate_raw_ptr_kind :: "raw_ptr_kind \<Rightarrow> code_mutability" where
  "translate_raw_ptr_kind RawMut = MutRaw"
| "translate_raw_ptr_kind RawFakeForPtrMetadata = MutRaw"
| "translate_raw_ptr_kind RawConst = SharedRaw"

definition get_type_annotation_for_borrow ::
  "('y, 'g, 't) tx_env \<Rightarrow> place \<Rightarrow> (('y, 'g, 't, 'l, 's) tx, rust_type option) action" where
  "get_type_annotation_for_borrow E pl =
     tx_bind (translate_type E (pty_ty (place_ty_of E pl))) (\<lambda>y.
     tx_bind (tx_lift (or_panic (ty_rust (te_types E) y))) (\<lambda>annot. tx_return (Some annot)))"

section \<open>Aggregates and rvalues\<close>

text \<open>A tuple, or a closure, which is translated as the tuple of its captures.\<close>

definition translate_tuple_aggregate ::
  "('y, 'g, 't) tx_env \<Rightarrow> ty list \<Rightarrow> expr list \<Rightarrow> (('y, 'g, 't, 'l, 's) tx, expr) action" where
  "translate_tuple_aggregate E operand_types es =
     (if operand_types = [] then tx_return (LiteralE ZST)
      else
        tx_bind (with_types (ty_tuple (te_types E) operand_types)) (\<lambda>u.
        tx_bind (synty_text E (lu_raw_syn_type u)) (\<lambda>sl.
          tx_return (StructInitE (new_lhs sl) (map (\<lambda>(i, e). (show_nat i, e)) (enumerate 0 es))))))"

definition translate_adt_aggregate ::
  "('y, 'g, 't) tx_env \<Rightarrow> def_id \<Rightarrow> nat \<Rightarrow> generic_arg list \<Rightarrow> expr list \<Rightarrow> (('y, 'g, 't, 'l, 's) tx, expr) action" where
  "translate_adt_aggregate E did variant args es =
     (let def = me_adt (te_mir E) did in
      case ad_kind def of
        AdtStruct \<Rightarrow>
          tx_bind (tx_lift (or_panic (vec_get (ad_variants def) variant))) (\<lambda>v.
          tx_bind (with_types (ty_struct (te_types E) (av_def_id v) args)) (\<lambda>u.
            case u of
              None \<Rightarrow> tx_return (LiteralE ZST)
            | Some u \<Rightarrow>
                tx_bind (synty_text E (lu_raw_syn_type u)) (\<lambda>sl.
                  tx_return (StructInitE (new_lhs sl) (zip (av_fields v) es)))))
      | AdtEnum \<Rightarrow>
          tx_bind (tx_lift (or_panic (vec_get (ad_variants def) variant))) (\<lambda>v.
          tx_bind (with_types (ty_enum_variant (te_types E) (av_def_id v) args)) (\<lambda>u.
          tx_bind (synty_text E (lu_raw_syn_type u)) (\<lambda>sl.
          tx_bind (with_types (ty_enum (te_types E) did args)) (\<lambda>enum_use.
          tx_bind (tx_lift (or_panic (lu_enum_def enum_use))) (\<lambda>annot.
          tx_bind (synty_text E (lu_raw_syn_type enum_use)) (\<lambda>els.
            tx_return (EnumInitE (new_lhs els) (av_name v) annot (StructInitE (new_lhs sl) (zip (av_fields v) es)))))))))
      | AdtUnion \<Rightarrow> tx_fail UnsupportedFeature)"

definition translate_aggregate ::
  "('y, 'g, 't) tx_env \<Rightarrow> aggregate_kind \<Rightarrow> operand list \<Rightarrow> (('y, 'g, 't, 'l, 's) tx, expr) action" where
  "translate_aggregate E kind ops =
     tx_bind (tx_map (translate_rvalue_operand E) ops) (\<lambda>es.
       let operand_types = map (operand_ty_of E) ops in
       case kind of
         AggTuple \<Rightarrow> translate_tuple_aggregate E operand_types es
       | AggAdt did variant args \<Rightarrow> translate_adt_aggregate E did variant args es
       | AggClosure _ _ \<Rightarrow> translate_tuple_aggregate E operand_types es
       | AggOther _ \<Rightarrow> tx_fail UnsupportedFeature)"

text \<open>The lifetime of a borrow: that of the loan issued there, or else of the borrow's region.\<close>

definition borrow_lft :: "('y, 'g, 't) tx_env \<Rightarrow> location \<Rightarrow> region \<Rightarrow> lft option" where
  "borrow_lft E l region =
     (case get_optional_loan_at_location (te_info E) l of
        Some loan \<Rightarrow> map_option (translate_atomic_region (re_scope (te_region E))) (atomic_region_of_loan (te_info E) loan)
      | None \<Rightarrow> Option.bind (region_to_region_vid region) (format_region E))"

definition translate_rvalue ::
  "('y, 'g, 't) tx_env \<Rightarrow> location \<Rightarrow> rvalue \<Rightarrow> (('y, 'g, 't, 'l, 's) tx, 'y expr_with_info) action" where
  "translate_rvalue E l rval =
     (let plain = (\<lambda>m. tx_bind m (\<lambda>e. tx_return (e, None))) in
      case rval of
        Use op \<Rightarrow> translate_operand E op True
      | Ref region bk pl \<Rightarrow> plain (
          tx_bind (translate_place E pl) (\<lambda>e.
          tx_bind (tx_lift (translate_borrow_kind bk)) (\<lambda>bk'.
          tx_bind (get_type_annotation_for_borrow E pl) (\<lambda>annot.
          tx_bind (tx_lift (or_panic (borrow_lft E l region))) (\<lambda>lft.
            tx_return (BorrowE lft bk' annot e))))))
      | RawPtr mt pl \<Rightarrow> plain (
          tx_bind (translate_place E pl) (\<lambda>e. tx_return (AddressOfE (translate_raw_ptr_kind mt) e)))
      | BinaryOp op op1 op2 \<Rightarrow> plain (translate_binop E op op1 op2)
      | UnaryOp op operand \<Rightarrow> plain (
          tx_bind (translate_rvalue_operand E operand) (\<lambda>e.
          tx_bind (translate_type_to_syn_type E (operand_ty_of E operand)) (\<lambda>st.
          tx_bind (tx_lift (translate_unop op (operand_ty_of E operand))) (\<lambda>o'.
            tx_return (UnOpE o' (op_type_of_synty st) e)))))
      | Discriminant pl \<Rightarrow> plain (
          tx_bind (translate_place E pl) (\<lambda>e.
            case pty_ty (place_ty_of E pl) of
              TyAdt did args \<Rightarrow>
                tx_bind (with_types (ty_enum (te_types E) did args)) (\<lambda>u.
                tx_bind (synty_text E (lu_raw_syn_type u)) (\<lambda>els. tx_return (EnumDiscriminantE els e)))
            | _ \<Rightarrow> tx_fail UnsupportedFeature))
      | Aggregate kind ops \<Rightarrow> plain (translate_aggregate E kind ops)
      | Cast kind op to_ty \<Rightarrow> plain (translate_cast E kind op to_ty)
      | _ \<Rightarrow> tx_fail UnsupportedFeature)"

end
