(* ===== verification/BodyBlocks.thy ===== *)
theory BodyBlocks
  imports BodyExpr
begin

text \<open>
  Translation of calls, terminators, statements and basic blocks:
  \<open>translation/src/body/translation/calls.rs\<close> (the call itself), \<open>terminator.rs\<close>, \<open>basicblock.rs\<close>.
\<close>

section \<open>Calls\<close>

text \<open>The function, its generic arguments, from the type of a constant.\<close>

definition split_fn_ty :: "('y, 'g, 't) tx_env \<Rightarrow> ty \<Rightarrow> (translation_error, def_id \<times> generic_arg list) outcome" where
  "split_fn_ty E t =
     (case t of
        TyFnDef did args \<Rightarrow> if ce_is_fn_def (te_calls E) did then Ok (did, args) else Panic
      | _ \<Rightarrow> Err Unimplemented)"

definition call_expr_op_split_inst ::
  "('y, 'g, 't) tx_env \<Rightarrow> mir_const \<Rightarrow> (translation_error, def_id \<times> generic_arg list) outcome" where
  "call_expr_op_split_inst E c =
     (case c of ConstTy t _ \<Rightarrow> split_fn_ty E t | ConstVal _ t \<Rightarrow> split_fn_ty E t | ConstUnevaluated _ _ \<Rightarrow> Err Unimplemented)"

text \<open>The inclusions that the classification of a call's regions stands for.\<close>

fun classified_inclusions :: "origin \<times> call_region_kind \<Rightarrow> (origin \<times> origin) list" where
  "classified_inclusions (r, EqR r2) = [(r, r2), (r2, r)]"
| "classified_inclusions (r, Intersection rs) = map (\<lambda>r2. (r2, r)) rs"

definition add_classified :: "point_index \<Rightarrow> (origin, call_region_kind) btmap \<Rightarrow> inclusion_tracker \<Rightarrow> inclusion_tracker" where
  "add_classified startpoint c t =
     fold (\<lambda>(r1, r2). add_static_inclusion r1 r2 startpoint) (concat (map classified_inclusions c)) t"

text \<open>The annotation that initializes a region before the call.\<close>

definition classified_annot ::
  "('y, 'g, 't) tx_env \<Rightarrow> origin \<times> call_region_kind \<Rightarrow> (translation_error, annotation) outcome" where
  "classified_annot E c =
     (case c of (r, class) \<Rightarrow>
        and_then (or_panic (format_region E r)) (\<lambda>lft.
          case class of
            EqR r2 \<Rightarrow> and_then (or_panic (format_region E r2)) (\<lambda>lft2. Ok (CopyLftNameAnnot lft2 lft))
          | Intersection [] \<Rightarrow> Err UnsupportedFeature
          | Intersection [r2] \<Rightarrow> and_then (or_panic (format_region E r2)) (\<lambda>lft2. Ok (CopyLftNameAnnot lft2 lft))
          | Intersection rs \<Rightarrow> and_then (or_panic (those (map (format_region E) rs))) (\<lambda>lfts. Ok (AliasLftAnnot lft lfts))))"

definition annot_stmt :: "string \<Rightarrow> annotation list \<Rightarrow> prim_stmt" where
  "annot_stmt why a = AnnotS a (Some why)"

definition call_annotations ::
  "('y, 'g, 't) tx_env \<Rightarrow> location \<Rightarrow> place \<Rightarrow> 'y procedure_inst
    \<Rightarrow> (('y, 'g, 't, 'l, 's) tx, lft list \<times> region_info \<times> annotation list \<times> annotation list \<times> annotation list) action" where
  "call_annotations E l destination call_info =
     (let R = te_region E; startpoint = get_point (te_info E) l Start in
      tx_bind (with_tracker (\<lambda>t. map_option (\<lambda>c. (c, add_classified startpoint (cr_classification c) t))
          (compute_call_regions R (pi_method_params call_info) l (pi_num_latebounds call_info) t))) (\<lambda>c.
      tx_bind (tx_lift (or_panic (those (map (format_region E) (cr_late_regions c))))) (\<lambda>late_lfts.
      tx_bind (with_tracker (get_assignment_annots R l (\<not> check_place_below_reference E destination)
          (place_ty_of E destination))) (\<lambda>assignment_annots.
      tx_bind (with_tracker (\<lambda>t. map_option (\<lambda>(a, r, t'). ((a, r), t'))
          (compute_unconstrained_region_annots R l (unconstrained_regions assignment_annots)
            (pi_mapped_early_regions call_info) t))) (\<lambda>(unconstrained_annots, unconstrained).
      tx_bind (with_tracker (\<lambda>t. map_option (\<lambda>(a, h, t'). ((a, h), t'))
          (make_unconstrained_region_annotations R unconstrained l None t))) (\<lambda>(remaining_annots, hints).
      tx_seq (update_fn (fold add_unconstrained_lft_hint hints)) (
      tx_bind (tx_lift (map_outcome (classified_annot E) (cr_classification c))) (\<lambda>stmt_annots.
        tx_return (pi_lft_hint call_info @ late_lfts, assignment_annots, unconstrained_annots, remaining_annots, stmt_annots)))))))))"

definition translate_function_call ::
  "('y, 'g, 't) tx_env \<Rightarrow> operand \<Rightarrow> operand list \<Rightarrow> place \<Rightarrow> basic_block option \<Rightarrow> location \<Rightarrow> prim_stmt list
    \<Rightarrow> (('y, 'g, 't, 'l, 's) tx, stmt) action" where
  "translate_function_call E func args destination target l endlfts =
     (case func of
        Constant c \<Rightarrow>
          tx_bind (tx_lift (call_expr_op_split_inst E c)) (\<lambda>_.
          tx_bind (translate_operand E func False) (\<lambda>(func_expr, info).
          tx_bind (tx_lift (or_panic info)) (\<lambda>call_info.
          tx_bind (tx_map (translate_rvalue_operand E) args) (\<lambda>translated_args.
          tx_bind (call_annotations E l destination call_info)
            (\<lambda>(lft_hint, assignment_annots, unconstrained_annots, remaining_annots, stmt_annots).
          tx_bind (tx_lift (or_panic (those (map (ty_rust (te_types E)) (pi_type_hint call_info))))) (\<lambda>ty_hint.
            let call_expr = CallE func_expr lft_hint ty_hint translated_args in
            case target of
              None \<Rightarrow> tx_return (PrimS [ExprS call_expr] StuckS)
            | Some target \<Rightarrow>
                tx_bind (translate_type_to_syn_type E (pty_ty (place_ty_of E destination))) (\<lambda>place_st.
                tx_bind (translate_place E destination) (\<lambda>place_expr.
                tx_bind (translate_goto_like E target) (\<lambda>cont_stmt.
                  tx_return (PrimS
                    ([annot_stmt ''function_call'' stmt_annots,
                      annot_stmt ''function_call (unconstrained)'' remaining_annots,
                      annot_stmt ''function_call (assign)'' (new_dyn_inclusions assignment_annots),
                      AssignS (op_type_of_synty place_st) place_expr
                        (with_optional_annotation call_expr (expr_annot assignment_annots) (Some ''function_call (assign)'')),
                      annot_stmt ''post_function_call (assign, early)'' unconstrained_annots,
                      annot_stmt ''post_function_call (assign)'' (stmt_annot assignment_annots)]
                     @ endlfts) cont_stmt))))))))))
      | _ \<Rightarrow> tx_fail UnsupportedFeature)"

section \<open>Terminators\<close>

definition check_call_destination :: "operand \<Rightarrow> def_id \<Rightarrow> bool" where
  "check_call_destination func target_did =
     (case func of Constant (ConstVal _ (TyFnDef did _)) \<Rightarrow> target_did = did | _ \<Rightarrow> False)"

definition is_call_to :: "operand \<Rightarrow> def_id option \<Rightarrow> bool" where
  "is_call_to func did = (case did of Some d \<Rightarrow> check_call_destination func d | None \<Rightarrow> False)"

definition is_call_destination_panic :: "('y, 'g, 't) tx_env \<Rightarrow> operand \<Rightarrow> bool" where
  "is_call_destination_panic E func \<longleftrightarrow>
     is_call_to func (me_begin_panic (te_mir E)) \<or> is_call_to func (me_core_panic (te_mir E))"

definition is_call_destination_discriminant :: "('y, 'g, 't) tx_env \<Rightarrow> operand \<Rightarrow> bool" where
  "is_call_destination_discriminant E func = is_call_to func (me_discriminant_value (te_mir E))"

definition make_discriminant_shim ::
  "('y, 'g, 't) tx_env \<Rightarrow> operand \<Rightarrow> place \<Rightarrow> (('y, 'g, 't, 'l, 's) tx, prim_stmt list) action" where
  "make_discriminant_shim E op dest =
     tx_bind (translate_operand E op False) (\<lambda>(e, _).
     tx_bind (translate_type_to_syn_type E (operand_ty_of E op)) (\<lambda>st.
       case operand_ty_of E op of
         TyRef _ (TyAdt did args) _ \<Rightarrow>
           tx_bind (with_types (ty_enum (te_types E) did args)) (\<lambda>u.
           tx_bind (synty_text E (lu_raw_syn_type u)) (\<lambda>els.
           tx_bind (translate_place E dest) (\<lambda>place_expr.
             tx_return [AssignS (IntOp (translate_integer_type (ad_discr_type (me_adt (te_mir E) did)))) place_expr
                          (EnumDiscriminantE els (DerefE (op_type_of_synty st) e))])))
       | TyRef _ _ _ \<Rightarrow> tx_fail UnsupportedFeature
       | _ \<Rightarrow> tx_panic))"

text \<open>The targets of an integer switch, in order; the map sends a value to the index of its target.\<close>

definition switch_map :: "nat list \<Rightarrow> (nat, nat) btmap" where
  "switch_map values = fold (\<lambda>(idx, tgt). bm_insert tgt idx) (enumerate 0 values) []"

text \<open>
  \<open>targets.iter()\<close> are the values with their targets, \<open>otherwise()\<close> the last of \<open>all_targets()\<close>; indexing past
  the end is a panic.
\<close>

definition translate_switch ::
  "('y, 'g, 't) tx_env \<Rightarrow> operand \<Rightarrow> nat list \<Rightarrow> basic_block list \<Rightarrow> prim_stmt list \<Rightarrow> (('y, 'g, 't, 'l, 's) tx, stmt) action" where
  "translate_switch E discr values targets endlfts =
     tx_bind (translate_rvalue_operand E discr) (\<lambda>operand.
       if operand_ty_of E discr = TyBool then
         tx_bind (tx_lift (or_panic (vec_get targets 1))) (\<lambda>true_target.
         tx_bind (tx_lift (or_panic (vec_get targets 0))) (\<lambda>false_target.
         tx_bind (translate_goto_like E true_target) (\<lambda>true_branch.
         tx_bind (translate_goto_like E false_target) (\<lambda>false_branch.
           tx_return (PrimS endlfts (IfS BoolOp operand true_branch false_branch))))))
       else
         tx_bind (translate_rvalue_operand E discr) (\<lambda>operand.
         tx_bind (tx_map (\<lambda>(_, bb). translate_goto_like E bb) (zip values targets)) (\<lambda>translated_targets.
         tx_bind (tx_lift (if targets = [] then Panic else Ok (last targets))) (\<lambda>otherwise.
         tx_bind (translate_goto_like E otherwise) (\<lambda>translated_default.
         tx_bind (translate_type E (operand_ty_of E discr)) (\<lambda>translated_ty.
           case ty_int (te_types E) translated_ty of
             None \<Rightarrow> tx_fail UnknownError
           | Some it \<Rightarrow>
               tx_return (SwitchS operand it (switch_map (map fst (zip values targets))) translated_targets translated_default)))))))"

definition translate_return ::
  "('y, 'g, 't) tx_env \<Rightarrow> prim_stmt list \<Rightarrow> (('y, 'g, 't, 'l, 's) tx, stmt) action" where
  "translate_return E endlfts =
     tx_bind (translate_type_to_syn_type E (te_return_ty E)) (\<lambda>return_synty.
     tx_bind (tx_lift (or_panic (those (map (format_region E) (ty_region_collect (re_polonius (te_region E)) (te_return_ty E))))))
       (\<lambda>lifetimes.
         tx_return (PrimS (AnnotS (map ExtendLftAnnot lifetimes) (Some ''return'') # endlfts)
           (ReturnS (MoveE (op_type_of_synty return_synty) (VarE (te_return_name E)))))))"

definition translate_terminator ::
  "('y, 'g, 't) tx_env \<Rightarrow> terminator \<Rightarrow> location \<Rightarrow> loan list \<Rightarrow> (('y, 'g, 't, 'l, 's) tx, stmt) action" where
  "translate_terminator E term l dying_loans =
     tx_bind (tx_lift (or_panic (generate_endlfts E dying_loans))) (\<lambda>endlfts.
       case term of
         Goto target \<Rightarrow> translate_goto_like E target
       | Call func args destination target _ \<Rightarrow>
           if is_call_destination_panic E func then tx_return StuckS
           else if is_call_destination_discriminant E func then
             tx_bind (tx_lift (or_panic (vec_get args 0))) (\<lambda>op.
             tx_bind (make_discriminant_shim E op destination) (\<lambda>shim.
             tx_bind (tx_lift (or_panic target)) (\<lambda>target.
             tx_bind (translate_goto_like E target) (\<lambda>goto.
               tx_return (PrimS shim goto)))))
           else translate_function_call E func args destination target l endlfts
       | Return \<Rightarrow> translate_return E endlfts
       | SwitchInt discr values targets \<Rightarrow> translate_switch E discr values targets endlfts
       | Assert cond expected target _ \<Rightarrow>
           tx_bind (translate_rvalue_operand E cond) (\<lambda>e.
           tx_bind (translate_goto_like E target) (\<lambda>goto.
             tx_return (PrimS (AssertS (BinOpE OpEq BoolOp BoolOp e (LiteralE (LitBool expected))) # endlfts) goto)))
       | Drop pl target _ \<Rightarrow>
           tx_bind (translate_place E pl) (\<lambda>_.
           tx_bind (translate_goto_like E target) (\<lambda>goto. tx_return (PrimS endlfts goto)))
       | FalseEdge real_target _ \<Rightarrow> translate_goto_like E real_target
       | FalseUnwind real_target _ \<Rightarrow> translate_goto_like E real_target
       | TailCall _ _ \<Rightarrow> tx_fail Unimplemented
       | Unreachable \<Rightarrow> tx_return StuckS
       | UnwindResume \<Rightarrow> tx_fail Unimplemented
       | UnwindTerminate \<Rightarrow> tx_fail Unimplemented
       | CoroutineDrop \<Rightarrow> tx_fail UnsupportedFeature
       | InlineAsm _ _ \<Rightarrow> tx_fail UnsupportedFeature
       | Yield _ _ _ \<Rightarrow> tx_fail UnsupportedFeature)"

section \<open>Statements\<close>

definition translate_assignment ::
  "('y, 'g, 't) tx_env \<Rightarrow> location \<Rightarrow> place \<Rightarrow> rvalue \<Rightarrow> (('y, 'g, 't, 'l, 's) tx, prim_stmt list) action" where
  "translate_assignment E l plc val =
     (let R = te_region E; plc_ty = place_ty_of E plc in
      tx_bind (with_tracker (get_assignment_loan_annots R l)) (\<lambda>borrow_annots.
      tx_bind (with_tracker (get_composite_rvalue_creation_annots R l (me_rvalue_ty (te_mir E) val))) (\<lambda>composite_annots.
      tx_bind (with_tracker (get_assignment_annots R l (\<not> check_place_below_reference E plc) plc_ty)) (\<lambda>assignment_annots.
      tx_bind (with_tracker (\<lambda>t. map_option (\<lambda>(a, h, t'). ((a, h), t'))
          (make_unconstrained_region_annotations R (unconstrained_regions assignment_annots) l (Some val) t)))
        (\<lambda>(unconstrained_annots, hints).
      tx_seq (update_fn (fold add_unconstrained_lft_hint hints)) (
      tx_bind (translate_rvalue E l val) (\<lambda>(e, _).
      tx_bind (translate_place E plc) (\<lambda>place_expr.
      tx_bind (translate_type_to_syn_type E (pty_ty plc_ty)) (\<lambda>synty.
        tx_return
          [annot_stmt ''assignment (unconstrained)'' unconstrained_annots,
           annot_stmt ''composite'' composite_annots,
           annot_stmt ''borrow'' borrow_annots,
           annot_stmt ''assignment'' (new_dyn_inclusions assignment_annots),
           AssignS (op_type_of_synty synty) place_expr
             (with_optional_annotation e (expr_annot assignment_annots) (Some ''assignment'')),
           annot_stmt ''post-assignment'' (stmt_annot assignment_annots)])))))))))"

text \<open>A storage statement of a local without a name: it must be a specification closure.\<close>

definition assert_spec_local :: "('y, 'g, 't) tx_env \<Rightarrow> ty \<Rightarrow> (translation_error, unit) outcome" where
  "assert_spec_local E t =
     (case t of TyClosure did _ \<Rightarrow> if is_spec_fn E did then Ok () else Panic | _ \<Rightarrow> Panic)"

definition translate_statement ::
  "('y, 'g, 't) tx_env \<Rightarrow> location \<Rightarrow> statement \<Rightarrow> (('y, 'g, 't, 'l, 's) tx, prim_stmt list) action" where
  "translate_statement E l st =
     (case st of
        Assign plc val \<Rightarrow>
          tx_bind (tx_lift (is_spec_closure_local E (local_of plc))) (\<lambda>spec.
            if spec \<noteq> None then tx_return [] else translate_assignment E l plc val)
      | StorageLive x \<Rightarrow>
          tx_bind (tx_lift (or_panic (vec_get (me_local_tys (te_mir E)) x))) (\<lambda>t.
          tx_bind (translate_type_to_syn_type E t) (\<lambda>synty.
            case te_vars E x of
              Some name \<Rightarrow> tx_return [LocalLiveS (Variable name synty)]
            | None \<Rightarrow> tx_seq (tx_lift (assert_spec_local E t)) (tx_return [])))
      | StorageDead x \<Rightarrow>
          tx_bind (tx_lift (or_panic (vec_get (me_local_tys (te_mir E)) x))) (\<lambda>t.
            case te_vars E x of
              Some name \<Rightarrow> tx_return [LocalDeadS name]
            | None \<Rightarrow> tx_seq (tx_lift (assert_spec_local E t)) (tx_return []))
      | FakeRead _ \<Rightarrow> tx_return []
      | IntrinsicAssume _ \<Rightarrow> tx_return []
      | IntrinsicCopyNonOverlapping _ \<Rightarrow> tx_fail UnsupportedFeature
      | PlaceMention _ \<Rightarrow> tx_return []
      | SetDiscriminant _ _ \<Rightarrow> tx_fail UnsupportedFeature
      | OtherStatement _ \<Rightarrow> tx_return [])"

definition translate_indexed_statement ::
  "('y, 'g, 't) tx_env \<Rightarrow> basic_block \<Rightarrow> nat \<times> statement \<Rightarrow> prim_stmt list \<Rightarrow> (('y, 'g, 't, 'l, 's) tx, prim_stmt list) action" where
  "translate_indexed_statement E bb_idx s prim_stmts =
     (case s of (idx, st) \<Rightarrow>
        tx_bind (tx_lift (or_panic (loans_dying_before E (loc bb_idx idx)))) (\<lambda>dying_loans.
        tx_bind (tx_lift (or_panic (generate_endlfts E (rev dying_loans)))) (\<lambda>endlfts.
        tx_bind (translate_statement E (loc bb_idx idx) st) (\<lambda>translated.
          tx_return (prim_stmts @ endlfts @ translated)))))"

definition translate_basic_block ::
  "('y, 'g, 't) tx_env \<Rightarrow> basic_block \<Rightarrow> block_data \<Rightarrow> (('y, 'g, 't, 'l, 's) tx, stmt) action" where
  "translate_basic_block E bb_idx bb =
     (let P = re_polonius (te_region E); l = loc bb_idx (length (statements bb)) in
      tx_bind (tx_fold (translate_indexed_statement E bb_idx) (enumerate 0 (statements bb)) []) (\<lambda>prim_stmts.
      tx_bind (tx_lift (or_panic (get_dying_loans P (te_info E) l))) (\<lambda>dying.
      tx_bind (tx_lift (or_panic (get_dying_zombie_loans P (te_info E) l))) (\<lambda>_.
      tx_bind (translate_terminator E (terminator bb) l (rev (bs_from dying))) (\<lambda>cont_stmt.
        tx_return (PrimS prim_stmts cont_stmt))))))"

end
