(* ===== verification/RegionBiFold.thy ===== *)
theory RegionBiFold
  imports RegionAnnots PlaceOrder BlockOrder
begin

text \<open>
  Comparing the regions of two types of the same shape: \<open>translation/src/regions/region_bi_folder.rs\<close>, its
  implementations in \<open>regions/init.rs\<close> and \<open>traits/registry.rs\<close>, and the initial constraints of arguments. A
  bi-folder is the record of the methods that an implementation overrides. The parts of a closure type are
  computed by the compiler from its arguments, so the recursion has fuel for its depth.
\<close>

section \<open>The traversal\<close>

record bifold_env =
  bf_normalize_erasing :: "ty \<Rightarrow> ty option"
  bf_upvars :: "generic_arg list \<Rightarrow> ty list"
  bf_closure_inputs :: "generic_arg list \<Rightarrow> ty list"
  bf_closure_output :: "generic_arg list \<Rightarrow> ty"

record 's bifolder =
  map_regions :: "region \<Rightarrow> region \<Rightarrow> 's \<Rightarrow> 's option"
  examine_ty :: "ty \<Rightarrow> ty \<Rightarrow> bool"

text \<open>A second type of another kind is normalized first.\<close>

definition same_kind_ty :: "bifold_env \<Rightarrow> ty \<Rightarrow> ty \<Rightarrow> ty option" where
  "same_kind_ty B t1 t2 =
     (if ty_discriminant t1 = ty_discriminant t2 then Some t2 else bf_normalize_erasing B t2)"

definition map_generic_arg ::
  "'s bifolder \<Rightarrow> (ty \<Rightarrow> ty \<Rightarrow> 's \<Rightarrow> (fuel, 's) outcome) \<Rightarrow> generic_arg \<times> generic_arg \<Rightarrow> 's \<Rightarrow> (fuel, 's) outcome" where
  "map_generic_arg F rec a s =
     (case a of
        (ArgLifetime r1, ArgLifetime r2) \<Rightarrow> or_panic (map_regions F r1 r2 s)
      | (ArgType t1, ArgType t2) \<Rightarrow> rec t1 t2 s
      | (ArgConst _, _) \<Rightarrow> Ok s
      | _ \<Rightarrow> Panic)"

lemma map_generic_arg_cong [fundef_cong]:
  "\<lbrakk>F = F'; a = a'; s = s'; \<And>t1 t2 u. rec t1 t2 u = rec' t1 t2 u\<rbrakk> \<Longrightarrow> map_generic_arg F rec a s = map_generic_arg F' rec' a' s'"
  by (simp add: map_generic_arg_def split: generic_arg.splits prod.splits)

definition map_ty_slices ::
  "(ty \<Rightarrow> ty \<Rightarrow> 's \<Rightarrow> (fuel, 's) outcome) \<Rightarrow> ty list \<Rightarrow> ty list \<Rightarrow> 's \<Rightarrow> (fuel, 's) outcome" where
  "map_ty_slices rec ts1 ts2 s =
     (if length ts1 = length ts2 then for_each (\<lambda>(t1, t2). rec t1 t2) (zip ts1 ts2) s else Panic)"

lemma map_ty_slices_cong [fundef_cong]:
  "\<lbrakk>ts1 = ts1'; ts2 = ts2'; s = s'; \<And>t1 t2 u. rec t1 t2 u = rec' t1 t2 u\<rbrakk>
   \<Longrightarrow> map_ty_slices rec ts1 ts2 s = map_ty_slices rec' ts1' ts2' s'"
  unfolding map_ty_slices_def by (auto intro!: for_each_eq)

text \<open>Both lists of inputs are those of the first signature, as in the code.\<close>

definition map_fn_sig ::
  "bifold_env \<Rightarrow> (ty \<Rightarrow> ty \<Rightarrow> 's \<Rightarrow> (fuel, 's) outcome) \<Rightarrow> generic_arg list \<Rightarrow> generic_arg list \<Rightarrow> 's \<Rightarrow> (fuel, 's) outcome" where
  "map_fn_sig B rec args1 args2 s =
     and_then (map_ty_slices rec (bf_closure_inputs B args1) (bf_closure_inputs B args1) s)
       (rec (bf_closure_output B args1) (bf_closure_output B args2))"

lemma map_fn_sig_cong [fundef_cong]:
  "\<lbrakk>B = B'; as1 = as1'; as2 = as2'; s = s'; \<And>t1 t2 u. rec t1 t2 u = rec' t1 t2 u\<rbrakk>
   \<Longrightarrow> map_fn_sig B rec as1 as2 s = map_fn_sig B' rec' as1' as2' s'"
  unfolding map_fn_sig_def by (intro and_then_cong map_ty_slices_cong) auto

fun map_tys :: "nat \<Rightarrow> bifold_env \<Rightarrow> 's bifolder \<Rightarrow> ty \<Rightarrow> ty \<Rightarrow> 's \<Rightarrow> (fuel, 's) outcome" where
  "map_tys 0 B F t1 t2 s = Err OutOfFuel"
| "map_tys (Suc n) B F t1 t2 s =
     (if \<not> examine_ty F t1 t2 then Ok s
      else and_then (or_panic (same_kind_ty B t1 t2)) (\<lambda>t2.
        case (t1, t2) of
          (TyRef r1 u1 _, TyRef r2 u2 _) \<Rightarrow>
            and_then (or_panic (map_regions F r1 r2 s)) (map_tys n B F u1 u2)
        | (TyAdt d1 as1, TyAdt d2 as2) \<Rightarrow>
            if d1 = d2 then for_each (map_generic_arg F (map_tys n B F)) (zip as1 as2) s else Panic
        | (TyParam i1 n1, TyParam i2 n2) \<Rightarrow> if i1 = i2 \<and> n1 = n2 then Ok s else Panic
        | (TyAlias k1 d1 as1, TyAlias k2 d2 as2) \<Rightarrow>
            if k1 = k2 \<and> d1 = d2 then for_each (map_generic_arg F (map_tys n B F)) (zip as1 as2) s else Panic
        | (TyInt i1, TyInt i2) \<Rightarrow> if i1 = i2 then Ok s else Panic
        | (TyUint i1, TyUint i2) \<Rightarrow> if i1 = i2 then Ok s else Panic
        | (TyTuple ts1, TyTuple ts2) \<Rightarrow> map_ty_slices (map_tys n B F) ts1 ts2 s
        | (TySlice u1, TySlice u2) \<Rightarrow> map_tys n B F u1 u2 s
        | (TyClosure _ as1, TyClosure _ as2) \<Rightarrow>
            and_then (map_ty_slices (map_tys n B F) (bf_upvars B as1) (bf_upvars B as2) s)
              (map_fn_sig B (map_tys n B F) as1 as2)
        | (TyRawPtr u1 m1, TyRawPtr u2 m2) \<Rightarrow> if m1 = m2 then map_tys n B F u1 u2 s else Panic
        | (TyArray u1 _, TyArray u2 _) \<Rightarrow> map_tys n B F u1 u2 s
        | (TyNever, TyNever) \<Rightarrow> Ok s
        | (TyFloat _, TyFloat _) \<Rightarrow> Ok s
        | (TyChar, TyChar) \<Rightarrow> Ok s
        | (TyBool, TyBool) \<Rightarrow> Ok s
        | (TyStr, TyStr) \<Rightarrow> Ok s
        | _ \<Rightarrow> Panic))"

declare map_tys.simps(2) [simp del]

section \<open>The implementations\<close>

text \<open>\<open>InitialPoloniusUnifier\<close>\<close>

definition initial_map_regions :: "region \<Rightarrow> region \<Rightarrow> (origin, origin) btmap \<Rightarrow> (origin, origin) btmap option" where
  "initial_map_regions r1 r2 m =
     (case (r1, r2) of
        (ReVar l1, ReVar l2) \<Rightarrow>
          (case bm_get m l1 of
             Some l22 \<Rightarrow> if l2 = l22 then Some m else None
           | None \<Rightarrow> Some (bm_insert l1 l2 m))
      | _ \<Rightarrow> Some m)"

definition initial_unifier :: "(origin, origin) btmap bifolder" where
  "initial_unifier = \<lparr>map_regions = initial_map_regions, examine_ty = (\<lambda>_ _. True)\<rparr>"

text \<open>\<open>LateBoundUnifier\<close> for the first \<open>n\<close> bound variables\<close>

record late_bound_state =
  lb_instantiation :: "(nat, region) btmap"
  lb_early_instantiation :: "(nat, region) btmap"

definition unify_entry :: "nat \<Rightarrow> region \<Rightarrow> (nat, region) btmap \<Rightarrow> (nat, region) btmap option" where
  "unify_entry i r m = (case bm_get m i of Some r' \<Rightarrow> if r' = r then Some m else None | None \<Rightarrow> Some (bm_insert i r m))"

definition late_bound_map_regions :: "nat \<Rightarrow> region \<Rightarrow> region \<Rightarrow> late_bound_state \<Rightarrow> late_bound_state option" where
  "late_bound_map_regions n r1 r2 s =
     (case r1 of
        ReBound _ var _ \<Rightarrow>
          if var < n then map_option (\<lambda>m. s\<lparr>lb_instantiation := m\<rparr>) (unify_entry var r2 (lb_instantiation s)) else Some s
      | ReEarlyParam idx _ \<Rightarrow>
          map_option (\<lambda>m. s\<lparr>lb_early_instantiation := m\<rparr>) (unify_entry idx r2 (lb_early_instantiation s))
      | _ \<Rightarrow> Some s)"

definition late_bound_unifier :: "nat \<Rightarrow> late_bound_state bifolder" where
  "late_bound_unifier n = \<lparr>map_regions = late_bound_map_regions n, examine_ty = (\<lambda>_ _. True)\<rparr>"

definition late_bound_result :: "nat \<Rightarrow> late_bound_state \<Rightarrow> (region list \<times> (nat, region) btmap) option" where
  "late_bound_result n s =
     map_option (\<lambda>rs. (rs, lb_early_instantiation s)) (those (map (bm_get (lb_instantiation s)) [0..<n]))"

text \<open>\<open>RegionUnifier\<close>\<close>

record region_unifier_state =
  ru_instantiation :: "(origin, region) btmap"
  ru_term_order :: "origin list"

definition region_unifier_map_regions :: "region \<Rightarrow> region \<Rightarrow> region_unifier_state \<Rightarrow> region_unifier_state option" where
  "region_unifier_map_regions r1 r2 s =
     (case r1 of
        ReVar v1 \<Rightarrow>
          Some (if bm_get (ru_instantiation s) v1 = None
                then s\<lparr>ru_instantiation := bm_insert v1 r2 (ru_instantiation s), ru_term_order := ru_term_order s @ [v1]\<rparr>
                else s)
      | _ \<Rightarrow> Some s)"

definition is_alias :: "ty \<Rightarrow> bool" where
  "is_alias t = (case t of TyAlias _ _ _ \<Rightarrow> True | _ \<Rightarrow> False)"

definition region_unifier :: "bool \<Rightarrow> region_unifier_state bifolder" where
  "region_unifier ignore_aliases =
     \<lparr>map_regions = region_unifier_map_regions,
      examine_ty = (\<lambda>t1 t2. \<not> ignore_aliases \<or> (\<not> is_alias t1 \<and> \<not> is_alias t2))\<rparr>"

section \<open>Initial constraints of the arguments\<close>

text \<open>\<open>norm_ty\<close> is \<open>resolution::normalize_type\<close>, whose error is unwrapped.\<close>

definition unify_arguments ::
  "nat \<Rightarrow> bifold_env \<Rightarrow> (ty \<Rightarrow> ty option) \<Rightarrow> (ty \<times> ty) list \<Rightarrow> (origin, origin) btmap \<Rightarrow> (fuel, (origin, origin) btmap) outcome" where
  "unify_arguments n B norm_ty args =
     for_each (\<lambda>(a1, a2) m.
       and_then (or_panic (norm_ty a1)) (\<lambda>t1. and_then (or_panic (norm_ty a2)) (\<lambda>t2. map_tys n B initial_unifier t1 t2 m))) args"

definition initial_constraint_step ::
  "polonius_env \<Rightarrow> polonius_info \<Rightarrow> origin \<times> origin \<Rightarrow> (atomic_region \<times> atomic_region) list \<times> inclusion_tracker
    \<Rightarrow> ((atomic_region \<times> atomic_region) list \<times> inclusion_tracker) option" where
  "initial_constraint_step E I c s =
     (case (c, s) of ((l, r), (mapping, t)) \<Rightarrow>
        if l = r then Some s
        else
          Option.bind (mk_atomic_region E I l) (\<lambda>lft1. Option.bind (mk_atomic_region E I r) (\<lambda>lft2.
            Some (mapping @ [(lft2, lft1)],
                  add_static_inclusion l r (root_point I Start) (add_static_inclusion r l (root_point I Start) t)))))"

definition get_initial_universal_arg_constraints ::
  "nat \<Rightarrow> bifold_env \<Rightarrow> (ty \<Rightarrow> ty option) \<Rightarrow> polonius_env \<Rightarrow> polonius_info \<Rightarrow> ty list \<Rightarrow> ty list \<Rightarrow> inclusion_tracker
    \<Rightarrow> (fuel, (atomic_region \<times> atomic_region) list \<times> inclusion_tracker) outcome" where
  "get_initial_universal_arg_constraints n B norm_ty E I sig_args local_args t =
     (if length sig_args \<noteq> length local_args then Panic
      else and_then (unify_arguments n B norm_ty (zip local_args sig_args) []) (\<lambda>m.
        or_panic (fold_opt (initial_constraint_step E I) m ([], t))))"

section \<open>What the traversal visits\<close>

text \<open>The regions of a type in the order of the traversal, and types up to their regions.\<close>

fun regions_ty :: "ty \<Rightarrow> region list" and regions_arg :: "generic_arg \<Rightarrow> region list" where
  "regions_ty (TyRef r t _) = r # regions_ty t"
| "regions_ty (TyAdt _ as) = concat (map regions_arg as)"
| "regions_ty (TyAlias _ _ as) = concat (map regions_arg as)"
| "regions_ty (TyTuple ts) = concat (map regions_ty ts)"
| "regions_ty (TySlice t) = regions_ty t"
| "regions_ty (TyRawPtr t _) = regions_ty t"
| "regions_ty (TyArray t _) = regions_ty t"
| "regions_ty _ = []"
| "regions_arg (ArgLifetime r) = [r]"
| "regions_arg (ArgType t) = regions_ty t"
| "regions_arg (ArgConst _) = []"

inductive same_shape :: "ty \<Rightarrow> ty \<Rightarrow> bool" and same_shape_arg :: "generic_arg \<Rightarrow> generic_arg \<Rightarrow> bool" where
  "same_shape t1 t2 \<Longrightarrow> same_shape (TyRef r1 t1 m) (TyRef r2 t2 m')"
| "list_all2 same_shape_arg as1 as2 \<Longrightarrow> same_shape (TyAdt d as1) (TyAdt d as2)"
| "list_all2 same_shape_arg as1 as2 \<Longrightarrow> same_shape (TyAlias k d as1) (TyAlias k d as2)"
| "list_all2 same_shape ts1 ts2 \<Longrightarrow> same_shape (TyTuple ts1) (TyTuple ts2)"
| "same_shape t1 t2 \<Longrightarrow> same_shape (TySlice t1) (TySlice t2)"
| "same_shape t1 t2 \<Longrightarrow> same_shape (TyRawPtr t1 m) (TyRawPtr t2 m)"
| "same_shape t1 t2 \<Longrightarrow> same_shape (TyArray t1 n) (TyArray t2 n')"
| "same_shape (TyParam i x) (TyParam i x)"
| "same_shape (TyInt i) (TyInt i)"
| "same_shape (TyUint i) (TyUint i)"
| "same_shape (TyFloat i) (TyFloat i')"
| "same_shape TyNever TyNever"
| "same_shape TyChar TyChar"
| "same_shape TyBool TyBool"
| "same_shape TyStr TyStr"
| "same_shape_arg (ArgLifetime r1) (ArgLifetime r2)"
| "same_shape t1 t2 \<Longrightarrow> same_shape_arg (ArgType t1) (ArgType t2)"
| "same_shape_arg (ArgConst c1) (ArgConst c2)"
monos list_all2_mono

abbreviation map_pairs :: "'s bifolder \<Rightarrow> (region \<times> region) list \<Rightarrow> 's \<Rightarrow> 's option" where
  "map_pairs F \<equiv> fold_opt (\<lambda>(r1, r2). map_regions F r1 r2)"

definition agrees :: "('a \<times> 'a \<Rightarrow> 's \<Rightarrow> (fuel, 's) outcome) \<Rightarrow> ('a \<Rightarrow> region list) \<Rightarrow> 's bifolder \<Rightarrow> 'a \<Rightarrow> 'a \<Rightarrow> bool" where
  "agrees g f F a b \<longleftrightarrow>
     length (f a) = length (f b) \<and> (\<forall>s. g (a, b) s = or_panic (map_pairs F (zip (f a) (f b)) s))"

lemma or_panic_bind: "or_panic (Option.bind x f) = and_then (or_panic x) (\<lambda>y. or_panic (f y))"
  by (cases x) simp_all

lemma agrees_for_each:
  assumes "list_all2 (agrees g f F) xs ys"
  shows "length (concat (map f xs)) = length (concat (map f ys))"
    and "for_each g (zip xs ys) s = or_panic (map_pairs F (zip (concat (map f xs)) (concat (map f ys))) s)"
proof -
  show "length (concat (map f xs)) = length (concat (map f ys))"
    using assms by (induction rule: list_all2_induct) (auto simp: agrees_def)
  show "for_each g (zip xs ys) s = or_panic (map_pairs F (zip (concat (map f xs)) (concat (map f ys))) s)"
    using assms
  proof (induction arbitrary: s rule: list_all2_induct)
    case (Cons x xs y ys)
    then show ?case by (auto simp: agrees_def fold_opt_append or_panic_bind intro: and_then_cong)
  qed simp
qed

lemma agrees_list:
  assumes "list_all2 (\<lambda>a b. Q a b \<and> (\<forall>n. size a < n \<longrightarrow> agrees (g n) f F a b)) xs ys" and "size_list size xs < n"
  shows "list_all2 (agrees (g n) f F) xs ys"
  using assms by (induction rule: list_all2_induct) auto

abbreviation ty_agrees :: "nat \<Rightarrow> bifold_env \<Rightarrow> 's bifolder \<Rightarrow> ty \<Rightarrow> ty \<Rightarrow> bool" where
  "ty_agrees n B F \<equiv> agrees (\<lambda>(t1, t2). map_tys n B F t1 t2) regions_ty F"

abbreviation arg_agrees :: "nat \<Rightarrow> bifold_env \<Rightarrow> 's bifolder \<Rightarrow> generic_arg \<Rightarrow> generic_arg \<Rightarrow> bool" where
  "arg_agrees n B F \<equiv> agrees (map_generic_arg F (map_tys n B F)) regions_arg F"

lemma map_tys_visits:
  assumes ex: "\<And>u1 u2. examine_ty F u1 u2"
  shows "same_shape t1 t2 \<Longrightarrow> \<forall>n. size t1 \<le> n \<longrightarrow> ty_agrees (Suc n) B F t1 t2"
    and "same_shape_arg a1 a2 \<Longrightarrow> \<forall>n. size a1 \<le> Suc n \<longrightarrow> arg_agrees (Suc n) B F a1 a2"
proof (induction rule: same_shape_same_shape_arg.inducts)
  case (1 t1 t2 r1 m r2 m')
  show ?case
  proof (intro allI impI)
    fix n assume "size (TyRef r1 t1 m) \<le> n"
    then obtain k where n: "n = Suc k" "size t1 \<le> k" by (cases n) auto
    with 1(2) have ag: "ty_agrees n B F t1 t2" by blast
    show "ty_agrees (Suc n) B F (TyRef r1 t1 m) (TyRef r2 t2 m')"
      using ag by (auto simp: agrees_def map_tys.simps(2) same_kind_ty_def ex split: option.splits)
  qed
next
  case (2 as1 as2 d)
  show ?case
  proof (intro allI impI)
    fix n assume le: "size (TyAdt d as1) \<le> n"
    then obtain k where n: "n = Suc k" "size_list size as1 \<le> k" by (cases n) auto
    have "list_all2 (arg_agrees n B F) as1 as2"
      using 2 n(2) unfolding n(1) by (induction rule: list_all2_induct) auto
    from agrees_for_each [OF this] show "ty_agrees (Suc n) B F (TyAdt d as1) (TyAdt d as2)"
      by (simp add: agrees_def [where f = regions_ty] map_tys.simps(2) same_kind_ty_def ex)
  qed
next
  case (3 as1 as2 k d)
  show ?case
  proof (intro allI impI)
    fix n assume le: "size (TyAlias k d as1) \<le> n"
    then obtain j where n: "n = Suc j" "size_list size as1 \<le> j" by (cases n) auto
    have "list_all2 (arg_agrees n B F) as1 as2"
      using 3 n(2) unfolding n(1) by (induction rule: list_all2_induct) auto
    from agrees_for_each [OF this] show "ty_agrees (Suc n) B F (TyAlias k d as1) (TyAlias k d as2)"
      by (simp add: agrees_def [where f = regions_ty] map_tys.simps(2) same_kind_ty_def ex)
  qed
next
  case (4 ts1 ts2)
  show ?case
  proof (intro allI impI)
    fix n assume le: "size (TyTuple ts1) \<le> n"
    then obtain j where n: "n = Suc j" "size_list size ts1 \<le> j" by (cases n) auto
    have "list_all2 (ty_agrees n B F) ts1 ts2"
      using 4 n(2) unfolding n(1) by (induction rule: list_all2_induct) auto
    from agrees_for_each [OF this] list_all2_lengthD [OF this] show "ty_agrees (Suc n) B F (TyTuple ts1) (TyTuple ts2)"
      by (simp add: agrees_def [where f = regions_ty] map_tys.simps(2) same_kind_ty_def ex map_ty_slices_def)
  qed
next
  case (5 t1 t2)
  show ?case
  proof (intro allI impI)
    fix n' assume "size (TySlice t1) \<le> n'"
    then obtain k where n: "n' = Suc k" "size t1 \<le> k" by (cases n') auto
    with 5(2) have "ty_agrees n' B F t1 t2" by blast
    then show "ty_agrees (Suc n') B F (TySlice t1) (TySlice t2)"
      by (simp add: agrees_def map_tys.simps(2) same_kind_ty_def ex)
  qed
next
  case (6 t1 t2 m)
  show ?case
  proof (intro allI impI)
    fix n' assume "size (TyRawPtr t1 m) \<le> n'"
    then obtain k where n: "n' = Suc k" "size t1 \<le> k" by (cases n') auto
    with 6(2) have "ty_agrees n' B F t1 t2" by blast
    then show "ty_agrees (Suc n') B F (TyRawPtr t1 m) (TyRawPtr t2 m)"
      by (simp add: agrees_def map_tys.simps(2) same_kind_ty_def ex)
  qed
next
  case (7 t1 t2 n m)
  show ?case
  proof (intro allI impI)
    fix n' assume "size (TyArray t1 n) \<le> n'"
    then obtain k where n: "n' = Suc k" "size t1 \<le> k" by (cases n') auto
    with 7(2) have "ty_agrees n' B F t1 t2" by blast
    then show "ty_agrees (Suc n') B F (TyArray t1 n) (TyArray t2 m)"
      by (simp add: agrees_def map_tys.simps(2) same_kind_ty_def ex)
  qed
next
  case (16 r1 r2)
  show ?case by (auto simp: agrees_def map_generic_arg_def split: option.splits)
next
  case (17 t1 t2)
  then show ?case by (auto simp: agrees_def map_generic_arg_def)
qed (auto simp: agrees_def map_tys.simps(2) same_kind_ty_def ex map_generic_arg_def)

section \<open>The initial constraints\<close>

text \<open>The pairs of corresponding Polonius regions.\<close>

definition var_pairs :: "(region \<times> region) list \<Rightarrow> (origin \<times> origin) list" where
  "var_pairs rs = List.map_filter (\<lambda>(r1, r2). case (r1, r2) of (ReVar l, ReVar s) \<Rightarrow> Some (l, s) | _ \<Rightarrow> None) rs"

lemma bm_single_valued: "bm_ok m \<Longrightarrow> single_valued (set m)"
  by (auto simp: single_valued_def bm_get_entry [symmetric])

lemma initial_step:
  assumes "bm_ok m"
  shows "case initial_map_regions r1 r2 m of
      None \<Rightarrow> \<not> single_valued (set m \<union> set (var_pairs [(r1, r2)]))
    | Some m' \<Rightarrow> bm_ok m' \<and> set m' = set m \<union> set (var_pairs [(r1, r2)])"
proof (cases "\<exists>l s. r1 = ReVar l \<and> r2 = ReVar s")
  case True
  then obtain l s where r: "r1 = ReVar l" "r2 = ReVar s" by auto
  have pairs: "var_pairs [(r1, r2)] = [(l, s)]" by (simp add: r var_pairs_def List.map_filter_def)
  show ?thesis
  proof (cases "bm_get m l")
    case None
    have "set (bm_insert l s m) = insert (l, s) (set m)"
    proof (rule set_eqI)
      fix x :: "origin \<times> origin"
      have "x \<in> set (bm_insert l s m) \<longleftrightarrow> bm_get (bm_insert l s m) (fst x) = Some (snd x)"
        using assms by (simp add: bm_get_entry bm_ok_insert)
      also have "\<dots> \<longleftrightarrow> x = (l, s) \<or> bm_get m (fst x) = Some (snd x)"
        using assms None by (cases x) (auto simp: bm_get_insert)
      finally show "x \<in> set (bm_insert l s m) \<longleftrightarrow> x \<in> insert (l, s) (set m)"
        using assms by (simp add: bm_get_entry)
    qed
    with None assms show ?thesis unfolding pairs by (simp add: r initial_map_regions_def bm_ok_insert)
  next
    case (Some s')
    with assms have "(l, s') \<in> set m" by (simp add: bm_get_entry)
    with Some assms show ?thesis unfolding pairs
      by (auto simp: r initial_map_regions_def single_valued_def)
  qed
next
  case False
  then have "initial_map_regions r1 r2 m = Some m" "var_pairs [(r1, r2)] = []"
    by (auto simp: initial_map_regions_def var_pairs_def List.map_filter_def split: region.splits)
  with assms show ?thesis by simp
qed

lemma var_pairs_Cons: "set (var_pairs (x # xs)) = set (var_pairs [x]) \<union> set (var_pairs xs)"
  by (cases x) (auto simp: var_pairs_def List.map_filter_def split: region.splits)

lemma initial_pairs:
  assumes "bm_ok m"
  shows "case map_pairs initial_unifier rs m of
      None \<Rightarrow> \<not> single_valued (set m \<union> set (var_pairs rs))
    | Some m' \<Rightarrow> bm_ok m' \<and> set m' = set m \<union> set (var_pairs rs)"
  using assms
proof (induction rs arbitrary: m)
  case Nil
  then show ?case by (simp add: var_pairs_def List.map_filter_def)
next
  case (Cons x rs)
  obtain r1 r2 where x: "x = (r1, r2)" by fastforce
  show ?case
  proof (cases "initial_map_regions r1 r2 m")
    case None
    with initial_step [OF Cons.prems, of r1 r2] have "\<not> single_valued (set m \<union> set (var_pairs [x]))"
      by (simp add: x)
    then have "\<not> single_valued (set m \<union> set (var_pairs (x # rs)))"
      unfolding var_pairs_Cons [of x rs] by (metis Un_assoc Un_upper1 single_valued_subset)
    with None show ?thesis by (simp add: x initial_unifier_def)
  next
    case (Some m')
    with initial_step [OF Cons.prems, of r1 r2] have m': "bm_ok m'" "set m' = set m \<union> set (var_pairs [x])"
      by (simp_all add: x)
    have eq: "set m' \<union> set (var_pairs rs) = set m \<union> set (var_pairs (x # rs))"
      unfolding m' var_pairs_Cons [of x rs] by blast
    have "map_pairs initial_unifier (x # rs) m = map_pairs initial_unifier rs m'"
      using Some by (simp add: x initial_unifier_def)
    with Cons.IH [OF m'(1), unfolded eq] show ?thesis by simp
  qed
qed

text \<open>The pairs of corresponding regions of the arguments.\<close>

definition arg_region_pairs :: "(ty \<Rightarrow> ty option) \<Rightarrow> (ty \<times> ty) list \<Rightarrow> (region \<times> region) list" where
  "arg_region_pairs norm_ty args =
     concat (map (\<lambda>(a1, a2). zip (regions_ty (the (norm_ty a1))) (regions_ty (the (norm_ty a2)))) args)"

definition shapes_match :: "nat \<Rightarrow> (ty \<Rightarrow> ty option) \<Rightarrow> ty \<times> ty \<Rightarrow> bool" where
  "shapes_match n norm_ty a =
     (case (norm_ty (fst a), norm_ty (snd a)) of
        (Some t1, Some t2) \<Rightarrow> same_shape t1 t2 \<and> size t1 < n
      | _ \<Rightarrow> False)"

lemma unify_arguments_pairs:
  assumes "\<forall>a \<in> set args. shapes_match n norm_ty a"
  shows "unify_arguments n B norm_ty args m = or_panic (map_pairs initial_unifier (arg_region_pairs norm_ty args) m)"
  using assms
proof (induction args arbitrary: m)
  case Nil
  then show ?case by (simp add: unify_arguments_def arg_region_pairs_def)
next
  case (Cons a args)
  obtain a1 a2 where a: "a = (a1, a2)" by fastforce
  from Cons.prems obtain t1 t2 where t: "norm_ty a1 = Some t1" "norm_ty a2 = Some t2" "same_shape t1 t2" "size t1 < n"
    by (auto simp: a shapes_match_def split: option.splits)
  from t(4) obtain k where k: "n = Suc k" "size t1 \<le> k" by (cases n) auto
  have "ty_agrees n B initial_unifier t1 t2"
    using map_tys_visits(1) [OF _ t(3), of initial_unifier B] k by (simp add: initial_unifier_def)
  then have "map_tys n B initial_unifier t1 t2 m = or_panic (map_pairs initial_unifier (zip (regions_ty t1) (regions_ty t2)) m)"
    by (simp add: agrees_def)
  with Cons show ?case
    by (auto simp: unify_arguments_def arg_region_pairs_def a t fold_opt_append or_panic_bind intro: and_then_cong)
qed

lemma initial_constraint_steps:
  assumes known: "\<And>l s. (l, s) \<in> set m \<Longrightarrow> l \<noteq> s \<Longrightarrow> mk_atomic_region E I l \<noteq> None \<and> mk_atomic_region E I s \<noteq> None"
  shows "\<exists>t'. fold_opt (initial_constraint_step E I) m (mapping, t) =
       Some (mapping @ map (\<lambda>(l, s). (the (mk_atomic_region E I s), the (mk_atomic_region E I l))) (filter (\<lambda>(l, s). l \<noteq> s) m), t')
     \<and> set (static_incl_base t') = set (static_incl_base t)
         \<union> (\<Union>(l, s) \<in> {(l, s) \<in> set m. l \<noteq> s}. {(l, s, root_point I Start), (s, l, root_point I Start)})"
  using known
proof (induction m arbitrary: mapping t)
  case Nil
  show ?case by simp
next
  case (Cons x m)
  obtain l s where x: "x = (l, s)" by fastforce
  have IH: "\<exists>t'. fold_opt (initial_constraint_step E I) m (mapping, t) =
       Some (mapping @ map (\<lambda>(l, s). (the (mk_atomic_region E I s), the (mk_atomic_region E I l))) (filter (\<lambda>(l, s). l \<noteq> s) m), t')
     \<and> set (static_incl_base t') = set (static_incl_base t)
         \<union> (\<Union>(l, s) \<in> {(l, s) \<in> set m. l \<noteq> s}. {(l, s, root_point I Start), (s, l, root_point I Start)})" for mapping t
    by (rule Cons.IH) (use Cons.prems in \<open>meson list.set_intros(2)\<close>)
  show ?case
  proof (cases "l = s")
    case True
    then have skip: "fold_opt (initial_constraint_step E I) (x # m) (mapping, t) = fold_opt (initial_constraint_step E I) m (mapping, t)"
      by (simp add: x initial_constraint_step_def)
    have sets: "{(l, s). (l, s) \<in> set (x # m) \<and> l \<noteq> s} = {(l, s). (l, s) \<in> set m \<and> l \<noteq> s}"
      using True by (auto simp: x)
    show ?thesis unfolding skip sets using IH [of mapping t] True by (simp add: x)
  next
    case False
    with Cons.prems obtain a1 a2 where a: "mk_atomic_region E I l = Some a1" "mk_atomic_region E I s = Some a2"
      unfolding x by (metis list.set_intros(1) not_None_eq)
    let ?t = "add_static_inclusion l s (root_point I Start) (add_static_inclusion s l (root_point I Start) t)"
    have skip: "fold_opt (initial_constraint_step E I) (x # m) (mapping, t)
        = fold_opt (initial_constraint_step E I) m (mapping @ [(a2, a1)], ?t)"
      using False a by (simp add: x initial_constraint_step_def)
    have base: "set (static_incl_base ?t) = {(l, s, root_point I Start), (s, l, root_point I Start)} \<union> set (static_incl_base t)"
      by (auto simp: add_static_inclusion_def)
    have sets: "{(l, s). (l, s) \<in> set (x # m) \<and> l \<noteq> s} = insert (l, s) {(l, s). (l, s) \<in> set m \<and> l \<noteq> s}"
      using False by (auto simp: x)
    from IH [of "mapping @ [(a2, a1)]" ?t] obtain t' where
      "fold_opt (initial_constraint_step E I) m (mapping @ [(a2, a1)], ?t) =
         Some ((mapping @ [(a2, a1)]) @ map (\<lambda>(l, s). (the (mk_atomic_region E I s), the (mk_atomic_region E I l))) (filter (\<lambda>(l, s). l \<noteq> s) m), t')"
      "set (static_incl_base t') = set (static_incl_base ?t)
         \<union> (\<Union>(l, s) \<in> {(l, s) \<in> set m. l \<noteq> s}. {(l, s, root_point I Start), (s, l, root_point I Start)})" by blast
    then show ?thesis unfolding skip sets base using False a by (auto simp: x)
  qed
qed

text \<open>
  C30. For arguments whose types agree with those of the signature up to regions, and regions that have an atomic
  region where a constraint is reported, the initial constraints are computed exactly if no region of the body
  corresponds to two regions of the signature; otherwise the function panics, also when one of the two is the region
  itself. Each pair of different regions is reported once, in the order of the body's regions, and recorded as an
  inclusion in both directions at the start of the function; nothing else is recorded.
\<close>

theorem initial_arg_constraints_spec:
  fixes n B norm_ty E I sig_args local_args t
  defines "P \<equiv> set (var_pairs (arg_region_pairs norm_ty (zip local_args sig_args)))"
  assumes len: "length sig_args = length local_args"
    and shapes: "\<forall>a \<in> set (zip local_args sig_args). shapes_match n norm_ty a"
    and known: "\<forall>(l, s) \<in> P. l \<noteq> s \<longrightarrow> mk_atomic_region E I l \<noteq> None \<and> mk_atomic_region E I s \<noteq> None"
  shows "if single_valued P then
      (\<exists>ps t'. get_initial_universal_arg_constraints n B norm_ty E I sig_args local_args t
           = Ok (map (\<lambda>(l, s). (the (mk_atomic_region E I s), the (mk_atomic_region E I l))) ps, t')
         \<and> sorted (map fst ps) \<and> distinct (map fst ps) \<and> set ps = {(l, s) \<in> P. l \<noteq> s}
         \<and> set (static_incl_base t') = set (static_incl_base t)
             \<union> (\<Union>(l, s) \<in> {(l, s) \<in> P. l \<noteq> s}. {(l, s, root_point I Start), (s, l, root_point I Start)}))
    else get_initial_universal_arg_constraints n B norm_ty E I sig_args local_args t = Panic"
proof -
  let ?rs = "arg_region_pairs norm_ty (zip local_args sig_args)"
  have unify: "unify_arguments n B norm_ty (zip local_args sig_args) [] = or_panic (map_pairs initial_unifier ?rs [])"
    by (rule unify_arguments_pairs [OF shapes])
  have pairs: "case map_pairs initial_unifier ?rs [] of
      None \<Rightarrow> \<not> single_valued P | Some m' \<Rightarrow> bm_ok m' \<and> set m' = P"
    using initial_pairs [of "[]" ?rs] unfolding P_def
    by (simp add: bm_ok_def bm_keys_def split: option.splits)
  show ?thesis
  proof (cases "map_pairs initial_unifier ?rs []")
    case None
    with pairs show ?thesis by (simp add: get_initial_universal_arg_constraints_def len unify)
  next
    case (Some m)
    with pairs have m: "bm_ok m" "set m = P" by simp_all
    have single: "single_valued P"
      unfolding m(2) [symmetric] single_valued_def using bm_get_entry [OF m(1)] by (metis option.inject)
    have known': "(l, s) \<in> set m \<Longrightarrow> l \<noteq> s \<Longrightarrow> mk_atomic_region E I l \<noteq> None \<and> mk_atomic_region E I s \<noteq> None" for l s
      using bspec [OF known, of "(l, s)"] m(2) by simp
    from initial_constraint_steps [OF known', of m "[]" t] obtain t' where
      t': "fold_opt (initial_constraint_step E I) m ([], t) =
        Some (map (\<lambda>(l, s). (the (mk_atomic_region E I s), the (mk_atomic_region E I l))) (filter (\<lambda>(l, s). l \<noteq> s) m), t')"
      "set (static_incl_base t') = set (static_incl_base t)
         \<union> (\<Union>(l, s) \<in> {(l, s) \<in> P. l \<noteq> s}. {(l, s, root_point I Start), (s, l, root_point I Start)})"
      by (auto simp: m(2))
    have "sorted (map fst (filter (\<lambda>(l, s). l \<noteq> s) m))" "distinct (map fst (filter (\<lambda>(l, s). l \<noteq> s) m))"
      using m(1) by (auto simp: bm_ok_def bm_keys_def sorted_filter distinct_map_filter)
    moreover have "set (filter (\<lambda>(l, s). l \<noteq> s) m) = {(l, s) \<in> P. l \<noteq> s}" using m(2) by auto
    moreover have "get_initial_universal_arg_constraints n B norm_ty E I sig_args local_args t
        = Ok (map (\<lambda>(l, s). (the (mk_atomic_region E I s), the (mk_atomic_region E I l))) (filter (\<lambda>(l, s). l \<noteq> s) m), t')"
      by (simp add: get_initial_universal_arg_constraints_def len unify Some t'(1))
    ultimately show ?thesis using t'(2) single by (simp only: if_True) blast
  qed
qed

text \<open>One argument, a reference: its region 3 in the body is region 1 of the signature.\<close>

lemma initial_arg_constraints_spec_witness:
  "\<exists>t'. get_initial_universal_arg_constraints 3 \<lparr>bf_normalize_erasing = (\<lambda>_. None), bf_upvars = (\<lambda>_. []),
       bf_closure_inputs = (\<lambda>_. []), bf_closure_output = (\<lambda>_. TyNever)\<rparr> Some plain_env two_points
       [TyRef (ReVar 1) TyBool 0] [TyRef (ReVar 3) TyBool 0] (tracker_new two_points)
     = Ok ([(the (mk_atomic_region plain_env two_points 1), the (mk_atomic_region plain_env two_points 3))], t')
   \<and> (1, 3, root_point two_points Start) \<in> set (static_incl_base t')"
proof -
  let ?B = "\<lparr>bf_normalize_erasing = (\<lambda>_. None), bf_upvars = (\<lambda>_. []), bf_closure_inputs = (\<lambda>_. []),
    bf_closure_output = (\<lambda>_. TyNever)\<rparr>"
  have pairs: "var_pairs (arg_region_pairs Some (zip [TyRef (ReVar 3) TyBool 0] [TyRef (ReVar 1) TyBool 0])) = [(3, 1)]"
    by (simp add: arg_region_pairs_def var_pairs_def List.map_filter_def)
  have known: "\<forall>(l, s) \<in> set (var_pairs (arg_region_pairs Some (zip [TyRef (ReVar 3) TyBool 0] [TyRef (ReVar 1) TyBool 0]))).
      l \<noteq> s \<longrightarrow> mk_atomic_region plain_env two_points l \<noteq> None \<and> mk_atomic_region plain_env two_points s \<noteq> None"
    by (simp add: pairs mk_atomic_region_def get_region_kind_def two_points_def)
  have shapes: "\<forall>a \<in> set (zip [TyRef (ReVar 3) TyBool 0] [TyRef (ReVar 1) TyBool 0]). shapes_match 3 Some a"
    by (simp add: shapes_match_def same_shape_same_shape_arg.intros)
  have single: "single_valued (set [(3 :: nat, 1 :: nat)])" by (simp add: single_valued_def)
  have all: "ps = [(3, 1)]" if "set ps = {(3 :: nat, 1 :: nat)}" "distinct (map fst ps)" for ps
  proof -
    from that(2) have "card (set ps) = length ps" by (intro distinct_card) (simp add: distinct_map)
    moreover have "card (set ps) = 1" unfolding that(1) by simp
    ultimately have "length ps = 1" by simp
    with that(1) show ?thesis by (cases ps) auto
  qed
  define res where "res = get_initial_universal_arg_constraints 3 ?B Some plain_env two_points
       [TyRef (ReVar 1) TyBool 0] [TyRef (ReVar 3) TyBool 0] (tracker_new two_points)"
  have P: "{(l, s). (l, s) \<in> set [(3 :: nat, 1 :: nat)] \<and> l \<noteq> s} = {(3, 1)}" by auto
  note spec = initial_arg_constraints_spec [OF _ shapes known, where B = ?B and t = "tracker_new two_points", folded res_def,
      unfolded pairs P]
  have "\<exists>t'. res = Ok ([(the (mk_atomic_region plain_env two_points 1), the (mk_atomic_region plain_env two_points 3))], t')
      \<and> (1, 3, root_point two_points Start) \<in> set (static_incl_base t')"
  proof -
    from spec single obtain ps t' where ps: "res = Ok (map (\<lambda>(l, s). (the (mk_atomic_region plain_env two_points s),
        the (mk_atomic_region plain_env two_points l))) ps, t')" "distinct (map fst ps)" "set ps = {(3, 1)}"
      and "(1, 3, root_point two_points Start) \<in> set (static_incl_base t')"
      by auto
    with all [OF ps(3,2)] show ?thesis by simp
  qed
  then show ?thesis by (simp add: res_def)
qed

text \<open>
  The inputs of a closure's signature are compared with themselves: two closure types that differ in the region
  of their input relate it to itself only.
\<close>

definition closure_env :: bifold_env where
  "closure_env = \<lparr>bf_normalize_erasing = Some, bf_upvars = (\<lambda>_. []),
     bf_closure_inputs = (\<lambda>as. case as of [ArgType t] \<Rightarrow> [t] | _ \<Rightarrow> []), bf_closure_output = (\<lambda>_. TyBool)\<rparr>"

lemma closure_inputs_not_related:
  "map_tys 3 closure_env initial_unifier (TyClosure 0 [ArgType (TyRef (ReVar 3) TyBool 0)])
     (TyClosure 0 [ArgType (TyRef (ReVar 1) TyBool 0)]) [] = Ok [(3, 3)]"
  by (simp add: numeral_3_eq_3 map_tys.simps same_kind_ty_def closure_env_def map_ty_slices_def map_fn_sig_def
      initial_unifier_def initial_map_regions_def bm_get_def numeral_2_eq_2)

end
