(* ===== verification/BodyTranslate.thy ===== *)
theory BodyTranslate
  imports BodyBlocks RegionBiFold
begin

text \<open>
  The worklist of the body translation: names of locals, the constructor and the block loop of
  \<open>translation/src/body/translation/mod.rs\<close>.
\<close>

section \<open>Names of locals\<close>

definition find_name_for_local :: "mir_env \<Rightarrow> mir_local \<Rightarrow> string set \<Rightarrow> string option" where
  "find_name_for_local M l used_names =
     map_option dbg_name (List.find (\<lambda>dbg. dbg_local dbg = Some l \<and> dbg_name dbg \<notin> used_names) (me_debug_info M))"

definition make_local_name :: "mir_env \<Rightarrow> mir_local \<Rightarrow> string set \<Rightarrow> string \<times> string set" where
  "make_local_name M l used_names =
     (case find_name_for_local M l used_names of
        Some mir_name \<Rightarrow> (strip_coq_ident (me_alnum M) mir_name, insert mir_name used_names)
      | None \<Rightarrow> (''__'' @ show_nat l, used_names))"

definition get_local_kind :: "mir_env \<Rightarrow> mir_local \<Rightarrow> local_kind" where
  "get_local_kind M l =
     (case me_local_kind M l of
        ArgLocal \<Rightarrow> KArg
      | _ \<Rightarrow> if find_name_for_local M l {} \<noteq> None then KLocal else KCompilerTemp)"

section \<open>The constructor\<close>

text \<open>What the pass over the local declarations collects.\<close>

record 'y local_pass =
  lp_vars :: "mir_local \<rightharpoonup> string"
  lp_locals :: "'y fn_local list"
  lp_return :: "(string \<times> ty) option"
  lp_used_names :: "string set"
  lp_arg_tys :: "ty list"

definition local_pass_init :: "'y local_pass" where
  "local_pass_init = \<lparr>lp_vars = Map.empty, lp_locals = [], lp_return = None, lp_used_names = {}, lp_arg_tys = []\<rparr>"

definition is_spec_ty :: "('y, 'g, 't) tx_env \<Rightarrow> ty \<Rightarrow> bool" where
  "is_spec_ty E t = (case t of TyClosure did _ \<Rightarrow> is_spec_fn E did | _ \<Rightarrow> False)"

definition declare_local ::
  "('y, 'g, 't) tx_env \<Rightarrow> mir_local \<times> ty \<Rightarrow> 'y local_pass \<Rightarrow> (('y, 'g, 't, 'l, 's) tx, 'y local_pass) action" where
  "declare_local E d p =
     (case d of (l, t) \<Rightarrow>
        let M = te_mir E in
        if is_spec_ty E t then tx_return p
        else tx_bind (translate_type E t) (\<lambda>y.
          case make_local_name M l (lp_used_names p) of (name, used) \<Rightarrow>
            let p' = p\<lparr>lp_vars := (lp_vars p)(l \<mapsto> name), lp_used_names := used,
                       lp_locals := lp_locals p @ [\<lparr>fl_local = l, fl_kind = get_local_kind M l, fl_name = name, fl_ty = y,
                                                   fl_live = me_always_live M l\<rparr>]\<rparr>
            in case me_local_kind M l of
                 ArgLocal \<Rightarrow>
                   tx_seq (update_fn (\<lambda>b. b\<lparr>fb_code := add_argument name (ty_syn (te_types E) y) (fb_code b)\<rparr>))
                     (tx_return (p'\<lparr>lp_arg_tys := lp_arg_tys p' @ [t]\<rparr>))
               | TempLocal \<Rightarrow> tx_return p'
               | ReturnLocal \<Rightarrow> tx_return (p'\<lparr>lp_return := Some (name, t)\<rparr>)))"

text \<open>
  The constructor fills in the fields of the environment that it computes. The first error is running out of
  the fuel \<open>n\<close> when comparing the types of the arguments.
\<close>

definition tx_new ::
  "nat \<Rightarrow> bifold_env \<Rightarrow> (ty \<Rightarrow> ty option) \<Rightarrow> ('y, 'g, 't) tx_env \<Rightarrow> ty list \<Rightarrow> 't \<Rightarrow> inclusion_tracker
    \<Rightarrow> ('y, 'g, 'l, 's) function_builder
    \<Rightarrow> (fuel + translation_error, ('y, 'g, 't) tx_env \<times> ('y, 'g, 't, 'l, 's) tx) outcome" where
  "tx_new n B norm_ty E inputs types tracker builder =
     (case tx_fold (declare_local E) (enumerate 0 (me_local_tys (te_mir E))) local_pass_init
             \<lparr>tx_types = types, tx_tracker = tracker, tx_procs = [], tx_statics = [], tx_queue = [], tx_processed = {},
              tx_loop_specs = [], tx_fn = builder\<rparr> of
        Panic \<Rightarrow> Panic
      | Err e \<Rightarrow> Err (Inr e)
      | Ok (p, s) \<Rightarrow>
          (case lp_return p of
             None \<Rightarrow> Err (Inr UnknownError)
           | Some (return_name, return_ty) \<Rightarrow>
               (case get_initial_universal_arg_constraints n B norm_ty (re_polonius (te_region E)) (te_info E) inputs
                       (lp_arg_tys p) (tx_tracker s) of
                  Panic \<Rightarrow> Panic
                | Err f \<Rightarrow> Err (Inl f)
                | Ok (constraints, tracker') \<Rightarrow>
                    Ok (E\<lparr>te_vars := lp_vars p, te_return_name := return_name, te_return_ty := return_ty,
                          te_locals := lp_locals p, te_initial_constraints := constraints\<rparr>,
                        s\<lparr>tx_tracker := tracker'\<rparr>))))"

section \<open>The blocks\<close>

definition constraint_annots :: "('y, 'g, 't) tx_env \<Rightarrow> (atomic_region \<times> atomic_region) list \<Rightarrow> annotation list" where
  "constraint_annots E cs =
     (let lft = translate_atomic_region (re_scope (te_region E)) in map (\<lambda>(r1, r2). CopyLftNameAnnot (lft r1) (lft r2)) cs)"

definition live_locals :: "('y, 'g, 't) tx_env \<Rightarrow> prim_stmt list" where
  "live_locals E =
     map (\<lambda>x. LocalLiveS (Variable (fl_name x) (ty_syn (te_types E) (fl_ty x))))
       (filter (\<lambda>x. fl_kind x \<noteq> KArg \<and> fl_live x) (te_locals E))"

text \<open>What is put in front of the first block.\<close>

definition wrap_initial_block :: "('y, 'g, 't) tx_env \<Rightarrow> (atomic_region \<times> atomic_region) list \<Rightarrow> stmt \<Rightarrow> stmt" where
  "wrap_initial_block E closure_constraints bb =
     PrimS (live_locals E) (PrimS [annot_stmt ''initialization'' (constraint_annots E (te_initial_constraints E))]
       (if closure_constraints = [] then bb
        else PrimS [annot_stmt ''initialization (closure)'' (constraint_annots E closure_constraints)] bb))"

definition add_translated :: "nat \<Rightarrow> stmt \<Rightarrow> (('y, 'g, 't, 'l, 's) tx, unit) action" where
  "add_translated b st = update_fn (\<lambda>fn. fn\<lparr>fb_code := add_basic_block b st (fb_code fn)\<rparr>)"

definition translate_initial_block :: "('y, 'g, 't) tx_env \<Rightarrow> (('y, 'g, 't, 'l, 's) tx, unit) action" where
  "translate_initial_block E =
     tx_bind (with_tracker (get_initial_closure_constraints (re_polonius (te_region E)) (te_info E))) (\<lambda>closure_constraints.
       case vec_get (basic_blocks (te_body E)) 0 of
         None \<Rightarrow> tx_return ()
       | Some bb \<Rightarrow>
           tx_bind (translate_basic_block E 0 bb) (\<lambda>st.
             add_translated 0 (wrap_initial_block E closure_constraints st)))"

text \<open>\<open>bb_queue.pop()\<close> takes the last element.\<close>

definition translate_queued :: "('y, 'g, 't) tx_env \<Rightarrow> basic_block \<Rightarrow> (('y, 'g, 't, 'l, 's) tx, unit) action" where
  "translate_queued E b =
     tx_bind (tx_lift (or_panic (vec_get (basic_blocks (te_body E)) b))) (\<lambda>bb.
     tx_bind (translate_basic_block E b bb) (\<lambda>st. add_translated b st))"

text \<open>The value \<^term>\<open>None\<close> is a loop that does not end.\<close>

partial_function (option) translate_loop ::
  "('y, 'g, 't) tx_env \<Rightarrow> ('y, 'g, 't, 'l, 's) tx \<Rightarrow> (translation_error, ('y, 'g, 't, 'l, 's) tx) outcome option" where
  "translate_loop E s =
     (if tx_queue s = [] then Some (Ok s)
      else (case translate_queued E (last (tx_queue s)) (s\<lparr>tx_queue := butlast (tx_queue s)\<rparr>) of
              Ok (_, s') \<Rightarrow> translate_loop E s'
            | Err e \<Rightarrow> Some (Err e)
            | Panic \<Rightarrow> Some Panic))"

definition translate_blocks ::
  "('y, 'g, 't) tx_env \<Rightarrow> ('y, 'g, 't, 'l, 's) tx \<Rightarrow> (translation_error, ('y, 'g, 't, 'l, 's) tx) outcome option" where
  "translate_blocks E s =
     (case translate_initial_block E s of
        Ok (_, s') \<Rightarrow> translate_loop E s'
      | Err e \<Rightarrow> Some (Err e)
      | Panic \<Rightarrow> Some Panic)"

section \<open>Assembling the function\<close>

text \<open>
  Apart from the loop specifications: the assumptions on layouts, the procedures and the statics the code uses.
  \<open>sort_procs\<close> sorts the procedures by their keys.
\<close>

definition require_layouts :: "('y, 'g, 't) tx_env \<Rightarrow> (('y, 'g, 't, 'l, 's) tx, unit) action" where
  "require_layouts E =
     tx_bind (tx_get (\<lambda>s. ty_layoutable (te_types E) (tx_types s))) (\<lambda>sts. update_fn (fold assume_synty_layoutable sts))"

definition require_procedures ::
  "((procedure_key \<times> 'g used_procedure) list \<Rightarrow> (procedure_key \<times> 'g used_procedure) list) \<Rightarrow> (('y, 'g, 't, 'l, 's) tx, unit) action" where
  "require_procedures sort_procs =
     tx_bind (tx_get tx_procs) (\<lambda>procs. update_fn (fold require_function (map snd (sort_procs procs))))"

definition require_statics :: "('y, 'g, 't) tx_env \<Rightarrow> (('y, 'g, 't, 'l, 's) tx, unit) action" where
  "require_statics E =
     tx_bind (tx_get tx_statics) (\<lambda>dids.
     tx_bind (tx_lift (map_outcome (get_static (te_statics E)) dids)) (\<lambda>ms. update_fn (fold require_static ms)))"

end
