(* ===== verification/SampleBody.thy ===== *)
theory SampleBody
  imports BodyTranslate
begin

text \<open>
  A small body with an environment, on which the theorems about the translation are applied: the first block
  branches on a constant, the second is not reachable, the last returns.
\<close>

definition mini_body :: body where
  "mini_body =
     \<lparr>basic_blocks =
        [\<lparr>statements = [StorageLive 1], terminator = SwitchInt (Constant (ConstVal (CvScalar (ScalarInt 1 1)) TyBool)) [0] [2, 3]\<rparr>,
         \<lparr>statements = [], terminator = Goto 2\<rparr>,
         \<lparr>statements = [], terminator = Goto 3\<rparr>,
         \<lparr>statements = [StorageDead 1], terminator = Return\<rparr>],
      local_count = 2, arg_count = 0\<rparr>"

definition mini_table :: location_table where
  "mini_table =
     \<lparr>start_index = (\<lambda>l. 20 * loc_block l + 2 * statement_index l),
      mid_index = (\<lambda>l. 20 * loc_block l + 2 * statement_index l + 1),
      to_rich_location = (\<lambda>i. let l = loc (i div 20) (i mod 20 div 2) in if even i then RichStart l else RichMid l)\<rparr>"

definition mini_info :: polonius_info where
  "mini_info =
     \<lparr>pi_mir = mini_body, pi_local_tys = [TyTuple [], TyBool],
      borrowck_in_facts = \<lparr>loan_issued_at = [], placeholder = [], subset_base = [], known_placeholder_subset = [],
        loan_killed_at = [], cfg_edge = []\<rparr>,
      borrowck_out_facts = \<lparr>loan_live_at = [], origin_contains_loan_at = [], origin_live_on_entry = [], subset_at = []\<rparr>,
      interner = mini_table, loan_position = Map.empty, loan_at_position = Map.empty,
      additional_facts = \<lparr>zombie_borrow_live_at = [], borrow_become_zombie_at = []\<rparr>\<rparr>"

definition mini_scope :: early_late_region_map where
  "mini_scope = \<lparr>early_regions = [], late_regions = [], external_regions = [], lft_constraints = [], region_names = [],
     lft_names = Map.empty\<rparr>"

definition mini_region :: region_env where
  "mini_region = \<lparr>re_polonius = \<lparr>term_successors = named_targets, ty_regions = (\<lambda>_. [])\<rparr>, re_engine = (\<lambda>_ fs. fs),
     re_closure_engine = (\<lambda>_ fs. fs), re_scope = mini_scope\<rparr>"

definition mini_mir :: mir_env where
  "mini_mir =
     \<lparr>me_body = mini_body, me_local_tys = [TyTuple [], TyBool],
      me_local_kind = (\<lambda>l. if l = 0 then ReturnLocal else TempLocal), me_always_live = (\<lambda>l. l = 0), me_debug_info = [],
      me_place_ty = (\<lambda>_. \<lparr>pty_ty = TyBool, pty_variant = None\<rparr>), me_operand_ty = (\<lambda>_. TyBool), me_rvalue_ty = (\<lambda>_. TyBool),
      me_projection_ty = (\<lambda>t _. t),
      me_adt = (\<lambda>_. \<lparr>ad_kind = AdtStruct, ad_is_box = False, ad_variants = [], ad_discr_type = Pointer True\<rparr>),
      me_const_eval = (\<lambda>_. None), me_global_alloc = (\<lambda>_. OtherAlloc), me_path_hash = (\<lambda>_. 0), me_alnum = (\<lambda>_. True),
      me_show_ty = (\<lambda>_. ''T''), me_begin_panic = None, me_core_panic = None, me_discriminant_value = None\<rparr>"

definition mini_use :: literal_use where
  "mini_use = \<lparr>lu_raw_syn_type = UnitSynType, lu_syn_type = UnitSynType, lu_enum_def = None\<rparr>"

definition mini_types :: "(syn_type, unit) types_env" where
  "mini_types =
     \<lparr>ty_translate = (\<lambda>t. tx_return (if t = TyBool then BoolSynType else UnitSynType)),
      ty_structlike = (\<lambda>_ _. tx_return None), ty_struct = (\<lambda>_ _. tx_return None),
      ty_enum_variant = (\<lambda>_ _. tx_return mini_use), ty_enum = (\<lambda>_ _. tx_return mini_use),
      ty_tuple = (\<lambda>_. tx_return mini_use), ty_syn = (\<lambda>y. y), ty_rust = (\<lambda>_. None), ty_int = (\<lambda>_. None),
      ty_layoutable = (\<lambda>_. [])\<rparr>"

definition mini_calls :: "(syn_type, unit, unit) calls_env" where
  "mini_calls =
     \<lparr>ce_erase_regions = (\<lambda>t. t), ce_is_trait_item = (\<lambda>_. False), ce_resolve = (\<lambda>_ _. None),
      ce_trait_requirements = (\<lambda>_ _ _. tx_return ()), ce_is_trait_impl_fn = (\<lambda>_. False),
      ce_expected_late_bounds = (\<lambda>_. Ok ()), ce_sig_late_bounds = (\<lambda>_ _. ()),
      ce_abstraction = (\<lambda>_ _ _ _ _. tx_return \<lparr>ag_scope = (), ag_lft_inst = [], ag_ty_inst = [], ag_num_latebounds = 0, ag_fn_scope_inst = ()\<rparr>),
      ce_trait_method = (\<lambda>_ _. tx_fail Unimplemented), ce_append_scope = (\<lambda>_ _. ()), ce_closure_kind = (\<lambda>_. None),
      ce_closure_abstraction = (\<lambda>_ _ _ _. tx_fail Unimplemented), ce_closure_meta = (\<lambda>_ _. None),
      ce_callee_ty = (\<lambda>d as. TyFnDef d as), ce_fn_inputs = (\<lambda>_. []), ce_closure_parts = (\<lambda>_. (ClosureFn, TyBool, [])),
      ce_callee_syn_type = (\<lambda>_. Ok UnitSynType), ce_is_fn_def = (\<lambda>_. True), ce_output_ty = (\<lambda>_ _. TyTuple [])\<rparr>"

definition mini_indent :: indenter where
  "mini_indent = \<lparr>indent_lines = (\<lambda>s. s), indent_skip_initial = (\<lambda>s. s)\<rparr>"

definition mini_env :: "(syn_type, unit, unit) tx_env" where
  "mini_env =
     \<lparr>te_mir = mini_mir, te_edges = \<lparr>re_succs = [[2, 3], [2], [3], []], re_preds = [[], [], [0, 1], [0, 2]]\<rparr>,
      te_loops = \<lparr>loop_heads = [], loop_bodies = [], ordered_loop_bodies = [], enclosing_loop_heads = []\<rparr>,
      te_info = mini_info, te_region = mini_region, te_types = mini_types, te_calls = mini_calls, te_indent = mini_indent,
      te_lookup_function = Map.empty, te_statics = [], te_vars = [0 \<mapsto> ''__0'', 1 \<mapsto> ''__1''], te_return_name = ''__0'',
      te_return_ty = TyTuple [],
      te_locals = [\<lparr>fl_local = 0, fl_kind = KCompilerTemp, fl_name = ''__0'', fl_ty = UnitSynType, fl_live = True\<rparr>],
      te_initial_constraints = []\<rparr>"

definition mini_start :: "(syn_type, unit, unit, unit, unit) tx" where
  "mini_start =
     \<lparr>tx_types = (), tx_tracker = tracker_new mini_info, tx_procs = [], tx_statics = [], tx_queue = [], tx_processed = {},
      tx_loop_specs = [], tx_fn = builder_new ''f''\<rparr>"

lemmas mini_defs =
  mini_body_def mini_table_def mini_info_def mini_scope_def mini_region_def mini_mir_def mini_use_def mini_types_def
  mini_calls_def mini_indent_def mini_env_def mini_start_def

text \<open>The code of its blocks; the third is translated last.\<close>

definition mini_code :: "nat \<Rightarrow> stmt" where
  "mini_code b =
     (if b = 0 then
        PrimS [LocalLiveS (Variable ''__0'' UnitSynType)] (PrimS [AnnotS [] (Some ''initialization'')]
          (PrimS [LocalLiveS (Variable ''__1'' BoolSynType)]
            (PrimS [] (IfS BoolOp (LiteralE (LitBool True)) (GotoBlockS 3) (GotoBlockS 2)))))
      else if b = 2 then PrimS [] (GotoBlockS 3)
      else PrimS [LocalDeadS ''__1''] (PrimS [AnnotS [] (Some ''return'')] (ReturnS (MoveE StructOp (VarE ''__0'')))))"

declare translate_loop.simps [code]

lemma mini_blocks:
  "(case translate_blocks mini_env mini_start of Some (Ok s) \<Rightarrow> code_blocks (fb_code (tx_fn s)) | _ \<Rightarrow> [])
     = [(0, mini_code 0), (2, mini_code 2), (3, mini_code 3)]"
  by code_simp

lemma mini_translated:
  obtains s where "translate_blocks mini_env mini_start = Some (Ok s)"
    and "code_blocks (fb_code (tx_fn s)) = [(0, mini_code 0), (2, mini_code 2), (3, mini_code 3)]"
  using mini_blocks by (auto split: option.splits outcome.splits)

end
