(* ===== verification/BodyFlow.thy ===== *)
theory BodyFlow
  imports SampleBody
begin

text \<open>
  The control flow of the translated body: the block loop ends, and the blocks and jumps of the generated code
  are the reachable part of the real control-flow graph.
\<close>

section \<open>Judgements on methods\<close>

named_theorems tx_quiet "methods that neither queue nor add blocks"

text \<open>The part of the state that the control flow is about.\<close>

definition jump_state :: "('y, 'g, 't, 'l, 's) tx \<Rightarrow> basic_block list \<times> basic_block set \<times> (nat, stmt) btmap" where
  "jump_state s = (tx_queue s, tx_processed s, code_blocks (fb_code (tx_fn s)))"

definition quiet :: "(('y, 'g, 't, 'l, 's) tx, 'a) action \<Rightarrow> bool" where
  "quiet m \<longleftrightarrow> (\<forall>s x s'. m s = Ok (x, s') \<longrightarrow> jump_state s' = jump_state s)"

lemma quiet_return [tx_quiet]: "quiet (tx_return x)"
  and quiet_fail [tx_quiet]: "quiet (tx_fail e)"
  and quiet_panic [tx_quiet]: "quiet tx_panic"
  and quiet_get [tx_quiet]: "quiet (tx_get f)"
  by (auto simp: quiet_def tx_return_def tx_fail_def tx_panic_def tx_get_def)

lemma quiet_lift [tx_quiet]: "quiet (tx_lift r)"
  by (auto simp: quiet_def tx_lift_def rust_simps)

lemma quiet_bind [tx_quiet]: "quiet m \<Longrightarrow> (\<And>x. quiet (f x)) \<Longrightarrow> quiet (tx_bind m f)"
  by (fastforce simp: quiet_def tx_bind_def rust_simps)

lemma quiet_seq [tx_quiet]: "quiet m \<Longrightarrow> quiet n \<Longrightarrow> quiet (tx_seq m n)"
  by (simp add: tx_seq_def quiet_bind)

lemma quiet_map [tx_quiet]: "(\<And>x. quiet (f x)) \<Longrightarrow> quiet (tx_map f xs)"
  by (induction xs) (auto intro!: tx_quiet)

lemma quiet_fold [tx_quiet]: "(\<And>x acc. quiet (f x acc)) \<Longrightarrow> quiet (tx_fold f xs acc)"
  by (induction xs arbitrary: acc) (auto intro!: tx_quiet)

lemma quiet_with_types [tx_quiet]: "quiet (with_types m)"
  by (auto simp: quiet_def with_types_def jump_state_def rust_simps split: prod.splits)

lemma quiet_with_tracker [tx_quiet]: "quiet (with_tracker f)"
  by (auto simp: quiet_def with_tracker_def jump_state_def rust_simps split: prod.splits)

lemma quiet_modify [tx_quiet]:
  "quiet (tx_modify (\<lambda>s. s\<lparr>tx_procs := f s\<rparr>))"
  "quiet (tx_modify (\<lambda>s. s\<lparr>tx_statics := h s\<rparr>))"
  "quiet (tx_modify (\<lambda>s. s\<lparr>tx_loop_specs := k s\<rparr>))"
  by (auto simp: quiet_def tx_modify_def jump_state_def)

lemma hints_keep_code: "fb_code (fold add_unconstrained_lft_hint hints b) = fb_code b"
  by (induction hints arbitrary: b) (auto simp: add_unconstrained_lft_hint_def)

lemma quiet_hints [tx_quiet]: "quiet (update_fn (fold add_unconstrained_lft_hint hints))"
  by (auto simp: quiet_def update_fn_def tx_modify_def jump_state_def hints_keep_code)

lemma quiet_types [tx_quiet]:
  "quiet (translate_type E t)" "quiet (translate_type_to_syn_type E t)" "quiet (synty_text E st)"
  by (auto simp: translate_type_def translate_type_to_syn_type_def synty_text_def intro!: tx_quiet)

lemma quiet_expect_ty [tx_quiet]: "quiet (expect_ty a)"
  by (auto simp: expect_ty_def intro!: tx_quiet split: generic_arg.split)

lemma quiet_deref [tx_quiet]: "quiet (translate_deref E cur acc)"
  by (auto simp: translate_deref_def intro!: tx_quiet split: ty.split list.split)

lemma quiet_projection [tx_quiet]: "quiet (translate_projection E it s)"
  by (auto simp: translate_projection_def translate_field_def translate_downcast_def intro!: tx_quiet
      split: place_elem.split ty.split prod.split)

lemma quiet_place [tx_quiet]: "quiet (translate_place E pl)"
  by (auto simp: translate_place_def intro!: tx_quiet split: option.split prod.split)

lemma quiet_register_use [tx_quiet]: "quiet (register_use key r)"
  by (auto simp: register_use_def intro!: tx_quiet split: option.split)

lemma quiet_fn_def_use [tx_quiet]: "quiet (translate_fn_def_use E t)"
  by (auto simp: translate_fn_def_use_def register_use_procedure_def register_use_trait_method_def
      register_use_closure_def Let_def intro!: tx_quiet
      split: ty.split option.split prod.split trait_resolution_kind.split)

lemma quiet_lit_expr [tx_quiet]: "quiet (lit_expr l)"
  by (simp add: lit_expr_def tx_quiet)

lemma quiet_scalar_int [tx_quiet]: "quiet (translate_scalar_int E d sz t)"
  by (auto simp: translate_scalar_int_def Let_def intro!: tx_quiet split: ty.split option.split)

lemma quiet_static_ref [tx_quiet]: "quiet (translate_static_ref E a)"
  by (auto simp: translate_static_ref_def Let_def intro!: tx_quiet split: global_alloc.split)

lemma quiet_scalar [tx_quiet]: "quiet (translate_scalar E sc t)"
  by (auto simp: translate_scalar_def Let_def intro!: tx_quiet split: ty.split option.split scalar.split)

lemma quiet_constant [tx_quiet]: "quiet (translate_constant E c)"
  by (auto simp: translate_constant_def translate_constant_value_def intro!: tx_quiet
      split: ty.split option.split mir_const.split ty_const.split const_value.split prod.split)

lemma quiet_operand [tx_quiet]: "quiet (translate_operand E op r)"
  by (auto simp: translate_operand_def Let_def intro!: tx_quiet split: operand.split)

lemma quiet_rvalue_operand [tx_quiet]: "quiet (translate_rvalue_operand E op)"
  by (auto intro!: tx_quiet split: prod.split)

lemma quiet_binop [tx_quiet]: "quiet (translate_binop E op op1 op2)"
  by (auto simp: translate_binop_def Let_def intro!: tx_quiet split: option.split prod.split)

lemma quiet_cast [tx_quiet]: "quiet (translate_cast E kind op t)"
  by (auto simp: translate_cast_def intro!: tx_quiet split: cast_kind.split pointer_coercion.split ty.split prod.split)

lemma quiet_borrow_annot [tx_quiet]: "quiet (get_type_annotation_for_borrow E pl)"
  by (auto simp: get_type_annotation_for_borrow_def intro!: tx_quiet)

lemma quiet_aggregate [tx_quiet]: "quiet (translate_aggregate E kind ops)"
  by (auto simp: translate_aggregate_def translate_tuple_aggregate_def translate_adt_aggregate_def Let_def
      intro!: tx_quiet split: aggregate_kind.split adt_kind.split option.split prod.split)

lemma quiet_rvalue [tx_quiet]: "quiet (translate_rvalue E l rval)"
  by (auto simp: translate_rvalue_def Let_def intro!: tx_quiet split: rvalue.split ty.split prod.split)

lemma quiet_assignment [tx_quiet]: "quiet (translate_assignment E l plc val)"
  by (auto simp: translate_assignment_def Let_def intro!: tx_quiet split: prod.split)

lemma quiet_statement [tx_quiet]: "quiet (translate_statement E l st)"
  by (auto simp: translate_statement_def intro!: tx_quiet split: statement.split option.split)

lemma quiet_indexed_statement [tx_quiet]: "quiet (translate_indexed_statement E b x acc)"
  by (auto simp: translate_indexed_statement_def intro!: tx_quiet split: prod.split)

lemma quiet_call_annotations [tx_quiet]: "quiet (call_annotations E l destination info)"
  by (auto simp: call_annotations_def Let_def intro!: tx_quiet split: prod.split)

lemma quiet_shim [tx_quiet]: "quiet (make_discriminant_shim E op dest)"
  by (auto simp: make_discriminant_shim_def intro!: tx_quiet split: ty.split prod.split)

section \<open>Discovering blocks\<close>

text \<open>The targets of the jumps in generated code.\<close>

primrec gotos :: "stmt \<Rightarrow> basic_block set" where
  "gotos (GotoBlockS b) = {b}"
| "gotos (ReturnS e) = {}"
| "gotos (IfS ot e s1 s2) = gotos s1 \<union> gotos s2"
| "gotos (SwitchS e it m bs d) = \<Union> (set (map gotos bs)) \<union> gotos d"
| "gotos (PrimS ps s) = gotos s"
| "gotos StuckS = {}"

text \<open>The blocks \<open>J\<close> have been met: those that are new are processed and in the queue.\<close>

definition discovers :: "basic_block set \<Rightarrow> ('y, 'g, 't, 'l, 's) tx \<Rightarrow> ('y, 'g, 't, 'l, 's) tx \<Rightarrow> bool" where
  "discovers J s s' \<longleftrightarrow> tx_processed s' = tx_processed s \<union> J \<and> code_blocks (fb_code (tx_fn s')) = code_blocks (fb_code (tx_fn s))
     \<and> (\<exists>new. tx_queue s' = tx_queue s @ new \<and> distinct new \<and> set new = J - tx_processed s)"

lemma discovers_trans: "discovers J s s' \<Longrightarrow> discovers K s' s'' \<Longrightarrow> discovers (J \<union> K) s s''"
  by (fastforce simp: discovers_def)

definition flows :: "(('y, 'g, 't, 'l, 's) tx, 'a) action \<Rightarrow> ('a \<Rightarrow> basic_block set \<Rightarrow> bool) \<Rightarrow> bool" where
  "flows m Q \<longleftrightarrow> (\<forall>s x s'. m s = Ok (x, s') \<longrightarrow> (\<exists>J. discovers J s s' \<and> Q x J))"

lemma flows_quiet: "quiet m \<Longrightarrow> (\<And>x. Q x {}) \<Longrightarrow> flows m Q"
  by (fastforce simp: flows_def quiet_def discovers_def jump_state_def)

lemma flows_return: "Q x {} \<Longrightarrow> flows (tx_return x) Q"
  by (auto simp: flows_def tx_return_def discovers_def)

lemma flows_bind:
  assumes "flows m P" and "\<And>x J. P x J \<Longrightarrow> flows (f x) (\<lambda>y K. Q y (J \<union> K))"
  shows "flows (tx_bind m f) Q"
  unfolding flows_def
proof (intro allI impI)
  fix s y s''
  assume "tx_bind m f s = Ok (y, s'')"
  then obtain x s' where m: "m s = Ok (x, s')" and f: "f x s' = Ok (y, s'')"
    by (auto simp: tx_bind_def rust_simps split: prod.splits)
  from assms(1) m obtain J where J: "discovers J s s'" "P x J" unfolding flows_def by blast
  from assms(2) [OF J(2)] f obtain K where "discovers K s' s''" "Q y (J \<union> K)" unfolding flows_def by blast
  with J(1) show "\<exists>J. discovers J s s'' \<and> Q y J" by (blast intro: discovers_trans)
qed

lemma flows_after:
  assumes "quiet m" and "\<And>x. flows (f x) Q"
  shows "flows (tx_bind m f) Q"
  by (rule flows_bind [where P = "\<lambda>_ J. J = {}"]) (use assms in \<open>auto intro: flows_quiet\<close>)

lemma flows_mono: "flows m P \<Longrightarrow> (\<And>x J. P x J \<Longrightarrow> Q x J) \<Longrightarrow> flows m Q"
  unfolding flows_def by blast

lemma flows_fail: "flows (tx_fail e) Q" and flows_panic: "flows tx_panic Q"
  by (simp_all add: flows_def tx_fail_def tx_panic_def)

lemma flows_goto: "flows (translate_goto_like E b) (\<lambda>st J. gotos st = {b} \<and> J = {b})"
proof -
  have enqueue: "flows (enqueue_basic_block b :: (('y, 'g, 't, 'l, 's) tx, unit) action) (\<lambda>_ J. J = {b})" for b
    by (auto simp: flows_def enqueue_basic_block_def tx_modify_def discovers_def)
  have "quiet (register_loop_head E b)"
    by (auto simp: register_loop_head_def intro!: tx_quiet)
  then show ?thesis
    unfolding translate_goto_like_def tx_seq_def
    by (intro flows_bind [OF enqueue] flows_after flows_return) auto
qed

lemma flows_gotos:
  "flows (tx_map (\<lambda>(_, b). translate_goto_like E b) xs)
     (\<lambda>sts J. \<Union> (gotos ` set sts) = snd ` set xs \<and> J = snd ` set xs)"
proof (induction xs)
  case Nil
  show ?case by (simp add: flows_return)
next
  case (Cons x xs)
  have "flows (translate_goto_like E (snd x)) (\<lambda>st J. gotos st = {snd x} \<and> J = {snd x})" by (rule flows_goto)
  then show ?case
    by (simp add: split_beta) (rule flows_bind, assumption, rule flows_bind [OF Cons.IH [unfolded split_beta]],
        rule flows_return, auto)
qed

section \<open>The jumps of a terminator\<close>

text \<open>
  The targets the translation keeps: those of the real control flow, but none for a call to a panic, which
  becomes a stuck statement.
\<close>

definition kept_targets :: "('y, 'g, 't) tx_env \<Rightarrow> terminator \<Rightarrow> basic_block set" where
  "kept_targets E term =
     (case term of
        Call func _ _ _ _ \<Rightarrow> if is_call_destination_panic E func then {} else set (the (real_targets term))
      | _ \<Rightarrow> (case real_targets term of Some ts \<Rightarrow> set ts | None \<Rightarrow> {}))"

text \<open>What MIR guarantees of a switch: one target more than values, and a single value for a boolean.\<close>

definition switch_ok :: "('y, 'g, 't) tx_env \<Rightarrow> terminator \<Rightarrow> bool" where
  "switch_ok E term =
     (case term of
        SwitchInt discr values targets \<Rightarrow>
          length targets = Suc (length values) \<and> (operand_ty_of E discr = TyBool \<longrightarrow> length values = 1)
      | _ \<Rightarrow> True)"

lemma switch_targets:
  "length targets = Suc (length values) \<Longrightarrow> snd ` set (zip values targets) \<union> {last targets} = set targets"
proof -
  assume len: "length targets = Suc (length values)"
  then have "targets = butlast targets @ [last targets]" by (metis append_butlast_last_id length_0_conv nat.distinct(1))
  moreover have "snd ` set (zip values targets) = set (take (length values) targets)"
    using len by (simp add: set_map [symmetric] map_snd_zip_take del: set_map)
  moreover have "take (length values) targets = butlast targets"
    using len by (simp add: butlast_conv_take)
  ultimately show ?thesis by (metis Un_commute insert_is_Un rotate1.simps(2) set_append set_rotate1 list.simps(15) set_simps(1))
qed

lemma flows_split: "(\<And>a b. flows (f a b) Q) \<Longrightarrow> flows (case x of (a, b) \<Rightarrow> f a b) Q"
  by (cases x) simp

lemma flows_lift: "flows (tx_lift r) (\<lambda>x J. r = Ok x \<and> J = {})"
  by (fastforce simp: flows_def tx_lift_def rust_simps discovers_def)

lemmas flow_steps = flows_split flows_after flows_fail flows_panic

lemma flows_bool_switch:
  "flows (tx_bind (tx_lift (or_panic (vec_get targets 1))) (\<lambda>true_target.
      tx_bind (tx_lift (or_panic (vec_get targets 0))) (\<lambda>false_target.
      tx_bind (translate_goto_like E true_target) (\<lambda>true_branch.
      tx_bind (translate_goto_like E false_target) (\<lambda>false_branch.
        tx_return (PrimS endlfts (IfS BoolOp e true_branch false_branch)))))))
     (\<lambda>st J. gotos st = J \<and> (length targets = 2 \<longrightarrow> J = set targets))"
proof -
  have both: "{t1, t0} = set targets"
    if "or_panic (vec_get targets 1) = Ok t1" "or_panic (vec_get targets 0) = Ok t0" "length targets = 2" for t0 t1
    using that by (cases targets; cases "tl targets") (auto simp: vec_get_def rust_simps split: if_splits)
  show ?thesis
    by (rule flows_bind [OF flows_lift] flows_bind [OF flows_goto] flows_return)+ (auto simp: both [symmetric])
qed

lemma flows_switch:
  "flows (translate_switch E discr values targets endlfts)
     (\<lambda>st J. gotos st = J \<and> (switch_ok E (SwitchInt discr values targets) \<longrightarrow> J = set targets))"
proof (cases "operand_ty_of E discr = TyBool")
  case True
  show ?thesis
    unfolding translate_switch_def
    apply (rule flows_after [OF quiet_rvalue_operand])
    apply (simp only: True simp_thms if_True)
    apply (rule flows_mono [OF flows_bool_switch])
    apply (simp add: switch_ok_def True)
    done
next
  case False
  show ?thesis
    unfolding translate_switch_def
    apply (rule flows_after [OF quiet_rvalue_operand])
    apply (simp only: False if_False)
    apply (rule flows_after [OF quiet_rvalue_operand])
    apply (rule flows_bind [OF flows_gotos])
    apply (rule flows_bind [OF flows_lift])
    apply (rule flows_bind [OF flows_goto])
    apply (rule flows_after [OF quiet_types(1)])
    apply (insert switch_targets [of targets "values"])
    apply (simp split: option.split)
    apply (intro conjI allI impI flows_fail flows_return)
     apply simp
    apply (simp add: switch_ok_def split: if_splits)
    done
qed

lemma flows_call:
  "flows (translate_function_call E func args destination target l endlfts)
     (\<lambda>st J. gotos st = J \<and> J = (case target of Some t \<Rightarrow> {t} | None \<Rightarrow> {}))"
proof (cases func)
  case (Constant c)
  show ?thesis
    unfolding translate_function_call_def Constant operand.case Let_def
    apply (rule flows_after [OF quiet_lift])
    apply (rule flows_after [OF quiet_operand], rule flows_split)
    apply (rule flows_after [OF quiet_lift])
    apply (rule flows_after, rule quiet_map, rule quiet_rvalue_operand)
    apply (rule flows_after [OF quiet_call_annotations], (rule flows_split)+)
    apply (rule flows_after [OF quiet_lift])
    apply (cases target)
     apply (simp add: flows_return)
    apply (simp only: option.case)
    apply (rule flows_after [OF quiet_types(2)])
    apply (rule flows_after [OF quiet_place])
    apply (rule flows_bind [OF flows_goto])
    apply (rule flows_return)
    apply simp
    done
qed (simp_all add: translate_function_call_def flows_fail)

lemma flows_terminator:
  "flows (translate_terminator E term l dying)
     (\<lambda>st J. gotos st = J \<and> (switch_ok E term \<longrightarrow> J = kept_targets E term))"
proof -
  let ?Q = "\<lambda>st J. gotos st = J \<and> (switch_ok E term \<longrightarrow> J = kept_targets E term)"
  have goto: "flows (translate_goto_like E b) ?Q" if "kept_targets E term = {b}" for b
    by (rule flows_mono [OF flows_goto]) (simp add: that)
  have goto_then: "flows (tx_bind (translate_goto_like E b) (\<lambda>goto. tx_return (PrimS ps goto))) ?Q"
    if "kept_targets E term = {b}" for b ps
    by (rule flows_bind [OF flows_goto], rule flows_return) (simp add: that)
  show ?thesis
  proof (cases "term")
    case (Call func args destination target unwind)
    show ?thesis
    proof (cases "is_call_destination_panic E func \<or> \<not> is_call_destination_discriminant E func")
      case True
      then show ?thesis
        by (auto simp: translate_terminator_def Call kept_targets_def split: option.splits
            intro!: flows_after [OF quiet_lift] flows_return flows_mono [OF flows_call])
    next
      case False
      then show ?thesis
        unfolding translate_terminator_def Call terminator.case
        apply (simp only: de_Morgan_disj not_not if_False if_True)
        apply (rule flows_after [OF quiet_lift], rule flows_after [OF quiet_lift])
        apply (rule flows_after [OF quiet_shim], rule flows_bind [OF flows_lift])
        apply (rule flows_bind [OF flows_goto], rule flows_return)
        apply (auto simp: kept_targets_def rust_simps split: option.splits)
        done
    qed
  next
    case (SwitchInt discr vals targets)
    show ?thesis
      unfolding translate_terminator_def SwitchInt terminator.case
      by (rule flows_after [OF quiet_lift], rule flows_mono [OF flows_switch]) (simp add: kept_targets_def)
  next
    case (Assert cond expected target cleanup)
    show ?thesis
      by (simp only: translate_terminator_def Assert terminator.case)
        (rule flows_after [OF quiet_lift], rule flows_after [OF quiet_rvalue_operand], rule goto_then [unfolded Assert],
          simp add: kept_targets_def)
  next
    case (Drop pl target cleanup)
    show ?thesis
      by (simp only: translate_terminator_def Drop terminator.case)
        (rule flows_after [OF quiet_lift], rule flows_after [OF quiet_place], rule goto_then [unfolded Drop],
          simp add: kept_targets_def)
  next
    case Return
    have "quiet (translate_return E endlfts)" for endlfts
      by (auto simp: translate_return_def intro!: tx_quiet)
    moreover have "translate_return E endlfts s = Ok (st, s') \<Longrightarrow> gotos st = {}" for endlfts s st s'
      by (auto simp: translate_return_def tx_bind_def tx_lift_def tx_return_def rust_simps split: prod.splits)
    ultimately have ret: "flows (translate_return E endlfts) (\<lambda>st J. gotos st = {} \<and> J = {})" for endlfts
      by (fastforce simp: flows_def quiet_def discovers_def jump_state_def)
    show ?thesis
      by (simp only: translate_terminator_def Return terminator.case)
        (rule flows_after [OF quiet_lift], rule flows_mono [OF ret], simp add: kept_targets_def)
  next
    case (Goto target)
    show ?thesis
      by (simp only: translate_terminator_def Goto terminator.case)
        (rule flows_after [OF quiet_lift], rule goto [unfolded Goto], simp add: kept_targets_def)
  next
    case (FalseEdge target imaginary)
    show ?thesis
      by (simp only: translate_terminator_def FalseEdge terminator.case)
        (rule flows_after [OF quiet_lift], rule goto [unfolded FalseEdge], simp add: kept_targets_def)
  next
    case (FalseUnwind target unwind)
    show ?thesis
      by (simp only: translate_terminator_def FalseUnwind terminator.case)
        (rule flows_after [OF quiet_lift], rule goto [unfolded FalseUnwind], simp add: kept_targets_def)
  qed (auto simp: translate_terminator_def kept_targets_def intro!: flows_after [OF quiet_lift] flows_fail flows_return)
qed

lemma flows_block:
  "flows (translate_basic_block E b bb)
     (\<lambda>st J. gotos st = J \<and> (switch_ok E (terminator bb) \<longrightarrow> J = kept_targets E (terminator bb)))"
  unfolding translate_basic_block_def Let_def
  apply (rule flows_after, rule quiet_fold, simp add: split_paired_all quiet_indexed_statement)
  apply (rule flows_after [OF quiet_lift], rule flows_after [OF quiet_lift])
  apply (rule flows_bind [OF flows_terminator], rule flows_return)
  apply simp
  done

section \<open>The worklist\<close>

text \<open>The real edges that the generated code keeps.\<close>

definition kept_edges :: "('y, 'g, 't) tx_env \<Rightarrow> (basic_block \<times> basic_block) set" where
  "kept_edges E = {(b, t). \<exists>bb. vec_get (basic_blocks (te_body E)) b = Some bb \<and> t \<in> kept_targets E (terminator bb)}"

definition switches_ok :: "('y, 'g, 't) tx_env \<Rightarrow> bool" where
  "switches_ok E \<longleftrightarrow> (\<forall>bb \<in> set (basic_blocks (te_body E)). switch_ok E (terminator bb))"

abbreviation blocks_of :: "('y, 'g, 't, 'l, 's) tx \<Rightarrow> (basic_block, stmt) btmap" where
  "blocks_of s \<equiv> code_blocks (fb_code (tx_fn s))"

text \<open>
  Between two iterations: the blocks that were met are those with code and those in the queue; the targets of
  the jumps have been met, and each block met is one of them or the first.
\<close>

definition flow_inv :: "('y, 'g, 't) tx_env \<Rightarrow> ('y, 'g, 't, 'l, 's) tx \<Rightarrow> bool" where
  "flow_inv E s \<longleftrightarrow> bm_ok (blocks_of s)
     \<and> set (bm_keys (blocks_of s)) \<union> set (tx_queue s) = insert 0 (tx_processed s)
     \<and> 0 \<in> set (bm_keys (blocks_of s))
     \<and> (\<forall>b \<in> set (bm_keys (blocks_of s)). b < length (basic_blocks (te_body E))
          \<and> gotos (the (bm_get (blocks_of s) b)) \<subseteq> tx_processed s
          \<and> (switches_ok E \<longrightarrow> gotos (the (bm_get (blocks_of s) b)) = kept_edges E `` {b}))
     \<and> (switches_ok E \<longrightarrow> insert 0 (tx_processed s) \<subseteq> (kept_edges E)\<^sup>* `` {0})"

lemma add_translated_result:
  "add_translated b st s = Ok (x, s') \<longleftrightarrow>
     s' = s\<lparr>tx_fn := (tx_fn s)\<lparr>fb_code := add_basic_block b st (fb_code (tx_fn s))\<rparr>\<rparr>"
  by (auto simp: add_translated_def update_fn_def tx_modify_def)

text \<open>What translating one block adds.\<close>

definition adds_block :: "('y, 'g, 't) tx_env \<Rightarrow> basic_block \<Rightarrow> ('y, 'g, 't, 'l, 's) tx \<Rightarrow> ('y, 'g, 't, 'l, 's) tx \<Rightarrow> bool" where
  "adds_block E b s s' \<longleftrightarrow> b < length (basic_blocks (te_body E))
     \<and> (\<exists>st new. blocks_of s' = bm_insert b st (blocks_of s) \<and> tx_processed s' = tx_processed s \<union> gotos st
          \<and> tx_queue s' = tx_queue s @ new \<and> distinct new \<and> set new = gotos st - tx_processed s
          \<and> (switches_ok E \<longrightarrow> gotos st = kept_edges E `` {b}))"

lemma block_targets:
  "vec_get (basic_blocks (te_body E)) b = Some bb \<Longrightarrow> kept_edges E `` {b} = kept_targets E (terminator bb)"
  by (auto simp: kept_edges_def)

lemma block_switch_ok:
  "switches_ok E \<Longrightarrow> vec_get (basic_blocks (te_body E)) b = Some bb \<Longrightarrow> switch_ok E (terminator bb)"
  by (auto simp: switches_ok_def vec_get_def split: if_splits)

lemma translate_block_adds:
  assumes "vec_get (basic_blocks (te_body E)) b = Some bb" and "translate_basic_block E b bb s = Ok (st, s')"
    and "gotos st' = gotos st"
  shows "adds_block E b s (s'\<lparr>tx_fn := (tx_fn s')\<lparr>fb_code := add_basic_block b st' (fb_code (tx_fn s'))\<rparr>\<rparr>)"
proof -
  from flows_block [of E b bb] assms(2) obtain J where J: "discovers J s s'" "gotos st = J"
    "switch_ok E (terminator bb) \<longrightarrow> J = kept_targets E (terminator bb)" unfolding flows_def by blast
  moreover from assms(1) have "b < length (basic_blocks (te_body E))" by (simp add: vec_get_def split: if_splits)
  ultimately show ?thesis
    using assms(3) block_targets [OF assms(1)] block_switch_ok [OF _ assms(1)]
    by (fastforce simp: adds_block_def discovers_def add_basic_block_def)
qed

lemma translate_queued_adds: "translate_queued E b s = Ok (x, s') \<Longrightarrow> adds_block E b s s'"
  by (auto simp: translate_queued_def tx_bind_def tx_lift_def rust_simps add_translated_result
      split: option.splits dest: translate_block_adds [OF _ _ refl])

lemma gotos_wrap: "gotos (wrap_initial_block E cs st) = gotos st"
  by (simp add: wrap_initial_block_def)

text \<open>A step of the loop pops a block and adds it; the measure counts the blocks still to come.\<close>

definition to_come :: "('y, 'g, 't) tx_env \<Rightarrow> ('y, 'g, 't, 'l, 's) tx \<Rightarrow> nat" where
  "to_come E s = (let n = length (basic_blocks (te_body E)) in
     length (filter (\<lambda>b. b < n) (tx_queue s)) + card ({..<n} - tx_processed s))"

lemma to_come_decreases:
  assumes "tx_queue s \<noteq> []" and "adds_block E (last (tx_queue s)) (s\<lparr>tx_queue := butlast (tx_queue s)\<rparr>) s'"
  shows "to_come E s' < to_come E s"
proof -
  let ?n = "length (basic_blocks (te_body E))" and ?q = "butlast (tx_queue s)"
  from assms(2) obtain J new where last: "last (tx_queue s) < ?n" and proc: "tx_processed s' = tx_processed s \<union> J"
    and queue: "tx_queue s' = ?q @ new" and new: "distinct new" "set new = J - tx_processed s"
    by (auto simp: adds_block_def)
  have "length (filter (\<lambda>b. b < ?n) new) = card (set (filter (\<lambda>b. b < ?n) new))"
    using new(1) by (metis distinct_card distinct_filter)
  also have "set (filter (\<lambda>b. b < ?n) new) = {..<?n} \<inter> (J - tx_processed s)" using new(2) by auto
  finally have count: "length (filter (\<lambda>b. b < ?n) new) = card ({..<?n} \<inter> (J - tx_processed s))" .
  have "{..<?n} - tx_processed s = ({..<?n} \<inter> (J - tx_processed s)) \<union> ({..<?n} - tx_processed s')"
    using proc by auto
  then have "card ({..<?n} - tx_processed s) = card ({..<?n} \<inter> (J - tx_processed s)) + card ({..<?n} - tx_processed s')"
    using proc by (simp only:) (rule card_Un_disjoint, auto)
  moreover have "filter (\<lambda>b. b < ?n) (tx_queue s) = filter (\<lambda>b. b < ?n) ?q @ [last (tx_queue s)]"
    using assms(1) last by (metis append_butlast_last_id filter.simps filter_append)
  ultimately show ?thesis
    by (simp add: to_come_def Let_def queue count)
qed

lemma flow_inv_step:
  assumes "flow_inv E s" and "tx_queue s \<noteq> []"
    and "adds_block E (last (tx_queue s)) (s\<lparr>tx_queue := butlast (tx_queue s)\<rparr>) s'"
  shows "flow_inv E s'"
proof -
  let ?b = "last (tx_queue s)"
  from assms(3) obtain st new where b: "?b < length (basic_blocks (te_body E))"
    and blocks: "blocks_of s' = bm_insert ?b st (blocks_of s)" and proc: "tx_processed s' = tx_processed s \<union> gotos st"
    and queue: "tx_queue s' = butlast (tx_queue s) @ new" "set new = gotos st - tx_processed s"
    and targets: "switches_ok E \<longrightarrow> gotos st = kept_edges E `` {?b}"
    by (auto simp: adds_block_def)
  have popped: "set (tx_queue s) = insert ?b (set (butlast (tx_queue s)))"
    using assms(2) by (metis append_butlast_last_id list.simps(15) rotate1.simps(2) set_rotate1)
  have keys: "set (bm_keys (blocks_of s')) = insert ?b (set (bm_keys (blocks_of s)))"
    by (simp add: blocks set_bm_keys_insert)
  have get: "bm_get (blocks_of s') = (bm_get (blocks_of s))(?b \<mapsto> st)" and ok: "bm_ok (blocks_of s')"
    using assms(1) by (simp_all add: blocks flow_inv_def bm_get_insert bm_ok_insert)
  have met: "set (bm_keys (blocks_of s')) \<union> set (tx_queue s') = insert 0 (tx_processed s')"
  proof -
    have "set (bm_keys (blocks_of s)) \<union> set (tx_queue s) = insert 0 (tx_processed s)"
      using assms(1) by (simp add: flow_inv_def)
    moreover have "insert x A \<union> (B \<union> C) = (A \<union> insert x B) \<union> C" for x :: basic_block and A B C by blast
    moreover have "insert x A \<union> (C - A) = insert x (A \<union> C)" for x :: basic_block and A C by blast
    ultimately show ?thesis
      by (simp only: keys proc queue set_append popped)
  qed
  have "?b \<in> insert 0 (tx_processed s)"
    using assms(1) popped by (auto simp: flow_inv_def)
  then have "insert 0 (tx_processed s') \<subseteq> (kept_edges E)\<^sup>* `` {0}" if "switches_ok E"
    using assms(1) targets that by (auto simp: proc flow_inv_def intro: rtrancl.rtrancl_into_rtrancl)
  with assms(1) b ok met show ?thesis
    by (auto simp: flow_inv_def keys get targets proc)
qed

lemma translate_loop_result:
  "\<exists>r. translate_loop E s = Some r \<and> (\<forall>s'. r = Ok s' \<longrightarrow> tx_queue s' = [] \<and> (flow_inv E s \<longrightarrow> flow_inv E s'))"
proof (induction "to_come E s" arbitrary: s rule: less_induct)
  case less
  show ?case
  proof (cases "tx_queue s = []")
    case True
    then show ?thesis by (subst translate_loop.simps) simp
  next
    case False
    let ?s = "s\<lparr>tx_queue := butlast (tx_queue s)\<rparr>" and ?b = "last (tx_queue s)"
    show ?thesis
    proof (cases "translate_queued E ?b ?s")
      case (Ok r)
      then obtain x s' where step: "translate_queued E ?b ?s = Ok (x, s')" by (cases r) auto
      then have adds: "adds_block E ?b ?s s'" by (rule translate_queued_adds)
      from less(1) [OF to_come_decreases [OF False adds]] obtain r where "translate_loop E s' = Some r"
        "\<forall>s''. r = Ok s'' \<longrightarrow> tx_queue s'' = [] \<and> (flow_inv E s' \<longrightarrow> flow_inv E s'')" by blast
      then show ?thesis
        using flow_inv_step [OF _ False adds] by (subst translate_loop.simps) (simp add: False step)
    qed (subst translate_loop.simps, simp add: False)+
  qed
qed

text \<open>The state \<open>TX::new\<close> returns: no block has been met and no code generated.\<close>

definition no_blocks_yet :: "('y, 'g, 't, 'l, 's) tx \<Rightarrow> bool" where
  "no_blocks_yet s \<longleftrightarrow> tx_queue s = [] \<and> tx_processed s = {} \<and> blocks_of s = []"

lemma initial_flow_inv:
  assumes "no_blocks_yet s" and "basic_blocks (te_body E) \<noteq> []" and "translate_initial_block E s = Ok (x, s')"
  shows "flow_inv E s'"
proof -
  have quiet: "jump_state s1 = jump_state s" if "with_tracker f s = Ok (cs, s1)" for f cs s1
    using quiet_with_tracker [of f] that by (auto simp: quiet_def)
  from assms(2) obtain bb where bb: "vec_get (basic_blocks (te_body E)) 0 = Some bb"
    by (cases "basic_blocks (te_body E)") (auto simp: vec_get_def)
  with assms(3) obtain cs s1 where s1: "with_tracker (get_initial_closure_constraints (re_polonius (te_region E)) (te_info E)) s = Ok (cs, s1)"
    and "adds_block E 0 s1 s'"
    by (auto simp: translate_initial_block_def tx_bind_def rust_simps add_translated_result
        dest: translate_block_adds [OF bb _ gotos_wrap])
  moreover from quiet [OF s1] assms(1) have "no_blocks_yet s1" by (simp add: jump_state_def no_blocks_yet_def)
  ultimately show ?thesis
    by (auto simp: flow_inv_def adds_block_def no_blocks_yet_def bm_ok_def bm_keys_def bm_get_def)
qed

section \<open>The generated control flow\<close>

text \<open>
  C33. Translating the blocks of a body returns: the queue runs empty, or an error or a panic ends it. No bound
  on the jumps is needed.
\<close>

theorem translate_blocks_total: "translate_blocks E s \<noteq> None"
  using translate_loop_result [of E]
  by (auto simp: translate_blocks_def split: outcome.split prod.split)

text \<open>
  C34. The generated code has exactly the reachable part of the control flow: a block has code if and only if
  it is reachable from the first along the real edges that are kept, and the jumps in its code go to its
  successors there. In particular each jump goes to a block with code.
\<close>

theorem generated_control_flow:
  assumes "translate_blocks E s = Some (Ok s')" and "no_blocks_yet s"
    and "basic_blocks (te_body E) \<noteq> []" and "switches_ok E"
  shows "set (bm_keys (blocks_of s')) = (kept_edges E)\<^sup>* `` {0}
    \<and> (\<forall>b st. bm_get (blocks_of s') b = Some st \<longrightarrow> gotos st = kept_edges E `` {b})"
proof -
  from assms(1) obtain x s1 where "translate_initial_block E s = Ok (x, s1)" "translate_loop E s1 = Some (Ok s')"
    by (auto simp: translate_blocks_def split: outcome.splits)
  with translate_loop_result [of E s1] initial_flow_inv [OF assms(2,3)]
  have inv: "flow_inv E s'" and "tx_queue s' = []" by auto
  let ?K = "set (bm_keys (blocks_of s'))"
  from inv \<open>tx_queue s' = []\<close> have K: "?K = insert 0 (tx_processed s')" by (simp add: flow_inv_def)
  have jumps: "kept_edges E `` {b} \<subseteq> ?K" if "b \<in> ?K" for b
    using inv that assms(4) unfolding K flow_inv_def by blast
  have "t \<in> ?K" if "(0, t) \<in> (kept_edges E)\<^sup>*" for t
    using that by induction (use K jumps in blast)+
  with K inv assms(4) have "?K = (kept_edges E)\<^sup>* `` {0}" by (auto simp: flow_inv_def)
  moreover have "gotos st = kept_edges E `` {b}" if "bm_get (blocks_of s') b = Some st" for b st
  proof -
    from that have "b \<in> ?K" by (simp flip: bm_get_keys)
    with inv assms(4) that show ?thesis by (fastforce simp: flow_inv_def)
  qed
  ultimately show ?thesis by blast
qed

theorem generated_control_flow_witness:
  "no_blocks_yet mini_start \<and> switches_ok mini_env \<and> (kept_edges mini_env)\<^sup>* `` {0} = {0, 2, 3}"
proof -
  obtain s where s: "translate_blocks mini_env mini_start = Some (Ok s)"
    and code: "blocks_of s = [(0, mini_code 0), (2, mini_code 2), (3, mini_code 3)]"
    by (rule mini_translated)
  have start: "no_blocks_yet mini_start"
    by (simp add: no_blocks_yet_def mini_start_def builder_new_def function_code_def_new_def)
  have body: "basic_blocks (te_body mini_env) \<noteq> []" and switches: "switches_ok mini_env"
    by (simp_all add: switches_ok_def switch_ok_def mini_env_def mini_mir_def mini_body_def)
  from generated_control_flow [OF s start body switches] start switches show ?thesis
    by (simp add: code bm_keys_def)
qed

section \<open>Switches\<close>

text \<open>
  The value of the discriminant is its bit pattern \<open>v\<close>, as in the \<open>SwitchInt\<close> of MIR. Caesium reads the bytes at an
  integer type with \<open>val_to_Z\<close> (\<open>val.v\<close>): from half the modulus on, a signed integer is negative. The rules \<open>SwitchS\<close>
  and \<open>IfSS\<close> of \<open>lang.v\<close> look that integer up in the map, whose keys are numbers of \<open>u128\<close>; \<open>None\<close> is a stuck
  statement.
\<close>

fun int_bits :: "int_type \<Rightarrow> nat" where
  "int_bits I8 = 8"
| "int_bits I16 = 16"
| "int_bits I32 = 32"
| "int_bits I64 = 64"
| "int_bits I128 = 128"
| "int_bits U8 = 8"
| "int_bits U16 = 16"
| "int_bits U32 = 32"
| "int_bits U64 = 64"
| "int_bits U128 = 128"
| "int_bits ISize = 64"
| "int_bits USize = 64"

definition int_signed :: "int_type \<Rightarrow> bool" where
  "int_signed it \<longleftrightarrow> it \<in> {I8, I16, I32, I64, I128, ISize}"

definition val_to_Z :: "nat \<Rightarrow> int_type \<Rightarrow> int option" where
  "val_to_Z v it =
     (if v < 2 ^ int_bits it
      then if int_signed it \<and> 2 ^ (int_bits it - 1) \<le> v then Some (int v - 2 ^ int_bits it) else Some (int v)
      else None)"

definition cast_to_bool :: "op_type \<Rightarrow> nat \<Rightarrow> bool option" where
  "cast_to_bool ot v =
     (case ot of
        BoolOp \<Rightarrow> if v = 0 then Some False else if v = 1 then Some True else None
      | IntOp it \<Rightarrow> map_option (\<lambda>n. n \<noteq> 0) (val_to_Z v it)
      | _ \<Rightarrow> None)"

definition switch_index :: "(nat, nat) btmap \<Rightarrow> int \<Rightarrow> nat option" where
  "switch_index m n = (if n < 0 then None else bm_get m (nat n))"

fun chosen_branch :: "stmt \<Rightarrow> nat \<Rightarrow> stmt option" where
  "chosen_branch (PrimS ps s) v = chosen_branch s v"
| "chosen_branch (IfS ot e s1 s2) v = map_option (\<lambda>b. if b then s1 else s2) (cast_to_bool ot v)"
| "chosen_branch (SwitchS e it m bs d) v =
     (case val_to_Z v it of
        None \<Rightarrow> None
      | Some n \<Rightarrow> (case switch_index m n of None \<Rightarrow> Some d | Some i \<Rightarrow> vec_get bs i))"
| "chosen_branch s v = Some s"

text \<open>In MIR, the target of a value is that of the equal bit pattern, else the last one.\<close>

definition switch_target :: "nat list \<Rightarrow> basic_block list \<Rightarrow> nat \<Rightarrow> basic_block" where
  "switch_target vals targets v = (case map_of (zip vals targets) v of Some t \<Rightarrow> t | None \<Rightarrow> last targets)"

text \<open>The type at which a generated statement reads its discriminant, and the values of it.\<close>

fun discr_op :: "stmt \<Rightarrow> op_type option" where
  "discr_op (PrimS ps s) = discr_op s"
| "discr_op (IfS ot e s1 s2) = Some ot"
| "discr_op (SwitchS e it m bs d) = Some (IntOp it)"
| "discr_op _ = None"

fun op_fits :: "op_type \<Rightarrow> nat \<Rightarrow> bool" where
  "op_fits BoolOp v \<longleftrightarrow> v \<le> 1"
| "op_fits (IntOp it) v \<longleftrightarrow> v < 2 ^ int_bits it"
| "op_fits _ v \<longleftrightarrow> False"

fun op_negative :: "op_type \<Rightarrow> nat \<Rightarrow> bool" where
  "op_negative (IntOp it) v \<longleftrightarrow> int_signed it \<and> 2 ^ (int_bits it - 1) \<le> v"
| "op_negative _ v \<longleftrightarrow> False"

lemma val_to_Z_sign:
  assumes "v < 2 ^ int_bits it"
  obtains n where "val_to_Z v it = Some n" "n < 0 \<longleftrightarrow> op_negative (IntOp it) v" "0 \<le> n \<Longrightarrow> nat n = v"
proof -
  have "int v < 2 ^ int_bits it" using assms by (metis of_nat_less_iff of_nat_numeral of_nat_power)
  then show thesis
  proof (cases "int_signed it \<and> 2 ^ (int_bits it - 1) \<le> v")
    case True
    with assms \<open>int v < _\<close> show thesis by (intro that [of "int v - 2 ^ int_bits it"]) (simp_all add: val_to_Z_def)
  next
    case False
    with assms show thesis by (intro that [of "int v"]) (simp_all add: val_to_Z_def)
  qed
qed

lemma switch_map_get:
  assumes "distinct vals"
  shows "bm_get (switch_map vals) v = map_of (zip vals [0..<length vals]) v"
proof -
  have id: "(case x of None \<Rightarrow> bm_get [] v | Some i \<Rightarrow> Some i) = x" for x :: "nat option"
    by (cases x) (simp_all add: bm_get_def)
  have "enumerate 0 vals = map (\<lambda>(a, b). (b, a)) (zip vals [0..<length vals])"
    by (simp add: enumerate_eq_zip zip_commute [of "[0..<length vals]"])
  then have "switch_map vals = fold (\<lambda>(k, v). bm_insert k v) (zip vals [0..<length vals]) []"
    by (simp add: switch_map_def fold_map comp_def case_prod_unfold)
  moreover have "map fst (zip vals [0..<length vals]) = vals" by simp
  ultimately show ?thesis
    using btm.get_collect [of "[]" "zip vals [0..<length vals]" v] assms
    by (simp add: btm.ok_empty id)
qed

lemma flows_goto_list:
  "flows (tx_map (\<lambda>(_, b). translate_goto_like E b) xs) (\<lambda>sts J. map gotos sts = map (\<lambda>(_, b). {b}) xs)"
proof (induction xs)
  case (Cons x xs)
  have "flows (translate_goto_like E (snd x)) (\<lambda>st J. gotos st = {snd x} \<and> J = {snd x})" by (rule flows_goto)
  then show ?case
    by (simp add: split_beta) (rule flows_bind, assumption, rule flows_bind [OF Cons.IH [unfolded split_beta]],
        rule flows_return, simp)
qed (simp add: flows_return)

lemma switch_branch:
  assumes "length targets = Suc (length vals)" and "distinct vals"
    and "map gotos bs = map (\<lambda>(_, b). {b}) (zip vals targets)" and "gotos d = {last targets}"
    and "v < 2 ^ int_bits it"
  shows "\<exists>b. chosen_branch (SwitchS e it (switch_map (map fst (zip vals targets))) bs d) v = Some b \<and>
     gotos b = {if op_negative (IntOp it) v then last targets else switch_target vals targets v}"
proof -
  have fst: "map fst (zip vals targets) = vals" using assms(1) by (simp add: map_fst_zip_take)
  have lens: "length bs = length vals" using assms(1) map_eq_imp_length_eq [OF assms(3)] by simp
  obtain n where n: "val_to_Z v it = Some n" "n < 0 \<longleftrightarrow> op_negative (IntOp it) v" "0 \<le> n \<Longrightarrow> nat n = v"
    using val_to_Z_sign [OF assms(5)] by blast
  show ?thesis
  proof (cases "\<not> op_negative (IntOp it) v \<and> v \<in> set vals")
    case True
    then obtain i where i: "i < length vals" "v = vals ! i" by (auto simp: in_set_conv_nth)
    then have "map_of (zip vals [0..<length vals]) v = Some i"
      using assms(2) by (simp add: map_of_zip_nth)
    moreover have "map_of (zip vals targets) v = Some (targets ! i)"
      using assms(1,2) i by (intro map_of_is_SomeI) (auto simp: fst in_set_zip)
    moreover have "gotos (bs ! i) = {targets ! i}"
      using assms(1,3) i(1) lens by (metis (no_types, lifting) case_prod_conv length_map length_zip less_SucI min_less_iff_conj nth_map nth_zip)
    ultimately show ?thesis
      using True n i lens
      by (simp add: switch_map_get [OF assms(2)] fst switch_target_def switch_index_def vec_get_def del: op_negative.simps)
  next
    case False
    then have "switch_index (switch_map vals) n = None"
      using n fst by (auto simp: switch_map_get [OF assms(2)] switch_index_def simp del: op_negative.simps dest!: map_of_SomeD set_zip_leftD)
    moreover have "v \<notin> set vals \<Longrightarrow> switch_target vals targets v = last targets"
      by (auto simp: switch_target_def dest!: map_of_SomeD set_zip_leftD split: option.split)
    ultimately show ?thesis
      using False by (auto simp: fst assms(4) n(1) simp del: op_negative.simps)
  qed
qed

text \<open>
  C35. The code of a switch takes the branch MIR takes, except at negative values. It reads the discriminant at an
  integer type of the type translator (a boolean: at the boolean type), is stuck exactly on bit patterns outside
  that type, and jumps to the target MIR takes for the pattern whenever the value is not negative; on a negative
  value of a signed type, whose pattern is the key but which Caesium looks up as an integer, it jumps to the
  otherwise target, whatever the targets of the switch are.
\<close>

theorem translate_switch_chooses:
  assumes "translate_switch E discr vals targets endlfts s = Ok (st, s')"
    and "length targets = Suc (length vals)" and "distinct vals" and "operand_ty_of E discr = TyBool \<longrightarrow> vals = [0]"
  shows "\<exists>ot. discr_op st = Some ot \<and>
     (if operand_ty_of E discr = TyBool then ot = BoolOp else \<exists>y it. ty_int (te_types E) y = Some it \<and> ot = IntOp it) \<and>
     (\<forall>v. if op_fits ot v
          then \<exists>b. chosen_branch st v = Some b \<and>
                 gotos b = {if op_negative ot v then last targets else switch_target vals targets v}
          else chosen_branch st v = None)"
proof -
  let ?Q = "\<lambda>st (J :: basic_block set). \<exists>ot. discr_op st = Some ot \<and>
     (if operand_ty_of E discr = TyBool then ot = BoolOp else \<exists>y it. ty_int (te_types E) y = Some it \<and> ot = IntOp it) \<and>
     (\<forall>v. if op_fits ot v
          then \<exists>b. chosen_branch st v = Some b \<and>
                 gotos b = {if op_negative ot v then last targets else switch_target vals targets v}
          else chosen_branch st v = None)"
  have "flows (translate_switch E discr vals targets endlfts :: (('a, 'b, 'c, 'd, 'e) tx, stmt) action) ?Q"
  proof (cases "operand_ty_of E discr = TyBool")
    case True
    with assms(2,4) obtain t0 t1 where targets: "targets = [t0, t1]" and "vals = [0]"
      by (auto simp: length_Suc_conv)
    then show ?thesis
      unfolding translate_switch_def
      apply (intro flows_after [OF quiet_rvalue_operand])
      apply (simp only: True simp_thms if_True)
      apply (rule flows_bind [OF flows_lift], rule flows_bind [OF flows_lift])
      apply (rule flows_bind [OF flows_goto], rule flows_bind [OF flows_goto], rule flows_return)
      apply (auto simp: vec_get_def switch_target_def cast_to_bool_def rust_simps)
      done
  next
    case False
    have switch: "?Q (SwitchS e it (switch_map (map fst (zip vals targets))) bs d) J"
      if "map gotos bs = map (\<lambda>(_, b). {b}) (zip vals targets)" "gotos d = {last targets}" "ty_int (te_types E) y = Some it"
      for e it bs d y J
    proof (intro exI conjI allI)
      show "discr_op (SwitchS e it (switch_map (map fst (zip vals targets))) bs d) = Some (IntOp it)" by simp
      show "if operand_ty_of E discr = TyBool then IntOp it = BoolOp else \<exists>y it'. ty_int (te_types E) y = Some it' \<and> IntOp it = IntOp it'"
        using False that(3) by auto
      show "if op_fits (IntOp it) v
          then \<exists>b. chosen_branch (SwitchS e it (switch_map (map fst (zip vals targets))) bs d) v = Some b \<and>
                 gotos b = {if op_negative (IntOp it) v then last targets else switch_target vals targets v}
          else chosen_branch (SwitchS e it (switch_map (map fst (zip vals targets))) bs d) v = None" for v
        using switch_branch [OF assms(2,3) that(1,2)] by (simp add: val_to_Z_def del: op_negative.simps)
    qed
    show ?thesis
      unfolding translate_switch_def
      apply (rule flows_after [OF quiet_rvalue_operand])
      apply (simp only: False if_False)
      apply (rule flows_after [OF quiet_rvalue_operand])
      apply (rule flows_bind [OF flows_goto_list])
      apply (rule flows_bind [OF flows_lift])
      apply (rule flows_bind [OF flows_goto])
      apply (rule flows_after [OF quiet_types(1)])
      apply (case_tac "ty_int (te_types E) xe")
       apply (erule ssubst, simp only: option.case, rule flows_fail)
      apply (subst option.case_eq_if, simp only: option.distinct if_False, simp only: option.sel, rule flows_return)
      apply (rule switch [unfolded if_not_P [OF False]])
        apply (auto split: if_splits)
      done
  qed
  with assms(1) show ?thesis unfolding flows_def by blast
qed

definition word_env :: "(syn_type, unit, unit) tx_env" where
  "word_env = mini_env\<lparr>te_mir := mini_mir\<lparr>me_operand_ty := (\<lambda>_. TyUint 3)\<rparr>, te_types := mini_types\<lparr>ty_int := (\<lambda>_. Some U32)\<rparr>\<rparr>"

abbreviation seven :: operand where
  "seven \<equiv> Constant (ConstVal (CvScalar (ScalarInt 7 4)) (TyUint 3))"

theorem translate_switch_chooses_witness:
  "\<exists>st s b. translate_switch word_env seven [4, 7] [1, 2, 3] [] mini_start = Ok (st, s) \<and>
     chosen_branch st 7 = Some b \<and> gotos b = {2}"
proof -
  have "(case translate_switch word_env seven [4, 7] [1, 2, 3] [] mini_start of Ok (st, _) \<Rightarrow> discr_op st = Some (IntOp U32) | _ \<Rightarrow> False)"
    by code_simp
  then obtain st s where t: "translate_switch word_env seven [4, 7] [1, 2, 3] [] mini_start = Ok (st, s)"
    and ot: "discr_op st = Some (IntOp U32)"
    by (auto split: outcome.splits)
  have switch: "length [1, 2, 3 :: basic_block] = Suc (length [4, 7 :: nat])" "distinct [4, 7 :: nat]"
    "operand_ty_of word_env seven = TyBool \<longrightarrow> [4, 7] = [0 :: nat]"
    by (simp_all add: word_env_def)
  from translate_switch_chooses [OF t switch] obtain ot where "discr_op st = Some ot" and
    branch: "\<forall>v. if op_fits ot v
          then \<exists>b. chosen_branch st v = Some b \<and>
                 gotos b = {if op_negative ot v then last [1, 2, 3] else switch_target [4, 7] [1, 2, 3] v}
          else chosen_branch st v = None"
    by blast
  with ot have "op_fits ot 7" "\<not> op_negative ot 7" by (simp_all add: int_signed_def)
  with spec [OF branch, of 7] obtain b where "chosen_branch st 7 = Some b" "gotos b = {switch_target [4, 7] [1, 2, 3] 7}"
    by (simp only: if_True if_False) blast
  with t show ?thesis by (auto simp: switch_target_def)
qed

text \<open>
  A switch of \<open>i8\<close> over -1: the key is the pattern 255, the generated code looks -1 up and takes the
  otherwise target, block 2, where MIR goes to block 1.
\<close>

definition signed_env :: "(syn_type, unit, unit) tx_env" where
  "signed_env = mini_env\<lparr>te_mir := mini_mir\<lparr>me_operand_ty := (\<lambda>_. TyInt 1)\<rparr>, te_types := mini_types\<lparr>ty_int := (\<lambda>_. Some I8)\<rparr>\<rparr>"

lemma negative_discriminant_misses_target:
  "\<exists>st s b. translate_switch signed_env (Constant (ConstVal (CvScalar (ScalarInt 7 1)) (TyInt 1))) [255] [1, 2] []
       mini_start = Ok (st, s) \<and>
     chosen_branch st 255 = Some b \<and> gotos b = {2} \<and> switch_target [255] [1, 2] 255 = 1"
proof -
  let ?d = "Constant (ConstVal (CvScalar (ScalarInt 7 1)) (TyInt 1))"
  have "(case translate_switch signed_env ?d [255] [1, 2] [] mini_start of
      Ok (SwitchS _ it m bs d, _) \<Rightarrow> it = I8 \<and> m = [(255, 0)] \<and> bs = [GotoBlockS 1] \<and> d = GotoBlockS 2 | _ \<Rightarrow> False)"
    by code_simp
  then obtain e s where t: "translate_switch signed_env ?d [255] [1, 2] [] mini_start
      = Ok (SwitchS e I8 [(255, 0)] [GotoBlockS 1] (GotoBlockS 2), s)"
    by (auto split: outcome.splits stmt.splits)
  then show ?thesis
    by (auto simp: switch_target_def val_to_Z_def int_signed_def switch_index_def)
qed

end
