(* ===== verification/BodyScope.thy ===== *)
theory BodyScope
  imports BodyFlow
begin

text \<open>
  The generated code is well formed: it can be printed, and each name in it is declared. A variable is the
  name of a local, a function parameter belongs to a procedure the translation has collected, a location to a
  static it has collected.
\<close>

section \<open>Names in code\<close>

datatype code_name = VarName string | ProcName string | StaticName string

fun literal_names :: "literal \<Rightarrow> code_name set" where
  "literal_names (LitLoc x) = {StaticName x}"
| "literal_names _ = {}"

primrec expr_names :: "expr \<Rightarrow> code_name set" where
  "expr_names (VarE x) = {VarName x}"
| "expr_names (MetaParamE x) = {ProcName x}"
| "expr_names (LiteralE l) = literal_names l"
| "expr_names (UnOpE o' ot e) = expr_names e"
| "expr_names (BinOpE o' ot1 ot2 e1 e2) = expr_names e1 \<union> expr_names e2"
| "expr_names (CheckBinOpE o' ot1 ot2 e1 e2) = expr_names e1 \<union> expr_names e2"
| "expr_names (DerefE ot e) = expr_names e"
| "expr_names (MagicBoxDerefE tst ast e) = expr_names e"
| "expr_names (MoveE ot e) = expr_names e"
| "expr_names (CopyE ot e) = expr_names e"
| "expr_names (BorrowE l bk t e) = expr_names e"
| "expr_names (AddressOfE mt e) = expr_names e"
| "expr_names (CallE f ls tys as) = expr_names f \<union> \<Union> (set (map expr_names as))"
| "expr_names (IfE ot e1 e2 e3) = expr_names e1 \<union> expr_names e2 \<union> expr_names e3"
| "expr_names (FieldOfE e sls name) = expr_names e"
| "expr_names (AnnotE a why e) = expr_names e"
| "expr_names (StructInitE sls cs) = \<Union> (set (map snd (map (map_prod id expr_names) cs)))"
| "expr_names (EnumInitE els variant def e) = expr_names e"
| "expr_names (DropE e) = expr_names e"
| "expr_names (BoxE st) = {}"
| "expr_names (EnumDiscriminantE els e) = expr_names e"
| "expr_names (EnumDataE els variant e) = expr_names e"

fun prim_names :: "prim_stmt \<Rightarrow> code_name set" where
  "prim_names (AssignS ot e1 e2) = expr_names e1 \<union> expr_names e2"
| "prim_names (ExprS e) = expr_names e"
| "prim_names (AssertS e) = expr_names e"
| "prim_names (LocalLiveS (Variable x st)) = {VarName x}"
| "prim_names (LocalDeadS x) = {VarName x}"
| "prim_names (AnnotS as why) = {}"

primrec stmt_names :: "stmt \<Rightarrow> code_name set" where
  "stmt_names (GotoBlockS b) = {}"
| "stmt_names (ReturnS e) = expr_names e"
| "stmt_names (IfS ot e s1 s2) = expr_names e \<union> stmt_names s1 \<union> stmt_names s2"
| "stmt_names (SwitchS e it m bs d) = expr_names e \<union> \<Union> (set (map stmt_names bs)) \<union> stmt_names d"
| "stmt_names (PrimS ps s) = \<Union> (prim_names ` set ps) \<union> stmt_names s"
| "stmt_names StuckS = {}"

definition ok_expr :: "code_name set \<Rightarrow> expr \<Rightarrow> bool" where
  "ok_expr N e \<longleftrightarrow> expr_names e \<subseteq> N \<and> prints_expr e"

definition ok_prim :: "code_name set \<Rightarrow> prim_stmt \<Rightarrow> bool" where
  "ok_prim N p \<longleftrightarrow> prim_names p \<subseteq> N \<and> prints_prim p"

definition ok_stmt :: "code_name set \<Rightarrow> stmt \<Rightarrow> bool" where
  "ok_stmt N s \<longleftrightarrow> stmt_names s \<subseteq> N \<and> prints_stmt s"

lemma ok_expr_simps [simp]:
  "ok_expr N (VarE x) \<longleftrightarrow> VarName x \<in> N" "ok_expr N (MetaParamE x) \<longleftrightarrow> ProcName x \<in> N"
  "ok_expr N (LiteralE lit) \<longleftrightarrow> literal_names lit \<subseteq> N"
  "ok_expr N (FieldOfE e sls name) \<longleftrightarrow> ok_expr N e" "ok_expr N (AnnotE a why e) \<longleftrightarrow> ok_expr N e"
  "ok_expr N (BorrowE l bk t e) \<longleftrightarrow> ok_expr N e" "ok_expr N (AddressOfE mt e) \<longleftrightarrow> ok_expr N e"
  "ok_expr N (EnumDiscriminantE els e) \<longleftrightarrow> ok_expr N e" "ok_expr N (EnumDataE els variant e) \<longleftrightarrow> ok_expr N e"
  "ok_expr N (EnumInitE app variant def e) \<longleftrightarrow> ok_expr N e"
  by (auto simp: ok_expr_def)

lemma ok_expr_intros:
  "prints_op ot \<Longrightarrow> ok_expr N e \<Longrightarrow> ok_expr N (DerefE ot e)"
  "prints_op ot \<Longrightarrow> ok_expr N e \<Longrightarrow> ok_expr N (MoveE ot e)"
  "prints_op ot \<Longrightarrow> ok_expr N e \<Longrightarrow> ok_expr N (CopyE ot e)"
  "prints_synty tst \<Longrightarrow> prints_synty ast \<Longrightarrow> ok_expr N e \<Longrightarrow> ok_expr N (MagicBoxDerefE tst ast e)"
  "ok_expr N f \<Longrightarrow> \<forall>a \<in> set as. ok_expr N a \<Longrightarrow> ok_expr N (CallE f ls tys as)"
  "\<forall>c \<in> set cs. ok_expr N (snd c) \<Longrightarrow> ok_expr N (StructInitE sls cs)"
  "(case o1 of CastOp ot' \<Rightarrow> prints_op ot' | _ \<Rightarrow> True) \<Longrightarrow> prints_op ot \<Longrightarrow> ok_expr N e \<Longrightarrow> ok_expr N (UnOpE o1 ot e)"
  "prints_binop o2 \<Longrightarrow> prints_op ot1 \<Longrightarrow> prints_op ot2 \<Longrightarrow> ok_expr N e1 \<Longrightarrow> ok_expr N e2 \<Longrightarrow> ok_expr N (BinOpE o2 ot1 ot2 e1 e2)"
  "has_checked_form o2 \<Longrightarrow> prints_op ot1 \<Longrightarrow> prints_op ot2 \<Longrightarrow> ok_expr N e1 \<Longrightarrow> ok_expr N e2
   \<Longrightarrow> ok_expr N (CheckBinOpE o2 ot1 ot2 e1 e2)"
  by (auto simp: ok_expr_def intro!: prints_expr_intros prints_unop prints_binop_expr prints_checked_expr)

lemma ok_with_annotation: "ok_expr N e \<Longrightarrow> ok_expr N (with_optional_annotation e a why)"
  by (simp add: with_optional_annotation_def split: option.split)

lemma ok_prim_simps [simp]:
  "ok_prim N (ExprS e) \<longleftrightarrow> ok_expr N e" "ok_prim N (AssertS e) \<longleftrightarrow> ok_expr N e" "ok_prim N (AnnotS as why)"
  "ok_prim N (LocalDeadS x) \<longleftrightarrow> VarName x \<in> N" "ok_prim N (LocalLiveS (Variable x st)) \<longleftrightarrow> VarName x \<in> N \<and> prints_synty st"
  by (auto simp: ok_prim_def ok_expr_def)

lemma ok_assign: "prints_op ot \<Longrightarrow> ok_expr N e1 \<Longrightarrow> ok_expr N e2 \<Longrightarrow> ok_prim N (AssignS ot e1 e2)"
  by (simp add: ok_prim_def ok_expr_def prints_assign)

lemma ok_stmt_simps [simp]:
  "ok_stmt N (GotoBlockS b)" "ok_stmt N StuckS" "ok_stmt N (ReturnS e) \<longleftrightarrow> ok_expr N e"
  by (auto simp: ok_stmt_def ok_expr_def)

lemma ok_stmt_intros:
  "\<forall>p \<in> set ps. ok_prim N p \<Longrightarrow> ok_stmt N s \<Longrightarrow> ok_stmt N (PrimS ps s)"
  "prints_op ot \<Longrightarrow> ok_expr N e \<Longrightarrow> ok_stmt N s1 \<Longrightarrow> ok_stmt N s2 \<Longrightarrow> ok_stmt N (IfS ot e s1 s2)"
  "ok_expr N e \<Longrightarrow> \<forall>b \<in> set bs. ok_stmt N b \<Longrightarrow> ok_stmt N d \<Longrightarrow> ok_stmt N (SwitchS e it m bs d)"
  by (auto simp: ok_stmt_def ok_prim_def ok_expr_def intro!: prints_stmt_intros)

lemma ok_mono:
  "ok_expr N e \<Longrightarrow> N \<subseteq> M \<Longrightarrow> ok_expr M e" "ok_stmt N s \<Longrightarrow> N \<subseteq> M \<Longrightarrow> ok_stmt M s"
  by (auto simp: ok_expr_def ok_stmt_def)

section \<open>Declared names\<close>

text \<open>The variables do not change during the translation, the procedures and statics grow.\<close>

definition declared :: "('y, 'g, 't) tx_env \<Rightarrow> ('y, 'g, 't, 'l, 's) tx \<Rightarrow> code_name set" where
  "declared E s =
     VarName ` (ran (te_vars E) \<union> {te_return_name E} \<union> fl_name ` set (te_locals E))
     \<union> ProcName ` up_loc_name ` snd ` set (tx_procs s)
     \<union> {StaticName (static_loc_name m) |did m. did \<in> set (tx_statics s) \<and> get_static (te_statics E) did = Ok m}"

lemma declared_update [simp]:
  "declared E (s\<lparr>tx_types := ts\<rparr>) = declared E s" "declared E (s\<lparr>tx_tracker := tr\<rparr>) = declared E s"
  "declared E (s\<lparr>tx_queue := bs\<rparr>) = declared E s" "declared E (s\<lparr>tx_fn := fn\<rparr>) = declared E s"
  by (simp_all add: declared_def)

text \<open>The types the translator returns have a syntactic type that can be printed.\<close>

definition types_print :: "('y, 'g, 't) tx_env \<Rightarrow> bool" where
  "types_print E \<longleftrightarrow>
     (\<forall>t ts y ts'. ty_translate (te_types E) t ts = Ok (y, ts') \<longrightarrow> prints_synty (ty_syn (te_types E) y))
     \<and> (\<forall>x \<in> set (te_locals E). prints_synty (ty_syn (te_types E) (fl_ty x)))"

section \<open>Judgements on methods\<close>

text \<open>
  A method with what it needs of the names declared before it and what holds of its result for the names
  declared after it.
\<close>

named_theorems tx_gives "what methods give, at the end and in front of another method"

definition gives ::
  "('y, 'g, 't) tx_env \<Rightarrow> (code_name set \<Rightarrow> bool) \<Rightarrow> (('y, 'g, 't, 'l, 's) tx, 'a) action \<Rightarrow> (code_name set \<Rightarrow> 'a \<Rightarrow> bool) \<Rightarrow> bool" where
  "gives E A m Q \<longleftrightarrow> (\<forall>s x s'. types_print E \<longrightarrow> (\<forall>N. declared E s \<subseteq> N \<longrightarrow> A N) \<longrightarrow> m s = Ok (x, s') \<longrightarrow>
     declared E s \<subseteq> declared E s' \<and> (\<forall>N. declared E s' \<subseteq> N \<longrightarrow> Q N x))"

lemma givesI:
  assumes "\<And>s x s'. types_print E \<Longrightarrow> (\<And>N. declared E s \<subseteq> N \<Longrightarrow> A N) \<Longrightarrow> m s = Ok (x, s') \<Longrightarrow>
     declared E s \<subseteq> declared E s' \<and> (\<forall>N. declared E s' \<subseteq> N \<longrightarrow> Q N x)"
  shows "gives E A m Q"
  unfolding gives_def by (intro allI impI) (rule assms, auto)

lemma givesD:
  assumes "gives E A m Q" and "types_print E" and "\<And>N. declared E s \<subseteq> N \<Longrightarrow> A N" and "m s = Ok (x, s')"
  shows "declared E s \<subseteq> declared E s' \<and> (\<forall>N. declared E s' \<subseteq> N \<longrightarrow> Q N x)"
  using assms(1) [unfolded gives_def, rule_format, OF assms(2) _ assms(4)] assms(3) by auto

lemma gives_bind:
  assumes "gives E A m P" and "\<And>x. gives E (\<lambda>N. A N \<and> P N x) (f x) Q"
  shows "gives E A (tx_bind m f) Q"
proof (rule givesI)
  fix s y s''
  assume E: "types_print E" and A: "\<And>N. declared E s \<subseteq> N \<Longrightarrow> A N" and "tx_bind m f s = Ok (y, s'')"
  then obtain x s' where m: "m s = Ok (x, s')" and f: "f x s' = Ok (y, s'')"
    by (auto simp: tx_bind_def rust_simps split: prod.splits)
  note 1 = givesD [OF assms(1) E A m]
  with A have "A N \<and> P N x" if "declared E s' \<subseteq> N" for N using that by blast
  from givesD [OF assms(2) E this f] 1
  show "declared E s \<subseteq> declared E s'' \<and> (\<forall>N. declared E s'' \<subseteq> N \<longrightarrow> Q N y)" by blast
qed

lemma gives_weaken:
  assumes "gives E B m P" and "\<And>N. A N \<Longrightarrow> B N" and "\<And>N x. P N x \<Longrightarrow> Q N x"
  shows "gives E A m Q"
  by (rule givesI, drule givesD [OF assms(1)]) (auto intro: assms(2,3))

lemma gives_return [tx_gives]: "(\<And>N. types_print E \<Longrightarrow> A N \<Longrightarrow> Q N x) \<Longrightarrow> gives E A (tx_return x) Q"
  by (auto simp: gives_def tx_return_def)

lemma gives_fail [tx_gives]: "gives E A (tx_fail e) Q" and gives_panic [tx_gives]: "gives E A tx_panic Q"
  by (simp_all add: gives_def tx_fail_def tx_panic_def)

lemma gives_lift: "gives E A (tx_lift r) (\<lambda>N x. r = Ok x)"
  by (cases r) (auto simp: gives_def tx_lift_def rust_simps)

text \<open>A method that does not touch the procedures and statics gives nothing but its result.\<close>

definition nameless :: "(('y, 'g, 't, 'l, 's) tx, 'a) action \<Rightarrow> bool" where
  "nameless m \<longleftrightarrow> (\<forall>s x s'. m s = Ok (x, s') \<longrightarrow> tx_procs s' = tx_procs s \<and> tx_statics s' = tx_statics s)"

lemma gives_nameless: "nameless m \<Longrightarrow> gives E A m (\<lambda>_ _. True)"
  by (auto simp: gives_def nameless_def declared_def)

lemma gives_with_types: "gives E A (with_types m) (\<lambda>_ _. True)"
  by (rule gives_nameless) (auto simp: nameless_def with_types_def rust_simps split: prod.splits)

lemma gives_with_tracker: "gives E A (with_tracker f) (\<lambda>_ _. True)"
  by (rule gives_nameless) (auto simp: nameless_def with_tracker_def rust_simps split: prod.splits)

lemma gives_update_fn: "gives E A (update_fn f) (\<lambda>_ _. True)"
  by (rule gives_nameless) (auto simp: nameless_def update_fn_def tx_modify_def)

lemma gives_get: "gives E A (tx_get f) (\<lambda>_ _. True)"
  by (rule gives_nameless) (auto simp: nameless_def tx_get_def)

lemma gives_synty_text: "gives E A (synty_text E' st) (\<lambda>_ _. True)"
  unfolding synty_text_def by (rule gives_nameless) (auto simp: nameless_def tx_lift_def rust_simps)

lemma gives_enqueue: "gives E A (enqueue_basic_block b) (\<lambda>_ _. True)"
  by (rule gives_nameless) (auto simp: nameless_def enqueue_basic_block_def tx_modify_def)

lemma gives_map:
  assumes "\<And>x. gives E A (f x) Q"
  shows "gives E A (tx_map f xs) (\<lambda>N ys. \<forall>y \<in> set ys. Q N y)"
proof (induction xs)
  case (Cons x xs)
  have "gives E (\<lambda>N. A N \<and> Q N y) (tx_map f xs) (\<lambda>N ys. \<forall>y \<in> set ys. Q N y)" for y
    by (rule gives_weaken [OF Cons.IH]) auto
  note rest = this
  show ?case
    by (simp, rule gives_bind [OF assms], rule gives_bind [OF rest], rule gives_return) auto
qed (simp add: gives_return)

lemma gives_fold:
  assumes "\<And>x acc. gives E (\<lambda>N. Inv N acc) (f x acc) Inv" and "\<And>N. A N \<Longrightarrow> Inv N acc"
  shows "gives E A (tx_fold f xs acc) Inv"
proof (rule gives_weaken [OF _ assms(2)])
  show "gives E (\<lambda>N. Inv N acc) (tx_fold f xs acc) Inv"
  proof (induction xs arbitrary: acc)
    case (Cons x xs)
    show ?case
      by (simp, rule gives_bind [OF assms(1)], rule gives_weaken [OF Cons.IH]) auto
  qed (simp add: gives_return)
qed

declare gives_lift [tx_gives] gives_lift [THEN gives_bind, tx_gives]
  gives_with_types [tx_gives] gives_with_types [THEN gives_bind, tx_gives]
  gives_with_tracker [tx_gives] gives_with_tracker [THEN gives_bind, tx_gives]
  gives_update_fn [tx_gives] gives_update_fn [THEN gives_bind, tx_gives]
  gives_get [tx_gives] gives_get [THEN gives_bind, tx_gives]
  gives_synty_text [tx_gives] gives_synty_text [THEN gives_bind, tx_gives]
  gives_enqueue [tx_gives] gives_enqueue [THEN gives_bind, tx_gives]

text \<open>Case distinctions in a method.\<close>

lemmas gives_splits =
  if_split [where P = "\<lambda>m. gives E A m Q" for E A Q, THEN iffD2]
  option.split [where P = "\<lambda>m. gives E A m Q" for E A Q, THEN iffD2]
  prod.split [where P = "\<lambda>m. gives E A m Q" for E A Q, THEN iffD2]
  list.split [where P = "\<lambda>m. gives E A m Q" for E A Q, THEN iffD2]
  ty.split [where P = "\<lambda>m. gives E A m Q" for E A Q, THEN iffD2]
  generic_arg.split [where P = "\<lambda>m. gives E A m Q" for E A Q, THEN iffD2]
  scalar.split [where P = "\<lambda>m. gives E A m Q" for E A Q, THEN iffD2]
  trait_resolution_kind.split [where P = "\<lambda>m. gives E A m Q" for E A Q, THEN iffD2]
  cast_kind.split [where P = "\<lambda>m. gives E A m Q" for E A Q, THEN iffD2]
  pointer_coercion.split [where P = "\<lambda>m. gives E A m Q" for E A Q, THEN iffD2]
  adt_kind.split [where P = "\<lambda>m. gives E A m Q" for E A Q, THEN iffD2]
  aggregate_kind.split [where P = "\<lambda>m. gives E A m Q" for E A Q, THEN iffD2]
  statement.split [where P = "\<lambda>m. gives E A m Q" for E A Q, THEN iffD2]
  operand.split [where P = "\<lambda>m. gives E A m Q" for E A Q, THEN iffD2]
  const_value.split [where P = "\<lambda>m. gives E A m Q" for E A Q, THEN iffD2]
  mir_const.split [where P = "\<lambda>m. gives E A m Q" for E A Q, THEN iffD2]
  ty_const.split [where P = "\<lambda>m. gives E A m Q" for E A Q, THEN iffD2]
  rvalue.split [where P = "\<lambda>m. gives E A m Q" for E A Q, THEN iffD2]
  terminator.split [where P = "\<lambda>m. gives E A m Q" for E A Q, THEN iffD2]
  borrow_kind.split [where P = "\<lambda>m. gives E A m Q" for E A Q, THEN iffD2]

lemmas gives_intros = gives_splits conjI allI impI

section \<open>Expressions\<close>

lemma gives_translate_type: "gives E A (translate_type E t) (\<lambda>_ y. prints_synty (ty_syn (te_types E) y))"
proof (rule givesI)
  fix s y s'
  assume E: "types_print E" and "\<And>N. declared E s \<subseteq> N \<Longrightarrow> A N" and run: "translate_type E t s = Ok (y, s')"
  from run have "prints_synty (ty_syn (te_types E) y)"
    using E by (auto simp: translate_type_def with_types_def types_print_def rust_simps)
  moreover from run have "declared E s' = declared E s"
    by (auto simp: translate_type_def with_types_def rust_simps)
  ultimately show "declared E s \<subseteq> declared E s' \<and> (\<forall>N. declared E s' \<subseteq> N \<longrightarrow> prints_synty (ty_syn (te_types E) y))" by simp
qed

declare gives_translate_type [tx_gives] gives_translate_type [THEN gives_bind, tx_gives]

lemma gives_syn_type: "gives E A (translate_type_to_syn_type E t) (\<lambda>_ st. prints_synty st)"
  unfolding translate_type_to_syn_type_def by (intro tx_gives) auto

lemma gives_expect_ty: "gives E A (expect_ty a) (\<lambda>_ _. True)"
  unfolding expect_ty_def by (intro tx_gives gives_intros) auto

declare gives_syn_type [tx_gives] gives_syn_type [THEN gives_bind, tx_gives]
  gives_expect_ty [tx_gives] gives_expect_ty [THEN gives_bind, tx_gives]

lemmas ok_code = ok_expr_intros prints_op_of_synty prints_layout_of_synty ok_with_annotation

lemma gives_deref: "(\<And>N. A N \<Longrightarrow> ok_expr N acc) \<Longrightarrow> gives E A (translate_deref E cur acc) ok_expr"
  unfolding translate_deref_def by (intro tx_gives gives_intros) (auto intro!: ok_code)

lemma gives_field_downcast:
  assumes "\<And>N. A N \<Longrightarrow> ok_expr N acc"
  shows "gives E A (translate_field E f cur acc) ok_expr" and "gives E A (translate_downcast E v c acc) ok_expr"
  using assms unfolding translate_field_def translate_downcast_def by (intro tx_gives gives_intros; auto)+

lemma gives_projection:
  "(\<And>N. A N \<Longrightarrow> ok_expr N (snd s)) \<Longrightarrow> gives E A (translate_projection E it s) (\<lambda>N r. ok_expr N (snd r))"
  unfolding translate_projection_def
  by (cases s, simp, rule gives_bind [where P = ok_expr])
    (auto intro!: gives_deref gives_field_downcast gives_fail gives_return split: place_elem.split)

lemma gives_var:
  assumes "te_vars E l = Some name" and "gives E (\<lambda>N. A N \<and> VarName name \<in> N) m Q"
  shows "gives E A m Q"
proof (rule givesI)
  fix s x s'
  assume *: "types_print E" "\<And>N. declared E s \<subseteq> N \<Longrightarrow> A N" "m s = Ok (x, s')"
  have "VarName name \<in> declared E s" using assms(1) by (auto simp: declared_def ran_def)
  with *(2) have "A N \<and> VarName name \<in> N" if "declared E s \<subseteq> N" for N using that by blast
  from givesD [OF assms(2) *(1) this *(3)]
  show "declared E s \<subseteq> declared E s' \<and> (\<forall>N. declared E s' \<subseteq> N \<longrightarrow> Q N x)" .
qed

lemma gives_place: "gives E A (translate_place E pl) ok_expr"
proof -
  have "gives E A (tx_bind (tx_fold (translate_projection E) ps (\<lparr>pty_ty = t, pty_variant = None\<rparr>, VarE name)) (\<lambda>(_, e). tx_return e)) ok_expr"
    if "te_vars E l = Some name" for A l ps t name
    by (rule gives_var [OF that], rule gives_bind [where P = "\<lambda>N r. ok_expr N (snd r)"])
      (auto intro!: gives_fold gives_projection gives_return gives_splits)
  then show ?thesis
    unfolding translate_place_def by (intro tx_gives gives_intros)
qed

declare gives_place [tx_gives] gives_place [THEN gives_bind, tx_gives]

text \<open>A method whose result is an expression with information on the callee.\<close>

abbreviation ok_result :: "code_name set \<Rightarrow> 'y expr_with_info \<Rightarrow> bool" where
  "ok_result N r \<equiv> ok_expr N (fst r)"

lemma declared_mono:
  "set (tx_statics s) \<subseteq> set (tx_statics s') \<Longrightarrow> set (tx_procs s) \<subseteq> set (tx_procs s') \<Longrightarrow> declared E s \<subseteq> declared E s'"
  unfolding declared_def by (intro Un_mono image_mono order_refl) auto

lemma gives_register_use: "gives E A (register_use key r) (\<lambda>N name. ProcName name \<in> N)"
proof (rule givesI)
  fix s name s'
  assume "\<And>N. declared E s \<subseteq> N \<Longrightarrow> A N" and run: "register_use key r s = Ok (name, s')"
  then have "set (tx_statics s) \<subseteq> set (tx_statics s')" "set (tx_procs s) \<subseteq> set (tx_procs s')" and name: "name \<in> up_loc_name ` snd ` set (tx_procs s')"
    by (auto simp: register_use_def tx_bind_def tx_get_def tx_lift_def tx_seq_def tx_modify_def tx_return_def rust_simps
        split: option.splits dest!: map_of_SomeD intro!: rev_image_eqI)
  then have "declared E s \<subseteq> declared E s'" by (intro declared_mono)
  moreover have "ProcName name \<in> declared E s'" using name unfolding declared_def by blast
  ultimately show "declared E s \<subseteq> declared E s' \<and> (\<forall>N. declared E s' \<subseteq> N \<longrightarrow> ProcName name \<in> N)" by blast
qed

declare gives_register_use [tx_gives] gives_register_use [THEN gives_bind, tx_gives]

lemma gives_fn_def_use: "gives E A (translate_fn_def_use E t) ok_result"
  unfolding translate_fn_def_use_def register_use_procedure_def register_use_trait_method_def register_use_closure_def Let_def
  by (intro tx_gives gives_intros) auto

lemma gives_static_ref: "gives E A (translate_static_ref E alloc) ok_result"
proof (rule givesI)
  fix s r s'
  assume "\<And>N. declared E s \<subseteq> N \<Longrightarrow> A N" and run: "translate_static_ref E alloc s = Ok (r, s')"
  then obtain did m where m: "get_static (te_statics E) did = Ok m" and r: "r = (LiteralE (LitLoc (static_loc_name m)), None)"
    and s': "s' = s\<lparr>tx_statics := bs_insert did (tx_statics s)\<rparr>"
    by (auto simp: translate_static_ref_def Let_def lit_expr_def tx_bind_def tx_lift_def tx_seq_def tx_modify_def
        tx_return_def tx_fail_def rust_simps split: global_alloc.splits)
  have "declared E s \<subseteq> declared E s'" unfolding s' by (rule declared_mono) auto
  moreover have "StaticName (static_loc_name m) \<in> declared E s'" unfolding s' declared_def using m by (auto simp: set_bs_insert)
  ultimately show "declared E s \<subseteq> declared E s' \<and> (\<forall>N. declared E s' \<subseteq> N \<longrightarrow> ok_result N r)" using r by auto
qed

lemma scalar_literal_names: "scalar_literal t d sz = Some lit \<Longrightarrow> literal_names lit = {}"
  by (auto simp: scalar_literal_def signed_literal_def unsigned_literal_def split: ty.splits if_splits)

lemma gives_lit_expr: "(\<And>N. A N \<Longrightarrow> literal_names lit \<subseteq> N) \<Longrightarrow> gives E A (lit_expr lit) ok_result"
  unfolding lit_expr_def by (rule gives_return) simp

lemma gives_scalar_int: "gives E A (translate_scalar_int E d sz t) ok_result"
  unfolding translate_scalar_int_def Let_def
  by (intro tx_gives gives_fn_def_use gives_intros gives_lit_expr) (auto simp: scalar_literal_names)

lemma gives_scalar: "gives E A (translate_scalar E sc t) ok_result"
  unfolding translate_scalar_def Let_def
  by (intro tx_gives gives_static_ref gives_fn_def_use gives_intros gives_lit_expr) (auto simp: scalar_literal_names)

lemma gives_constant: "gives E A (translate_constant E c) ok_result"
proof -
  have "gives E A (translate_constant_value E v t) ok_result" for v t
    unfolding translate_constant_value_def
    by (intro tx_gives gives_scalar gives_fn_def_use gives_intros gives_lit_expr) auto
  then show ?thesis
    unfolding translate_constant_def by (intro tx_gives gives_scalar_int gives_intros)
qed

lemma gives_operand: "gives E A (translate_operand E op r) ok_result"
  unfolding translate_operand_def Let_def
  by (intro tx_gives gives_constant gives_intros) (auto intro!: ok_code)

declare gives_operand [tx_gives] gives_operand [THEN gives_bind, tx_gives]

definition rvalue_operand :: "('y, 'g, 't) tx_env \<Rightarrow> operand \<Rightarrow> (('y, 'g, 't, 'l, 's) tx, expr) action" where
  "rvalue_operand E op = translate_rvalue_operand E op"

lemma gives_rvalue_operand: "gives E A (rvalue_operand E op) ok_expr"
  unfolding rvalue_operand_def by (intro tx_gives gives_intros) auto

declare gives_rvalue_operand [tx_gives] gives_rvalue_operand [THEN gives_bind, tx_gives]

lemmas fold_rvalue_operand = rvalue_operand_def [symmetric]

lemma plain_overflow_checked: "overflow_binop op = Some o' \<Longrightarrow> has_checked_form o' \<and> prints_binop o'"
  by (cases op) (auto simp: has_checked_form_def)

lemma plain_binop_prints: "plain_binop op = Some o' \<Longrightarrow> prints_binop o'"
  by (cases op) auto

lemma gives_binop: "gives E A (translate_binop E op op1 op2) ok_expr"
  unfolding translate_binop_def Let_def fold_rvalue_operand checked_pair_def
  by (intro tx_gives gives_intros)
    (auto intro!: ok_code dest: plain_overflow_checked plain_binop_prints)

lemma gives_cast: "gives E A (translate_cast E kind op t) ok_expr"
  unfolding translate_cast_def fold_rvalue_operand
  by (intro tx_gives gives_intros) (auto intro!: ok_code)

lemma gives_tuple: "(\<And>N e. A N \<Longrightarrow> e \<in> set es \<Longrightarrow> ok_expr N e) \<Longrightarrow> gives E A (translate_tuple_aggregate E ts es) ok_expr"
  unfolding translate_tuple_aggregate_def
  by (intro tx_gives gives_intros) (auto intro!: ok_code dest!: set_zip_rightD simp: enumerate_eq_zip)

lemma gives_adt: "(\<And>N e. A N \<Longrightarrow> e \<in> set es \<Longrightarrow> ok_expr N e) \<Longrightarrow> gives E A (translate_adt_aggregate E did v args es) ok_expr"
  unfolding translate_adt_aggregate_def Let_def
  by (intro tx_gives gives_intros) (auto intro!: ok_code dest: set_zip_rightD)

lemma gives_aggregate: "gives E A (translate_aggregate E kind ops) ok_expr"
proof -
  have "gives E A (tx_map (rvalue_operand E) ops) (\<lambda>N es. \<forall>e \<in> set es. ok_expr N e)"
    by (intro gives_map gives_rvalue_operand)
  then show ?thesis
    unfolding translate_aggregate_def Let_def fold_rvalue_operand
    by (rule gives_bind) (intro gives_intros gives_fail gives_tuple gives_adt; blast)
qed

lemma gives_unop_kind: "translate_unop op t = Ok o' \<Longrightarrow> case o' of CastOp ot \<Rightarrow> prints_op ot | _ \<Rightarrow> True"
  by (cases "(op, t)" rule: translate_unop.cases) (auto split: ty.splits)

lemma gives_rvalue: "gives E A (translate_rvalue E l rval) ok_result"
proof -
  have plain: "gives E A (tx_bind m (\<lambda>e. tx_return (e, None))) ok_result" if "gives E A m ok_expr" for m A
    by (rule gives_bind [OF that], rule gives_return) simp
  have annot: "gives E A (get_type_annotation_for_borrow E pl) (\<lambda>_ _. True)" for A pl
    unfolding get_type_annotation_for_borrow_def by (intro tx_gives) auto
  show ?thesis
    unfolding translate_rvalue_def Let_def fold_rvalue_operand
    apply (rule rvalue.split [where P = "\<lambda>m. gives E A m ok_result", THEN iffD2])
    apply (intro conjI allI impI gives_operand plain gives_fail gives_binop gives_cast gives_aggregate)
    apply (intro tx_gives annot [THEN gives_bind] gives_intros; auto intro!: ok_code dest: gives_unop_kind)+
    done
qed

section \<open>Statements\<close>

abbreviation ok_prims :: "code_name set \<Rightarrow> prim_stmt list \<Rightarrow> bool" where
  "ok_prims N ps \<equiv> \<forall>p \<in> set ps. ok_prim N p"

lemmas ok_stmts = ok_code ok_assign ok_stmt_intros

lemma ok_annot_stmt [simp]: "ok_prim N (annot_stmt why a)" "ok_prim N (endlft_stmt lft)"
  by (simp_all add: annot_stmt_def endlft_stmt_def)

lemma endlfts_ok: "generate_endlfts E dying = Some ps \<Longrightarrow> ok_prims N ps"
proof (induction dying arbitrary: ps)
  case (Cons d ds)
  then show ?case by (auto simp: generate_endlfts_def split: option.splits)
qed (simp add: generate_endlfts_def)

declare gives_rvalue [THEN gives_bind, tx_gives]

lemma gives_assignment: "gives E A (translate_assignment E l plc val) ok_prims"
  unfolding translate_assignment_def Let_def tx_seq_def
  by (intro tx_gives gives_intros) (auto intro!: ok_stmts)

lemma gives_storage:
  assumes "\<And>N name. A N \<Longrightarrow> VarName name \<in> N \<Longrightarrow> ok_prims N (ps name)"
  shows "gives E A (case te_vars E x of Some name \<Rightarrow> tx_return (ps name)
    | None \<Rightarrow> tx_seq (tx_lift (assert_spec_local E t)) (tx_return [])) ok_prims"
proof (cases "te_vars E x")
  case None
  then show ?thesis unfolding tx_seq_def by simp (intro tx_gives, simp)
next
  case (Some name)
  show ?thesis unfolding Some option.case by (rule gives_var [OF Some], rule gives_return) (use assms in blast)
qed

lemma gives_statement: "gives E A (translate_statement E l st) ok_prims"
proof (cases st)
  case (Assign plc val)
  show ?thesis
    unfolding translate_statement_def Assign statement.case
    by (intro tx_gives gives_intros gives_assignment) auto
next
  case (StorageLive x)
  show ?thesis
    unfolding translate_statement_def StorageLive statement.case
    by (intro gives_lift [THEN gives_bind] gives_syn_type [THEN gives_bind] gives_storage) auto
next
  case (StorageDead x)
  show ?thesis
    unfolding translate_statement_def StorageDead statement.case
    by (intro gives_lift [THEN gives_bind] gives_storage) auto
qed (auto simp: translate_statement_def intro!: gives_return gives_fail)

lemma gives_indexed_statement:
  "gives E (\<lambda>N. ok_prims N acc) (translate_indexed_statement E b x acc) ok_prims"
  unfolding translate_indexed_statement_def
  by (intro tx_gives gives_statement [THEN gives_bind] gives_intros) (auto simp: rust_simps dest!: endlfts_ok)

section \<open>Terminators\<close>

lemma gives_register_loop_head: "gives E A (register_loop_head E b) (\<lambda>_ _. True)"
  by (rule gives_nameless)
    (auto simp: nameless_def register_loop_head_def tx_bind_def tx_get_def tx_lift_def tx_modify_def tx_return_def
      rust_simps split: if_splits)

lemma gives_goto: "gives E A (translate_goto_like E b) ok_stmt"
  unfolding translate_goto_like_def tx_seq_def
  by (intro tx_gives gives_register_loop_head [THEN gives_bind]) (auto intro!: ok_stmts)

declare gives_goto [tx_gives] gives_goto [THEN gives_bind, tx_gives]

lemma gives_call_annotations: "gives E A (call_annotations E l destination info) (\<lambda>_ _. True)"
  unfolding call_annotations_def Let_def tx_seq_def by (intro tx_gives gives_intros) auto

lemma gives_call: "gives E A (translate_function_call E func args destination target l endlfts) ok_stmt"
  if "\<And>N. ok_prims N endlfts"
proof -
  have "gives E B (tx_map (rvalue_operand E) args) (\<lambda>N es. \<forall>e \<in> set es. ok_expr N e)" for B
    by (intro gives_map gives_rvalue_operand)
  note args = this [THEN gives_bind]
  show ?thesis
    unfolding translate_function_call_def Let_def fold_rvalue_operand
    by (intro tx_gives args gives_call_annotations [THEN gives_bind] gives_intros) (auto intro!: ok_stmts simp: that)
qed

lemma gives_shim: "gives E A (make_discriminant_shim E op dest) ok_prims"
  unfolding make_discriminant_shim_def by (intro tx_gives gives_intros) (auto intro!: ok_stmts)

lemma gives_switch: "gives E A (translate_switch E discr values targets endlfts) ok_stmt"
  if "\<And>N. ok_prims N endlfts"
proof -
  have "gives E B (case x of (v, b) \<Rightarrow> translate_goto_like E b) ok_stmt" for B and x :: "nat \<times> basic_block"
    by (cases x) (simp add: gives_goto)
  then have "gives E B (tx_map (\<lambda>(v, b). translate_goto_like E b) xs) (\<lambda>N sts. \<forall>st \<in> set sts. ok_stmt N st)"
    for B and xs :: "(nat \<times> basic_block) list"
    by (rule gives_map)
  note targets = this [THEN gives_bind]
  show ?thesis
    unfolding translate_switch_def fold_rvalue_operand
    by (intro tx_gives targets gives_intros) (simp_all add: that ok_stmt_intros)
qed

lemma gives_ret: "gives E A (translate_return E endlfts) ok_stmt" if "\<And>N. ok_prims N endlfts"
proof -
  have return_name: "gives E B m Q" if "gives E (\<lambda>N. B N \<and> VarName (te_return_name E) \<in> N) m Q" for B m Q
  proof (rule givesI)
    fix s x s'
    assume *: "types_print E" "\<And>N. declared E s \<subseteq> N \<Longrightarrow> B N" "m s = Ok (x, s')"
    then have "B N \<and> VarName (te_return_name E) \<in> N" if "declared E s \<subseteq> N" for N using that by (auto simp: declared_def)
    from givesD [OF that *(1) this *(3)]
    show "declared E s \<subseteq> declared E s' \<and> (\<forall>N. declared E s' \<subseteq> N \<longrightarrow> Q N x)" .
  qed
  show ?thesis
    unfolding translate_return_def by (rule return_name, intro tx_gives) (auto intro!: ok_stmts simp: that)
qed

lemma gives_endlfts:
  assumes "\<And>endlfts. (\<And>N. ok_prims N endlfts) \<Longrightarrow> gives E A (f endlfts) Q"
  shows "gives E A (tx_bind (tx_lift (or_panic (generate_endlfts E dying))) f) Q"
proof (cases "generate_endlfts E dying")
  case None
  then show ?thesis by (simp add: gives_def tx_bind_def tx_lift_def rust_simps)
next
  case (Some endlfts)
  then have "gives E A (f endlfts) Q" using assms endlfts_ok by blast
  moreover have "tx_bind (tx_lift (or_panic (generate_endlfts E dying))) f = f endlfts"
    by (rule ext) (simp add: Some tx_bind_def tx_lift_def rust_simps)
  ultimately show ?thesis by simp
qed

lemma gives_terminator: "gives E A (translate_terminator E term l dying) ok_stmt"
  unfolding translate_terminator_def fold_rvalue_operand
  apply (rule gives_endlfts)
  apply (intro tx_gives gives_intros gives_call gives_shim [THEN gives_bind] gives_switch gives_ret)
  apply (auto intro!: ok_stmts)
  done

lemma gives_block: "gives E A (translate_basic_block E b bb) ok_stmt"
proof -
  have "gives E B (tx_fold (translate_indexed_statement E b) sts []) ok_prims" for B sts
    by (rule gives_fold [OF gives_indexed_statement]) simp
  note sts = this [THEN gives_bind]
  show ?thesis
    unfolding translate_basic_block_def Let_def
    by (intro sts gives_terminator [THEN gives_bind] gives_lift [THEN gives_bind] gives_return) (auto intro!: ok_stmts)
qed

section \<open>The blocks\<close>

text \<open>All code generated so far is well formed in the names declared so far.\<close>

definition scoped :: "('y, 'g, 't) tx_env \<Rightarrow> ('y, 'g, 't, 'l, 's) tx \<Rightarrow> bool" where
  "scoped E s \<longleftrightarrow> (\<forall>b st. (b, st) \<in> set (blocks_of s) \<longrightarrow> ok_stmt (declared E s) st)"

lemma set_bm_insert: "set (bm_insert k v m) \<subseteq> insert (k, v) (set m)"
  by (induction m) (auto split: if_splits)

lemma scoped_add_block:
  assumes "types_print E" and "scoped E s" and "translate_basic_block E b bb s = Ok (st, s1)"
    and "\<And>N. declared E s1 \<subseteq> N \<Longrightarrow> ok_stmt N st \<Longrightarrow> ok_stmt N (wrap st)" and "add_translated b (wrap st) s1 = Ok (x, s')"
  shows "scoped E s'"
proof -
  from givesD [OF gives_block [where A = "\<lambda>_. True"] assms(1) _ assms(3)]
  have new: "declared E s \<subseteq> declared E s1" "ok_stmt (declared E s1) st" by auto
  from flows_block [of E b bb] assms(3) have same: "blocks_of s1 = blocks_of s" by (auto simp: flows_def discovers_def)
  from assms(5) have s': "declared E s' = declared E s1" "blocks_of s' = bm_insert b (wrap st) (blocks_of s1)"
    by (auto simp: add_translated_result add_basic_block_def)
  from assms(2) new(1) have "ok_stmt (declared E s1) st'" if "(b', st') \<in> set (blocks_of s)" for b' st'
    using that ok_mono(2) unfolding scoped_def by blast
  with set_bm_insert [of b "wrap st" "blocks_of s"] assms(4) [OF order_refl new(2)] show ?thesis
    unfolding scoped_def s' same by blast
qed

lemma scoped_queued:
  assumes "types_print E" and "scoped E s" and "translate_queued E b s = Ok (x, s')"
  shows "scoped E s'"
  using assms(3) scoped_add_block [where wrap = "\<lambda>st. st", OF assms(1,2)]
  by (auto simp: translate_queued_def tx_bind_def tx_lift_def rust_simps split: prod.splits)

lemma ok_live_locals: "types_print E \<Longrightarrow> declared E s \<subseteq> N \<Longrightarrow> ok_prims N (live_locals E)"
  by (auto simp: live_locals_def types_print_def declared_def)

lemma ok_wrap: "types_print E \<Longrightarrow> declared E s \<subseteq> N \<Longrightarrow> ok_stmt N st \<Longrightarrow> ok_stmt N (wrap_initial_block E cs st)"
  unfolding wrap_initial_block_def by (auto intro!: ok_stmt_intros dest: ok_live_locals)

lemma scoped_initial:
  assumes "types_print E" and "scoped E s" and "translate_initial_block E s = Ok (x, s')"
  shows "scoped E s'"
proof -
  from assms(3) obtain cs s1 where s1: "with_tracker (get_initial_closure_constraints (re_polonius (te_region E)) (te_info E)) s = Ok (cs, s1)"
    and rest: "(case vec_get (basic_blocks (te_body E)) 0 of None \<Rightarrow> tx_return ()
       | Some bb \<Rightarrow> tx_bind (translate_basic_block E 0 bb) (\<lambda>st. add_translated 0 (wrap_initial_block E cs st))) s1 = Ok (x, s')"
    by (auto simp: translate_initial_block_def tx_bind_def [of "with_tracker f" for f] rust_simps)
  from s1 have "declared E s1 = declared E s" "blocks_of s1 = blocks_of s"
    by (auto simp: with_tracker_def rust_simps)
  with assms(2) have "scoped E s1" by (simp add: scoped_def)
  from scoped_add_block [where wrap = "wrap_initial_block E cs", OF assms(1) this] rest assms(1) this show ?thesis
    by (auto simp: tx_bind_def tx_return_def rust_simps ok_wrap split: option.splits prod.splits)
qed

lemma scoped_loop:
  assumes "translate_loop E s = Some r" and "types_print E" and "scoped E s" and "r = Ok s'"
  shows "scoped E s'"
  using assms
proof (induction rule: translate_loop.raw_induct [rotated, consumes 1, case_names step])
  case (step loop E s r)
  show ?case
  proof (cases "tx_queue s = []")
    case False
    let ?s = "s\<lparr>tx_queue := butlast (tx_queue s)\<rparr>"
    from step(2,5) False obtain x s1
      where s1: "translate_queued E (last (tx_queue s)) ?s = Ok (x, s1)" and rest: "loop E s1 = Some r"
      by (auto split: outcome.splits prod.splits)
    from step(4) have "scoped E ?s" by (simp add: scoped_def)
    from step(1) [OF rest step(3) scoped_queued [OF step(3) this s1] step(5)] show ?thesis .
  qed (use step in auto)
qed

text \<open>
  C36. The generated code is well formed: it can be printed, each variable in it is the name of a local or of the
  return place, each procedure one of those collected for the function, and each location belongs to a static
  collected for it.
\<close>

theorem translated_blocks_scoped:
  assumes "types_print E" and "translate_blocks E s = Some (Ok s')" and "no_blocks_yet s"
    and "bm_get (blocks_of s') b = Some st"
  shows "prints_stmt st \<and> stmt_names st \<subseteq> declared E s'"
proof -
  from assms(3) have "scoped E s" by (simp add: no_blocks_yet_def scoped_def)
  moreover from assms(2) obtain x s1 where "translate_initial_block E s = Ok (x, s1)" "translate_loop E s1 = Some (Ok s')"
    by (auto simp: translate_blocks_def split: outcome.splits)
  ultimately have "scoped E s'" using scoped_initial [OF assms(1)] scoped_loop [OF _ assms(1) _ refl] by blast
  moreover from assms(4) have "(b, st) \<in> set (blocks_of s')" by (simp add: bm_get_def map_of_SomeD)
  ultimately show ?thesis by (auto simp: scoped_def ok_stmt_def)
qed

theorem translated_blocks_scoped_witness:
  "types_print mini_env \<and> no_blocks_yet mini_start \<and> prints_stmt (mini_code 3)
    \<and> stmt_names (mini_code 3) = {VarName ''__0'', VarName ''__1''}"
proof -
  obtain s where s: "translate_blocks mini_env mini_start = Some (Ok s)"
    and code: "blocks_of s = [(0, mini_code 0), (2, mini_code 2), (3, mini_code 3)]"
    by (rule mini_translated)
  have start: "no_blocks_yet mini_start"
    by (simp add: no_blocks_yet_def mini_start_def builder_new_def function_code_def_new_def)
  have "prints_synty BoolSynType" "prints_synty UnitSynType" by (simp_all add: prints_synty_def)
  then have E: "types_print mini_env"
    by (auto simp: types_print_def mini_env_def mini_types_def tx_return_def)
  have "bm_get (blocks_of s) 3 = Some (mini_code 3)" by (simp add: code bm_get_def)
  from translated_blocks_scoped [OF E s start this] E start show ?thesis
    by (auto simp: mini_code_def)
qed

end
