(* ===== verification/BodyFinish.thy ===== *)
theory BodyFinish
  imports BodyTranslate LoopSpec InitAnalysis
begin

text \<open>
  The end of the body translation: the loop specifications of \<open>translation/src/body/translation/loops.rs\<close> and the
  whole \<open>translate\<close> of \<open>mod.rs\<close>. The initialization analysis of a loop specification is the one of
  \<open>InitAnalysis\<close>; where it does not return, neither does the translation, and the value is \<^term>\<open>None\<close>.
\<close>

section \<open>Loops over iterators\<close>

definition check_operand_call_dest :: "('y, 'g, 't) tx_env \<Rightarrow> operand \<Rightarrow> def_id option" where
  "check_operand_call_dest E op = (case operand_ty_of E op of TyFnDef did _ \<Rightarrow> Some did | _ \<Rightarrow> None)"

text \<open>A step backwards from a local to the one it borrows; everything but a borrow or a reborrow panics.\<close>

definition origin_step :: "statement \<Rightarrow> mir_local \<Rightarrow> mir_local option" where
  "origin_step st current_var =
     (case st of
        Assign plc val \<Rightarrow>
          if local_of plc \<noteq> current_var then Some current_var
          else if projection plc \<noteq> [] then None
          else (case val of
                  Ref _ _ p \<Rightarrow>
                    (case projection p of
                       [] \<Rightarrow> Some (local_of p)
                     | [Deref] \<Rightarrow> Some (local_of p)
                     | _ \<Rightarrow> None)
                | _ \<Rightarrow> None)
      | _ \<Rightarrow> Some current_var)"

definition find_origin_of_mut_bor :: "('y, 'g, 't) tx_env \<Rightarrow> mir_local \<Rightarrow> basic_block \<Rightarrow> mir_local option" where
  "find_origin_of_mut_bor E var bb =
     Option.bind (vec_get (basic_blocks (te_body E)) bb) (\<lambda>data. fold_opt origin_step (rev (statements data)) var)"

text \<open>
  What the specification of a loop needs beyond the environment of the translation. The iterator trait of a call
  is resolved to its attribute term and the name of the trait.
\<close>

record ('y, 'g, 't) loop_env =
  le_tx :: "('y, 'g, 't) tx_env"
  le_next_item :: "def_id option"                  \<comment> \<open>\<open>Iterator::next\<close>\<close>
  le_iterator_spec :: "generic_arg list \<Rightarrow> ('t, string \<times> string) action"
  le_tcx :: tcx
  le_cfg :: cfg
  le_rfn_type :: "'y \<Rightarrow> coq_type"
  le_attributes :: "def_id \<Rightarrow> attribute list"
  le_hotword :: string
  le_parse :: parse_env

definition new_iterator_info :: "mir_local \<Rightarrow> string \<times> string \<Rightarrow> iterator_info" where
  "new_iterator_info v spec =
     \<lparr>ii_variable = v, ii_binder_name = ''_iter_'' @ show_nat v, ii_history_name = ''_iter_hist_'' @ show_nat v,
      ii_attr_term = fst spec, ii_trait_name = snd spec\<rparr>"

definition check_for_iter_next ::
  "('y, 'g, 't) loop_env \<Rightarrow> basic_block \<Rightarrow> (('y, 'g, 't, 'l, 's) tx, iterator_info option) action" where
  "check_for_iter_next L bb =
     (let E = le_tx L in
      tx_bind (tx_lift (or_panic (vec_get (basic_blocks (te_body E)) bb))) (\<lambda>data.
        case terminator data of
          Call func args _ _ _ \<Rightarrow>
            tx_bind (tx_lift (or_panic (check_operand_call_dest E func))) (\<lambda>call_dest.
            tx_bind (tx_lift (or_panic (le_next_item L))) (\<lambda>next_item.
              if next_item \<noteq> call_dest then tx_return None
              else
                tx_bind (tx_lift (or_panic (vec_get args 0))) (\<lambda>next_ref_arg.
                  case next_ref_arg of
                    Move plc \<Rightarrow>
                      if projection plc \<noteq> [] then tx_panic
                      else
                        tx_bind (tx_lift (or_panic (find_origin_of_mut_bor E (local_of plc) bb))) (\<lambda>iter_variable.
                          case operand_ty_of E func of
                            TyFnDef _ params \<Rightarrow>
                              tx_bind (with_types (le_iterator_spec L params)) (\<lambda>spec.
                                tx_return (Some (new_iterator_info iter_variable spec)))
                          | _ \<Rightarrow> tx_fail UnknownError)
                  | _ \<Rightarrow> tx_return None)))
        | _ \<Rightarrow> tx_return None))"

definition check_is_for_loop ::
  "('y, 'g, 't) loop_env \<Rightarrow> basic_block \<Rightarrow> (('y, 'g, 't, 'l, 's) tx, iterator_info option) action" where
  "check_is_for_loop L loop_head =
     tx_bind (tx_lift (or_panic (re_successors (te_edges (le_tx L)) loop_head))) (\<lambda>succs.
       case succs of [s] \<Rightarrow> check_for_iter_next L s | _ \<Rightarrow> tx_return None)"

section \<open>Loop specifications\<close>

definition locals_with_initialization :: "('y, 'g, 't) loop_env \<Rightarrow> place_set \<Rightarrow> local_var list" where
  "locals_with_initialization L init_places =
     map (\<lambda>x. \<lparr>lv_local = fl_local x, lv_name = fl_name x, lv_kind = fl_kind x,
               lv_initialized = place_set_contains init_places (place_of_local (fl_local x)),
               lv_rfn_type = le_rfn_type L (fl_ty x)\<rparr>) (te_locals (le_tx L))"

definition loop_attributes :: "('y, 'g, 't) loop_env \<Rightarrow> def_id option \<Rightarrow> attr_item list" where
  "loop_attributes L did =
     (case did of Some d \<Rightarrow> filter_for_tool (le_hotword L) (le_attributes L d) | None \<Rightarrow> [])"

definition loop_spec_error :: "(spec_error, 'a) outcome \<Rightarrow> (translation_error, 'a) outcome" where
  "loop_spec_error r = (case r of Ok x \<Rightarrow> Ok x | Err _ \<Rightarrow> Err LoopSpecError | Panic \<Rightarrow> Panic)"

definition loop_spec_of ::
  "('y, 'g, 't) loop_env \<Rightarrow> iterator_info option \<Rightarrow> place_set analysis_result \<Rightarrow> basic_block \<Rightarrow> def_id option
    \<Rightarrow> (translation_error, loop_spec) outcome" where
  "loop_spec_of L iterator_info init_result loop_head did =
     and_then (or_panic (get_before_block init_result loop_head)) (\<lambda>init_places.
       loop_spec_error
         (parse_loop_attrs (te_indent (le_tx L)) (le_parse L) iterator_info (locals_with_initialization L init_places)
           (loop_attributes L did)))"

definition parse_attributes_on_loop_spec_closure ::
  "('y, 'g, 't) loop_env \<Rightarrow> basic_block \<Rightarrow> def_id option \<Rightarrow> ('y, 'g, 't, 'l, 's) tx
    \<Rightarrow> (translation_error, loop_spec \<times> ('y, 'g, 't, 'l, 's) tx) outcome option" where
  "parse_attributes_on_loop_spec_closure L loop_head did s =
     (case check_is_for_loop L loop_head s of
        Ok (iterator_info, s) \<Rightarrow>
          (case compute_definitely_initialized (le_tcx L) (le_cfg L) (te_body (le_tx L)) of
             Some (Some init_result) \<Rightarrow>
               Some (and_then (loop_spec_of L iterator_info init_result loop_head did) (\<lambda>spec. Ok (spec, s)))
           | Some None \<Rightarrow> Some Panic
           | None \<Rightarrow> None)
      | Err e \<Rightarrow> Some (Err e)
      | Panic \<Rightarrow> Some Panic)"

definition register_loop_spec ::
  "basic_block \<Rightarrow> loop_spec \<Rightarrow> ('y, 'g, 't, loop_spec, 's) tx \<Rightarrow> (translation_error, ('y, 'g, 't, loop_spec, 's) tx) outcome" where
  "register_loop_spec head spec s =
     and_then (or_panic (register_loop_invariant head spec (tx_fn s))) (\<lambda>fn. Ok (s\<lparr>tx_fn := fn\<rparr>))"

primrec process_loop_heads ::
  "('y, 'g, 't) loop_env \<Rightarrow> (basic_block \<times> def_id option) list \<Rightarrow> ('y, 'g, 't, loop_spec, 's) tx
    \<Rightarrow> (translation_error, ('y, 'g, 't, loop_spec, 's) tx) outcome option" where
  "process_loop_heads L [] s = Some (Ok s)"
| "process_loop_heads L (h # hs) s =
     (case parse_attributes_on_loop_spec_closure L (fst h) (snd h) s of
        Some (Ok (spec, s)) \<Rightarrow>
          (case register_loop_spec (fst h) spec s of
             Ok s \<Rightarrow> process_loop_heads L hs s
           | Err e \<Rightarrow> Some (Err e)
           | Panic \<Rightarrow> Some Panic)
      | Some (Err e) \<Rightarrow> Some (Err e)
      | Some Panic \<Rightarrow> Some Panic
      | None \<Rightarrow> None)"

section \<open>The whole translation\<close>

definition finish_function ::
  "((procedure_key \<times> 'g used_procedure) list \<Rightarrow> (procedure_key \<times> 'g used_procedure) list) \<Rightarrow> ('y, 'g, 't) tx_env
    \<Rightarrow> (('y, 'g, 't, 'l, 's) tx, ('y, 'g, 'l, 's) function_builder) action" where
  "finish_function sort_procs E =
     tx_seq (require_procedures sort_procs) (tx_seq (require_statics E)
       (tx_bind (tx_get tx_fn) (\<lambda>fn. tx_lift (or_panic (into_function fn)))))"

definition translate ::
  "((procedure_key \<times> 'g used_procedure) list \<Rightarrow> (procedure_key \<times> 'g used_procedure) list) \<Rightarrow> ('y, 'g, 't) loop_env
    \<Rightarrow> ('y, 'g, 't, loop_spec, 's) tx
    \<Rightarrow> (translation_error, ('y, 'g, loop_spec, 's) function_builder) outcome option" where
  "translate sort_procs L s =
     (let E = le_tx L in
      case translate_blocks E s of
        Some (Ok s) \<Rightarrow>
          (case require_layouts E s of
             Ok (_, s) \<Rightarrow>
               (case process_loop_heads L (tx_loop_specs s) s of
                  Some (Ok s) \<Rightarrow> Some (and_then (finish_function sort_procs E s) (\<lambda>(fn, _). Ok fn))
                | Some (Err e) \<Rightarrow> Some (Err e)
                | Some Panic \<Rightarrow> Some Panic
                | None \<Rightarrow> None)
           | Err e \<Rightarrow> Some (Err e)
           | Panic \<Rightarrow> Some Panic)
      | Some (Err e) \<Rightarrow> Some (Err e)
      | Some Panic \<Rightarrow> Some Panic
      | None \<Rightarrow> None)"

section \<open>Laws\<close>

lemma process_loop_heads_returns:
  "compute_definitely_initialized (le_tcx L) (le_cfg L) (te_body (le_tx L)) \<noteq> None \<Longrightarrow> process_loop_heads L hs s \<noteq> None"
  by (induction hs arbitrary: s)
    (auto simp: parse_attributes_on_loop_spec_closure_def split: outcome.splits option.splits)

end
