(* ===== verification/RegionFold.thy ===== *)
theory RegionFold
  imports RegionAnnots
begin

text \<open>
  Folding the regions of types: \<open>translation/src/regions/arg_folder.rs\<close>. A folder is the record of the methods
  that an implementation overrides. The default, \<open>super_fold_with\<close>, is the compiler's: what the parts of a type are and
  how a type is put together from folded parts is the record \<open>traversal\<close>, of which \<open>traversal_ok\<close> states what the
  compiler documents for the types the frontend compares. A folder that panics is \<^term>\<open>None\<close>. No folder overrides the method for
  constants; a constant is a value or a parameter, without regions, and stays as it is.
\<close>

section \<open>The traversal\<close>

record 's folder =
  fo_region :: "nat \<Rightarrow> region \<Rightarrow> 's \<Rightarrow> (region \<times> 's) option"
  fo_ty :: "nat \<Rightarrow> ty \<Rightarrow> ty option option"      \<comment> \<open>\<^term>\<open>None\<close>: go on with the parts of the type\<close>

primrec fold_each :: "('a \<Rightarrow> 's \<Rightarrow> ('b \<times> 's) option) \<Rightarrow> 'a list \<Rightarrow> 's \<Rightarrow> ('b list \<times> 's) option" where
  "fold_each f [] s = Some ([], s)"
| "fold_each f (x # xs) s =
     Option.bind (f x s) (\<lambda>(y, s). map_option (map_prod (Cons y) id) (fold_each f xs s))"

lemma fold_each_cong [fundef_cong]:
  "\<lbrakk>xs = ys; s = t; \<And>x u. x \<in> set ys \<Longrightarrow> f x u = g x u\<rbrakk> \<Longrightarrow> fold_each f xs s = fold_each g ys t"
  by (induction xs arbitrary: ys s t) (auto intro!: Option.bind_cong)

text \<open>
  The parts of a type in the order in which they are folded, each with whether it is below a binder, and the type of
  the same kind with other parts.
\<close>

record traversal =
  tv_parts :: "ty \<Rightarrow> (bool \<times> generic_arg) list"
  tv_rebuild :: "ty \<Rightarrow> generic_arg list \<Rightarrow> ty"

definition smaller_part :: "ty \<Rightarrow> bool \<times> generic_arg \<Rightarrow> bool" where
  "smaller_part t p \<longleftrightarrow> (case snd p of ArgType u \<Rightarrow> size u < size t | _ \<Rightarrow> True)"

text \<open>
  \<open>fold_with\<close>: the folder's method for the type, and where it goes on, the parts with the number of binders passed.
  The parts of a type are smaller than the type; a traversal for which they are not does not end and is left out.
\<close>

function fold_ty :: "traversal \<Rightarrow> 's folder \<Rightarrow> nat \<Rightarrow> ty \<Rightarrow> 's \<Rightarrow> (ty \<times> 's) option"
  and fold_arg :: "traversal \<Rightarrow> 's folder \<Rightarrow> nat \<Rightarrow> generic_arg \<Rightarrow> 's \<Rightarrow> (generic_arg \<times> 's) option" where
  "fold_ty T F d t s =
     (case fo_ty F d t of
        Some r \<Rightarrow> map_option (\<lambda>u. (u, s)) r
      | None \<Rightarrow>
          if list_all (smaller_part t) (tv_parts T t)
          then map_option (map_prod (tv_rebuild T t) id)
                 (fold_each (\<lambda>p. fold_arg T F (if fst p then Suc d else d) (snd p)) (tv_parts T t) s)
          else None)"
| "fold_arg T F d a s =
     (case a of
        ArgConst c \<Rightarrow> Some (ArgConst c, s)
      | ArgType t \<Rightarrow> map_option (map_prod ArgType id) (fold_ty T F d t s)
      | ArgLifetime r \<Rightarrow> map_option (map_prod ArgLifetime id) (fo_region F d r s))"
  by pat_completeness auto
termination
proof (relation "measure (\<lambda>x. case x of
      Inl (T, F, d, t, s) \<Rightarrow> 2 * size t + 1
    | Inr (T, F, d, a, s) \<Rightarrow> (case a of ArgType u \<Rightarrow> 2 * size u + 2 | _ \<Rightarrow> 0))", goal_cases)
  case (2 T F d t s p u)
  then show ?case by (auto simp: list_all_iff smaller_part_def split: generic_arg.splits)
qed auto

declare fold_ty.simps [simp del]

abbreviation fold_args :: "traversal \<Rightarrow> 's folder \<Rightarrow> nat \<Rightarrow> generic_arg list \<Rightarrow> 's \<Rightarrow> (generic_arg list \<times> 's) option" where
  "fold_args T F d \<equiv> fold_each (fold_arg T F d)"

text \<open>
  What the compiler documents of the traversal for the types that can be compared: references, ADTs, aliases, tuples,
  slices, raw pointers and arrays have the components of their constructor as parts, scalars and parameters none, and
  a type of another kind stays one.
\<close>

definition leaf_kind :: "ty \<Rightarrow> bool" where
  "leaf_kind t \<longleftrightarrow> t \<in> {TyNever, TyChar, TyBool, TyStr} \<or> (case t of
     TyParam _ _ \<Rightarrow> True | TyInt _ \<Rightarrow> True | TyUint _ \<Rightarrow> True | TyFloat _ \<Rightarrow> True | _ \<Rightarrow> False)"

fun comparable_kind :: "ty \<Rightarrow> bool" where
  "comparable_kind (TyRef _ _ _) = True"
| "comparable_kind (TyAdt _ _) = True"
| "comparable_kind (TyAlias _ _ _) = True"
| "comparable_kind (TyTuple _) = True"
| "comparable_kind (TySlice _) = True"
| "comparable_kind (TyRawPtr _ _) = True"
| "comparable_kind (TyArray _ _) = True"
| "comparable_kind t = leaf_kind t"

definition traversal_ok :: "traversal \<Rightarrow> bool" where
  "traversal_ok T \<longleftrightarrow>
     (\<forall>d as. tv_parts T (TyAdt d as) = map (Pair False) as \<and> (\<forall>bs. tv_rebuild T (TyAdt d as) bs = TyAdt d bs)) \<and>
     (\<forall>k d as. tv_parts T (TyAlias k d as) = map (Pair False) as \<and> (\<forall>bs. tv_rebuild T (TyAlias k d as) bs = TyAlias k d bs)) \<and>
     (\<forall>ts. tv_parts T (TyTuple ts) = map (\<lambda>t. (False, ArgType t)) ts \<and>
        (\<forall>us. tv_rebuild T (TyTuple ts) (map ArgType us) = TyTuple us)) \<and>
     (\<forall>t c. tv_parts T (TyArray t c) = [(False, ArgType t), (False, ArgConst c)] \<and>
        (\<forall>u e. tv_rebuild T (TyArray t c) [ArgType u, ArgConst e] = TyArray u e)) \<and>
     (\<forall>t. tv_parts T (TySlice t) = [(False, ArgType t)] \<and> (\<forall>u. tv_rebuild T (TySlice t) [ArgType u] = TySlice u)) \<and>
     (\<forall>t m. tv_parts T (TyRawPtr t m) = [(False, ArgType t)] \<and> (\<forall>u. tv_rebuild T (TyRawPtr t m) [ArgType u] = TyRawPtr u m)) \<and>
     (\<forall>r t m. tv_parts T (TyRef r t m) = [(False, ArgLifetime r), (False, ArgType t)] \<and>
        (\<forall>q u. tv_rebuild T (TyRef r t m) [ArgLifetime q, ArgType u] = TyRef q u m)) \<and>
     (\<forall>t. leaf_kind t \<longrightarrow> tv_parts T t = [] \<and> tv_rebuild T t [] = t) \<and>
     (\<forall>t bs. \<not> comparable_kind t \<longrightarrow> \<not> comparable_kind (tv_rebuild T t bs))"

section \<open>Relabelling and renaming\<close>

text \<open>\<open>RegionRelabelVisitor\<close>: erased regions become variables, counted from 0.\<close>

definition relabel_region :: "nat \<Rightarrow> region \<Rightarrow> nat \<Rightarrow> (region \<times> nat) option" where
  "relabel_region d r n = Some (if r = ReErased then (ReVar n, n + 1) else (r, n))"

definition relabel_folder :: "nat folder" where
  "relabel_folder = \<lparr>fo_region = relabel_region, fo_ty = (\<lambda>_ _. None)\<rparr>"

definition relabel_erased_regions :: "traversal \<Rightarrow> generic_arg list \<Rightarrow> (generic_arg list \<times> nat) option" where
  "relabel_erased_regions T x = fold_args T relabel_folder 0 x 0"

text \<open>\<open>ClosureCaptureRegionVisitor\<close>\<close>

definition rename_capture_region ::
  "polonius_env \<Rightarrow> polonius_info \<Rightarrow> nat \<Rightarrow> region \<Rightarrow> early_late_region_map \<Rightarrow> (region \<times> early_late_region_map) option" where
  "rename_capture_region E I d r m =
     (case r of
        ReVar v \<Rightarrow>
          Option.bind (get_region_kind E I v) (\<lambda>kind.
            case kind of
              KUniversal _ \<Rightarrow> Some (r, m)
            | _ \<Rightarrow> Option.bind (find_placeholder_region_for E v I) (\<lambda>found. Option.bind found (\<lambda>r2.
                map_option (\<lambda>lft. (ReVar r2, ensure_closure_region lft m)) (mk_atomic_region E I r2))))
      | _ \<Rightarrow> Some (r, m))"

definition rename_closure_capture_regions ::
  "traversal \<Rightarrow> polonius_env \<Rightarrow> polonius_info \<Rightarrow> ty \<Rightarrow> early_late_region_map \<Rightarrow> (ty \<times> early_late_region_map) option" where
  "rename_closure_capture_regions T E I t m =
     fold_ty T \<lparr>fo_region = rename_capture_region E I, fo_ty = (\<lambda>_ _. None)\<rparr> 0 t m"

text \<open>\<open>RegionRenameVisitor\<close>; indexing past the end of the map is a panic.\<close>

definition rename_vid :: "region list \<Rightarrow> nat \<Rightarrow> region \<Rightarrow> unit \<Rightarrow> (region \<times> unit) option" where
  "rename_vid m d r s = (case r of ReVar v \<Rightarrow> map_option (\<lambda>r. (r, ())) (vec_get m v) | _ \<Rightarrow> Some (r, ()))"

definition rename_folder :: "region list \<Rightarrow> unit folder" where
  "rename_folder m = \<lparr>fo_region = rename_vid m, fo_ty = (\<lambda>_ _. None)\<rparr>"

definition rename_region_vids :: "traversal \<Rightarrow> generic_arg list \<Rightarrow> region list \<Rightarrow> generic_arg list option" where
  "rename_region_vids T x m = map_option fst (fold_args T (rename_folder m) 0 x ())"

text \<open>\<open>RelabelLateParamVisitor\<close>\<close>

definition relabel_late_region :: "nat \<Rightarrow> region \<Rightarrow> unit \<Rightarrow> (region \<times> unit) option" where
  "relabel_late_region d r s = Some (case r of ReBound _ _ _ \<Rightarrow> ReErased | _ \<Rightarrow> r, ())"

definition relabel_late_bounds :: "traversal \<Rightarrow> generic_arg list \<Rightarrow> generic_arg list option" where
  "relabel_late_bounds T x =
     map_option fst (fold_args T \<lparr>fo_region = relabel_late_region, fo_ty = (\<lambda>_ _. None)\<rparr> 0 x ())"

section \<open>Instantiation\<close>

text \<open>
  What the compiler computes of a type: whether it has parameters, whether bound variables escape it, and the
  shift of these variables by a number of binders.
\<close>

record shift_env =
  se_has_param :: "ty \<Rightarrow> bool"
  se_escapes :: "ty \<Rightarrow> bool"
  se_region_escapes :: "region \<Rightarrow> bool"
  se_shift_vars :: "nat \<Rightarrow> ty \<Rightarrow> ty"
  se_shift_region :: "nat \<Rightarrow> region \<Rightarrow> region"

definition shift_vars_through_binders :: "shift_env \<Rightarrow> nat \<Rightarrow> ty \<Rightarrow> ty" where
  "shift_vars_through_binders S d t = (if d = 0 \<or> \<not> se_escapes S t then t else se_shift_vars S d t)"

definition shift_region_through_binders :: "shift_env \<Rightarrow> nat \<Rightarrow> region \<Rightarrow> region" where
  "shift_region_through_binders S d r = (if d = 0 \<or> \<not> se_region_escapes S r then r else se_shift_region S d r)"

text \<open>\<open>ArgFolder\<close>: an index out of range or an argument of another kind is a panic.\<close>

definition inst_region :: "shift_env \<Rightarrow> generic_arg list \<Rightarrow> nat \<Rightarrow> region \<Rightarrow> unit \<Rightarrow> (region \<times> unit) option" where
  "inst_region S args d r s =
     (case r of
        ReEarlyParam index _ \<Rightarrow>
          (case vec_get args index of
             Some (ArgLifetime lt) \<Rightarrow> Some (shift_region_through_binders S d lt, ())
           | _ \<Rightarrow> None)
      | _ \<Rightarrow> Some (r, ()))"

definition ty_for_param :: "shift_env \<Rightarrow> generic_arg list \<Rightarrow> nat \<Rightarrow> nat \<Rightarrow> ty option" where
  "ty_for_param S args d index =
     (case vec_get args index of Some (ArgType t) \<Rightarrow> Some (shift_vars_through_binders S d t) | _ \<Rightarrow> None)"

definition inst_ty :: "shift_env \<Rightarrow> generic_arg list \<Rightarrow> nat \<Rightarrow> ty \<Rightarrow> ty option option" where
  "inst_ty S args d t =
     (if \<not> se_has_param S t then Some (Some t)
      else case t of TyParam index _ \<Rightarrow> Some (ty_for_param S args d index) | _ \<Rightarrow> None)"

definition arg_folder :: "shift_env \<Rightarrow> generic_arg list \<Rightarrow> unit folder" where
  "arg_folder S args = \<lparr>fo_region = inst_region S args, fo_ty = inst_ty S args\<rparr>"

definition instantiate_open :: "traversal \<Rightarrow> shift_env \<Rightarrow> generic_arg list \<Rightarrow> generic_arg list \<Rightarrow> generic_arg list option" where
  "instantiate_open T S x args = map_option fst (fold_args T (arg_folder S args) 0 x ())"

section \<open>Folders without state\<close>

text \<open>A folder without state is a partial function on types.\<close>

definition folded_ty :: "traversal \<Rightarrow> unit folder \<Rightarrow> nat \<Rightarrow> ty \<Rightarrow> ty option" where
  "folded_ty T F d t = map_option fst (fold_ty T F d t ())"

definition folded_arg :: "traversal \<Rightarrow> unit folder \<Rightarrow> nat \<Rightarrow> generic_arg \<Rightarrow> generic_arg option" where
  "folded_arg T F d a = map_option fst (fold_arg T F d a ())"

definition folded_region :: "unit folder \<Rightarrow> nat \<Rightarrow> region \<Rightarrow> region option" where
  "folded_region F d r = map_option fst (fo_region F d r ())"

lemma unit_result: "x = map_option (\<lambda>y. (y, ())) (map_option fst x)"
  by (cases x) auto

lemma fold_each_unit:
  "map_option fst (fold_each f xs ()) = those (map (\<lambda>x. map_option fst (f x ())) xs)"
proof (induction xs)
  case (Cons x xs)
  show ?case
    by (cases "f x ()") (auto simp: Cons [symmetric] option.map_comp comp_def split: option.splits)
qed simp

lemma map_fst_prod: "map_option fst (map_option (map_prod g id) x) = map_option g (map_option fst x)"
  by (cases x) auto

text \<open>A type is folded by its parts, and put together again.\<close>

lemma folded_ty_parts:
  assumes "fo_ty F d t = None" and "list_all (smaller_part t) (tv_parts T t)"
  shows "folded_ty T F d t =
    map_option (tv_rebuild T t) (those (map (\<lambda>p. folded_arg T F (if fst p then Suc d else d) (snd p)) (tv_parts T t)))"
  using assms by (simp add: folded_ty_def fold_ty.simps map_fst_prod fold_each_unit folded_arg_def)

lemma folded_ty_kind:
  assumes "folded_ty T F d t = Some u" and "fo_ty F d t = None"
  obtains bs where "u = tv_rebuild T t bs"
  using assms by (auto simp: folded_ty_def fold_ty.simps split: if_splits)

lemma folded_arg_simps:
  "folded_arg T F d (ArgType t) = map_option ArgType (folded_ty T F d t)"
  "folded_arg T F d (ArgLifetime r) = map_option ArgLifetime (folded_region F d r)"
  "folded_arg T F d (ArgConst c) = Some (ArgConst c)"
  by (simp_all add: folded_arg_def folded_ty_def folded_region_def map_fst_prod)

lemma those_map_option: "those (map (\<lambda>x. map_option g (f x)) xs) = map_option (map g) (those (map f xs))"
  by (induction xs) (auto simp: option.map_comp comp_def split: option.splits)

lemma arg_type_smaller: "ArgType u \<in> set as \<Longrightarrow> size u < size_list size as"
proof (induction as)
  case (Cons a as)
  then show ?case by (cases "a = ArgType u") auto
qed simp

lemma traversal_laws:
  assumes "traversal_ok T"
  shows "tv_parts T (TyAdt d as) = map (Pair False) as" "tv_rebuild T (TyAdt d as) = TyAdt d"
    "tv_parts T (TyAlias k d as) = map (Pair False) as" "tv_rebuild T (TyAlias k d as) = TyAlias k d"
    "tv_parts T (TyTuple ts) = map (\<lambda>t. (False, ArgType t)) ts" "tv_rebuild T (TyTuple ts) (map ArgType us) = TyTuple us"
    "tv_parts T (TyArray t c) = [(False, ArgType t), (False, ArgConst c)]"
    "tv_rebuild T (TyArray t c) [ArgType u, ArgConst e] = TyArray u e"
    "tv_parts T (TySlice t) = [(False, ArgType t)]" "tv_rebuild T (TySlice t) [ArgType u] = TySlice u"
    "tv_parts T (TyRawPtr t m) = [(False, ArgType t)]" "tv_rebuild T (TyRawPtr t m) [ArgType u] = TyRawPtr u m"
    "tv_parts T (TyRef r t m) = [(False, ArgLifetime r), (False, ArgType t)]"
    "tv_rebuild T (TyRef r t m) [ArgLifetime q, ArgType u] = TyRef q u m"
    "leaf_kind t \<Longrightarrow> tv_parts T t = []" "leaf_kind t \<Longrightarrow> tv_rebuild T t [] = t"
    "\<not> comparable_kind t \<Longrightarrow> \<not> comparable_kind (tv_rebuild T t bs)"
  using assms unfolding traversal_ok_def by (blast | simp add: fun_eq_iff)+

lemma leaf_kinds:
  "comparable_kind t \<longleftrightarrow> leaf_kind t \<or> (case t of TyRef _ _ _ \<Rightarrow> True | TyAdt _ _ \<Rightarrow> True | TyAlias _ _ _ \<Rightarrow> True
     | TyTuple _ \<Rightarrow> True | TySlice _ \<Rightarrow> True | TyRawPtr _ _ \<Rightarrow> True | TyArray _ _ \<Rightarrow> True | _ \<Rightarrow> False)"
  by (cases t) (auto simp: leaf_kind_def)

lemma traversal_smaller:
  assumes "traversal_ok T" and "comparable_kind t"
  shows "list_all (smaller_part t) (tv_parts T t)"
proof (cases "leaf_kind t")
  case True
  with traversal_laws [OF assms(1)] show ?thesis by simp
next
  case False
  have list: "u \<in> set us \<Longrightarrow> size u < Suc (size_list size us)" for u :: ty and us
    by (induction us) auto
  from False assms(2) show ?thesis
    using traversal_laws [OF assms(1)]
    by (cases t) (auto simp: leaf_kinds list_all_iff smaller_part_def list split: generic_arg.split dest!: arg_type_smaller)
qed

lemma folded_ty_simps:
  assumes "traversal_ok T"
  shows "fo_ty F d (TyAdt did as) = None
      \<Longrightarrow> folded_ty T F d (TyAdt did as) = map_option (TyAdt did) (those (map (folded_arg T F d) as))"
  "fo_ty F d (TyAlias k did as) = None
      \<Longrightarrow> folded_ty T F d (TyAlias k did as) = map_option (TyAlias k did) (those (map (folded_arg T F d) as))"
  "fo_ty F d (TyTuple ts) = None \<Longrightarrow> folded_ty T F d (TyTuple ts) = map_option TyTuple (those (map (folded_ty T F d) ts))"
  "fo_ty F d (TyArray u c) = None \<Longrightarrow> folded_ty T F d (TyArray u c) = map_option (\<lambda>u. TyArray u c) (folded_ty T F d u)"
  "fo_ty F d (TySlice u) = None \<Longrightarrow> folded_ty T F d (TySlice u) = map_option TySlice (folded_ty T F d u)"
  "fo_ty F d (TyRawPtr u m) = None \<Longrightarrow> folded_ty T F d (TyRawPtr u m) = map_option (\<lambda>u. TyRawPtr u m) (folded_ty T F d u)"
  "fo_ty F d (TyRef r u m) = None \<Longrightarrow> folded_ty T F d (TyRef r u m) =
     Option.bind (folded_region F d r) (\<lambda>r. map_option (\<lambda>u. TyRef r u m) (folded_ty T F d u))"
proof -
  note step = folded_ty_parts [OF _ traversal_smaller [OF assms]]
  note laws = traversal_laws [OF assms]
  show "fo_ty F d (TyAdt did as) = None
      \<Longrightarrow> folded_ty T F d (TyAdt did as) = map_option (TyAdt did) (those (map (folded_arg T F d) as))"
    by (simp add: step laws comp_def option.map_comp)
  show "fo_ty F d (TyAlias k did as) = None
      \<Longrightarrow> folded_ty T F d (TyAlias k did as) = map_option (TyAlias k did) (those (map (folded_arg T F d) as))"
    by (simp add: step laws comp_def option.map_comp)
  show "fo_ty F d (TyTuple ts) = None \<Longrightarrow> folded_ty T F d (TyTuple ts) = map_option TyTuple (those (map (folded_ty T F d) ts))"
    by (simp add: step laws comp_def option.map_comp folded_arg_simps those_map_option)
  show "fo_ty F d (TyArray u c) = None \<Longrightarrow> folded_ty T F d (TyArray u c) = map_option (\<lambda>u. TyArray u c) (folded_ty T F d u)"
    by (cases "folded_ty T F d u") (simp_all add: step laws folded_arg_simps)
  show "fo_ty F d (TySlice u) = None \<Longrightarrow> folded_ty T F d (TySlice u) = map_option TySlice (folded_ty T F d u)"
    by (cases "folded_ty T F d u") (simp_all add: step laws folded_arg_simps)
  show "fo_ty F d (TyRawPtr u m) = None \<Longrightarrow> folded_ty T F d (TyRawPtr u m) = map_option (\<lambda>u. TyRawPtr u m) (folded_ty T F d u)"
    by (cases "folded_ty T F d u") (simp_all add: step laws folded_arg_simps)
  show "fo_ty F d (TyRef r u m) = None \<Longrightarrow> folded_ty T F d (TyRef r u m) =
     Option.bind (folded_region F d r) (\<lambda>r. map_option (\<lambda>u. TyRef r u m) (folded_ty T F d u))"
    by (cases "folded_region F d r"; cases "folded_ty T F d u") (simp_all add: step laws folded_arg_simps)
qed

lemma folded_ty_leaf:
  assumes "traversal_ok T" and "fo_ty F d t = None"
    and "leaf_kind t"
  shows "folded_ty T F d t = Some t"
  using assms(2,3) traversal_laws(15,16) [OF assms(1)] by (simp add: folded_ty_parts)

lemma folded_ty_other_kind:
  "\<lbrakk>traversal_ok T; folded_ty T F d t = Some u; fo_ty F d t = None; \<not> comparable_kind t\<rbrakk> \<Longrightarrow> \<not> comparable_kind u"
  by (erule (1) folded_ty_kind) (simp add: traversal_laws)

text \<open>The traversal by constructors.\<close>

fun structural_parts :: "ty \<Rightarrow> (bool \<times> generic_arg) list" where
  "structural_parts (TyAdt d as) = map (Pair False) as"
| "structural_parts (TyAlias k d as) = map (Pair False) as"
| "structural_parts (TyTuple ts) = map (\<lambda>t. (False, ArgType t)) ts"
| "structural_parts (TyArray t c) = [(False, ArgType t), (False, ArgConst c)]"
| "structural_parts (TySlice t) = [(False, ArgType t)]"
| "structural_parts (TyRawPtr t m) = [(False, ArgType t)]"
| "structural_parts (TyRef r t m) = [(False, ArgLifetime r), (False, ArgType t)]"
| "structural_parts (TyFnPtr ts h) = map (\<lambda>t. (True, ArgType t)) ts"
| "structural_parts _ = []"

fun structural_rebuild :: "ty \<Rightarrow> generic_arg list \<Rightarrow> ty" where
  "structural_rebuild (TyAdt d _) bs = TyAdt d bs"
| "structural_rebuild (TyAlias k d _) bs = TyAlias k d bs"
| "structural_rebuild (TyTuple _) bs = TyTuple (List.map_filter (\<lambda>b. case b of ArgType t \<Rightarrow> Some t | _ \<Rightarrow> None) bs)"
| "structural_rebuild (TyArray _ _) [ArgType t, ArgConst c] = TyArray t c"
| "structural_rebuild (TySlice _) [ArgType t] = TySlice t"
| "structural_rebuild (TyRawPtr _ m) [ArgType t] = TyRawPtr t m"
| "structural_rebuild (TyRef _ _ m) [ArgLifetime r, ArgType t] = TyRef r t m"
| "structural_rebuild (TyFnPtr _ h) bs = TyFnPtr (List.map_filter (\<lambda>b. case b of ArgType t \<Rightarrow> Some t | _ \<Rightarrow> None) bs) h"
| "structural_rebuild t _ = t"

definition structural :: traversal where
  "structural = \<lparr>tv_parts = structural_parts, tv_rebuild = structural_rebuild\<rparr>"

lemma map_filter_ArgType: "List.map_filter (\<lambda>b. case b of ArgType t \<Rightarrow> Some t | _ \<Rightarrow> None) (map ArgType us) = us"
  by (induction us) (simp_all add: map_filter_simps)

lemma structural_kind: "comparable_kind (structural_rebuild t bs) = comparable_kind t"
  by (induction t bs rule: structural_rebuild.induct) (auto simp: leaf_kind_def)

lemma structural_ok: "traversal_ok structural"
proof -
  have "leaf_kind t \<Longrightarrow> structural_parts t = [] \<and> structural_rebuild t [] = t" for t by (cases t) (auto simp: leaf_kind_def)
  then show ?thesis unfolding traversal_ok_def by (simp add: structural_def map_filter_ArgType structural_kind)
qed

lemma those_list_all2: "those (map f xs) = Some ys \<longleftrightarrow> list_all2 (\<lambda>x y. f x = Some y) xs ys"
proof (induction xs arbitrary: ys)
  case (Cons x xs)
  show ?case by (cases ys) (auto simp: Cons [symmetric] split: option.splits)
qed auto

lemma those_transfer:
  assumes "those (map f xs) = Some ys"
    and "\<And>x y. x \<in> set xs \<Longrightarrow> y \<in> set ys \<Longrightarrow> f x = Some y \<Longrightarrow> \<exists>y'. g x = Some y' \<and> Q y y'"
  shows "\<exists>ys'. those (map g xs) = Some ys' \<and> list_all2 Q ys ys'"
proof -
  from assms(1) have "list_all2 (\<lambda>x y. f x = Some y) xs ys" by (simp add: those_list_all2)
  then show ?thesis
    using assms(2)
  proof (induction rule: list_all2_induct)
    case (Cons x xs y ys)
    then obtain ys' where "those (map g xs) = Some ys'" "list_all2 Q ys ys'" by (metis list.set_intros(2))
    moreover from Cons obtain y' where "g x = Some y'" "Q y y'" by (metis list.set_intros(1))
    ultimately show ?case by auto
  qed simp
qed

end
