(* ===== verification/TraitResolution.thy ===== *)
theory TraitResolution
  imports RegionFold RegionBiFold BodyState
begin

text \<open>
  Resolving trait references to implementations: \<open>translation/src/traits/resolution.rs\<close>. The compiler selects an
  implementation for arguments without regions; the regions of the implementation's arguments are recovered by
  comparing its trait reference with the required arguments. Selection and normalization are the compiler's. The
  only error of an outcome is running out of the fuel of the comparison.
\<close>

section \<open>What the compiler computes\<close>

datatype assoc_container = TraitContainer def_id | TraitImplContainer def_id | InherentImplContainer

record trait_ref =
  tr_def_id :: def_id
  tr_args :: "generic_arg list"

text \<open>The nested obligations of an implementation, and the rest of the other sources, are opaque.\<close>

datatype impl_source =
    UserDefinedImpl def_id "generic_arg list" nat
  | ParamImpl nat
  | BuiltinImpl nat

record leaf_def =
  ld_item :: def_id
  ld_is_final :: bool
  ld_defining_node :: nat

record resolve_env =
  rs_normalize_erasing :: "generic_arg list \<Rightarrow> generic_arg list"
  rs_assoc_item :: "def_id \<Rightarrow> assoc_container option"
  rs_is_trait :: "def_id \<Rightarrow> bool"
  rs_instantiate_impl_ref :: "def_id \<Rightarrow> generic_arg list \<Rightarrow> trait_ref"
  rs_select :: "trait_ref \<Rightarrow> impl_source option"
  rs_impl_trait_ref :: "def_id \<Rightarrow> trait_ref"             \<comment> \<open>below the binder of the parameters\<close>
  rs_normalize :: "generic_arg list \<Rightarrow> generic_arg list option"
  rs_bifold :: bifold_env
  rs_traversal :: traversal
  rs_shift :: shift_env
  rs_trait_of_assoc :: "def_id \<Rightarrow> def_id option"
  rs_leaf_def :: "def_id \<Rightarrow> def_id \<Rightarrow> def_id \<Rightarrow> leaf_def option"
  rs_specializable :: "def_id \<Rightarrow> generic_arg list \<Rightarrow> bool"
  rs_rebase :: "generic_arg list \<Rightarrow> def_id \<Rightarrow> generic_arg list \<Rightarrow> generic_arg list"
  rs_translate_args :: "def_id \<Rightarrow> generic_arg list \<Rightarrow> nat \<Rightarrow> generic_arg list"

section \<open>Recovering the regions\<close>

text \<open>\<open>RegionMapper\<close>\<close>

definition mapper_map_regions :: "region \<Rightarrow> region \<Rightarrow> (origin \<rightharpoonup> region) \<Rightarrow> (origin \<rightharpoonup> region) option" where
  "mapper_map_regions r1 r2 m =
     (case r1 of ReVar v1 \<Rightarrow> if m v1 \<noteq> None then None else Some (m(v1 \<mapsto> r2)) | _ \<Rightarrow> Some m)"

definition region_mapper :: "(origin \<rightharpoonup> region) bifolder" where
  "region_mapper = \<lparr>map_regions = mapper_map_regions, examine_ty = (\<lambda>_ _. True)\<rparr>"

definition mapper_result :: "nat \<Rightarrow> (origin \<rightharpoonup> region) \<Rightarrow> region list option" where
  "mapper_result num_regions m = those (map m [0..<num_regions])"

definition map_generic_args ::
  "nat \<Rightarrow> bifold_env \<Rightarrow> 's bifolder \<Rightarrow> generic_arg list \<Rightarrow> generic_arg list \<Rightarrow> 's \<Rightarrow> (fuel, 's) outcome" where
  "map_generic_args n B F as1 as2 = for_each (map_generic_arg F (map_tys n B F)) (zip as1 as2)"

definition recover_args ::
  "nat \<Rightarrow> resolve_env \<Rightarrow> generic_arg list \<Rightarrow> def_id \<Rightarrow> generic_arg list \<Rightarrow> (fuel, generic_arg list) outcome" where
  "recover_args n R substs impl_did impl_args =
     and_then (or_panic (relabel_erased_regions (rs_traversal R) impl_args)) (\<lambda>(enumerated_impl_args, num_regions).
       if num_regions = 0 then Ok impl_args
       else
         and_then (or_panic (instantiate_open (rs_traversal R) (rs_shift R) (tr_args (rs_impl_trait_ref R impl_did)) enumerated_impl_args)) (\<lambda>subject_args.
         and_then (or_panic (rs_normalize R subject_args)) (\<lambda>impl_args.
         and_then (or_panic (rs_normalize R substs)) (\<lambda>required_args.
         and_then (map_generic_args n (rs_bifold R) region_mapper impl_args required_args Map.empty) (\<lambda>m.
         and_then (or_panic (mapper_result num_regions m)) (\<lambda>region_map.
           or_panic (rename_region_vids (rs_traversal R) enumerated_impl_args region_map)))))))"

definition recover_lifetimes_for_impl_source ::
  "nat \<Rightarrow> resolve_env \<Rightarrow> generic_arg list \<Rightarrow> impl_source \<Rightarrow> (fuel, impl_source) outcome" where
  "recover_lifetimes_for_impl_source n R substs src =
     (case src of
        UserDefinedImpl impl_did impl_args nested \<Rightarrow>
          and_then (recover_args n R substs impl_did impl_args) (\<lambda>args. Ok (UserDefinedImpl impl_did args nested))
      | ParamImpl _ \<Rightarrow> Ok src
      | BuiltinImpl _ \<Rightarrow> Ok src)"

section \<open>Resolution\<close>

definition resolved_trait_ref :: "resolve_env \<Rightarrow> def_id \<Rightarrow> generic_arg list \<Rightarrow> trait_ref option" where
  "resolved_trait_ref R did erased_substs =
     (case rs_assoc_item R did of
        Some (TraitContainer t) \<Rightarrow> Some \<lparr>tr_def_id = t, tr_args = erased_substs\<rparr>
      | Some (TraitImplContainer i) \<Rightarrow> Some (rs_instantiate_impl_ref R i erased_substs)
      | Some InherentImplContainer \<Rightarrow> None
      | None \<Rightarrow> if rs_is_trait R did then Some \<lparr>tr_def_id = did, tr_args = erased_substs\<rparr> else None)"

definition resolve_impl_source ::
  "nat \<Rightarrow> resolve_env \<Rightarrow> def_id \<Rightarrow> generic_arg list \<Rightarrow> (fuel, impl_source option) outcome" where
  "resolve_impl_source n R did substs =
     and_then (or_panic (relabel_late_bounds (rs_traversal R) (rs_normalize_erasing R substs))) (\<lambda>erased_substs.
       case Option.bind (resolved_trait_ref R did erased_substs) (rs_select R) of
         None \<Rightarrow> Ok None
       | Some res \<Rightarrow> and_then (recover_lifetimes_for_impl_source n R substs res) (\<lambda>src. Ok (Some src)))"

type_synonym resolution = "def_id \<times> generic_arg list \<times> trait_resolution_kind"

text \<open>The closure that a built-in implementation stands for is the first argument.\<close>

definition builtin_resolution :: "generic_arg list \<Rightarrow> (fuel, resolution option) outcome" where
  "builtin_resolution substs =
     (case vec_get substs 0 of
        Some (ArgType (TyClosure did args)) \<Rightarrow> Ok (Some (did, args, ResolvedClosure))
      | _ \<Rightarrow> Panic)"

definition resolve_trait ::
  "nat \<Rightarrow> resolve_env \<Rightarrow> def_id \<Rightarrow> generic_arg list \<Rightarrow> (fuel, resolution option) outcome" where
  "resolve_trait n R did substs =
     (if rs_is_trait R did then
        and_then (resolve_impl_source n R did substs) (\<lambda>src.
          case src of
            None \<Rightarrow> Ok None
          | Some (UserDefinedImpl impl_did args _) \<Rightarrow> Ok (Some (impl_did, args, ResolvedUserDefined))
          | Some (ParamImpl _) \<Rightarrow> Ok (Some (did, substs, ResolvedParam))
          | Some (BuiltinImpl _) \<Rightarrow> builtin_resolution substs)
      else Ok None)"

definition resolve_assoc_item ::
  "nat \<Rightarrow> resolve_env \<Rightarrow> def_id \<Rightarrow> generic_arg list \<Rightarrow> (fuel, resolution option) outcome" where
  "resolve_assoc_item n R did substs =
     (if rs_assoc_item R did = None then Ok None
      else
        and_then (or_panic (rs_trait_of_assoc R did)) (\<lambda>_.
        and_then (resolve_impl_source n R did substs) (\<lambda>src.
          case src of
            None \<Rightarrow> Ok None
          | Some (UserDefinedImpl impl_did impl_args _) \<Rightarrow>
              (let trait_did = tr_def_id (rs_impl_trait_ref R impl_did) in
               and_then (or_panic (rs_leaf_def R trait_did impl_did did)) (\<lambda>leaf.
                 if \<not> ld_is_final leaf \<and> rs_specializable R did substs then Ok (Some (did, substs, ResolvedUserDefined))
                 else Ok (Some (ld_item leaf,
                   rs_translate_args R impl_did (rs_rebase R substs trait_did impl_args) (ld_defining_node leaf),
                   ResolvedUserDefined))))
          | Some (ParamImpl _) \<Rightarrow> Ok (Some (did, substs, ResolvedParam))
          | Some (BuiltinImpl _) \<Rightarrow> builtin_resolution substs)))"

section \<open>Renaming after instantiating\<close>




definition renamed :: "region list \<Rightarrow> region \<Rightarrow> region \<Rightarrow> bool" where
  "renamed m r r' \<longleftrightarrow> (case r of ReVar v \<Rightarrow> vec_get m v = Some r' | _ \<Rightarrow> r' = r)"



lemma rename_fo_ty [simp]: "fo_ty (rename_folder m) d t = None"
  by (simp add: rename_folder_def)





text \<open>
  Instantiating a type without region variables with renamed arguments renames the regions of its instance.
\<close>

definition no_vids :: "region list \<Rightarrow> bool" where
  "no_vids rs \<longleftrightarrow> (\<forall>v. ReVar v \<notin> set rs)"

lemma no_vids_simps [simp]:
  "no_vids []" "no_vids (r # rs) \<longleftrightarrow> (\<forall>v. r \<noteq> ReVar v) \<and> no_vids rs" "no_vids (rs @ rs') \<longleftrightarrow> no_vids rs \<and> no_vids rs'"
  "no_vids (concat rss) \<longleftrightarrow> (\<forall>rs \<in> set rss. no_vids rs)"
  by (auto simp: no_vids_def)

lemma no_vids_renamed: "no_vids rs \<Longrightarrow> list_all2 (renamed m) rs rs"
  by (rule list.rel_refl_strong) (auto simp: no_vids_def renamed_def split: region.splits)













section \<open>The recovered arguments\<close>










text \<open>The header \<open>impl<'a> Trait<..> for &'a bool\<close> with the lifetimes of the arguments in \<open>header\<close>.\<close>

definition mini_resolve :: "generic_arg list \<Rightarrow> resolve_env" where
  "mini_resolve header =
     \<lparr>rs_normalize_erasing = (\<lambda>as. as), rs_assoc_item = (\<lambda>_. None), rs_is_trait = (\<lambda>d. d = 1),
      rs_instantiate_impl_ref = (\<lambda>_ as. \<lparr>tr_def_id = 1, tr_args = as\<rparr>), rs_select = (\<lambda>_. Some (UserDefinedImpl 2 [ArgLifetime ReErased] 0)),
      rs_impl_trait_ref = (\<lambda>_. \<lparr>tr_def_id = 1, tr_args = header\<rparr>), rs_normalize = Some,
      rs_bifold = \<lparr>bf_normalize_erasing = Some, bf_upvars = (\<lambda>_. []), bf_closure_inputs = (\<lambda>_. []), bf_closure_output = (\<lambda>_. TyNever)\<rparr>,
      rs_traversal = structural,
      rs_shift = \<lparr>se_has_param = (\<lambda>_. True), se_escapes = (\<lambda>_. False), se_region_escapes = (\<lambda>_. False),
        se_shift_vars = (\<lambda>_ t. t), se_shift_region = (\<lambda>_ r. r)\<rparr>,
      rs_trait_of_assoc = (\<lambda>_. None), rs_leaf_def = (\<lambda>_ _ _. None), rs_specializable = (\<lambda>_ _. False),
      rs_rebase = (\<lambda>as _ _. as), rs_translate_args = (\<lambda>_ as _. as)\<rparr>"

abbreviation ref_bool :: "region \<Rightarrow> generic_arg" where
  "ref_bool r \<equiv> ArgType (TyRef r TyBool 0)"



text \<open>A header that mentions a lifetime twice makes the comparison panic: the mapper refuses the second pair.\<close>

lemma repeated_lifetime_panics:
  "recover_args 9 (mini_resolve [ref_bool (ReEarlyParam 0 ''a''), ref_bool (ReEarlyParam 0 ''a'')])
     [ref_bool (ReVar 7), ref_bool (ReVar 7)] 2 [ArgLifetime ReErased] = Panic"
  by code_simp

end
