(* ===== verification/DefQueries.thy ===== *)
theory DefQueries
  imports Unification ToolAttributes RustCmp BodyState
begin

text \<open>
  Finding definitions: the queries of \<open>translation/src/environment/mod.rs\<close> with its visitor, the helpers of
  \<open>traits/mod.rs\<close> and the search by path of \<open>search.rs\<close>. The tables of the compiler are a record. A query that can
  fail and panic has the type \<^typ>\<open>'a option option\<close>: the outer \<^term>\<open>None\<close> is the panic, the inner one the answer
  \<open>None\<close> of the code.
\<close>

section \<open>What the compiler knows\<close>

text \<open>\<open>item.res.def_id()\<close> panics when the item is not a definition, \<open>item.name()\<close> when it has no name.\<close>

record mod_child =
  mc_name :: string
  mc_res :: "def_id option"

datatype assoc_tag = AssocConst | AssocFn | AssocType

record assoc_item =
  ai_name :: "string option"
  ai_def_id :: def_id
  ai_tag :: assoc_tag

record comp_tables =
  tb_crates :: "nat list"
  tb_crate_name :: "nat \<Rightarrow> string"
  tb_crate_root :: "nat \<Rightarrow> def_id"
  tb_module_children :: "def_id \<Rightarrow> mod_child list"
  tb_inherent_impls :: "def_id \<Rightarrow> def_id list"
  tb_associated_items :: "def_id \<Rightarrow> assoc_item list"         \<comment> \<open>in the order of definition\<close>
  tb_assoc_tag :: "def_id \<Rightarrow> assoc_tag"
  tb_simplify_rigid :: "ty \<Rightarrow> nat option"                     \<comment> \<open>\<open>simplify_type\<close> with \<open>AsRigid\<close>\<close>
  tb_simplify_infer :: "ty \<Rightarrow> nat option"                     \<comment> \<open>\<open>simplify_type\<close> with \<open>InstantiateWithInfer\<close>\<close>
  tb_incoherent_impls :: "nat \<Rightarrow> def_id list"
  tb_blanket_impls :: "def_id \<Rightarrow> def_id list"
  tb_non_blanket_impls :: "def_id \<Rightarrow> nat \<Rightarrow> def_id list option"
  tb_impl_trait_args :: "def_id \<Rightarrow> generic_arg list option"   \<comment> \<open>normalized in the implementation\<close>
  tb_impl_self_ty :: "def_id \<Rightarrow> ty option"                    \<comment> \<open>normalized in the implementation\<close>
  tb_attributes :: "def_id \<Rightarrow> attribute list"
  tb_is_trait :: "def_id \<Rightarrow> bool"
  tb_impl_of_assoc :: "def_id \<Rightarrow> def_id option"
  tb_trait_of_assoc :: "def_id \<Rightarrow> def_id option"
  tb_impl_is_of_trait :: "def_id \<Rightarrow> bool"
  tb_parent :: "def_id \<Rightarrow> def_id"
  tb_opt_parent :: "def_id \<Rightarrow> def_id option"
  tb_type_of :: "def_id \<Rightarrow> ty"
  tb_last_path_name :: "def_id \<Rightarrow> string option"
  tb_closure_kind :: "generic_arg list \<Rightarrow> closure_kind"
  tb_local_ty :: "def_id \<Rightarrow> mir_local \<Rightarrow> ty option"

text \<open>\<open>let x = q?;\<close> and \<open>if let Some(x) = q { return Some(x) }\<close> for a query that may panic.\<close>

definition ask :: "'a option option \<Rightarrow> ('a \<Rightarrow> 'b option option) \<Rightarrow> 'b option option" where
  "ask q k = (case q of None \<Rightarrow> None | Some None \<Rightarrow> Some None | Some (Some x) \<Rightarrow> k x)"

definition or_ask :: "'a option option \<Rightarrow> 'a option option \<Rightarrow> 'a option option" where
  "or_ask q k = (case q of Some None \<Rightarrow> k | _ \<Rightarrow> q)"

lemma ask_simps [simp]: "ask None k = None" "ask (Some None) k = Some None" "ask (Some (Some x)) k = k x"
  by (simp_all add: ask_def)

lemma or_ask_simps [simp]: "or_ask None k = None" "or_ask (Some None) k = k" "or_ask (Some (Some x)) k = Some (Some x)"
  by (simp_all add: or_ask_def)

section \<open>Paths to definitions\<close>

text \<open>The crate named by the first component, which the closure of \<open>find\<close> reads at every crate it is asked for.\<close>

definition find_crate :: "comp_tables \<Rightarrow> string list \<Rightarrow> nat option option" where
  "find_crate T path =
     (if tb_crates T = [] then Some None
      else case path of [] \<Rightarrow> None | p # _ \<Rightarrow> Some (List.find (\<lambda>k. tb_crate_name T k = p) (tb_crates T)))"

text \<open>
  The loop over the segments: \<open>mem::take\<close> leaves no items behind, so that after a segment that is not found the
  rest of the path is walked through empty modules.
\<close>

fun walk_modules :: "comp_tables \<Rightarrow> string list \<Rightarrow> mod_child list \<Rightarrow> def_id option option" where
  "walk_modules T [] items = Some None"
| "walk_modules T (segment # rest) items =
     (case List.find (\<lambda>c. mc_name c = segment) items of
        None \<Rightarrow> walk_modules T rest []
      | Some item \<Rightarrow>
          (case mc_res item of
             None \<Rightarrow> None
           | Some did \<Rightarrow> if rest = [] then Some (Some did) else walk_modules T rest (tb_module_children T did)))"

definition try_resolve_did_direct :: "comp_tables \<Rightarrow> string list \<Rightarrow> def_id option option" where
  "try_resolve_did_direct T path =
     ask (find_crate T path) (\<lambda>krate. walk_modules T (tl path) (tb_module_children T (tb_crate_root T krate)))"

definition try_resolve_did :: "comp_tables \<Rightarrow> string list \<Rightarrow> def_id option option" where
  "try_resolve_did T path =
     or_ask (try_resolve_did_direct T path)
       (case path of
          [] \<Rightarrow> None
        | p # rest \<Rightarrow>
            if p = ''std'' then or_ask (try_resolve_did_direct T (''core'' # rest)) (try_resolve_did_direct T (''alloc'' # rest))
            else Some None)"

section \<open>Methods\<close>

fun named_item :: "string \<Rightarrow> assoc_item list \<Rightarrow> def_id option option" where
  "named_item m [] = Some None"
| "named_item m (item # items) =
     (case ai_name item of None \<Rightarrow> None | Some n \<Rightarrow> if n = m then Some (Some (ai_def_id item)) else named_item m items)"

definition method_in_impls :: "comp_tables \<Rightarrow> string \<Rightarrow> def_id list \<Rightarrow> def_id option option" where
  "method_in_impls T m impls = named_item m (concat (map (tb_associated_items T) impls))"

fun walk_to_method :: "comp_tables \<Rightarrow> string list \<Rightarrow> mod_child list \<Rightarrow> def_id option option" where
  "walk_to_method T [] items = Some None"
| "walk_to_method T (segment # rest) items =
     (case List.find (\<lambda>c. mc_name c = segment) items of
        None \<Rightarrow> walk_to_method T rest []
      | Some item \<Rightarrow>
          (case mc_res item of
             None \<Rightarrow> None
           | Some did \<Rightarrow>
               (case rest of
                  [] \<Rightarrow> Some (Some did)
                | [m] \<Rightarrow> method_in_impls T m (tb_inherent_impls T did)
                | _ \<Rightarrow> walk_to_method T rest (tb_module_children T did))))"

definition try_resolve_method_did_direct :: "comp_tables \<Rightarrow> string list \<Rightarrow> def_id option option" where
  "try_resolve_method_did_direct T path =
     ask (find_crate T path) (\<lambda>krate. walk_to_method T (tl path) (tb_module_children T (tb_crate_root T krate)))"

text \<open>The primitive type whose incoherent implementations a path names, and the position of the method.\<close>

definition int_ty_named :: "string \<Rightarrow> ty option" where
  "int_ty_named s =
     map_of [(''isize'', TyInt 0), (''i8'', TyInt 1), (''i16'', TyInt 2), (''i32'', TyInt 3), (''i64'', TyInt 4),
             (''i128'', TyInt 5)] s"

definition uint_ty_named :: "string \<Rightarrow> ty option" where
  "uint_ty_named s =
     map_of [(''usize'', TyUint 0), (''u8'', TyUint 1), (''u16'', TyUint 2), (''u32'', TyUint 3), (''u64'', TyUint 4),
             (''u128'', TyUint 5)] s"

definition incoherent_ty :: "string list \<Rightarrow> (ty \<times> nat) option" where
  "incoherent_ty path =
     (if take 3 path = [''core'', ''ptr'', ''mut_ptr''] then Some (TyRawPtr (TyParam 0 ''dummy'') 1, 3)
      else if take 3 path = [''core'', ''ptr'', ''const_ptr''] then Some (TyRawPtr (TyParam 0 ''dummy'') 0, 3)
      else if take 2 path = [''core'', ''bool''] then Some (TyBool, 2)
      else if take 2 path = [''core'', ''char''] then Some (TyChar, 2)
      else if take 2 path = [''core'', ''num''] then
        (case int_ty_named (path ! 2) of
           Some t \<Rightarrow> Some (t, 3)
         | None \<Rightarrow> map_option (\<lambda>t. (t, 3)) (uint_ty_named (path ! 2)))
      else None)"

text \<open>The slice \<open>path[0..3]\<close> panics for a path with fewer components.\<close>

definition try_resolve_method_did_incoherent :: "comp_tables \<Rightarrow> string list \<Rightarrow> def_id option option" where
  "try_resolve_method_did_incoherent T path =
     (if length path < 3 then None
      else case incoherent_ty path of
        None \<Rightarrow> Some None
      | Some (t, method_idx) \<Rightarrow>
          (case tb_simplify_rigid T t of
             None \<Rightarrow> None
           | Some simplified_ty \<Rightarrow>
               (case vec_get path method_idx of
                  None \<Rightarrow> Some None
                | Some m \<Rightarrow> method_in_impls T m (tb_incoherent_impls T simplified_ty))))"

definition try_resolve_method_did :: "comp_tables \<Rightarrow> string list \<Rightarrow> def_id option option" where
  "try_resolve_method_did T path =
     or_ask (try_resolve_method_did_direct T path)
       (case path of
          [] \<Rightarrow> None
        | p # rest \<Rightarrow>
            if p = ''std'' then
              or_ask (try_resolve_method_did_direct T (''core'' # rest))
                (or_ask (try_resolve_method_did_direct T (''alloc'' # rest))
                  (try_resolve_method_did_incoherent T (''alloc'' # rest)))
            else try_resolve_method_did_incoherent T path)"

section \<open>Implementations of traits\<close>

text \<open>\<open>&this_impl_args.as_slice()[1..]\<close> panics without arguments.\<close>

definition impl_args_unify ::
  "comp_tables \<Rightarrow> generic_arg option list \<Rightarrow> def_id \<Rightarrow> unification_map \<Rightarrow> bool option" where
  "impl_args_unify T ref_args did m =
     (case tb_impl_trait_args T did of
        Some (_ # as) \<Rightarrow> Some (fst (args_unify_types as ref_args m))
      | _ \<Rightarrow> None)"

definition keep_first :: "'a \<Rightarrow> 'a option \<Rightarrow> 'a option" where
  "keep_first x solution = (case solution of None \<Rightarrow> Some x | Some y \<Rightarrow> Some y)"

definition blanket_step :: "comp_tables \<Rightarrow> generic_arg option list \<Rightarrow> def_id \<Rightarrow> def_id option \<Rightarrow> def_id option option" where
  "blanket_step T ref_args did solution =
     map_option (\<lambda>ok. if ok then keep_first did solution else solution) (impl_args_unify T ref_args did Map.empty)"

text \<open>The map of the types is shared by all candidates; the arguments of the trait work on a copy.\<close>

definition non_blanket_step ::
  "comp_tables \<Rightarrow> ty \<Rightarrow> generic_arg option list \<Rightarrow> def_id \<Rightarrow> def_id option \<times> unification_map
    \<Rightarrow> (def_id option \<times> unification_map) option" where
  "non_blanket_step T for_type ref_args did s =
     (case s of (solution, m) \<Rightarrow>
        Option.bind (tb_impl_self_ty T did) (\<lambda>impl_self_ty.
          case unify_types for_type impl_self_ty m of (ok, m) \<Rightarrow>
            if \<not> ok then Some (solution, m)
            else map_option (\<lambda>ok. (if ok then keep_first did solution else solution, m)) (impl_args_unify T ref_args did m)))"

definition try_resolve_trait_impl_did ::
  "comp_tables \<Rightarrow> def_id \<Rightarrow> generic_arg option list \<Rightarrow> ty \<Rightarrow> def_id option option" where
  "try_resolve_trait_impl_did T trait_did ref_args for_type =
     (case for_type of
        TyParam _ _ \<Rightarrow> fold_opt (blanket_step T ref_args) (tb_blanket_impls T trait_did) None
      | _ \<Rightarrow>
          (case tb_simplify_infer T for_type of
             None \<Rightarrow> Some None
           | Some simplified_type \<Rightarrow>
               (case tb_non_blanket_impls T trait_did simplified_type of
                  None \<Rightarrow> Some None
                | Some defs \<Rightarrow> map_option fst (fold_opt (non_blanket_step T for_type ref_args) defs (None, Map.empty)))))"

section \<open>Well-known traits\<close>

definition get_closure_trait_did :: "comp_tables \<Rightarrow> closure_kind \<Rightarrow> def_id option option" where
  "get_closure_trait_did T kind =
     (case kind of
        ClosureFn \<Rightarrow> try_resolve_did T [''core'', ''ops'', ''Fn'']
      | ClosureFnMut \<Rightarrow> try_resolve_did T [''core'', ''ops'', ''FnMut'']
      | ClosureFnOnce \<Rightarrow> try_resolve_did T [''core'', ''ops'', ''FnOnce''])"

definition get_closure_kind_of_trait_did :: "comp_tables \<Rightarrow> def_id \<Rightarrow> closure_kind option option" where
  "get_closure_kind_of_trait_did T did =
     ask (get_closure_trait_did T ClosureFnMut) (\<lambda>fnmut_did.
     ask (get_closure_trait_did T ClosureFn) (\<lambda>fn_did.
     ask (get_closure_trait_did T ClosureFnOnce) (\<lambda>fnonce_did.
       Some (if did = fnmut_did then Some ClosureFnMut
             else if did = fn_did then Some ClosureFn
             else if did = fnonce_did then Some ClosureFnOnce
             else None))))"

text \<open>The definitions of several paths, up to the first that is not found.\<close>

fun resolve_all :: "comp_tables \<Rightarrow> string list list \<Rightarrow> def_id list option option" where
  "resolve_all T [] = Some (Some [])"
| "resolve_all T (p # ps) =
     ask (try_resolve_did T p) (\<lambda>d. ask (resolve_all T ps) (\<lambda>ds. Some (Some (d # ds))))"

definition is_one_of :: "comp_tables \<Rightarrow> string list list \<Rightarrow> def_id \<Rightarrow> bool option option" where
  "is_one_of T paths did = ask (resolve_all T paths) (\<lambda>dids. Some (Some (did \<in> set dids)))"

definition is_derive_trait_with_no_annotations :: "comp_tables \<Rightarrow> def_id \<Rightarrow> bool option option" where
  "is_derive_trait_with_no_annotations T =
     is_one_of T [[''core'', ''marker'', ''Copy''], [''core'', ''clone'', ''Clone''], [''core'', ''fmt'', ''Debug'']]"

definition is_derive_trait_with_annotations :: "comp_tables \<Rightarrow> def_id \<Rightarrow> bool option option" where
  "is_derive_trait_with_annotations T =
     is_one_of T [[''core'', ''cmp'', ''Eq''], [''core'', ''cmp'', ''PartialEq''], [''core'', ''cmp'', ''Ord''],
                  [''core'', ''cmp'', ''PartialOrd'']]"

section \<open>Items and their attributes\<close>

definition get_closure_self_ty_from_var_ty :: "ty \<Rightarrow> closure_kind \<Rightarrow> ty option" where
  "get_closure_self_ty_from_var_ty var_ty kind =
     (case kind of
        ClosureFnOnce \<Rightarrow> Some var_ty
      | _ \<Rightarrow> (case var_ty of TyRef _ t _ \<Rightarrow> Some t | _ \<Rightarrow> None))"

definition get_closure_args :: "comp_tables \<Rightarrow> def_id \<Rightarrow> generic_arg list option" where
  "get_closure_args T did =
     (case tb_type_of T did of
        TyClosure _ closure_args \<Rightarrow>
          Option.bind (tb_local_ty T did 1) (\<lambda>var_ty.
          Option.bind (get_closure_self_ty_from_var_ty var_ty (tb_closure_kind T closure_args)) (\<lambda>closure_ty.
            case closure_ty of TyClosure _ as \<Rightarrow> Some as | _ \<Rightarrow> None))
      | _ \<Rightarrow> None)"

definition is_closure :: "comp_tables \<Rightarrow> def_id \<Rightarrow> bool" where
  "is_closure T did \<longleftrightarrow> (case tb_type_of T did of TyClosure _ _ \<Rightarrow> True | _ \<Rightarrow> False)"

definition own_function_attributes :: "string \<Rightarrow> comp_tables \<Rightarrow> (attr_item \<Rightarrow> bool) \<Rightarrow> def_id \<Rightarrow> attr_item list" where
  "own_function_attributes hotword T propagate did =
     filter_for_tool hotword (tb_attributes T did) @
     (case tb_impl_of_assoc T did of
        Some impl_did \<Rightarrow> filter propagate (filter_for_tool hotword (tb_attributes T impl_did))
      | None \<Rightarrow> [])"

text \<open>A closure also has the selected attributes of the function around it, which may be a closure itself.\<close>

partial_function (option) get_attributes_of_function ::
  "string \<Rightarrow> comp_tables \<Rightarrow> (attr_item \<Rightarrow> bool) \<Rightarrow> def_id \<Rightarrow> attr_item list option" where
  "get_attributes_of_function hotword T propagate did =
     (if is_closure T did then
        Option.bind (get_attributes_of_function hotword T propagate (tb_parent T did)) (\<lambda>parent_attrs.
          Some (own_function_attributes hotword T propagate did @ filter propagate parent_attrs))
      else Some (own_function_attributes hotword T propagate did))"

definition sort_assoc_items :: "rc_env \<Rightarrow> assoc_item list \<Rightarrow> assoc_item list" where
  "sort_assoc_items R items = sort_key (\<lambda>i. path_rank R (exported R (ai_def_id i))) items"

definition get_trait_assoc_types :: "rc_env \<Rightarrow> comp_tables \<Rightarrow> def_id \<Rightarrow> def_id list" where
  "get_trait_assoc_types R T trait_did =
     map ai_def_id (filter (\<lambda>c. ai_tag c = AssocType) (sort_assoc_items R (tb_associated_items T trait_did)))"

fun position_of :: "'a \<Rightarrow> 'a list \<Rightarrow> nat option" where
  "position_of x [] = None"
| "position_of x (y # ys) = (if y = x then Some 0 else map_option Suc (position_of x ys))"

definition get_trait_associated_type_index :: "rc_env \<Rightarrow> comp_tables \<Rightarrow> def_id \<Rightarrow> nat option" where
  "get_trait_associated_type_index R T assoc_did =
     Option.bind (tb_trait_of_assoc T assoc_did) (\<lambda>trait_did. position_of assoc_did (get_trait_assoc_types R T trait_did))"

definition is_method_did :: "comp_tables \<Rightarrow> def_id \<Rightarrow> bool" where
  "is_method_did T did \<longleftrightarrow>
     (if tb_is_trait T did then False
      else if tb_trait_of_assoc T did \<noteq> None then tb_assoc_tag T did = AssocFn
      else case tb_type_of T did of TyFnDef _ _ \<Rightarrow> True | _ \<Rightarrow> False)"

definition trait_impl_of_method :: "comp_tables \<Rightarrow> def_id \<Rightarrow> def_id option" where
  "trait_impl_of_method T method_did =
     Option.bind (tb_impl_of_assoc T method_did) (\<lambda>impl_did. if tb_impl_is_of_trait T impl_did then Some impl_did else None)"

text \<open>
  The constraints a caller bound puts on the associated types of a trait reference: a projection of the same trait
  with the same arguments. A later bound replaces an earlier one.
\<close>

record projection_bound =
  pb_trait :: def_id
  pb_assoc :: def_id
  pb_args :: "generic_arg list"
  pb_term :: "ty option"                 \<comment> \<open>\<^term>\<open>None\<close>: a constant, on which the code panics\<close>

definition assoc_constraint_step ::
  "rc_env \<Rightarrow> comp_tables \<Rightarrow> trait_ref \<Rightarrow> projection_bound \<Rightarrow> (nat \<rightharpoonup> ty) \<Rightarrow> (nat \<rightharpoonup> ty) option" where
  "assoc_constraint_step R T tref p m =
     (if trait_def_id tref = pb_trait p \<and> trait_args tref = pb_args p then
        Option.bind (get_trait_associated_type_index R T (pb_assoc p)) (\<lambda>idx. map_option (\<lambda>t. m(idx \<mapsto> t)) (pb_term p))
      else Some m)"

definition get_trait_assoc_constraints ::
  "rc_env \<Rightarrow> comp_tables \<Rightarrow> projection_bound list \<Rightarrow> trait_ref \<Rightarrow> ty option list option" where
  "get_trait_assoc_constraints R T bounds tref =
     map_option (\<lambda>m. map m [0..<length (get_trait_assoc_types R T (trait_def_id tref))])
       (fold_opt (assoc_constraint_step R T tref) bounds Map.empty)"

section \<open>The items of a crate\<close>

text \<open>\<open>CollectPrustiSpecVisitor\<close> over the items, the items of implementations and those of traits.\<close>

datatype hir_item =
    ItemFn def_id | ItemConst def_id | ItemStatic def_id | ItemMod def_id | ItemTrait def_id
  | ItemImpl def_id bool          \<comment> \<open>of a trait\<close>
  | ItemOther

datatype impl_item = ImplFn def_id | ImplOther
datatype trait_item = TraitRequiredFn def_id | TraitProvidedFn def_id | TraitOther

record collected =
  co_functions :: "def_id list"
  co_modules :: "def_id list"
  co_statics :: "def_id list"
  co_consts :: "def_id list"
  co_traits :: "def_id list"
  co_trait_impls :: "def_id list"

definition visit_item :: "hir_item \<Rightarrow> collected \<Rightarrow> collected" where
  "visit_item i c =
     (case i of
        ItemFn d \<Rightarrow> c\<lparr>co_functions := co_functions c @ [d]\<rparr>
      | ItemConst d \<Rightarrow> c\<lparr>co_consts := co_consts c @ [d]\<rparr>
      | ItemStatic d \<Rightarrow> c\<lparr>co_statics := co_statics c @ [d]\<rparr>
      | ItemMod d \<Rightarrow> c\<lparr>co_modules := co_modules c @ [d]\<rparr>
      | ItemTrait d \<Rightarrow> c\<lparr>co_traits := co_traits c @ [d]\<rparr>
      | ItemImpl d of_trait \<Rightarrow> if of_trait then c\<lparr>co_trait_impls := co_trait_impls c @ [d]\<rparr> else c
      | ItemOther \<Rightarrow> c)"

definition visit_impl_item :: "impl_item \<Rightarrow> collected \<Rightarrow> collected" where
  "visit_impl_item i c = (case i of ImplFn d \<Rightarrow> c\<lparr>co_functions := co_functions c @ [d]\<rparr> | ImplOther \<Rightarrow> c)"

definition visit_trait_item :: "trait_item \<Rightarrow> collected \<Rightarrow> collected" where
  "visit_trait_item i c = (case i of TraitProvidedFn d \<Rightarrow> c\<lparr>co_functions := co_functions c @ [d]\<rparr> | _ \<Rightarrow> c)"

definition collect_items :: "hir_item list \<Rightarrow> impl_item list \<Rightarrow> trait_item list \<Rightarrow> collected" where
  "collect_items items impl_items trait_items =
     fold visit_trait_item trait_items (fold visit_impl_item impl_items (fold visit_item items
       \<lparr>co_functions = [], co_modules = [], co_statics = [], co_consts = [], co_traits = [], co_trait_impls = []\<rparr>))"

section \<open>Laws\<close>

lemma walk_no_items [simp]: "walk_modules T path [] = Some None" "walk_to_method T path [] = Some None"
  by (induction path) auto

text \<open>The path of a definition: each segment names the first item of that name in its module.\<close>

inductive path_leads :: "comp_tables \<Rightarrow> mod_child list \<Rightarrow> string list \<Rightarrow> def_id \<Rightarrow> bool" for T where
  last_segment: "List.find (\<lambda>c. mc_name c = seg) items = Some c \<Longrightarrow> mc_res c = Some d \<Longrightarrow> path_leads T items [seg] d"
| next_segment:
    "List.find (\<lambda>c. mc_name c = seg) items = Some c \<Longrightarrow> mc_res c = Some m \<Longrightarrow> path_leads T (tb_module_children T m) path d
      \<Longrightarrow> path_leads T items (seg # path) d"

lemma walk_modules_sound: "walk_modules T path items = Some (Some d) \<Longrightarrow> path_leads T items path d"
  by (induction T path items rule: walk_modules.induct)
    (auto intro: path_leads.intros split: option.splits if_splits)

lemma walk_modules_complete: "path_leads T items path d \<Longrightarrow> walk_modules T path items = Some (Some d)"
proof (induction rule: path_leads.induct)
  case (next_segment seg items c m path d)
  from next_segment.hyps(3) have "path \<noteq> []" by (auto elim: path_leads.cases)
  with next_segment show ?case by simp
qed simp

text \<open>A method path that no module leads to and that has fewer than three components panics.\<close>

lemma short_method_path_panics:
  assumes "try_resolve_method_did_direct T path = Some None" and "length path < 3" and "hd path \<noteq> ''std''"
  shows "try_resolve_method_did T path = None"
  using assms by (cases path) (auto simp: try_resolve_method_did_def try_resolve_method_did_incoherent_def)

lemma fold_blanket_steps:
  assumes "\<forall>d \<in> set defs. impl_args_unify T ref_args d Map.empty \<noteq> None"
  shows "fold_opt (blanket_step T ref_args) defs solution =
    Some (case solution of Some d \<Rightarrow> Some d | None \<Rightarrow> List.find (\<lambda>d. impl_args_unify T ref_args d Map.empty = Some True) defs)"
  using assms
proof (induction defs arbitrary: solution)
  case (Cons d defs)
  then obtain b where "impl_args_unify T ref_args d Map.empty = Some b" by auto
  with Cons show ?case by (cases solution) (auto simp: blanket_step_def keep_first_def)
qed (simp split: option.split)

text \<open>A blanket implementation is the first whose arguments unify.\<close>

lemma blanket_impl_first:
  assumes "\<forall>d \<in> set (tb_blanket_impls T trait_did). impl_args_unify T ref_args d Map.empty \<noteq> None"
  shows "try_resolve_trait_impl_did T trait_did ref_args (TyParam i n) =
    Some (List.find (\<lambda>d. impl_args_unify T ref_args d Map.empty = Some True) (tb_blanket_impls T trait_did))"
  by (simp add: try_resolve_trait_impl_did_def fold_blanket_steps [OF assms])

text \<open>
  What is found fits: one renaming makes the type and the arguments the same as those of the implementation (the
  code keeps both directions in one map).
\<close>

definition impl_fits :: "comp_tables \<Rightarrow> ty \<Rightarrow> generic_arg option list \<Rightarrow> def_id \<Rightarrow> bool" where
  "impl_fits T for_type ref_args d \<longleftrightarrow>
     (\<exists>r u a as. tb_impl_self_ty T d = Some u \<and> tb_impl_trait_args T d = Some (a # as) \<and> same_ty r for_type u
        \<and> length as = length ref_args \<and> list_all (type_position r) (zip as ref_args))"

lemma non_blanket_step_fits:
  assumes step: "non_blanket_step T for_type ref_args d (sol, m) = Some (sol', m')" and m: "param_map m"
  shows "param_map m' \<and> (sol' = sol \<or> sol' = Some d \<and> impl_fits T for_type ref_args d)"
proof -
  from step obtain u ok m1 where u: "tb_impl_self_ty T d = Some u" "unify_types for_type u m = (ok, m1)"
    by (cases "tb_impl_self_ty T d") (auto simp: non_blanket_step_def, metis surj_pair)
  with unify_result(1) [OF m] have one: "least_renaming (\<lambda>r. same_ty r for_type u) m (ok, m1)" by metis
  then have m1: "param_map m1" by (simp add: least_renaming_def)
  show ?thesis
  proof (cases ok)
    case False
    with step u m1 show ?thesis by (simp add: non_blanket_step_def)
  next
    case True
    with step u obtain a as where as: "tb_impl_trait_args T d = Some (a # as)" and m': "m' = m1"
      and sol': "sol' = (if fst (args_unify_types as ref_args m1) then keep_first d sol else sol)"
      by (auto simp: non_blanket_step_def impl_args_unify_def split: option.splits list.splits)
    obtain ok2 m2 where two: "args_unify_types as ref_args m1 = (ok2, m2)" by fastforce
    with args_unify_types_result [OF m1, of as ref_args]
    have two': "least_renaming (\<lambda>r. length as = length ref_args \<and> list_all (type_position r) (zip as ref_args)) m1 (ok2, m2)"
      by simp
    have "impl_fits T for_type ref_args d" if ok2
    proof -
      from one True have "same_ty (renaming_of m1) for_type u" by (simp add: least_renaming_def)
      moreover from two' have "renaming_of m1 \<subseteq>\<^sub>m renaming_of m2" by (simp add: least_renaming_def)
      ultimately have "same_ty (renaming_of m2) for_type u" by (rule same_mono(1))
      with two' that u(1) as show ?thesis unfolding impl_fits_def least_renaming_def by auto
    qed
    with sol' two m' m1 show ?thesis by (cases sol) (auto simp: keep_first_def)
  qed
qed

lemma non_blanket_fits:
  assumes "fold_opt (non_blanket_step T for_type ref_args) defs (sol, m) = Some (sol', m')" and "param_map m"
  shows "sol' = sol \<or> (\<exists>d \<in> set defs. sol' = Some d \<and> impl_fits T for_type ref_args d)"
  using assms
proof (induction defs arbitrary: sol m)
  case (Cons d defs)
  then obtain sol1 m1 where one: "non_blanket_step T for_type ref_args d (sol, m) = Some (sol1, m1)"
    and rest: "fold_opt (non_blanket_step T for_type ref_args) defs (sol1, m1) = Some (sol', m')"
    by (auto split: option.splits)
  from non_blanket_step_fits [OF one Cons.prems(2)] Cons.IH [OF rest] show ?case by auto
qed simp

lemma non_blanket_impl_fits:
  assumes "try_resolve_trait_impl_did T trait_did ref_args for_type = Some (Some d)" and "\<forall>i n. for_type \<noteq> TyParam i n"
  shows "impl_fits T for_type ref_args d"
proof -
  from assms obtain defs m where "fold_opt (non_blanket_step T for_type ref_args) defs (None, Map.empty) = Some (Some d, m)"
    by (cases for_type) (auto simp: try_resolve_trait_impl_did_def split: option.splits)
  from non_blanket_fits [OF this] show ?thesis by (simp add: param_map_def)
qed

text \<open>
  Two implementations that fit and are not found. The map is not emptied after a candidate: the entry for parameter 0
  made for the first implementation hides the second. And it is used in both directions: the type sends its
  parameter 0 to parameter 1 of the implementation, which sends its own parameter 0 to the arguments.
\<close>

definition search_tables :: "(ty \<times> generic_arg list) list \<Rightarrow> comp_tables" where
  "search_tables impls =
     \<lparr>tb_crates = [0], tb_crate_name = (\<lambda>_. ''core''), tb_crate_root = (\<lambda>_. 0),
      tb_module_children = (\<lambda>d. if d = 0 then [\<lparr>mc_name = ''ops'', mc_res = Some 1\<rparr>]
                             else [\<lparr>mc_name = ''Fn'', mc_res = Some 2\<rparr>, \<lparr>mc_name = ''FnMut'', mc_res = Some 3\<rparr>]),
      tb_inherent_impls = (\<lambda>_. []), tb_associated_items = (\<lambda>_. []), tb_assoc_tag = (\<lambda>_. AssocFn),
      tb_simplify_rigid = (\<lambda>_. Some 0), tb_simplify_infer = (\<lambda>_. Some 0), tb_incoherent_impls = (\<lambda>_. []),
      tb_blanket_impls = (\<lambda>_. []), tb_non_blanket_impls = (\<lambda>_ _. Some [0..<length impls]),
      tb_impl_trait_args = (\<lambda>d. Some (snd (impls ! d))), tb_impl_self_ty = (\<lambda>d. Some (fst (impls ! d))),
      tb_attributes = (\<lambda>_. []), tb_is_trait = (\<lambda>_. False), tb_impl_of_assoc = (\<lambda>_. None), tb_trait_of_assoc = (\<lambda>_. None),
      tb_impl_is_of_trait = (\<lambda>_. False), tb_parent = (\<lambda>d. d), tb_opt_parent = (\<lambda>_. None), tb_type_of = (\<lambda>_. TyNever),
      tb_last_path_name = (\<lambda>_. None), tb_closure_kind = (\<lambda>_. ClosureFn), tb_local_ty = (\<lambda>_ _. None)\<rparr>"

abbreviation adt2 :: "ty \<Rightarrow> ty \<Rightarrow> ty" where
  "adt2 t u \<equiv> TyAdt 9 [ArgType t, ArgType u]"

lemma shared_map_hides_impl:
  "try_resolve_trait_impl_did
     (search_tables [(adt2 (TyParam 0 ''A'') TyBool, [ArgType TyNever]), (adt2 (TyParam 1 ''B'') (TyParam 0 ''A''), [ArgType TyNever])])
     5 [] (adt2 (TyParam 0 ''T'') (TyParam 1 ''U'')) = Some None"
  "try_resolve_trait_impl_did (search_tables [(adt2 (TyParam 1 ''B'') (TyParam 0 ''A''), [ArgType TyNever])])
     5 [] (adt2 (TyParam 0 ''T'') (TyParam 1 ''U'')) = Some (Some 0)"
  by code_simp+

lemma mixed_directions_hide_impl:
  "try_resolve_trait_impl_did
     (search_tables [(TyRawPtr (TyParam 1 ''B'') 0, [ArgType TyNever, ArgType (TyParam 0 ''A'')])])
     5 [Some (ArgType (TyParam 2 ''V''))] (TyRawPtr (TyParam 0 ''T'') 0) = Some None"
  by code_simp

lemma short_path_panics: "try_resolve_method_did (search_tables []) [''core'', ''bool''] = None"
  by code_simp

text \<open>The order of associated items is the one of the comparison of definitions, and no item is lost.\<close>

lemma sort_assoc_items_sorted:
  "mset (sort_assoc_items R items) = mset items"
  "sorted_wrt (\<lambda>a b. rc_cmp_defid R (ai_def_id a) (ai_def_id b) \<noteq> Some Greater) (sort_assoc_items R items)"
proof -
  show "mset (sort_assoc_items R items) = mset items" by (simp add: sort_assoc_items_def)
  let ?k = "\<lambda>i. path_rank R (exported R (ai_def_id i))"
  have "sorted_wrt (\<lambda>a b. ?k a \<le> ?k b) (sort_assoc_items R items)"
    using sorted_sort_key [of ?k items] by (simp add: sort_assoc_items_def sorted_map)
  then show "sorted_wrt (\<lambda>a b. rc_cmp_defid R (ai_def_id a) (ai_def_id b) \<noteq> Some Greater) (sort_assoc_items R items)"
    by (rule sorted_wrt_mono_rel [rotated]) (auto simp: rc_cmp_defid_def cmp_val_def)
qed

lemma position_of_nth: "position_of x xs = Some i \<Longrightarrow> i < length xs \<and> xs ! i = x"
  by (induction xs arbitrary: i) (auto split: if_splits)

text \<open>The attributes of a function are found when closures are nested to a finite depth.\<close>

lemma get_attributes_of_function_returns:
  assumes "\<And>d. is_closure T d \<Longrightarrow> (depth (tb_parent T d) :: nat) < depth d"
  shows "get_attributes_of_function hotword T propagate did \<noteq> None"
proof (induction "depth did" arbitrary: did rule: less_induct)
  case less
  show ?case
  proof (cases "is_closure T did")
    case True
    with less [OF assms [OF True]] show ?thesis by (subst get_attributes_of_function.simps) auto
  qed (subst get_attributes_of_function.simps, simp)
qed

text \<open>Every function with a body is collected once, in the order free functions, methods of implementations, provided methods.\<close>

lemma collected_functions:
  "co_functions (collect_items items impl_items trait_items) =
     concat (map (\<lambda>i. case i of ItemFn d \<Rightarrow> [d] | _ \<Rightarrow> []) items)
     @ concat (map (\<lambda>i. case i of ImplFn d \<Rightarrow> [d] | _ \<Rightarrow> []) impl_items)
     @ concat (map (\<lambda>i. case i of TraitProvidedFn d \<Rightarrow> [d] | _ \<Rightarrow> []) trait_items)"
proof -
  have items: "co_functions (fold visit_item xs c) = co_functions c @ concat (map (\<lambda>i. case i of ItemFn d \<Rightarrow> [d] | _ \<Rightarrow> []) xs)"
    for xs c by (induction xs arbitrary: c) (simp_all add: visit_item_def split: hir_item.split)
  have impls: "co_functions (fold visit_impl_item xs c) = co_functions c @ concat (map (\<lambda>i. case i of ImplFn d \<Rightarrow> [d] | _ \<Rightarrow> []) xs)"
    for xs c by (induction xs arbitrary: c) (simp_all add: visit_impl_item_def split: impl_item.split)
  have traits: "co_functions (fold visit_trait_item xs c) =
      co_functions c @ concat (map (\<lambda>i. case i of TraitProvidedFn d \<Rightarrow> [d] | _ \<Rightarrow> []) xs)"
    for xs c by (induction xs arbitrary: c) (simp_all add: visit_trait_item_def split: trait_item.split)
  show ?thesis by (simp add: collect_items_def items impls traits)
qed

end
