(* ===== verification/TraitRequirements.thy ===== *)
theory TraitRequirements
  imports DefQueries DefOrder
begin

text \<open>
  The trait requirements of an item, in an order that is stable across compilations:
  \<open>translation/src/traits/requirements.rs\<close>. The requirements are ordered by the dependencies of their traits with
  the crate \<open>topological_sort\<close> (locale \<open>topological_sort\<close>), and each level is sorted by the comparison of
  \<open>rustcmp.rs\<close>. That comparison is no linear order, so the result of the sort is a parameter that may panic.
\<close>

section \<open>Bounds\<close>

datatype bound_variable = RegionVariable nat | OtherVariable

datatype clause =
    TraitClause bool trait_ref            \<comment> \<open>of positive polarity\<close>
  | ProjectionClause projection_bound
  | OtherClause

record bound_clause =
  bc_bound_vars :: "bound_variable list"
  bc_binders :: nat
  bc_kind :: clause

record requirement =
  rq_trait_ref :: trait_ref
  rq_bound_regions :: "nat list"
  rq_binders :: nat

datatype ty_param_origin = SurroundingTrait | SurroundingImpl | DirectParam | AssocInDecl

record trait_req_meta =
  rm_requirement :: requirement
  rm_origin :: ty_param_origin
  rm_is_used_in_self_trait :: bool
  rm_is_self_in_trait_decl :: bool
  rm_assoc_constraints :: "ty option list"

record 's requirement_env =
  re_tables :: comp_tables
  re_rc :: rc_env
  re_bounds :: "def_id \<Rightarrow> bound_clause list"                  \<comment> \<open>\<open>param_env(did).caller_bounds()\<close>\<close>
  re_bounds_post_analysis :: "def_id \<Rightarrow> bound_clause list"
  re_topo :: "'s topo_ops"
  re_sort_by :: "(requirement \<Rightarrow> requirement \<Rightarrow> ordering option) \<Rightarrow> requirement list \<Rightarrow> requirement list option"

section \<open>Collecting\<close>

fun bound_regions :: "bound_variable list \<Rightarrow> nat list option" where
  "bound_regions [] = Some []"
| "bound_regions (RegionVariable r # vs) = map_option (Cons r) (bound_regions vs)"
| "bound_regions (OtherVariable # vs) = None"

definition is_builtin_trait :: "comp_tables \<Rightarrow> def_id \<Rightarrow> bool option option" where
  "is_builtin_trait T =
     is_one_of T [[''core'', ''marker'', ''Sized''], [''core'', ''marker'', ''MetaSized''], [''core'', ''marker'', ''Tuple''],
                  [''core'', ''marker'', ''Destruct''], [''core'', ''ptr'', ''Pointee''], [''core'', ''ptr'', ''metadata'', ''Thin'']]"

text \<open>A trait is filtered only when all built-in traits were found.\<close>

definition collect_requirement :: "comp_tables \<Rightarrow> bound_clause \<Rightarrow> requirement list \<Rightarrow> requirement list option" where
  "collect_requirement T cl refs =
     Option.bind (bound_regions (bc_bound_vars cl)) (\<lambda>regions.
       case bc_kind cl of
         TraitClause True r \<Rightarrow>
           map_option (\<lambda>builtin. if builtin = Some True then refs
               else refs @ [\<lparr>rq_trait_ref = r, rq_bound_regions = regions, rq_binders = bc_binders cl\<rparr>])
             (is_builtin_trait T (trait_def_id r))
       | _ \<Rightarrow> Some refs)"

definition collect_requirements :: "comp_tables \<Rightarrow> bound_clause list \<Rightarrow> requirement list option" where
  "collect_requirements T clauses = fold_opt (collect_requirement T) clauses []"

section \<open>Ordering\<close>

definition trait_get_deps :: "'s requirement_env \<Rightarrow> def_id \<Rightarrow> def_id list" where
  "trait_get_deps E trait_did =
     concat (map (\<lambda>cl. case bc_kind cl of
         TraitClause True r \<Rightarrow> if trait_def_id r \<noteq> trait_did then [trait_def_id r] else []
       | _ \<Rightarrow> []) (re_bounds E trait_did))"

definition add_requirement_deps ::
  "'s requirement_env \<Rightarrow> requirement list \<Rightarrow> nat \<Rightarrow> def_id \<Rightarrow> 's \<Rightarrow> 's" where
  "add_requirement_deps E refs idx did topo =
     fold (\<lambda>(idxb, b) topo. if trait_def_id (rq_trait_ref b) = did then topo_add_dependency (re_topo E) idxb idx topo else topo)
       (enumerate 0 refs) topo"

definition requirement_graph :: "'s requirement_env \<Rightarrow> requirement list \<Rightarrow> 's" where
  "requirement_graph E refs =
     fold (\<lambda>(idx, a) topo.
         fold (add_requirement_deps E refs idx) (trait_get_deps E (trait_def_id (rq_trait_ref a))) (topo_insert (re_topo E) idx topo))
       (enumerate 0 refs) (topo_new (re_topo E))"

definition requirement_cmp :: "'s requirement_env \<Rightarrow> def_id option \<Rightarrow> requirement \<Rightarrow> requirement \<Rightarrow> ordering option" where
  "requirement_cmp E in_trait_decl a b = rc_cmp_trait_ref (re_rc E) in_trait_decl (rq_trait_ref a) (rq_trait_ref b)"

text \<open>
  The loop that pops the levels. The outer \<^term>\<open>None\<close> means that it does not return, the inner one that it panics:
  there is no test for an empty level.
\<close>

partial_function (option) order_requirements ::
  "'s requirement_env \<Rightarrow> def_id option \<Rightarrow> requirement list \<Rightarrow> 's \<Rightarrow> requirement list \<Rightarrow> requirement list option option" where
  "order_requirements E in_trait_decl refs topo defn_order =
     (if topo_is_empty (re_topo E) topo then Some (Some defn_order)
      else (case topo_pop_all (re_topo E) topo of (nxt, topo') \<Rightarrow>
        case Option.bind (those (map (vec_get refs) nxt))
            (re_sort_by E (requirement_cmp E in_trait_decl)) of
          None \<Rightarrow> Some None
        | Some next_refs \<Rightarrow> order_requirements E in_trait_decl refs topo' (defn_order @ next_refs)))"

definition get_nontrivial ::
  "'s requirement_env \<Rightarrow> bound_clause list \<Rightarrow> def_id option \<Rightarrow> requirement list option option" where
  "get_nontrivial E clauses in_trait_decl =
     (case collect_requirements (re_tables E) clauses of
        None \<Rightarrow> Some None
      | Some refs \<Rightarrow> order_requirements E in_trait_decl refs (requirement_graph E refs) [])"

section \<open>Requirements and their origin\<close>

definition determine_origin_of_trait_requirement ::
  "comp_tables \<Rightarrow> def_id \<Rightarrow> trait_ref list option \<Rightarrow> trait_ref \<Rightarrow> ty_param_origin" where
  "determine_origin_of_trait_requirement T did surrounding_reqs req =
     (case surrounding_reqs of
        Some reqs \<Rightarrow>
          if req \<in> set reqs then (if tb_trait_of_assoc T did \<noteq> None then SurroundingTrait else SurroundingImpl)
          else DirectParam
      | None \<Rightarrow> DirectParam)"

definition surrounding_requirements :: "'s requirement_env \<Rightarrow> def_id \<Rightarrow> trait_ref list option option option" where
  "surrounding_requirements E did =
     (let reqs_of = \<lambda>d. map_option (map_option (\<lambda>rs. Some (map rq_trait_ref rs))) (get_nontrivial E (re_bounds E d) None) in
      case tb_trait_of_assoc (re_tables E) did of
        Some trait_did \<Rightarrow> reqs_of trait_did
      | None \<Rightarrow> (case trait_impl_of_method (re_tables E) did of Some impl_did \<Rightarrow> reqs_of impl_did | None \<Rightarrow> Some (Some None)))"

definition projection_bounds :: "bound_clause list \<Rightarrow> projection_bound list" where
  "projection_bounds clauses = concat (map (\<lambda>cl. case bc_kind cl of ProjectionClause p \<Rightarrow> [p] | _ \<Rightarrow> []) clauses)"

text \<open>\<open>trait_ref.args[0].as_type().unwrap().is_param(0)\<close>\<close>

definition first_arg_is_self :: "trait_ref \<Rightarrow> bool option" where
  "first_arg_is_self r = (case trait_args r of ArgType t # _ \<Rightarrow> Some (is_param t 0) | _ \<Rightarrow> None)"

definition annotate_requirement ::
  "'s requirement_env \<Rightarrow> def_id \<Rightarrow> def_id option \<Rightarrow> trait_ref list option \<Rightarrow> requirement \<Rightarrow> trait_req_meta option" where
  "annotate_requirement E did in_trait_decl surrounding_reqs req =
     (let r = rq_trait_ref req in
      Option.bind (first_arg_is_self r) (\<lambda>is_self.
        let is_used_in_self_trait = (in_trait_decl = Some (trait_def_id r) \<and> is_self) in
        map_option (\<lambda>constraints.
            \<lparr>rm_requirement = req,
             rm_origin = determine_origin_of_trait_requirement (re_tables E) did surrounding_reqs r,
             rm_is_used_in_self_trait = is_used_in_self_trait,
             rm_is_self_in_trait_decl = (tb_is_trait (re_tables E) did \<and> is_used_in_self_trait \<and> is_self),
             rm_assoc_constraints = constraints\<rparr>)
          (get_trait_assoc_constraints (re_rc E) (re_tables E) (projection_bounds (re_bounds_post_analysis E did)) r)))"

definition get_trait_requirements_with_origin ::
  "'s requirement_env \<Rightarrow> def_id \<Rightarrow> trait_req_meta list option option" where
  "get_trait_requirements_with_origin E did =
     (let in_trait_decl = (if tb_is_trait (re_tables E) did then Some did else tb_trait_of_assoc (re_tables E) did) in
      case surrounding_requirements E did of
        None \<Rightarrow> None
      | Some None \<Rightarrow> Some None
      | Some (Some surrounding_reqs) \<Rightarrow>
          map_option (\<lambda>reqs. Option.bind reqs (\<lambda>reqs. those (map (annotate_requirement E did in_trait_decl surrounding_reqs) reqs)))
            (get_nontrivial E (re_bounds_post_analysis E did) in_trait_decl))"

section \<open>Laws\<close>

text \<open>
  What \<open>slice::sort_by\<close> documents: it keeps the elements, and it may panic when the comparison panics or is no total
  order. The comparison of this file is neither total nor an order for all arguments, so no more is assumed.
\<close>

definition total_comparison :: "('a \<Rightarrow> 'a \<Rightarrow> ordering option) \<Rightarrow> 'a set \<Rightarrow> bool" where
  "total_comparison cmp X \<longleftrightarrow>
     (\<forall>a \<in> X. \<forall>b \<in> X. cmp a b \<noteq> None
        \<and> (cmp a b = Some Less \<longleftrightarrow> cmp b a = Some Greater) \<and> (cmp a b = Some Equal \<longleftrightarrow> cmp b a = Some Equal))
     \<and> (\<forall>a \<in> X. \<forall>b \<in> X. \<forall>c \<in> X. cmp a b \<noteq> Some Greater \<longrightarrow> cmp b c \<noteq> Some Greater \<longrightarrow> cmp a c \<noteq> Some Greater)"

definition sorts_by :: "(('a \<Rightarrow> 'a \<Rightarrow> ordering option) \<Rightarrow> 'a list \<Rightarrow> 'a list option) \<Rightarrow> bool" where
  "sorts_by sorter \<longleftrightarrow>
     (\<forall>cmp xs ys. sorter cmp xs = Some ys \<longrightarrow> mset ys = mset xs) \<and>
     (\<forall>cmp xs. total_comparison cmp (set xs) \<longrightarrow> sorter cmp xs \<noteq> None)"

lemma total_comparison_subset: "total_comparison cmp X \<Longrightarrow> Y \<subseteq> X \<Longrightarrow> total_comparison cmp Y"
  unfolding total_comparison_def by blast

text \<open>The dependencies between the positions of a list of requirements.\<close>

definition requirement_edges :: "'s requirement_env \<Rightarrow> requirement list \<Rightarrow> (nat \<times> nat) set" where
  "requirement_edges E refs =
     {(ib, ia). ia < length refs \<and> ib < length refs
        \<and> trait_def_id (rq_trait_ref (refs ! ib)) \<in> set (trait_get_deps E (trait_def_id (rq_trait_ref (refs ! ia))))}"

text \<open>Each requirement stands after those whose traits its own trait depends on.\<close>

definition prerequisites_first :: "'s requirement_env \<Rightarrow> requirement list \<Rightarrow> bool" where
  "prerequisites_first E ys \<longleftrightarrow>
     (\<forall>as r bs q. ys = as @ r # bs \<longrightarrow> q \<in> set ys
        \<longrightarrow> trait_def_id (rq_trait_ref q) \<in> set (trait_get_deps E (trait_def_id (rq_trait_ref r))) \<longrightarrow> q \<in> set as)"

definition prior_reqs :: "'s requirement_env \<Rightarrow> requirement list \<Rightarrow> requirement \<Rightarrow> (nat \<times> requirement) set" where
  "prior_reqs E refs a =
     {x \<in> set (enumerate 0 refs). trait_def_id (rq_trait_ref (snd x)) \<in> set (trait_get_deps E (trait_def_id (rq_trait_ref a)))}"

lemma mset_map_preimage: "mset ys = mset (map f xs) \<Longrightarrow> \<exists>xs'. mset xs' = mset xs \<and> ys = map f xs'"
proof (induction ys arbitrary: xs)
  case (Cons y ys)
  then have "y \<in> f ` set xs" by (metis list.set_intros(1) list.set_map mset_eq_setD)
  then obtain x where x: "x \<in> set xs" "y = f x" by blast
  with Cons.prems have "mset ys = mset (map f (remove1 x xs))"
    by (auto simp: image_mset_Diff) (metis add_mset_remove_trivial)
  from Cons.IH [OF this] obtain xs' where "mset xs' = mset (remove1 x xs)" "ys = map f xs'" by blast
  with x show ?case by (intro exI [of _ "x # xs'"]) (simp add: insert_DiffM)
qed simp

lemma those_vec_get: "those (map (vec_get refs) is) = Some rs \<Longrightarrow> rs = map ((!) refs) is \<and> set is \<subseteq> {..<length refs}"
  by (induction "is" arbitrary: rs) (auto simp: vec_get_def split: option.splits if_splits)

lemma level_elements: "those (map (vec_get refs) nxt) = Some rs \<Longrightarrow> set rs \<subseteq> set refs"
  using those_vec_get [of refs nxt rs] by (auto simp: subset_iff)

lemma those_vec_get_in_range: "set is \<subseteq> {..<length refs} \<Longrightarrow> those (map (vec_get refs) is) = Some (map ((!) refs) is)"
  by (induction "is") (auto simp: vec_get_def)

context topological_sort
begin

lemma add_deps_graph:
  "items (fold (\<lambda>(ib, b) t. if trait_def_id (rq_trait_ref b) = did then topo_add_dependency T ib ia t else t) ibs t)
      = items t \<union> (\<Union>x \<in> {x \<in> set ibs. trait_def_id (rq_trait_ref (snd x)) = did}. {fst x, ia})
    \<and> edges (fold (\<lambda>(ib, b) t. if trait_def_id (rq_trait_ref b) = did then topo_add_dependency T ib ia t else t) ibs t)
      = edges t \<union> (\<lambda>x. (fst x, ia)) ` {x \<in> set ibs. trait_def_id (rq_trait_ref (snd x)) = did}"
proof (induction ibs arbitrary: t)
  case (Cons x ibs)
  obtain ib b where x: "x = (ib, b)" by fastforce
  have split: "{y \<in> set (x # ibs). trait_def_id (rq_trait_ref (snd y)) = did} =
    (if trait_def_id (rq_trait_ref b) = did then {x} else {}) \<union> {y \<in> set ibs. trait_def_id (rq_trait_ref (snd y)) = did}"
    by (auto simp: x)
  show ?case
    unfolding split by (cases "trait_def_id (rq_trait_ref b) = did") (simp_all add: x Cons items_add edges_add ac_simps)
qed simp

lemma deps_graph:
  assumes "re_topo E = T"
  shows "items (fold (add_requirement_deps E refs ia) dids t) =
      items t \<union> (\<Union>x \<in> {x \<in> set (enumerate 0 refs). trait_def_id (rq_trait_ref (snd x)) \<in> set dids}. {fst x, ia})
    \<and> edges (fold (add_requirement_deps E refs ia) dids t) =
      edges t \<union> (\<lambda>x. (fst x, ia)) ` {x \<in> set (enumerate 0 refs). trait_def_id (rq_trait_ref (snd x)) \<in> set dids}"
proof (induction dids arbitrary: t)
  case (Cons did dids)
  have step: "items (add_requirement_deps E refs ia did t) =
      items t \<union> (\<Union>x \<in> {x \<in> set (enumerate 0 refs). trait_def_id (rq_trait_ref (snd x)) = did}. {fst x, ia})"
    "edges (add_requirement_deps E refs ia did t) =
      edges t \<union> (\<lambda>x. (fst x, ia)) ` {x \<in> set (enumerate 0 refs). trait_def_id (rq_trait_ref (snd x)) = did}"
    unfolding add_requirement_deps_def assms by (simp_all only: add_deps_graph)
  have split: "{x \<in> set (enumerate 0 refs). trait_def_id (rq_trait_ref (snd x)) \<in> set (did # dids)} =
      {x \<in> set (enumerate 0 refs). trait_def_id (rq_trait_ref (snd x)) = did}
      \<union> {x \<in> set (enumerate 0 refs). trait_def_id (rq_trait_ref (snd x)) \<in> set dids}"
    by auto
  show ?case
    unfolding split by (simp add: Cons step image_Un Un_assoc)
qed simp

lemma requirements_graph_from:
  assumes T: "re_topo E = T"
  shows "items (fold (\<lambda>(idx, a) t. fold (add_requirement_deps E refs idx) (trait_get_deps E (trait_def_id (rq_trait_ref a)))
        (topo_insert T idx t)) ias t)
      = items t \<union> fst ` set ias \<union> (\<Union>(ia, a) \<in> set ias. \<Union>x \<in> prior_reqs E refs a. {fst x, ia})
    \<and> edges (fold (\<lambda>(idx, a) t. fold (add_requirement_deps E refs idx) (trait_get_deps E (trait_def_id (rq_trait_ref a)))
        (topo_insert T idx t)) ias t)
      = edges t \<union> (\<Union>(ia, a) \<in> set ias. (\<lambda>x. (fst x, ia)) ` prior_reqs E refs a)"
proof (induction ias arbitrary: t)
  case (Cons x ias)
  obtain ia a where x: "x = (ia, a)" by fastforce
  show ?case
    by (simp add: x Cons deps_graph [OF T] items_insert edges_insert prior_reqs_def ac_simps)
qed simp

lemma in_enumerate: "(i, x) \<in> set (enumerate 0 xs) \<longleftrightarrow> i < length xs \<and> x = xs ! i"
  by (auto simp: in_set_enumerate_eq)

lemma requirement_graph_items:
  assumes T: "re_topo E = T"
  shows "items (requirement_graph E refs) = {..<length refs}"
    and "edges (requirement_graph E refs) = requirement_edges E refs"
proof -
  have fst: "fst ` set (enumerate 0 refs) = {..<length refs}"
    using arg_cong [OF map_fst_enumerate [of 0 refs], of set] by (simp add: atLeast0LessThan del: map_fst_enumerate)
  have range: "ib < length refs" if "(ib, b) \<in> prior_reqs E refs a" for ib b a
    using that by (simp add: prior_reqs_def in_enumerate)
  note graph = requirements_graph_from [OF T, of refs "enumerate 0 refs" "topo_new T"]
  from graph have "items (requirement_graph E refs) = fst ` set (enumerate 0 refs) \<union>
      (\<Union>(ia, a) \<in> set (enumerate 0 refs). \<Union>x \<in> prior_reqs E refs a. {fst x, ia})"
    by (simp add: requirement_graph_def T items_new)
  moreover have "(\<Union>(ia, a) \<in> set (enumerate 0 refs). \<Union>x \<in> prior_reqs E refs a. {fst x, ia}) \<subseteq> {..<length refs}"
    by (auto simp: in_enumerate dest: range)
  ultimately show "items (requirement_graph E refs) = {..<length refs}" unfolding fst by (simp only: Un_absorb2)
  from graph have edges: "edges (requirement_graph E refs) =
      (\<Union>(ia, a) \<in> set (enumerate 0 refs). (\<lambda>x. (fst x, ia)) ` prior_reqs E refs a)"
    by (simp add: requirement_graph_def T edges_new)
  show "edges (requirement_graph E refs) = requirement_edges E refs"
  proof (intro set_eqI iffI; clarify)
    fix ib ia
    assume "(ib, ia) \<in> edges (requirement_graph E refs)"
    then show "(ib, ia) \<in> requirement_edges E refs"
      unfolding edges by (auto simp: in_enumerate prior_reqs_def requirement_edges_def)
  next
    fix ib ia
    assume "(ib, ia) \<in> requirement_edges E refs"
    then have "(ia, refs ! ia) \<in> set (enumerate 0 refs)" "(ib, refs ! ib) \<in> prior_reqs E refs (refs ! ia)"
      by (auto simp: in_enumerate prior_reqs_def requirement_edges_def)
    then show "(ib, ia) \<in> edges (requirement_graph E refs)" unfolding edges by force
  qed
qed

text \<open>Without a cycle, some element depends on no other.\<close>

lemma acyclic_pops:
  assumes "acyclic R" and "level_inv R N K topo acc" and "finite N" and "items topo \<noteq> {}"
  shows "fst (topo_pop_all T topo) \<noteq> []"
proof -
  have fin: "finite (items topo)" using assms(2) by (auto simp: level_inv_def intro: finite_subset [OF _ assms(3)])
  have "acyclic (R \<inter> items topo \<times> items topo)" using assms(1) by (rule acyclic_subset) simp
  then have "wf (R \<inter> items topo \<times> items topo)"
    by (rule finite_acyclic_wf [rotated]) (rule finite_subset [OF Int_lower2 finite_cartesian_product [OF fin fin]])
  moreover from assms(4) obtain x0 where "x0 \<in> items topo" by auto
  ultimately obtain x where x: "x \<in> items topo" "\<And>y. (y, x) \<in> R \<inter> items topo \<times> items topo \<Longrightarrow> y \<notin> items topo"
    by (rule wfE_min) blast
  have "(p, x) \<notin> edges topo" for p
  proof
    assume "(p, x) \<in> edges topo"
    with assms(2) have "(p, x) \<in> R" "p \<in> items topo" by (simp_all add: level_inv_def)
    with x show False by blast
  qed
  with x(1) have "x \<in> set (fst (topo_pop_all T topo))" by (simp add: pop_set)
  then show ?thesis by auto
qed

text \<open>The invariant of the loop: the order so far is the one of a list of positions.\<close>

definition ordered_so_far :: "'s requirement_env \<Rightarrow> requirement list \<Rightarrow> 's \<Rightarrow> requirement list \<Rightarrow> bool" where
  "ordered_so_far E refs topo acc \<longleftrightarrow>
     (\<exists>is. acc = map ((!) refs) is \<and> level_inv (requirement_edges E refs) {..<length refs} {..<length refs} topo is)"

lemma ordered_so_far_pop:
  assumes inv: "ordered_so_far E refs topo acc" and pop: "topo_pop_all T topo = (nxt, topo')"
    and perm: "mset rs = mset (map ((!) refs) nxt)"
  shows "ordered_so_far E refs topo' (acc @ rs)"
proof -
  from inv obtain "is" where acc: "acc = map ((!) refs) is"
    and lev: "level_inv (requirement_edges E refs) {..<length refs} {..<length refs} topo is"
    by (auto simp: ordered_so_far_def)
  from mset_map_preimage [OF perm] obtain js where js: "mset js = mset nxt" "rs = map ((!) refs) js" by blast
  have "requirement_edges E refs \<subseteq> {..<length refs} \<times> {..<length refs}" by (auto simp: requirement_edges_def)
  from level_inv_pop [OF lev this pop js(1)]
  have "level_inv (requirement_edges E refs) {..<length refs} {..<length refs} topo' (is @ filter (\<lambda>x. x \<in> {..<length refs}) js)" .
  moreover have "set js \<subseteq> {..<length refs}"
    using mset_eq_setD [OF js(1)] pop_set [of topo] pop lev by (auto simp: level_inv_def)
  then have "filter (\<lambda>x. x \<in> {..<length refs}) js = js" by (simp add: filter_id_conv subset_iff)
  ultimately show ?thesis unfolding ordered_so_far_def acc js(2) by (metis map_append)
qed

lemma ordered_start: "re_topo E = T \<Longrightarrow> ordered_so_far E refs (requirement_graph E refs) []"
  by (auto simp: ordered_so_far_def level_inv_def requirement_graph_items deps_first_def requirement_edges_def)

lemma level_in_range:
  assumes "ordered_so_far E refs topo acc" and "topo_pop_all T topo = (nxt, topo')"
  shows "those (map (vec_get refs) nxt) = Some (map ((!) refs) nxt)"
  using assms pop_set [of topo] by (intro those_vec_get_in_range) (auto simp: ordered_so_far_def level_inv_def)

lemma ordered_end:
  assumes "ordered_so_far E refs topo ys" and "items topo = {}"
  shows "mset ys = mset refs \<and> prerequisites_first E ys \<and> acyclic (requirement_edges E refs)"
proof -
  from assms obtain "is" where ys: "ys = map ((!) refs) is" and "is": "distinct is" "set is = {..<length refs}"
    and first: "deps_first (requirement_edges E refs) {..<length refs} is"
    by (auto simp: ordered_so_far_def level_inv_def)
  have "mset is = mset [0..<length refs]"
    using "is" by (subst set_eq_iff_mset_eq_distinct [symmetric]) (auto simp: atLeast0LessThan)
  then have "mset ys = mset (map ((!) refs) [0..<length refs])" unfolding ys mset_map by simp
  then have 1: "mset ys = mset refs" by (simp add: map_nth)
  have 2: "prerequisites_first E ys"
    unfolding prerequisites_first_def
  proof (intro allI impI)
    fix as r bs q
    assume split: "ys = as @ r # bs" and q: "q \<in> set ys"
      and dep: "trait_def_id (rq_trait_ref q) \<in> set (trait_get_deps E (trait_def_id (rq_trait_ref r)))"
    from split obtain ias d ibs where i: "is = ias @ d # ibs" "as = map ((!) refs) ias" "r = refs ! d"
      unfolding ys by (auto simp: map_eq_append_conv)
    from q obtain p where p: "p \<in> set is" "q = refs ! p" unfolding ys by auto
    with dep i "is"(2) have "(p, d) \<in> requirement_edges E refs" by (auto simp: requirement_edges_def)
    with first i(1) p(1) "is"(2) have "p \<in> set ias" unfolding deps_first_def by blast
    with i(2) p(2) show "q \<in> set as" by simp
  qed
  have "acyclic (requirement_edges E refs)"
    by (rule deps_first_acyclic [OF first _ "is"(2)]) (auto simp: requirement_edges_def)
  with 1 2 show ?thesis by blast
qed

lemma order_requirements_partial:
  assumes T: "re_topo E = T" and sort: "\<And>cmp xs ys. re_sort_by E cmp xs = Some ys \<Longrightarrow> mset ys = mset xs"
    and "order_requirements E decl refs topo acc = Some r" and "ordered_so_far E refs topo acc"
  shows "case r of Some ys \<Rightarrow> mset ys = mset refs \<and> prerequisites_first E ys \<and> acyclic (requirement_edges E refs)
    | None \<Rightarrow> \<exists>xs. set xs \<subseteq> set refs \<and> re_sort_by E (requirement_cmp E decl) xs = None"
proof -
  have "re_topo E' = T \<longrightarrow> (\<forall>cmp xs ys. re_sort_by E' cmp xs = Some ys \<longrightarrow> mset ys = mset xs)
    \<longrightarrow> ordered_so_far E' refs topo acc \<longrightarrow> (case r of
        Some ys \<Rightarrow> mset ys = mset refs \<and> prerequisites_first E' ys \<and> acyclic (requirement_edges E' refs)
      | None \<Rightarrow> \<exists>xs. set xs \<subseteq> set refs \<and> re_sort_by E' (requirement_cmp E' decl) xs = None)"
    if "order_requirements E' decl refs topo acc = Some r" for E' decl refs topo acc r
    using that
  proof (induction rule: order_requirements.raw_induct [rotated, consumes 1, case_names step])
    case (step rec E decl refs topo acc r)
    show ?case
    proof (intro impI)
      assume T: "re_topo E = T" and sort: "\<forall>cmp xs ys. re_sort_by E cmp xs = Some ys \<longrightarrow> mset ys = mset xs"
        and inv: "ordered_so_far E refs topo acc"
      obtain nxt topo' where pop: "topo_pop_all T topo = (nxt, topo')" by fastforce
      note range = level_in_range [OF inv pop]
      show "case r of Some ys \<Rightarrow> mset ys = mset refs \<and> prerequisites_first E ys \<and> acyclic (requirement_edges E refs)
        | None \<Rightarrow> \<exists>xs. set xs \<subseteq> set refs \<and> re_sort_by E (requirement_cmp E decl) xs = None"
      proof (cases "items topo = {}")
        case True
        with step(2) have "r = Some acc" by (simp add: T empty_iff)
        with ordered_end [OF inv True] show ?thesis by simp
      next
        case False
        show ?thesis
        proof (cases "re_sort_by E (requirement_cmp E decl) (map ((!) refs) nxt)")
          case None
          with step(2) False have "r = None" by (simp add: T empty_iff pop range)
          moreover have "set (map ((!) refs) nxt) \<subseteq> set refs" using level_elements [OF range] .
          ultimately show ?thesis using None by (simp only: option.case) blast
        next
          case (Some rs)
          with step(2) False have "rec E decl refs topo' (acc @ rs) = Some r" by (simp add: T empty_iff pop range)
          from step(1) [OF this] T sort ordered_so_far_pop [OF inv pop] Some show ?thesis by simp
        qed
      qed
    qed
  qed
  from this [OF assms(3)] T sort assms(4) show ?thesis by blast
qed

lemma order_requirements_returns:
  assumes T: "re_topo E = T" and sort: "\<And>cmp xs ys. re_sort_by E cmp xs = Some ys \<Longrightarrow> mset ys = mset xs"
    and acyclic: "acyclic (requirement_edges E refs)" and "ordered_so_far E refs topo acc"
  shows "order_requirements E decl refs topo acc \<noteq> None"
  using assms(4)
proof (induction "card (items topo)" arbitrary: topo acc rule: less_induct)
  case less
  obtain nxt topo' where pop: "topo_pop_all T topo = (nxt, topo')" by fastforce
  note range = level_in_range [OF less.prems pop]
  show ?case
  proof (cases "items topo = {}")
    case True
    then show ?thesis by (subst order_requirements.simps) (simp add: T empty_iff)
  next
    case False
    from less.prems obtain "is" where lev: "level_inv (requirement_edges E refs) {..<length refs} {..<length refs} topo is"
      by (auto simp: ordered_so_far_def)
    then have fin: "finite (items topo)" by (auto simp: level_inv_def intro: finite_subset)
    from acyclic_pops [OF acyclic lev _ False] pop have "nxt \<noteq> []" by simp
    then obtain x where "x \<in> set nxt" by (cases nxt) auto
    moreover have "set nxt \<subseteq> items topo" using pop_set [of topo] pop by auto
    ultimately have "items topo' \<subset> items topo" using items_pop [of topo] pop by auto
    with fin have smaller: "card (items topo') < card (items topo)" by (rule psubset_card_mono)
    show ?thesis
    proof (cases "re_sort_by E (requirement_cmp E decl) (map ((!) refs) nxt)")
      case None
      with False show ?thesis by (subst order_requirements.simps) (simp add: T empty_iff pop range)
    next
      case (Some rs)
      from less.hyps [OF smaller ordered_so_far_pop [OF less.prems pop sort [OF Some]]] False Some
      show ?thesis by (subst order_requirements.simps) (simp add: T empty_iff pop range)
    qed
  qed
qed

lemma get_nontrivial_spec:
  assumes T: "re_topo E = T" and sort: "sorts_by (re_sort_by E)"
    and refs: "collect_requirements (re_tables E) clauses = Some refs"
  shows "(acyclic (requirement_edges E refs) \<longrightarrow> get_nontrivial E clauses decl \<noteq> None)
    \<and> (\<forall>ys. get_nontrivial E clauses decl = Some (Some ys) \<longrightarrow>
         acyclic (requirement_edges E refs) \<and> mset ys = mset refs \<and> prerequisites_first E ys)
    \<and> (get_nontrivial E clauses decl = Some None \<longrightarrow> \<not> total_comparison (requirement_cmp E decl) (set refs))"
proof -
  have start: "get_nontrivial E clauses decl = order_requirements E decl refs (requirement_graph E refs) []"
    by (simp add: get_nontrivial_def refs)
  have perm: "re_sort_by E cmp xs = Some ys \<Longrightarrow> mset ys = mset xs" for cmp xs ys
    using sort by (simp add: sorts_by_def)
  have total: "\<not> total_comparison cmp (set refs)" if "set xs \<subseteq> set refs" "re_sort_by E cmp xs = None" for cmp xs
    using sort that total_comparison_subset unfolding sorts_by_def by blast
  show ?thesis
    using order_requirements_returns [OF T perm _ ordered_start [OF T], where decl = decl and refs = refs]
      order_requirements_partial [OF T perm _ ordered_start [OF T], where decl = decl and refs = refs] total
    unfolding start by (fastforce split: option.splits)
qed

end

section \<open>Properties\<close>

text \<open>
  C38. Ordering the requirements: an order that is returned contains each requirement as often as it was collected,
  after the requirements its trait depends on, and there is one only if the traits do not depend on each other in a
  cycle. Without a cycle the loop ends: with an order, or with the panic of a sort whose comparison is no total
  order. With a cycle there is no test for it, and where the comparison is a total order the loop pops empty levels
  for ever.
\<close>

theorem requirements_order:
  assumes topo: "topological_sort (re_topo E) items edges"
    and sort: "sorts_by (re_sort_by E)"
    and refs: "collect_requirements (re_tables E) clauses = Some refs"
  shows "(\<forall>ys. get_nontrivial E clauses decl = Some (Some ys)
         \<longrightarrow> acyclic (requirement_edges E refs) \<and> mset ys = mset refs \<and> prerequisites_first E ys)
    \<and> (acyclic (requirement_edges E refs) \<longrightarrow> get_nontrivial E clauses decl \<noteq> None)
    \<and> (total_comparison (requirement_cmp E decl) (set refs)
         \<longrightarrow> get_nontrivial E clauses decl \<noteq> Some None
           \<and> (get_nontrivial E clauses decl = None \<longleftrightarrow> \<not> acyclic (requirement_edges E refs)))"
  using topological_sort.get_nontrivial_spec [OF topo refl sort refs, where decl = decl]
  by (metis not_None_eq)

text \<open>A sort that panics with its comparison.\<close>

fun insert_by :: "('a \<Rightarrow> 'a \<Rightarrow> ordering option) \<Rightarrow> 'a \<Rightarrow> 'a list \<Rightarrow> 'a list option" where
  "insert_by cmp x [] = Some [x]"
| "insert_by cmp x (y # ys) =
     (case cmp x y of
        None \<Rightarrow> None
      | Some Greater \<Rightarrow> map_option (Cons y) (insert_by cmp x ys)
      | Some _ \<Rightarrow> Some (x # y # ys))"

fun insertion_sort :: "('a \<Rightarrow> 'a \<Rightarrow> ordering option) \<Rightarrow> 'a list \<Rightarrow> 'a list option" where
  "insertion_sort cmp [] = Some []"
| "insertion_sort cmp (x # xs) = Option.bind (insertion_sort cmp xs) (insert_by cmp x)"

lemma insert_by_mset: "insert_by cmp x ys = Some zs \<Longrightarrow> mset zs = add_mset x (mset ys)"
  by (induction ys arbitrary: zs) (auto split: option.splits ordering.splits)

lemma insert_by_total: "total_comparison cmp (insert x (set ys)) \<Longrightarrow> insert_by cmp x ys \<noteq> None"
proof (induction ys)
  case (Cons y ys)
  have "total_comparison cmp (insert x (set ys))"
    by (rule total_comparison_subset [OF Cons.prems]) auto
  moreover have "cmp x y \<noteq> None" using Cons.prems by (simp add: total_comparison_def)
  ultimately show ?case using Cons.IH by (auto split: option.split ordering.split)
qed simp

lemma insertion_sort_mset: "insertion_sort cmp xs = Some ys \<Longrightarrow> mset ys = mset xs"
  by (induction xs arbitrary: ys) (auto simp: bind_eq_Some_conv dest: insert_by_mset)

lemma insertion_sort_total: "total_comparison cmp (set xs) \<Longrightarrow> insertion_sort cmp xs \<noteq> None"
proof (induction xs)
  case (Cons x xs)
  have "total_comparison cmp (set xs)" by (rule total_comparison_subset [OF Cons.prems]) auto
  with Cons.IH obtain ys where ys: "insertion_sort cmp xs = Some ys" by blast
  have "set ys = set xs" using mset_eq_setD [OF insertion_sort_mset [OF ys]] .
  with insert_by_total [of cmp x ys] Cons.prems ys show ?case by simp
qed simp

lemma insertion_sorts_by: "sorts_by insertion_sort"
  using insertion_sort_mset insertion_sort_total unfolding sorts_by_def by blast

text \<open>Two requirements of traits that depend on each other, and two of which one depends on the other.\<close>

definition mini_requirements :: "(def_id \<Rightarrow> def_id list) \<Rightarrow> (def_id list \<times> (def_id \<times> def_id) list) requirement_env" where
  "mini_requirements deps =
     \<lparr>re_tables = search_tables [], re_rc = \<lparr>external_did = (\<lambda>_. None), path_rank = (\<lambda>d. d), name_rank = length\<rparr>,
      re_bounds = (\<lambda>d. map (\<lambda>e. \<lparr>bc_bound_vars = [], bc_binders = 0,
        bc_kind = TraitClause True \<lparr>trait_def_id = e, trait_args = []\<rparr>\<rparr>) (deps d)),
      re_bounds_post_analysis = (\<lambda>_. []), re_topo = list_topo,
      re_sort_by = insertion_sort\<rparr>"

definition mini_bound :: "def_id \<Rightarrow> bound_clause" where
  "mini_bound d =
     \<lparr>bc_bound_vars = [RegionVariable 3], bc_binders = 1, bc_kind = TraitClause True \<lparr>trait_def_id = d, trait_args = []\<rparr>\<rparr>"

abbreviation mini_req :: "def_id \<Rightarrow> requirement" where
  "mini_req d \<equiv> \<lparr>rq_trait_ref = \<lparr>trait_def_id = d, trait_args = []\<rparr>, rq_bound_regions = [3], rq_binders = 1\<rparr>"

lemma mini_collected:
  "collect_requirements (re_tables (mini_requirements deps)) [mini_bound 8, mini_bound 9] = Some [mini_req 8, mini_req 9]"
proof -
  have "is_builtin_trait (search_tables []) d = Some None" for d by code_simp
  then show ?thesis by (simp add: collect_requirements_def collect_requirement_def mini_bound_def mini_requirements_def)
qed

theorem requirements_order_witness:
  "get_nontrivial (mini_requirements (\<lambda>d. if d = 8 then [9] else [8])) [mini_bound 8, mini_bound 9] None = None
   \<and> (\<exists>ys. get_nontrivial (mini_requirements (\<lambda>d. if d = 8 then [9] else [])) [mini_bound 8, mini_bound 9] None = Some (Some ys)
        \<and> mset ys = {#mini_req 8, mini_req 9#})"
proof -
  let ?E = "\<lambda>deps. mini_requirements deps"
  have E: "topological_sort (re_topo (?E deps)) (\<lambda>s. set (fst s)) (\<lambda>s. set (snd s))"
    "sorts_by (re_sort_by (?E deps))" for deps
    using list_topo.topological_sort_axioms insertion_sorts_by by (simp_all add: mini_requirements_def)
  note spec = requirements_order [OF E mini_collected, where decl = None]
  have edges: "requirement_edges (?E deps) [mini_req 8, mini_req 9] =
      {(ib, ia). ia < 2 \<and> ib < 2 \<and> [8, 9] ! ib \<in> set (deps ([8, 9] ! ia)) \<and> ib \<noteq> ia}" for deps
    by (auto simp: requirement_edges_def trait_get_deps_def mini_requirements_def less_Suc_eq numeral_2_eq_2)
  have "(0, 1) \<in> requirement_edges (?E (\<lambda>d. if d = 8 then [9] else [8])) [mini_req 8, mini_req 9]"
    "(1, 0) \<in> requirement_edges (?E (\<lambda>d. if d = 8 then [9] else [8])) [mini_req 8, mini_req 9]"
    unfolding edges by simp_all
  then have "\<not> acyclic (requirement_edges (?E (\<lambda>d. if d = 8 then [9] else [8])) [mini_req 8, mini_req 9])"
    unfolding acyclic_def by (meson trancl.simps)
  moreover have "acyclic (requirement_edges (?E (\<lambda>d. if d = 8 then [9] else [])) [mini_req 8, mini_req 9])"
    unfolding edges
    by (rule wf_acyclic [OF wf_subset [OF wf_measure [of "\<lambda>i. 1 - i"]]]) (auto simp: less_Suc_eq numeral_2_eq_2)
  moreover have "total_comparison (requirement_cmp (?E deps) None) (set [mini_req 8, mini_req 9])" for deps
  proof -
    have "rc_cmp_trait_ref (re_rc (?E deps)) None \<lparr>trait_def_id = a, trait_args = []\<rparr> \<lparr>trait_def_id = b, trait_args = []\<rparr>
        = Some (if a < b then Less else if a = b then Equal else Greater)" for a b :: nat
      by (simp add: mini_requirements_def rc_cmp_trait_ref_def rc_cmp_defid_def rc_cmp_arg_refs_def exported_def cmp_val_def
          then_with_def cmp_slices_def)
    then show ?thesis by (auto simp: total_comparison_def requirement_cmp_def)
  qed
  ultimately show ?thesis using spec by (metis (no_types, lifting) mset.simps not_None_eq option.distinct(1))
qed

end
