(* ===== verification/FlatTypes.thy ===== *)
theory FlatTypes
  imports DefQueries
begin

text \<open>
  Flat types, the representation of types that is stable across compilations: \<open>translation/src/shims/flat.rs\<close>.
  A definition is written as the path it is exported at and found again by \<open>search.rs\<close>. An outer \<^term>\<open>None\<close> is
  a panic, an inner one the answer \<open>None\<close> of the code.
\<close>

section \<open>Flat types\<close>

datatype flat_type =
    FlatAdt path_with_args
  | FlatInt int_ty
  | FlatUint int_ty
  | FlatChar
  | FlatBool
  | FlatParam nat
  | FlatRef nat mutability flat_type
  | FlatRawPtr mutability flat_type
and path_with_args = PathWithArgs (pa_path: "string list") (pa_args: "flat_type option list")

text \<open>
  The compiler prints the path of a definition, knows whether it is local and instantiates the parameters of a type.
\<close>

record flat_env =
  fe_tables :: comp_tables
  fe_hotword :: string
  fe_parse :: parse_env
  fe_def_path_str :: "def_id \<Rightarrow> string"
  fe_is_local :: "def_id \<Rightarrow> bool"
  fe_local_crate :: string
  fe_instantiate :: "ty \<Rightarrow> generic_arg list \<Rightarrow> ty"

section \<open>Export paths\<close>

text \<open>\<open>split("::")\<close>: separators are found from the left; there is always a last part.\<close>

fun split_path :: "string \<Rightarrow> string \<Rightarrow> string list" where
  "split_path acc (CHR '':'' # CHR '':'' # s) = rev acc # split_path [] s"
| "split_path acc (c # s) = split_path (c # acc) s"
| "split_path acc [] = [rev acc]"

definition is_specialization :: "string \<Rightarrow> bool" where
  "is_specialization i \<longleftrightarrow> i \<noteq> [] \<and> hd i = CHR ''<'' \<and> last i = CHR ''>''"

definition get_cleaned_def_path :: "flat_env \<Rightarrow> def_id \<Rightarrow> string list" where
  "get_cleaned_def_path F did = filter (\<lambda>i. \<not> is_specialization i) (split_path [] (fe_def_path_str F did))"

definition surrounding_did :: "comp_tables \<Rightarrow> def_id \<Rightarrow> def_id option" where
  "surrounding_did T did =
     (case tb_impl_of_assoc T did of
        Some impl_did \<Rightarrow> Some impl_did
      | None \<Rightarrow> (case tb_trait_of_assoc T did of Some trait_did \<Rightarrow> Some trait_did | None \<Rightarrow> tb_opt_parent T did))"

definition export_attr :: "flat_env \<Rightarrow> def_id \<Rightarrow> export_as spec_result" where
  "export_attr F did = get_export_as_attr (fe_parse F) (filter_for_tool (fe_hotword F) (tb_attributes (fe_tables F) did))"

definition is_exported :: "flat_env \<Rightarrow> def_id \<Rightarrow> bool" where
  "is_exported F did \<longleftrightarrow> has_tool_attr (fe_hotword F) (tb_attributes (fe_tables F) did) ''export_as''"

text \<open>
  An attribute of the item itself that does not parse is ignored (\<open>ok()\<close>); one of the surrounding item panics, as
  does a path without components.
\<close>

definition get_external_export_path_for_did :: "flat_env \<Rightarrow> def_id \<Rightarrow> export_as option option" where
  "get_external_export_path_for_did F did =
     (let T = fe_tables F in
      if is_exported F did then
        (case export_attr F did of Ok e \<Rightarrow> Some (Some e) | Err _ \<Rightarrow> Some None | Panic \<Rightarrow> None)
      else
        (case surrounding_did T did of
           Some outer \<Rightarrow>
             if is_exported F outer then
               (case export_attr F outer of
                  Ok e \<Rightarrow>
                    (case get_cleaned_def_path F did of
                       [] \<Rightarrow> None
                     | this_path \<Rightarrow>
                         Some (Some (e\<lparr>ea_path := ea_path e @ [last this_path], ea_as_method := tb_impl_of_assoc T did \<noteq> None\<rparr>)))
                | _ \<Rightarrow> None)
             else Some None
         | None \<Rightarrow> Some None))"

definition get_external_did_for_did :: "flat_env \<Rightarrow> def_id \<Rightarrow> def_id option option" where
  "get_external_did_for_did F did =
     ask (get_external_export_path_for_did F did) (\<lambda>path.
       if is_method_did (fe_tables F) did \<or> ea_as_method path then try_resolve_method_did (fe_tables F) (ea_path path)
       else try_resolve_did (fe_tables F) (ea_path path))"

definition get_export_path_for_did :: "flat_env \<Rightarrow> def_id \<Rightarrow> export_as option" where
  "get_export_path_for_did F did =
     (case get_external_export_path_for_did F did of
        None \<Rightarrow> None
      | Some (Some path) \<Rightarrow> Some path
      | Some None \<Rightarrow>
          Some \<lparr>ea_path = (if fe_is_local F did then [fe_local_crate F] else []) @ get_cleaned_def_path F did,
                ea_as_method = tb_impl_of_assoc (fe_tables F) did \<noteq> None\<rparr>)"

section \<open>From types to flat types\<close>

text \<open>Loops that stop at the first part that cannot be converted.\<close>

fun convert_each :: "('a \<Rightarrow> 'b option option) \<Rightarrow> 'a list \<Rightarrow> 'b list option option" where
  "convert_each f [] = Some (Some [])"
| "convert_each f (x # xs) = ask (f x) (\<lambda>y. ask (convert_each f xs) (\<lambda>ys. Some (Some (y # ys))))"

lemma convert_each_cong [fundef_cong]:
  "\<lbrakk>xs = ys; \<And>x. x \<in> set ys \<Longrightarrow> f x = g x\<rbrakk> \<Longrightarrow> convert_each f xs = convert_each g ys"
  by (induction xs arbitrary: ys) auto

lemma ask_cong [fundef_cong]: "\<lbrakk>q = q'; \<And>x. q' = Some (Some x) \<Longrightarrow> k x = k' x\<rbrakk> \<Longrightarrow> ask q k = ask q' k'"
  by (auto simp: ask_def split: option.split)

fun convert_ty_to_flat_type :: "flat_env \<Rightarrow> ty \<Rightarrow> flat_type option option"
  and flatten_arg :: "flat_env \<Rightarrow> generic_arg \<Rightarrow> flat_type option option option" where
  "convert_ty_to_flat_type F t =
     (case t of
        TyAdt did as \<Rightarrow>
          (case get_export_path_for_did F did of
             None \<Rightarrow> None
           | Some path \<Rightarrow>
               ask (convert_each (flatten_arg F) as) (\<lambda>args. Some (Some (FlatAdt (PathWithArgs (ea_path path) args)))))
      | TyBool \<Rightarrow> Some (Some FlatBool)
      | TyChar \<Rightarrow> Some (Some FlatChar)
      | TyInt i \<Rightarrow> Some (Some (FlatInt i))
      | TyUint i \<Rightarrow> Some (Some (FlatUint i))
      | TyParam i _ \<Rightarrow> Some (Some (FlatParam i))
      | TyRawPtr u m \<Rightarrow> ask (convert_ty_to_flat_type F u) (\<lambda>f. Some (Some (FlatRawPtr m f)))
      | TyRef r u m \<Rightarrow>
          ask (convert_ty_to_flat_type F u) (\<lambda>f.
            case r of ReEarlyParam i _ \<Rightarrow> Some (Some (FlatRef i m f)) | _ \<Rightarrow> None)
      | _ \<Rightarrow> Some None)"
| "flatten_arg F a =
     (case a of ArgType t \<Rightarrow> ask (convert_ty_to_flat_type F t) (\<lambda>f. Some (Some (Some f))) | _ \<Rightarrow> Some (Some None))"

declare convert_ty_to_flat_type.simps [simp del]

lemmas convert_kinds =
  convert_ty_to_flat_type.simps [of _ "TyBool"]
  convert_ty_to_flat_type.simps [of _ "TyChar"]
  convert_ty_to_flat_type.simps [of _ "TyInt i" for i]
  convert_ty_to_flat_type.simps [of _ "TyUint i" for i]
  convert_ty_to_flat_type.simps [of _ "TyFloat i" for i]
  convert_ty_to_flat_type.simps [of _ "TyAdt d as" for d as]
  convert_ty_to_flat_type.simps [of _ "TyForeign d" for d]
  convert_ty_to_flat_type.simps [of _ "TyStr"]
  convert_ty_to_flat_type.simps [of _ "TyArray u c" for u c]
  convert_ty_to_flat_type.simps [of _ "TySlice u" for u]
  convert_ty_to_flat_type.simps [of _ "TyRawPtr u m" for u m]
  convert_ty_to_flat_type.simps [of _ "TyRef r u m" for r u m]
  convert_ty_to_flat_type.simps [of _ "TyFnDef d as" for d as]
  convert_ty_to_flat_type.simps [of _ "TyFnPtr ts h" for ts h]
  convert_ty_to_flat_type.simps [of _ "TyDynamic p as r" for p as r]
  convert_ty_to_flat_type.simps [of _ "TyClosure d as" for d as]
  convert_ty_to_flat_type.simps [of _ "TyCoroutineClosure d as" for d as]
  convert_ty_to_flat_type.simps [of _ "TyCoroutine d as" for d as]
  convert_ty_to_flat_type.simps [of _ "TyCoroutineWitness d as" for d as]
  convert_ty_to_flat_type.simps [of _ "TyNever"]
  convert_ty_to_flat_type.simps [of _ "TyTuple ts" for ts]
  convert_ty_to_flat_type.simps [of _ "TyPat u p" for u p]
  convert_ty_to_flat_type.simps [of _ "TyAlias k d as" for k d as]
  convert_ty_to_flat_type.simps [of _ "TyParam i n" for i n]
  convert_ty_to_flat_type.simps [of _ "TyBound i b" for i b]
  convert_ty_to_flat_type.simps [of _ "TyPlaceholder i" for i]
  convert_ty_to_flat_type.simps [of _ "TyInfer i" for i]
  convert_ty_to_flat_type.simps [of _ "TyError i" for i]
  convert_ty_to_flat_type.simps [of _ "TyUnsafeBinder u" for u]

definition from_item :: "flat_env \<Rightarrow> def_id \<Rightarrow> generic_arg list \<Rightarrow> path_with_args option option" where
  "from_item F did args =
     (case get_export_path_for_did F did of
        None \<Rightarrow> None
      | Some path \<Rightarrow> ask (convert_each (flatten_arg F) args) (\<lambda>as. Some (Some (PathWithArgs (ea_path path) as))))"

section \<open>From flat types to types\<close>

text \<open>The substitution: types come from the flat arguments, everything else from the definition.\<close>

definition build_substs :: "generic_arg list \<Rightarrow> generic_arg option list \<Rightarrow> generic_arg list" where
  "build_substs args flat_args =
     concat (map (\<lambda>(ty_arg, flat_arg). case ty_arg of ArgType _ \<Rightarrow> option_list flat_arg | _ \<Rightarrow> [ty_arg]) (zip args flat_args))"

definition adt_with :: "flat_env \<Rightarrow> def_id \<Rightarrow> generic_arg option list \<Rightarrow> ty option" where
  "adt_with F did flat_args =
     (let t = tb_type_of (fe_tables F) did in
      case t of
        TyAdt _ args \<Rightarrow>
          (let substs = build_substs args flat_args in Some (if substs = [] then t else fe_instantiate F t substs))
      | _ \<Rightarrow> None)"

fun to_type :: "flat_env \<Rightarrow> flat_type \<Rightarrow> ty option option"
  and to_item :: "flat_env \<Rightarrow> path_with_args \<Rightarrow> (def_id \<times> generic_arg option list) option option" where
  "to_type F (FlatAdt p) = ask (to_item F p) (\<lambda>(did, flat_args). Some (adt_with F did flat_args))"
| "to_type F FlatBool = Some (Some TyBool)"
| "to_type F FlatChar = Some (Some TyChar)"
| "to_type F (FlatInt i) = Some (Some (TyInt i))"
| "to_type F (FlatUint i) = Some (Some (TyUint i))"
| "to_type F (FlatRawPtr m f) = ask (to_type F f) (\<lambda>t. Some (Some (TyRawPtr t m)))"
| "to_type F (FlatParam i) = Some (Some (TyParam i ''dummy''))"
| "to_type F (FlatRef i m f) = ask (to_type F f) (\<lambda>t. Some (Some (TyRef (ReEarlyParam i ''dummy'') t m)))"
| "to_item F (PathWithArgs path args) =
     ask (try_resolve_did (fe_tables F) path) (\<lambda>did.
     ask (convert_each (\<lambda>a. case a of
            Some f \<Rightarrow> ask (to_type F f) (\<lambda>t. Some (Some (Some (ArgType t))))
          | None \<Rightarrow> Some (Some None)) args) (\<lambda>ty_args. Some (Some (did, ty_args))))"

section \<open>Round trip\<close>

lemma convert_adt:
  "convert_ty_to_flat_type F (TyAdt did as) = ask (from_item F did as) (\<lambda>p. Some (Some (FlatAdt p)))"
  by (cases "convert_each (flatten_arg F) as")
    (auto simp: convert_kinds from_item_def ask_def split: option.splits)

text \<open>The definitions a type uses, with their arguments, below the constructors that are converted.\<close>

fun adts_of :: "ty \<Rightarrow> (def_id \<times> generic_arg list) list" and adts_of_arg :: "generic_arg \<Rightarrow> (def_id \<times> generic_arg list) list" where
  "adts_of (TyAdt did as) = (did, as) # concat (map adts_of_arg as)"
| "adts_of (TyRawPtr t m) = adts_of t"
| "adts_of (TyRef r t m) = adts_of t"
| "adts_of t = []"
| "adts_of_arg (ArgType t) = adts_of t"
| "adts_of_arg a = []"

text \<open>
  What is left of a type: a definition becomes the one that \<open>\<delta>\<close> names in the reading crate, parameters and lifetimes
  of references lose their names, and an argument of a definition that is not a type becomes the parameter of the
  definition.
\<close>

fun flattened :: "(def_id \<Rightarrow> def_id) \<Rightarrow> comp_tables \<Rightarrow> ty \<Rightarrow> ty"
  and flattened_arg :: "(def_id \<Rightarrow> def_id) \<Rightarrow> comp_tables \<Rightarrow> generic_arg \<Rightarrow> generic_arg \<Rightarrow> generic_arg" where
  "flattened \<delta> T (TyAdt did as) =
     TyAdt (\<delta> did)
       (case tb_type_of T (\<delta> did) of TyAdt _ ids \<Rightarrow> map2 (\<lambda>f i. f i) (map (flattened_arg \<delta> T) as) ids | _ \<Rightarrow> [])"
| "flattened \<delta> T (TyParam i n) = TyParam i ''dummy''"
| "flattened \<delta> T (TyRawPtr t m) = TyRawPtr (flattened \<delta> T t) m"
| "flattened \<delta> T (TyRef r t m) = TyRef (ReEarlyParam (early_index r) ''dummy'') (flattened \<delta> T t) m"
| "flattened \<delta> T t = t"
| "flattened_arg \<delta> T (ArgType t) i = ArgType (flattened \<delta> T t)"
| "flattened_arg \<delta> T a i = i"

subsection \<open>The path that is written\<close>

text \<open>The compiler prints the path of a definition as its segments, separated by \<open>::\<close>.\<close>

fun joined :: "string list \<Rightarrow> string" where
  "joined [] = []"
| "joined [s] = s"
| "joined (s # ss) = s @ CHR '':'' # CHR '':'' # joined ss"

definition plain_segment :: "string \<Rightarrow> bool" where
  "plain_segment s \<longleftrightarrow> CHR '':'' \<notin> set s \<and> \<not> is_specialization s"

definition printed_as :: "flat_env \<Rightarrow> def_id \<Rightarrow> string list \<Rightarrow> bool" where
  "printed_as F did segments \<longleftrightarrow>
     segments \<noteq> [] \<and> (\<forall>s \<in> set segments. plain_segment s) \<and> fe_def_path_str F did = joined segments"

text \<open>
  The path a definition is meant to have elsewhere: the one of its own \<open>rr::export_as\<close>, its name below the one of the
  item around it, or the printed one, below the name of its crate when the definition is local.
\<close>

inductive path_elsewhere :: "flat_env \<Rightarrow> def_id \<Rightarrow> string list \<Rightarrow> bool" for F did where
  own_path: "\<lbrakk>is_exported F did; export_attr F did = Ok e\<rbrakk> \<Longrightarrow> path_elsewhere F did (ea_path e)"
| outer_path: "\<lbrakk>\<not> is_exported F did; surrounding_did (fe_tables F) did = Some outer; is_exported F outer;
      export_attr F outer = Ok e; printed_as F did segments\<rbrakk> \<Longrightarrow> path_elsewhere F did (ea_path e @ [last segments])"
| printed_path: "\<lbrakk>\<not> is_exported F did; \<forall>outer. surrounding_did (fe_tables F) did = Some outer \<longrightarrow> \<not> is_exported F outer;
      printed_as F did segments\<rbrakk>
    \<Longrightarrow> path_elsewhere F did ((if fe_is_local F did then [fe_local_crate F] else []) @ segments)"

lemma split_path_other: "c \<noteq> CHR '':'' \<Longrightarrow> split_path acc (c # s) = split_path (c # acc) s"
  by (cases "(acc, c # s)" rule: split_path.cases) auto

lemma split_path_last: "CHR '':'' \<notin> set s \<Longrightarrow> split_path acc s = [rev acc @ s]"
  by (induction s arbitrary: acc) (auto simp: split_path_other)

lemma split_path_segment:
  "CHR '':'' \<notin> set s \<Longrightarrow> split_path acc (s @ CHR '':'' # CHR '':'' # r) = (rev acc @ s) # split_path [] r"
  by (induction s arbitrary: acc) (auto simp: split_path_other)

lemma split_path_joined:
  "\<lbrakk>segments \<noteq> []; \<forall>s \<in> set segments. CHR '':'' \<notin> set s\<rbrakk> \<Longrightarrow> split_path [] (joined segments) = segments"
  by (induction segments rule: joined.induct) (auto simp: split_path_last split_path_segment)

lemma cleaned_path: "printed_as F did segments \<Longrightarrow> get_cleaned_def_path F did = segments"
  by (auto simp: printed_as_def plain_segment_def get_cleaned_def_path_def split_path_joined intro: filter_True)

lemma export_path_elsewhere:
  assumes "path_elsewhere F did path"
  shows "\<exists>e. get_export_path_for_did F did = Some e \<and> ea_path e = path"
  using assms
proof cases
  case (outer_path outer e segments)
  then have "get_cleaned_def_path F did = segments" "segments \<noteq> []" by (auto simp: cleaned_path printed_as_def)
  with outer_path show ?thesis
    by (auto simp: get_export_path_for_did_def get_external_export_path_for_did_def Let_def split: list.split)
next
  case (printed_path segments)
  then show ?thesis
    by (auto simp: get_export_path_for_did_def get_external_export_path_for_did_def Let_def cleaned_path split: option.split)
qed (auto simp: get_export_path_for_did_def get_external_export_path_for_did_def Let_def)

subsection \<open>The definition that is found\<close>

text \<open>
  A path leads to a definition through the crates the reader has loaded and the children of modules. A name can stand
  for several children (of different namespaces, say); the search follows the first.
\<close>

definition first_such :: "('a \<Rightarrow> bool) \<Rightarrow> 'a list \<Rightarrow> 'a \<Rightarrow> bool" where
  "first_such P xs x \<longleftrightarrow> (\<exists>before after. xs = before @ x # after \<and> P x \<and> (\<forall>y \<in> set before. \<not> P y))"

inductive leads_to :: "comp_tables \<Rightarrow> mod_child list \<Rightarrow> string list \<Rightarrow> def_id \<Rightarrow> bool" for T where
  child: "\<lbrakk>first_such (\<lambda>c. mc_name c = s) items c; mc_res c = Some did\<rbrakk> \<Longrightarrow> leads_to T items [s] did"
| below: "\<lbrakk>first_such (\<lambda>c. mc_name c = s) items c; mc_res c = Some m; leads_to T (tb_module_children T m) path did\<rbrakk>
    \<Longrightarrow> leads_to T items (s # path) did"

definition names_definition :: "comp_tables \<Rightarrow> string list \<Rightarrow> def_id \<Rightarrow> bool" where
  "names_definition T path did \<longleftrightarrow>
     (\<exists>krate name segments. path = name # segments \<and> first_such (\<lambda>k. tb_crate_name T k = name) (tb_crates T) krate
        \<and> leads_to T (tb_module_children T (tb_crate_root T krate)) segments did)"

lemma find_after: "\<forall>y \<in> set before. \<not> P y \<Longrightarrow> P x \<Longrightarrow> List.find P (before @ x # after) = Some x"
  by (induction before) auto

lemma first_such_find: "first_such P xs x \<longleftrightarrow> List.find P xs = Some x"
proof (rule sym, rule iffI)
  show "List.find P xs = Some x \<Longrightarrow> first_such P xs x"
  proof (induction xs)
    case (Cons y ys)
    show ?case
    proof (cases "P y")
      case True
      with Cons show ?thesis by (force simp: first_such_def)
    next
      case False
      with Cons obtain before after where "ys = before @ x # after" "P x" "\<forall>z \<in> set before. \<not> P z"
        by (auto simp: first_such_def)
      with False show ?thesis unfolding first_such_def by (intro exI [of _ "y # before"] exI [of _ after]) simp
    qed
  qed simp
qed (auto simp: first_such_def find_after)

lemma leads_to_walk: "leads_to T items path did \<Longrightarrow> walk_modules T path items = Some (Some did) \<and> path \<noteq> []"
  by (induction rule: leads_to.induct) (auto simp: first_such_find)

lemma names_definition_found:
  assumes "names_definition T path did"
  shows "try_resolve_did T path = Some (Some did)"
proof -
  from assms obtain krate name segments where path: "path = name # segments"
    and krate: "List.find (\<lambda>k. tb_crate_name T k = name) (tb_crates T) = Some krate" "tb_crates T \<noteq> []"
    and walk: "walk_modules T segments (tb_module_children T (tb_crate_root T krate)) = Some (Some did)"
    unfolding names_definition_def using first_such_find leads_to_walk
    by (metis append_is_Nil_conv first_such_def list.distinct(1))
  then show ?thesis
    by (simp add: try_resolve_did_def try_resolve_did_direct_def find_crate_def)
qed

text \<open>
  What a definition needs: its path elsewhere leads the reader to \<open>d\<close>, whose own type has a parameter for each argument,
  of the same kind, and the reader's compiler instantiates that type by replacing its parameters.
\<close>

definition readable_as :: "flat_env \<Rightarrow> flat_env \<Rightarrow> def_id \<Rightarrow> generic_arg list \<Rightarrow> def_id \<Rightarrow> bool" where
  "readable_as F G did as d \<longleftrightarrow>
     (\<exists>path. path_elsewhere F did path \<and> names_definition (fe_tables G) path d)
     \<and> (\<exists>ids. tb_type_of (fe_tables G) d = TyAdt d ids
          \<and> list_all2 (\<lambda>a i. as_type a \<noteq> None \<longleftrightarrow> as_type i \<noteq> None) as ids
          \<and> (\<forall>substs. length substs = length ids \<longrightarrow> fe_instantiate G (TyAdt d ids) substs = TyAdt d substs))"

subsection \<open>Reading what was written\<close>

lemma convert_each_Some:
  "convert_each f xs = Some (Some ys) \<longleftrightarrow> list_all2 (\<lambda>x y. f x = Some (Some y)) xs ys"
proof (induction xs arbitrary: ys)
  case (Cons x xs)
  show ?case by (cases ys) (auto simp: Cons [symmetric] ask_def split: option.splits)
qed auto

lemma ask_Some: "ask q k = Some (Some y) \<longleftrightarrow> (\<exists>x. q = Some (Some x) \<and> k x = Some (Some y))"
  by (auto simp: ask_def split: option.splits)

lemma build_substs_kinds:
  assumes "list_all2 (\<lambda>a i. as_type a \<noteq> None \<longleftrightarrow> as_type i \<noteq> None) as ids"
    and "list_all2 (\<lambda>a y. case a of ArgType t \<Rightarrow> y = Some (ArgType (flattened \<delta> T t)) | _ \<Rightarrow> y = None) as ys"
  shows "build_substs ids ys = map2 (\<lambda>f i. f i) (map (flattened_arg \<delta> T) as) ids"
  using assms
proof (induction as ids arbitrary: ys rule: list_all2_induct)
  case (Cons a as i ids)
  then obtain y ys' where ys: "ys = y # ys'" "build_substs ids ys' = map2 (\<lambda>f i. f i) (map (flattened_arg \<delta> T) as) ids"
    by (cases ys) auto
  with Cons show ?case
    by (cases a; cases i) (auto simp: build_substs_def option_list_def)
qed (simp add: build_substs_def)

lemma flat_round_trip:
  shows "\<forall>(did, as) \<in> set (adts_of t). readable_as F G did as (\<delta> did) \<Longrightarrow> convert_ty_to_flat_type F t = Some (Some f)
      \<Longrightarrow> to_type G f = Some (Some (flattened \<delta> (fe_tables G) t))"
    and "\<forall>(did, as) \<in> set (adts_of_arg a). readable_as F G did as (\<delta> did) \<Longrightarrow> flatten_arg F a = Some (Some x)
      \<Longrightarrow> (case a of
             ArgType t \<Rightarrow> \<exists>f. x = Some f \<and> to_type G f = Some (Some (flattened \<delta> (fe_tables G) t)) | _ \<Rightarrow> x = None)"
proof (induction t and a arbitrary: f and x rule: ty.induct generic_arg.induct)
  case (TyAdt did as)
  let ?T = "fe_tables G" and ?d = "\<delta> did"
  from TyAdt.prems(1) have found: "readable_as F G did as ?d"
    and below: "\<forall>a \<in> set as. \<forall>(d, bs) \<in> set (adts_of_arg a). readable_as F G d bs (\<delta> d)"
    by auto
  from TyAdt.prems(2) obtain path args where path: "get_export_path_for_did F did = Some path"
    and args: "list_all2 (\<lambda>a y. flatten_arg F a = Some (Some y)) as args" and f: "f = FlatAdt (PathWithArgs (ea_path path) args)"
    by (auto simp: convert_kinds ask_Some convert_each_Some split: option.splits)
  from found path obtain ids where resolve: "try_resolve_did ?T (ea_path path) = Some (Some ?d)"
    and ids: "tb_type_of ?T ?d = TyAdt ?d ids" "list_all2 (\<lambda>a i. as_type a \<noteq> None \<longleftrightarrow> as_type i \<noteq> None) as ids"
    and inst: "\<And>substs. length substs = length ids \<Longrightarrow> fe_instantiate G (TyAdt ?d ids) substs = TyAdt ?d substs"
    by (auto simp: readable_as_def dest!: export_path_elsewhere names_definition_found)
  let ?get = "\<lambda>a. case a of Some f \<Rightarrow> ask (to_type G f) (\<lambda>t. Some (Some (Some (ArgType t)))) | None \<Rightarrow> Some (Some None)"
  define ys where "ys = map (\<lambda>a. case a of ArgType t \<Rightarrow> Some (ArgType (flattened \<delta> ?T t)) | _ \<Rightarrow> None) as"
  have "list_all2 (\<lambda>x y. ?get x = Some (Some y)) args ys"
    unfolding list_all2_conv_all_nth
  proof (intro conjI allI impI)
    from args show len: "length args = length ys" by (simp add: ys_def list_all2_lengthD)
    fix i
    assume "i < length args"
    with args len have i: "i < length as" and "flatten_arg F (as ! i) = Some (Some (args ! i))"
      by (auto simp: ys_def list_all2_conv_all_nth)
    moreover from i below have "\<forall>(d, bs) \<in> set (adts_of_arg (as ! i)). readable_as F G d bs (\<delta> d)" by (meson nth_mem)
    ultimately have "case as ! i of
        ArgType t \<Rightarrow> \<exists>f. args ! i = Some f \<and> to_type G f = Some (Some (flattened \<delta> ?T t)) | _ \<Rightarrow> args ! i = None"
      using TyAdt.IH [of "as ! i" "args ! i"] by (meson nth_mem)
    with i show "?get (args ! i) = Some (Some (ys ! i))" by (auto simp: ys_def split: generic_arg.splits)
  qed
  then have item: "to_item G (PathWithArgs (ea_path path) args) = Some (Some (?d, ys))"
    by (simp add: resolve convert_each_Some [THEN iffD2])
  have "list_all2 (\<lambda>a y. case a of ArgType t \<Rightarrow> y = Some (ArgType (flattened \<delta> ?T t)) | _ \<Rightarrow> y = None) as ys"
    by (auto simp: ys_def list_all2_conv_all_nth split: generic_arg.split)
  from build_substs_kinds [OF ids(2) this]
  have substs: "build_substs ids ys = map2 (\<lambda>f i. f i) (map (flattened_arg \<delta> ?T) as) ids" .
  have len: "length (map2 (\<lambda>f i. f i) (map (flattened_arg \<delta> ?T) as) ids) = length ids"
    using list_all2_lengthD [OF ids(2)] by simp
  have "adt_with G ?d ys = Some (flattened \<delta> ?T (TyAdt did as))"
    using inst [OF len] len by (auto simp: adt_with_def ids(1) substs Let_def)
  then show ?case unfolding f by (simp only: to_type.simps item) simp
next
  case (TyRef r t m)
  then show ?case by (cases r) (auto simp: convert_kinds ask_Some)
qed (auto simp: convert_kinds ask_Some)

text \<open>
  C39. A type written as a flat type with the tables of one crate and read with those of another is read as itself, up
  to what flat types forget (the names of parameters and of the lifetimes of references, and the lifetimes and constants
  among the arguments of a definition), provided that each definition in it can be read as \<open>\<delta>\<close> says: the path it has
  elsewhere (the one of its \<open>rr::export_as\<close>, its name below the path of the exported item around it, or the path the
  compiler prints) names that definition among the crates and modules of the reader, whose parameters are of the kinds
  of the arguments, and instantiation replaces the parameters. A definition with \<open>rr::export_as\<close> is so read as the
  definition at the path of its attribute, which need not be the same one.
\<close>

theorem flat_type_round_trip:
  assumes "convert_ty_to_flat_type F t = Some (Some f)" and "\<forall>(did, as) \<in> set (adts_of t). readable_as F G did as (\<delta> did)"
  shows "to_type G f = Some (Some (flattened \<delta> (fe_tables G) t))"
  using flat_round_trip(1) assms by blast

text \<open>A crate \<open>core\<close> that defines \<open>ops::Fn\<close> as its definition 7, and a crate that reads it as 2.\<close>

definition mini_writer :: flat_env where
  "mini_writer =
     \<lparr>fe_tables = search_tables [], fe_hotword = ''rr'', fe_parse = AttributeParsers.plain_env,
      fe_def_path_str = (\<lambda>_. ''ops::Fn''), fe_is_local = (\<lambda>_. True), fe_local_crate = ''core'',
      fe_instantiate = (\<lambda>t _. t)\<rparr>"

definition mini_flat :: flat_env where
  "mini_flat =
     \<lparr>fe_tables = (search_tables [])\<lparr>tb_type_of := (\<lambda>_. TyAdt 2 [ArgType (TyParam 0 ''T''), ArgLifetime (ReEarlyParam 1 ''a'')])\<rparr>,
      fe_hotword = ''rr'', fe_parse = AttributeParsers.plain_env, fe_def_path_str = (\<lambda>_. ''core::ops::Fn''),
      fe_is_local = (\<lambda>_. False), fe_local_crate = ''reader'',
      fe_instantiate = (\<lambda>t substs. case t of TyAdt did _ \<Rightarrow> TyAdt did substs | _ \<Rightarrow> t)\<rparr>"

lemma mini_path: "path_elsewhere mini_writer 7 [''core'', ''ops'', ''Fn'']"
proof -
  have "printed_as mini_writer 7 [''ops'', ''Fn'']" by code_simp
  moreover have "\<not> is_exported mini_writer d" for d
    by (simp add: is_exported_def mini_writer_def search_tables_def has_tool_attr_def)
  ultimately have "path_elsewhere mini_writer 7
      ((if fe_is_local mini_writer 7 then [fe_local_crate mini_writer] else []) @ [''ops'', ''Fn''])"
    by (intro printed_path) auto
  then show ?thesis by (simp add: mini_writer_def)
qed

lemma mini_definition: "names_definition (fe_tables mini_flat) [''core'', ''ops'', ''Fn''] 2"
proof -
  have "leads_to (fe_tables mini_flat) (tb_module_children (fe_tables mini_flat) 0) [''ops'', ''Fn''] 2"
    by (intro leads_to.below [where m = 1 and c = "\<lparr>mc_name = ''ops'', mc_res = Some 1\<rparr>"]
          leads_to.child [where c = "\<lparr>mc_name = ''Fn'', mc_res = Some 2\<rparr>"])
      (simp_all add: first_such_find mini_flat_def search_tables_def)
  then show ?thesis
    by (simp add: names_definition_def first_such_find mini_flat_def search_tables_def)
qed

theorem flat_type_round_trip_witness:
  "to_type mini_flat (FlatRef 3 0 (FlatAdt (PathWithArgs [''core'', ''ops'', ''Fn''] [Some FlatBool, None])))
     = Some (Some (TyRef (ReEarlyParam 3 ''dummy'') (TyAdt 2 [ArgType TyBool, ArgLifetime (ReEarlyParam 1 ''a'')]) 0))"
proof -
  let ?t = "TyRef (ReEarlyParam 3 ''b'') (TyAdt 7 [ArgType TyBool, ArgLifetime ReErased]) 0"
  from mini_path mini_definition have found: "readable_as mini_writer mini_flat 7 [ArgType TyBool, ArgLifetime ReErased] 2"
    by (auto simp: readable_as_def mini_flat_def)
  have "convert_ty_to_flat_type mini_writer ?t
      = Some (Some (FlatRef 3 0 (FlatAdt (PathWithArgs [''core'', ''ops'', ''Fn''] [Some FlatBool, None]))))"
    using export_path_elsewhere [OF mini_path] by (auto simp: convert_kinds)
  from flat_type_round_trip [OF this, where \<delta> = "\<lambda>_. 2" and G = mini_flat] found show ?thesis
    by (simp add: mini_flat_def del: to_type.simps)
qed

end
