(* ===== verification/ShimRegistry.thy ===== *)
theory ShimRegistry
  imports FlatTypes BTree "HOL-Library.List_Lexorder" "HOL-Library.Char_ord"
begin

text \<open>
  The registry of shims and the files it is read from and written to: \<open>translation/src/shims/registry.rs\<close> and
  \<open>mod.rs\<close>. The crates \<open>serde\<close> and \<open>serde_json\<close> are the record \<open>shim_codec\<close>; what they promise for the entries is
  the locale \<open>faithful_codec\<close>.
\<close>

section \<open>JSON\<close>

text \<open>The keys of an object are distinct.\<close>

datatype json =
    JNull
  | JBool bool
  | JNumber nat
  | JString string
  | JArray "json list"
  | JObject "(string \<times> json) list"

fun as_object :: "json \<Rightarrow> (string \<times> json) list option" where
  "as_object (JObject obj) = Some obj"
| "as_object _ = None"

fun as_str :: "json \<Rightarrow> string option" where
  "as_str (JString s) = Some s"
| "as_str _ = None"

fun as_array :: "json \<Rightarrow> json list option" where
  "as_array (JArray xs) = Some xs"
| "as_array _ = None"

section \<open>Shims and their entries\<close>

text \<open>The two types of \<open>radium\<close> that are written through their getters.\<close>

record literal_impl =
  li_name :: string
  li_has_semantic_interp :: bool

definition spec_record :: "literal_impl \<Rightarrow> string" where
  "spec_record l = li_name l @ ''_spec''"

definition spec_semantic :: "literal_impl \<Rightarrow> string option" where
  "spec_semantic l = (if li_has_semantic_interp l then Some (li_name l @ ''_semantic_interp'') else None)"

definition strip_suffix :: "string \<Rightarrow> string \<Rightarrow> string option" where
  "strip_suffix suffix s =
     (if length suffix \<le> length s \<and> drop (length s - length suffix) s = suffix
      then Some (take (length s - length suffix) s) else None)"

definition remote_literal_impl :: "literal_impl \<Rightarrow> (string \<times> bool) option" where
  "remote_literal_impl l = map_option (\<lambda>n. (n, spec_semantic l \<noteq> None)) (strip_suffix ''_spec'' (spec_record l))"

definition literal_impl_from :: "string \<times> bool \<Rightarrow> literal_impl" where
  "literal_impl_from r = \<lparr>li_name = fst r, li_has_semantic_interp = snd r\<rparr>"

record adt_shim_info =
  ai_enum_name :: "string option"
  ai_needs_trait_attrs :: bool

type_synonym method_specs = "(string, string \<times> string \<times> string) btmap"

record function_shim =
  fs_path :: "string list"
  fs_is_method :: bool
  fs_name :: string
  fs_spec_name :: string
  fs_trait_req_incl_name :: string

record trait_shim =
  ts_path :: "string list"
  ts_name :: string
  ts_has_semantic_interp :: bool
  ts_attrs_dependent :: bool
  ts_allowed_attrs :: "string list"
  ts_method_trait_incl_decls :: "(string, string) btmap"

record trait_impl_shim =
  is_trait_path :: path_with_args
  is_for_type :: flat_type
  is_method_specs :: method_specs
  is_specs :: literal_impl

record adt_shim =
  as_path :: "string list"
  as_refinement_type :: string
  as_syn_type :: string
  as_sem_type :: string
  as_info :: adt_shim_info

record function_entry =
  fn_path :: "string list"
  fn_kind :: string
  fn_name :: string
  fn_spec :: string
  fn_trait_req_incl :: string

record trait_entry =
  tn_path :: "string list"
  tn_kind :: string
  tn_name :: string
  tn_has_semantic_interp :: bool
  tn_attrs_dependent :: bool
  tn_allowed_attrs :: "string list"
  tn_method_trait_incl_decls :: "(string, string) btmap"

text \<open>The specification of a trait implementation is flattened into its name and its flag.\<close>

record trait_impl_entry =
  in_trait_path :: path_with_args
  in_for_type :: flat_type
  in_kind :: string
  in_method_specs :: method_specs
  in_specs :: "string \<times> bool"

record adt_entry =
  an_path :: "string list"
  an_kind :: string
  an_syntype :: string
  an_rtype :: string
  an_semtype :: string
  an_info :: adt_shim_info

definition function_entry_of :: "function_shim \<Rightarrow> function_entry" where
  "function_entry_of s =
     \<lparr>fn_path = fs_path s, fn_kind = (if fs_is_method s then ''method'' else ''function''), fn_name = fs_name s,
      fn_spec = fs_spec_name s, fn_trait_req_incl = fs_trait_req_incl_name s\<rparr>"

definition trait_entry_of :: "trait_shim \<Rightarrow> trait_entry" where
  "trait_entry_of s =
     \<lparr>tn_path = ts_path s, tn_kind = ''trait'', tn_name = ts_name s, tn_has_semantic_interp = ts_has_semantic_interp s,
      tn_attrs_dependent = ts_attrs_dependent s, tn_allowed_attrs = ts_allowed_attrs s,
      tn_method_trait_incl_decls = ts_method_trait_incl_decls s\<rparr>"

definition trait_impl_entry_of :: "trait_impl_shim \<Rightarrow> trait_impl_entry option" where
  "trait_impl_entry_of s =
     map_option (\<lambda>r. \<lparr>in_trait_path = is_trait_path s, in_for_type = is_for_type s, in_kind = ''trait_impl'',
         in_method_specs = is_method_specs s, in_specs = r\<rparr>) (remote_literal_impl (is_specs s))"

definition adt_entry_of :: "adt_shim \<Rightarrow> adt_entry" where
  "adt_entry_of s =
     \<lparr>an_path = as_path s, an_kind = ''adt'', an_syntype = as_syn_type s, an_rtype = as_refinement_type s,
      an_semtype = as_sem_type s, an_info = as_info s\<rparr>"

text \<open>The derived serializers, and the reader and writer of files; \<^term>\<open>None\<close> is an error.\<close>

record 'f shim_codec =
  sc_read :: "'f \<Rightarrow> json option"
  sc_write :: "json \<Rightarrow> 'f option"
  sc_to_function :: "function_entry \<Rightarrow> json option"
  sc_from_function :: "json \<Rightarrow> function_entry option"
  sc_to_trait :: "trait_entry \<Rightarrow> json option"
  sc_from_trait :: "json \<Rightarrow> trait_entry option"
  sc_to_trait_impl :: "trait_impl_entry \<Rightarrow> json option"
  sc_from_trait_impl :: "json \<Rightarrow> trait_impl_entry option"
  sc_to_adt :: "adt_entry \<Rightarrow> json option"
  sc_from_adt :: "json \<Rightarrow> adt_entry option"

section \<open>The registry\<close>

datatype shim_kind = ShimMethod | ShimFunction | ShimTraitImpl | ShimAdt | ShimTrait

datatype shim_error =
    DeserializeError
  | MissingField string
  | IoError
  | AttributeType string string          \<comment> \<open>the attribute and the expected type\<close>
  | MissingAttribute string
  | NotAnObject
  | UnknownShimKind string

record shim_registry =
  sr_function_shims :: "function_shim list"
  sr_adt_shims :: "adt_shim list"
  sr_exports :: "from_require list"
  sr_trait_shims :: "trait_shim list"
  sr_trait_impl_shims :: "trait_impl_shim list"
  sr_dependencies :: "string list btset"

definition sr_empty :: shim_registry where
  "sr_empty = \<lparr>sr_function_shims = [], sr_adt_shims = [], sr_exports = [], sr_trait_shims = [], sr_trait_impl_shims = [],
     sr_dependencies = []\<rparr>"

definition add_adt_shim :: "adt_shim \<Rightarrow> shim_registry \<Rightarrow> shim_registry" where
  "add_adt_shim s r = r\<lparr>sr_adt_shims := sr_adt_shims r @ [s]\<rparr>"

definition shim_kind_named :: "string \<Rightarrow> (shim_error, shim_kind) outcome" where
  "shim_kind_named k =
     (if k = ''function'' then Ok ShimFunction
      else if k = ''method'' then Ok ShimMethod
      else if k = ''adt'' then Ok ShimAdt
      else if k = ''trait'' then Ok ShimTrait
      else if k = ''trait_impl'' then Ok ShimTraitImpl
      else Err (UnknownShimKind k))"

definition ok_or :: "'e \<Rightarrow> 'a option \<Rightarrow> ('e, 'a) outcome" where
  "ok_or e x = (case x of Some y \<Rightarrow> Ok y | None \<Rightarrow> Err e)"

definition get_shim_kind :: "json \<Rightarrow> (shim_error, shim_kind) outcome" where
  "get_shim_kind v =
     and_then (ok_or NotAnObject (as_object v)) (\<lambda>obj.
     and_then (ok_or (MissingField ''kind'') (map_of obj ''kind'')) (\<lambda>vk.
     and_then (ok_or (AttributeType ''kind'' ''str'') (as_str vk)) shim_kind_named))"

definition str_attribute :: "(string \<times> json) list \<Rightarrow> string \<Rightarrow> (shim_error, string) outcome" where
  "str_attribute obj k =
     and_then (ok_or (MissingAttribute k) (map_of obj k)) (\<lambda>v. ok_or (AttributeType k ''str'') (as_str v))"

definition array_attribute :: "(string \<times> json) list \<Rightarrow> string \<Rightarrow> (shim_error, json list) outcome" where
  "array_attribute obj k =
     and_then (ok_or (MissingAttribute k) (map_of obj k)) (\<lambda>v. ok_or (AttributeType k ''array'') (as_array v))"

text \<open>The registry is changed step by step; what was added before an error stays.\<close>

type_synonym 'a registry_step = "shim_registry \<Rightarrow> (shim_error, 'a) outcome \<times> shim_registry"

definition rs_bind :: "'a registry_step \<Rightarrow> ('a \<Rightarrow> 'b registry_step) \<Rightarrow> 'b registry_step" where
  "rs_bind m k r = (case m r of (Ok x, r) \<Rightarrow> k x r | (Err e, r) \<Rightarrow> (Err e, r) | (Panic, r) \<Rightarrow> (Panic, r))"

definition rs_lift :: "(shim_error, 'a) outcome \<Rightarrow> 'a registry_step" where
  "rs_lift x r = (x, r)"

definition rs_modify :: "(shim_registry \<Rightarrow> shim_registry) \<Rightarrow> unit registry_step" where
  "rs_modify f r = (Ok (), f r)"

primrec rs_each :: "('a \<Rightarrow> unit registry_step) \<Rightarrow> 'a list \<Rightarrow> unit registry_step" where
  "rs_each f [] = rs_lift (Ok ())"
| "rs_each f (x # xs) = rs_bind (f x) (\<lambda>_. rs_each f xs)"

definition add_dependency :: "json \<Rightarrow> unit registry_step" where
  "add_dependency d =
     rs_bind (rs_lift (ok_or (AttributeType ''element of module_dependencies'' ''str'') (as_str d))) (\<lambda>path.
       rs_modify (\<lambda>r. r\<lparr>sr_dependencies := bs_insert [path] (sr_dependencies r)\<rparr>))"

definition read_export_libs :: "json list \<Rightarrow> (shim_error, string btset) outcome" where
  "read_export_libs arr =
     for_each (\<lambda>d libs. and_then (ok_or (AttributeType ''element of export_libs'' ''str'') (as_str d)) (\<lambda>s. Ok (bs_insert s libs)))
       arr []"

text \<open>The head of a file: its export is added before the rest is looked at.\<close>

definition add_header :: "(string \<times> json) list \<Rightarrow> (json list \<times> string btset option) registry_step" where
  "add_header obj =
     rs_bind (rs_lift (str_attribute obj ''refinedrust_path'')) (\<lambda>path.
     rs_bind (rs_lift (str_attribute obj ''refinedrust_module'')) (\<lambda>module.
     rs_bind (rs_lift (str_attribute obj ''refinedrust_name'')) (\<lambda>_.
     rs_bind (rs_modify (\<lambda>r. r\<lparr>sr_exports := sr_exports r @ [export_from [path] (export_new [module])]\<rparr>)) (\<lambda>_.
     rs_bind (rs_lift (array_attribute obj ''module_dependencies'')) (\<lambda>dependencies.
     rs_bind (rs_each add_dependency dependencies) (\<lambda>_.
     rs_bind (rs_lift (array_attribute obj ''export_libs'')) (\<lambda>arr.
     rs_bind (rs_lift (read_export_libs arr)) (\<lambda>export_libs.
     rs_bind (rs_lift (array_attribute obj ''items'')) (\<lambda>items.
       rs_lift (Ok (items, Some export_libs)))))))))))"

definition add_adt_entry :: "adt_entry \<Rightarrow> shim_registry \<Rightarrow> shim_registry" where
  "add_adt_entry b =
     add_adt_shim \<lparr>as_path = an_path b, as_refinement_type = an_rtype b, as_syn_type = an_syntype b, as_sem_type = an_semtype b,
       as_info = an_info b\<rparr>"

definition add_function_entry :: "shim_kind \<Rightarrow> function_entry \<Rightarrow> shim_registry \<Rightarrow> shim_registry" where
  "add_function_entry kind b r =
     r\<lparr>sr_function_shims := sr_function_shims r @
         [\<lparr>fs_path = fn_path b, fs_is_method = (kind = ShimMethod), fs_name = fn_name b, fs_spec_name = fn_spec b,
           fs_trait_req_incl_name = fn_trait_req_incl b\<rparr>]\<rparr>"

definition add_trait_impl_entry :: "trait_impl_entry \<Rightarrow> shim_registry \<Rightarrow> shim_registry" where
  "add_trait_impl_entry b r =
     r\<lparr>sr_trait_impl_shims := sr_trait_impl_shims r @
         [\<lparr>is_trait_path = in_trait_path b, is_for_type = in_for_type b, is_method_specs = in_method_specs b,
           is_specs = literal_impl_from (in_specs b)\<rparr>]\<rparr>"

definition add_trait_entry :: "trait_entry \<Rightarrow> shim_registry \<Rightarrow> shim_registry" where
  "add_trait_entry b r =
     r\<lparr>sr_trait_shims := sr_trait_shims r @
         [\<lparr>ts_path = tn_path b, ts_name = tn_name b, ts_has_semantic_interp = tn_has_semantic_interp b,
           ts_attrs_dependent = tn_attrs_dependent b, ts_allowed_attrs = tn_allowed_attrs b,
           ts_method_trait_incl_decls = tn_method_trait_incl_decls b\<rparr>]\<rparr>"

definition add_item :: "'f shim_codec \<Rightarrow> json \<Rightarrow> unit registry_step" where
  "add_item C i =
     rs_bind (rs_lift (get_shim_kind i)) (\<lambda>kind.
       case kind of
         ShimAdt \<Rightarrow> rs_bind (rs_lift (ok_or DeserializeError (sc_from_adt C i))) (\<lambda>b. rs_modify (add_adt_entry b))
       | ShimTraitImpl \<Rightarrow>
           rs_bind (rs_lift (ok_or DeserializeError (sc_from_trait_impl C i))) (\<lambda>b. rs_modify (add_trait_impl_entry b))
       | ShimTrait \<Rightarrow> rs_bind (rs_lift (ok_or DeserializeError (sc_from_trait C i))) (\<lambda>b. rs_modify (add_trait_entry b))
       | _ \<Rightarrow> rs_bind (rs_lift (ok_or DeserializeError (sc_from_function C i))) (\<lambda>b. rs_modify (add_function_entry kind b)))"

definition add_source :: "'f shim_codec \<Rightarrow> 'f \<Rightarrow> string btset option registry_step" where
  "add_source C f =
     rs_bind (rs_lift (ok_or DeserializeError (sc_read C f))) (\<lambda>deser.
     rs_bind (case deser of
         JObject obj \<Rightarrow> add_header obj
       | JArray arr \<Rightarrow> rs_lift (Ok (arr, None))
       | _ \<Rightarrow> rs_lift (Err (AttributeType [] ''array or object''))) (\<lambda>(v, export_libs).
     rs_bind (rs_each (add_item C) v) (\<lambda>_. rs_lift (Ok export_libs))))"

section \<open>Writing\<close>

text \<open>\<open>to_value(x).unwrap()\<close> panics.\<close>

definition shim_values ::
  "'f shim_codec \<Rightarrow> adt_shim list \<Rightarrow> function_shim list \<Rightarrow> trait_shim list \<Rightarrow> trait_impl_shim list \<Rightarrow> json list option" where
  "shim_values C adts funs traits impls =
     Option.bind (those (map (\<lambda>x. sc_to_adt C (adt_entry_of x)) adts)) (\<lambda>vs1.
     Option.bind (those (map (\<lambda>x. sc_to_function C (function_entry_of x)) funs)) (\<lambda>vs2.
     Option.bind (those (map (\<lambda>x. sc_to_trait C (trait_entry_of x)) traits)) (\<lambda>vs3.
     Option.bind (those (map (\<lambda>x. Option.bind (trait_impl_entry_of x) (sc_to_trait_impl C)) impls)) (\<lambda>vs4.
       Some (vs1 @ vs2 @ vs3 @ vs4)))))"

definition dir_path_text :: "string list \<Rightarrow> string" where
  "dir_path_text p = join_with ''.'' p"

definition write_shims ::
  "'f shim_codec \<Rightarrow> string \<Rightarrow> string \<Rightarrow> string \<Rightarrow> string list btset \<Rightarrow> string btset \<Rightarrow> adt_shim list \<Rightarrow> function_shim list
    \<Rightarrow> trait_shim list \<Rightarrow> trait_impl_shim list \<Rightarrow> 'f option" where
  "write_shims C load_path load_module name module_dependencies export_libs adts funs traits impls =
     Option.bind (shim_values C adts funs traits impls) (\<lambda>values.
       sc_write C (JObject [(''refinedrust_path'', JString load_path), (''refinedrust_module'', JString load_module),
         (''refinedrust_name'', JString name),
         (''module_dependencies'', JArray (map (\<lambda>d. JString (dir_path_text d)) module_dependencies)),
         (''export_libs'', JArray (map JString export_libs)), (''items'', JArray values)]))"

section \<open>Finding files\<close>

text \<open>The outer \<^term>\<open>None\<close> is the panic at a file that is no JSON.\<close>

definition is_valid_refinedrust_module :: "'f shim_codec \<Rightarrow> 'f \<Rightarrow> string option option" where
  "is_valid_refinedrust_module C f =
     map_option (\<lambda>deser. case deser of
         JObject obj \<Rightarrow>
           Option.bind (map_of obj ''refinedrust_path'') (\<lambda>p. Option.bind (as_str p) (\<lambda>_.
           Option.bind (map_of obj ''refinedrust_module'') (\<lambda>m. Option.bind (as_str m) (\<lambda>_.
           Option.bind (map_of obj ''refinedrust_name'') as_str))))
       | _ \<Rightarrow> None) (sc_read C f)"

text \<open>A directory whose entries cannot be listed, an entry that cannot be read, and a file that cannot be opened are \<^term>\<open>None\<close>.\<close>

datatype 'f fs_node = FsDir "'f fs_node option list option" | FsFile string "string option" "'f option" | FsOther

fun scan_loadpath :: "'f shim_codec \<Rightarrow> 'f fs_node \<Rightarrow> (string \<rightharpoonup> string) \<Rightarrow> (shim_error, string \<rightharpoonup> string) outcome" where
  "scan_loadpath C (FsDir entries) storage =
     (case entries of
        None \<Rightarrow> Err IoError
      | Some es \<Rightarrow>
          for_each (\<lambda>entry storage.
            case entry of
              None \<Rightarrow> Err IoError
            | Some (FsDir es) \<Rightarrow> scan_loadpath C (FsDir es) storage
            | Some (FsFile path ext f) \<Rightarrow>
                if ext = Some ''rrlib'' then
                  and_then (ok_or IoError f) (\<lambda>f. and_then (or_panic (is_valid_refinedrust_module C f)) (\<lambda>name.
                    Ok (case name of Some n \<Rightarrow> storage(n \<mapsto> path) | None \<Rightarrow> storage)))
                else Ok storage
            | Some FsOther \<Rightarrow> Ok storage) es storage)"
| "scan_loadpath C _ storage = Ok storage"

definition scan_loadpaths :: "'f shim_codec \<Rightarrow> 'f fs_node list \<Rightarrow> (shim_error, string \<rightharpoonup> string) outcome" where
  "scan_loadpaths C paths = for_each (scan_loadpath C) paths Map.empty"

section \<open>Laws of the files\<close>

text \<open>What the crates promise: values are read back as they were written, and an entry is an object with its \<open>kind\<close>.\<close>

definition tagged :: "json \<Rightarrow> string \<Rightarrow> bool" where
  "tagged j kind \<longleftrightarrow> (\<exists>obj. j = JObject obj \<and> map_of obj ''kind'' = Some (JString kind))"

locale faithful_codec =
  fixes C :: "'f shim_codec"
  assumes file_codec: "sc_write C j = Some f \<Longrightarrow> sc_read C f = Some j"
    and function_codec: "sc_to_function C e1 = Some j \<Longrightarrow> sc_from_function C j = Some e1 \<and> tagged j (fn_kind e1)"
    and trait_codec: "sc_to_trait C e2 = Some j \<Longrightarrow> sc_from_trait C j = Some e2 \<and> tagged j (tn_kind e2)"
    and trait_impl_codec: "sc_to_trait_impl C e3 = Some j \<Longrightarrow> sc_from_trait_impl C j = Some e3 \<and> tagged j (in_kind e3)"
    and adt_codec: "sc_to_adt C e4 = Some j \<Longrightarrow> sc_from_adt C j = Some e4 \<and> tagged j (an_kind e4)"

lemma get_shim_kind_tagged: "tagged j kind \<Longrightarrow> get_shim_kind j = shim_kind_named kind"
  by (auto simp: tagged_def get_shim_kind_def ok_or_def)

lemma strip_suffix_append [simp]: "strip_suffix suffix (s @ suffix) = Some s"
  by (simp add: strip_suffix_def)

lemma remote_literal_impl_total: "remote_literal_impl l = Some (li_name l, li_has_semantic_interp l)"
  by (simp add: remote_literal_impl_def spec_record_def spec_semantic_def)

lemma rs_simps [simp]:
  "rs_bind (rs_lift (Ok x)) k r = k x r" "rs_lift x r = (x, r)" "rs_bind (rs_modify f) h r = h () (f r)" "rs_modify f r = (Ok (), f r)"
  by (simp_all add: rs_bind_def rs_lift_def rs_modify_def)

text \<open>A loop over encoded elements whose steps all succeed is a fold of their changes.\<close>

lemma rs_each_written:
  assumes "those (map enc xs) = Some vs" and "\<And>x v r. enc x = Some v \<Longrightarrow> f v r = (Ok (), g x r)"
  shows "rs_each f vs r = (Ok (), fold g xs r)"
  using assms(1)
proof (induction xs arbitrary: vs r)
  case (Cons x xs)
  then obtain v vs' where "enc x = Some v" "vs = v # vs'" "those (map enc xs) = Some vs'"
    by (auto split: option.splits)
  with Cons.IH [of vs'] assms(2) show ?case by (simp add: rs_bind_def)
qed simp

lemma rs_each_append: "rs_each f (xs @ ys) r = rs_bind (rs_each f xs) (\<lambda>_. rs_each f ys) r"
  by (induction xs arbitrary: r) (auto simp: rs_bind_def rs_lift_def split: outcome.splits prod.splits)

lemma fold_add_adts: "fold add_adt_shim adts r = r\<lparr>sr_adt_shims := sr_adt_shims r @ adts\<rparr>"
  by (induction adts arbitrary: r) (simp_all add: add_adt_shim_def)

lemma fold_add_functions:
  "fold (\<lambda>s r. r\<lparr>sr_function_shims := sr_function_shims r @ [s]\<rparr>) funs r = r\<lparr>sr_function_shims := sr_function_shims r @ funs\<rparr>"
  by (induction funs arbitrary: r) simp_all

lemma fold_add_traits:
  "fold (\<lambda>s r. r\<lparr>sr_trait_shims := sr_trait_shims r @ [s]\<rparr>) traits r = r\<lparr>sr_trait_shims := sr_trait_shims r @ traits\<rparr>"
  by (induction traits arbitrary: r) simp_all

lemma fold_add_trait_impls:
  "fold (\<lambda>s r. r\<lparr>sr_trait_impl_shims := sr_trait_impl_shims r @ [s]\<rparr>) impls r
     = r\<lparr>sr_trait_impl_shims := sr_trait_impl_shims r @ impls\<rparr>"
  by (induction impls arbitrary: r) simp_all

lemmas fold_add_shims = fold_add_adts fold_add_functions fold_add_traits fold_add_trait_impls

lemmas add_item_simps =
  add_item_def shim_kind_named_def ok_or_def rs_bind_def rs_lift_def rs_modify_def

context faithful_codec
begin

lemma add_written_adts:
  assumes "those (map (\<lambda>x. sc_to_adt C (adt_entry_of x)) adts) = Some vs"
  shows "rs_each (add_item C) vs r = (Ok (), r\<lparr>sr_adt_shims := sr_adt_shims r @ adts\<rparr>)"
proof -
  have "add_item C v r = (Ok (), add_adt_shim x r)" if "sc_to_adt C (adt_entry_of x) = Some v" for x v r
    using adt_codec [OF that] get_shim_kind_tagged [OF adt_codec [OF that, THEN conjunct2]] by (cases x) (simp add: add_item_simps adt_entry_of_def add_adt_entry_def)
  from rs_each_written [where f = "add_item C", OF assms this] show ?thesis by (simp add: fold_add_shims)
qed

lemma add_written_functions:
  assumes "those (map (\<lambda>x. sc_to_function C (function_entry_of x)) funs) = Some vs"
  shows "rs_each (add_item C) vs r = (Ok (), r\<lparr>sr_function_shims := sr_function_shims r @ funs\<rparr>)"
proof -
  have "add_item C v r = (Ok (), r\<lparr>sr_function_shims := sr_function_shims r @ [x]\<rparr>)"
    if "sc_to_function C (function_entry_of x) = Some v" for x v r
    using function_codec [OF that] get_shim_kind_tagged [OF function_codec [OF that, THEN conjunct2]]
    by (cases "fs_is_method x") (simp_all add: add_item_simps function_entry_of_def add_function_entry_def)
  from rs_each_written [where f = "add_item C", OF assms this] show ?thesis by (simp add: fold_add_shims)
qed

lemma add_written_traits:
  assumes "those (map (\<lambda>x. sc_to_trait C (trait_entry_of x)) traits) = Some vs"
  shows "rs_each (add_item C) vs r = (Ok (), r\<lparr>sr_trait_shims := sr_trait_shims r @ traits\<rparr>)"
proof -
  have "add_item C v r = (Ok (), r\<lparr>sr_trait_shims := sr_trait_shims r @ [x]\<rparr>)"
    if "sc_to_trait C (trait_entry_of x) = Some v" for x v r
    using trait_codec [OF that] get_shim_kind_tagged [OF trait_codec [OF that, THEN conjunct2]] by (simp add: add_item_simps trait_entry_of_def add_trait_entry_def)
  from rs_each_written [where f = "add_item C", OF assms this] show ?thesis by (simp add: fold_add_shims)
qed

lemma add_written_trait_impls:
  assumes "those (map (\<lambda>x. Option.bind (trait_impl_entry_of x) (sc_to_trait_impl C)) impls) = Some vs"
  shows "rs_each (add_item C) vs r = (Ok (), r\<lparr>sr_trait_impl_shims := sr_trait_impl_shims r @ impls\<rparr>)"
proof -
  have "add_item C v r = (Ok (), r\<lparr>sr_trait_impl_shims := sr_trait_impl_shims r @ [x]\<rparr>)"
    if "Option.bind (trait_impl_entry_of x) (sc_to_trait_impl C) = Some v" for x v r
  proof -
    from that obtain e where e: "trait_impl_entry_of x = Some e" "sc_to_trait_impl C e = Some v"
      by (auto simp: bind_eq_Some_conv)
    with trait_impl_codec [OF e(2)] get_shim_kind_tagged [OF trait_impl_codec [OF e(2), THEN conjunct2]] show ?thesis
      by (auto simp: add_item_simps trait_impl_entry_of_def remote_literal_impl_total add_trait_impl_entry_def
          literal_impl_from_def)
  qed
  from rs_each_written [where f = "add_item C", OF assms this] show ?thesis by (simp add: fold_add_shims)
qed

lemma add_written_shims:
  assumes "shim_values C adts funs traits impls = Some vs"
  shows "rs_each (add_item C) vs r = (Ok (), r\<lparr>sr_adt_shims := sr_adt_shims r @ adts,
    sr_function_shims := sr_function_shims r @ funs, sr_trait_shims := sr_trait_shims r @ traits,
    sr_trait_impl_shims := sr_trait_impl_shims r @ impls\<rparr>)"
proof -
  from assms obtain vs1 vs2 vs3 vs4 where "vs = vs1 @ vs2 @ vs3 @ vs4"
    and "those (map (\<lambda>x. sc_to_adt C (adt_entry_of x)) adts) = Some vs1"
    and "those (map (\<lambda>x. sc_to_function C (function_entry_of x)) funs) = Some vs2"
    and "those (map (\<lambda>x. sc_to_trait C (trait_entry_of x)) traits) = Some vs3"
    and "those (map (\<lambda>x. Option.bind (trait_impl_entry_of x) (sc_to_trait_impl C)) impls) = Some vs4"
    by (auto simp: shim_values_def bind_eq_Some_conv)
  then show ?thesis
    by (simp add: rs_each_append rs_bind_def add_written_adts add_written_functions add_written_traits add_written_trait_impls)
qed

lemma add_written_header:
  assumes "bs_ok libs"
  shows "add_header [(''refinedrust_path'', JString path), (''refinedrust_module'', JString module),
      (''refinedrust_name'', JString name), (''module_dependencies'', JArray (map (\<lambda>d. JString (dir_path_text d)) deps)),
      (''export_libs'', JArray (map JString libs)), (''items'', JArray vs)] r =
    (Ok (vs, Some libs), r\<lparr>sr_exports := sr_exports r @ [export_from [path] (export_new [module])],
       sr_dependencies := fold (\<lambda>d. bs_insert [dir_path_text d]) deps (sr_dependencies r)\<rparr>)"
proof -
  have deps: "rs_each add_dependency (map (\<lambda>d. JString (dir_path_text d)) deps) r =
      (Ok (), r\<lparr>sr_dependencies := fold (\<lambda>d. bs_insert [dir_path_text d]) deps (sr_dependencies r)\<rparr>)" for r
    by (induction deps arbitrary: r) (simp_all add: rs_bind_def add_dependency_def ok_or_def rs_lift_def rs_modify_def)
  have "for_each (\<lambda>d libs. and_then (ok_or (AttributeType ''element of export_libs'' ''str'') (as_str d)) (\<lambda>s. Ok (bs_insert s libs)))
      (map JString xs) acc = Ok (fold bs_insert xs acc)" for xs acc
    by (induction xs arbitrary: acc) (simp_all add: ok_or_def)
  then have libs: "read_export_libs (map JString libs) = Ok libs"
    using bs_from_sorted [OF assms] by (simp add: read_export_libs_def bs_from_def)
  show ?thesis
    by (simp add: add_header_def str_attribute_def array_attribute_def ok_or_def rs_bind_def rs_lift_def rs_modify_def deps libs)
qed

lemma written_shims_read:
  assumes "write_shims C path module name deps libs adts funs traits impls = Some f" and "bs_ok libs"
  shows "add_source C f r = (Ok (Some libs), r\<lparr>sr_exports := sr_exports r @ [export_from [path] (export_new [module])],
    sr_dependencies := fold (\<lambda>d. bs_insert [dir_path_text d]) deps (sr_dependencies r),
    sr_adt_shims := sr_adt_shims r @ adts, sr_function_shims := sr_function_shims r @ funs,
    sr_trait_shims := sr_trait_shims r @ traits, sr_trait_impl_shims := sr_trait_impl_shims r @ impls\<rparr>)"
    and "is_valid_refinedrust_module C f = Some (Some name)"
proof -
  from assms(1) obtain vs where vs: "shim_values C adts funs traits impls = Some vs"
    and f: "sc_write C (JObject [(''refinedrust_path'', JString path), (''refinedrust_module'', JString module),
        (''refinedrust_name'', JString name), (''module_dependencies'', JArray (map (\<lambda>d. JString (dir_path_text d)) deps)),
        (''export_libs'', JArray (map JString libs)), (''items'', JArray vs)]) = Some f"
    by (auto simp: write_shims_def bind_eq_Some_conv)
  note read = file_codec [OF f]
  show "add_source C f r = (Ok (Some libs), r\<lparr>sr_exports := sr_exports r @ [export_from [path] (export_new [module])],
    sr_dependencies := fold (\<lambda>d. bs_insert [dir_path_text d]) deps (sr_dependencies r),
    sr_adt_shims := sr_adt_shims r @ adts, sr_function_shims := sr_function_shims r @ funs,
    sr_trait_shims := sr_trait_shims r @ traits, sr_trait_impl_shims := sr_trait_impl_shims r @ impls\<rparr>)"
    by (simp add: add_source_def read ok_or_def rs_bind_def rs_lift_def add_written_header [OF assms(2)]
        add_written_shims [OF vs])
  show "is_valid_refinedrust_module C f = Some (Some name)"
    by (simp add: is_valid_refinedrust_module_def read)
qed

end

section \<open>A codec\<close>

text \<open>
  An encoding of the entries that keeps the promise, close to the derived one: a file is its value, an enum a tag with
  its contents.
\<close>

definition strs :: "string list \<Rightarrow> json" where
  "strs xs = JArray (map JString xs)"

fun unstrs :: "json \<Rightarrow> string list option" where
  "unstrs (JArray xs) = those (map as_str xs)"
| "unstrs _ = None"

fun flat_to_json :: "flat_type \<Rightarrow> json" and path_to_json :: "path_with_args \<Rightarrow> json" where
  "flat_to_json (FlatAdt p) = JArray [JString ''Adt'', path_to_json p]"
| "flat_to_json (FlatInt i) = JArray [JString ''Int'', JNumber i]"
| "flat_to_json (FlatUint i) = JArray [JString ''Uint'', JNumber i]"
| "flat_to_json FlatChar = JArray [JString ''Char'', JNull]"
| "flat_to_json FlatBool = JArray [JString ''Bool'', JNull]"
| "flat_to_json (FlatParam i) = JArray [JString ''Param'', JNumber i]"
| "flat_to_json (FlatRef i m f) = JArray [JNumber i, JNumber m, flat_to_json f]"
| "flat_to_json (FlatRawPtr m f) = JArray [JNumber m, flat_to_json f]"
| "path_to_json (PathWithArgs path args) =
     JArray [strs path, JArray (map (\<lambda>a. case a of Some f \<Rightarrow> flat_to_json f | None \<Rightarrow> JNull) args)]"

fun json_to_flat :: "json \<Rightarrow> flat_type option" and json_to_path :: "json \<Rightarrow> path_with_args option" where
  "json_to_flat (JArray [JString k, v]) =
     (if k = ''Adt'' then map_option FlatAdt (json_to_path v)
      else if k = ''Int'' then (case v of JNumber i \<Rightarrow> Some (FlatInt i) | _ \<Rightarrow> None)
      else if k = ''Uint'' then (case v of JNumber i \<Rightarrow> Some (FlatUint i) | _ \<Rightarrow> None)
      else if k = ''Char'' then Some FlatChar
      else if k = ''Bool'' then Some FlatBool
      else (case v of JNumber i \<Rightarrow> Some (FlatParam i) | _ \<Rightarrow> None))"
| "json_to_flat (JArray [JNumber i, JNumber m, v]) = map_option (FlatRef i m) (json_to_flat v)"
| "json_to_flat (JArray [JNumber m, v]) = map_option (FlatRawPtr m) (json_to_flat v)"
| "json_to_flat _ = None"
| "json_to_path (JArray [p, JArray vs]) =
     Option.bind (unstrs p) (\<lambda>path.
       map_option (PathWithArgs path) (those (map (\<lambda>v. if v = JNull then Some None else map_option Some (json_to_flat v)) vs)))"
| "json_to_path _ = None"

lemma those_all_Some: "those (map Some xs) = Some xs"
  by (induction xs) auto

lemma unstrs_strs [simp]: "unstrs (strs xs) = Some xs"
  by (simp add: strs_def comp_def those_all_Some)

lemma flat_to_json_not_null [simp]: "flat_to_json f \<noteq> JNull"
  by (cases f) auto

lemma json_to_flat_inverse:
  "json_to_flat (flat_to_json f) = Some f" "json_to_path (path_to_json p) = Some p"
proof (induction f and p rule: flat_to_json_path_to_json.induct)
  case (9 path args)
  have "those (map (\<lambda>v. if v = JNull then Some None else map_option Some (json_to_flat v))
      (map (\<lambda>a. case a of Some f \<Rightarrow> flat_to_json f | None \<Rightarrow> JNull) args)) = Some args"
    using 9 by (induction args) (auto split: option.splits)
  then show ?case by simp
qed simp_all

definition pairs_to_json :: "('a \<Rightarrow> json) \<Rightarrow> (string \<times> 'a) list \<Rightarrow> json" where
  "pairs_to_json g m = JObject (map (\<lambda>(k, v). (k, g v)) m)"

definition json_to_pairs :: "(json \<Rightarrow> 'a option) \<Rightarrow> json \<Rightarrow> (string \<times> 'a) list option" where
  "json_to_pairs g j = Option.bind (as_object j) (\<lambda>obj. those (map (\<lambda>(k, v). map_option (Pair k) (g v)) obj))"

lemma json_to_pairs_inverse: "(\<And>x. h (g x) = Some x) \<Longrightarrow> json_to_pairs h (pairs_to_json g m) = Some m"
  by (induction m) (auto simp: json_to_pairs_def pairs_to_json_def)

definition fields :: "json \<Rightarrow> json list option" where
  "fields j = map_option (map snd) (as_object j)"

definition plain_codec :: "json shim_codec" where
  "plain_codec =
     \<lparr>sc_read = Some, sc_write = Some,
      sc_to_function = (\<lambda>e. Some (JObject [(''kind'', JString (fn_kind e)), (''path'', strs (fn_path e)), (''name'', JString (fn_name e)),
        (''spec'', JString (fn_spec e)), (''trait_req_incl'', JString (fn_trait_req_incl e))])),
      sc_from_function = (\<lambda>j. case fields j of
          Some [JString k, p, JString n, JString s, JString t] \<Rightarrow>
            map_option (\<lambda>path. \<lparr>fn_path = path, fn_kind = k, fn_name = n, fn_spec = s, fn_trait_req_incl = t\<rparr>) (unstrs p)
        | _ \<Rightarrow> None),
      sc_to_trait = (\<lambda>e. Some (JObject [(''kind'', JString (tn_kind e)), (''path'', strs (tn_path e)), (''name'', JString (tn_name e)),
        (''has_semantic_interp'', JBool (tn_has_semantic_interp e)), (''attrs_dependent'', JBool (tn_attrs_dependent e)),
        (''allowed_attrs'', strs (tn_allowed_attrs e)),
        (''method_trait_incl_decls'', pairs_to_json JString (tn_method_trait_incl_decls e))])),
      sc_from_trait = (\<lambda>j. case fields j of
          Some [JString k, p, JString n, JBool s, JBool d, a, m] \<Rightarrow>
            Option.bind (unstrs p) (\<lambda>path. Option.bind (unstrs a) (\<lambda>attrs.
              map_option (\<lambda>decls. \<lparr>tn_path = path, tn_kind = k, tn_name = n, tn_has_semantic_interp = s, tn_attrs_dependent = d,
                tn_allowed_attrs = attrs, tn_method_trait_incl_decls = decls\<rparr>) (json_to_pairs as_str m)))
        | _ \<Rightarrow> None),
      sc_to_trait_impl = (\<lambda>e. Some (JObject [(''kind'', JString (in_kind e)), (''trait_path'', path_to_json (in_trait_path e)),
        (''for_type'', flat_to_json (in_for_type e)),
        (''method_specs'', pairs_to_json (\<lambda>(a, b, c). strs [a, b, c]) (in_method_specs e)),
        (''name'', JString (fst (in_specs e))), (''has_semantic_interp'', JBool (snd (in_specs e)))])),
      sc_from_trait_impl = (\<lambda>j. case fields j of
          Some [JString k, p, t, m, JString n, JBool s] \<Rightarrow>
            Option.bind (json_to_path p) (\<lambda>path. Option.bind (json_to_flat t) (\<lambda>ty.
              map_option (\<lambda>specs. \<lparr>in_trait_path = path, in_for_type = ty, in_kind = k, in_method_specs = specs, in_specs = (n, s)\<rparr>)
                (json_to_pairs (\<lambda>v. Option.bind (unstrs v) (\<lambda>xs. case xs of [a, b, c] \<Rightarrow> Some (a, b, c) | _ \<Rightarrow> None)) m)))
        | _ \<Rightarrow> None),
      sc_to_adt = (\<lambda>e. Some (JObject [(''kind'', JString (an_kind e)), (''path'', strs (an_path e)), (''syntype'', JString (an_syntype e)),
        (''rtype'', JString (an_rtype e)), (''semtype'', JString (an_semtype e)),
        (''enum_name'', (case ai_enum_name (an_info e) of Some n \<Rightarrow> JString n | None \<Rightarrow> JNull)),
        (''needs_trait_attrs'', JBool (ai_needs_trait_attrs (an_info e)))])),
      sc_from_adt = (\<lambda>j. case fields j of
          Some [JString k, p, JString a, JString b, JString c, n, JBool d] \<Rightarrow>
            map_option (\<lambda>path. \<lparr>an_path = path, an_kind = k, an_syntype = a, an_rtype = b, an_semtype = c,
              an_info = \<lparr>ai_enum_name = as_str n, ai_needs_trait_attrs = d\<rparr>\<rparr>) (unstrs p)
        | _ \<Rightarrow> None)\<rparr>"

interpretation plain_codec: faithful_codec plain_codec
proof
  have triple: "(\<lambda>v. Option.bind (unstrs v) (\<lambda>xs. case xs of [a, b, c] \<Rightarrow> Some (a, b, c) | _ \<Rightarrow> None))
      ((\<lambda>(a, b, c). strs [a, b, c]) x) = Some x" for x :: "string \<times> string \<times> string"
    by (cases x) simp
  note triples = json_to_pairs_inverse [OF triple]
  have names: "json_to_pairs as_str (pairs_to_json JString m) = Some m" for m by (rule json_to_pairs_inverse) simp
  fix j f e1 e2 e3 e4
  show "sc_write plain_codec j = Some f \<Longrightarrow> sc_read plain_codec f = Some j" by (simp add: plain_codec_def)
  show "sc_to_function plain_codec e1 = Some j \<Longrightarrow> sc_from_function plain_codec j = Some e1 \<and> tagged j (fn_kind e1)"
    by (auto simp: plain_codec_def fields_def tagged_def)
  show "sc_to_trait plain_codec e2 = Some j \<Longrightarrow> sc_from_trait plain_codec j = Some e2 \<and> tagged j (tn_kind e2)"
    by (auto simp: plain_codec_def fields_def tagged_def names)
  show "sc_to_trait_impl plain_codec e3 = Some j \<Longrightarrow> sc_from_trait_impl plain_codec j = Some e3 \<and> tagged j (in_kind e3)"
    by (auto simp: plain_codec_def fields_def tagged_def triples json_to_flat_inverse simp del: unstrs.simps)
  show "sc_to_adt plain_codec e4 = Some j \<Longrightarrow> sc_from_adt plain_codec j = Some e4 \<and> tagged j (an_kind e4)"
    by (cases "ai_enum_name (an_info e4)") (auto simp: plain_codec_def fields_def tagged_def)
qed

section \<open>Properties\<close>

text \<open>
  C40. A file of shims that is written is read back: loading it adds exactly the shims, the export and the libraries it
  was written with, in order, and leaves everything else of the registry alone; the file is recognized as the module.
  A dependency comes back as one component with the text of its path. The serializer must be faithful.
\<close>

theorem shims_round_trip:
  assumes "faithful_codec C" and "write_shims C path module name deps libs adts funs traits impls = Some f" and "bs_ok libs"
  shows "add_source C f r = (Ok (Some libs), r\<lparr>sr_exports := sr_exports r @ [export_from [path] (export_new [module])],
      sr_dependencies := fold (\<lambda>d. bs_insert [dir_path_text d]) deps (sr_dependencies r),
      sr_adt_shims := sr_adt_shims r @ adts, sr_function_shims := sr_function_shims r @ funs,
      sr_trait_shims := sr_trait_shims r @ traits, sr_trait_impl_shims := sr_trait_impl_shims r @ impls\<rparr>)
    \<and> is_valid_refinedrust_module C f = Some (Some name)"
  using faithful_codec.written_shims_read [OF assms] by blast

text \<open>A file with a method and a dependency of two components.\<close>

theorem shims_round_trip_witness:
  "\<exists>f. write_shims plain_codec ''p'' ''m'' ''n'' [[''a'', ''b'']] [''lib''] []
       [\<lparr>fs_path = [''c'', ''f''], fs_is_method = True, fs_name = ''f'', fs_spec_name = ''f_spec'', fs_trait_req_incl_name = ''f_incl''\<rparr>] [] []
       = Some f
     \<and> sr_dependencies (snd (add_source plain_codec f sr_empty)) = [[''a.b'']]
     \<and> map fs_is_method (sr_function_shims (snd (add_source plain_codec f sr_empty))) = [True]"
proof -
  let ?funs = "[\<lparr>fs_path = [''c'', ''f''], fs_is_method = True, fs_name = ''f'', fs_spec_name = ''f_spec'',
    fs_trait_req_incl_name = ''f_incl''\<rparr>]"
  have "write_shims plain_codec ''p'' ''m'' ''n'' [[''a'', ''b'']] [''lib''] [] ?funs [] [] \<noteq> None"
    by (simp add: write_shims_def shim_values_def plain_codec_def)
  then obtain f where f: "write_shims plain_codec ''p'' ''m'' ''n'' [[''a'', ''b'']] [''lib''] [] ?funs [] [] = Some f" by blast
  have "bs_ok [''lib'']" by (simp add: bs_ok_def)
  from shims_round_trip [OF plain_codec.faithful_codec_axioms f this, of sr_empty] f show ?thesis
    by (simp add: sr_empty_def dir_path_text_def bs_insert_def)
qed

text \<open>
  An error keeps what was added before it: an unknown kind after a header leaves the export and the dependencies in the
  registry.
\<close>

lemma failed_source_keeps_export:
  "add_source plain_codec (JObject [(''refinedrust_path'', JString ''p''), (''refinedrust_module'', JString ''m''),
     (''refinedrust_name'', JString ''n''), (''module_dependencies'', JArray [JNull])]) sr_empty =
   (Err (AttributeType ''element of module_dependencies'' ''str''), sr_empty\<lparr>sr_exports := [export_from [''p''] (export_new [''m''])]\<rparr>)"
  by (simp add: add_source_def plain_codec_def add_header_def str_attribute_def array_attribute_def ok_or_def rs_bind_def
      rs_lift_def rs_modify_def add_dependency_def sr_empty_def)

end
