(* ===== verification/Spec2Isabelle.thy ===== *)
theory Spec2Isabelle
  imports InitAnalysis RustCmp Punctuated ProcedureLoops ZombieLoans InclusionTracker Unification PureProps LoopSpec ClosureSpec BodyScope BodyFinish TraitResolution TraitRequirements ShimRegistry
begin

text \<open>
  Verification of the RefinedRust frontend (\<open>src/rr_frontend\<close>), the Rust program that translates
  annotated Rust crates into Rocq files. The frontend runs inside the compiler: for each function it
  analyses the control flow and the initialization of places (crate \<open>analysis\<close>, module
  \<open>environment\<close>), reads the borrow checker's facts and keeps track of lifetime inclusions
  (\<open>environment/polonius_info.rs\<close>, \<open>regions\<close>), parses the tool attributes of the items into
  specifications (crate \<open>attribute_parse\<close>, module \<open>spec_parsers\<close>), and hands types, code and
  specifications to the crate \<open>radium\<close>, which prints them. The theories follow that order.

  \<^bold>\<open>Conventions.\<close> A fallible function is an \<open>outcome\<close> (\<open>Ok\<close>, \<open>Err\<close> or \<open>Panic\<close>; theory \<open>Prelude\<close>), or an
  \<^typ>\<open>'a option\<close> when it can only panic. Mutable variables of a function become the state of a fold or
  of a record that is passed on; an early return is the \<open>Err\<close> of \<open>and_then\<close> and \<open>for_each\<close>. \<open>usize\<close> and
  the compiler's index types are naturals: they count elements of vectors in memory and are only
  increased by one, so they cannot wrap; the loop counters of the fixpoint engine are 32-bit words, as in
  the code. The debug assertions of \<open>ProcedureLoops::new\<close> are in the model, checked when its argument \<open>dbg\<close> is set
  (one fails at a block that jumps to itself). The others are left out, as in a release build. That the
  initialization state is an antichain, which some of them check, is proved for moving out of a place and for
  the join, and for initializing a place where the places are consistent; \<open>two_variants_break_invariant\<close> shows
  that it fails otherwise. \<open>BTreeSet\<close> and \<open>BTreeMap\<close> are sorted lists (\<open>BTree\<close>), \<open>HashSet\<close> and \<open>HashMap\<close> sets and partial
  maps where their order is not observed. What the compiler computes (successors, predecessors,
  dominators, types of places, path hashes) and what other crates do (\<open>datafrog\<close>, \<open>regex\<close>,
  \<open>indent_write\<close>) enters as arguments; a law that is needed is a hypothesis or the promise of a locale.

  \<^bold>\<open>Dataflow analyses\<close> (\<open>analysis/src\<close>). \<open>MirSyntax\<close> is the part of MIR the code matches on.
  \<open>PointwiseState\<close> is \<open>pointwise_state.rs\<close>; \<open>FixpointEngine\<close> is the trait and the worklist loop of
  \<open>abstract_interpretation/\<close>. \<open>FixpointSound\<close> proves that the result is a fixed point and covers
  every execution (locale \<open>sound_abstraction\<close>), \<open>FixpointTermination\<close> that the loop ends for monotone clients of
  finite height (locale \<open>monotone_engine\<close>). \<open>DefinitelyAllocated\<close> and \<open>DefinitelyInitialized\<close> are the two
  domains, \<open>Places\<close> the place algebra of \<open>domains/definitely_initialized/utils.rs\<close>; \<open>InitAnalysis\<close> has the
  soundness of the second domain and its consumer \<open>mir_analyses/initialization.rs\<close>.

  \<^bold>\<open>Orders.\<close> \<open>Comparison\<close> (Rust's \<open>Ordering\<close>), \<open>PlaceOrder\<close> and \<open>OrderLaws\<close> (\<open>utils.rs\<close>: the comparators obey the
  contract of a sort), \<open>RustCmp\<close> (\<open>translation/src/rustcmp.rs\<close>).

  \<^bold>\<open>Control flow\<close> (\<open>translation/src/environment\<close>). \<open>RealEdges\<close> is \<open>mir_utils/real_edges.rs\<close>, \<open>BlockOrder\<close> and
  \<open>ProcedureLoops\<close> are \<open>loops.rs\<close>. The recursive depth-first search has fuel for its recursion depth, one
  more than the number of blocks; it never runs out, since each nested visit marks a new block
  (\<open>visit_fuel\<close>, \<open>order_loop_fuel\<close>).

  \<^bold>\<open>Lifetimes.\<close> \<open>Datalog\<close> states what the engine of \<open>datafrog\<close> promises (locale \<open>datalog\<close>, interpreted on naive
  iteration). \<open>Polonius\<close> and \<open>ZombieLoans\<close> are \<open>borrowck/facts.rs\<close>, \<open>region_folder.rs\<close> and \<open>polonius_info.rs\<close>;
  \<open>InclusionTracker\<close> is \<open>regions/inclusion_tracker.rs\<close>. The lemmas compare the derived relations with
  the rules in the comments; those on the tracker go through sequences of its operations, with the two orders of
  operations that make it lose track of its facts (\<open>late_barrier_example\<close>, \<open>static_query_hides_fact\<close>). \<open>RegionAnnots\<close> is the region map of a function and the annotations of assignments and
  calls (\<open>regions/mod.rs\<close>, \<open>assignment.rs\<close>, \<open>composite.rs\<close>, \<open>calls.rs\<close>), \<open>RegionBiFold\<close> the parallel traversal of two types
  (\<open>region_bi_folder.rs\<close>) with the initial constraints of \<open>init.rs\<close>, \<open>RegionFold\<close> the folders of \<open>arg_folder.rs\<close>. What the
  compiler does below the methods they override, \<open>super_fold_with\<close>, is their parameter, the record \<open>traversal\<close>; the law
  \<open>traversal_ok\<close> is what the lemmas need of it, and a traversal that has it is \<open>structural\<close>.
  \<open>map_tys\<close> normalizes at each step, so its recursion has fuel; more than the size of the types is enough
  (\<open>map_tys_visits\<close>).

  \<^bold>\<open>Definitions and traits.\<close> \<open>DefQueries\<close> are the queries of \<open>environment/mod.rs\<close> and \<open>traits/mod.rs\<close>, the visitor
  of the items of a crate, and the search for definitions by path (\<open>search.rs\<close>), whose comparison of types is \<open>Unification\<close>
  (\<open>unification.rs\<close>; it finds renamings only in the types that \<open>searched\<close> describes). \<open>TraitRequirements\<close> orders the trait requirements of an item (\<open>traits/requirements.rs\<close>) and
  \<open>DefOrder\<close> names and orders definitions (\<open>base.rs\<close>), both with the crate \<open>topological_sort\<close> (locale
  \<open>topological_sort\<close>, interpreted on lists); \<open>sort_by\<close> is a parameter that sorts by total orders and may panic for other
  comparisons. \<open>TraitResolution\<close> resolves a trait to an implementation and recovers its
  lifetimes (\<open>traits/resolution.rs\<close>). \<open>FlatTypes\<close> writes types so that another compilation can read them
  (\<open>shims/flat.rs\<close>); the round trip goes from the tables of one crate to those of another, along the paths of
  definitions. \<open>ShimRegistry\<close> keeps and stores the shims (\<open>shims/registry.rs\<close>; locale \<open>faithful_codec\<close> for the serializer,
  interpreted on an encoding of the entries). \<open>Procedures\<close> are the registries of functions, statics and constants
  (\<open>procedures.rs\<close>, \<open>consts.rs\<close>).

  \<^bold>\<open>Translation of bodies\<close> (\<open>translation/src/body/translation\<close>). \<open>CaesiumSyntax\<close> is the target language with its
  printing and the function builder (\<open>radium/src/code.rs\<close>, \<open>lang.rs\<close>). \<open>BodyState\<close> is the state of the translation, passed
  by the actions \<open>tx_bind\<close>; what it reads of the compiler and of the type translator is the record \<open>tx_env\<close>. \<open>BodyExpr\<close>
  translates places, constants and values, \<open>BodyBlocks\<close> statements, calls and terminators, \<open>BodyTranslate\<close> sets up the
  state and runs the queue of blocks (a partial function, proved to return), \<open>BodyFinish\<close> adds the loop specifications
  and the requirements. \<open>SampleBody\<close> is a body to evaluate; \<open>BodyFlow\<close> proves that the generated code has the control
  flow of the body and, with the evaluation of switches in Caesium (\<open>theories/caesium/lang.v\<close>, \<open>val.v\<close>, \<open>heap.v\<close>), that
  switches choose the blocks of the body except at negative values; \<open>BodyScope\<close> that it prints and that its names are declared.

  \<^bold>\<open>Attribute tokens\<close> (\<open>attribute_parse/src/parse.rs\<close>). \<open>TokenBuffer\<close> is the cursor and the token table,
  \<open>Punctuated\<close> the sequences with their two parsing loops. A loop is a partial function; with element
  parsers that consume tokens (locales \<open>steady_parser\<close>, \<open>consuming_parser\<close>, \<open>eager_parser\<close>) it returns.

  \<^bold>\<open>Specifications\<close> (\<open>translation/src/spec_parsers\<close>). \<open>AttributeParsers\<close> are the argument parsers of all files
  of the module, \<open>ToolAttributes\<close> the attributes themselves (\<open>attrs.rs\<close>, \<open>mod.rs\<close>), \<open>ItemAttributes\<close> the
  passes over the attributes of crates, modules, constants, enums, structs, traits and trait
  implementations, \<open>LoopSpec\<close> the loop invariants, \<open>FunctionSpec\<close> functions with the builder of
  \<open>radium/src/specs/functions.rs\<close>, \<open>ClosureSpec\<close> closures. The lemmas say when the parsers return, when they
  panic, what an accepted specification contains, and that passes over the same attributes agree.

  \<^bold>\<open>Rocq syntax\<close> (\<open>radium/src/coq\<close>, \<open>model.rs\<close>). \<open>CoqSyntax\<close> has terms, types, binders and propositions with
  their printing, on the bytes of UTF-8 strings; \<open>PureProps\<close> shows that purifying a proposition keeps its
  meaning.

  \<^bold>\<open>Not modelled.\<close> The termination of the definitely-initialized analysis (its join is not proved monotone
  here). The interpretation of escapes in literals and of places (\<open>parse_utils.rs\<close>: regular expressions and
  parser combinators of other crates), which is the parameter \<open>pe_process\<close>. The translation of types and of
  signatures (\<open>types/translator.rs\<close>, \<open>types/scope.rs\<close>, \<open>types/local.rs\<close>, \<open>body/signature.rs\<close>), the registry of traits
  beyond its keys (\<open>traits/registry.rs\<close>), the generated closure implementations and the driver of the crate
  (\<open>lib.rs\<close>): they intertwine queries of the compiler with text for \<open>radium\<close>, and enter the translation of
  bodies as parameters. Regions inside constants. The printing of specifications, enums, structs and proofs in \<open>radium\<close>, the
  configuration, the driver binaries, and the annotated Rust programs that are the tool's input.
\<close>

end
